(* ===== verification/Prelude.thy ===== *)
theory Prelude
  imports Complex_Main "HOL-Library.AList"
begin

text \<open>
  Shared vocabulary of the development: the collections of simplification facts the
  component theories fill (\<open>js_num\<close> for number facts, \<open>step_defs\<close> for the operations
  of a component), iteration of an operation over a list of inputs, and a few facts on
  lists and maps that several components use.
\<close>

named_theorems js_order "order facts on JavaScript numbers"
named_theorems frame_simps "fields an operation leaves alone"

section \<open>Runs of a state transformer\<close>

fun run_steps :: "('s \<Rightarrow> 'i \<Rightarrow> 's) \<Rightarrow> 's \<Rightarrow> 'i list \<Rightarrow> 's" where
  "run_steps f s [] = s"
| "run_steps f s (i # is) = run_steps f (f s i) is"

lemma run_steps_append: "run_steps f s (xs @ ys) = run_steps f (run_steps f s xs) ys"
  by (induction xs arbitrary: s) auto

lemma run_steps_invariant:
  assumes "\<And>s i. P s \<Longrightarrow> P (f s i)" and "P s"
  shows "P (run_steps f s is)"
  using assms(2) by (induction "is" arbitrary: s) (auto intro: assms(1))

section \<open>Partial steps: a step that throws ends the run\<close>

fun run_partial :: "('s \<Rightarrow> 'e \<Rightarrow> 's option) \<Rightarrow> 's \<Rightarrow> 'e list \<Rightarrow> 's option" where
  "run_partial f s [] = Some s"
| "run_partial f s (e # es) = (case f s e of None \<Rightarrow> None | Some t \<Rightarrow> run_partial f t es)"

lemma run_partial_append:
  "run_partial f s (xs @ ys) = Option.bind (run_partial f s xs) (\<lambda>t. run_partial f t ys)"
  by (induction xs arbitrary: s) (auto split: option.splits)

section \<open>Lists and maps\<close>

lemma filter_length_less_iff: "length (filter P xs) < length xs \<longleftrightarrow> (\<exists>x\<in>set xs. \<not> P x)"
  by (induction xs) (auto intro: le_imp_less_Suc)

lemma find_Some_iff_set: "find P xs = Some x \<Longrightarrow> x \<in> set xs \<and> P x"
  by (auto simp: find_Some_iff)

lemma sum_list_filter_partition:
  "sum_list (map f (filter P xs)) + sum_list (map f (filter (\<lambda>x. \<not> P x) xs))
     = sum_list (map (f :: 'a \<Rightarrow> 'b::comm_monoid_add) xs)"
  by (induction xs) (auto simp: algebra_simps)

lemma upto_split_at: "i \<le> m + 1 \<Longrightarrow> m \<le> k \<Longrightarrow> [i..k] = [i..m] @ [m + 1..k]"
  using upto_split1 [of i "m + 1" k] by (cases "m = k") auto

text \<open>The last element of a list, as JavaScript's \<open>at(-1)\<close> reads it.\<close>

definition last_opt :: "'a list \<Rightarrow> 'a option" where
  "last_opt xs = (if xs = [] then None else Some (last xs))"

lemma last_opt_simps [simp]: "last_opt [] = None" "last_opt (xs @ [x]) = Some x"
  by (auto simp: last_opt_def)

lemma last_opt_in_set: "last_opt xs = Some x \<Longrightarrow> x \<in> set xs"
  by (auto simp: last_opt_def split: if_splits)

text \<open>Array access as the language has it: \<open>undefined\<close> out of range.\<close>

definition nth_opt :: "'a list \<Rightarrow> int \<Rightarrow> 'a option" where
  "nth_opt xs i = (if 0 \<le> i \<and> i < int (length xs) then Some (xs ! nat i) else None)"

lemma nth_opt_append:
  "0 \<le> i \<Longrightarrow> i < int (length xs) \<Longrightarrow> nth_opt (xs @ ys) i = nth_opt xs i"
  by (auto simp: nth_opt_def nth_append)

lemma nth_opt_Some_bounds: "nth_opt xs i = Some x \<Longrightarrow> 0 \<le> i \<and> i < int (length xs)"
  by (auto simp: nth_opt_def split: if_splits)

text \<open>\<open>slice(-n)\<close>.\<close>

definition last_n :: "nat \<Rightarrow> 'a list \<Rightarrow> 'a list" where
  "last_n n xs = drop (length xs - n) xs"

lemma last_n_all: "length xs \<le> n \<Longrightarrow> last_n n xs = xs"
  by (simp add: last_n_def)

text \<open>Association lists keep the insertion order of a JavaScript \<open>Map\<close>.\<close>

lemma set_update_subset: "set (AList.update k v m) \<subseteq> insert (k, v) (set m)"
  by (induction m) auto

lemma set_delete_subset: "set (AList.delete k m) \<subseteq> set m"
  by (auto simp: AList.delete_eq)

text \<open>
  The head of a stable sort, and the stable sort itself: \<open>lt a b\<close> says that the comparator puts \<open>a\<close> strictly
  before \<open>b\<close>.
\<close>

fun first_by :: "('a \<Rightarrow> 'a \<Rightarrow> bool) \<Rightarrow> 'a list \<Rightarrow> 'a option" where
  "first_by lt [] = None"
| "first_by lt (x # xs) =
     (case first_by lt xs of None \<Rightarrow> Some x | Some y \<Rightarrow> if lt y x then Some y else Some x)"

fun insert_by :: "('a \<Rightarrow> 'a \<Rightarrow> bool) \<Rightarrow> 'a \<Rightarrow> 'a list \<Rightarrow> 'a list" where
  "insert_by lt x [] = [x]"
| "insert_by lt x (y # ys) = (if lt x y then x # y # ys else y # insert_by lt x ys)"

definition sort_by :: "('a \<Rightarrow> 'a \<Rightarrow> bool) \<Rightarrow> 'a list \<Rightarrow> 'a list" where
  "sort_by lt xs = foldl (\<lambda>acc x. insert_by lt x acc) [] xs"

lemma first_by_mem: "first_by lt xs = Some x \<Longrightarrow> x \<in> set xs"
  by (induction xs arbitrary: x) (auto split: option.splits if_splits)

lemma first_by_None [simp]: "first_by lt xs = None \<longleftrightarrow> xs = []"
  by (cases xs) (auto split: option.splits)

lemma set_insert_by [simp]: "set (insert_by lt x ys) = insert x (set ys)"
  by (induction ys) auto

lemma set_sort_by [simp]: "set (sort_by lt xs) = set xs"
proof -
  have "set (foldl (\<lambda>acc x. insert_by lt x acc) acc xs) = set acc \<union> set xs" for acc
    by (induction xs arbitrary: acc) auto
  then show ?thesis by (simp add: sort_by_def)
qed

lemma length_insert_by [simp]: "length (insert_by lt x ys) = Suc (length ys)"
  by (induction ys) auto

lemma length_sort_by [simp]: "length (sort_by lt xs) = length xs"
proof -
  have "length (foldl (\<lambda>acc x. insert_by lt x acc) acc xs) = length acc + length xs" for acc
    by (induction xs arbitrary: acc) auto
  then show ?thesis by (simp add: sort_by_def)
qed

end
