(* ===== verification/JsNum.thy ===== *)
theory JsNum
  imports Prelude
begin

text \<open>
  JavaScript's \<open>number\<close>. A value is a finite number, one of the two infinities or
  \<open>NaN\<close>; arithmetic and comparison follow IEEE 754 on those four kinds (every comparison
  with \<open>NaN\<close> is false, \<open>0/0\<close> and \<open>Infinity - Infinity\<close> are \<open>NaN\<close>, \<open>1/0\<close> is
  \<open>Infinity\<close>). Two idealisations: finite arithmetic is exact (no rounding to 53 bits and
  no overflow to infinity), and there is one zero, read as \<open>+0\<close>. The guards of the code
  (\<open>!(x > 0)\<close> against \<open>x <= 0\<close>, \<open>Number.isFinite\<close>) are what distinguishes the four
  kinds, and they are kept as written.
\<close>

datatype jsnum = Fin real | PInf | NInf | NaN

instantiation jsnum :: "{zero, one, plus, minus, uminus, times, inverse, ord, abs}"
begin

definition zero_jsnum :: jsnum where "0 = Fin 0"

definition one_jsnum :: jsnum where "1 = Fin 1"

fun plus_jsnum :: "jsnum \<Rightarrow> jsnum \<Rightarrow> jsnum" where
  "Fin a + Fin b = Fin (a + b)"
| "NaN + y = NaN"
| "x + NaN = NaN"
| "PInf + NInf = NaN"
| "NInf + PInf = NaN"
| "PInf + y = PInf"
| "NInf + y = NInf"
| "x + PInf = PInf"
| "x + NInf = NInf"

fun uminus_jsnum :: "jsnum \<Rightarrow> jsnum" where
  "- (Fin a) = Fin (- a)"
| "- PInf = NInf"
| "- NInf = PInf"
| "- NaN = NaN"

definition minus_jsnum :: "jsnum \<Rightarrow> jsnum \<Rightarrow> jsnum" where
  "x - y = x + (- (y::jsnum))"

definition inf_sign :: "real \<Rightarrow> jsnum" where
  "inf_sign r = (if r > 0 then PInf else if r < 0 then NInf else NaN)"

fun times_jsnum :: "jsnum \<Rightarrow> jsnum \<Rightarrow> jsnum" where
  "Fin a * Fin b = Fin (a * b)"
| "NaN * y = NaN"
| "x * NaN = NaN"
| "Fin a * PInf = inf_sign a"
| "Fin a * NInf = inf_sign (- a)"
| "PInf * Fin b = inf_sign b"
| "NInf * Fin b = inf_sign (- b)"
| "PInf * PInf = PInf"
| "PInf * NInf = NInf"
| "NInf * PInf = NInf"
| "NInf * NInf = PInf"

fun divide_jsnum :: "jsnum \<Rightarrow> jsnum \<Rightarrow> jsnum" where
  "divide (Fin a) (Fin b) = (if b = 0 then inf_sign a else Fin (a / b))"
| "divide NaN y = NaN"
| "divide x NaN = NaN"
| "divide (Fin a) PInf = Fin 0"
| "divide (Fin a) NInf = Fin 0"
| "divide PInf (Fin b) = (if b < 0 then NInf else PInf)"
| "divide NInf (Fin b) = (if b < 0 then PInf else NInf)"
| "divide x y = NaN"

definition inverse_jsnum :: "jsnum \<Rightarrow> jsnum" where
  "inverse x = divide (1::jsnum) x"

fun less_eq_jsnum :: "jsnum \<Rightarrow> jsnum \<Rightarrow> bool" where
  "Fin a \<le> Fin b = (a \<le> b)"
| "NaN \<le> y = False"
| "x \<le> NaN = False"
| "NInf \<le> y = True"
| "x \<le> PInf = True"
| "Fin a \<le> NInf = False"
| "PInf \<le> y = False"

fun less_jsnum :: "jsnum \<Rightarrow> jsnum \<Rightarrow> bool" where
  "Fin a < Fin b = (a < b)"
| "NaN < y = False"
| "x < NaN = False"
| "NInf < NInf = False"
| "NInf < y = True"
| "PInf < y = False"
| "x < PInf = True"
| "Fin a < NInf = False"

fun abs_jsnum :: "jsnum \<Rightarrow> jsnum" where
  "abs (Fin a) = Fin (abs a)"
| "abs PInf = PInf"
| "abs NInf = PInf"
| "abs NaN = (NaN::jsnum)"

instance ..

end

instance jsnum :: semigroup_add
proof
  fix a b c :: jsnum
  show "a + b + c = a + (b + c)"
    by (cases a; cases b; cases c) auto
qed

instance jsnum :: ab_semigroup_add
proof
  fix a b :: jsnum
  show "a + b = b + a" by (cases a; cases b) auto
qed

instance jsnum :: comm_monoid_add
proof
  fix a :: jsnum
  show "0 + a = a" by (cases a) (auto simp: zero_jsnum_def)
qed

instance jsnum :: numeral ..

lemma numeral_jsnum: "(numeral k :: jsnum) = Fin (numeral k)"
proof (induction k)
  case One
  show ?case by (simp only: numeral.simps one_jsnum_def)
next
  case (Bit0 k)
  then show ?case by (simp only: numeral.simps plus_jsnum.simps)
next
  case (Bit1 k)
  then show ?case by (simp only: numeral.simps plus_jsnum.simps one_jsnum_def)
qed

lemmas js_consts [simp] = zero_jsnum_def one_jsnum_def numeral_jsnum

lemma js_minus_simps [simp]:
  "Fin a - Fin b = Fin (a - b)"
  "NaN - x = NaN" "x - NaN = NaN"
  "PInf - PInf = NaN" "NInf - NInf = NaN" "PInf - NInf = PInf" "NInf - PInf = NInf"
  "Fin a - PInf = NInf" "Fin a - NInf = PInf" "PInf - Fin b = PInf" "NInf - Fin b = NInf"
  by (cases x; simp add: minus_jsnum_def)+


text \<open>Counts and indices of the source are ordinary numbers.\<close>

definition num_of_int :: "int \<Rightarrow> jsnum" where
  "num_of_int i = Fin (of_int i)"

definition num_of_nat :: "nat \<Rightarrow> jsnum" where
  "num_of_nat n = Fin (of_nat n)"

section \<open>The operations of \<open>Number\<close> and \<open>Math\<close> the code uses\<close>

fun is_finite :: "jsnum \<Rightarrow> bool" where
  "is_finite (Fin r) = True"
| "is_finite x = False"

fun is_integer :: "jsnum \<Rightarrow> bool" where
  "is_integer (Fin r) = (of_int \<lfloor>r\<rfloor> = r)"
| "is_integer x = False"

text \<open>\<open>a === b\<close>; \<open>NaN\<close> differs from itself.\<close>

definition js_eq :: "jsnum \<Rightarrow> jsnum \<Rightarrow> bool" where
  "js_eq a b \<longleftrightarrow> a = b \<and> a \<noteq> NaN"

text \<open>Truthiness: \<open>0\<close> and \<open>NaN\<close> are falsy.\<close>

definition truthy :: "jsnum \<Rightarrow> bool" where
  "truthy x \<longleftrightarrow> x \<noteq> Fin 0 \<and> x \<noteq> NaN"

definition math_max :: "jsnum \<Rightarrow> jsnum \<Rightarrow> jsnum" where
  "math_max a b = (if a = NaN \<or> b = NaN then NaN else if a < b then b else a)"

definition math_min :: "jsnum \<Rightarrow> jsnum \<Rightarrow> jsnum" where
  "math_min a b = (if a = NaN \<or> b = NaN then NaN else if b < a then b else a)"

text \<open>The variadic forms: \<open>Math.max()\<close> is \<open>-Infinity\<close>, \<open>Math.min()\<close> is \<open>Infinity\<close>.\<close>

definition math_max_list :: "jsnum list \<Rightarrow> jsnum" where
  "math_max_list xs = foldr math_max xs NInf"

definition math_min_list :: "jsnum list \<Rightarrow> jsnum" where
  "math_min_list xs = foldr math_min xs PInf"

fun math_floor :: "jsnum \<Rightarrow> jsnum" where
  "math_floor (Fin r) = Fin (of_int \<lfloor>r\<rfloor>)"
| "math_floor x = x"

fun math_ceil :: "jsnum \<Rightarrow> jsnum" where
  "math_ceil (Fin r) = Fin (of_int \<lceil>r\<rceil>)"
| "math_ceil x = x"

text \<open>\<open>Math.round\<close> rounds halves up.\<close>

fun math_round :: "jsnum \<Rightarrow> jsnum" where
  "math_round (Fin r) = Fin (of_int \<lfloor>r + 1 / 2\<rfloor>)"
| "math_round x = x"

fun math_sign :: "jsnum \<Rightarrow> jsnum" where
  "math_sign (Fin r) = Fin (sgn r)"
| "math_sign PInf = 1"
| "math_sign NInf = -1"
| "math_sign NaN = NaN"

definition js_sum :: "jsnum list \<Rightarrow> jsnum" where
  "js_sum xs = foldl (+) 0 xs"

section \<open>Order facts\<close>

lemma lt_not_nan [js_order]: "a < (b::jsnum) \<Longrightarrow> a \<noteq> NaN \<and> b \<noteq> NaN"
  by (cases a; cases b) auto

lemma le_not_nan [js_order]: "a \<le> (b::jsnum) \<Longrightarrow> a \<noteq> NaN \<and> b \<noteq> NaN"
  by (cases a; cases b) auto

lemma js_not_lt_nan [simp]: "\<not> a < NaN" "\<not> NaN < a" "\<not> a \<le> NaN" "\<not> NaN \<le> a"
  by (cases a; simp)+

lemma js_lt_irrefl [simp]: "\<not> a < (a::jsnum)"
  by (cases a) auto

lemma js_le_refl_iff [simp]: "a \<le> (a::jsnum) \<longleftrightarrow> a \<noteq> NaN"
  by (cases a) auto

lemma js_lt_imp_le: "a < (b::jsnum) \<Longrightarrow> a \<le> b"
  by (cases a; cases b) auto

lemma js_le_trans [trans]: "a \<le> (b::jsnum) \<Longrightarrow> b \<le> c \<Longrightarrow> a \<le> c"
  by (cases a; cases b; cases c) auto

lemma js_lt_trans [trans]: "a < (b::jsnum) \<Longrightarrow> b < c \<Longrightarrow> a < c"
  by (cases a; cases b; cases c) auto

lemma js_lt_le_trans [trans]: "a < (b::jsnum) \<Longrightarrow> b \<le> c \<Longrightarrow> a < c"
  by (cases a; cases b; cases c) auto

lemma js_le_lt_trans [trans]: "a \<le> (b::jsnum) \<Longrightarrow> b < c \<Longrightarrow> a < c"
  by (cases a; cases b; cases c) auto

lemma js_le_antisym: "a \<le> (b::jsnum) \<Longrightarrow> b \<le> a \<Longrightarrow> a = b"
  by (cases a; cases b) auto

lemma js_not_lt_iff: "a \<noteq> NaN \<Longrightarrow> b \<noteq> NaN \<Longrightarrow> \<not> a < b \<longleftrightarrow> b \<le> (a::jsnum)"
  by (cases a; cases b) auto

lemma js_not_le_iff: "a \<noteq> NaN \<Longrightarrow> b \<noteq> NaN \<Longrightarrow> \<not> a \<le> b \<longleftrightarrow> b < (a::jsnum)"
  by (cases a; cases b) auto

lemma js_lt_asym: "a < (b::jsnum) \<Longrightarrow> \<not> b \<le> a"
  by (cases a; cases b) auto

text \<open>A positive directional gap is a strict order, whichever way the direction points.\<close>

lemma js_gap_up: "0 < (a - b) * (1::jsnum) \<longleftrightarrow> 0 < a - b"
  by (cases a; cases b) (auto simp: inf_sign_def)

lemma js_diff_pos [js_order]: "0 < a - (b::jsnum) \<Longrightarrow> b < a"
  by (cases a; cases b) auto

lemma js_diff_pos_up [js_order]: "0 < (a - b) * (1::jsnum) \<Longrightarrow> b < a"
  by (cases a; cases b) (auto simp: inf_sign_def split: if_splits)

lemma js_diff_pos_down [js_order]: "0 < (a - b) * (- (1::jsnum)) \<Longrightarrow> a < b"
  by (cases a; cases b) (auto simp: inf_sign_def split: if_splits)

lemma js_pos_finite_cases: "0 < (x::jsnum) \<Longrightarrow> (\<exists>r. x = Fin r \<and> 0 < r) \<or> x = PInf"
  by (cases x) auto

lemma is_finite_iff: "is_finite x \<longleftrightarrow> (\<exists>r. x = Fin r)"
  by (cases x) auto

lemma is_finite_not_nan: "is_finite x \<Longrightarrow> x \<noteq> NaN"
  by (cases x) auto

lemma math_max_ge:
  "a \<noteq> NaN \<Longrightarrow> b \<noteq> NaN \<Longrightarrow> a \<le> math_max a b"
  "a \<noteq> NaN \<Longrightarrow> b \<noteq> NaN \<Longrightarrow> b \<le> math_max a b"
  by (auto simp: math_max_def js_not_lt_iff js_lt_imp_le)

lemma math_min_le:
  "a \<noteq> NaN \<Longrightarrow> b \<noteq> NaN \<Longrightarrow> math_min a b \<le> a"
  "a \<noteq> NaN \<Longrightarrow> b \<noteq> NaN \<Longrightarrow> math_min a b \<le> b"
  by (auto simp: math_min_def js_not_lt_iff js_lt_imp_le)

lemma math_max_cases: "b \<noteq> NaN \<Longrightarrow> math_max a b = a \<or> a < math_max a b"
  by (auto simp: math_max_def)

lemma math_min_cases: "b \<noteq> NaN \<Longrightarrow> math_min a b = a \<or> math_min a b < a"
  by (auto simp: math_min_def)

lemma math_max_not_nan [simp]: "math_max a b = NaN \<longleftrightarrow> a = NaN \<or> b = NaN"
  by (auto simp: math_max_def)

lemma math_min_not_nan [simp]: "math_min a b = NaN \<longleftrightarrow> a = NaN \<or> b = NaN"
  by (auto simp: math_min_def)

lemma math_max_Fin [simp]: "math_max (Fin a) (Fin b) = Fin (max a b)"
  by (auto simp: math_max_def max_def)

lemma math_min_Fin [simp]: "math_min (Fin a) (Fin b) = Fin (min a b)"
  by (auto simp: math_min_def min_def)

lemma js_eq_Fin [simp]: "js_eq (Fin a) (Fin b) \<longleftrightarrow> a = b"
  by (simp add: js_eq_def)

lemma truthy_Fin [simp]: "truthy (Fin a) \<longleftrightarrow> a \<noteq> 0"
  by (simp add: truthy_def)

lemma js_eq_imp_eq: "js_eq a b \<Longrightarrow> a = b"
  by (simp add: js_eq_def)

lemma foldl_plus_Fin: "foldl (+) (Fin a) (map Fin xs) = Fin (a + sum_list xs)"
  by (induction xs arbitrary: a) (auto simp: algebra_simps)

lemma js_sum_Fin [simp]: "js_sum (map Fin xs) = Fin (sum_list xs)"
  by (simp add: js_sum_def foldl_plus_Fin)

lemma js_add_zero [simp]: "x + Fin 0 = x" "Fin 0 + x = x"
  by (cases x; simp)+

lemma foldl_plus_sum_list: "foldl (+) (a::jsnum) xs = a + sum_list xs"
  by (induction xs arbitrary: a) (auto simp: add.assoc)

lemma js_sum_eq_sum_list: "js_sum xs = sum_list xs"
  by (simp add: js_sum_def foldl_plus_sum_list)

lemma sum_list_map_Fin [simp]: "sum_list (map Fin xs) = Fin (sum_list xs)"
  using js_sum_Fin [of xs] by (simp add: js_sum_eq_sum_list)

end
