(* ===== verification/CoreTypes.thy ===== *)
theory CoreTypes
  imports JsNum
begin

text \<open>
  The shared data of \<open>src/types.ts\<close> (sides, agents, candles, positions, trade records) and
  the stop rules of \<open>src/binance/stopRules.ts\<close> that read a position's stop and target
  labels.
\<close>

section \<open>Sides, agents, candles\<close>

datatype side = LONG | SHORT

datatype trade_mode = Paper | Live

datatype agent_id =
    FUNDING_ARB | MOMENTUM | RISK_MGR | EXECUTOR | ADAPTIVE_ST | STRUCTURE_TREND
  | MEAN_REVERT | CROWDING | STRUCT_LIQ | AI_COUNCIL | ALMA_CHAMPION | TREND_ENS | FLEET

text \<open>An agent's id as it is printed into other ids; the source's ids are distinct strings, as these are.\<close>

definition agent_name :: "agent_id \<Rightarrow> string" where
  "agent_name a = (case a of
     FUNDING_ARB \<Rightarrow> ''FUNDING_ARB'' | MOMENTUM \<Rightarrow> ''MOMENTUM'' | RISK_MGR \<Rightarrow> ''RISK_MGR'' | EXECUTOR \<Rightarrow> ''EXECUTOR''
   | ADAPTIVE_ST \<Rightarrow> ''ADAPTIVE_ST'' | STRUCTURE_TREND \<Rightarrow> ''STRUCTURE_TREND'' | MEAN_REVERT \<Rightarrow> ''MEAN_REVERT''
   | CROWDING \<Rightarrow> ''CROWDING'' | STRUCT_LIQ \<Rightarrow> ''STRUCT_LIQ'' | AI_COUNCIL \<Rightarrow> ''AI_COUNCIL''
   | ALMA_CHAMPION \<Rightarrow> ''ALMA_CHAMPION'' | TREND_ENS \<Rightarrow> ''TREND_ENS'' | FLEET \<Rightarrow> ''FLEET'')"

datatype order_side = BUY | SELL

datatype signal_type =
    OPEN_LONG | OPEN_SHORT | OPEN_HEDGE | OPEN_FUNDING_SHORT | CLOSE_SIGNAL | MONITOR | ALERT

record candle =
  c_openTime :: jsnum
  c_open :: jsnum
  c_high :: jsnum
  c_low :: jsnum
  c_close :: jsnum
  c_volume :: jsnum

section \<open>Positions\<close>

text \<open>
  \<open>serverSl\<close> and \<open>serverTp\<close> are strings: a printed number, or a label such as
  \<open>trail\<close>, \<open>server\<close> or the empty string. \<open>Level x\<close> is \<open>String(x)\<close>, which
  \<open>Number\<close> reads back; \<open>Label s\<close> is text that does not print a number, which \<open>Number\<close>
  reads as \<open>NaN\<close> unless it is blank, when it reads \<open>0\<close>.
\<close>

datatype stop_label = Level jsnum | Label string

fun label_number :: "stop_label \<Rightarrow> jsnum" where
  "label_number (Level x) = x"
| "label_number (Label s) = (if list_all (\<lambda>c. c = CHR '' '') s then 0 else NaN)"

datatype margin_type = ISOLATED | CROSS

text \<open>Optional fields are \<open>None\<close> when absent; \<open>null\<close> and \<open>undefined\<close> are one value.\<close>

record position =
  p_id :: string
  p_symbol :: string
  p_side :: side
  p_strategy :: agent_id
  p_entry :: jsnum
  p_qty :: jsnum
  p_mark :: jsnum
  p_upnl :: jsnum
  p_upnlPct :: jsnum
  p_leverage :: jsnum
  p_marginType :: margin_type
  p_liqDistancePct :: "jsnum option"
  p_serverSl :: stop_label
  p_serverTp :: stop_label
  p_initialRisk :: "jsnum option"
  p_decisionId :: "string option"

datatype exit_reason = EX_CLOSE | EX_FLIP | EX_STOP_LOSS | EX_TAKE_PROFIT | EX_LIQUIDATED | EX_PARTIAL_TP

record trade_record =
  t_symbol :: string
  t_strategy :: agent_id
  t_side :: side
  t_entry :: jsnum
  t_exit :: jsnum
  t_qty :: jsnum
  t_pnl :: jsnum
  t_reason :: exit_reason
  t_closedAt :: jsnum
  t_initialRisk :: "jsnum option"
  t_decisionId :: "string option"
  t_partial :: bool

section \<open>Stop rules\<close>

definition directionOf :: "side \<Rightarrow> jsnum" where
  "directionOf s = (case s of LONG \<Rightarrow> 1 | SHORT \<Rightarrow> - 1)"

definition isPrice :: "jsnum \<Rightarrow> bool" where
  "isPrice v \<longleftrightarrow> is_finite v \<and> v > 0"

datatype stop_exit = StopExit jsnum exit_reason

fun exit_price :: "stop_exit \<Rightarrow> jsnum" where
  "exit_price (StopExit p r) = p"

fun exit_why :: "stop_exit \<Rightarrow> exit_reason" where
  "exit_why (StopExit p r) = r"

definition findStopExit :: "side \<Rightarrow> jsnum \<Rightarrow> stop_label \<Rightarrow> stop_label \<Rightarrow> stop_exit option" where
  "findStopExit sd mark sl tp =
     (let direction = directionOf sd;
          stopLoss = label_number sl;
          takeProfit = label_number tp
      in if stopLoss > 0 \<and> (mark - stopLoss) * direction \<le> 0 then Some (StopExit mark EX_STOP_LOSS)
         else if takeProfit > 0 \<and> (mark - takeProfit) * direction \<ge> 0
              then Some (StopExit takeProfit EX_TAKE_PROFIT)
         else None)"

lemma directionOf_simps [simp]: "directionOf LONG = 1" "directionOf SHORT = - 1"
  by (auto simp: directionOf_def)

lemma side_not [simp]: "s \<noteq> LONG \<longleftrightarrow> s = SHORT" "s \<noteq> SHORT \<longleftrightarrow> s = LONG"
  by (cases s; simp)+

text \<open>A stop fills at the mark, never at a better level; a target fills at its level.\<close>

lemma findStopExit_price:
  assumes "findStopExit sd mark sl tp = Some e"
  shows "exit_why e = EX_STOP_LOSS \<and> exit_price e = mark
       \<or> exit_why e = EX_TAKE_PROFIT \<and> exit_price e = label_number tp"
  using assms by (auto simp: findStopExit_def Let_def split: if_splits)

lemma findStopExit_labels: "findStopExit sd mark (Label s) (Label t) = None"
  by (auto simp: findStopExit_def Let_def)

lemma isPrice_Fin: "isPrice v \<longleftrightarrow> (\<exists>r. v = Fin r \<and> 0 < r)"
  by (cases v) (auto simp: isPrice_def)

text \<open>
  The directional comparison both managers use: \<open>(a - b) * dir > 0\<close> says that \<open>a\<close> lies on
  the profit side of \<open>b\<close>.
\<close>

definition beyond :: "side \<Rightarrow> jsnum \<Rightarrow> jsnum \<Rightarrow> bool" where
  "beyond sd a b \<longleftrightarrow> (case sd of LONG \<Rightarrow> b < a | SHORT \<Rightarrow> a < b)"

definition no_looser :: "side \<Rightarrow> jsnum \<Rightarrow> jsnum \<Rightarrow> bool" where
  "no_looser sd old new \<longleftrightarrow> new = old \<or> beyond sd new old"

lemma gap_beyond: "0 < (a - b) * directionOf sd \<Longrightarrow> beyond sd a b"
  by (cases sd) (auto simp: beyond_def simp del: js_consts dest: js_diff_pos_up js_diff_pos_down)

lemma gap_beyond_Fin: "Fin 0 < (a - b) * directionOf sd \<Longrightarrow> beyond sd a b"
  using gap_beyond [of a b sd] by simp

lemma beyond_trans: "beyond sd a b \<Longrightarrow> beyond sd b c \<Longrightarrow> beyond sd a c"
  by (auto simp: beyond_def split: side.splits intro: js_lt_trans)

lemma beyond_irrefl [simp]: "\<not> beyond sd a a"
  by (auto simp: beyond_def split: side.splits)

lemma no_looser_refl [simp, intro]: "no_looser sd x x"
  by (simp add: no_looser_def)

lemma no_looser_trans: "no_looser sd a b \<Longrightarrow> no_looser sd b c \<Longrightarrow> no_looser sd a c"
  by (auto simp: no_looser_def intro: beyond_trans)

lemma beyond_Fin [simp]: "beyond LONG (Fin a) (Fin b) \<longleftrightarrow> b < a" "beyond SHORT (Fin a) (Fin b) \<longleftrightarrow> a < b"
  by (auto simp: beyond_def)

end
