(* ===== verification/Interfaces.thy ===== *)
theory Interfaces
  imports CoreTypes
begin

text \<open>
  The contracts several components share, each a locale whose laws the component's theory
  discharges on its own definitions:
  \<^item> \<open>guarded_machine\<close>: an operation on a state keeps an invariant and moves a preorder one
    way only (a stop that never loosens, a high-water mark that never falls);
  \<^item> \<open>event_machine\<close>: a partial transition table with terminal states;
  \<^item> \<open>gated_machine\<close>: a region of such a table that can only be entered through a gate;
  \<^item> \<open>durable_store\<close>: a write-through cache that may delay only immaterial changes;
  \<^item> \<open>idempotent_desk\<close>: an order desk that answers a repeated order id from its records.
\<close>

section \<open>Operations that move one way\<close>

locale guarded_machine =
  fixes step :: "'s \<Rightarrow> 'i \<Rightarrow> 's"
    and inv :: "'s \<Rightarrow> bool"
    and le :: "'s \<Rightarrow> 's \<Rightarrow> bool"
  assumes le_refl: "le s s"
    and le_trans: "le s t \<Longrightarrow> le t u \<Longrightarrow> le s u"
    and inv_step: "inv s \<Longrightarrow> inv (step s i)"
    and step_le: "inv s \<Longrightarrow> le s (step s i)"
begin

lemma inv_run: "inv s \<Longrightarrow> inv (run_steps step s is)"
  by (rule run_steps_invariant [of inv]) (auto intro: inv_step)

lemma run_le: "inv s \<Longrightarrow> le s (run_steps step s is)"
proof (induction "is" arbitrary: s)
  case Nil
  show ?case by (simp add: le_refl)
next
  case (Cons i "is")
  then show ?case by (auto intro: le_trans step_le inv_step)
qed

lemma run_prefix_le:
  assumes "inv s"
  shows "le (run_steps step s xs) (run_steps step s (xs @ ys))"
  unfolding run_steps_append by (rule run_le) (rule inv_run [OF assms])

end

section \<open>Transition tables\<close>

locale event_machine =
  fixes delta :: "'s \<Rightarrow> 'e \<Rightarrow> 's option"
    and terminal :: "'s \<Rightarrow> bool"
  assumes terminal_stuck: "terminal s \<Longrightarrow> delta s e = None"
begin

lemma run_from_terminal: "terminal s \<Longrightarrow> run_partial delta s es = Some t \<Longrightarrow> es = [] \<and> t = s"
  by (cases es) (auto simp: terminal_stuck)

lemma terminal_only_last:
  assumes "run_partial delta s (xs @ ys) = Some t"
    and "run_partial delta s xs = Some m" and "terminal m"
  shows "ys = []"
  using assms by (auto simp: run_partial_append dest: run_from_terminal)

end

locale gated_machine =
  fixes delta :: "'s \<Rightarrow> 'e \<Rightarrow> 's option"
    and region :: "'s \<Rightarrow> bool"
    and gate :: "'s \<Rightarrow> 'e \<Rightarrow> bool"
  assumes entry_gated: "delta s e = Some t \<Longrightarrow> region t \<Longrightarrow> \<not> region s \<Longrightarrow> gate s e"
begin

lemma run_passes_gate:
  assumes "run_partial delta s es = Some t" and "region t" and "\<not> region s"
  shows "\<exists>xs e ys m. es = xs @ e # ys \<and> run_partial delta s xs = Some m \<and> gate m e"
  using assms
proof (induction es arbitrary: s)
  case Nil
  then show ?case by simp
next
  case (Cons e es)
  then obtain u where u: "delta s e = Some u" "run_partial delta u es = Some t"
    by (auto split: option.splits)
  show ?case
  proof (cases "region u")
    case True
    with u Cons.prems have "gate s e" by (auto intro: entry_gated)
    then have "e # es = [] @ e # es \<and> run_partial delta s [] = Some s \<and> gate s e" by simp
    then show ?thesis by blast
  next
    case False
    from Cons.IH [OF u(2) Cons.prems(2) False] obtain xs e' ys m
      where "es = xs @ e' # ys" "run_partial delta u xs = Some m" "gate m e'" by blast
    then have "e # es = (e # xs) @ e' # ys \<and> run_partial delta s (e # xs) = Some m \<and> gate m e'"
      using u by simp
    then show ?thesis by blast
  qed
qed

end

section \<open>Write-through stores\<close>

text \<open>
  \<open>mem\<close> is what the running process reads, \<open>disk\<close> what a restart would read. \<open>agree\<close> relates
  two values that differ only in what the store may write late.
\<close>

locale durable_store =
  fixes apply_op :: "'st \<Rightarrow> 'op \<Rightarrow> 'st"
    and mem :: "'st \<Rightarrow> 'k \<Rightarrow> 'v option"
    and disk :: "'st \<Rightarrow> 'k \<Rightarrow> 'v option"
    and agree :: "'v \<Rightarrow> 'v \<Rightarrow> bool"
    and good :: "'op \<Rightarrow> bool"
  assumes agree_refl: "agree v v"
    and agree_trans: "agree u v \<Longrightarrow> agree v w \<Longrightarrow> agree u w"
    and op_flushes_or_agrees: "good op \<Longrightarrow>
       disk (apply_op st op) = mem (apply_op st op)
     \<or> disk (apply_op st op) = disk st \<and>
       (\<forall>k. rel_option agree (mem st k) (mem (apply_op st op) k))"
begin

definition in_step :: "'st \<Rightarrow> bool" where
  "in_step st \<longleftrightarrow> (\<forall>k. rel_option agree (disk st k) (mem st k))"

lemma rel_option_agree_trans:
  "rel_option agree a b \<Longrightarrow> rel_option agree b c \<Longrightarrow> rel_option agree a c"
  by (cases a; cases b; cases c) (auto intro: agree_trans)

lemma rel_option_agree_refl: "rel_option agree a a"
  by (cases a) (auto intro: agree_refl)

lemma in_step_op: "good op \<Longrightarrow> in_step st \<Longrightarrow> in_step (apply_op st op)"
  using op_flushes_or_agrees [of op st]
  by (auto simp: in_step_def rel_option_agree_refl) (blast intro: rel_option_agree_trans)

lemma in_step_run: "list_all good ops \<Longrightarrow> in_step st \<Longrightarrow> in_step (run_steps apply_op st ops)"
  by (induction ops arbitrary: st) (auto intro: in_step_op)

lemma crash_agrees:
  assumes "list_all good ops" and "in_step st"
  shows "rel_option agree (disk (run_steps apply_op st ops) k) (mem (run_steps apply_op st ops) k)"
  using in_step_run [OF assms] by (simp add: in_step_def)

end

section \<open>Idempotent order desks\<close>

text \<open>
  What a client that resends an order with an unknown outcome relies on: a known id is answered from the
  records and changes nothing, and every answer is recorded under its id.
\<close>

locale idempotent_desk =
  fixes submit :: "'v \<Rightarrow> 'r \<Rightarrow> 'a \<times> 'v"
    and key :: "'r \<Rightarrow> 'k"
    and lookup :: "'v \<Rightarrow> 'k \<Rightarrow> 'a option"
  assumes submit_known: "lookup v (key r) = Some a \<Longrightarrow> submit v r = (a, v)"
    and submit_recorded: "lookup (snd (submit v r)) (key r) = Some (fst (submit v r))"
    and submit_others: "k \<noteq> key r \<Longrightarrow> lookup (snd (submit v r)) k = lookup v k"
begin

lemma answer_persists:
  "lookup v k = Some a \<Longrightarrow> lookup (run_steps (\<lambda>v r. snd (submit v r)) v rs) k = Some a"
proof (induction rs arbitrary: v)
  case Nil
  then show ?case by simp
next
  case (Cons r rs)
  then have "lookup (snd (submit v r)) k = Some a"
    using submit_known [of v r a] submit_others [of k r v] by (cases "k = key r") auto
  then show ?case using Cons.IH by simp
qed

lemma resubmission_is_free:
  assumes "key r' = key r"
  shows "submit (run_steps (\<lambda>v r. snd (submit v r)) (snd (submit v r)) rs) r'
       = (fst (submit v r), run_steps (\<lambda>v r. snd (submit v r)) (snd (submit v r)) rs)"
  using answer_persists [OF submit_recorded] submit_known assms by metis

end

end
