(* ===== verification/TrailingTypes.thy ===== *)
theory TrailingTypes
  imports Interfaces
begin

text \<open>The data of the trailing engine: \<open>src/trailing/types.ts\<close>.\<close>

datatype price_reference = CONTRACT_PRICE | MARK_PRICE | INDEX_PRICE

datatype method_id =
    ATR_TRAIL | CHANDELIER | SUPERTREND | PSAR | MA_TRAIL | ALMA_HMA
  | SWING | FRACTAL | BOS_CHOCH | DONCHIAN
  | R_STAIRCASE | GIVEBACK | TIME_DECAY
  | MARK_ATR | MARK_CHANDELIER | CONTRACT_MARK_HYBRID
  | ORDER_FLOW | REGIME_ADAPTIVE

datatype method_layer = L_PRICE | L_PROFIT | L_CONTEXT

datatype method_priority = P0 | P1 | P2

datatype policy_domain = D_CONTRACT | D_MARK | D_PROFIT | D_ORDER_FLOW | D_HYBRID

datatype activation_type = IMMEDIATE | MFE_R | PEAK_PNL | TP1_FILLED | NEVER

record policy_activation =
  act_type :: activation_type
  act_threshold :: jsnum

text \<open>A policy parameter is a number or a string (the timeframe).\<close>

datatype param_value = PNum jsnum | PStr string

text \<open>\<open>params\<close> is a dictionary: an association list in insertion order, one entry per key.\<close>

record trailing_policy =
  tp_id :: string
  tp_version :: string
  tp_method :: method_id
  tp_layer :: method_layer
  tp_priority :: method_priority
  tp_domain :: policy_domain
  tp_params :: "(string \<times> param_value) list"
  tp_activation :: policy_activation
  tp_priceReference :: price_reference
  tp_enabled :: bool

text \<open>The fields of the policy context the phase 1 evaluators and the engine read.\<close>

record policy_context =
  cx_entry :: jsnum
  cx_initialRisk :: "jsnum option"
  cx_side :: side
  cx_tf :: string
  cx_price :: jsnum
  cx_candles :: "candle list"
  cx_tickSize :: "jsnum option"

text \<open>Reasons are kept as data instead of formatted text.\<close>

datatype candidate_reason =
    AtrTrailReason jsnum jsnum
  | ChandelierReason jsnum jsnum
  | SwingReason int jsnum
  | BosReason jsnum
  | ChochReason "jsnum option"

record stop_candidate =
  sc_policyId :: string
  sc_levelZ :: jsnum
  sc_priceReference :: price_reference
  sc_reason :: candidate_reason
  sc_exit :: bool

datatype trailing_action = HOLD | MOVE_STOP | EXIT | TIGHTEN

datatype trailing_phase =
    INITIALIZING | PROTECTED | TRAILING_PENDING | TRAILING_ACTIVE
  | EXIT_PENDING | EXIT_SUBMITTED | PARTIAL | CLOSED | REJECTED | RECONCILIATION

datatype trailing_event =
    SL0_CONFIRMED | ACTIVATION | ACK | REJECT | BREACH | ORDER_ACCEPTED
  | PARTIAL_FILL | FILL | UNKNOWN_OUTCOME | REMAINING_MANAGED | POSITION_GONE
  | RECONCILE trailing_phase

record accepted_decision =
  ad_ts :: jsnum
  ad_stopZ :: jsnum
  ad_policyId :: string

text \<open>The key \<open>symbol:strategy\<close> is the pair: a strategy name holds no colon.\<close>

record trailing_state =
  ts_key :: "string \<times> agent_id"
  ts_symbol :: string
  ts_strategy :: agent_id
  ts_side :: side
  ts_entry :: jsnum
  ts_initialQty :: jsnum
  ts_reducedQty :: jsnum
  ts_phase :: trailing_phase
  ts_policyId :: string
  ts_stopZ :: jsnum
  ts_confirmedStop :: jsnum
  ts_extremeX :: jsnum
  ts_peakNetPnl :: "jsnum option"
  ts_mfeX :: jsnum
  ts_maeX :: jsnum
  ts_fundingAccrued :: jsnum
  ts_feesAccrued :: jsnum
  ts_liquidationPrice :: "jsnum option"
  ts_openedAt :: jsnum
  ts_updatedAt :: jsnum
  ts_lastBookSeq :: "jsnum option"
  ts_lastAccepted :: "accepted_decision option"

end
