(* ===== verification/TrailingFsm.thy ===== *)
theory TrailingFsm
  imports TrailingTypes
begin

text \<open>
  The trailing lifecycle of \<open>src/trailing/stateMachine.ts\<close>: the transition table, the state
  of a fresh fill, the acknowledgement of a stop and the recovery after a restart.
\<close>

section \<open>The transition table\<close>

fun edges :: "trailing_phase \<Rightarrow> trailing_event \<Rightarrow> trailing_phase option" where
  "edges INITIALIZING SL0_CONFIRMED = Some PROTECTED"
| "edges INITIALIZING POSITION_GONE = Some RECONCILIATION"
| "edges PROTECTED ACTIVATION = Some TRAILING_PENDING"
| "edges PROTECTED BREACH = Some EXIT_PENDING"
| "edges PROTECTED POSITION_GONE = Some RECONCILIATION"
| "edges TRAILING_PENDING ACK = Some TRAILING_ACTIVE"
| "edges TRAILING_PENDING PARTIAL_FILL = Some PARTIAL"
| "edges TRAILING_PENDING REJECT = Some REJECTED"
| "edges TRAILING_ACTIVE BREACH = Some EXIT_PENDING"
| "edges TRAILING_ACTIVE POSITION_GONE = Some RECONCILIATION"
| "edges EXIT_PENDING ORDER_ACCEPTED = Some EXIT_SUBMITTED"
| "edges EXIT_PENDING PARTIAL_FILL = Some PARTIAL"
| "edges EXIT_SUBMITTED PARTIAL_FILL = Some PARTIAL"
| "edges EXIT_SUBMITTED FILL = Some CLOSED"
| "edges EXIT_SUBMITTED UNKNOWN_OUTCOME = Some RECONCILIATION"
| "edges PARTIAL REMAINING_MANAGED = Some TRAILING_ACTIVE"
| "edges PARTIAL BREACH = Some EXIT_PENDING"
| "edges _ _ = None"

datatype transition_error =
    TerminalReconcile trailing_phase
  | InvalidTransition trailing_phase trailing_event

definition reduce :: "trailing_phase \<Rightarrow> trailing_event \<Rightarrow> transition_error + trailing_phase" where
  "reduce phase event =
     (case event of
        RECONCILE to \<Rightarrow> if phase = CLOSED then Inl (TerminalReconcile to) else Inr to
      | _ \<Rightarrow> (case edges phase event of
                None \<Rightarrow> Inl (InvalidTransition phase event)
              | Some nxt \<Rightarrow> Inr nxt))"

text \<open>The run of a lifecycle stops at the first refused event, as the exception stops it.\<close>

definition trailing_delta :: "trailing_phase \<Rightarrow> trailing_event \<Rightarrow> trailing_phase option" where
  "trailing_delta p e = (case reduce p e of Inl err \<Rightarrow> None | Inr q \<Rightarrow> Some q)"

section \<open>Books\<close>

definition dir_sign :: "side \<Rightarrow> jsnum" where
  "dir_sign sd = (if sd = LONG then 1 else - 1)"

definition initState :: "position \<Rightarrow> jsnum \<Rightarrow> trailing_state option" where
  "initState pos now =
     (let sl = label_number (p_serverSl pos);
          s = dir_sign (p_side pos)
      in if \<not> (sl > 0) \<or> \<not> (p_entry pos > 0) \<or> \<not> (p_qty pos > 0) then None
         else
           (let extremePx = (if p_mark pos > 0 then p_mark pos else p_entry pos);
                stopZ = s * sl
            in Some \<lparr> ts_key = (p_symbol pos, p_strategy pos),
                 ts_symbol = p_symbol pos, ts_strategy = p_strategy pos, ts_side = p_side pos,
                 ts_entry = p_entry pos, ts_initialQty = p_qty pos, ts_reducedQty = 0,
                 ts_phase = PROTECTED, ts_policyId = '''', ts_stopZ = stopZ,
                 ts_confirmedStop = stopZ, ts_extremeX = s * extremePx,
                 ts_peakNetPnl = None, ts_mfeX = 0, ts_maeX = 0,
                 ts_fundingAccrued = 0, ts_feesAccrued = 0, ts_liquidationPrice = None,
                 ts_openedAt = now, ts_updatedAt = now, ts_lastBookSeq = None,
                 ts_lastAccepted = None \<rparr>))"

definition confirmStop :: "trailing_state \<Rightarrow> string \<Rightarrow> jsnum \<Rightarrow> trailing_state" where
  "confirmStop st policyId ts =
     st\<lparr> ts_policyId := policyId, ts_confirmedStop := ts_stopZ st,
         ts_lastAccepted := Some \<lparr> ad_ts = ts, ad_stopZ = ts_stopZ st, ad_policyId = policyId \<rparr>,
         ts_updatedAt := ts \<rparr>"

record venue_snapshot =
  vs_price :: jsnum
  vs_positionOpen :: bool
  vs_stopWorking :: bool

definition recover :: "trailing_state \<Rightarrow> venue_snapshot \<Rightarrow> jsnum \<Rightarrow> trailing_state" where
  "recover prev venue now =
     (let s = dir_sign (ts_side prev);
          open_now = vs_positionOpen venue \<and> is_finite (vs_price venue) \<and> vs_price venue > 0
      in if \<not> open_now then prev\<lparr> ts_phase := CLOSED, ts_updatedAt := now \<rparr>
         else
           (let phase = (if \<not> vs_stopWorking venue then TRAILING_PENDING
                         else if ts_lastAccepted prev \<noteq> None then TRAILING_ACTIVE
                         else PROTECTED)
            in prev\<lparr> ts_phase := phase, ts_stopZ := ts_confirmedStop prev,
                     ts_extremeX := math_max (ts_extremeX prev) (s * vs_price venue),
                     ts_updatedAt := now \<rparr>))"

section \<open>The table as a machine\<close>

fun_cases edges_SomeE: "edges p e = Some q"

lemma trailing_delta_edge: "(\<And>to. e \<noteq> RECONCILE to) \<Longrightarrow> trailing_delta p e = edges p e"
  by (cases e) (auto simp: trailing_delta_def reduce_def split: option.splits)

lemma trailing_delta_reconcile:
  "trailing_delta p (RECONCILE to) = (if p = CLOSED then None else Some to)"
  by (auto simp: trailing_delta_def reduce_def)

lemma trailing_delta_cases:
  "trailing_delta p e = Some q \<Longrightarrow> edges p e = Some q \<or> e = RECONCILE q \<and> p \<noteq> CLOSED"
  by (cases e) (auto simp: trailing_delta_edge trailing_delta_reconcile split: if_splits)

lemma edges_CLOSED [simp]: "edges CLOSED e = None"
  by (cases e) auto

interpretation lifecycle: event_machine trailing_delta "\<lambda>p. p = CLOSED"
proof
  fix p e
  assume "p = CLOSED"
  then show "trailing_delta p e = None"
    by (cases e) (auto simp: trailing_delta_edge trailing_delta_reconcile)
qed

text \<open>
  The exit region is left out of reach of everything but an accepted exit order, or a
  reconciliation decided from the venue.
\<close>

definition exit_region :: "trailing_phase \<Rightarrow> bool" where
  "exit_region p \<longleftrightarrow> p = EXIT_SUBMITTED \<or> p = CLOSED"

definition exit_gate :: "trailing_phase \<Rightarrow> trailing_event \<Rightarrow> bool" where
  "exit_gate p e \<longleftrightarrow> p = EXIT_PENDING \<and> e = ORDER_ACCEPTED
     \<or> e = RECONCILE EXIT_SUBMITTED \<or> e = RECONCILE CLOSED"

interpretation exits: gated_machine trailing_delta exit_region exit_gate
proof
  fix p e q
  assume step: "trailing_delta p e = Some q" and "exit_region q" and "\<not> exit_region p"
  then show "exit_gate p e"
    by (auto simp: exit_region_def exit_gate_def dest!: trailing_delta_cases elim!: edges_SomeE)
qed

text \<open>An exit is pending only after a breach of a stop that was live at the venue.\<close>

definition breach_gate :: "trailing_phase \<Rightarrow> trailing_event \<Rightarrow> bool" where
  "breach_gate p e \<longleftrightarrow> e = BREACH \<and> (p = PROTECTED \<or> p = TRAILING_ACTIVE \<or> p = PARTIAL)
     \<or> (\<exists>to. e = RECONCILE to)"

interpretation breaches: gated_machine trailing_delta
  "\<lambda>p. p = EXIT_PENDING \<or> exit_region p" breach_gate
proof
  fix p e q
  assume "trailing_delta p e = Some q" and "q = EXIT_PENDING \<or> exit_region q"
    and "\<not> (p = EXIT_PENDING \<or> exit_region p)"
  then show "breach_gate p e"
    by (auto simp: exit_region_def breach_gate_def dest!: trailing_delta_cases elim!: edges_SomeE)
qed

section \<open>Recovery\<close>

lemma recover_open:
  assumes "vs_positionOpen v" and "is_finite (vs_price v)" and "vs_price v > 0"
  shows "ts_stopZ (recover st v now) = ts_confirmedStop st"
    and "ts_confirmedStop (recover st v now) = ts_confirmedStop st"
    and "ts_extremeX (recover st v now) = math_max (ts_extremeX st) (dir_sign (ts_side st) * vs_price v)"
    and "ts_phase (recover st v now) \<noteq> CLOSED"
  using assms by (auto simp: recover_def Let_def)

lemma initState_Some:
  assumes "initState pos now = Some st"
  shows "ts_stopZ st = dir_sign (p_side pos) * label_number (p_serverSl pos)"
    and "ts_confirmedStop st = ts_stopZ st" and "ts_phase st = PROTECTED"
    and "0 < label_number (p_serverSl pos)" and "0 < p_entry pos" and "0 < p_qty pos"
  using assms by (auto simp: initState_def Let_def split: if_splits)


section \<open>Properties\<close>

text \<open>
  A lifecycle that reaches \<open>CLOSED\<close> from a phase before the exit did so through an exit order
  the venue accepted while an exit was pending, or through a reconciliation, and \<open>CLOSED\<close> accepts
  no further event.
\<close>

theorem closed_only_through_exit:
  assumes "run_partial trailing_delta p es = Some CLOSED" and "p \<noteq> CLOSED" and "p \<noteq> EXIT_SUBMITTED"
  shows "\<exists>xs e ys m. es = xs @ e # ys \<and> run_partial trailing_delta p xs = Some m \<and>
     (m = EXIT_PENDING \<and> e = ORDER_ACCEPTED \<or> e = RECONCILE EXIT_SUBMITTED \<or> e = RECONCILE CLOSED \<and> ys = [])"
proof -
  obtain xs e ys m where es: "es = xs @ e # ys" and m: "run_partial trailing_delta p xs = Some m"
    and g: "exit_gate m e"
    using exits.run_passes_gate [OF assms(1)] assms(2,3) by (auto simp: exit_region_def)
  have "ys = []" if "e = RECONCILE CLOSED"
  proof -
    from assms(1) es m have "run_partial trailing_delta m (e # ys) = Some CLOSED"
      by (simp add: run_partial_append)
    with that show ?thesis
      by (auto simp: trailing_delta_reconcile split: if_splits dest!: lifecycle.run_from_terminal [OF refl])
  qed
  with es m g show ?thesis by (auto simp: exit_gate_def)
qed

theorem closed_only_through_exit_witness:
  "\<exists>xs e ys. [ACTIVATION, ACK, BREACH, ORDER_ACCEPTED, FILL] = xs @ e # ys \<and>
     (e = ORDER_ACCEPTED \<or> e = RECONCILE EXIT_SUBMITTED \<or> e = RECONCILE CLOSED)"
proof -
  have "run_partial trailing_delta PROTECTED [ACTIVATION, ACK, BREACH, ORDER_ACCEPTED, FILL] = Some CLOSED"
    by (simp add: trailing_delta_def reduce_def)
  from closed_only_through_exit [OF this] show ?thesis by blast
qed

text \<open>
  Without a reconciliation, an exit can only become pending from a protected, actively trailed
  or partially filled position: a stop the executor has not acknowledged cannot trigger one.
\<close>

theorem exit_needs_live_stop:
  assumes "run_partial trailing_delta p es = Some q" and "q = EXIT_PENDING \<or> q = EXIT_SUBMITTED \<or> q = CLOSED"
    and "p \<in> {INITIALIZING, PROTECTED, TRAILING_PENDING, TRAILING_ACTIVE, PARTIAL}"
    and "\<forall>to. RECONCILE to \<notin> set es"
  shows "\<exists>xs ys m. es = xs @ BREACH # ys \<and> run_partial trailing_delta p xs = Some m
     \<and> m \<in> {PROTECTED, TRAILING_ACTIVE, PARTIAL}"
proof -
  have "\<exists>xs e ys m. es = xs @ e # ys \<and> run_partial trailing_delta p xs = Some m \<and> breach_gate m e"
    by (rule breaches.run_passes_gate [OF assms(1)]) (use assms(2,3) in \<open>auto simp: exit_region_def\<close>)
  with assms(4) show ?thesis by (auto simp: breach_gate_def)
qed

theorem exit_needs_live_stop_witness:
  "\<exists>xs ys. [SL0_CONFIRMED, ACTIVATION, ACK, BREACH] = xs @ BREACH # ys"
proof -
  have "run_partial trailing_delta INITIALIZING [SL0_CONFIRMED, ACTIVATION, ACK, BREACH] = Some EXIT_PENDING"
    by (simp add: trailing_delta_def reduce_def)
  from exit_needs_live_stop [OF this] show ?thesis by auto
qed

end
