(* ===== verification/TrailingPrice.thy ===== *)
theory TrailingPrice
  imports TrailingTypes
begin

text \<open>
  Wilder's ATR (\<open>src/binance/indicators.ts\<close>) and the price-domain trailing methods
  (\<open>src/trailing/price.ts\<close>).
\<close>

section \<open>Average true range\<close>

definition true_range :: "candle \<Rightarrow> jsnum \<Rightarrow> jsnum" where
  "true_range c prevClose =
     math_max (math_max (c_high c - c_low c) (abs (c_high c - prevClose))) (abs (c_low c - prevClose))"

text \<open>
  The loop body at index \<open>i\<close>: \<open>prev\<close> is the previous candle's close (none at index 0),
  \<open>trSum\<close> the running sum of the first \<open>period\<close> ranges, \<open>before\<close> the previous cell.
\<close>

fun wilder_loop :: "jsnum \<Rightarrow> nat \<Rightarrow> jsnum option \<Rightarrow> jsnum \<Rightarrow> jsnum \<Rightarrow> candle list \<Rightarrow> jsnum list" where
  "wilder_loop period i prev trSum before [] = []"
| "wilder_loop period i prev trSum before (c # cs) =
     (let prevClose = (case prev of None \<Rightarrow> c_close c | Some p \<Rightarrow> p);
          tr = true_range c prevClose;
          trSum' = (if num_of_nat i < period then trSum + tr else trSum);
          cell = (if num_of_nat i \<ge> period then (before * (period - 1) + tr) / period
                  else if js_eq (num_of_nat i) (period - 1) then trSum' / period
                  else NaN)
      in cell # wilder_loop period (Suc i) (Some (c_close c)) trSum' cell cs)"

definition wilderAtr :: "candle list \<Rightarrow> jsnum \<Rightarrow> jsnum list" where
  "wilderAtr candles period =
     (if period \<le> 0 \<or> num_of_nat (length candles) < period
      then replicate (length candles) NaN
      else wilder_loop period 0 None 0 NaN candles)"

definition atrOf :: "candle list \<Rightarrow> jsnum \<Rightarrow> jsnum option" where
  "atrOf candles period =
     (case last_opt (wilderAtr candles period) of
        None \<Rightarrow> None
      | Some a \<Rightarrow> if is_finite a \<and> a > 0 then Some a else None)"

lemma length_wilder_loop: "length (wilder_loop period i prev trSum before cs) = length cs"
  by (induction cs arbitrary: i prev trSum before) (auto simp: Let_def)

lemma length_wilderAtr: "length (wilderAtr cs period) = length cs"
  by (simp add: wilderAtr_def length_wilder_loop)

lemma wilder_loop_append:
  "take (length cs) (wilder_loop period i prev trSum before (cs @ ds))
     = wilder_loop period i prev trSum before cs"
  by (induction cs arbitrary: i prev trSum before) (auto simp: Let_def)

text \<open>The series is causal: later candles never change an earlier value.\<close>

lemma wilderAtr_causal:
  assumes "\<not> num_of_nat (length cs) < period"
  shows "take (length cs) (wilderAtr (cs @ ds) period) = wilderAtr cs period"
proof -
  have "\<not> num_of_nat (length (cs @ ds)) < period"
    using assms by (cases period) (auto simp: num_of_nat_def)
  with assms show ?thesis by (auto simp: wilderAtr_def wilder_loop_append)
qed

lemma atrOf_pos: "atrOf cs p = Some a \<Longrightarrow> \<exists>r. a = Fin r \<and> 0 < r"
  by (cases a) (auto simp: atrOf_def split: option.splits if_splits)

section \<open>Policy parameters\<close>

text \<open>
  A missing entry is \<open>undefined\<close>, which compares and computes like \<open>NaN\<close>. Text under a key
  cast to a number reads as \<open>NaN\<close>.
\<close>

definition num_param :: "trailing_policy \<Rightarrow> string \<Rightarrow> jsnum" where
  "num_param p k = (case map_of (tp_params p) k of Some (PNum x) \<Rightarrow> x | _ \<Rightarrow> NaN)"

definition str_param :: "trailing_policy \<Rightarrow> string \<Rightarrow> string option" where
  "str_param p k = (case map_of (tp_params p) k of Some (PStr s) \<Rightarrow> Some s | _ \<Rightarrow> None)"

section \<open>ATR trail and chandelier\<close>

definition extremeAtrStop ::
  "trailing_policy \<Rightarrow> policy_context \<Rightarrow> trailing_state \<Rightarrow> string \<Rightarrow>
   (jsnum \<Rightarrow> jsnum \<Rightarrow> candidate_reason) \<Rightarrow> stop_candidate option" where
  "extremeAtrStop policy ctx st periodKey reason =
     (let period = num_param policy periodKey;
          k = num_param policy ''k''
      in if str_param policy ''tf'' \<noteq> Some (cx_tf ctx) \<or> \<not> (period > 0) \<or> \<not> (k > 0) then None
         else (case atrOf (cx_candles ctx) period of
                 None \<Rightarrow> None
               | Some a \<Rightarrow> Some \<lparr> sc_policyId = tp_id policy,
                            sc_levelZ = ts_extremeX st - k * a,
                            sc_priceReference = tp_priceReference policy,
                            sc_reason = reason period k, sc_exit = False \<rparr>))"

definition atrTrail :: "trailing_policy \<Rightarrow> policy_context \<Rightarrow> trailing_state \<Rightarrow> stop_candidate option" where
  "atrTrail policy ctx st = extremeAtrStop policy ctx st ''period'' AtrTrailReason"

definition chandelier :: "trailing_policy \<Rightarrow> policy_context \<Rightarrow> trailing_state \<Rightarrow> stop_candidate option" where
  "chandelier policy ctx st = extremeAtrStop policy ctx st ''n'' ChandelierReason"

text \<open>A price-domain candidate sits strictly below the favourable extreme and never exits.\<close>

lemma extremeAtrStop_below:
  assumes "extremeAtrStop policy ctx st key reason = Some c" and "is_finite (ts_extremeX st)"
  shows "sc_levelZ c < ts_extremeX st \<or> sc_levelZ c = NInf"
proof -
  from assms(1) obtain a where a: "atrOf (cx_candles ctx) (num_param policy key) = Some a"
    and k: "num_param policy ''k'' > 0"
    and c: "sc_levelZ c = ts_extremeX st - num_param policy ''k'' * a"
    by (auto simp: extremeAtrStop_def Let_def split: if_splits option.splits)
  obtain r where r: "a = Fin r" "0 < r" using atrOf_pos [OF a] by blast
  obtain e where e: "ts_extremeX st = Fin e" using assms(2) by (auto simp: is_finite_iff)
  from js_pos_finite_cases [OF k] show ?thesis
    using r e c by (auto simp: inf_sign_def)
qed

lemma extremeAtrStop_no_exit:
  "extremeAtrStop policy ctx st key reason = Some c \<Longrightarrow> \<not> sc_exit c"
  by (auto simp: extremeAtrStop_def Let_def split: if_splits option.splits)

end
