(* ===== verification/TrailingStructure.thy ===== *)
theory TrailingStructure
  imports TrailingPrice
begin

text \<open>
  The structure methods of \<open>src/trailing/structure.ts\<close>: closing-basis pivots confirmed
  \<open>nRight\<close> bars later, the BOS/CHoCH pass over them, and the two stop methods built on them.
\<close>

section \<open>Pivots\<close>

record swing_pivot =
  sp_index :: int
  sp_price :: jsnum

definition isExtremum :: "candle list \<Rightarrow> int \<Rightarrow> nat \<Rightarrow> nat \<Rightarrow> bool \<Rightarrow> bool" where
  "isExtremum candles index nLeft nRight high =
     (case nth_opt candles index of
        None \<Rightarrow> False
      | Some c \<Rightarrow>
          list_all (\<lambda>j. j = index \<or>
             (case nth_opt candles j of
                None \<Rightarrow> False
              | Some other \<Rightarrow> if high then \<not> (c_close other \<ge> c_close c)
                             else \<not> (c_close other \<le> c_close c)))
           [index - int nLeft .. index + int nRight])"

definition close_at :: "candle list \<Rightarrow> int \<Rightarrow> jsnum" where
  "close_at candles i = (case nth_opt candles i of None \<Rightarrow> NaN | Some c \<Rightarrow> c_close c)"

definition pivot_at :: "candle list \<Rightarrow> int \<Rightarrow> swing_pivot" where
  "pivot_at candles i = \<lparr> sp_index = i, sp_price = close_at candles i \<rparr>"

definition pivots_of :: "candle list \<Rightarrow> nat \<Rightarrow> nat \<Rightarrow> bool \<Rightarrow> swing_pivot list" where
  "pivots_of candles nLeft nRight high =
     map (pivot_at candles)
       (filter (\<lambda>i. isExtremum candles i nLeft nRight high)
          [int nLeft .. int (length candles) - 1 - int nRight])"

definition confirmedPivots :: "candle list \<Rightarrow> nat \<Rightarrow> nat \<Rightarrow> swing_pivot list \<times> swing_pivot list" where
  "confirmedPivots candles nLeft nRight =
     (pivots_of candles nLeft nRight True, pivots_of candles nLeft nRight False)"

text \<open>The scan from the back: the latest pivot strictly before the broken one.\<close>

definition latestPreceding :: "swing_pivot list \<Rightarrow> int \<Rightarrow> jsnum option" where
  "latestPreceding ps brokenIndex =
     map_option sp_price (find (\<lambda>p. sp_index p < brokenIndex) (rev ps))"

lemma isExtremum_append:
  assumes "i + int nR < int (length cs)" and "int nL \<le> i"
  shows "isExtremum (cs @ ds) i nL nR high = isExtremum cs i nL nR high"
proof -
  have eq: "nth_opt (cs @ ds) j = nth_opt cs j" if "i - int nL \<le> j" "j \<le> i + int nR" for j
    using assms that by (intro nth_opt_append) auto
  have "nth_opt (cs @ ds) i = nth_opt cs i" using assms by (intro eq) auto
  then show ?thesis
    using eq by (auto simp: isExtremum_def list_all_iff split: option.splits)
qed

lemma pivot_at_append: "0 \<le> i \<Longrightarrow> i < int (length cs) \<Longrightarrow> pivot_at (cs @ ds) i = pivot_at cs i"
  by (simp add: pivot_at_def close_at_def nth_opt_append)

text \<open>Pivots never repaint: more candles only append pivots.\<close>

lemma pivots_of_append:
  "\<exists>later. pivots_of (cs @ ds) nL nR high = pivots_of cs nL nR high @ later"
proof -
  let ?a = "int nL" and ?m = "int (length cs) - 1 - int nR"
  let ?b = "int (length (cs @ ds)) - 1 - int nR"
  show ?thesis
  proof (cases "?a \<le> ?m + 1")
    case True
    have split: "[?a .. ?b] = [?a .. ?m] @ [?m + 1 .. ?b]"
      using True by (intro upto_split_at) auto
    have same: "isExtremum (cs @ ds) i nL nR high = isExtremum cs i nL nR high
      \<and> pivot_at (cs @ ds) i = pivot_at cs i" if "i \<in> set [?a .. ?m]" for i
      using that by (auto intro!: isExtremum_append pivot_at_append)
    then have "filter (\<lambda>i. isExtremum (cs @ ds) i nL nR high) [?a .. ?m]
        = filter (\<lambda>i. isExtremum cs i nL nR high) [?a .. ?m]"
      by (intro filter_cong) auto
    with same have "map (pivot_at (cs @ ds)) (filter (\<lambda>i. isExtremum (cs @ ds) i nL nR high) [?a .. ?m])
        = pivots_of cs nL nR high"
      by (auto simp: pivots_of_def)
    moreover have "pivots_of (cs @ ds) nL nR high
        = map (pivot_at (cs @ ds)) (filter (\<lambda>i. isExtremum (cs @ ds) i nL nR high) [?a .. ?m])
        @ map (pivot_at (cs @ ds)) (filter (\<lambda>i. isExtremum (cs @ ds) i nL nR high) [?m + 1 .. ?b])"
      unfolding pivots_of_def split by simp
    ultimately show ?thesis by simp
  next
    case False
    then have "pivots_of cs nL nR high = []" by (simp add: pivots_of_def)
    then show ?thesis by simp
  qed
qed


section \<open>The BOS / CHoCH pass\<close>

text \<open>\<open>1\<close> is bullish structure, \<open>-1\<close> bearish, \<open>0\<close> none.\<close>

record structure_state =
  ss_trend :: int
  ss_protected :: "jsnum option"
  ss_highSeq :: "swing_pivot list"
  ss_lowSeq :: "swing_pivot list"
  ss_brokenHigh :: int
  ss_brokenLow :: int
  ss_breachAt :: int
  ss_breachLevel :: "jsnum option"
  ss_breachSide :: int

definition structure_init :: structure_state where
  "structure_init = \<lparr> ss_trend = 0, ss_protected = None, ss_highSeq = [], ss_lowSeq = [],
     ss_brokenHigh = -1, ss_brokenLow = -1, ss_breachAt = -1, ss_breachLevel = None, ss_breachSide = 1 \<rparr>"

text \<open>Pivots confirmed by the close of bar \<open>t\<close>.\<close>

definition confirm_pivots :: "candle list \<Rightarrow> nat \<Rightarrow> nat \<Rightarrow> structure_state \<Rightarrow> int \<Rightarrow> structure_state" where
  "confirm_pivots candles nL nR s t =
     (let ci = t - int nR
      in if ci \<ge> int nL then
           s\<lparr> ss_highSeq := (if isExtremum candles ci nL nR True
                            then ss_highSeq s @ [pivot_at candles ci] else ss_highSeq s),
              ss_lowSeq := (if isExtremum candles ci nL nR False
                            then ss_lowSeq s @ [pivot_at candles ci] else ss_lowSeq s) \<rparr>
         else s)"

definition breaks_high :: "structure_state \<Rightarrow> jsnum \<Rightarrow> swing_pivot option" where
  "breaks_high s closeNow =
     (case last_opt (ss_highSeq s) of
        Some h \<Rightarrow> if closeNow > sp_price h \<and> sp_index h > ss_brokenHigh s then Some h else None
      | None \<Rightarrow> None)"

definition breaks_low :: "structure_state \<Rightarrow> jsnum \<Rightarrow> swing_pivot option" where
  "breaks_low s closeNow =
     (case last_opt (ss_lowSeq s) of
        Some l \<Rightarrow> if closeNow < sp_price l \<and> sp_index l > ss_brokenLow s then Some l else None
      | None \<Rightarrow> None)"

text \<open>The break of structure, if bar \<open>t\<close> makes one: \<open>(fired, state)\<close>.\<close>

definition apply_break :: "structure_state \<Rightarrow> jsnum \<Rightarrow> bool \<times> structure_state" where
  "apply_break s closeNow =
     (case breaks_high s closeNow of
        Some h \<Rightarrow> (True, s\<lparr> ss_brokenHigh := sp_index h, ss_trend := 1,
                          ss_protected := latestPreceding (ss_lowSeq s) (sp_index h) \<rparr>)
      | None \<Rightarrow>
          (case breaks_low s closeNow of
             Some l \<Rightarrow> (True, s\<lparr> ss_brokenLow := sp_index l, ss_trend := -1,
                               ss_protected := latestPreceding (ss_highSeq s) (sp_index l) \<rparr>)
           | None \<Rightarrow> (False, s)))"

definition breach_of :: "int \<Rightarrow> jsnum option \<Rightarrow> jsnum \<Rightarrow> jsnum option" where
  "breach_of prevTrend prevProtected closeNow =
     (case prevProtected of
        None \<Rightarrow> None
      | Some p \<Rightarrow> if prevTrend = 1 \<and> closeNow < p then Some p
                  else if prevTrend = -1 \<and> closeNow > p then Some p else None)"

definition structure_step :: "candle list \<Rightarrow> nat \<Rightarrow> nat \<Rightarrow> structure_state \<Rightarrow> int \<Rightarrow> structure_state" where
  "structure_step candles nL nR s0 t =
     (let s = confirm_pivots candles nL nR s0 t;
          closeNow = close_at candles t;
          fired_s1 = apply_break s closeNow
      in case breach_of (ss_trend s) (ss_protected s) closeNow of
           None \<Rightarrow> snd fired_s1
         | Some b \<Rightarrow>
             (snd fired_s1)\<lparr> ss_breachAt := t, ss_breachLevel := Some b,
                ss_breachSide := (if ss_trend s = 1 then 1 else -1),
                ss_protected := (if fst fired_s1 then ss_protected (snd fired_s1) else None) \<rparr>)"

definition structure_pass :: "candle list \<Rightarrow> nat \<Rightarrow> nat \<Rightarrow> int \<Rightarrow> structure_state" where
  "structure_pass candles nL nR upto_t =
     foldl (structure_step candles nL nR) structure_init [0 .. upto_t]"

record structure_result =
  sr_trend :: int
  sr_protected :: "jsnum option"
  sr_breached :: bool
  sr_breachedLevel :: "jsnum option"
  sr_breachSide :: int

definition deriveStructure :: "candle list \<Rightarrow> nat \<Rightarrow> nat \<Rightarrow> structure_result" where
  "deriveStructure candles nL nR =
     (let lst = int (length candles) - 1
      in if lst < int nL + int nR
         then \<lparr> sr_trend = 0, sr_protected = None, sr_breached = False,
                sr_breachedLevel = None, sr_breachSide = 0 \<rparr>
         else (let s = structure_pass candles nL nR lst;
                   breached = (ss_breachAt s = lst)
               in \<lparr> sr_trend = ss_trend s, sr_protected = ss_protected s, sr_breached = breached,
                    sr_breachedLevel = (if breached then ss_breachLevel s else None),
                    sr_breachSide = (if breached then ss_breachSide s else 0) \<rparr>))"

subsection \<open>The pass reads only closed bars\<close>

lemma close_at_append: "0 \<le> t \<Longrightarrow> t < int (length cs) \<Longrightarrow> close_at (cs @ ds) t = close_at cs t"
  by (simp add: close_at_def nth_opt_append)

lemma confirm_pivots_append:
  "t < int (length cs) \<Longrightarrow> confirm_pivots (cs @ ds) nL nR s t = confirm_pivots cs nL nR s t"
  by (simp add: confirm_pivots_def Let_def isExtremum_append pivot_at_append)

lemma structure_step_append:
  "0 \<le> t \<Longrightarrow> t < int (length cs) \<Longrightarrow> structure_step (cs @ ds) nL nR s t = structure_step cs nL nR s t"
  by (simp add: structure_step_def confirm_pivots_append close_at_append)

lemma structure_pass_append:
  assumes "t < int (length cs)"
  shows "structure_pass (cs @ ds) nL nR t = structure_pass cs nL nR t"
  unfolding structure_pass_def
  by (rule foldl_cong) (use assms in \<open>auto simp: structure_step_append\<close>)

subsection \<open>What a breach records\<close>

text \<open>A recorded breach is a close beyond the recorded level, on the recorded side.\<close>

definition breach_inv :: "candle list \<Rightarrow> structure_state \<Rightarrow> bool" where
  "breach_inv cs s \<longleftrightarrow> ss_breachAt s \<ge> 0 \<longrightarrow>
     (\<exists>L. ss_breachLevel s = Some L \<and>
        (ss_breachSide s = 1 \<and> close_at cs (ss_breachAt s) < L
       \<or> ss_breachSide s = -1 \<and> L < close_at cs (ss_breachAt s)))"

lemma confirm_pivots_frame [frame_simps]:
  "ss_trend (confirm_pivots cs nL nR s t) = ss_trend s"
  "ss_protected (confirm_pivots cs nL nR s t) = ss_protected s"
  "ss_breachAt (confirm_pivots cs nL nR s t) = ss_breachAt s"
  "ss_breachLevel (confirm_pivots cs nL nR s t) = ss_breachLevel s"
  "ss_breachSide (confirm_pivots cs nL nR s t) = ss_breachSide s"
  by (auto simp: confirm_pivots_def Let_def)

lemma apply_break_frame [frame_simps]:
  "ss_breachAt (snd (apply_break s c)) = ss_breachAt s"
  "ss_breachLevel (snd (apply_break s c)) = ss_breachLevel s"
  "ss_breachSide (snd (apply_break s c)) = ss_breachSide s"
  by (auto simp: apply_break_def split: option.splits)

lemma breach_inv_step: "breach_inv cs s \<Longrightarrow> breach_inv cs (structure_step cs nL nR s t)"
  by (auto simp: breach_inv_def structure_step_def Let_def frame_simps breach_of_def
      split: option.splits if_splits)

lemma breach_inv_pass: "breach_inv cs (structure_pass cs nL nR t)"
proof -
  have "breach_inv cs (foldl (structure_step cs nL nR) s ts)" if "breach_inv cs s" for s ts
    using that by (induction ts arbitrary: s) (auto intro: breach_inv_step)
  moreover have "breach_inv cs structure_init" by (simp add: breach_inv_def structure_init_def)
  ultimately show ?thesis by (simp add: structure_pass_def)
qed

lemma deriveStructure_breach:
  assumes "sr_breached (deriveStructure cs nL nR)"
  shows "\<exists>L. sr_breachedLevel (deriveStructure cs nL nR) = Some L \<and>
     (sr_breachSide (deriveStructure cs nL nR) = 1 \<and> close_at cs (int (length cs) - 1) < L
    \<or> sr_breachSide (deriveStructure cs nL nR) = -1 \<and> L < close_at cs (int (length cs) - 1))"
proof -
  let ?l = "int (length cs) - 1"
  from assms have big: "\<not> ?l < int nL + int nR"
    and at: "ss_breachAt (structure_pass cs nL nR ?l) = ?l"
    by (auto simp: deriveStructure_def Let_def split: if_splits)
  from big have "0 \<le> ?l" by linarith
  with at breach_inv_pass [of cs nL nR ?l] show ?thesis
    using big by (auto simp: deriveStructure_def breach_inv_def Let_def)
qed

section \<open>The two methods\<close>

definition mirrorCandle :: "candle \<Rightarrow> candle" where
  "mirrorCandle c = c\<lparr> c_open := - c_open c, c_high := - c_low c, c_low := - c_high c, c_close := - c_close c \<rparr>"

text \<open>
  A bar count is a whole number; a parameter outside the whole numbers (which the registry's
  grids exclude) yields no candidate.
\<close>

definition count_param :: "trailing_policy \<Rightarrow> string \<Rightarrow> nat option" where
  "count_param p k =
     (case num_param p k of
        Fin r \<Rightarrow> if of_int \<lfloor>r\<rfloor> = r \<and> 0 \<le> r then Some (nat \<lfloor>r\<rfloor>) else None
      | _ \<Rightarrow> None)"

definition structureStop :: "trailing_policy \<Rightarrow> policy_context \<Rightarrow> stop_candidate option" where
  "structureStop policy ctx =
     (case (count_param policy ''nLeft'', count_param policy ''nRight'') of
        (Some nL, Some nR) \<Rightarrow>
          (let series = (if cx_side ctx = LONG then cx_candles ctx else map mirrorCandle (cx_candles ctx));
               st = deriveStructure series nL nR;
               s = (if cx_side ctx = LONG then 1 else - 1)
           in if sr_breached st \<and> sr_breachSide st = 1 then
                Some \<lparr> sc_policyId = tp_id policy,
                       sc_levelZ = (case sr_breachedLevel st of Some l \<Rightarrow> l | None \<Rightarrow> 0),
                       sc_priceReference = tp_priceReference policy,
                       sc_reason = ChochReason (sr_breachedLevel st), sc_exit = True \<rparr>
              else if sr_trend st \<noteq> 1 then None
              else (case sr_protected st of
                      None \<Rightarrow> None
                    | Some prot \<Rightarrow>
                        (case atrOf (cx_candles ctx) 14 of
                           None \<Rightarrow> None
                         | Some a \<Rightarrow>
                             (let levelZ = prot - num_param policy ''bufferAtr'' * a
                              in if \<not> (levelZ < s * cx_price ctx) then None
                                 else Some \<lparr> sc_policyId = tp_id policy, sc_levelZ = levelZ,
                                        sc_priceReference = tp_priceReference policy,
                                        sc_reason = BosReason prot, sc_exit = False \<rparr>))))
      | _ \<Rightarrow> None)"

definition bosChoch :: "trailing_policy \<Rightarrow> policy_context \<Rightarrow> trailing_state \<Rightarrow> stop_candidate option" where
  "bosChoch policy ctx st = structureStop policy ctx"

definition swingTrail :: "trailing_policy \<Rightarrow> policy_context \<Rightarrow> trailing_state \<Rightarrow> stop_candidate option" where
  "swingTrail policy ctx st =
     (case atrOf (cx_candles ctx) 14 of
        None \<Rightarrow> None
      | Some a \<Rightarrow>
          (case (count_param policy ''nLeft'', count_param policy ''nRight'') of
             (Some nL, Some nR) \<Rightarrow>
               (let pivots = confirmedPivots (cx_candles ctx) nL nR
                in case (if cx_side ctx = LONG then last_opt (snd pivots) else last_opt (fst pivots)) of
                     None \<Rightarrow> None
                   | Some pivot \<Rightarrow>
                       (let tick = (case cx_tickSize ctx of Some t \<Rightarrow> t | None \<Rightarrow> 0);
                            buffer = math_max (num_param policy ''bufferAtr'' * a)
                                              (num_param policy ''bufferTicks'' * tick);
                            stopPrice = (if cx_side ctx = LONG then sp_price pivot - buffer
                                         else sp_price pivot + buffer);
                            s = (if cx_side ctx = LONG then 1 else - 1);
                            levelZ = s * stopPrice
                        in if \<not> (levelZ < s * cx_price ctx) then None
                           else Some \<lparr> sc_policyId = tp_id policy, sc_levelZ = levelZ,
                                  sc_priceReference = tp_priceReference policy,
                                  sc_reason = SwingReason (sp_index pivot) (sp_price pivot),
                                  sc_exit = False \<rparr>))
           | _ \<Rightarrow> None))"

text \<open>A structure stop is on the protective side of the current price.\<close>

lemma structureStop_protective:
  assumes "structureStop policy ctx = Some c" and "\<not> sc_exit c"
  shows "sc_levelZ c < (if cx_side ctx = LONG then 1 else - 1) * cx_price ctx"
  using assms by (auto simp: structureStop_def Let_def split: option.splits if_splits)

lemma swingTrail_protective:
  assumes "swingTrail policy ctx st = Some c"
  shows "sc_levelZ c < (if cx_side ctx = LONG then 1 else - 1) * cx_price ctx \<and> \<not> sc_exit c"
  using assms by (auto simp: swingTrail_def Let_def split: option.splits if_splits)

text \<open>An exit candidate of the structure method is a close beyond a protected level.\<close>

lemma structureStop_exit:
  assumes "structureStop policy ctx = Some c" and "sc_exit c"
  obtains L where "sc_reason c = ChochReason (Some L)" and "sc_levelZ c = L"
    and "close_at (if cx_side ctx = LONG then cx_candles ctx else map mirrorCandle (cx_candles ctx))
           (int (length (cx_candles ctx)) - 1) < L"
proof -
  let ?cs = "if cx_side ctx = LONG then cx_candles ctx else map mirrorCandle (cx_candles ctx)"
  have len: "length ?cs = length (cx_candles ctx)" by simp
  from assms obtain nL nR where d: "sr_breached (deriveStructure ?cs nL nR)"
      "sr_breachSide (deriveStructure ?cs nL nR) = 1"
    and c: "sc_reason c = ChochReason (sr_breachedLevel (deriveStructure ?cs nL nR))"
      "sc_levelZ c = (case sr_breachedLevel (deriveStructure ?cs nL nR) of Some l \<Rightarrow> l | None \<Rightarrow> 0)"
    by (auto simp: structureStop_def Let_def split: option.splits if_splits)
  from deriveStructure_breach [OF d(1)] d(2) obtain L
    where "sr_breachedLevel (deriveStructure ?cs nL nR) = Some L"
      and "close_at ?cs (int (length ?cs) - 1) < L" by auto
  with c show thesis by (intro that [of L]) (auto simp: len)
qed


section \<open>Properties\<close>

text \<open>
  Structure never repaints: appending candles only appends confirmed pivots, and the BOS/CHoCH
  pass up to a closed bar is the same whatever candles follow it.
\<close>

theorem structure_never_repaints:
  "(\<exists>hs ls. confirmedPivots (cs @ ds) nL nR
       = (fst (confirmedPivots cs nL nR) @ hs, snd (confirmedPivots cs nL nR) @ ls))
   \<and> structure_pass (cs @ ds) nL nR (int (length cs) - 1) = structure_pass cs nL nR (int (length cs) - 1)"
  using pivots_of_append [of cs ds nL nR True] pivots_of_append [of cs ds nL nR False]
  by (auto simp: confirmedPivots_def structure_pass_append)

text \<open>
  The protected level is the last confirmed opposite pivot before the broken one, with no test
  that it lies on the protective side of the close that broke it. In a fall with a flat bottom
  (the two equal closes make no pivot) the last confirmed low can be above the break.
\<close>

definition flat_candle :: "real \<Rightarrow> candle" where
  "flat_candle x = \<lparr> c_openTime = 0, c_open = Fin x, c_high = Fin x, c_low = Fin x, c_close = Fin x, c_volume = 1 \<rparr>"

definition choch_candles :: "candle list" where
  "choch_candles = map flat_candle [11, 10, 9, 8, 19/2, 10, 5, 5, 11/2, 6, 26/5, 4, 7, 15/2]"

text \<open>
  With the registry's own pivot widths (3, 2), a bullish break at a close of 7 takes the level 8
  as its protected low, and the next close, which rises to 7.5, is reported as a long-side breach
  of it: the exit fires on rising prices.
\<close>

theorem bos_protects_level_above_price:
  "ss_trend (structure_pass choch_candles 3 2 12) = 1
   \<and> ss_protected (structure_pass choch_candles 3 2 12) = Some (Fin 8)
   \<and> close_at choch_candles 12 = Fin 7 \<and> close_at choch_candles 13 = Fin (15 / 2)
   \<and> sr_breached (deriveStructure choch_candles 3 2)
   \<and> sr_breachSide (deriveStructure choch_candles 3 2) = 1"
  by (intro conjI; code_simp)

end
