(* ===== verification/TrailingEngine.thy ===== *)
theory TrailingEngine
  imports TrailingFsm TrailingStructure
begin

text \<open>
  The decision aggregator of \<open>src/trailing/engine.ts\<close>: one pass over a position's context
  that exits on a breached stop or a structural exit and otherwise accepts only the tightest
  candidate above the current stop.
\<close>

section \<open>Evaluators\<close>

datatype engine_error = MethodNotImplemented method_id

definition evaluatorFor ::
  "method_id \<Rightarrow> engine_error + (trailing_policy \<Rightarrow> policy_context \<Rightarrow> trailing_state \<Rightarrow> stop_candidate option)" where
  "evaluatorFor m =
     (case m of
        ATR_TRAIL \<Rightarrow> Inr atrTrail
      | CHANDELIER \<Rightarrow> Inr chandelier
      | SWING \<Rightarrow> Inr swingTrail
      | BOS_CHOCH \<Rightarrow> Inr bosChoch
      | _ \<Rightarrow> Inl (MethodNotImplemented m))"

definition ctx_sign :: "policy_context \<Rightarrow> jsnum" where
  "ctx_sign ctx = (if cx_side ctx = LONG then 1 else - 1)"

definition favorableExcursionR :: "trailing_state \<Rightarrow> policy_context \<Rightarrow> jsnum" where
  "favorableExcursionR st ctx =
     (let x0 = ctx_sign ctx * cx_entry ctx;
          d0 = (case cx_initialRisk ctx of
                  Some r \<Rightarrow> r
                | None \<Rightarrow> abs (cx_entry ctx - ctx_sign ctx * ts_confirmedStop st))
      in if d0 > 0 then (ts_extremeX st - x0) / d0 else 0)"

definition activated :: "trailing_policy \<Rightarrow> policy_context \<Rightarrow> trailing_state \<Rightarrow> bool" where
  "activated policy ctx st =
     (case act_type (tp_activation policy) of
        IMMEDIATE \<Rightarrow> True
      | NEVER \<Rightarrow> False
      | TP1_FILLED \<Rightarrow> False
      | PEAK_PNL \<Rightarrow> (case ts_peakNetPnl st of Some p \<Rightarrow> p | None \<Rightarrow> 0) \<ge> act_threshold (tp_activation policy)
      | MFE_R \<Rightarrow> favorableExcursionR st ctx \<ge> act_threshold (tp_activation policy))"

definition advanceState :: "trailing_state \<Rightarrow> policy_context \<Rightarrow> jsnum \<Rightarrow> jsnum \<Rightarrow> trailing_state" where
  "advanceState prev ctx x now =
     (let excursion = x - ctx_sign ctx * cx_entry ctx
      in prev\<lparr> ts_extremeX := math_max (ts_extremeX prev) x,
               ts_mfeX := math_max (ts_mfeX prev) excursion,
               ts_maeX := math_min (ts_maeX prev) excursion,
               ts_updatedAt := now \<rparr>)"

section \<open>One run over the active policies\<close>

record run_result =
  rr_x :: jsnum
  rr_active :: "trailing_policy list"
  rr_cands :: "stop_candidate list"
  rr_loosening :: nat
  rr_invalid :: nat

text \<open>The loop over the active policies; an unknown method throws out of it.\<close>

fun collect_cands ::
  "trailing_state \<Rightarrow> policy_context \<Rightarrow> trailing_policy list \<Rightarrow> engine_error + stop_candidate list" where
  "collect_cands st ctx [] = Inr []"
| "collect_cands st ctx (p # ps) =
     (case evaluatorFor (tp_method p) of
        Inl e \<Rightarrow> Inl e
      | Inr ev \<Rightarrow>
          (case collect_cands st ctx ps of
             Inl e \<Rightarrow> Inl e
           | Inr cs \<Rightarrow> Inr (case ev p ctx st of None \<Rightarrow> cs | Some c \<Rightarrow> c # cs)))"

definition collectRun ::
  "trailing_state \<Rightarrow> policy_context \<Rightarrow> trailing_policy list \<Rightarrow> jsnum \<Rightarrow> engine_error + run_result" where
  "collectRun st ctx policies x =
     (let active = filter (\<lambda>p. tp_enabled p \<and> activated p ctx st) policies
      in case collect_cands st ctx active of
           Inl e \<Rightarrow> Inl e
         | Inr cands \<Rightarrow>
             Inr \<lparr> rr_x = x, rr_active = active, rr_cands = cands,
                   rr_loosening = length (filter (\<lambda>c. sc_levelZ c \<le> ts_stopZ st) cands),
                   rr_invalid = length (filter (\<lambda>c. sc_levelZ c \<ge> x) cands) \<rparr>)"

text \<open>\<open>policyById\<close>: a later policy with the same id replaces an earlier one.\<close>

definition policyById :: "run_result \<Rightarrow> string \<Rightarrow> trailing_policy option" where
  "policyById run i = find (\<lambda>p. tp_id p = i) (rev (rr_active run))"

section \<open>Decisions\<close>

datatype reason_code =
    INVALID_CONTEXT | NO_CHANGE | INITIAL_STOP_BREACH | STOP_BREACH string
  | CandidateReason candidate_reason

datatype evidence_value = EvNum jsnum | EvStr string

type_synonym evidence = "(string \<times> evidence_value) list"

record trailing_decision =
  td_positionId :: "string \<times> agent_id"
  td_policyIds :: "string list"
  td_action :: trailing_action
  td_stopPrice :: "jsnum option"
  td_stopZ :: "jsnum option"
  td_triggerReference :: "price_reference option"
  td_triggerDomain :: "policy_domain option"
  td_reasonCode :: reason_code
  td_evidence :: evidence
  td_ts :: jsnum

definition evidenceOf :: "trailing_state \<Rightarrow> run_result option \<Rightarrow> evidence" where
  "evidenceOf st run =
     (case run of
        None \<Rightarrow> [(''stopZ'', EvNum (ts_stopZ st)), (''candidates'', EvNum 0)]
      | Some r \<Rightarrow>
          [(''x'', EvNum (rr_x r)), (''extreme'', EvNum (ts_extremeX st)),
           (''stopZ'', EvNum (ts_stopZ st)),
           (''candidates'', EvNum (num_of_nat (length (rr_cands r)))),
           (''rejectedLoosening'', EvNum (num_of_nat (rr_loosening r))),
           (''rejectedInvalid'', EvNum (num_of_nat (rr_invalid r)))])"

definition holdDecision ::
  "trailing_state \<Rightarrow> reason_code \<Rightarrow> jsnum \<Rightarrow> run_result option \<Rightarrow> trailing_decision" where
  "holdDecision st reason now run =
     \<lparr> td_positionId = ts_key st,
       td_policyIds = (case run of None \<Rightarrow> [] | Some r \<Rightarrow> map tp_id (rr_active r)),
       td_action = HOLD, td_stopPrice = None, td_stopZ = None,
       td_triggerReference = None, td_triggerDomain = None,
       td_reasonCode = reason, td_evidence = evidenceOf st run, td_ts = now \<rparr>"

definition breachExit ::
  "trailing_state \<Rightarrow> trailing_policy list \<Rightarrow> jsnum \<Rightarrow> jsnum \<Rightarrow> trailing_decision" where
  "breachExit st policies x now =
     (let acked = ts_lastAccepted st;
          source = Option.bind acked (\<lambda>a. find (\<lambda>p. tp_id p = ad_policyId a) policies)
      in \<lparr> td_positionId = ts_key st, td_policyIds = [], td_action = EXIT,
           td_stopPrice = None, td_stopZ = None,
           td_triggerReference = Some (case source of Some p \<Rightarrow> tp_priceReference p | None \<Rightarrow> CONTRACT_PRICE),
           td_triggerDomain = Some (case source of Some p \<Rightarrow> tp_domain p | None \<Rightarrow> D_CONTRACT),
           td_reasonCode = (case acked of Some a \<Rightarrow> STOP_BREACH (ad_policyId a) | None \<Rightarrow> INITIAL_STOP_BREACH),
           td_evidence = [(''x'', EvNum x), (''extreme'', EvNum (ts_extremeX st)),
                          (''stopZ'', EvNum (ts_stopZ st)), (''breachZ'', EvNum (ts_stopZ st))],
           td_ts = now \<rparr>)"

definition structureExit ::
  "trailing_state \<Rightarrow> run_result \<Rightarrow> stop_candidate \<Rightarrow> jsnum \<Rightarrow> trailing_decision" where
  "structureExit st run ex now =
     \<lparr> td_positionId = ts_key st, td_policyIds = map tp_id (rr_active run), td_action = EXIT,
       td_stopPrice = None, td_stopZ = None,
       td_triggerReference = Some (sc_priceReference ex),
       td_triggerDomain = Some (case policyById run (sc_policyId ex) of Some p \<Rightarrow> tp_domain p | None \<Rightarrow> D_CONTRACT),
       td_reasonCode = CandidateReason (sc_reason ex),
       td_evidence = evidenceOf st (Some run) @ [(''breachZ'', EvNum (sc_levelZ ex))],
       td_ts = now \<rparr>"

text \<open>The reduction that keeps the first of the highest candidates.\<close>

definition tightest :: "stop_candidate list \<Rightarrow> stop_candidate option" where
  "tightest cs =
     (case cs of
        [] \<Rightarrow> None
      | c # rest \<Rightarrow> Some (foldl (\<lambda>a b. if sc_levelZ b > sc_levelZ a then b else a) c rest))"

definition moveDecision ::
  "trailing_state \<Rightarrow> policy_context \<Rightarrow> run_result \<Rightarrow> stop_candidate \<Rightarrow> jsnum \<Rightarrow> trailing_decision" where
  "moveDecision st ctx run w now =
     \<lparr> td_positionId = ts_key st, td_policyIds = map tp_id (rr_active run), td_action = MOVE_STOP,
       td_stopPrice = Some (ctx_sign ctx * sc_levelZ w), td_stopZ = Some (sc_levelZ w),
       td_triggerReference = None, td_triggerDomain = None,
       td_reasonCode = CandidateReason (sc_reason w),
       td_evidence = evidenceOf st (Some run) @ [(''acceptingPolicyId'', EvStr (sc_policyId w))],
       td_ts = now \<rparr>"

definition evaluate ::
  "trailing_state \<Rightarrow> policy_context \<Rightarrow> trailing_policy list \<Rightarrow> jsnum \<Rightarrow>
   engine_error + (trailing_state \<times> trailing_decision)" where
  "evaluate prev ctx policies now =
     (let x = ctx_sign ctx * cx_price ctx
      in if \<not> is_finite x \<or> \<not> (cx_price ctx > 0)
         then Inr (prev, holdDecision prev INVALID_CONTEXT now None)
         else
           (let st = advanceState prev ctx x now
            in if x \<le> ts_stopZ prev then Inr (st, breachExit st policies x now)
               else
                 (case collectRun st ctx policies x of
                    Inl e \<Rightarrow> Inl e
                  | Inr run \<Rightarrow>
                      (case find sc_exit (rr_cands run) of
                         Some ex \<Rightarrow> Inr (st, structureExit st run ex now)
                       | None \<Rightarrow>
                           (case tightest (filter (\<lambda>c. sc_levelZ c > ts_stopZ st \<and> sc_levelZ c < x) (rr_cands run)) of
                              None \<Rightarrow> Inr (st, holdDecision st NO_CHANGE now (Some run))
                            | Some w \<Rightarrow>
                                Inr (st\<lparr> ts_stopZ := sc_levelZ w \<rparr>,
                                     moveDecision st ctx run w now))))))"


section \<open>Lemmas\<close>

lemma tightest_None [simp]: "tightest [] = None" "tightest cs = None \<longleftrightarrow> cs = []"
  by (auto simp: tightest_def split: list.splits)

lemma foldl_tightest:
  assumes "\<forall>c\<in>insert a (set cs). sc_levelZ c \<noteq> NaN"
  shows "foldl (\<lambda>a b. if sc_levelZ b > sc_levelZ a then b else a) a cs \<in> insert a (set cs)
    \<and> (\<forall>c\<in>insert a (set cs).
          sc_levelZ c \<le> sc_levelZ (foldl (\<lambda>a b. if sc_levelZ b > sc_levelZ a then b else a) a cs))"
  using assms
proof (induction cs arbitrary: a)
  case Nil
  then show ?case by simp
next
  case (Cons b cs)
  let ?m = "if sc_levelZ b > sc_levelZ a then b else a"
  have m: "?m \<in> {a, b}" "sc_levelZ a \<le> sc_levelZ ?m" "sc_levelZ b \<le> sc_levelZ ?m"
    using Cons.prems by (auto simp: js_not_lt_iff js_lt_imp_le)
  have "\<forall>c\<in>insert ?m (set cs). sc_levelZ c \<noteq> NaN" using Cons.prems by auto
  from Cons.IH [OF this] obtain F where
    F: "foldl (\<lambda>a b. if sc_levelZ b > sc_levelZ a then b else a) ?m cs = F"
      "F \<in> insert ?m (set cs)" "\<forall>c\<in>insert ?m (set cs). sc_levelZ c \<le> sc_levelZ F" by blast
  have "sc_levelZ a \<le> sc_levelZ F" "sc_levelZ b \<le> sc_levelZ F"
    using m F(3) by (auto intro: js_le_trans simp del: if_split)
  moreover have "F \<in> {a, b} \<union> set cs" using F(2) m(1) by blast
  ultimately show ?case using F(1) F(3) by auto
qed

lemma tightest_Some:
  assumes "tightest cs = Some w" and "\<forall>c\<in>set cs. sc_levelZ c \<noteq> NaN"
  shows "w \<in> set cs \<and> (\<forall>c\<in>set cs. sc_levelZ c \<le> sc_levelZ w)"
proof (cases cs)
  case Nil
  with assms show ?thesis by simp
next
  case (Cons a rest)
  with assms show ?thesis using foldl_tightest [of a rest] by (auto simp: tightest_def)
qed

lemma collect_cands_member:
  "collect_cands st ctx ps = Inr cs \<Longrightarrow> c \<in> set cs \<Longrightarrow>
     \<exists>p ev. p \<in> set ps \<and> evaluatorFor (tp_method p) = Inr ev \<and> ev p ctx st = Some c"
proof (induction ps arbitrary: cs)
  case Nil
  then show ?case by simp
next
  case (Cons p ps)
  then show ?case by (auto split: sum.splits option.splits) blast+
qed

lemma advanceState_frame [simp]:
  "ts_stopZ (advanceState s ctx x now) = ts_stopZ s"
  "ts_confirmedStop (advanceState s ctx x now) = ts_confirmedStop s"
  "ts_phase (advanceState s ctx x now) = ts_phase s"
  "ts_side (advanceState s ctx x now) = ts_side s"
  "ts_key (advanceState s ctx x now) = ts_key s"
  "ts_lastAccepted (advanceState s ctx x now) = ts_lastAccepted s"
  "ts_extremeX (advanceState s ctx x now) = math_max (ts_extremeX s) x"
  by (auto simp: advanceState_def Let_def)

text \<open>The cases of one pass, each with what it implies.\<close>

definition candidates_of ::
  "trailing_state \<Rightarrow> policy_context \<Rightarrow> trailing_policy list \<Rightarrow> stop_candidate list \<Rightarrow> bool" where
  "candidates_of st ctx policies cs \<longleftrightarrow>
     collect_cands st ctx (filter (\<lambda>p. tp_enabled p \<and> activated p ctx st) policies) = Inr cs"

lemma collectRun_Inr:
  "collectRun st ctx policies x = Inr run \<Longrightarrow>
     candidates_of st ctx policies (rr_cands run) \<and> rr_x run = x"
  by (auto simp: collectRun_def candidates_of_def Let_def split: sum.splits)

lemma evaluate_cases:
  assumes "evaluate prev ctx policies now = Inr (st, d)"
  obtains (invalid) "\<not> is_finite (ctx_sign ctx * cx_price ctx) \<or> \<not> cx_price ctx > 0"
      "st = prev" "td_action d = HOLD"
  | (breach) "ctx_sign ctx * cx_price ctx \<le> ts_stopZ prev" "td_action d = EXIT"
      "is_finite (ctx_sign ctx * cx_price ctx)"
      "st = advanceState prev ctx (ctx_sign ctx * cx_price ctx) now"
  | (structural) cs ex where "\<not> ctx_sign ctx * cx_price ctx \<le> ts_stopZ prev" "td_action d = EXIT"
      "is_finite (ctx_sign ctx * cx_price ctx)"
      "st = advanceState prev ctx (ctx_sign ctx * cx_price ctx) now"
      "candidates_of st ctx policies cs" "ex \<in> set cs" "sc_exit ex"
      "td_reasonCode d = CandidateReason (sc_reason ex)"
  | (unchanged) cs where "\<not> ctx_sign ctx * cx_price ctx \<le> ts_stopZ prev" "td_action d = HOLD"
      "is_finite (ctx_sign ctx * cx_price ctx)"
      "st = advanceState prev ctx (ctx_sign ctx * cx_price ctx) now"
      "candidates_of st ctx policies cs"
      "\<forall>c\<in>set cs. \<not> sc_exit c \<and> \<not> (ts_stopZ prev < sc_levelZ c \<and> sc_levelZ c < ctx_sign ctx * cx_price ctx)"
  | (move) cs w where "\<not> ctx_sign ctx * cx_price ctx \<le> ts_stopZ prev" "td_action d = MOVE_STOP"
      "is_finite (ctx_sign ctx * cx_price ctx)"
      "candidates_of (advanceState prev ctx (ctx_sign ctx * cx_price ctx) now) ctx policies cs"
      "\<forall>c\<in>set cs. \<not> sc_exit c" "w \<in> set cs"
      "ts_stopZ prev < sc_levelZ w" "sc_levelZ w < ctx_sign ctx * cx_price ctx"
      "\<forall>c\<in>set cs. ts_stopZ prev < sc_levelZ c \<and> sc_levelZ c < ctx_sign ctx * cx_price ctx
         \<longrightarrow> sc_levelZ c \<le> sc_levelZ w"
      "st = (advanceState prev ctx (ctx_sign ctx * cx_price ctx) now)\<lparr> ts_stopZ := sc_levelZ w \<rparr>"
      "td_stopZ d = Some (sc_levelZ w)" "td_stopPrice d = Some (ctx_sign ctx * sc_levelZ w)"
proof -
  let ?x = "ctx_sign ctx * cx_price ctx"
  let ?s = "advanceState prev ctx ?x now"
  let ?win = "filter (\<lambda>c. sc_levelZ c > ts_stopZ ?s \<and> sc_levelZ c < ?x)"
  show thesis
  proof (cases "\<not> is_finite ?x \<or> \<not> cx_price ctx > 0")
    case True
    with assms have "st = prev" "td_action d = HOLD"
      by (auto simp: evaluate_def Let_def holdDecision_def)
    with True show thesis by (rule invalid)
  next
    case ok: False
    then have fin: "is_finite ?x" by simp
    show thesis
    proof (cases "?x \<le> ts_stopZ prev")
      case True
      with ok assms show thesis
        by (intro breach) (auto simp: evaluate_def Let_def breachExit_def)
    next
      case above: False
      with ok assms obtain run where run: "collectRun ?s ctx policies ?x = Inr run"
        by (auto simp: evaluate_def Let_def split: sum.splits)
      note cs = collectRun_Inr [OF run]
      show thesis
      proof (cases "find sc_exit (rr_cands run)")
        case (Some ex)
        from find_Some_iff_set [OF Some] have "ex \<in> set (rr_cands run)" "sc_exit ex" by auto
        moreover from assms ok above run Some have "st = ?s" "td_action d = EXIT"
            "td_reasonCode d = CandidateReason (sc_reason ex)"
          by (auto simp: evaluate_def Let_def structureExit_def)
        ultimately show thesis
          using above fin cs by (intro structural [of "rr_cands run" ex]) auto
      next
        case None
        then have noexit: "\<forall>c\<in>set (rr_cands run). \<not> sc_exit c" by (auto simp: find_None_iff)
        show thesis
        proof (cases "tightest (?win (rr_cands run))")
          case no: None
          from assms ok above run None no have "st = ?s" "td_action d = HOLD"
            by (auto simp: evaluate_def Let_def holdDecision_def)
          moreover from no have "?win (rr_cands run) = []" by simp
          ultimately show thesis
            using above fin cs noexit
            by (intro unchanged [of "rr_cands run"]) (auto simp: filter_empty_conv)
        next
          case (Some w)
          have nn: "\<forall>c\<in>set (?win (rr_cands run)). sc_levelZ c \<noteq> NaN"
            by (auto dest: lt_not_nan)
          from assms ok above run None Some
          have "st = ?s\<lparr> ts_stopZ := sc_levelZ w \<rparr>" "td_action d = MOVE_STOP"
              "td_stopZ d = Some (sc_levelZ w)" "td_stopPrice d = Some (ctx_sign ctx * sc_levelZ w)"
            by (auto simp: evaluate_def Let_def moveDecision_def)
          with tightest_Some [OF Some nn] show thesis
            using above fin cs noexit by (intro move [of "rr_cands run" w]) auto
        qed
      qed
    qed
  qed
qed

section \<open>The ratchet\<close>

definition eval_step ::
  "trailing_policy list \<Rightarrow> trailing_state \<Rightarrow> policy_context \<times> jsnum \<Rightarrow> trailing_state" where
  "eval_step policies st i =
     (case evaluate st (fst i) policies (snd i) of Inl e \<Rightarrow> st | Inr r \<Rightarrow> fst r)"

definition ratchet_le :: "trailing_state \<Rightarrow> trailing_state \<Rightarrow> bool" where
  "ratchet_le s t \<longleftrightarrow>
     no_looser LONG (ts_stopZ s) (ts_stopZ t) \<and> no_looser LONG (ts_extremeX s) (ts_extremeX t)
   \<and> ts_confirmedStop t = ts_confirmedStop s \<and> ts_phase t = ts_phase s
   \<and> ts_lastAccepted t = ts_lastAccepted s \<and> ts_side t = ts_side s \<and> ts_key t = ts_key s"

lemma advance_ratchet: "is_finite x \<Longrightarrow> ratchet_le s (advanceState s ctx x now)"
  using math_max_cases [of x "ts_extremeX s"]
  by (auto simp: ratchet_le_def no_looser_def beyond_def is_finite_not_nan)

lemma evaluate_ratchet:
  assumes "evaluate prev ctx policies now = Inr (st, d)"
  shows "ratchet_le prev st"
  using assms
proof (cases rule: evaluate_cases)
  case invalid
  then show ?thesis by (simp add: ratchet_le_def)
next
  case (move cs w)
  with advance_ratchet [OF move(3), of prev ctx now] show ?thesis
    by (auto simp: ratchet_le_def no_looser_def beyond_def)
qed (auto intro: advance_ratchet)

interpretation ratchet: guarded_machine "eval_step policies" "\<lambda>s. True" ratchet_le for policies
proof
  fix s t u :: trailing_state and i :: "policy_context \<times> jsnum"
  show "ratchet_le s s" by (simp add: ratchet_le_def)
  show "ratchet_le s t \<Longrightarrow> ratchet_le t u \<Longrightarrow> ratchet_le s u"
    by (auto simp: ratchet_le_def intro: no_looser_trans)
  show "ratchet_le s (eval_step policies s i)"
    by (auto simp: eval_step_def ratchet_le_def [of s s] split: sum.splits dest!: evaluate_ratchet)
qed simp_all


lemmas trailing_ratchet_run = ratchet.run_le [OF TrueI]

section \<open>Properties\<close>

text \<open>
  C3. Over any sequence of passes, with any policies and any market contexts (invalid prices and
  passes that throw included), the stop never loosens and the favourable extreme never falls in
  directional coordinates, and the engine never touches the confirmed stop, the phase or the
  accepted decision.
\<close>

theorem trailing_stop_never_loosens:
  "ratchet_le st (run_steps (eval_step policies) st passes)"
  by (rule ratchet.run_le) simp

text \<open>
  A \<open>MOVE_STOP\<close> decision places the stop strictly above the old one and strictly below the
  current directional price, comes from an enabled policy active in this pass, and is the
  tightest such candidate; the published price is the stop mapped back to price coordinates.
\<close>

theorem evaluate_move_stop:
  assumes "evaluate prev ctx policies now = Inr (st, d)" and "td_action d = MOVE_STOP"
  shows "ts_stopZ prev < ts_stopZ st \<and> ts_stopZ st < ctx_sign ctx * cx_price ctx
    \<and> td_stopZ d = Some (ts_stopZ st) \<and> td_stopPrice d = Some (ctx_sign ctx * ts_stopZ st)
    \<and> (\<exists>cs w p ev. candidates_of (advanceState prev ctx (ctx_sign ctx * cx_price ctx) now) ctx policies cs
         \<and> w \<in> set cs \<and> sc_levelZ w = ts_stopZ st
         \<and> p \<in> set policies \<and> tp_enabled p \<and> evaluatorFor (tp_method p) = Inr ev
         \<and> ev p ctx (advanceState prev ctx (ctx_sign ctx * cx_price ctx) now) = Some w
         \<and> (\<forall>c\<in>set cs. sc_levelZ c < ctx_sign ctx * cx_price ctx \<longrightarrow>
               sc_levelZ c \<le> ts_stopZ prev \<or> sc_levelZ c \<le> ts_stopZ st))"
  using assms(1)
proof (cases rule: evaluate_cases)
  case (move cs w)
  obtain p ev where p: "p \<in> set policies" "tp_enabled p" "evaluatorFor (tp_method p) = Inr ev"
      "ev p ctx (advanceState prev ctx (ctx_sign ctx * cx_price ctx) now) = Some w"
    using collect_cands_member [OF move(4) [unfolded candidates_of_def] move(6)] by auto
  have "\<forall>c\<in>set cs. sc_levelZ c < ctx_sign ctx * cx_price ctx \<longrightarrow>
          sc_levelZ c \<le> ts_stopZ prev \<or> sc_levelZ c \<le> sc_levelZ w"
    using move(7,9) by (auto simp: js_not_lt_iff dest: lt_not_nan) (metis js_not_lt_iff lt_not_nan)
  with move p show ?thesis by auto
qed (use assms(2) in auto)

text \<open>
  An \<open>EXIT\<close> has exactly two causes: the directional price is at or through the stop, or an
  enabled \<open>BOS_CHOCH\<close> policy saw the last close beyond its protected level.
\<close>

theorem evaluate_exit_causes:
  assumes "evaluate prev ctx policies now = Inr (st, d)"
  shows "td_action d = EXIT \<longrightarrow>
    ctx_sign ctx * cx_price ctx \<le> ts_stopZ prev
    \<or> (\<exists>p\<in>set policies. tp_enabled p \<and> tp_method p = BOS_CHOCH \<and>
        (\<exists>L. td_reasonCode d = CandidateReason (ChochReason (Some L)) \<and>
          close_at (if cx_side ctx = LONG then cx_candles ctx else map mirrorCandle (cx_candles ctx))
            (int (length (cx_candles ctx)) - 1) < L))"
  using assms
proof (cases rule: evaluate_cases)
  case (structural cs ex)
  obtain p ev where p: "p \<in> set policies" "tp_enabled p" "evaluatorFor (tp_method p) = Inr ev"
      "ev p ctx st = Some ex"
    using collect_cands_member [OF structural(5) [unfolded candidates_of_def] structural(6)] by auto
  with structural(7) have "tp_method p = BOS_CHOCH \<and> structureStop p ctx = Some ex"
    by (auto simp: evaluatorFor_def atrTrail_def chandelier_def bosChoch_def
        dest: extremeAtrStop_no_exit swingTrail_protective split: method_id.splits)
  with structureStop_exit [of p ctx ex] structural(7,8) p show ?thesis by metis
qed auto

text \<open>
  A price at or through the stop always exits: no candidate, policy or unimplemented method
  can prevent it.
\<close>

theorem evaluate_breach_always_exits:
  assumes "is_finite (cx_price ctx)" and "cx_price ctx > 0"
    and "ctx_sign ctx * cx_price ctx \<le> ts_stopZ prev"
  shows "\<exists>st d. evaluate prev ctx policies now = Inr (st, d) \<and> td_action d = EXIT
     \<and> ts_stopZ st = ts_stopZ prev"
proof -
  have "is_finite (ctx_sign ctx * cx_price ctx)"
    using assms(1) by (auto simp: is_finite_iff ctx_sign_def)
  with assms show ?thesis by (auto simp: evaluate_def Let_def breachExit_def)
qed

text \<open>
  After a restart with the position open, the stop is the one the executor last acknowledged,
  whatever the engine ratcheted to in between, and the favourable extreme of the passes since is
  not lost.
\<close>

theorem recover_discards_unacked_stop:
  assumes "vs_positionOpen venue" and "is_finite (vs_price venue)" and "vs_price venue > 0"
  shows "let st = run_steps (eval_step policies) (confirmStop st0 pid ts) passes;
             r = recover st venue now
         in ts_stopZ r = ts_stopZ st0 \<and> ts_confirmedStop r = ts_stopZ st0
          \<and> no_looser LONG (ts_extremeX st0) (ts_extremeX r)
          \<and> (ts_phase r = TRAILING_ACTIVE \<longleftrightarrow> vs_stopWorking venue)"
proof -
  let ?c = "confirmStop st0 pid ts"
  let ?st = "run_steps (eval_step policies) ?c passes"
  have r: "ratchet_le ?c ?st" by (rule trailing_ratchet_run)
  then have conf: "ts_confirmedStop ?st = ts_stopZ st0" "ts_lastAccepted ?st \<noteq> None"
    by (auto simp: ratchet_le_def confirmStop_def)
  have "dir_sign (ts_side ?st) * vs_price venue \<noteq> NaN"
    using assms(2) by (auto simp: is_finite_iff dir_sign_def)
  then have "no_looser LONG (ts_extremeX ?st) (ts_extremeX (recover ?st venue now))"
    unfolding recover_open(3) [OF assms]
    by (auto simp: no_looser_def beyond_def dest: math_max_cases)
  moreover have "no_looser LONG (ts_extremeX st0) (ts_extremeX ?st)"
    using r by (simp add: ratchet_le_def confirmStop_def)
  ultimately have "no_looser LONG (ts_extremeX st0) (ts_extremeX (recover ?st venue now))"
    by (rule no_looser_trans [rotated])
  with conf assms show ?thesis
    by (auto simp: Let_def recover_open) (auto simp: recover_def Let_def split: if_splits)
qed


section \<open>Concrete instances\<close>

definition demo_position :: position where
  "demo_position = \<lparr> p_id = ''BTCUSDT_T'', p_symbol = ''BTCUSDT'', p_side = LONG, p_strategy = TREND_ENS,
     p_entry = 100, p_qty = 2, p_mark = 100, p_upnl = 0, p_upnlPct = 0, p_leverage = 5,
     p_marginType = ISOLATED, p_liqDistancePct = None, p_serverSl = Level 90,
     p_serverTp = Label ''trail'', p_initialRisk = Some 10, p_decisionId = None \<rparr>"

definition demo_candle :: "jsnum \<Rightarrow> candle" where
  "demo_candle x = \<lparr> c_openTime = 0, c_open = x, c_high = x + 1, c_low = x - 1, c_close = x, c_volume = 1 \<rparr>"

definition demo_policy :: trailing_policy where
  "demo_policy = \<lparr> tp_id = ''atr'', tp_version = ''1'', tp_method = ATR_TRAIL, tp_layer = L_PRICE,
     tp_priority = P0, tp_domain = D_CONTRACT,
     tp_params = [(''period'', PNum 1), (''k'', PNum 2), (''tf'', PStr ''15m'')],
     tp_activation = \<lparr> act_type = IMMEDIATE, act_threshold = 0 \<rparr>,
     tp_priceReference = CONTRACT_PRICE, tp_enabled = True \<rparr>"

definition demo_ctx :: "jsnum \<Rightarrow> policy_context" where
  "demo_ctx price = \<lparr> cx_entry = 100, cx_initialRisk = Some 10, cx_side = LONG, cx_tf = ''15m'',
     cx_price = price, cx_candles = [demo_candle 105], cx_tickSize = None \<rparr>"

definition demo_state :: trailing_state where
  "demo_state = the (initState demo_position 0)"

lemmas demo_simps = demo_position_def demo_candle_def demo_policy_def demo_ctx_def demo_state_def
  initState_def dir_sign_def Let_def

lemma demo_state_simps [simp]:
  "ts_stopZ demo_state = Fin 90" "ts_extremeX demo_state = Fin 100"
  by (auto simp: demo_simps)

lemma demo_atr: "atrTrail demo_policy (demo_ctx 110) (advanceState demo_state (demo_ctx 110) 110 1)
    = Some \<lparr> sc_policyId = ''atr'', sc_levelZ = Fin 106, sc_priceReference = CONTRACT_PRICE,
             sc_reason = AtrTrailReason 1 2, sc_exit = False \<rparr>"
  by (simp add: atrTrail_def extremeAtrStop_def num_param_def str_param_def atrOf_def wilderAtr_def
      true_range_def num_of_nat_def last_opt_def ctx_sign_def demo_simps advanceState_def)

lemma demo_evaluate_move:
  "\<exists>st d. evaluate demo_state (demo_ctx 110) [demo_policy] 1 = Inr (st, d) \<and> td_action d = MOVE_STOP
     \<and> ts_stopZ st = Fin 106"
proof -
  have "ctx_sign (demo_ctx 110) = 1" "cx_price (demo_ctx 110) = Fin 110"
    by (auto simp: ctx_sign_def demo_ctx_def)
  moreover have "tp_enabled demo_policy" "tp_method demo_policy = ATR_TRAIL"
      "activated demo_policy c s" for c s
    by (auto simp: demo_policy_def activated_def)
  ultimately show ?thesis
    using demo_atr
    by (auto simp: evaluate_def Let_def collectRun_def evaluatorFor_def tightest_def moveDecision_def)
qed

theorem evaluate_move_stop_witness:
  "\<exists>st::trailing_state. ts_stopZ demo_state < ts_stopZ st \<and> ts_stopZ st < ctx_sign (demo_ctx 110) * cx_price (demo_ctx 110)"
proof -
  obtain st d where "evaluate demo_state (demo_ctx 110) [demo_policy] 1 = Inr (st, d)"
    "td_action d = MOVE_STOP" using demo_evaluate_move by blast
  from evaluate_move_stop [OF this] show ?thesis by blast
qed

theorem evaluate_exit_causes_witness:
  "\<exists>st d. evaluate demo_state (demo_ctx 80) [demo_policy] 1 = Inr (st, d) \<and> td_action d = EXIT
     \<and> (ctx_sign (demo_ctx 80) * cx_price (demo_ctx 80) \<le> ts_stopZ demo_state
        \<or> (\<exists>p\<in>set [demo_policy]. tp_method p = BOS_CHOCH))"
proof -
  have "ctx_sign (demo_ctx 80) = 1" "cx_price (demo_ctx 80) = Fin 80"
    by (auto simp: ctx_sign_def demo_ctx_def)
  then obtain st d where e: "evaluate demo_state (demo_ctx 80) [demo_policy] 1 = Inr (st, d)"
    and x: "td_action d = EXIT"
    by (auto simp: evaluate_def Let_def breachExit_def)
  from evaluate_exit_causes [OF e] x show ?thesis using e by blast
qed

theorem evaluate_breach_always_exits_witness:
  "\<exists>st d. evaluate demo_state (demo_ctx 80) [demo_policy] 1 = Inr (st, d) \<and> td_action d = EXIT"
proof -
  have "is_finite (cx_price (demo_ctx 80))" "cx_price (demo_ctx 80) > 0"
    "ctx_sign (demo_ctx 80) * cx_price (demo_ctx 80) \<le> ts_stopZ demo_state"
    by (auto simp: ctx_sign_def demo_ctx_def)
  from evaluate_breach_always_exits [OF this] show ?thesis by blast
qed

theorem recover_discards_unacked_stop_witness:
  "ts_stopZ (recover (run_steps (eval_step [demo_policy]) (confirmStop demo_state ''atr'' 0) [(demo_ctx 110, 1)])
      \<lparr> vs_price = 108, vs_positionOpen = True, vs_stopWorking = True \<rparr> 2) = Fin 90"
  using recover_discards_unacked_stop
    [of "\<lparr> vs_price = 108, vs_positionOpen = True, vs_stopWorking = True \<rparr>"
        "[demo_policy]" demo_state "''atr''" 0 "[(demo_ctx 110, 1)]" 2]
  by (simp add: Let_def)

end
