(* ===== verification/TrailingRegistry.thy ===== *)
theory TrailingRegistry
  imports TrailingEngine
begin

text \<open>
  The closed-world policy registry of \<open>src/trailing/registry.ts\<close>. Dictionaries are association
  lists in key order; error strings are data.
\<close>

record method_spec =
  ms_layer :: method_layer
  ms_domain :: policy_domain
  ms_priority :: method_priority
  ms_priceReference :: price_reference
  ms_defaults :: "(string \<times> param_value) list"
  ms_allowed :: "(string \<times> param_value list) list"

definition TF_GRID :: "param_value list" where
  "TF_GRID = [PStr ''5m'', PStr ''15m'', PStr ''1h'']"

definition METHOD_SPECS :: "method_id \<Rightarrow> method_spec option" where
  "METHOD_SPECS m =
     (case m of
        ATR_TRAIL \<Rightarrow> Some \<lparr> ms_layer = L_PRICE, ms_domain = D_CONTRACT, ms_priority = P0,
          ms_priceReference = CONTRACT_PRICE,
          ms_defaults = [(''period'', PNum 14), (''k'', PNum 2), (''tf'', PStr ''15m'')],
          ms_allowed = [(''period'', [PNum 7, PNum 14, PNum 21]),
                        (''k'', [PNum (3/2), PNum 2, PNum (5/2), PNum 3]), (''tf'', TF_GRID)] \<rparr>
      | CHANDELIER \<Rightarrow> Some \<lparr> ms_layer = L_PRICE, ms_domain = D_CONTRACT, ms_priority = P0,
          ms_priceReference = CONTRACT_PRICE,
          ms_defaults = [(''n'', PNum 22), (''k'', PNum 3), (''tf'', PStr ''15m'')],
          ms_allowed = [(''n'', [PNum 14, PNum 22, PNum 55]),
                        (''k'', [PNum 2, PNum (5/2), PNum 3, PNum (7/2)]), (''tf'', TF_GRID)] \<rparr>
      | SWING \<Rightarrow> Some \<lparr> ms_layer = L_PRICE, ms_domain = D_CONTRACT, ms_priority = P0,
          ms_priceReference = CONTRACT_PRICE,
          ms_defaults = [(''nLeft'', PNum 3), (''nRight'', PNum 2), (''bufferAtr'', PNum (1/10)),
                         (''bufferTicks'', PNum 2), (''tf'', PStr ''15m'')],
          ms_allowed = [(''nLeft'', [PNum 3]), (''nRight'', [PNum 2]),
                        (''bufferAtr'', [PNum (1/10), PNum (2/10), PNum (3/10)]),
                        (''bufferTicks'', [PNum 0, PNum 1, PNum 2]), (''tf'', TF_GRID)] \<rparr>
      | BOS_CHOCH \<Rightarrow> Some \<lparr> ms_layer = L_PRICE, ms_domain = D_CONTRACT, ms_priority = P0,
          ms_priceReference = CONTRACT_PRICE,
          ms_defaults = [(''nLeft'', PNum 3), (''nRight'', PNum 2), (''bufferAtr'', PNum (2/10)),
                         (''tf'', PStr ''15m'')],
          ms_allowed = [(''nLeft'', [PNum 3, PNum 5]), (''nRight'', [PNum 2, PNum 3]),
                        (''bufferAtr'', [PNum (1/10), PNum (2/10), PNum (3/10)]), (''tf'', TF_GRID)] \<rparr>
      | _ \<Rightarrow> None)"

definition PHASE1_METHODS :: "method_id list" where
  "PHASE1_METHODS = [ATR_TRAIL, CHANDELIER, SWING, BOS_CHOCH]"

datatype registry_error =
    UnknownMethod method_id | UnknownParam string | OutsideGrid string param_value
  | MissingParam string | IdRequired | FieldDisagreement | ThresholdNotFinite

definition has_key :: "'k \<Rightarrow> ('k \<times> 'v) list \<Rightarrow> bool" where
  "has_key k d \<longleftrightarrow> k \<in> set (map fst d)"

definition param_errors :: "method_spec \<Rightarrow> (string \<times> param_value) list \<Rightarrow> registry_error list" where
  "param_errors spec params =
     concat (map (\<lambda>(k, v).
        if \<not> has_key k (ms_defaults spec) then [UnknownParam k]
        else (case map_of (ms_allowed spec) k of
                None \<Rightarrow> []
              | Some grid \<Rightarrow> if v \<in> set grid then [] else [OutsideGrid k v])) params)
     @ map MissingParam (filter (\<lambda>k. \<not> has_key k params) (map fst (ms_defaults spec)))"

definition validateParams :: "method_id \<Rightarrow> (string \<times> param_value) list \<Rightarrow> registry_error list" where
  "validateParams m params =
     (case METHOD_SPECS m of None \<Rightarrow> [UnknownMethod m] | Some spec \<Rightarrow> param_errors spec params)"

text \<open>\<open>{ ...defaults, ...params }\<close>: default keys first, overridden in place, then the new keys.\<close>

definition merge_params ::
  "(string \<times> param_value) list \<Rightarrow> (string \<times> param_value) list \<Rightarrow> (string \<times> param_value) list" where
  "merge_params defaults params =
     map (\<lambda>(k, v). (k, case map_of params k of Some w \<Rightarrow> w | None \<Rightarrow> v)) defaults
     @ filter (\<lambda>(k, v). \<not> has_key k defaults) params"

record build_options =
  bo_version :: "string option"
  bo_enabled :: "bool option"
  bo_activation :: "policy_activation option"

definition buildPolicy ::
  "string \<Rightarrow> method_id \<Rightarrow> (string \<times> param_value) list \<Rightarrow> build_options \<Rightarrow>
   registry_error list + trailing_policy" where
  "buildPolicy i m params opts =
     (case METHOD_SPECS m of
        None \<Rightarrow> Inl [UnknownMethod m]
      | Some spec \<Rightarrow>
          (let merged = merge_params (ms_defaults spec) params;
               errors = validateParams m merged
           in if errors \<noteq> [] then Inl errors
              else Inr \<lparr> tp_id = i,
                     tp_version = (case bo_version opts of Some v \<Rightarrow> v | None \<Rightarrow> ''1''),
                     tp_method = m, tp_layer = ms_layer spec, tp_priority = ms_priority spec,
                     tp_domain = ms_domain spec, tp_params = merged,
                     tp_activation = (case bo_activation opts of Some a \<Rightarrow> a
                                      | None \<Rightarrow> \<lparr> act_type = IMMEDIATE, act_threshold = 0 \<rparr>),
                     tp_priceReference = ms_priceReference spec,
                     tp_enabled = (case bo_enabled opts of Some b \<Rightarrow> b | None \<Rightarrow> True) \<rparr>))"

text \<open>The \<open>typeof\<close> tests of the code are what the types of the model state.\<close>

definition validatePolicy :: "trailing_policy \<Rightarrow> registry_error list" where
  "validatePolicy p =
     (case METHOD_SPECS (tp_method p) of
        None \<Rightarrow> [UnknownMethod (tp_method p)]
      | Some spec \<Rightarrow>
          (let errors = (if tp_id p = '''' then [IdRequired] else [])
           in if tp_layer p \<noteq> ms_layer spec \<or> tp_domain p \<noteq> ms_domain spec
               \<or> tp_priority p \<noteq> ms_priority spec \<or> tp_priceReference p \<noteq> ms_priceReference spec
              then errors @ [FieldDisagreement]
              else errors @ validateParams (tp_method p) (tp_params p)
                 @ (if is_finite (act_threshold (tp_activation p)) then [] else [ThresholdNotFinite])))"

section \<open>Lemmas\<close>

lemma METHOD_SPECS_phase1: "METHOD_SPECS m \<noteq> None \<longleftrightarrow> m \<in> set PHASE1_METHODS"
  by (cases m) (auto simp: METHOD_SPECS_def PHASE1_METHODS_def)

lemma evaluator_phase1: "(\<exists>ev. evaluatorFor m = Inr ev) \<longleftrightarrow> m \<in> set PHASE1_METHODS"
  by (cases m) (auto simp: evaluatorFor_def PHASE1_METHODS_def)

lemma collect_cands_total:
  "\<forall>p\<in>set ps. tp_method p \<in> set PHASE1_METHODS \<Longrightarrow> \<exists>cs. collect_cands st ctx ps = Inr cs"
proof (induction ps)
  case Nil
  then show ?case by simp
next
  case (Cons p ps)
  then obtain cs ev where "collect_cands st ctx ps = Inr cs" "evaluatorFor (tp_method p) = Inr ev"
    using evaluator_phase1 [of "tp_method p"] by auto
  then show ?case by simp
qed

lemma evaluate_total:
  assumes "\<forall>p\<in>set policies. tp_enabled p \<longrightarrow> tp_method p \<in> set PHASE1_METHODS"
  shows "\<exists>r. evaluate prev ctx policies now = Inr r"
proof -
  have "\<exists>cs. collect_cands st c (filter (\<lambda>p. tp_enabled p \<and> activated p c st) policies) = Inr cs" for st c
    using assms by (intro collect_cands_total) auto
  then have run: "\<exists>run. collectRun st c policies x = Inr run" for st c x
    by (auto simp: collectRun_def Let_def split: sum.splits)
      (metis sum.distinct(1))
  show ?thesis
    using run by (auto simp: evaluate_def Let_def split: sum.splits option.splits)
      (metis sum.distinct(1))
qed

lemma buildPolicy_Inr:
  assumes "buildPolicy i m params opts = Inr p"
  obtains spec where "METHOD_SPECS m = Some spec" "tp_method p = m" "tp_id p = i"
    "tp_layer p = ms_layer spec" "tp_domain p = ms_domain spec" "tp_priority p = ms_priority spec"
    "tp_priceReference p = ms_priceReference spec" "validateParams m (tp_params p) = []"
    "tp_params p = merge_params (ms_defaults spec) params"
    "tp_activation p = (case bo_activation opts of Some a \<Rightarrow> a | None \<Rightarrow> \<lparr> act_type = IMMEDIATE, act_threshold = 0 \<rparr>)"
  using assms by (auto simp: buildPolicy_def Let_def split: option.splits if_splits)

text \<open>Every spec's defaults lie on its own grid, and only its default keys have a grid.\<close>

lemma spec_grid:
  assumes "METHOD_SPECS m = Some spec"
  shows "\<forall>(k, v)\<in>set (ms_defaults spec). \<exists>grid. map_of (ms_allowed spec) k = Some grid \<and> v \<in> set grid"
    and "map_of (ms_allowed spec) k = Some grid \<Longrightarrow> has_key k (ms_defaults spec)"
  using assms
  by (cases m; auto simp: METHOD_SPECS_def TF_GRID_def has_key_def split: if_splits)+

definition on_grid :: "method_spec \<Rightarrow> string \<times> param_value \<Rightarrow> bool" where
  "on_grid spec kv \<longleftrightarrow>
     (case map_of (ms_allowed spec) (fst kv) of None \<Rightarrow> False | Some grid \<Rightarrow> snd kv \<in> set grid)"

lemma map_fst_override:
  "map fst (map (\<lambda>(k, v). (k, case map_of params k of Some w \<Rightarrow> w | None \<Rightarrow> v)) defaults) = map fst defaults"
  by (induction defaults) auto

lemma has_key_merge: "has_key k defaults \<Longrightarrow> has_key k (merge_params defaults params)"
  unfolding has_key_def merge_params_def map_append map_fst_override by simp

lemma merge_subset: "set (merge_params defaults params) \<subseteq> set defaults \<union> set params"
  by (auto simp: merge_params_def split: option.splits dest: map_of_SomeD)

lemma param_errors_merge:
  assumes "METHOD_SPECS m = Some spec"
  shows "param_errors spec (merge_params (ms_defaults spec) params) = [] \<longleftrightarrow>
    (\<forall>kv\<in>set (merge_params (ms_defaults spec) params). on_grid spec kv)"
proof -
  have grid: "map_of (ms_allowed spec) k \<noteq> None \<longleftrightarrow> has_key k (ms_defaults spec)" for k
    using spec_grid [OF assms] by (auto simp: has_key_def)
  have "has_key k (merge_params (ms_defaults spec) params)" if "has_key k (ms_defaults spec)" for k
    using that by (rule has_key_merge)
  then have miss: "filter (\<lambda>k. \<not> has_key k (merge_params (ms_defaults spec) params))
      (map fst (ms_defaults spec)) = []"
    by (auto simp: filter_empty_conv has_key_def)
  show ?thesis
    unfolding param_errors_def miss
    using grid by (auto simp: on_grid_def split: option.splits if_splits)
qed

lemma merge_on_grid:
  assumes "METHOD_SPECS m = Some spec" and "distinct (map fst params)"
  shows "(\<forall>kv\<in>set (merge_params (ms_defaults spec) params). on_grid spec kv)
     \<longleftrightarrow> (\<forall>kv\<in>set params. on_grid spec kv)"
proof
  assume merged: "\<forall>kv\<in>set (merge_params (ms_defaults spec) params). on_grid spec kv"
  show "\<forall>kv\<in>set params. on_grid spec kv"
  proof
    fix kv assume kv: "kv \<in> set params"
    show "on_grid spec kv"
    proof (cases "has_key (fst kv) (ms_defaults spec)")
      case True
      moreover have "map_of params (fst kv) = Some (snd kv)"
        using kv assms(2) by (simp add: map_of_eq_Some_iff)
      ultimately have "kv \<in> set (merge_params (ms_defaults spec) params)"
        by (force simp: merge_params_def has_key_def)
      with merged show ?thesis by blast
    next
      case False
      with kv have "kv \<in> set (merge_params (ms_defaults spec) params)"
        by (auto simp: merge_params_def)
      with merged show ?thesis by blast
    qed
  qed
next
  assume given: "\<forall>kv\<in>set params. on_grid spec kv"
  have "on_grid spec kv" if "kv \<in> set (ms_defaults spec)" for kv
    using spec_grid(1) [OF assms(1)] that by (auto simp: on_grid_def)
  with given show "\<forall>kv\<in>set (merge_params (ms_defaults spec) params). on_grid spec kv"
    using merge_subset [of "ms_defaults spec" params] by blast
qed

section \<open>Properties\<close>

text \<open>
  A policy the registry builds validates whenever its id is not empty and its activation
  threshold is finite, which are the two fields the builder does not check, and the engine
  implements its method, so a pass over built policies never throws.
\<close>

theorem built_policy_valid_and_evaluable:
  assumes "buildPolicy i m params opts = Inr p"
  shows "(validatePolicy p = [] \<longleftrightarrow>
            i \<noteq> '''' \<and> (case bo_activation opts of Some a \<Rightarrow> is_finite (act_threshold a) | None \<Rightarrow> True))
    \<and> (\<exists>r. evaluate st ctx [p] now = Inr r)"
proof -
  from assms obtain spec where "METHOD_SPECS m = Some spec" "tp_method p = m" "tp_id p = i"
    "tp_layer p = ms_layer spec" "tp_domain p = ms_domain spec" "tp_priority p = ms_priority spec"
    "tp_priceReference p = ms_priceReference spec" "validateParams m (tp_params p) = []"
    "tp_activation p = (case bo_activation opts of Some a \<Rightarrow> a | None \<Rightarrow> \<lparr> act_type = IMMEDIATE, act_threshold = 0 \<rparr>)"
    by (rule buildPolicy_Inr)
  then show ?thesis
    using METHOD_SPECS_phase1 [of m] evaluate_total [of "[p]" st ctx now]
    by (auto simp: validatePolicy_def Let_def split: option.splits)
qed

definition no_options :: build_options where
  "no_options = \<lparr> bo_version = None, bo_enabled = None, bo_activation = None \<rparr>"

theorem built_policy_valid_and_evaluable_witness:
  "\<exists>p. buildPolicy ''a'' BOS_CHOCH [(''nLeft'', PNum 5)] no_options = Inr p \<and> validatePolicy p = []"
proof -
  have "\<exists>p. buildPolicy ''a'' BOS_CHOCH [(''nLeft'', PNum 5)] no_options = Inr p"
    by (simp add: buildPolicy_def METHOD_SPECS_def validateParams_def param_errors_def has_key_def
        merge_params_def TF_GRID_def no_options_def Let_def)
  then show ?thesis
    using built_policy_valid_and_evaluable [of "''a''" BOS_CHOCH "[(''nLeft'', PNum 5)]" no_options]
    by (auto simp: no_options_def)
qed

text \<open>
  The registry is a closed world: a policy builds exactly when its method is one of the phase 1
  methods and every parameter given is a known key with a value of its research grid.
\<close>

theorem buildPolicy_closed_world:
  assumes "distinct (map fst params)"
  shows "(\<exists>p. buildPolicy i m params opts = Inr p) \<longleftrightarrow>
     (\<exists>spec. METHOD_SPECS m = Some spec \<and> m \<in> set PHASE1_METHODS \<and> (\<forall>kv\<in>set params. on_grid spec kv))"
proof (cases "METHOD_SPECS m")
  case None
  then show ?thesis by (simp add: buildPolicy_def)
next
  case (Some spec)
  then have "(\<exists>p. buildPolicy i m params opts = Inr p) \<longleftrightarrow> (\<forall>kv\<in>set params. on_grid spec kv)"
    using param_errors_merge [OF Some, of params] merge_on_grid [OF Some assms]
    by (auto simp: buildPolicy_def validateParams_def Let_def)
  with Some METHOD_SPECS_phase1 [of m] show ?thesis by simp
qed

theorem buildPolicy_closed_world_witness:
  "\<not> (\<exists>p. buildPolicy ''a'' ATR_TRAIL [(''period'', PNum 15)] no_options = Inr p)"
  using buildPolicy_closed_world [of "[(''period'', PNum 15)]" "''a''" ATR_TRAIL no_options]
  by (auto simp: METHOD_SPECS_def on_grid_def)

end
