(* ===== verification/TrailingStore.thy ===== *)
theory TrailingStore
  imports TrailingEngine "HOL-Library.AList"
begin

text \<open>
  The persisted trailing books of \<open>src/trailing/store.ts\<close>. A book is the association list of one
  account mode, in insertion order. \<open>tst_file\<close> is the in-memory file object, \<open>tst_disk\<close> what the
  last successful rename left on disk. The clock and the outcome of the write are inputs. JSON
  prints a non-finite number as \<open>null\<close>, which the check on load refuses in the fields it tests;
  the other number fields are taken to be finite.
\<close>

type_synonym book_key = "string \<times> agent_id"
type_synonym trailing_file = "trade_mode \<Rightarrow> (book_key \<times> trailing_state) list option"

record trailing_store =
  tst_mode :: trade_mode
  tst_file :: trailing_file
  tst_dirty :: bool
  tst_lastExtremeFlush :: jsnum
  tst_disk :: trailing_file

definition EXTREME_FLUSH_MS :: jsnum where
  "EXTREME_FLUSH_MS = 5000"

definition isStateMap :: "(book_key \<times> trailing_state) list \<Rightarrow> bool" where
  "isStateMap book =
     list_all (\<lambda>(k, st). is_finite (ts_entry st) \<and> is_finite (ts_stopZ st)
        \<and> is_finite (ts_confirmedStop st) \<and> is_finite (ts_initialQty st)
        \<and> is_finite (ts_extremeX st)) book"

text \<open>A missing or corrupt file (\<open>None\<close>) is an empty book; a mode whose map fails the check is dropped.\<close>

definition load_file :: "trailing_file option \<Rightarrow> trailing_file" where
  "load_file content =
     (case content of
        None \<Rightarrow> (\<lambda>m. None)
      | Some f \<Rightarrow> (\<lambda>m. case f m of None \<Rightarrow> None | Some book \<Rightarrow> if isStateMap book then Some book else None))"

definition opt_js_eq :: "jsnum option \<Rightarrow> jsnum option \<Rightarrow> bool" where
  "opt_js_eq a b = (case (a, b) of (None, None) \<Rightarrow> True | (Some x, Some y) \<Rightarrow> js_eq x y | _ \<Rightarrow> False)"

definition acknowledgedChanged :: "trailing_state \<Rightarrow> trailing_state \<Rightarrow> bool" where
  "acknowledgedChanged prev nxt =
     (let a = ts_lastAccepted prev; b = ts_lastAccepted nxt
      in \<not> opt_js_eq (map_option ad_ts a) (map_option ad_ts b)
       \<or> \<not> opt_js_eq (map_option ad_stopZ a) (map_option ad_stopZ b)
       \<or> map_option ad_policyId a \<noteq> map_option ad_policyId b)"

definition materialChanged :: "trailing_state \<Rightarrow> trailing_state \<Rightarrow> bool" where
  "materialChanged prev st \<longleftrightarrow>
     \<not> js_eq (ts_stopZ prev) (ts_stopZ st) \<or> \<not> js_eq (ts_confirmedStop prev) (ts_confirmedStop st)
   \<or> ts_phase prev \<noteq> ts_phase st \<or> ts_policyId prev \<noteq> ts_policyId st
   \<or> \<not> js_eq (ts_reducedQty prev) (ts_reducedQty st) \<or> \<not> js_eq (ts_entry prev) (ts_entry st)
   \<or> \<not> opt_js_eq (ts_liquidationPrice prev) (ts_liquidationPrice st)
   \<or> \<not> js_eq (ts_fundingAccrued prev) (ts_fundingAccrued st)
   \<or> \<not> js_eq (ts_feesAccrued prev) (ts_feesAccrued st)"

definition tst_book :: "trailing_file \<Rightarrow> trade_mode \<Rightarrow> (book_key \<times> trailing_state) list" where
  "tst_book f m = (case f m of None \<Rightarrow> [] | Some b \<Rightarrow> b)"

definition tst_get :: "trailing_store \<Rightarrow> book_key \<Rightarrow> trailing_state option" where
  "tst_get st k = map_of (tst_book (tst_file st) (tst_mode st)) k"

definition tst_keys :: "trailing_store \<Rightarrow> book_key list" where
  "tst_keys st = map fst (tst_book (tst_file st) (tst_mode st))"

text \<open>A failed write throws after the flag and the clock were reset; the file on disk is kept.\<close>

definition tst_flush :: "bool \<Rightarrow> jsnum \<Rightarrow> trailing_store \<Rightarrow> trailing_store" where
  "tst_flush ok now st =
     st\<lparr> tst_dirty := False, tst_lastExtremeFlush := now,
         tst_disk := (if ok then tst_file st else tst_disk st) \<rparr>"

definition tst_set :: "bool \<Rightarrow> jsnum \<Rightarrow> trailing_state \<Rightarrow> trailing_store \<Rightarrow> trailing_store" where
  "tst_set ok now state st =
     (let prev = tst_get st (ts_key state);
          st' = st\<lparr> tst_file := (tst_file st)(tst_mode st :=
                     Some (AList.update (ts_key state) state (tst_book (tst_file st) (tst_mode st)))) \<rparr>
      in case prev of
           None \<Rightarrow> tst_flush ok now st'
         | Some p \<Rightarrow>
             if materialChanged p state \<or> acknowledgedChanged p state then tst_flush ok now st'
             else if \<not> js_eq (ts_extremeX p) (ts_extremeX state) then st'\<lparr> tst_dirty := True \<rparr>
             else st')"

definition tst_delete :: "bool \<Rightarrow> jsnum \<Rightarrow> book_key \<Rightarrow> trailing_store \<Rightarrow> trailing_store" where
  "tst_delete ok now k st =
     (case tst_file st (tst_mode st) of
        None \<Rightarrow> st
      | Some book \<Rightarrow>
          if map_of book k = None then st
          else tst_flush ok now (st\<lparr> tst_file := (tst_file st)(tst_mode st := Some (AList.delete k book)) \<rparr>))"

definition tst_tick :: "bool \<Rightarrow> jsnum \<Rightarrow> trailing_store \<Rightarrow> trailing_store" where
  "tst_tick ok now st =
     (if \<not> tst_dirty st \<or> now - tst_lastExtremeFlush st < EXTREME_FLUSH_MS then st
      else tst_flush ok now st)"

definition tst_open :: "trade_mode \<Rightarrow> trailing_file option \<Rightarrow> trailing_store" where
  "tst_open mode content =
     \<lparr> tst_mode = mode, tst_file = load_file content, tst_dirty = False, tst_lastExtremeFlush = 0,
       tst_disk = (case content of None \<Rightarrow> (\<lambda>m. None) | Some f \<Rightarrow> f) \<rparr>"

section \<open>The store as a write-through cache\<close>

datatype tst_op = TSet trailing_state | TDelete book_key | TTick | TFlush

fun tst_apply :: "trailing_store \<Rightarrow> tst_op \<times> bool \<times> jsnum \<Rightarrow> trailing_store" where
  "tst_apply st (TSet s, ok, now) = tst_set ok now s st"
| "tst_apply st (TDelete k, ok, now) = tst_delete ok now k st"
| "tst_apply st (TTick, ok, now) = tst_tick ok now st"
| "tst_apply st (TFlush, ok, now) = tst_flush ok now st"

definition tst_on_disk :: "trailing_store \<Rightarrow> book_key \<Rightarrow> trailing_state option" where
  "tst_on_disk st k = map_of (tst_book (tst_disk st) (tst_mode st)) k"

text \<open>Two states that agree on everything a restart must not lose.\<close>

definition same_intent :: "trailing_state \<Rightarrow> trailing_state \<Rightarrow> bool" where
  "same_intent a b \<longleftrightarrow>
     ts_stopZ a = ts_stopZ b \<and> ts_confirmedStop a = ts_confirmedStop b \<and> ts_phase a = ts_phase b
   \<and> ts_policyId a = ts_policyId b \<and> ts_reducedQty a = ts_reducedQty b \<and> ts_entry a = ts_entry b
   \<and> ts_liquidationPrice a = ts_liquidationPrice b \<and> ts_fundingAccrued a = ts_fundingAccrued b
   \<and> ts_feesAccrued a = ts_feesAccrued b
   \<and> map_option ad_stopZ (ts_lastAccepted a) = map_option ad_stopZ (ts_lastAccepted b)
   \<and> map_option ad_policyId (ts_lastAccepted a) = map_option ad_policyId (ts_lastAccepted b)"

lemma opt_js_eq_imp: "opt_js_eq a b \<Longrightarrow> a = b"
  by (auto simp: opt_js_eq_def js_eq_def split: option.splits)

lemma not_material_same_intent:
  "\<not> materialChanged a b \<Longrightarrow> \<not> acknowledgedChanged a b \<Longrightarrow> same_intent a b"
  by (auto simp: materialChanged_def acknowledgedChanged_def same_intent_def Let_def
      dest: js_eq_imp_eq opt_js_eq_imp)

lemma tst_flush_simps [simp]:
  "tst_mode (tst_flush ok now st) = tst_mode st" "tst_file (tst_flush ok now st) = tst_file st"
  "tst_disk (tst_flush True now st) = tst_file st"
  by (auto simp: tst_flush_def)

lemma tst_flush_in_step: "tst_on_disk (tst_flush True now st) = tst_get (tst_flush True now st)"
  by (auto simp: tst_on_disk_def tst_get_def)

lemma tst_set_get:
  "tst_get (tst_set ok now s st) = (tst_get st)(ts_key s \<mapsto> s)"
  by (auto simp: tst_set_def Let_def tst_get_def tst_book_def update_conv' split: option.splits)

lemma tst_set_flushes_or_agrees:
  "tst_on_disk (tst_set True now s st) = tst_get (tst_set True now s st)
   \<or> tst_on_disk (tst_set True now s st) = tst_on_disk st
     \<and> (\<forall>k. rel_option same_intent (tst_get st k) (tst_get (tst_set True now s st) k))"
proof (cases "tst_get st (ts_key s)")
  case None
  then show ?thesis by (auto simp: tst_set_def Let_def tst_flush_in_step)
next
  case (Some p)
  show ?thesis
  proof (cases "materialChanged p s \<or> acknowledgedChanged p s")
    case True
    with Some show ?thesis by (auto simp: tst_set_def Let_def tst_flush_in_step)
  next
    case False
    then have "same_intent p s" by (auto intro: not_material_same_intent)
    moreover have "tst_on_disk (tst_set True now s st) = tst_on_disk st"
      using Some False by (auto simp: tst_set_def Let_def tst_on_disk_def)
    moreover have "same_intent x x" for x by (simp add: same_intent_def)
    then have "rel_option same_intent y y" for y by (cases y) auto
    ultimately show ?thesis using Some by (auto simp: tst_set_get)
  qed
qed

interpretation tstore: durable_store tst_apply tst_get tst_on_disk same_intent "\<lambda>(op, ok, now). ok"
proof
  fix op :: "tst_op \<times> bool \<times> jsnum" and st :: trailing_store
  assume good: "case op of (op, ok, now) \<Rightarrow> ok"
  have refl: "rel_option same_intent y y" for y by (cases y) (auto simp: same_intent_def)
  obtain o1 now where op: "op = (o1, True, now)" using good by (cases op) auto
  show "tst_on_disk (tst_apply st op) = tst_get (tst_apply st op)
      \<or> tst_on_disk (tst_apply st op) = tst_on_disk st
        \<and> (\<forall>k. rel_option same_intent (tst_get st k) (tst_get (tst_apply st op) k))"
  proof (cases o1)
    case (TSet s)
    with op tst_set_flushes_or_agrees show ?thesis by simp
  qed (use op in \<open>auto simp: tst_delete_def tst_tick_def tst_flush_in_step refl split: option.splits\<close>)
qed (auto simp: same_intent_def)

lemma load_file_valid: "isStateMap (tst_book f m) \<Longrightarrow> tst_book (load_file (Some f)) m = tst_book f m"
  by (auto simp: load_file_def tst_book_def split: option.splits)

section \<open>Properties\<close>

text \<open>
  A crash loses no exit intent: after any sequence of successful operations from a freshly
  opened store, what a restart loads for a key agrees with what the process held on the stop, the
  confirmed stop, the phase, the policy, the quantities and the accepted decision.
\<close>

theorem trailing_restart_keeps_intent:
  assumes "list_all (\<lambda>(op, ok, now). ok) ops"
    and "st = run_steps tst_apply (tst_open mode None) ops"
    and "isStateMap (tst_book (tst_disk st) mode)"
  shows "rel_option same_intent (tst_get (tst_open mode (Some (tst_disk st))) k) (tst_get st k)"
proof -
  have mode: "tst_mode (run_steps tst_apply s ops) = tst_mode s" for s and ops :: "(tst_op \<times> bool \<times> jsnum) list"
  proof (induction ops arbitrary: s)
    case (Cons op ops)
    have "tst_mode (tst_apply s op) = tst_mode s"
      by (cases "(s, op)" rule: tst_apply.cases)
        (auto simp: tst_set_def tst_delete_def tst_tick_def Let_def split: option.splits)
    with Cons show ?case by simp
  qed simp
  have "tstore.in_step (tst_open mode None)"
    by (auto simp: tstore.in_step_def tst_on_disk_def tst_get_def tst_open_def load_file_def tst_book_def)
  from tstore.crash_agrees [OF assms(1) this, of k]
  have "rel_option same_intent (tst_on_disk st k) (tst_get st k)" using assms(2) by simp
  moreover have "tst_mode st = mode" using assms(2) mode by (simp add: tst_open_def)
  moreover have "tst_get (tst_open mode (Some (tst_disk st))) k = map_of (tst_book (tst_disk st) mode) k"
    using load_file_valid [OF assms(3)] by (simp add: tst_get_def tst_open_def)
  ultimately show ?thesis by (simp add: tst_on_disk_def)
qed


definition demo_ops :: "(tst_op \<times> bool \<times> jsnum) list" where
  "demo_ops = [(TSet demo_state, True, 1), (TSet (demo_state\<lparr> ts_extremeX := 105 \<rparr>), True, 2)]"

theorem trailing_restart_keeps_intent_witness:
  "let st = run_steps tst_apply (tst_open Paper None) demo_ops
   in tst_dirty st \<and> rel_option same_intent
        (tst_get (tst_open Paper (Some (tst_disk st))) (ts_key demo_state)) (tst_get st (ts_key demo_state))"
proof -
  let ?st = "run_steps tst_apply (tst_open Paper None) demo_ops"
  have st: "tst_dirty ?st" "isStateMap (tst_book (tst_disk ?st) Paper)"
    by (simp_all add: demo_ops_def tst_open_def load_file_def tst_set_def tst_get_def tst_book_def
        tst_flush_def materialChanged_def acknowledgedChanged_def opt_js_eq_def isStateMap_def
        demo_simps js_eq_def)
  have "list_all (\<lambda>(op, ok, now). ok) demo_ops" by (simp add: demo_ops_def)
  from trailing_restart_keeps_intent [OF this refl st(2)] st(1) show ?thesis by (simp only: Let_def simp_thms)
qed

end
