(* ===== verification/DecimalOps.thy ===== *)
theory DecimalOps
  imports JsNum
begin

text \<open>
  The arithmetic of \<open>decimal.js\<close>, a package that is not part of the repository: the code that
  uses it (\<open>src/risk/primitives.ts\<close>, the sizer, the position manager) takes its operations as a
  parameter \<open>D\<close>. A \<open>Decimal\<close> is a numeric value, so it is represented by a number, and
  \<open>new Decimal(x)\<close>, \<open>toNumber\<close> and the comparisons (all false on \<open>NaN\<close>) are those of
  \<open>jsnum\<close>. What the code relies on is \<open>decimal_laws\<close>: an operation whose exact result has at
  most 40 significant digits (\<open>precision: 40\<close>) returns it, and rounding to zero places is
  rounding to a whole number; and \<open>decimal_rounds\<close>: any other result is rounded at the fortieth digit.
\<close>

record dec_ops =
  d_plus :: "jsnum \<Rightarrow> jsnum \<Rightarrow> jsnum"
  d_minus :: "jsnum \<Rightarrow> jsnum \<Rightarrow> jsnum"
  d_times :: "jsnum \<Rightarrow> jsnum \<Rightarrow> jsnum"
  d_div :: "jsnum \<Rightarrow> jsnum \<Rightarrow> jsnum"
  d_down :: "jsnum \<Rightarrow> jsnum"
  d_up :: "jsnum \<Rightarrow> jsnum"

definition floorToStep :: "dec_ops \<Rightarrow> jsnum \<Rightarrow> jsnum \<Rightarrow> jsnum" where
  "floorToStep D v step = (if step \<le> 0 then v else d_times D (d_down D (d_div D v step)) step)"

definition ceilToStep :: "dec_ops \<Rightarrow> jsnum \<Rightarrow> jsnum \<Rightarrow> jsnum" where
  "ceilToStep D v step = (if step \<le> 0 then v else d_times D (d_up D (d_div D v step)) step)"

text \<open>Numbers of at most 40 significant decimal digits.\<close>

definition dec40 :: "real \<Rightarrow> bool" where
  "dec40 r \<longleftrightarrow> (\<exists>m e. r = of_int m * 10 powi e \<and> \<bar>m\<bar> < 10 ^ 40)"

definition truncate_real :: "real \<Rightarrow> real" where
  "truncate_real r = (if 0 \<le> r then of_int \<lfloor>r\<rfloor> else of_int \<lceil>r\<rceil>)"

definition away_real :: "real \<Rightarrow> real" where
  "away_real r = (if 0 \<le> r then of_int \<lceil>r\<rceil> else of_int \<lfloor>r\<rfloor>)"

definition decimal_laws :: "dec_ops \<Rightarrow> bool" where
  "decimal_laws D \<longleftrightarrow>
     (\<forall>a b. dec40 (a + b) \<longrightarrow> d_plus D (Fin a) (Fin b) = Fin (a + b))
   \<and> (\<forall>a b. dec40 (a - b) \<longrightarrow> d_minus D (Fin a) (Fin b) = Fin (a - b))
   \<and> (\<forall>a b. dec40 (a * b) \<longrightarrow> d_times D (Fin a) (Fin b) = Fin (a * b))
   \<and> (\<forall>a b. b \<noteq> 0 \<longrightarrow> dec40 (a / b) \<longrightarrow> d_div D (Fin a) (Fin b) = Fin (a / b))
   \<and> (\<forall>a. d_down D (Fin a) = Fin (truncate_real a))
   \<and> (\<forall>a. d_up D (Fin a) = Fin (away_real a))"

text \<open>
  A result of more digits is rounded to 40 of them, so it is off by less than one part in \<open>10 ^ 39\<close>.
\<close>

definition digit40 :: real where
  "digit40 = 1 / 10 ^ 39"

definition rounds_to :: "real \<Rightarrow> jsnum \<Rightarrow> bool" where
  "rounds_to x v \<longleftrightarrow> (\<exists>r. v = Fin r \<and> \<bar>r - x\<bar> \<le> digit40 * \<bar>x\<bar>)"

definition decimal_rounds :: "dec_ops \<Rightarrow> bool" where
  "decimal_rounds D \<longleftrightarrow>
     (\<forall>a b. rounds_to (a * b) (d_times D (Fin a) (Fin b)))
   \<and> (\<forall>a b. b \<noteq> 0 \<longrightarrow> rounds_to (a / b) (d_div D (Fin a) (Fin b)))"

text \<open>An implementation of the laws, used where a theorem has to be shown not to be vacuous.\<close>

fun on_fin :: "(real \<Rightarrow> real) \<Rightarrow> jsnum \<Rightarrow> jsnum" where
  "on_fin f (Fin a) = Fin (f a)"
| "on_fin f x = x"

definition exact_dec :: dec_ops where
  "exact_dec = \<lparr> d_plus = (+), d_minus = (-), d_times = (*), d_div = divide,
     d_down = on_fin truncate_real, d_up = on_fin away_real \<rparr>"

lemma exact_dec_simps [simp]:
  "d_plus exact_dec a b = a + b" "d_minus exact_dec a b = a - b" "d_times exact_dec a b = a * b"
  "d_div exact_dec a b = a / b" "d_down exact_dec (Fin r) = Fin (truncate_real r)"
  "d_up exact_dec (Fin r) = Fin (away_real r)"
  by (auto simp: exact_dec_def simp del: js_consts)

lemma exact_dec_laws: "decimal_laws exact_dec"
  by (auto simp: decimal_laws_def)

lemma exact_dec_rounds: "decimal_rounds exact_dec"
  by (simp add: decimal_rounds_def rounds_to_def digit40_def)

text \<open>The bounds a rounded result of a non-negative value satisfies.\<close>

lemma rounds_toE:
  assumes "rounds_to x v" and "0 \<le> x"
  obtains r where "v = Fin r" "(1 - digit40) * x \<le> r" "r \<le> (1 + digit40) * x" "0 \<le> r"
proof -
  obtain r where r: "v = Fin r" "\<bar>r - x\<bar> \<le> digit40 * \<bar>x\<bar>" using assms(1) by (auto simp: rounds_to_def)
  then have b: "r \<le> x + digit40 * x" "x - digit40 * x \<le> r" using assms(2) by auto
  moreover have "digit40 * x \<le> 1 * x" using assms(2) by (intro mult_right_mono) (simp_all add: digit40_def)
  ultimately have "0 \<le> r" by simp
  with that r(1) b show thesis by (auto simp: algebra_simps)
qed

lemma times_rounded: "decimal_rounds D \<Longrightarrow> rounds_to (a * b) (d_times D (Fin a) (Fin b))"
  and div_rounded: "decimal_rounds D \<Longrightarrow> b \<noteq> 0 \<Longrightarrow> rounds_to (a / b) (d_div D (Fin a) (Fin b))"
  by (simp_all add: decimal_rounds_def)

text \<open>
  What the sizer's chains of a quotient, a grid step and a product can be off by: three roundings.
\<close>

definition slack :: real where
  "slack = 1 / 10 ^ 38"

lemma slack_covers:
  "0 < slack" "slack < 1" "0 < digit40" "digit40 < 1" "1 + digit40 \<le> 1 + slack"
  "(1 + digit40) * ((1 + digit40) * (1 + digit40)) \<le> 1 + slack"
  "1 - slack \<le> (1 - digit40) * ((1 - digit40) * (1 - digit40))"
  "1 \<le> (1 + slack) * (1 - digit40)" "(1 - slack) * (1 + digit40) \<le> 1"
  by (simp_all add: slack_def digit40_def field_simps)

lemma floorToStep_rounded:
  assumes "decimal_rounds D" and "decimal_laws D" and "0 \<le> v"
  obtains r where "floorToStep D (Fin v) (Fin s) = Fin r" "0 \<le> r" "r \<le> (1 + digit40) * ((1 + digit40) * v)"
    "0 < s \<Longrightarrow> \<exists>k::int. 0 \<le> k \<and> Fin r = d_times D (Fin (of_int k)) (Fin s)"
proof (cases "s \<le> 0")
  case True
  have "1 * v \<le> (1 + digit40) * v" using slack_covers(3) assms(3) by (intro mult_right_mono) simp_all
  also have "\<dots> \<le> (1 + digit40) * ((1 + digit40) * v)"
    using mult_right_mono [of 1 "1 + digit40" "(1 + digit40) * v"] slack_covers(3) assms(3) by simp
  finally show ?thesis using that [of v] True assms(3) by (simp add: floorToStep_def)
next
  case False
  then have s: "0 < s" by simp
  obtain q where q: "d_div D (Fin v) (Fin s) = Fin q" "q \<le> (1 + digit40) * (v / s)" "0 \<le> q"
    using div_rounded [OF assms(1), of s v] assms(3) s by (auto elim: rounds_toE)
  obtain r where r: "d_times D (Fin (of_int \<lfloor>q\<rfloor>)) (Fin s) = Fin r" "r \<le> (1 + digit40) * (of_int \<lfloor>q\<rfloor> * s)" "0 \<le> r"
    using times_rounded [OF assms(1), of "of_int \<lfloor>q\<rfloor>" s] q(3) s by (auto elim: rounds_toE)
  have "of_int \<lfloor>q\<rfloor> * s \<le> q * s" using s by (intro mult_right_mono) simp_all
  also have "\<dots> \<le> (1 + digit40) * (v / s) * s" using q(2) s by (intro mult_right_mono) simp_all
  finally have "of_int \<lfloor>q\<rfloor> * s \<le> (1 + digit40) * v" using s by simp
  then have "(1 + digit40) * (of_int \<lfloor>q\<rfloor> * s) \<le> (1 + digit40) * ((1 + digit40) * v)"
    using slack_covers(3) by (intro mult_left_mono) simp_all
  moreover have "floorToStep D (Fin v) (Fin s) = Fin r"
    using assms(2) q(1,3) r(1) s by (simp add: floorToStep_def decimal_laws_def truncate_real_def)
  moreover have "\<exists>k::int. 0 \<le> k \<and> Fin r = d_times D (Fin (of_int k)) (Fin s)" using q(3) r(1) by (intro exI [of _ "\<lfloor>q\<rfloor>"]) simp
  ultimately show ?thesis using that [of r] r(2,3) by simp
qed

lemma ceilToStep_rounded:
  assumes "decimal_rounds D" and "decimal_laws D" and "0 \<le> v"
  obtains r where "ceilToStep D (Fin v) (Fin s) = Fin r" "(1 - digit40) * ((1 - digit40) * v) \<le> r"
    "0 < s \<Longrightarrow> \<exists>k::int. 0 \<le> k \<and> Fin r = d_times D (Fin (of_int k)) (Fin s)"
proof (cases "s \<le> 0")
  case True
  have "(1 - digit40) * ((1 - digit40) * v) \<le> 1 * (1 * v)"
    using slack_covers(3,4) assms(3) by (intro mult_mono) simp_all
  then show ?thesis using that [of v] True assms(3) by (simp add: ceilToStep_def)
next
  case False
  then have s: "0 < s" by simp
  obtain q where q: "d_div D (Fin v) (Fin s) = Fin q" "(1 - digit40) * (v / s) \<le> q" "0 \<le> q"
    using div_rounded [OF assms(1), of s v] assms(3) s by (auto elim: rounds_toE)
  have k: "0 \<le> \<lceil>q\<rceil>" using q(3) by linarith
  obtain r where r: "d_times D (Fin (of_int \<lceil>q\<rceil>)) (Fin s) = Fin r" "(1 - digit40) * (of_int \<lceil>q\<rceil> * s) \<le> r"
    using times_rounded [OF assms(1), of "of_int \<lceil>q\<rceil>" s] k s by (auto elim: rounds_toE)
  have "(1 - digit40) * v = (1 - digit40) * (v / s) * s" using s by simp
  also have "\<dots> \<le> q * s" using q(2) s by (intro mult_right_mono) simp_all
  also have "\<dots> \<le> of_int \<lceil>q\<rceil> * s" using s by (intro mult_right_mono) simp_all
  finally have "(1 - digit40) * ((1 - digit40) * v) \<le> (1 - digit40) * (of_int \<lceil>q\<rceil> * s)"
    using slack_covers(4) by (intro mult_left_mono) simp_all
  moreover have "ceilToStep D (Fin v) (Fin s) = Fin r"
    using assms(2) q(1,3) r(1) s by (simp add: ceilToStep_def decimal_laws_def away_real_def)
  moreover have "\<exists>k::int. 0 \<le> k \<and> Fin r = d_times D (Fin (of_int k)) (Fin s)" using k r(1) by (intro exI [of _ "\<lceil>q\<rceil>"]) simp
  ultimately show ?thesis using that [of r] r(2) by simp
qed

lemma dec40_int: "\<bar>m\<bar> < 10 ^ 40 \<Longrightarrow> dec40 (of_int m)"
  unfolding dec40_def by (rule exI [of _ m], rule exI [of _ 0]) simp

lemma dec40_frac: "r * 10 ^ k = of_int m \<Longrightarrow> \<bar>m\<bar> < 10 ^ 40 \<Longrightarrow> dec40 r"
  unfolding dec40_def by (rule exI [of _ m], rule exI [of _ "- int k"]) (simp add: power_int_minus field_simps)

text \<open>
  A quantity on the lot grid is a whole multiple of the step: for a step of few digits and a
  quotient that decimal arithmetic represents, flooring lands on the grid at or below the value.
\<close>

lemma floorToStep_grid:
  assumes "decimal_laws D" and "0 < s" and "0 \<le> v" and "dec40 (v / s)"
    and "dec40 (of_int \<lfloor>v / s\<rfloor> * s)"
  shows "floorToStep D (Fin v) (Fin s) = Fin (of_int \<lfloor>v / s\<rfloor> * s)"
    and "of_int \<lfloor>v / s\<rfloor> * s \<le> v" and "v < of_int \<lfloor>v / s\<rfloor> * s + s"
proof -
  from assms show "floorToStep D (Fin v) (Fin s) = Fin (of_int \<lfloor>v / s\<rfloor> * s)"
    by (auto simp: floorToStep_def decimal_laws_def truncate_real_def)
  show "of_int \<lfloor>v / s\<rfloor> * s \<le> v"
    using of_int_floor_le [of "v / s"] assms(2) by (simp only: pos_le_divide_eq)
  have "v / s < of_int \<lfloor>v / s\<rfloor> + 1" by linarith
  then have "v < (of_int \<lfloor>v / s\<rfloor> + 1) * s" using assms(2) by (simp only: pos_divide_less_eq)
  then show "v < of_int \<lfloor>v / s\<rfloor> * s + s" by (simp add: algebra_simps)
qed

end
