(* ===== verification/PositionManager.thy ===== *)
theory PositionManager
  imports Interfaces DecimalOps
begin

text \<open>
  The deterministic position manager of \<open>src/position/PositionManager.ts\<close>: one state per open
  position, and \<open>advance\<close>, which turns a mark into partial reduces and stop moves.
\<close>

section \<open>Data\<close>

datatype pm_phase = PM_INITIAL | PM_PROTECTED | PM_TRAILING | PM_CLOSED

datatype pm_mode = RUNNER | TARGET

datatype vol_class = LOW | MEDIUM | HIGH

datatype breakeven_after = AFTER_TP1 | AFTER_TP2 | AFTER_NEVER

record pm_config =
  pc_tp1R :: jsnum
  pc_tp1Fraction :: jsnum
  pc_tp2R :: jsnum
  pc_tp2Fraction :: jsnum
  pc_trailAtr :: "vol_class \<Rightarrow> jsnum"
  pc_minTrailGapAtr :: jsnum
  pc_costBufferRate :: jsnum
  pc_targetOnlyStrategies :: "agent_id list"
  pc_breakevenAfter :: breakeven_after
  pc_trailStartR :: jsnum

definition DEFAULT_PM_CONFIG :: pm_config where
  "DEFAULT_PM_CONFIG = \<lparr> pc_tp1R = 1, pc_tp1Fraction = 35/100, pc_tp2R = 2, pc_tp2Fraction = 3/10,
     pc_trailAtr = (\<lambda>v. case v of LOW \<Rightarrow> 2 | MEDIUM \<Rightarrow> 5/2 | HIGH \<Rightarrow> 32/10),
     pc_minTrailGapAtr = 1/4, pc_costBufferRate = 2 * (4/10000 + 2/10000),
     pc_targetOnlyStrategies = [MEAN_REVERT], pc_breakevenAfter = AFTER_TP1, pc_trailStartR = 0 \<rparr>"

record pm_state =
  pm_key :: "string \<times> agent_id"
  pm_symbol :: string
  pm_strategy :: agent_id
  pm_side :: side
  pm_entry :: jsnum
  pm_oneR :: jsnum
  pm_initialQty :: jsnum
  pm_reducedQty :: jsnum
  pm_phase :: pm_phase
  pm_mode :: pm_mode
  pm_stop :: jsnum
  pm_target :: "jsnum option"
  pm_signalTarget :: "jsnum option"
  pm_tp1Done :: bool
  pm_tp2Done :: bool
  pm_extreme :: jsnum
  pm_openedAt :: jsnum
  pm_updatedAt :: jsnum

record lot_rules =
  lot_step :: jsnum
  lot_minQty :: jsnum
  lot_minNotional :: jsnum

record pm_input =
  pi_mark :: jsnum
  pi_qty :: jsnum
  pi_atr :: "jsnum option"
  pi_vol :: vol_class
  pi_swingStop :: "jsnum option"
  pi_superTrend :: "jsnum option"
  pi_lot :: lot_rules

datatype reduce_reason = TP1 | TP2

datatype move_reason = BREAKEVEN | TRAIL | STRUCTURE

datatype pm_action =
    REDUCE jsnum reduce_reason
  | MOVE_PM_STOP jsnum "jsnum option" move_reason

datatype skip_reason = BelowMinLot jsnum jsnum | BelowMinNotional jsnum jsnum | RemainderTooSmall

datatype pm_note = InvalidMarkOrQuantity | PartialSkipped reduce_reason skip_reason

record pm_result =
  pr_state :: pm_state
  pr_actions :: "pm_action list"
  pr_notes :: "pm_note list"

definition isNum :: "jsnum \<Rightarrow> bool" where
  "isNum v \<longleftrightarrow> is_finite v \<and> v > 0"

definition optNum :: "jsnum option \<Rightarrow> bool" where
  "optNum v = (case v of None \<Rightarrow> False | Some x \<Rightarrow> isNum x)"

definition pmKey :: "string \<Rightarrow> agent_id \<Rightarrow> string \<times> agent_id" where
  "pmKey symbol strategy = (symbol, strategy)"

section \<open>State of a position\<close>

definition pm_initState :: "position \<Rightarrow> jsnum \<Rightarrow> pm_config \<Rightarrow> pm_state option" where
  "pm_initState pos now cfg =
     (let stop = label_number (p_serverSl pos);
          entry = p_entry pos
      in if \<not> isNum stop \<or> \<not> isNum entry \<or> \<not> isNum (p_qty pos) then None
         else
           (let dir = directionOf (p_side pos);
                lockedIn = ((stop - entry) * dir \<ge> 0)
            in if lockedIn \<and> \<not> optNum (p_initialRisk pos) then None
               else
                 (let oneR = (if optNum (p_initialRisk pos) then the (p_initialRisk pos)
                              else abs (entry - stop));
                      tp = label_number (p_serverTp pos);
                      target = (if isNum tp \<and> (tp - entry) * dir > 0 then Some tp else None);
                      targetOnly = (p_strategy pos \<in> set (pc_targetOnlyStrategies cfg));
                      mode = (case target of
                                Some t \<Rightarrow> if targetOnly \<or> abs (t - entry) / oneR \<le> pc_tp2R cfg
                                          then TARGET else RUNNER
                              | None \<Rightarrow> RUNNER)
                  in Some \<lparr> pm_key = pmKey (p_symbol pos) (p_strategy pos),
                       pm_symbol = p_symbol pos, pm_strategy = p_strategy pos, pm_side = p_side pos,
                       pm_entry = entry, pm_oneR = oneR, pm_initialQty = p_qty pos, pm_reducedQty = 0,
                       pm_phase = (if lockedIn then PM_PROTECTED else PM_INITIAL), pm_mode = mode,
                       pm_stop = stop, pm_target = target, pm_signalTarget = target,
                       pm_tp1Done = lockedIn, pm_tp2Done = False,
                       pm_extreme = (if isNum (p_mark pos) then p_mark pos else entry),
                       pm_openedAt = now, pm_updatedAt = now \<rparr>)))"

definition isStale :: "pm_state \<Rightarrow> position \<Rightarrow> bool" where
  "isStale st pos =
     (if p_side pos \<noteq> pm_side st then True
      else if abs (p_entry pos - pm_entry st) / pm_entry st > 1/10000 then True
      else p_qty pos > (pm_initialQty st - pm_reducedQty st) * (1 + 1/1000000))"

definition revertReduce :: "dec_ops \<Rightarrow> pm_state \<Rightarrow> reduce_reason \<Rightarrow> jsnum \<Rightarrow> pm_state" where
  "revertReduce D st reason qty =
     st\<lparr> pm_reducedQty := math_max 0 (d_minus D (pm_reducedQty st) qty),
         pm_tp1Done := (if reason = TP1 then False else pm_tp1Done st),
         pm_tp2Done := (if reason = TP2 then False else pm_tp2Done st),
         pm_phase := (if reason = TP1 then PM_INITIAL else PM_PROTECTED),
         pm_target := (if reason = TP2 then pm_signalTarget st else pm_target st) \<rparr>"

section \<open>Partials\<close>

definition partialQty ::
  "dec_ops \<Rightarrow> jsnum \<Rightarrow> pm_state \<Rightarrow> jsnum \<Rightarrow> jsnum \<Rightarrow> lot_rules \<Rightarrow> skip_reason + jsnum" where
  "partialQty D fraction st remaining mark lot =
     (let qty = floorToStep D (pm_initialQty st * fraction) (lot_step lot);
          left_over = remaining - qty
      in if \<not> (qty > 0) \<or> qty < lot_minQty lot then Inl (BelowMinLot qty (lot_minQty lot))
         else if qty * mark < lot_minNotional lot then Inl (BelowMinNotional (qty * mark) (lot_minNotional lot))
         else if left_over < lot_minQty lot \<or> left_over * mark < lot_minNotional lot
              then Inl RemainderTooSmall
         else Inr qty)"

section \<open>Stop candidates\<close>

type_synonym pm_candidate = "jsnum \<times> move_reason"

definition clamp_to_gap :: "side \<Rightarrow> jsnum \<Rightarrow> jsnum \<Rightarrow> jsnum \<Rightarrow> jsnum" where
  "clamp_to_gap sd mark gap level =
     (if sd = LONG then math_min level (mark - gap) else math_max level (mark + gap))"

definition breakevenArmed :: "pm_config \<Rightarrow> pm_state \<Rightarrow> bool" where
  "breakevenArmed cfg st =
     (case pc_breakevenAfter cfg of
        AFTER_TP1 \<Rightarrow> pm_tp1Done st | AFTER_TP2 \<Rightarrow> pm_tp2Done st | AFTER_NEVER \<Rightarrow> False)"

definition beyondMark :: "pm_state \<Rightarrow> pm_input \<Rightarrow> jsnum \<Rightarrow> bool" where
  "beyondMark st input level \<longleftrightarrow> (pi_mark input - level) * directionOf (pm_side st) > 0"

definition breakeven_candidates :: "pm_state \<Rightarrow> pm_input \<Rightarrow> pm_config \<Rightarrow> pm_candidate list" where
  "breakeven_candidates st input cfg =
     (let be = pm_entry st + directionOf (pm_side st) * pm_entry st * pc_costBufferRate cfg
      in if breakevenArmed cfg st \<and> beyondMark st input be then [(be, BREAKEVEN)] else [])"

definition structural_candidate ::
  "pm_state \<Rightarrow> pm_input \<Rightarrow> jsnum \<Rightarrow> jsnum option \<Rightarrow> pm_candidate list" where
  "structural_candidate st input gap level =
     (case level of
        None \<Rightarrow> []
      | Some s \<Rightarrow> if isNum s \<and> beyondMark st input s
                  then [(clamp_to_gap (pm_side st) (pi_mark input) gap s, STRUCTURE)] else [])"

definition stopCandidates :: "pm_state \<Rightarrow> pm_input \<Rightarrow> pm_config \<Rightarrow> pm_candidate list" where
  "stopCandidates st input cfg =
     (let dir = directionOf (pm_side st);
          be = breakeven_candidates st input cfg;
          excursionR = ((pm_extreme st - pm_entry st) * dir) / pm_oneR st
      in case pi_atr input of
           None \<Rightarrow> be
         | Some atr \<Rightarrow>
             if pm_phase st = PM_INITIAL \<or> excursionR < pc_trailStartR cfg \<or> \<not> (atr > 0) then be
             else
               (let gap = pc_minTrailGapAtr cfg * atr
                in be
                   @ [(clamp_to_gap (pm_side st) (pi_mark input) gap
                         (pm_extreme st - dir * pc_trailAtr cfg (pi_vol input) * atr), TRAIL)]
                   @ structural_candidate st input gap (pi_swingStop input)
                   @ structural_candidate st input gap (pi_superTrend input)))"

text \<open>The reduction that keeps the first candidate nothing later beats.\<close>

fun best_from :: "jsnum \<Rightarrow> pm_candidate option \<Rightarrow> pm_candidate list \<Rightarrow> pm_candidate option" where
  "best_from dir acc [] = acc"
| "best_from dir acc (c # cs) =
     best_from dir (case acc of None \<Rightarrow> Some c
                    | Some a \<Rightarrow> if (fst c - fst a) * dir > 0 then Some c else Some a) cs"

section \<open>One step\<close>

definition take_tp1 :: "dec_ops \<Rightarrow> pm_state \<Rightarrow> pm_input \<Rightarrow> pm_config \<Rightarrow> jsnum \<Rightarrow>
    pm_state \<times> jsnum \<times> pm_action list \<times> pm_note list" where
  "take_tp1 D st input cfg gainR =
     (if \<not> pm_tp1Done st \<and> gainR \<ge> pc_tp1R cfg then
        (let st1 = st\<lparr> pm_tp1Done := True, pm_phase := PM_PROTECTED \<rparr>
         in case partialQty D (pc_tp1Fraction cfg) st (pi_qty input) (pi_mark input) (pi_lot input) of
              Inr qty \<Rightarrow> (st1\<lparr> pm_reducedQty := d_plus D (pm_reducedQty st1) qty \<rparr>,
                          d_minus D (pi_qty input) qty, [REDUCE qty TP1], [])
            | Inl why \<Rightarrow> (st1, pi_qty input, [], [PartialSkipped TP1 why]))
      else (st, pi_qty input, [], []))"

definition take_tp2 :: "dec_ops \<Rightarrow> pm_state \<Rightarrow> jsnum \<Rightarrow> pm_input \<Rightarrow> pm_config \<Rightarrow> jsnum \<Rightarrow>
    pm_state \<times> pm_action list \<times> pm_note list" where
  "take_tp2 D st remaining input cfg gainR =
     (if pm_mode st = RUNNER \<and> \<not> pm_tp2Done st \<and> gainR \<ge> pc_tp2R cfg then
        (let st1 = st\<lparr> pm_tp2Done := True, pm_phase := PM_TRAILING, pm_target := None \<rparr>
         in case partialQty D (pc_tp2Fraction cfg) st remaining (pi_mark input) (pi_lot input) of
              Inr qty \<Rightarrow> (st1\<lparr> pm_reducedQty := d_plus D (pm_reducedQty st1) qty \<rparr>, [REDUCE qty TP2], [])
            | Inl why \<Rightarrow> (st1, [], [PartialSkipped TP2 why]))
      else (st, [], []))"

definition opt_num_eq :: "jsnum option \<Rightarrow> jsnum option \<Rightarrow> bool" where
  "opt_num_eq a b = (case (a, b) of (None, None) \<Rightarrow> True | (Some x, Some y) \<Rightarrow> js_eq x y | _ \<Rightarrow> False)"

definition move_stop :: "pm_state \<Rightarrow> pm_state \<Rightarrow> pm_input \<Rightarrow> pm_config \<Rightarrow> pm_state \<times> pm_action list" where
  "move_stop prev st input cfg =
     (let dir = directionOf (pm_side st);
          targetChanged = (\<not> opt_num_eq (pm_target st) (pm_target prev));
          unmoved = (if targetChanged then (st, [MOVE_PM_STOP (pm_stop st) (pm_target st) TRAIL]) else (st, []))
      in case best_from dir None (stopCandidates st input cfg) of
           Some (level, reason) \<Rightarrow>
             if (level - pm_stop st) * dir > 0
             then (st\<lparr> pm_stop := level \<rparr>, [MOVE_PM_STOP level (pm_target st) reason])
             else unmoved
         | None \<Rightarrow> unmoved)"

definition pm_advance :: "dec_ops \<Rightarrow> pm_state \<Rightarrow> pm_input \<Rightarrow> pm_config \<Rightarrow> jsnum \<Rightarrow> pm_result" where
  "pm_advance D prev input cfg now =
     (if \<not> isNum (pi_mark input) \<or> \<not> isNum (pi_qty input)
      then \<lparr> pr_state = prev, pr_actions = [], pr_notes = [InvalidMarkOrQuantity] \<rparr>
      else
        (let dir = directionOf (pm_side prev);
             st0 = prev\<lparr> pm_extreme := (if pm_side prev = LONG then math_max (pm_extreme prev) (pi_mark input)
                                        else math_min (pm_extreme prev) (pi_mark input)),
                         pm_updatedAt := now \<rparr>;
             gainR = ((pi_mark input - pm_entry st0) * dir) / pm_oneR st0
         in case take_tp1 D st0 input cfg gainR of
              (st1, remaining, acts1, notes1) \<Rightarrow>
                (case take_tp2 D st1 remaining input cfg gainR of
                   (st2, acts2, notes2) \<Rightarrow>
                     (case move_stop prev st2 input cfg of
                        (st3, acts3) \<Rightarrow>
                          \<lparr> pr_state = st3, pr_actions = acts1 @ acts2 @ acts3,
                            pr_notes = notes1 @ notes2 \<rparr>))))"


section \<open>What a step leaves alone\<close>

definition same_position :: "pm_state \<Rightarrow> pm_state \<Rightarrow> bool" where
  "same_position s t \<longleftrightarrow> pm_side t = pm_side s \<and> pm_entry t = pm_entry s \<and> pm_oneR t = pm_oneR s
     \<and> pm_initialQty t = pm_initialQty s \<and> pm_mode t = pm_mode s \<and> pm_key t = pm_key s
     \<and> pm_signalTarget t = pm_signalTarget s"

lemma take_tp1_frame:
  assumes "take_tp1 D st input cfg g = (st', rem, acts, notes)"
  shows "same_position st st' \<and> pm_stop st' = pm_stop st \<and> pm_extreme st' = pm_extreme st
    \<and> pm_tp2Done st' = pm_tp2Done st \<and> pm_target st' = pm_target st
    \<and> (pm_tp1Done st \<longrightarrow> pm_tp1Done st')"
  using assms by (auto simp: take_tp1_def same_position_def Let_def split: if_splits sum.splits)

lemma take_tp2_frame:
  assumes "take_tp2 D st rem input cfg g = (st', acts, notes)"
  shows "same_position st st' \<and> pm_stop st' = pm_stop st \<and> pm_extreme st' = pm_extreme st
    \<and> pm_tp1Done st' = pm_tp1Done st \<and> (pm_tp2Done st \<longrightarrow> pm_tp2Done st')"
  using assms by (auto simp: take_tp2_def same_position_def Let_def split: if_splits sum.splits)

lemma move_stop_frame:
  assumes "move_stop prev st input cfg = (st', acts)"
  shows "same_position st st' \<and> pm_extreme st' = pm_extreme st \<and> pm_target st' = pm_target st
    \<and> pm_phase st' = pm_phase st
    \<and> pm_tp1Done st' = pm_tp1Done st \<and> pm_tp2Done st' = pm_tp2Done st
    \<and> no_looser (pm_side st) (pm_stop st) (pm_stop st')"
  using assms
  by (auto simp: move_stop_def same_position_def no_looser_def Let_def split: if_splits option.splits prod.splits
      dest!: gap_beyond_Fin)

lemma same_position_trans: "same_position s t \<Longrightarrow> same_position t u \<Longrightarrow> same_position s u"
  by (auto simp: same_position_def)

text \<open>One step in three stages.\<close>

lemma pm_advance_stages:
  assumes "isNum (pi_mark input)" and "isNum (pi_qty input)"
  obtains st0 st1 st2 st3 rem acts1 notes1 acts2 notes2 acts3 g where
    "st0 = prev\<lparr> pm_extreme := (if pm_side prev = LONG then math_max (pm_extreme prev) (pi_mark input)
              else math_min (pm_extreme prev) (pi_mark input)), pm_updatedAt := now \<rparr>"
    "g = ((pi_mark input - pm_entry prev) * directionOf (pm_side prev)) / pm_oneR prev"
    "take_tp1 D st0 input cfg g = (st1, rem, acts1, notes1)"
    "take_tp2 D st1 rem input cfg g = (st2, acts2, notes2)"
    "move_stop prev st2 input cfg = (st3, acts3)"
    "pm_advance D prev input cfg now =
       \<lparr> pr_state = st3, pr_actions = acts1 @ acts2 @ acts3, pr_notes = notes1 @ notes2 \<rparr>"
proof -
  define st0 where "st0 = prev\<lparr> pm_extreme := (if pm_side prev = LONG then math_max (pm_extreme prev) (pi_mark input)
      else math_min (pm_extreme prev) (pi_mark input)), pm_updatedAt := now \<rparr>"
  define g where "g = ((pi_mark input - pm_entry prev) * directionOf (pm_side prev)) / pm_oneR prev"
  obtain st1 rem acts1 notes1 where s1: "take_tp1 D st0 input cfg g = (st1, rem, acts1, notes1)"
    by (cases "take_tp1 D st0 input cfg g") auto
  obtain st2 acts2 notes2 where s2: "take_tp2 D st1 rem input cfg g = (st2, acts2, notes2)"
    by (cases "take_tp2 D st1 rem input cfg g") auto
  obtain st3 acts3 where s3: "move_stop prev st2 input cfg = (st3, acts3)"
    by (cases "move_stop prev st2 input cfg") auto
  have "pm_entry st0 = pm_entry prev" "pm_oneR st0 = pm_oneR prev" by (auto simp: st0_def)
  with s1 s2 s3 assms have "pm_advance D prev input cfg now =
       \<lparr> pr_state = st3, pr_actions = acts1 @ acts2 @ acts3, pr_notes = notes1 @ notes2 \<rparr>"
    unfolding pm_advance_def Let_def st0_def [symmetric] g_def by simp
  with st0_def g_def s1 s2 s3 show thesis by (rule that)
qed

section \<open>The ratchet\<close>

definition pm_step :: "dec_ops \<Rightarrow> pm_config \<Rightarrow> pm_state \<Rightarrow> pm_input \<times> jsnum \<Rightarrow> pm_state" where
  "pm_step D cfg st i = pr_state (pm_advance D st (fst i) cfg (snd i))"

definition pm_le :: "pm_state \<Rightarrow> pm_state \<Rightarrow> bool" where
  "pm_le s t \<longleftrightarrow> same_position s t \<and> no_looser (pm_side s) (pm_stop s) (pm_stop t)
     \<and> no_looser (pm_side s) (pm_extreme s) (pm_extreme t)
     \<and> (pm_tp1Done s \<longrightarrow> pm_tp1Done t) \<and> (pm_tp2Done s \<longrightarrow> pm_tp2Done t)"

lemma extreme_no_looser:
  "isNum m \<Longrightarrow> no_looser sd e (if sd = LONG then math_max e m else math_min e m)"
  using math_max_cases [of m e] math_min_cases [of m e]
  by (cases sd) (auto simp: isNum_def is_finite_not_nan no_looser_def beyond_def)

lemma pm_advance_le: "pm_le prev (pr_state (pm_advance D prev input cfg now))"
proof (cases "isNum (pi_mark input) \<and> isNum (pi_qty input)")
  case False
  then show ?thesis by (auto simp: pm_advance_def pm_le_def same_position_def)
next
  case True
  then show ?thesis
  proof (elim conjE, elim pm_advance_stages [where D = D and prev = prev and cfg = cfg and now = now])
    fix st0 st1 st2 st3 rem acts1 notes1 acts2 notes2 acts3 g
    assume st0: "st0 = prev\<lparr> pm_extreme := (if pm_side prev = LONG then math_max (pm_extreme prev) (pi_mark input)
              else math_min (pm_extreme prev) (pi_mark input)), pm_updatedAt := now \<rparr>"
      and s: "take_tp1 D st0 input cfg g = (st1, rem, acts1, notes1)"
        "take_tp2 D st1 rem input cfg g = (st2, acts2, notes2)" "move_stop prev st2 input cfg = (st3, acts3)"
      and r: "pm_advance D prev input cfg now =
        \<lparr> pr_state = st3, pr_actions = acts1 @ acts2 @ acts3, pr_notes = notes1 @ notes2 \<rparr>"
    note f = take_tp1_frame [OF s(1)] take_tp2_frame [OF s(2)] move_stop_frame [OF s(3)]
    have "no_looser (pm_side prev) (pm_extreme prev) (pm_extreme st0)"
      using extreme_no_looser [of "pi_mark input" "pm_side prev" "pm_extreme prev"] True st0 by simp
    moreover have "same_position prev st0" by (simp add: st0 same_position_def)
    ultimately show "pm_le prev (pr_state (pm_advance D prev input cfg now))"
      using f unfolding r pm_le_def
      by (auto simp: st0 same_position_def)
  qed
qed

interpretation pm: guarded_machine "pm_step D cfg" "\<lambda>s. True" pm_le for D cfg
proof
  fix s t u :: pm_state and i :: "pm_input \<times> jsnum"
  show "pm_le s s" by (simp add: pm_le_def same_position_def)
  show "pm_le s t \<Longrightarrow> pm_le t u \<Longrightarrow> pm_le s u"
    by (auto simp: pm_le_def same_position_def intro: no_looser_trans)
  show "pm_le s (pm_step D cfg s i)" by (simp add: pm_step_def pm_advance_le)
qed simp_all

section \<open>Partials\<close>

lemma partialQty_Inr:
  assumes "partialQty D fr st (Fin r) (Fin m) lot = Inr q"
    and "lot_minQty lot = Fin mq" and "lot_minNotional lot = Fin mn"
  shows "\<exists>x. q = Fin x \<and> 0 < x \<and> mq \<le> x \<and> mn \<le> x * m \<and> mq \<le> r - x \<and> mn \<le> (r - x) * m"
  using assms by (cases q) (auto simp: partialQty_def Let_def split: if_splits)

fun reduce_amounts :: "pm_action list \<Rightarrow> jsnum list" where
  "reduce_amounts [] = []"
| "reduce_amounts (REDUCE q r # as) = q # reduce_amounts as"
| "reduce_amounts (a # as) = reduce_amounts as"

lemma reduce_amounts_append [simp]: "reduce_amounts (as @ bs) = reduce_amounts as @ reduce_amounts bs"
  by (induction as rule: reduce_amounts.induct) auto

lemma move_stop_no_reduce:
  "move_stop prev st input cfg = (st', acts) \<Longrightarrow> reduce_amounts acts = []
     \<and> (\<forall>q r. REDUCE q r \<notin> set acts)"
  by (auto simp: move_stop_def Let_def split: if_splits option.splits prod.splits)

fun is_reduce :: "reduce_reason \<Rightarrow> pm_action \<Rightarrow> bool" where
  "is_reduce r (REDUCE q r') = (r = r')"
| "is_reduce r a = False"

definition pm_count :: "reduce_reason \<Rightarrow> pm_action list \<Rightarrow> nat" where
  "pm_count r as = length (filter (is_reduce r) as)"

text \<open>The actions of a whole run, in order.\<close>

text \<open>
  What happens to a state: a tick of the driver (\<open>advance\<close>) or the report that a requested partial was refused
  (\<open>revertReduce\<close>); and the actions requested along the way.
\<close>

datatype pm_op = PmTick pm_input jsnum | PmRefused reduce_reason jsnum

fun pm_apply_op :: "dec_ops \<Rightarrow> pm_config \<Rightarrow> pm_state \<Rightarrow> pm_op \<Rightarrow> pm_state" where
  "pm_apply_op D cfg st (PmTick input now) = pr_state (pm_advance D st input cfg now)"
| "pm_apply_op D cfg st (PmRefused reason qty) = revertReduce D st reason qty"

fun pm_op_actions :: "dec_ops \<Rightarrow> pm_config \<Rightarrow> pm_state \<Rightarrow> pm_op \<Rightarrow> pm_action list" where
  "pm_op_actions D cfg st (PmTick input now) = pr_actions (pm_advance D st input cfg now)"
| "pm_op_actions D cfg st (PmRefused reason qty) = []"

fun pm_run_actions :: "dec_ops \<Rightarrow> pm_config \<Rightarrow> pm_state \<Rightarrow> pm_op list \<Rightarrow> pm_action list" where
  "pm_run_actions D cfg st [] = []"
| "pm_run_actions D cfg st (x # xs) = pm_op_actions D cfg st x @ pm_run_actions D cfg (pm_apply_op D cfg st x) xs"

fun refuses :: "reduce_reason \<Rightarrow> pm_op \<Rightarrow> bool" where
  "refuses r (PmRefused reason qty) = (reason = r)"
| "refuses r (PmTick input now) = False"

fun pm_done :: "reduce_reason \<Rightarrow> pm_state \<Rightarrow> bool" where
  "pm_done TP1 st = pm_tp1Done st"
| "pm_done TP2 st = pm_tp2Done st"

lemma take_tp1_count:
  assumes "take_tp1 D st input cfg g = (st', rem, acts, notes)"
  shows "pm_count TP1 acts + (if pm_tp1Done st then 1 else 0) \<le> (if pm_tp1Done st' then 1 else 0)
    \<and> pm_count TP2 acts = 0"
  using assms by (auto simp: take_tp1_def pm_count_def Let_def split: if_splits sum.splits)

lemma take_tp2_count:
  assumes "take_tp2 D st rem input cfg g = (st', acts, notes)"
  shows "pm_count TP2 acts + (if pm_tp2Done st then 1 else 0) \<le> (if pm_tp2Done st' then 1 else 0)
    \<and> pm_count TP1 acts = 0"
  using assms by (auto simp: take_tp2_def pm_count_def Let_def split: if_splits sum.splits)

lemma move_stop_count:
  assumes "move_stop prev st input cfg = (st', acts)"
  shows "pm_count r acts = 0"
  using assms by (auto simp: move_stop_def pm_count_def Let_def split: if_splits option.splits prod.splits)

lemma pm_count_append [simp]: "pm_count r (as @ bs) = pm_count r as + pm_count r bs"
  by (simp add: pm_count_def)

lemma pm_advance_count:
  "pm_count TP1 (pr_actions (pm_advance D st input cfg now)) + (if pm_tp1Done st then 1 else 0)
     \<le> (if pm_tp1Done (pr_state (pm_advance D st input cfg now)) then 1 else 0) \<and>
   pm_count TP2 (pr_actions (pm_advance D st input cfg now)) + (if pm_tp2Done st then 1 else 0)
     \<le> (if pm_tp2Done (pr_state (pm_advance D st input cfg now)) then 1 else 0)"
proof (cases "isNum (pi_mark input) \<and> isNum (pi_qty input)")
  case False
  then show ?thesis by (auto simp: pm_advance_def pm_count_def)
next
  case True
  then show ?thesis
  proof (elim conjE, elim pm_advance_stages [where D = D and prev = st and cfg = cfg and now = now])
    fix st0 st1 st2 st3 rem acts1 notes1 acts2 notes2 acts3 g
    assume st0: "st0 = st\<lparr> pm_extreme := (if pm_side st = LONG then math_max (pm_extreme st) (pi_mark input)
              else math_min (pm_extreme st) (pi_mark input)), pm_updatedAt := now \<rparr>"
      and s: "take_tp1 D st0 input cfg g = (st1, rem, acts1, notes1)"
        "take_tp2 D st1 rem input cfg g = (st2, acts2, notes2)" "move_stop st st2 input cfg = (st3, acts3)"
      and r: "pm_advance D st input cfg now =
        \<lparr> pr_state = st3, pr_actions = acts1 @ acts2 @ acts3, pr_notes = notes1 @ notes2 \<rparr>"
    show ?thesis
      using take_tp1_count [OF s(1)] take_tp2_count [OF s(2)] move_stop_count [OF s(3)]
        take_tp1_frame [OF s(1)] take_tp2_frame [OF s(2)] move_stop_frame [OF s(3)]
      unfolding r by (simp add: st0)
  qed
qed

lemma pm_op_count:
  "pm_count r (pm_op_actions D cfg st x) + of_bool (pm_done r st) \<le> of_bool (pm_done r (pm_apply_op D cfg st x)) + of_bool (refuses r x)"
proof (cases x)
  case (PmTick input now)
  then show ?thesis using pm_advance_count [of D st input cfg now] by (cases r) (auto split: if_splits)
next
  case (PmRefused reason qty)
  then show ?thesis by (cases r; cases reason) (simp_all add: revertReduce_def pm_count_def)
qed

lemma pm_run_count:
  "pm_count r (pm_run_actions D cfg st xs) + of_bool (pm_done r st) \<le> 1 + length (filter (refuses r) xs)"
proof (induction xs arbitrary: st)
  case Nil
  show ?case by (simp add: pm_count_def)
next
  case (Cons x xs)
  from Cons.IH [of "pm_apply_op D cfg st x"] pm_op_count [of r D cfg st x] show ?case by (cases "refuses r x") auto
qed

section \<open>Candidates stay behind the mark\<close>

lemma best_from_in:
  "best_from dir acc cs = Some b \<Longrightarrow> acc = Some b \<or> b \<in> set cs"
  by (induction dir acc cs rule: best_from.induct) (auto split: option.splits if_splits)

lemma clamp_behind_mark:
  assumes "isNum m" and "Fin 0 < gap" and "clamp_to_gap sd m gap level \<noteq> NaN"
  shows "beyond sd m (clamp_to_gap sd m gap level)"
proof (cases sd)
  case LONG
  have "m - gap < m" using assms(1,2) by (cases m; cases gap) (auto simp: isNum_def)
  with assms LONG show ?thesis
    by (auto simp: clamp_to_gap_def beyond_def intro: js_le_lt_trans [OF math_min_le(2)])
next
  case SHORT
  have "m < m + gap" using assms(1,2) by (cases m; cases gap) (auto simp: isNum_def)
  with assms SHORT show ?thesis
    by (auto simp: clamp_to_gap_def beyond_def intro: js_lt_le_trans [OF _ math_max_ge(2)])
qed

lemma beyondMark_beyond: "beyondMark st input level \<Longrightarrow> beyond (pm_side st) (pi_mark input) level"
  by (auto simp: beyondMark_def dest: gap_beyond_Fin)

lemma stopCandidates_cases:
  assumes "c \<in> set (stopCandidates st input cfg)"
  obtains (be) "beyondMark st input (fst c)"
    | (clamped) a level where "Fin 0 < a"
        "fst c = clamp_to_gap (pm_side st) (pi_mark input) (pc_minTrailGapAtr cfg * a) level"
  using assms
  by (auto simp: stopCandidates_def breakeven_candidates_def structural_candidate_def Let_def
      split: option.splits if_splits)

lemma stopCandidates_behind_mark:
  assumes "isNum (pi_mark input)" and "isNum (pc_minTrailGapAtr cfg)"
    and "c \<in> set (stopCandidates st input cfg)" and "fst c \<noteq> NaN"
  shows "beyond (pm_side st) (pi_mark input) (fst c)"
  using assms(3)
proof (cases rule: stopCandidates_cases)
  case be
  then show ?thesis by (rule beyondMark_beyond)
next
  case (clamped a level)
  have "Fin 0 < pc_minTrailGapAtr cfg * a"
    using assms(2) clamped(1) by (cases a; cases "pc_minTrailGapAtr cfg") (auto simp: isNum_def inf_sign_def)
  with assms(1,4) clamped(2) show ?thesis by (auto intro: clamp_behind_mark)
qed

section \<open>Phase and flags\<close>

definition pm_consistent :: "pm_state \<Rightarrow> bool" where
  "pm_consistent s \<longleftrightarrow> (pm_phase s = PM_INITIAL \<longleftrightarrow> \<not> pm_tp1Done s)
     \<and> (pm_phase s = PM_TRAILING \<longleftrightarrow> pm_tp2Done s) \<and> pm_phase s \<noteq> PM_CLOSED
     \<and> (pm_tp2Done s \<longrightarrow> pm_target s = None)"

lemma take_tp1_phase:
  assumes "take_tp1 D st input cfg g = (st', rem, acts, notes)"
  shows "pm_tp1Done st' = (pm_tp1Done st \<or> g \<ge> pc_tp1R cfg)"
    and "pm_phase st' = (if \<not> pm_tp1Done st \<and> g \<ge> pc_tp1R cfg then PM_PROTECTED else pm_phase st)"
  using assms by (auto simp: take_tp1_def Let_def split: if_splits sum.splits)

lemma take_tp2_phase:
  assumes "take_tp2 D st rem input cfg g = (st', acts, notes)"
  shows "pm_phase st' = (if pm_mode st = RUNNER \<and> \<not> pm_tp2Done st \<and> g \<ge> pc_tp2R cfg then PM_TRAILING else pm_phase st)"
    and "pm_tp2Done st' = (pm_tp2Done st \<or> pm_mode st = RUNNER \<and> g \<ge> pc_tp2R cfg)"
    and "pm_target st' = (if pm_mode st = RUNNER \<and> \<not> pm_tp2Done st \<and> g \<ge> pc_tp2R cfg then None else pm_target st)"
  using assms by (auto simp: take_tp2_def Let_def split: if_splits sum.splits)

lemma pm_consistent_advance:
  assumes "pc_tp1R cfg \<le> pc_tp2R cfg" and "pm_consistent st"
  shows "pm_consistent (pr_state (pm_advance D st input cfg now))"
proof (cases "isNum (pi_mark input) \<and> isNum (pi_qty input)")
  case False
  with assms show ?thesis by (auto simp: pm_advance_def)
next
  case True
  then show ?thesis
  proof (elim conjE, elim pm_advance_stages [where D = D and prev = st and cfg = cfg and now = now])
    fix st0 st1 st2 st3 rem acts1 notes1 acts2 notes2 acts3 g
    assume st0: "st0 = st\<lparr> pm_extreme := (if pm_side st = LONG then math_max (pm_extreme st) (pi_mark input)
              else math_min (pm_extreme st) (pi_mark input)), pm_updatedAt := now \<rparr>"
      and s: "take_tp1 D st0 input cfg g = (st1, rem, acts1, notes1)"
        "take_tp2 D st1 rem input cfg g = (st2, acts2, notes2)" "move_stop st st2 input cfg = (st3, acts3)"
      and r: "pm_advance D st input cfg now =
        \<lparr> pr_state = st3, pr_actions = acts1 @ acts2 @ acts3, pr_notes = notes1 @ notes2 \<rparr>"
    have up: "pc_tp2R cfg \<le> g \<Longrightarrow> pc_tp1R cfg \<le> g" using assms(1) by (rule js_le_trans)
    show ?thesis
      using assms(2) up take_tp1_phase [OF s(1)] take_tp2_phase [OF s(2)]
        take_tp1_frame [OF s(1)] take_tp2_frame [OF s(2)] move_stop_frame [OF s(3)]
      unfolding r pm_consistent_def same_position_def by (auto simp: st0 split: if_splits)
  qed
qed

lemma pm_initState_consistent: "pm_initState pos now cfg = Some st \<Longrightarrow> pm_consistent st"
  by (auto simp: pm_initState_def pm_consistent_def Let_def split: if_splits)

lemmas pm_run_le = pm.run_le [OF TrueI]

lemma advance_reduce_amounts:
  assumes "pi_qty input = Fin qty" and "pi_mark input = Fin mark"
    and "lot_minQty (pi_lot input) = Fin mq" and "lot_minNotional (pi_lot input) = Fin mn"
    and "\<forall>x. REDUCE (Fin x) TP1 \<in> set (pr_actions (pm_advance D st input cfg now)) \<longrightarrow> d_minus D (Fin qty) (Fin x) = Fin (qty - x)"
    and "reduce_amounts (pr_actions (pm_advance D st input cfg now)) \<noteq> []"
  shows "\<exists>xs. reduce_amounts (pr_actions (pm_advance D st input cfg now)) = map Fin xs
     \<and> (\<forall>x\<in>set xs. 0 < x \<and> mq \<le> x) \<and> sum_list xs \<le> qty - mq"
proof (cases "isNum (pi_mark input) \<and> isNum (pi_qty input)")
  case False
  with assms(6) show ?thesis by (auto simp: pm_advance_def)
next
  case True
  then show ?thesis
  proof (elim conjE, elim pm_advance_stages [where D = D and prev = st and cfg = cfg and now = now])
    fix st0 st1 st2 st3 rem acts1 notes1 acts2 notes2 acts3 g
    assume s: "take_tp1 D st0 input cfg g = (st1, rem, acts1, notes1)"
        "take_tp2 D st1 rem input cfg g = (st2, acts2, notes2)" "move_stop st st2 input cfg = (st3, acts3)"
      and r: "pm_advance D st input cfg now =
        \<lparr> pr_state = st3, pr_actions = acts1 @ acts2 @ acts3, pr_notes = notes1 @ notes2 \<rparr>"
    have am: "reduce_amounts (pr_actions (pm_advance D st input cfg now)) = reduce_amounts acts1 @ reduce_amounts acts2"
      using move_stop_no_reduce [OF s(3)] by (simp add: r)
    have first: "acts1 = [] \<and> rem = Fin qty
       \<or> (\<exists>x. acts1 = [REDUCE (Fin x) TP1] \<and> 0 < x \<and> mq \<le> x \<and> mq \<le> qty - x \<and> rem = Fin (qty - x))"
    proof (cases "acts1 = []")
      case True
      with s(1) assms(1) show ?thesis
        by (auto simp: take_tp1_def Let_def split: if_splits sum.splits)
    next
      case False
      with s(1) obtain q where q: "partialQty D (pc_tp1Fraction cfg) st0 (pi_qty input) (pi_mark input) (pi_lot input) = Inr q"
          "acts1 = [REDUCE q TP1]" "rem = d_minus D (pi_qty input) q"
        by (auto simp: take_tp1_def Let_def split: if_splits sum.splits)
      from partialQty_Inr [OF q(1) [unfolded assms(1,2)] assms(3,4)] obtain x
        where x: "q = Fin x" "0 < x" "mq \<le> x" "mq \<le> qty - x" by auto
      have "d_minus D (Fin qty) (Fin x) = Fin (qty - x)" using assms(5) q(2) x(1) by (simp add: r)
      with assms(1) x q show ?thesis by simp
    qed
    have second: "acts2 = [] \<or> (\<exists>y R. rem = Fin R \<and> acts2 = [REDUCE (Fin y) TP2] \<and> 0 < y \<and> mq \<le> y \<and> mq \<le> R - y)"
    proof (cases "acts2 = []")
      case False
      obtain R where R: "rem = Fin R" using first by auto
      from False s(2) obtain q where q: "partialQty D (pc_tp2Fraction cfg) st1 rem (pi_mark input) (pi_lot input) = Inr q"
          "acts2 = [REDUCE q TP2]"
        by (auto simp: take_tp2_def Let_def split: if_splits sum.splits)
      from partialQty_Inr [OF q(1) [unfolded R assms(2)] assms(3,4)] q(2) R show ?thesis by auto
    qed simp
    have ne: "acts1 \<noteq> [] \<or> acts2 \<noteq> []" using assms(6) am by auto
    have "\<exists>xs. reduce_amounts acts1 @ reduce_amounts acts2 = map Fin xs
          \<and> (\<forall>x\<in>set xs. 0 < x \<and> mq \<le> x) \<and> sum_list xs \<le> qty - mq"
    proof (cases "acts1 = []")
      case True
      with ne second first obtain y where "acts2 = [REDUCE (Fin y) TP2]" "0 < y" "mq \<le> y" "mq \<le> qty - y"
        by auto
      with True show ?thesis
        by (intro exI [of _ "[y]"]) auto
    next
      case False
      with first obtain x where x: "acts1 = [REDUCE (Fin x) TP1]" "0 < x" "mq \<le> x" "mq \<le> qty - x" "rem = Fin (qty - x)"
        by auto
      show ?thesis
      proof (cases "acts2 = []")
        case True
        with x show ?thesis by (intro exI [of _ "[x]"]) auto
      next
        case False
        with second x obtain y where "acts2 = [REDUCE (Fin y) TP2]" "0 < y" "mq \<le> y" "mq \<le> qty - x - y" by auto
        with x show ?thesis by (intro exI [of _ "[x, y]"]) auto
      qed
    qed
    then show ?thesis by (simp add: am)
  qed
qed

text \<open>With exact arithmetic the state counts exactly what it asked for.\<close>

section \<open>Properties\<close>

text \<open>
  Over any sequence of marks the manager only ever ratchets the stop toward the price: from a
  state to any later one the stop is unchanged or strictly on the profit side, the best price is
  kept, and the taken-profit flags never reset.
\<close>

theorem pm_stop_ratchets:
  "pm_le st (run_steps (pm_step D cfg) st inputs)"
  by (rule pm_run_le)

text \<open>
  C11. A partial take-profit is asked for again only after it was refused: over any ticks and any refusals of a state, in
  any order and whatever the decimal arithmetic does, the requests of a kind are at most one more than the refusals of
  that kind, and none at all while the partial counts as done and is not refused. (Every stretch of a run is a run, so
  between two requests of a kind lies a refusal of that kind.)
\<close>

theorem partial_asked_again_only_if_refused:
  "pm_count r (pm_run_actions D cfg st xs) \<le> 1 + length (filter (refuses r) xs)
   \<and> (pm_done r st \<longrightarrow> pm_count r (pm_run_actions D cfg st xs) \<le> length (filter (refuses r) xs))"
  using pm_run_count [of r D cfg st xs] by (auto split: if_splits)

text \<open>
  C10. A stop move that changes the stop puts it strictly between the old stop and the mark: a trail
  or breakeven update cannot by itself stop the position out.
\<close>

theorem moved_stop_between_old_stop_and_mark:
  assumes "isNum (pc_minTrailGapAtr cfg)"
    and "pm_stop (pr_state (pm_advance D st input cfg now)) \<noteq> pm_stop st"
  shows "beyond (pm_side st) (pm_stop (pr_state (pm_advance D st input cfg now))) (pm_stop st)
    \<and> beyond (pm_side st) (pi_mark input) (pm_stop (pr_state (pm_advance D st input cfg now)))"
proof (cases "isNum (pi_mark input) \<and> isNum (pi_qty input)")
  case False
  with assms(2) show ?thesis by (auto simp: pm_advance_def)
next
  case True
  then have m: "isNum (pi_mark input)" by simp
  from True show ?thesis
  proof (elim conjE, elim pm_advance_stages [where D = D and prev = st and cfg = cfg and now = now])
    fix st0 st1 st2 st3 rem acts1 notes1 acts2 notes2 acts3 g
    assume st0: "st0 = st\<lparr> pm_extreme := (if pm_side st = LONG then math_max (pm_extreme st) (pi_mark input)
              else math_min (pm_extreme st) (pi_mark input)), pm_updatedAt := now \<rparr>"
      and s: "take_tp1 D st0 input cfg g = (st1, rem, acts1, notes1)"
        "take_tp2 D st1 rem input cfg g = (st2, acts2, notes2)" "move_stop st st2 input cfg = (st3, acts3)"
      and r: "pm_advance D st input cfg now =
        \<lparr> pr_state = st3, pr_actions = acts1 @ acts2 @ acts3, pr_notes = notes1 @ notes2 \<rparr>"
    have old: "pm_stop st2 = pm_stop st" "pm_side st2 = pm_side st"
      using take_tp1_frame [OF s(1)] take_tp2_frame [OF s(2)] by (auto simp: st0 same_position_def)
    have ne: "pm_stop st3 \<noteq> pm_stop st2" using assms(2) old unfolding r by simp
    with s(3) obtain level reason where b: "best_from (directionOf (pm_side st2)) None (stopCandidates st2 input cfg)
          = Some (level, reason)" "(level - pm_stop st2) * directionOf (pm_side st2) > 0" "pm_stop st3 = level"
      by (auto simp: move_stop_def Let_def split: if_splits option.splits prod.splits)
    have new: "beyond (pm_side st2) level (pm_stop st2)" using b(2) by (rule gap_beyond)
    then have "level \<noteq> NaN" by (cases "pm_side st2") (auto simp: beyond_def)
    with stopCandidates_behind_mark [OF m assms(1), of "(level, reason)"] best_from_in [OF b(1)]
    have "beyond (pm_side st2) (pi_mark input) level" by auto
    with new old b(3) show ?thesis unfolding r by simp
  qed
qed

text \<open>
  With the usual order of the two profit levels, phase and flags stay in step along any run from
  a fresh state: the position is \<open>INITIAL\<close> until the first partial, \<open>TRAILING\<close> exactly after the
  second, and then has no fixed target.
\<close>

theorem pm_phase_follows_flags:
  assumes "pm_initState pos now cfg = Some st" and "pc_tp1R cfg \<le> pc_tp2R cfg"
  shows "pm_consistent (run_steps (pm_step D cfg) st inputs)"
proof (rule run_steps_invariant)
  show "pm_consistent st" using assms(1) by (rule pm_initState_consistent)
  show "pm_consistent (pm_step D cfg s i)" if "pm_consistent s" for s i
    using that assms(2) by (simp add: pm_step_def pm_consistent_advance)
qed

text \<open>
  The partials of one step leave a tradable remainder: with finite lot rules and decimal
  arithmetic that obeys its documented laws, the quantities requested are positive, at least the
  minimum lot, and together leave at least the minimum lot of the open quantity.
\<close>

theorem partials_leave_minimum_lot:
  assumes "decimal_laws D" and "pi_qty input = Fin qty" and "pi_mark input = Fin mark"
    and "lot_minQty (pi_lot input) = Fin mq" and "lot_minNotional (pi_lot input) = Fin mn"
    and "\<forall>x. REDUCE (Fin x) TP1 \<in> set (pr_actions (pm_advance D st input cfg now)) \<longrightarrow> dec40 (qty - x)"
    and "reduce_amounts (pr_actions (pm_advance D st input cfg now)) \<noteq> []"
  shows "\<exists>xs. reduce_amounts (pr_actions (pm_advance D st input cfg now)) = map Fin xs
     \<and> (\<forall>x\<in>set xs. 0 < x \<and> mq \<le> x) \<and> sum_list xs \<le> qty - mq"
  using assms(1,6) by (intro advance_reduce_amounts [OF assms(2-5) _ assms(7)]) (simp add: decimal_laws_def)

section \<open>A concrete position\<close>

definition demo_pm_pos :: position where
  "demo_pm_pos = \<lparr> p_id = ''p1'', p_symbol = ''BTCUSDT'', p_side = LONG, p_strategy = STRUCTURE_TREND,
    p_entry = 100, p_qty = 10, p_mark = 100, p_upnl = 0, p_upnlPct = 0, p_leverage = 5, p_marginType = ISOLATED,
    p_liqDistancePct = None, p_serverSl = Level 90, p_serverTp = Label ''trail'', p_initialRisk = None,
    p_decisionId = None \<rparr>"

definition demo_pm_input :: pm_input where
  "demo_pm_input = \<lparr> pi_mark = 120, pi_qty = 10, pi_atr = Some 2, pi_vol = MEDIUM, pi_swingStop = None,
    pi_superTrend = None, pi_lot = \<lparr> lot_step = 1/10, lot_minQty = 1/10, lot_minNotional = 5 \<rparr> \<rparr>"

definition demo_pm_state :: pm_state where
  "demo_pm_state = the (pm_initState demo_pm_pos 0 DEFAULT_PM_CONFIG)"

lemmas demo_pm_defs = demo_pm_pos_def demo_pm_input_def DEFAULT_PM_CONFIG_def

lemma demo_pm_state_eq: "pm_initState demo_pm_pos 0 DEFAULT_PM_CONFIG = Some demo_pm_state"
  "demo_pm_state = \<lparr> pm_key = (''BTCUSDT'', STRUCTURE_TREND), pm_symbol = ''BTCUSDT'', pm_strategy = STRUCTURE_TREND,
     pm_side = LONG, pm_entry = 100, pm_oneR = 10, pm_initialQty = 10, pm_reducedQty = 0, pm_phase = PM_INITIAL,
     pm_mode = RUNNER, pm_stop = 90, pm_target = None, pm_signalTarget = None, pm_tp1Done = False,
     pm_tp2Done = False, pm_extreme = 100, pm_openedAt = 0, pm_updatedAt = 0 \<rparr>"
  by (simp_all add: demo_pm_state_def demo_pm_defs pm_initState_def isNum_def optNum_def pmKey_def Let_def)

lemma demo_pm_advance:
  "pm_advance exact_dec demo_pm_state demo_pm_input DEFAULT_PM_CONFIG 1 =
    \<lparr> pr_state = demo_pm_state\<lparr> pm_reducedQty := 65/10, pm_phase := PM_TRAILING, pm_tp1Done := True, pm_tp2Done := True,
        pm_extreme := 120, pm_updatedAt := 1, pm_stop := 115 \<rparr>,
      pr_actions = [REDUCE (35/10) TP1, REDUCE 3 TP2, MOVE_PM_STOP 115 None TRAIL], pr_notes = [] \<rparr>"
  unfolding demo_pm_state_eq
  by (simp add: pm_advance_def demo_pm_defs isNum_def take_tp1_def take_tp2_def partialQty_def floorToStep_def
      truncate_real_def move_stop_def stopCandidates_def breakeven_candidates_def breakevenArmed_def beyondMark_def
      clamp_to_gap_def structural_candidate_def opt_num_eq_def Let_def)

theorem moved_stop_between_old_stop_and_mark_witness:
  "beyond LONG (pm_stop (pr_state (pm_advance exact_dec demo_pm_state demo_pm_input DEFAULT_PM_CONFIG 1))) (Fin 90)
   \<and> beyond LONG (Fin 120) (pm_stop (pr_state (pm_advance exact_dec demo_pm_state demo_pm_input DEFAULT_PM_CONFIG 1)))"
  using moved_stop_between_old_stop_and_mark [of DEFAULT_PM_CONFIG exact_dec demo_pm_state demo_pm_input 1]
  unfolding demo_pm_advance by (simp add: demo_pm_state_eq demo_pm_defs isNum_def)

theorem pm_phase_follows_flags_witness:
  "pm_consistent (run_steps (pm_step exact_dec DEFAULT_PM_CONFIG) demo_pm_state [(demo_pm_input, 1), (demo_pm_input, 2)])"
  by (rule pm_phase_follows_flags [OF demo_pm_state_eq(1)]) (simp add: DEFAULT_PM_CONFIG_def)

theorem partials_leave_minimum_lot_witness:
  "\<exists>xs. reduce_amounts (pr_actions (pm_advance exact_dec demo_pm_state demo_pm_input DEFAULT_PM_CONFIG 1)) = map Fin xs
     \<and> (\<forall>x\<in>set xs. 0 < x \<and> 1/10 \<le> x) \<and> sum_list xs \<le> 10 - 1/10"
proof (rule partials_leave_minimum_lot [where mark = 120 and mn = 5])
  have "dec40 (10 - x)" if "x * 2 = 7" for x :: real
    using that by (intro dec40_frac [where k = 1 and m = 65]) auto
  then show "\<forall>x. REDUCE (Fin x) TP1 \<in> set (pr_actions (pm_advance exact_dec demo_pm_state demo_pm_input DEFAULT_PM_CONFIG 1))
     \<longrightarrow> dec40 (10 - x)"
    unfolding demo_pm_advance by simp
  show "reduce_amounts (pr_actions (pm_advance exact_dec demo_pm_state demo_pm_input DEFAULT_PM_CONFIG 1)) \<noteq> []"
    unfolding demo_pm_advance by simp
qed (simp_all add: exact_dec_laws demo_pm_input_def)
theorem partial_asked_again_only_if_refused_witness:
  "pm_count TP1 (pm_run_actions exact_dec DEFAULT_PM_CONFIG (demo_pm_state\<lparr> pm_tp1Done := True \<rparr>)
      [PmTick demo_pm_input 1, PmRefused TP1 1, PmTick demo_pm_input 2]) \<le> 1"
  using partial_asked_again_only_if_refused [of TP1 exact_dec DEFAULT_PM_CONFIG "demo_pm_state\<lparr> pm_tp1Done := True \<rparr>"
      "[PmTick demo_pm_input 1, PmRefused TP1 1, PmTick demo_pm_input 2]"] by simp

end
