(* ===== verification/PmStore.thy ===== *)
theory PmStore
  imports PositionManager "HOL-Library.AList"
begin

text \<open>
  The persisted manager states of \<open>src/position/PositionManagerStore.ts\<close>. As in the trailing
  store, a book is the association list of one account mode; unlike it, a failed write is
  swallowed and leaves the old file. The clock and the outcome of the write are inputs. JSON prints
  a non-finite number as \<open>null\<close>; the check on load refuses that in the fields it tests.
\<close>

type_synonym pm_book = "((string \<times> agent_id) \<times> pm_state) list"
type_synonym pm_file = "trade_mode \<Rightarrow> pm_book option"

record pm_store =
  pms_mode :: trade_mode
  pms_file :: pm_file
  pms_lastFlushAt :: jsnum
  pms_dirty :: bool
  pms_disk :: pm_file

definition PM_EXTREME_FLUSH_MS :: jsnum where
  "PM_EXTREME_FLUSH_MS = 5000"

definition pm_isStateMap :: "pm_book \<Rightarrow> bool" where
  "pm_isStateMap book =
     list_all (\<lambda>(k, st). is_finite (pm_entry st) \<and> is_finite (pm_oneR st)
        \<and> is_finite (pm_stop st) \<and> is_finite (pm_initialQty st)) book"

definition pm_load :: "pm_file option \<Rightarrow> pm_file" where
  "pm_load content =
     (case content of
        None \<Rightarrow> (\<lambda>m. None)
      | Some f \<Rightarrow> (\<lambda>m. case f m of None \<Rightarrow> None | Some book \<Rightarrow> if pm_isStateMap book then Some book else None))"

definition pms_open :: "trade_mode \<Rightarrow> pm_file option \<Rightarrow> pm_store" where
  "pms_open mode content =
     \<lparr> pms_mode = mode,
       pms_file = (let f = pm_load content in f(mode := Some (case f mode of None \<Rightarrow> [] | Some b \<Rightarrow> b))),
       pms_lastFlushAt = 0, pms_dirty = False,
       pms_disk = (case content of None \<Rightarrow> (\<lambda>m. None) | Some f \<Rightarrow> f) \<rparr>"

definition pms_states :: "pm_file \<Rightarrow> trade_mode \<Rightarrow> pm_book" where
  "pms_states f m = (case f m of None \<Rightarrow> [] | Some b \<Rightarrow> b)"

definition pms_get :: "pm_store \<Rightarrow> string \<times> agent_id \<Rightarrow> pm_state option" where
  "pms_get st k = map_of (pms_states (pms_file st) (pms_mode st)) k"

definition pms_keys :: "pm_store \<Rightarrow> (string \<times> agent_id) list" where
  "pms_keys st = map fst (pms_states (pms_file st) (pms_mode st))"

definition pms_flush :: "bool \<Rightarrow> jsnum \<Rightarrow> pm_store \<Rightarrow> pm_store" where
  "pms_flush ok now st =
     st\<lparr> pms_dirty := False, pms_lastFlushAt := now,
         pms_disk := (if ok then pms_file st else pms_disk st) \<rparr>"

definition pm_material :: "pm_state \<Rightarrow> pm_state \<Rightarrow> bool" where
  "pm_material prev state \<longleftrightarrow>
     \<not> js_eq (pm_stop prev) (pm_stop state) \<or> pm_phase prev \<noteq> pm_phase state
   \<or> pm_tp1Done prev \<noteq> pm_tp1Done state \<or> pm_tp2Done prev \<noteq> pm_tp2Done state
   \<or> \<not> js_eq (pm_reducedQty prev) (pm_reducedQty state)
   \<or> \<not> opt_num_eq (pm_target prev) (pm_target state) \<or> \<not> js_eq (pm_entry prev) (pm_entry state)"

definition pms_set :: "bool \<Rightarrow> jsnum \<Rightarrow> pm_state \<Rightarrow> pm_store \<Rightarrow> pm_store" where
  "pms_set ok now state st =
     (let prev = pms_get st (pm_key state);
          st' = st\<lparr> pms_file := (pms_file st)(pms_mode st :=
                     Some (AList.update (pm_key state) state (pms_states (pms_file st) (pms_mode st)))) \<rparr>
      in case prev of
           None \<Rightarrow> pms_flush ok now st'
         | Some p \<Rightarrow>
             if pm_material p state then pms_flush ok now st'
             else if \<not> js_eq (pm_extreme p) (pm_extreme state) then st'\<lparr> pms_dirty := True \<rparr>
             else st')"

definition pms_delete :: "bool \<Rightarrow> jsnum \<Rightarrow> string \<times> agent_id \<Rightarrow> pm_store \<Rightarrow> pm_store" where
  "pms_delete ok now k st =
     (if pms_get st k = None then st
      else pms_flush ok now
             (st\<lparr> pms_file := (pms_file st)(pms_mode st :=
                     Some (AList.delete k (pms_states (pms_file st) (pms_mode st)))) \<rparr>))"

definition pms_tick :: "bool \<Rightarrow> jsnum \<Rightarrow> pm_store \<Rightarrow> pm_store" where
  "pms_tick ok now st =
     (if pms_dirty st \<and> now - pms_lastFlushAt st \<ge> PM_EXTREME_FLUSH_MS then pms_flush ok now st else st)"

section \<open>The store as a write-through cache\<close>

datatype pms_op = PSet pm_state | PDelete "string \<times> agent_id" | PTick | PFlush

fun pms_apply :: "pm_store \<Rightarrow> pms_op \<times> bool \<times> jsnum \<Rightarrow> pm_store" where
  "pms_apply st (PSet s, ok, now) = pms_set ok now s st"
| "pms_apply st (PDelete k, ok, now) = pms_delete ok now k st"
| "pms_apply st (PTick, ok, now) = pms_tick ok now st"
| "pms_apply st (PFlush, ok, now) = pms_flush ok now st"

definition pms_on_disk :: "pm_store \<Rightarrow> string \<times> agent_id \<Rightarrow> pm_state option" where
  "pms_on_disk st k = map_of (pms_states (pms_disk st) (pms_mode st)) k"

text \<open>Two states that agree on what a restart must not lose.\<close>

definition pm_same_intent :: "pm_state \<Rightarrow> pm_state \<Rightarrow> bool" where
  "pm_same_intent a b \<longleftrightarrow>
     pm_stop a = pm_stop b \<and> pm_phase a = pm_phase b \<and> pm_tp1Done a = pm_tp1Done b
   \<and> pm_tp2Done a = pm_tp2Done b \<and> pm_reducedQty a = pm_reducedQty b \<and> pm_target a = pm_target b
   \<and> pm_entry a = pm_entry b"

lemma opt_num_eq_imp: "opt_num_eq a b \<Longrightarrow> a = b"
  by (auto simp: opt_num_eq_def js_eq_def split: option.splits)

lemma not_pm_material: "\<not> pm_material a b \<Longrightarrow> pm_same_intent a b"
  by (auto simp: pm_material_def pm_same_intent_def dest: js_eq_imp_eq opt_num_eq_imp)

lemma pms_flush_simps [simp]:
  "pms_mode (pms_flush ok now st) = pms_mode st" "pms_file (pms_flush ok now st) = pms_file st"
  "pms_disk (pms_flush True now st) = pms_file st"
  by (auto simp: pms_flush_def)

lemma pms_get_flush [simp]: "pms_get (pms_flush ok now st) = pms_get st"
  by (rule ext) (simp add: pms_get_def)

lemma pms_flush_in_step: "pms_on_disk (pms_flush True now st) = pms_get (pms_flush True now st)"
  by (auto simp: pms_on_disk_def pms_get_def)

lemma pms_mode_set [simp]: "pms_mode (pms_set ok now s st) = pms_mode st"
  by (auto simp: pms_set_def Let_def split: option.splits)

lemma pms_get_set: "pms_get (pms_set ok now s st) = (pms_get st)(pm_key s \<mapsto> s)"
  by (auto simp: pms_set_def Let_def pms_get_def pms_states_def update_conv' fun_eq_iff pms_flush_def
      split: option.splits)

lemma pms_get_delete: "pms_get (pms_delete ok now k st) = (pms_get st)(k := None)"
  by (auto simp: pms_delete_def pms_get_def pms_states_def fun_eq_iff pms_flush_def delete_conv
      split: option.splits)

lemma pms_set_flushes_or_agrees:
  "pms_on_disk (pms_set True now s st) = pms_get (pms_set True now s st)
   \<or> pms_on_disk (pms_set True now s st) = pms_on_disk st \<and>
     (\<forall>k. rel_option pm_same_intent (pms_get st k) (pms_get (pms_set True now s st) k))"
proof (cases "pms_get st (pm_key s)")
  case None
  then show ?thesis by (simp add: pms_set_def Let_def) (metis pms_flush_in_step pms_get_flush)
next
  case (Some p)
  show ?thesis
  proof (cases "pm_material p s")
    case True
    with Some show ?thesis by (simp add: pms_set_def Let_def) (metis pms_flush_in_step pms_get_flush)
  next
    case False
    have "pms_on_disk (pms_set True now s st) = pms_on_disk st"
      using Some False by (auto simp: pms_set_def Let_def pms_on_disk_def)
    moreover have "rel_option pm_same_intent (pms_get st k) (pms_get (pms_set True now s st) k)" for k
      using Some not_pm_material [OF False]
      by (cases "pms_get st k") (auto simp: pms_get_set pm_same_intent_def)
    ultimately show ?thesis by blast
  qed
qed

interpretation pmstore: durable_store pms_apply pms_get pms_on_disk pm_same_intent "\<lambda>(op, ok, now). ok"
proof
  fix u v w :: pm_state and op :: "pms_op \<times> bool \<times> jsnum" and st :: pm_store
  show "pm_same_intent v v" by (simp add: pm_same_intent_def)
  show "pm_same_intent u v \<Longrightarrow> pm_same_intent v w \<Longrightarrow> pm_same_intent u w"
    by (simp add: pm_same_intent_def)
  obtain a ok now where op: "op = (a, ok, now)" by (cases op)
  assume "case op of (op, ok, now) \<Rightarrow> ok"
  then have ok: "op = (a, True, now)" by (simp add: op)
  have rel: "rel_option pm_same_intent x x" for x by (cases x) (auto simp: pm_same_intent_def)
  show "pms_on_disk (pms_apply st op) = pms_get (pms_apply st op)
     \<or> pms_on_disk (pms_apply st op) = pms_on_disk st
       \<and> (\<forall>k. rel_option pm_same_intent (pms_get st k) (pms_get (pms_apply st op) k))"
  proof (cases a)
    case (PSet s)
    then show ?thesis using pms_set_flushes_or_agrees [of now s st] by (simp add: ok)
  next
    case (PDelete k)
    have "pms_on_disk (pms_flush True now t) = pms_get t" for t
      using pms_flush_in_step [of now t] by simp
    with PDelete show ?thesis by (auto simp: ok pms_delete_def rel)
  next
    case PTick
    have "pms_on_disk (pms_flush True now st) = pms_get st" using pms_flush_in_step [of now st] by simp
    with PTick show ?thesis by (auto simp: ok pms_tick_def rel)
  next
    case PFlush
    then show ?thesis using pms_flush_in_step [of now st] by (simp add: ok)
  qed
qed

section \<open>Properties\<close>

text \<open>
  As long as every write succeeds, a crash after any sequence of store operations loses no
  intent: the file on disk has a state for exactly the managed positions, with the stop, phase,
  partial flags, reduced quantity, target and entry the running process had. Only the price extreme
  can be behind.
\<close>

theorem pm_restart_keeps_intent:
  assumes "list_all (\<lambda>(op, ok, now). ok) ops"
    and "pms_on_disk st = pms_get st"
  shows "rel_option pm_same_intent (pms_on_disk (run_steps pms_apply st ops) k) (pms_get (run_steps pms_apply st ops) k)"
  using assms(2)
  by (intro pmstore.crash_agrees assms(1)) (simp add: pmstore.in_step_def pmstore.rel_option_agree_refl)

theorem pm_restart_keeps_intent_witness:
  "rel_option pm_same_intent
     (pms_on_disk (run_steps pms_apply (pms_open Paper None) [(PSet demo_pm_state, True, 10), (PTick, True, 20)]) (pm_key demo_pm_state))
     (pms_get (run_steps pms_apply (pms_open Paper None) [(PSet demo_pm_state, True, 10), (PTick, True, 20)]) (pm_key demo_pm_state))"
  by (rule pm_restart_keeps_intent)
    (simp_all add: pms_open_def pm_load_def pms_on_disk_def pms_get_def pms_states_def fun_eq_iff)

end
