(* ===== verification/SymbolRules.thy ===== *)
theory SymbolRules
  imports JsNum
begin

text \<open>
  Tick and lot rounding of \<open>src/binance/symbolRules.ts\<close>. The module-level map of loaded rules is
  an argument; a symbol it lacks falls back to the \<open>USDT\<close> pair of that name and then to the
  defaults.
\<close>

record symbol_rules =
  sr_pricePrecision :: nat
  sr_quantityPrecision :: nat
  sr_tickSize :: jsnum
  sr_stepSize :: jsnum
  sr_minQty :: jsnum
  sr_minNotional :: jsnum

type_synonym rules_map = "string \<Rightarrow> symbol_rules option"

definition DEFAULT_RULES :: symbol_rules where
  "DEFAULT_RULES = \<lparr> sr_pricePrecision = 2, sr_quantityPrecision = 3, sr_tickSize = 1/100,
     sr_stepSize = 1/1000, sr_minQty = 0, sr_minNotional = 0 \<rparr>"

definition STEP_EPSILON :: jsnum where
  "STEP_EPSILON = 1/1000000000"

definition setSymbolRules :: "string \<Rightarrow> symbol_rules \<Rightarrow> rules_map \<Rightarrow> rules_map" where
  "setSymbolRules symbol rules m = m(symbol \<mapsto> rules)"

definition getSymbolRules :: "rules_map \<Rightarrow> string \<Rightarrow> symbol_rules" where
  "getSymbolRules m symbol =
     (case m symbol of
        Some r \<Rightarrow> r
      | None \<Rightarrow> (case m (symbol @ ''USDT'') of Some r \<Rightarrow> r | None \<Rightarrow> DEFAULT_RULES))"

text \<open>
  \<open>Number(x.toFixed(d))\<close>: the nearest multiple of \<open>10 ^ -d\<close>, halves away from zero. A value
  that is not finite prints and reads back as itself.
\<close>

definition round_away :: "real \<Rightarrow> int" where
  "round_away r = (if 0 \<le> r then \<lfloor>r + 1/2\<rfloor> else - \<lfloor>1/2 - r\<rfloor>)"

fun toFixed :: "nat \<Rightarrow> jsnum \<Rightarrow> jsnum" where
  "toFixed d (Fin r) = Fin (of_int (round_away (r * 10 ^ d)) / 10 ^ d)"
| "toFixed d x = x"

definition roundPrice :: "rules_map \<Rightarrow> string \<Rightarrow> jsnum \<Rightarrow> jsnum" where
  "roundPrice m symbol price =
     (let r = getSymbolRules m symbol
      in toFixed (sr_pricePrecision r) (math_round (price / sr_tickSize r) * sr_tickSize r))"

text \<open>\<open>sell\<close> is \<open>exitSide === 'SELL'\<close>.\<close>

definition roundStopPrice :: "rules_map \<Rightarrow> string \<Rightarrow> jsnum \<Rightarrow> bool \<Rightarrow> jsnum" where
  "roundStopPrice m symbol price sell =
     (let r = getSymbolRules m symbol;
          ticks = price / sr_tickSize r;
          snapped = (if sell then math_ceil (ticks - STEP_EPSILON) else math_floor (ticks + STEP_EPSILON))
      in toFixed (sr_pricePrecision r) (snapped * sr_tickSize r))"

definition roundQty :: "rules_map \<Rightarrow> string \<Rightarrow> jsnum \<Rightarrow> jsnum" where
  "roundQty m symbol qty =
     (let r = getSymbolRules m symbol
      in toFixed (sr_quantityPrecision r) (math_floor (qty / sr_stepSize r + STEP_EPSILON) * sr_stepSize r))"

section \<open>Rounding lemmas\<close>

lemma round_away_of_int [simp]: "round_away (of_int k) = k"
proof (cases "0 \<le> k")
  case True
  then show ?thesis unfolding round_away_def by simp
next
  case False
  then show ?thesis unfolding round_away_def by simp
qed

text \<open>A multiple of a grid step that has at most \<open>d\<close> decimals survives \<open>toFixed d\<close>.\<close>

lemma toFixed_grid:
  assumes "s * 10 ^ d = of_int k"
  shows "toFixed d (Fin (of_int n * s)) = Fin (of_int n * s)"
proof -
  have "of_int n * s * 10 ^ d = of_int (n * k)" using assms by (simp add: mult.assoc)
  moreover have "of_int (n * k) / 10 ^ d = of_int n * s" using assms by (simp add: field_simps)
  ultimately show ?thesis by (simp only: toFixed.simps round_away_of_int)
qed

text \<open>Snapping a value to a grid of step \<open>s\<close> with an allowance of \<open>e\<close> steps.\<close>

lemma grid_down:
  assumes "0 < (s::real)" and "0 < e"
  shows "x - s < of_int \<lfloor>x / s + e\<rfloor> * s" and "of_int \<lfloor>x / s + e\<rfloor> * s \<le> x + e * s"
proof -
  have "x / s - 1 < of_int \<lfloor>x / s + e\<rfloor>" "of_int \<lfloor>x / s + e\<rfloor> \<le> x / s + e"
    using assms(2) by linarith+
  then have "(x / s - 1) * s < of_int \<lfloor>x / s + e\<rfloor> * s" "of_int \<lfloor>x / s + e\<rfloor> * s \<le> (x / s + e) * s"
    using assms(1) by (auto intro: mult_right_mono mult_strict_right_mono)
  with assms(1) show "x - s < of_int \<lfloor>x / s + e\<rfloor> * s" "of_int \<lfloor>x / s + e\<rfloor> * s \<le> x + e * s"
    by (simp_all add: algebra_simps)
qed

lemma grid_up:
  assumes "0 < (s::real)" and "0 < e"
  shows "x - e * s \<le> of_int \<lceil>x / s - e\<rceil> * s" and "of_int \<lceil>x / s - e\<rceil> * s < x + s"
proof -
  have "x / s - e \<le> of_int \<lceil>x / s - e\<rceil>" "of_int \<lceil>x / s - e\<rceil> < x / s + 1"
    using assms(2) by linarith+
  then have "(x / s - e) * s \<le> of_int \<lceil>x / s - e\<rceil> * s" "of_int \<lceil>x / s - e\<rceil> * s < (x / s + 1) * s"
    using assms(1) by (auto intro: mult_right_mono mult_strict_right_mono)
  with assms(1) show "x - e * s \<le> of_int \<lceil>x / s - e\<rceil> * s" "of_int \<lceil>x / s - e\<rceil> * s < x + s"
    by (simp_all add: algebra_simps)
qed

lemma roundQty_down:
  assumes "sr_stepSize (getSymbolRules m symbol) = Fin s" and "0 < s"
    and "s * 10 ^ sr_quantityPrecision (getSymbolRules m symbol) = of_int k"
  shows "\<exists>n. roundQty m symbol (Fin q) = Fin (of_int n * s) \<and> q - s < of_int n * s
     \<and> of_int n * s \<le> q + 1 / 1000000000 * s"
  using toFixed_grid [OF assms(3), of "\<lfloor>q / s + 1 / 1000000000\<rfloor>"] grid_down [OF assms(2), of "1 / 1000000000" q]
    assms(1,2)
  by (intro exI [of _ "\<lfloor>q / s + 1 / 1000000000\<rfloor>"]) (simp add: roundQty_def STEP_EPSILON_def Let_def)

section \<open>Properties\<close>

text \<open>
  A protective stop is never rounded away from the market by more than the float allowance: on a
  symbol whose tick fits its price precision the rounded stop lies on the tick grid; a sell stop
  is then at least the price and less than one tick above it, a buy stop at most the price and less
  than one tick below it, up to \<open>1e-9\<close> of a tick.
\<close>

theorem roundStopPrice_protects:
  assumes "sr_tickSize (getSymbolRules m symbol) = Fin tick" and "0 < tick"
    and "tick * 10 ^ sr_pricePrecision (getSymbolRules m symbol) = of_int k"
  shows "\<exists>n. roundStopPrice m symbol (Fin price) sell = Fin (of_int n * tick)
     \<and> (if sell then price - 1 / 1000000000 * tick \<le> of_int n * tick \<and> of_int n * tick < price + tick
        else price - tick < of_int n * tick \<and> of_int n * tick \<le> price + 1 / 1000000000 * tick)"
proof (cases sell)
  case True
  with toFixed_grid [OF assms(3), of "\<lceil>price / tick - 1 / 1000000000\<rceil>"]
    grid_up [OF assms(2), of "1 / 1000000000" price] assms(1,2)
  show ?thesis
    by (intro exI [of _ "\<lceil>price / tick - 1 / 1000000000\<rceil>"]) (simp add: roundStopPrice_def STEP_EPSILON_def Let_def)
next
  case False
  with toFixed_grid [OF assms(3), of "\<lfloor>price / tick + 1 / 1000000000\<rfloor>"]
    grid_down [OF assms(2), of "1 / 1000000000" price] assms(1,2)
  show ?thesis
    by (intro exI [of _ "\<lfloor>price / tick + 1 / 1000000000\<rfloor>"]) (simp add: roundStopPrice_def STEP_EPSILON_def Let_def)
qed

theorem roundStopPrice_protects_witness:
  "\<exists>n. roundStopPrice (\<lambda>s. None) ''BTCUSDT'' (Fin (123457/1000)) True = Fin (of_int n * (1/100))
     \<and> 123457/1000 - 1 / 1000000000 * (1/100) \<le> of_int n * (1/100::real) \<and> of_int n * (1/100) < 123457/1000 + (1/100::real)"
  using roundStopPrice_protects [of "\<lambda>s. None" "''BTCUSDT''" "1/100" 1 "123457/1000" True]
  by (simp add: getSymbolRules_def DEFAULT_RULES_def)

end
