(* ===== verification/PositionDriver.thy ===== *)
theory PositionDriver
  imports PmStore SymbolRules
begin

text \<open>
  The driver of \<open>src/position/PositionDriver.ts\<close>, which applies the manager's actions to a venue.
  The venue is an interface: what it answers to the action number \<open>i\<close> of a step is an input
  \<open>\<omega> i\<close>, and the calls it received are part of a step's result. The store's clock and the outcome
  of its writes are the ones of the pass. A pass runs to its end: \<open>await\<close> hands control to other
  passes, \<open>busy\<close> keeps them from stepping a position another pass is working on, but the loop of such a
  pass that deletes the states of positions that are gone can remove the key a step is awaiting on; that race is
  not modelled.
\<close>

section \<open>Data\<close>

record symbol_features =
  sf_atr :: "jsnum option"
  sf_vol :: vol_class
  sf_swingLow :: "jsnum option"
  sf_swingHigh :: "jsnum option"
  sf_superTrend :: "(agent_id \<times> jsnum) option"

definition SWING_BUFFER_ATR :: jsnum where
  "SWING_BUFFER_ATR = 15/100"

text \<open>What the venue answers: it resolves, with the executed quantity if it reports one, or throws.\<close>

datatype venue_outcome = Resolved "jsnum option" | Rejected

datatype venue_call = ReducePosition jsnum | UpdateStops jsnum "jsnum option"

record pass_env =
  pe_cfg :: pm_config
  pe_dec :: dec_ops
  pe_lotOf :: "string \<Rightarrow> lot_rules"
  pe_rules :: rules_map
  pe_now :: jsnum
  pe_diskOk :: bool

record driver_state =
  ds_store :: pm_store
  ds_features :: "string \<Rightarrow> symbol_features option"
  ds_busy :: "(string \<times> agent_id) list"

definition setFeatures :: "string \<Rightarrow> symbol_features \<Rightarrow> driver_state \<Rightarrow> driver_state" where
  "setFeatures symbol f ds = ds\<lparr> ds_features := (ds_features ds)(symbol \<mapsto> f) \<rparr>"

definition pd_set :: "pass_env \<Rightarrow> pm_state \<Rightarrow> pm_store \<Rightarrow> pm_store" where
  "pd_set env s store = pms_set (pe_diskOk env) (pe_now env) s store"

definition pd_delete :: "pass_env \<Rightarrow> string \<times> agent_id \<Rightarrow> pm_store \<Rightarrow> pm_store" where
  "pd_delete env k store = pms_delete (pe_diskOk env) (pe_now env) k store"

section \<open>Applying one action\<close>

definition apply_reduce ::
  "pass_env \<Rightarrow> venue_outcome \<Rightarrow> jsnum \<Rightarrow> reduce_reason \<Rightarrow> pm_state \<Rightarrow> pm_store \<Rightarrow> pm_state \<times> pm_store" where
  "apply_reduce env out qty reason state store =
     (case out of
        Resolved ex \<Rightarrow>
          (let executed = (case ex of Some e \<Rightarrow> e | None \<Rightarrow> qty)
           in if executed < qty - 1/1000000000000
              then (let adjusted = state\<lparr> pm_reducedQty :=
                          math_max 0 (d_minus (pe_dec env) (pm_reducedQty state) (d_minus (pe_dec env) qty executed)) \<rparr>
                    in (adjusted, pd_set env adjusted store))
              else (state, store))
      | Rejected \<Rightarrow>
          (let reverted = revertReduce (pe_dec env) state reason qty
           in (reverted, pd_set env reverted store)))"

text \<open>The level and target an \<open>UpdateStops\<close> call would carry, or \<open>None\<close> when nothing is to be sent.\<close>

definition stop_update ::
  "rules_map \<Rightarrow> position \<Rightarrow> jsnum \<Rightarrow> jsnum option \<Rightarrow> (jsnum \<times> jsnum option) option" where
  "stop_update rules pos stop0 target0 =
     (let stop = roundPrice rules (p_symbol pos) stop0;
          target = map_option (roundPrice rules (p_symbol pos)) target0;
          dir = (if p_side pos = LONG then 1 else - 1);
          currentStop = label_number (p_serverSl pos);
          tightens = (\<not> (currentStop > 0) \<or> (stop - currentStop) * dir > 0);
          currentTarget = label_number (p_serverTp pos);
          targetChanged = (case target of None \<Rightarrow> currentTarget > 0 | Some t \<Rightarrow> \<not> js_eq currentTarget t)
      in if \<not> tightens \<and> \<not> targetChanged then None
         else Some (if tightens then stop else currentStop, target))"

definition apply_move ::
  "pass_env \<Rightarrow> venue_outcome \<Rightarrow> position \<Rightarrow> jsnum \<Rightarrow> jsnum option \<Rightarrow> pm_state \<Rightarrow> pm_store
     \<Rightarrow> pm_state \<times> pm_store \<times> venue_call list" where
  "apply_move env out pos stop target state store =
     (case stop_update (pe_rules env) pos stop target of
        None \<Rightarrow> (state, store, [])
      | Some (effectiveStop, t) \<Rightarrow>
          (case out of
             Rejected \<Rightarrow> (state, store, [UpdateStops effectiveStop t])
           | Resolved ex \<Rightarrow>
               (let nxt = state\<lparr> pm_stop := effectiveStop \<rparr>
                in (nxt, pd_set env nxt store, [UpdateStops effectiveStop t]))))"

fun pd_apply ::
  "pass_env \<Rightarrow> venue_outcome \<Rightarrow> position \<Rightarrow> pm_action \<Rightarrow> pm_state \<Rightarrow> pm_store
     \<Rightarrow> pm_state \<times> pm_store \<times> venue_call list" where
  "pd_apply env out pos (REDUCE qty reason) state store =
     (case apply_reduce env out qty reason state store of
        (s, st) \<Rightarrow> (s, st, [ReducePosition qty]))"
| "pd_apply env out pos (MOVE_PM_STOP stop target reason) state store =
     apply_move env out pos stop target state store"

fun pd_apply_all ::
  "pass_env \<Rightarrow> (nat \<Rightarrow> venue_outcome) \<Rightarrow> position \<Rightarrow> pm_action list \<Rightarrow> pm_state \<Rightarrow> pm_store
     \<Rightarrow> pm_state \<times> pm_store \<times> venue_call list" where
  "pd_apply_all env \<omega> pos [] state store = (state, store, [])"
| "pd_apply_all env \<omega> pos (a # as) state store =
     (case pd_apply env (\<omega> 0) pos a state store of
        (s, st, cs) \<Rightarrow>
          (case pd_apply_all env (\<lambda>i. \<omega> (Suc i)) pos as s st of
             (s', st', cs') \<Rightarrow> (s', st', cs @ cs')))"

section \<open>One step and one pass\<close>

definition pd_input :: "pass_env \<Rightarrow> (string \<Rightarrow> symbol_features option) \<Rightarrow> position \<Rightarrow> pm_input" where
  "pd_input env features pos =
     (let f = features (p_symbol pos);
          atr = Option.bind f sf_atr;
          swing = Option.bind f (\<lambda>f. if p_side pos = LONG then sf_swingLow f else sf_swingHigh f);
          buffer = (case atr of None \<Rightarrow> 0 | Some a \<Rightarrow> a) * SWING_BUFFER_ATR
      in \<lparr> pi_mark = p_mark pos, pi_qty = p_qty pos, pi_atr = atr,
           pi_vol = (case f of None \<Rightarrow> MEDIUM | Some f \<Rightarrow> sf_vol f),
           pi_swingStop = map_option (\<lambda>s. if p_side pos = LONG then s - buffer else s + buffer) swing,
           pi_superTrend = (case Option.bind f sf_superTrend of
                              Some (agent, level) \<Rightarrow> if agent = p_strategy pos then Some level else None
                            | None \<Rightarrow> None),
           pi_lot = pe_lotOf env (p_symbol pos) \<rparr>)"

text \<open>The state a step starts from: the stored one, unless the position changed under it.\<close>

definition pd_current :: "pass_env \<Rightarrow> position \<Rightarrow> pm_store \<Rightarrow> pm_state option \<times> pm_store" where
  "pd_current env pos store =
     (let key = pmKey (p_symbol pos) (p_strategy pos);
          kept = (case pms_get store key of None \<Rightarrow> None | Some s \<Rightarrow> if isStale s pos then None else Some s)
      in case kept of
           Some s \<Rightarrow> (Some s, store)
         | None \<Rightarrow> (case pm_initState pos (pe_now env) (pe_cfg env) of
                      None \<Rightarrow> (None, pd_delete env key store)
                    | Some s \<Rightarrow> (Some s, pd_set env s store)))"

definition with_venue_stop :: "position \<Rightarrow> pm_state \<Rightarrow> pm_state" where
  "with_venue_stop pos s =
     (let venueStop = label_number (p_serverSl pos)
      in if venueStop > 0 \<and> \<not> js_eq venueStop (pm_stop s) then s\<lparr> pm_stop := venueStop \<rparr> else s)"

definition pd_step ::
  "pass_env \<Rightarrow> (nat \<Rightarrow> venue_outcome) \<Rightarrow> (string \<Rightarrow> symbol_features option) \<Rightarrow> position \<Rightarrow> pm_store
     \<Rightarrow> pm_store \<times> venue_call list" where
  "pd_step env \<omega> features pos store =
     (case pd_current env pos store of
        (None, store') \<Rightarrow> (store', [])
      | (Some s, store') \<Rightarrow>
          (let result = pm_advance (pe_dec env) (with_venue_stop pos s) (pd_input env features pos) (pe_cfg env) (pe_now env)
           in case pd_apply_all env \<omega> pos (pr_actions result) (pr_state result) (pd_set env (pr_state result) store') of
                (s', store'', calls) \<Rightarrow> (store'', calls)))"

text \<open>\<open>manage\<close>: forget the positions that are gone, step the others that are not busy, flush extremes.\<close>

definition forget_gone :: "pass_env \<Rightarrow> position list \<Rightarrow> pm_store \<Rightarrow> pm_store" where
  "forget_gone env positions store =
     foldl (\<lambda>st k. if k \<in> set (map (\<lambda>p. pmKey (p_symbol p) (p_strategy p)) positions) then st
                   else pd_delete env k st) store (pms_keys store)"

fun pd_steps ::
  "pass_env \<Rightarrow> (nat \<Rightarrow> nat \<Rightarrow> venue_outcome) \<Rightarrow> (string \<Rightarrow> symbol_features option) \<Rightarrow> (string \<times> agent_id) list
     \<Rightarrow> position list \<Rightarrow> pm_store \<Rightarrow> pm_store \<times> (position \<times> venue_call list) list" where
  "pd_steps env \<omega> features busy [] store = (store, [])"
| "pd_steps env \<omega> features busy (p # ps) store =
     (if pmKey (p_symbol p) (p_strategy p) \<in> set busy then pd_steps env (\<lambda>i. \<omega> (Suc i)) features busy ps store
      else (case pd_step env (\<omega> 0) features p store of
              (st, calls) \<Rightarrow>
                (case pd_steps env (\<lambda>i. \<omega> (Suc i)) features busy ps st of
                   (st', rest) \<Rightarrow> (st', (p, calls) # rest))))"

definition pd_manage ::
  "pass_env \<Rightarrow> (nat \<Rightarrow> nat \<Rightarrow> venue_outcome) \<Rightarrow> position list \<Rightarrow> driver_state
     \<Rightarrow> driver_state \<times> (position \<times> venue_call list) list" where
  "pd_manage env \<omega> positions ds =
     (case pd_steps env \<omega> (ds_features ds) (ds_busy ds) positions (forget_gone env positions (ds_store ds)) of
        (st, calls) \<Rightarrow> (ds\<lparr> ds_store := pms_tick (pe_diskOk env) (pe_now env) st \<rparr>, calls))"

section \<open>Keys\<close>

lemma pd_set_get [simp]: "pms_get (pd_set env s store) = (pms_get store)(pm_key s \<mapsto> s)"
  by (simp add: pd_set_def pms_get_set)

lemma pd_delete_get [simp]: "pms_get (pd_delete env k store) = (pms_get store)(k := None)"
  by (simp add: pd_delete_def pms_get_delete)

lemma with_venue_stop_key [simp]: "pm_key (with_venue_stop pos s) = pm_key s"
  "pm_reducedQty (with_venue_stop pos s) = pm_reducedQty s"
  by (auto simp: with_venue_stop_def Let_def)

lemma pm_advance_key [simp]: "pm_key (pr_state (pm_advance D st input cfg now)) = pm_key st"
  using pm_advance_le [of st D input cfg now] by (simp add: pm_le_def same_position_def)

lemma pd_apply_store:
  assumes "pd_apply env out pos a s store = (s', store', cs)" and "pms_get store (pm_key s) = Some s"
  shows "pm_key s' = pm_key s \<and> pms_get store' = (pms_get store)(pm_key s \<mapsto> s')"
  using assms
  by (cases a)
    (auto simp: apply_reduce_def apply_move_def revertReduce_def Let_def fun_eq_iff
      split: venue_outcome.splits option.splits if_splits prod.splits)

lemma pd_apply_all_store:
  "pd_apply_all env \<omega> pos as s store = (s', store', cs) \<Longrightarrow> pms_get store (pm_key s) = Some s
     \<Longrightarrow> pm_key s' = pm_key s \<and> pms_get store' = (pms_get store)(pm_key s \<mapsto> s')"
proof (induction as arbitrary: \<omega> s store cs)
  case Nil
  then show ?case by (auto simp: fun_eq_iff)
next
  case (Cons a as)
  obtain t st1 c1 where a: "pd_apply env (\<omega> 0) pos a s store = (t, st1, c1)"
    by (cases "pd_apply env (\<omega> 0) pos a s store") auto
  obtain c2 where r: "pd_apply_all env (\<lambda>i. \<omega> (Suc i)) pos as t st1 = (s', store', c2)"
    using Cons.prems(1) a by (cases "pd_apply_all env (\<lambda>i. \<omega> (Suc i)) pos as t st1") auto
  have t: "pm_key t = pm_key s" "pms_get st1 = (pms_get store)(pm_key s \<mapsto> t)"
    using pd_apply_store [OF a Cons.prems(2)] by auto
  then have "pms_get st1 (pm_key t) = Some t" by simp
  from Cons.IH [OF r this] t show ?case by (auto simp: fun_eq_iff)
qed

definition keys_match :: "pm_store \<Rightarrow> bool" where
  "keys_match store \<longleftrightarrow> (\<forall>k s. pms_get store k = Some s \<longrightarrow> pm_key s = k)"

abbreviation pos_key :: "position \<Rightarrow> string \<times> agent_id" where
  "pos_key p \<equiv> pmKey (p_symbol p) (p_strategy p)"

lemma pd_current_store:
  assumes "pd_current env pos store = (r, store')" and "keys_match store"
  shows "case r of None \<Rightarrow> pms_get store' = (pms_get store)(pos_key pos := None)
     | Some s \<Rightarrow> pm_key s = pos_key pos \<and> pms_get store' = (pms_get store)(pos_key pos \<mapsto> s)"
proof (cases "\<exists>s. pms_get store (pos_key pos) = Some s \<and> \<not> isStale s pos")
  case True
  then obtain s where s: "pms_get store (pos_key pos) = Some s" "\<not> isStale s pos" by blast
  with assms(2) have "pm_key s = pos_key pos" unfolding keys_match_def by blast
  moreover have "r = Some s" "store' = store" using s assms(1) by (simp_all add: pd_current_def Let_def)
  ultimately show ?thesis using s(1) by (simp add: fun_upd_idem)
next
  case False
  with assms(1) show ?thesis
    by (auto simp: pd_current_def Let_def pm_initState_def split: option.splits if_splits)
qed

text \<open>A step writes the state of its own position only.\<close>

lemma pd_step_store:
  assumes "pd_step env \<omega> features pos store = (store', cs)" and "keys_match store"
  shows "\<exists>r. pms_get store' = (pms_get store)(pos_key pos := r) \<and> (\<forall>s. r = Some s \<longrightarrow> pm_key s = pos_key pos)"
proof -
  obtain r st1 where c: "pd_current env pos store = (r, st1)" by (cases "pd_current env pos store") auto
  note cur = pd_current_store [OF c assms(2)]
  show ?thesis
  proof (cases r)
    case None
    with assms(1) c cur show ?thesis by (auto simp: pd_step_def)
  next
    case (Some s)
    let ?res = "pm_advance (pe_dec env) (with_venue_stop pos s) (pd_input env features pos) (pe_cfg env) (pe_now env)"
    obtain s' where a: "pd_apply_all env \<omega> pos (pr_actions ?res) (pr_state ?res) (pd_set env (pr_state ?res) st1) = (s', store', cs)"
      using assms(1) c Some by (auto simp: pd_step_def Let_def split: prod.splits)
    from pd_apply_all_store [OF a] cur Some show ?thesis by (auto simp: fun_eq_iff)
  qed
qed

lemma pd_step_keys_match:
  "pd_step env \<omega> features pos store = (store', cs) \<Longrightarrow> keys_match store \<Longrightarrow> keys_match store'"
  using pd_step_store [of env \<omega> features pos store store' cs] by (auto simp: keys_match_def split: if_splits)

lemma foldl_delete_get:
  "pms_get (foldl (\<lambda>st k. if k \<in> L then st else pd_delete env k st) store ks) k
     = (if k \<in> set ks \<and> k \<notin> L then None else pms_get store k)"
  by (induction ks arbitrary: store) auto

lemma forget_gone_get:
  "pms_get (forget_gone env positions store) k
     = (if k \<in> pos_key ` set positions then pms_get store k else None)"
proof (cases "pms_get store k")
  case None
  then show ?thesis by (simp add: forget_gone_def foldl_delete_get)
next
  case (Some s)
  then have "k \<in> set (pms_keys store)"
    unfolding pms_get_def pms_keys_def by (force dest: map_of_SomeD)
  then show ?thesis by (simp add: forget_gone_def foldl_delete_get)
qed

lemma pd_steps_store:
  "pd_steps env \<omega> features busy ps store = (store', cs) \<Longrightarrow> keys_match store
     \<Longrightarrow> keys_match store' \<and> (\<forall>k. k \<notin> pos_key ` set ps \<or> k \<in> set busy \<longrightarrow> pms_get store' k = pms_get store k)"
proof (induction ps arbitrary: \<omega> store cs)
  case Nil
  then show ?case by simp
next
  case (Cons p ps)
  show ?case
  proof (cases "pos_key p \<in> set busy")
    case True
    with Cons.prems Cons.IH [of "\<lambda>i. \<omega> (Suc i)" store cs] show ?thesis by auto
  next
    case False
    obtain st1 c1 where a: "pd_step env (\<omega> 0) features p store = (st1, c1)"
      by (cases "pd_step env (\<omega> 0) features p store") auto
    obtain c2 where r: "pd_steps env (\<lambda>i. \<omega> (Suc i)) features busy ps st1 = (store', c2)"
      using Cons.prems(1) a False by (auto split: prod.splits)
    from Cons.IH [OF r pd_step_keys_match [OF a Cons.prems(2)]] pd_step_store [OF a Cons.prems(2)] False
    show ?thesis by fastforce
  qed
qed

section \<open>The venue's stop\<close>

lemma stop_update_tight:
  assumes "stop_update rules pos stop target = Some (e, t)" and "0 < label_number (p_serverSl pos)"
  shows "no_looser (p_side pos) (label_number (p_serverSl pos)) e"
  using assms
  by (cases "p_side pos")
    (auto simp: stop_update_def no_looser_def Let_def simp del: js_consts split: if_splits
      dest: gap_beyond [where sd = LONG, simplified directionOf_simps] gap_beyond [where sd = SHORT, simplified directionOf_simps])

lemma pd_apply_call:
  "pd_apply env out pos a s store = (s', store', cs) \<Longrightarrow> UpdateStops e t \<in> set cs
     \<Longrightarrow> \<exists>stop target reason. a = MOVE_PM_STOP stop target reason \<and> stop_update (pe_rules env) pos stop target = Some (e, t)"
  by (cases a) (auto simp: apply_move_def Let_def split: option.splits venue_outcome.splits prod.splits)

lemma pd_apply_all_call:
  "pd_apply_all env \<omega> pos as s store = (s', store', cs) \<Longrightarrow> UpdateStops e t \<in> set cs
     \<Longrightarrow> \<exists>stop target. stop_update (pe_rules env) pos stop target = Some (e, t)"
proof (induction as arbitrary: \<omega> s store cs)
  case (Cons a as)
  obtain s1 st1 c1 where a: "pd_apply env (\<omega> 0) pos a s store = (s1, st1, c1)"
    by (cases "pd_apply env (\<omega> 0) pos a s store") auto
  obtain c2 where r: "pd_apply_all env (\<lambda>i. \<omega> (Suc i)) pos as s1 st1 = (s', store', c2)" "cs = c1 @ c2"
    using Cons.prems(1) a by (auto split: prod.splits)
  from Cons.prems(2) r(2) show ?case
    using pd_apply_call [OF a, of e t] Cons.IH [OF r(1)] by auto
qed simp

section \<open>Properties\<close>

text \<open>
  C20. The driver never sends the venue a looser stop: whatever the manager asks and however prices
  round to the tick, a stop sent while the venue holds a numeric stop is that stop or strictly on
  its profit side.
\<close>

theorem driver_never_loosens_venue_stop:
  assumes "UpdateStops e t \<in> set (snd (pd_step env \<omega> features pos store))"
    and "0 < label_number (p_serverSl pos)"
  shows "no_looser (p_side pos) (label_number (p_serverSl pos)) e"
proof -
  obtain s st1 where c: "pd_current env pos store = (Some s, st1)"
    using assms(1) by (cases "pd_current env pos store"; cases "fst (pd_current env pos store)") (auto simp: pd_step_def)
  let ?res = "pm_advance (pe_dec env) (with_venue_stop pos s) (pd_input env features pos) (pe_cfg env) (pe_now env)"
  obtain s' st2 cs where a: "pd_apply_all env \<omega> pos (pr_actions ?res) (pr_state ?res) (pd_set env (pr_state ?res) st1) = (s', st2, cs)"
    by (cases "pd_apply_all env \<omega> pos (pr_actions ?res) (pr_state ?res) (pd_set env (pr_state ?res) st1)") auto
  with assms(1) c have "UpdateStops e t \<in> set cs" by (auto simp: pd_step_def Let_def)
  from pd_apply_all_call [OF a this] assms(2) show ?thesis by (auto intro: stop_update_tight)
qed

text \<open>
  C21. One pass of \<open>manage\<close> keeps the book of states consistent with the venue's positions: keys and
  states match, a position that is gone has no state left, and the state of a position another pass
  is working on is not touched.
\<close>

theorem manage_tracks_positions:
  assumes "keys_match (ds_store ds)" and "pd_manage env \<omega> positions ds = (ds', calls)"
  shows "keys_match (ds_store ds')
    \<and> (\<forall>k. k \<notin> pos_key ` set positions \<longrightarrow> pms_get (ds_store ds') k = None)
    \<and> (\<forall>k. k \<in> pos_key ` set positions \<and> k \<in> set (ds_busy ds)
         \<longrightarrow> pms_get (ds_store ds') k = pms_get (ds_store ds) k)"
proof -
  let ?st0 = "forget_gone env positions (ds_store ds)"
  obtain st cs where p: "pd_steps env \<omega> (ds_features ds) (ds_busy ds) positions ?st0 = (st, cs)"
    by (cases "pd_steps env \<omega> (ds_features ds) (ds_busy ds) positions ?st0") auto
  have "keys_match ?st0" using assms(1) by (auto simp: keys_match_def forget_gone_get)
  note st = pd_steps_store [OF p this]
  have tick: "pms_get (pms_tick ok now s) = pms_get s" for ok now s by (simp add: pms_tick_def)
  have "pms_get (ds_store ds') = pms_get st" using assms(2) p by (auto simp: pd_manage_def tick)
  with st show ?thesis by (auto simp: keys_match_def forget_gone_get)
qed

section \<open>A concrete pass\<close>

definition demo_pd_pos :: position where
  "demo_pd_pos = demo_pm_pos\<lparr> p_mark := 120, p_serverTp := Level 300 \<rparr>"

definition demo_env :: pass_env where
  "demo_env = \<lparr> pe_cfg = DEFAULT_PM_CONFIG, pe_dec = exact_dec, pe_lotOf = (\<lambda>s. pi_lot demo_pm_input),
     pe_rules = (\<lambda>s. None), pe_now = 1, pe_diskOk = True \<rparr>"

definition demo_features :: "string \<Rightarrow> symbol_features option" where
  "demo_features = (\<lambda>s. Some \<lparr> sf_atr = Some 2, sf_vol = MEDIUM, sf_swingLow = None, sf_swingHigh = None,
     sf_superTrend = None \<rparr>)"

definition demo_pd_state :: pm_state where
  "demo_pd_state = demo_pm_state\<lparr> pm_target := Some 300, pm_signalTarget := Some 300, pm_extreme := 120, pm_openedAt := 1, pm_updatedAt := 1 \<rparr>"

lemma demo_pd_input: "pd_input demo_env demo_features demo_pd_pos = demo_pm_input"
  by (simp add: pd_input_def demo_env_def demo_features_def demo_pd_pos_def demo_pm_defs Let_def)

lemma demo_pd_current:
  "pd_current demo_env demo_pd_pos (pms_open Paper None)
     = (Some demo_pd_state, pd_set demo_env demo_pd_state (pms_open Paper None))"
  by (simp add: pd_current_def pms_open_def pm_load_def pms_get_def pms_states_def demo_pd_state_def demo_pm_state_eq(2)
      demo_pd_pos_def demo_pm_defs demo_env_def pm_initState_def isNum_def optNum_def pmKey_def Let_def)

lemma demo_pd_stop: "with_venue_stop demo_pd_pos demo_pd_state = demo_pd_state"
  by (simp add: with_venue_stop_def demo_pd_pos_def demo_pd_state_def demo_pm_state_eq(2) demo_pm_pos_def Let_def)

lemma demo_pd_advance:
  "pm_advance exact_dec demo_pd_state demo_pm_input DEFAULT_PM_CONFIG 1 =
    \<lparr> pr_state = demo_pd_state\<lparr> pm_reducedQty := 65/10, pm_phase := PM_TRAILING, pm_tp1Done := True, pm_tp2Done := True,
        pm_stop := 115, pm_target := None \<rparr>,
      pr_actions = [REDUCE (35/10) TP1, REDUCE 3 TP2, MOVE_PM_STOP 115 None TRAIL], pr_notes = [] \<rparr>"
  unfolding demo_pd_state_def demo_pm_state_eq
  by (simp add: pm_advance_def demo_pm_defs isNum_def take_tp1_def take_tp2_def partialQty_def floorToStep_def
      truncate_real_def move_stop_def stopCandidates_def breakeven_candidates_def breakevenArmed_def beyondMark_def
      clamp_to_gap_def structural_candidate_def opt_num_eq_def Let_def)

lemma demo_stop_update: "stop_update (\<lambda>s. None) demo_pd_pos 115 None = Some (115, None)"
  by (simp add: stop_update_def roundPrice_def getSymbolRules_def DEFAULT_RULES_def round_away_def demo_pd_pos_def
      demo_pm_pos_def Let_def)

text \<open>
  A second partial the venue refuses leaves venue and manager apart: the manager takes its
  target back, but in the same step tells the venue to drop the target, so the open position loses
  the take-profit the state still records.
\<close>

theorem refused_tp2_drops_venue_target:
  "\<exists>s'. snd (pd_step demo_env (\<lambda>i. if i = 1 then Rejected else Resolved None) demo_features demo_pd_pos (pms_open Paper None))
        = [ReducePosition (35/10), ReducePosition 3, UpdateStops 115 None]
    \<and> pms_get (fst (pd_step demo_env (\<lambda>i. if i = 1 then Rejected else Resolved None) demo_features demo_pd_pos (pms_open Paper None)))
         (pos_key demo_pd_pos) = Some s'
    \<and> pm_target s' = Some 300 \<and> \<not> pm_tp2Done s' \<and> p_serverTp demo_pd_pos = Level 300"
proof -
  have key: "pm_key demo_pd_state = pos_key demo_pd_pos"
    by (simp add: demo_pd_state_def demo_pm_state_eq(2) demo_pd_pos_def demo_pm_pos_def pmKey_def)
  have env: "pe_dec demo_env = exact_dec" "pe_cfg demo_env = DEFAULT_PM_CONFIG" "pe_now demo_env = 1" "pe_rules demo_env = (\<lambda>s. None)"
    by (simp_all add: demo_env_def)
  have sig: "pm_signalTarget demo_pd_state = Some 300" by (simp add: demo_pd_state_def)
  show ?thesis
    using key sig demo_stop_update [simplified]
    by (simp add: pd_step_def demo_pd_current demo_pd_stop demo_pd_input demo_pd_advance [simplified] env [simplified] Let_def
        apply_reduce_def revertReduce_def apply_move_def) (simp add: demo_pd_pos_def)
qed


theorem driver_never_loosens_venue_stop_witness:
  "UpdateStops 115 None \<in> set (snd (pd_step demo_env (\<lambda>i. Resolved None) demo_features demo_pd_pos (pms_open Paper None)))
   \<and> no_looser LONG 90 115"
proof -
  have env: "pe_dec demo_env = exact_dec" "pe_cfg demo_env = DEFAULT_PM_CONFIG" "pe_now demo_env = 1" "pe_rules demo_env = (\<lambda>s. None)"
    by (simp_all add: demo_env_def)
  have pos: "p_side demo_pd_pos = LONG" "p_serverSl demo_pd_pos = Level 90"
    by (simp_all add: demo_pd_pos_def demo_pm_pos_def)
  have "UpdateStops 115 None \<in> set (snd (pd_step demo_env (\<lambda>i. Resolved None) demo_features demo_pd_pos (pms_open Paper None)))"
    using demo_stop_update [simplified]
    by (simp add: pd_step_def demo_pd_current demo_pd_stop demo_pd_input demo_pd_advance [simplified] env [simplified] Let_def
        apply_reduce_def apply_move_def)
  with driver_never_loosens_venue_stop [OF this] pos show ?thesis by simp
qed

definition demo_driver :: driver_state where
  "demo_driver = \<lparr> ds_store = pd_set demo_env demo_pd_state (pms_open Paper None), ds_features = demo_features, ds_busy = [] \<rparr>"

lemma demo_store_get: "pms_get (ds_store demo_driver) = [pos_key demo_pd_pos \<mapsto> demo_pd_state]"
  by (simp add: demo_driver_def demo_pd_state_def demo_pm_state_eq(2) demo_pd_pos_def demo_pm_pos_def pmKey_def
      pms_open_def pm_load_def pms_get_def pms_states_def fun_eq_iff)

lemma demo_keys_match: "keys_match (ds_store demo_driver)"
  by (auto simp: keys_match_def demo_store_get demo_pd_state_def demo_pm_state_eq(2) demo_pd_pos_def demo_pm_pos_def pmKey_def
      split: if_splits)

theorem manage_tracks_positions_witness:
  "pms_get (ds_store demo_driver) (pos_key demo_pd_pos) \<noteq> None
   \<and> pms_get (ds_store (fst (pd_manage demo_env (\<lambda>i j. Rejected) [] demo_driver))) (pos_key demo_pd_pos) = None"
  using manage_tracks_positions [OF demo_keys_match, of demo_env "\<lambda>i j. Rejected" "[]"
      "fst (pd_manage demo_env (\<lambda>i j. Rejected) [] demo_driver)" "snd (pd_manage demo_env (\<lambda>i j. Rejected) [] demo_driver)"]
  by (simp add: demo_store_get pmKey_def)

end
