(* ===== verification/FoldPartials.thy ===== *)
theory FoldPartials
  imports CoreTypes
begin

text \<open>
  The journal view of \<open>src/position/foldPartials.ts\<close>. Records are objects compared by reference, so
  a record is named by its index in the journal.
\<close>

definition samePosition :: "trade_record \<Rightarrow> trade_record \<Rightarrow> bool" where
  "samePosition a b \<longleftrightarrow>
     (if t_decisionId a \<noteq> None \<or> t_decisionId b \<noteq> None then t_decisionId a = t_decisionId b
      else t_symbol a = t_symbol b \<and> t_strategy a = t_strategy b \<and> t_side a = t_side b \<and> js_eq (t_entry a) (t_entry b))"

definition earlier_final :: "trade_record list \<Rightarrow> nat \<Rightarrow> jsnum" where
  "earlier_final all i =
     foldl math_max 0 (map (\<lambda>j. t_closedAt (all ! j))
       (filter (\<lambda>j. \<not> t_partial (all ! j) \<and> j \<noteq> i \<and> t_closedAt (all ! j) < t_closedAt (all ! i)
                  \<and> samePosition (all ! j) (all ! i)) [0..<length all]))"

definition partials_of :: "trade_record list \<Rightarrow> nat \<Rightarrow> nat list" where
  "partials_of all i =
     filter (\<lambda>j. t_partial (all ! j) \<and> t_closedAt (all ! j) \<le> t_closedAt (all ! i)
               \<and> t_closedAt (all ! j) > earlier_final all i \<and> samePosition (all ! j) (all ! i)) [0..<length all]"

definition wholePosition :: "trade_record list \<Rightarrow> nat \<Rightarrow> trade_record" where
  "wholePosition all i =
     (let final = all ! i; partials = map ((!) all) (partials_of all i)
      in if partials = [] then final
         else
           (let qty = foldl (\<lambda>acc t. acc + t_qty t) (t_qty final) partials;
                pnl = foldl (\<lambda>acc t. acc + t_pnl t) (t_pnl final) partials;
                direction = (if t_side final = LONG then 1 else - 1)
            in final\<lparr> t_qty := qty, t_pnl := pnl,
                      t_exit := (if qty > 0 then t_entry final + (direction * pnl) / qty else t_exit final) \<rparr>))"

definition absorbed :: "trade_record list \<Rightarrow> nat \<Rightarrow> bool" where
  "absorbed all j \<longleftrightarrow>
     list_ex (\<lambda>i. \<not> t_partial (all ! i) \<and> partials_of all i \<noteq> [] \<and> t_partial (all ! j)
        \<and> t_closedAt (all ! j) \<le> t_closedAt (all ! i) \<and> samePosition (all ! j) (all ! i) \<and> t_qty (all ! j) > 0)
       [0..<length all]"

definition foldPartials :: "trade_record list \<Rightarrow> trade_record list" where
  "foldPartials all =
     map (\<lambda>i. if t_partial (all ! i) then all ! i else wholePosition all i)
       (filter (\<lambda>i. \<not> absorbed all i) [0..<length all])"

section \<open>Conservation\<close>

lemma foldl_math_max_less:
  assumes "\<forall>x\<in>set xs. x \<noteq> NaN" and "a \<noteq> NaN"
  shows "foldl math_max a xs < (c::jsnum) \<longleftrightarrow> a < c \<and> (\<forall>x\<in>set xs. x < c)"
  using assms
proof (induction xs arbitrary: a)
  case (Cons x xs)
  have "math_max a x < c \<longleftrightarrow> a < c \<and> x < c"
    using Cons.prems by (cases a; cases x; cases c) (auto simp: math_max_def)
  with Cons show ?case by auto
qed simp

lemma samePosition_sym: "samePosition a b \<Longrightarrow> samePosition b a"
  by (auto simp: samePosition_def js_eq_def split: if_splits)

lemma samePosition_trans: "samePosition a b \<Longrightarrow> samePosition b c \<Longrightarrow> samePosition a c"
  by (auto simp: samePosition_def js_eq_def split: if_splits)

text \<open>What the journal guarantees: real close times, real quantities, one final close per position and time.\<close>

definition journal_ok :: "trade_record list \<Rightarrow> bool" where
  "journal_ok all \<longleftrightarrow>
     (\<forall>i<length all. is_finite (t_closedAt (all ! i)) \<and> 0 < t_closedAt (all ! i)
        \<and> (t_partial (all ! i) \<longrightarrow> 0 < t_qty (all ! i)))
   \<and> (\<forall>i<length all. \<forall>j<length all. i \<noteq> j \<and> \<not> t_partial (all ! i) \<and> \<not> t_partial (all ! j)
        \<and> samePosition (all ! i) (all ! j) \<longrightarrow> t_closedAt (all ! i) \<noteq> t_closedAt (all ! j))"

definition finals_of :: "trade_record list \<Rightarrow> nat \<Rightarrow> nat set" where
  "finals_of all j = {i. i < length all \<and> \<not> t_partial (all ! i) \<and> t_closedAt (all ! j) \<le> t_closedAt (all ! i)
     \<and> samePosition (all ! j) (all ! i)}"

lemma journal_ok_time: "journal_ok all \<Longrightarrow> i < length all \<Longrightarrow> \<exists>r. t_closedAt (all ! i) = Fin r"
  by (simp add: journal_ok_def is_finite_iff)

lemma partials_of_iff:
  assumes "journal_ok all" and "i < length all"
  shows "j \<in> set (partials_of all i) \<longleftrightarrow> j < length all \<and> t_partial (all ! j) \<and> t_closedAt (all ! j) \<le> t_closedAt (all ! i)
     \<and> samePosition (all ! j) (all ! i)
     \<and> (\<forall>k<length all. \<not> t_partial (all ! k) \<and> k \<noteq> i \<and> t_closedAt (all ! k) < t_closedAt (all ! i)
          \<and> samePosition (all ! k) (all ! i) \<longrightarrow> t_closedAt (all ! k) < t_closedAt (all ! j))"
proof -
  have "earlier_final all i < t_closedAt (all ! j) \<longleftrightarrow> 0 < t_closedAt (all ! j)
      \<and> (\<forall>k<length all. \<not> t_partial (all ! k) \<and> k \<noteq> i \<and> t_closedAt (all ! k) < t_closedAt (all ! i)
          \<and> samePosition (all ! k) (all ! i) \<longrightarrow> t_closedAt (all ! k) < t_closedAt (all ! j))"
    unfolding earlier_final_def
    by (subst foldl_math_max_less) (auto dest: lt_not_nan)
  with assms(1) show ?thesis by (auto simp: partials_of_def journal_ok_def)
qed

text \<open>Each partial belongs to the first final close at or after it, and to no other.\<close>

lemma partials_of_first:
  assumes "journal_ok all" and "j < length all" and "t_partial (all ! j)" and "finals_of all j \<noteq> {}"
  shows "\<exists>i. i < length all \<and> \<not> t_partial (all ! i) \<and> j \<in> set (partials_of all i)"
proof -
  define tm where "tm i = (case t_closedAt (all ! i) of Fin r \<Rightarrow> r | _ \<Rightarrow> 0)" for i
  have tm: "t_closedAt (all ! i) = Fin (tm i)" if "i < length all" for i
    using assms(1) that by (auto simp: journal_ok_def tm_def is_finite_iff)
  have "finite (finals_of all j)" by (rule finite_subset [of _ "{..<length all}"]) (auto simp: finals_of_def)
  then obtain i where i: "i \<in> finals_of all j" "\<And>k. k \<in> finals_of all j \<Longrightarrow> tm i \<le> tm k"
    using ex_is_arg_min_if_finite [OF _ assms(4), of tm] by (auto simp: is_arg_min_linorder)
  have "t_closedAt (all ! k) < t_closedAt (all ! j)"
    if "k < length all" "\<not> t_partial (all ! k)" "t_closedAt (all ! k) < t_closedAt (all ! i)" "samePosition (all ! k) (all ! i)" for k
  proof (rule ccontr)
    assume "\<not> ?thesis"
    then have "t_closedAt (all ! j) \<le> t_closedAt (all ! k)" using tm [OF that(1)] tm [OF assms(2)] by simp
    moreover have "samePosition (all ! j) (all ! k)"
      using i(1) that(4) by (auto simp: finals_of_def intro: samePosition_trans samePosition_sym)
    ultimately have "k \<in> finals_of all j" using that by (simp add: finals_of_def)
    from i(2) [OF this] that(3) tm [OF that(1)] i(1) tm [of i] show False by (auto simp: finals_of_def)
  qed
  with i(1) assms(2,3) show ?thesis
    by (intro exI [of _ i]) (auto simp: finals_of_def partials_of_iff [OF assms(1)])
qed

lemma partials_of_unique:
  assumes ok: "journal_ok all" and "i < length all" "\<not> t_partial (all ! i)" "j \<in> set (partials_of all i)"
    and "k < length all" "\<not> t_partial (all ! k)" "j \<in> set (partials_of all k)"
  shows "i = k"
proof (rule ccontr)
  assume ne: "i \<noteq> k"
  note ji = assms(4) [unfolded partials_of_iff [OF ok assms(2)]]
  note jk = assms(7) [unfolded partials_of_iff [OF ok assms(5)]]
  have same: "samePosition (all ! i) (all ! k)" "samePosition (all ! k) (all ! i)"
    using ji jk samePosition_trans [OF samePosition_sym] by metis+
  obtain a where a: "t_closedAt (all ! i) = Fin a" using journal_ok_time [OF ok assms(2)] by blast
  obtain b where b: "t_closedAt (all ! k) = Fin b" using journal_ok_time [OF ok assms(5)] by blast
  have "j < length all" using ji by blast
  then obtain c where c: "t_closedAt (all ! j) = Fin c" using journal_ok_time [OF ok] by blast
  note t = a b c
  have "a \<noteq> b" using ok assms(2,3,5,6) same ne t unfolding journal_ok_def by (metis jsnum.inject)
  then consider "t_closedAt (all ! i) < t_closedAt (all ! k)" | "t_closedAt (all ! k) < t_closedAt (all ! i)"
    using t by (cases "a < b") auto
  then show False
  proof cases
    case 1
    then have "t_closedAt (all ! i) < t_closedAt (all ! j)" using jk same(1) assms(2,3) ne by blast
    moreover have "t_closedAt (all ! j) \<le> t_closedAt (all ! i)" using ji by blast
    ultimately show False by (simp add: js_lt_asym)
  next
    case 2
    then have "t_closedAt (all ! k) < t_closedAt (all ! j)" using ji same(2) assms(5,6) ne by blast
    moreover have "t_closedAt (all ! j) \<le> t_closedAt (all ! k)" using jk by blast
    ultimately show False by (simp add: js_lt_asym)
  qed
qed

lemma absorbed_iff:
  assumes "journal_ok all" and "j < length all"
  shows "absorbed all j \<longleftrightarrow> (\<exists>i<length all. \<not> t_partial (all ! i) \<and> j \<in> set (partials_of all i))"
proof
  assume "absorbed all j"
  then have "t_partial (all ! j)" "finals_of all j \<noteq> {}" by (auto simp: absorbed_def list_ex_iff finals_of_def)
  with partials_of_first [OF assms] show "\<exists>i<length all. \<not> t_partial (all ! i) \<and> j \<in> set (partials_of all i)" by blast
next
  assume "\<exists>i<length all. \<not> t_partial (all ! i) \<and> j \<in> set (partials_of all i)"
  then obtain i where i: "i < length all" "\<not> t_partial (all ! i)" "j \<in> set (partials_of all i)" by blast
  note ji = i(3) [unfolded partials_of_iff [OF assms(1) i(1)]]
  have "0 < t_qty (all ! j)" using assms ji unfolding journal_ok_def by blast
  moreover have "partials_of all i \<noteq> []" using i(3) by auto
  ultimately show "absorbed all j"
    unfolding absorbed_def list_ex_iff using ji i(1,2) by (intro bexI [of _ i]) auto
qed

lemma foldl_field_sum: "foldl (\<lambda>acc t. acc + f t) (a::jsnum) ts = a + sum_list (map f ts)"
  by (induction ts arbitrary: a) (auto simp: add.assoc)

lemma wholePosition_pnl:
  "t_pnl (wholePosition all i) = t_pnl (all ! i) + (\<Sum>j\<in>set (partials_of all i). t_pnl (all ! j))"
proof -
  have "distinct (partials_of all i)" by (simp add: partials_of_def)
  then have "(\<Sum>j\<in>set (partials_of all i). t_pnl (all ! j)) = sum_list (map (\<lambda>j. t_pnl (all ! j)) (partials_of all i))"
    by (simp add: sum_list_distinct_conv_sum_set)
  then show ?thesis by (simp add: wholePosition_def foldl_field_sum Let_def o_def)
qed

lemma sum_list_nth: "sum_list (map f xs) = (\<Sum>i<length xs. f (xs ! i))"
  for f :: "'a \<Rightarrow> 'b::comm_monoid_add"
  by (simp add: sum_list_sum_nth atLeast0LessThan)

section \<open>Properties\<close>

text \<open>
  Folding the partials of a journal conserves realised profit: for records with real close times
  and positive partial quantities, where one position does not close twice at the same time, the
  profits of the folded view add up to the profits of the journal; no partial is dropped or counted
  twice, and one whose position is still open stays.
\<close>

theorem foldPartials_conserves_pnl:
  assumes "journal_ok all"
  shows "sum_list (map t_pnl (foldPartials all)) = sum_list (map t_pnl all)"
proof -
  let ?n = "length all" and ?p = "\<lambda>i. t_pnl (all ! i)"
  define F where "F = {i. i < ?n \<and> \<not> t_partial (all ! i)}"
  define A where "A = {j. j < ?n \<and> absorbed all j}"
  define U where "U = {j. j < ?n \<and> t_partial (all ! j) \<and> \<not> absorbed all j}"
  have fin: "finite F" "finite A" "finite U" by (auto simp: F_def A_def U_def)
  have AP: "j \<in> A \<Longrightarrow> t_partial (all ! j)" for j by (auto simp: A_def absorbed_def list_ex_iff)
  have A: "A = (\<Union>i\<in>F. set (partials_of all i))"
    using absorbed_iff [OF assms] by (auto simp: A_def F_def partials_of_def)
  have sumA: "(\<Sum>j\<in>A. ?p j) = (\<Sum>i\<in>F. \<Sum>j\<in>set (partials_of all i). ?p j)"
    unfolding A using fin(1) partials_of_unique [OF assms] by (intro sum.UNION_disjoint) (auto simp: F_def)
  have kept: "{i. i < ?n \<and> \<not> absorbed all i} = F \<union> U" using AP by (auto simp: F_def U_def A_def)
  have "sum_list (map t_pnl (foldPartials all))
      = (\<Sum>i\<in>F \<union> U. if t_partial (all ! i) then ?p i else t_pnl (wholePosition all i))"
    unfolding kept [symmetric] foldPartials_def map_map o_def
    by (subst sum_list_distinct_conv_sum_set) (auto intro!: sum.cong)
  also have "\<dots> = (\<Sum>i\<in>F. t_pnl (wholePosition all i)) + (\<Sum>i\<in>U. ?p i)"
    using fin by (subst sum.union_disjoint) (auto simp: F_def U_def intro!: arg_cong2 [where f = "(+)"] sum.cong)
  also have "\<dots> = (\<Sum>i\<in>F. ?p i) + (\<Sum>j\<in>A. ?p j) + (\<Sum>i\<in>U. ?p i)"
    by (simp add: wholePosition_pnl sum.distrib sumA)
  also have "\<dots> = (\<Sum>i\<in>F \<union> A \<union> U. ?p i)"
  proof -
    have "F \<inter> A = {}" "(F \<union> A) \<inter> U = {}" using AP by (auto simp: F_def U_def A_def)
    with fin show ?thesis by (simp add: sum.union_disjoint)
  qed
  also have "F \<union> A \<union> U = {..<?n}" by (auto simp: F_def A_def U_def)
  finally show ?thesis by (simp add: sum_list_nth)
qed

definition demo_journal :: "trade_record list" where
  "demo_journal =
     (let final = \<lparr> t_symbol = ''BTCUSDT'', t_strategy = STRUCTURE_TREND, t_side = LONG, t_entry = 100, t_exit = 110,
                     t_qty = 6, t_pnl = 60, t_reason = EX_STOP_LOSS, t_closedAt = 2000, t_initialRisk = Some 10,
                     t_decisionId = Some ''d1'', t_partial = False \<rparr>
      in [final\<lparr> t_qty := 4, t_pnl := 48, t_reason := EX_PARTIAL_TP, t_closedAt := 1000, t_partial := True \<rparr>, final])"

theorem foldPartials_conserves_pnl_witness:
  "length (foldPartials demo_journal) = 1 \<and> sum_list (map t_pnl (foldPartials demo_journal)) = 108"
proof
  have ok: "journal_ok demo_journal"
    by (simp add: journal_ok_def demo_journal_def Let_def All_less_Suc)
  from foldPartials_conserves_pnl [OF this] show "sum_list (map t_pnl (foldPartials demo_journal)) = 108"
    by (simp add: demo_journal_def Let_def)
  have up: "[0..<Suc (Suc 0)] = [0, 1]" by (simp add: upt_rec)
  show "length (foldPartials demo_journal) = 1"
    by (simp add: foldPartials_def absorbed_def partials_of_def earlier_final_def samePosition_def demo_journal_def
        Let_def up del: upt_Suc)
qed

end
