(* ===== verification/RiskLimits.thy ===== *)
theory RiskLimits
  imports SymbolRules DecimalOps CoreTypes
begin

text \<open>
  The limits envelope and what is derived from it: the circuit state and its size multiplier
  (\<open>src/risk/riskConfig.ts\<close>), the market and score multipliers (\<open>src/risk/sizeMultipliers.ts\<close>), the
  sizer's contract spec (\<open>src/risk/contractSpec.ts\<close>), the drawdown response
  (\<open>src/risk/drawdownResponse.ts\<close>) and the search for unprotected positions
  (\<open>src/risk/unprotected.ts\<close>).
\<close>

section \<open>Limits\<close>

datatype circuit_state = NORMAL | CAUTION | REDUCED | HALTED | EMERGENCY

record risk_limits =
  rl_maxRiskPerTradePercent :: jsnum
  rl_maxLeverage :: jsnum
  rl_minLeverage :: jsnum
  rl_maxDailyLossPercent :: jsnum
  rl_maxDrawdownPercent :: jsnum
  rl_maxLossStreak :: jsnum
  rl_maxConcurrentPositions :: jsnum
  rl_maxSymbolExposurePercent :: jsnum
  rl_maxPortfolioGrossExposurePercent :: jsnum
  rl_maxCorrelatedExposurePercent :: jsnum
  rl_maxNotionalPerTrade :: jsnum
  rl_minRiskRewardRatio :: jsnum
  rl_feeRateTaker :: jsnum
  rl_slippageBufferRate :: jsnum
  rl_maxPortfolioRiskPercent :: "jsnum option"

text \<open>The environment-driven \<open>config.risk\<close>.\<close>

record risk_env =
  re_riskPerTradePct :: jsnum
  re_maxLeverage :: jsnum
  re_minLeverage :: jsnum
  re_maxDailyLossPct :: jsnum
  re_maxDrawdownPct :: jsnum
  re_maxLossStreak :: jsnum
  re_maxConcurrentPositions :: jsnum
  re_maxSymbolExposurePct :: jsnum
  re_maxExposurePct :: jsnum
  re_maxCorrelatedExposurePct :: jsnum
  re_minRr :: jsnum
  re_takerFeeRate :: jsnum
  re_slippageBufferRate :: jsnum

definition UNCAPPED_NOTIONAL :: jsnum where
  "UNCAPPED_NOTIONAL = 1000000000"

definition riskLimitsFromConfig :: "risk_env \<Rightarrow> jsnum option \<Rightarrow> risk_limits" where
  "riskLimitsFromConfig risk portfolioRiskPct =
     \<lparr> rl_maxRiskPerTradePercent = re_riskPerTradePct risk, rl_maxLeverage = re_maxLeverage risk,
       rl_minLeverage = re_minLeverage risk, rl_maxDailyLossPercent = re_maxDailyLossPct risk,
       rl_maxDrawdownPercent = re_maxDrawdownPct risk, rl_maxLossStreak = re_maxLossStreak risk,
       rl_maxConcurrentPositions = re_maxConcurrentPositions risk,
       rl_maxSymbolExposurePercent = re_maxSymbolExposurePct risk,
       rl_maxPortfolioGrossExposurePercent = re_maxExposurePct risk,
       rl_maxCorrelatedExposurePercent = re_maxCorrelatedExposurePct risk,
       rl_maxNotionalPerTrade = UNCAPPED_NOTIONAL, rl_minRiskRewardRatio = re_minRr risk,
       rl_feeRateTaker = re_takerFeeRate risk, rl_slippageBufferRate = re_slippageBufferRate risk,
       rl_maxPortfolioRiskPercent = portfolioRiskPct \<rparr>"

section \<open>Circuit state\<close>

definition CAUTION_FRACTION :: jsnum where "CAUTION_FRACTION = 1/2"

definition REDUCED_FRACTION :: jsnum where "REDUCED_FRACTION = 3/4"

definition stateForRatio :: "jsnum \<Rightarrow> circuit_state" where
  "stateForRatio ratio =
     (if ratio \<ge> 1 then HALTED else if ratio \<ge> REDUCED_FRACTION then REDUCED
      else if ratio \<ge> CAUTION_FRACTION then CAUTION else NORMAL)"

text \<open>The index in \<open>SEVERITY\<close>.\<close>

fun severity :: "circuit_state \<Rightarrow> nat" where
  "severity NORMAL = 0"
| "severity CAUTION = 1"
| "severity REDUCED = 2"
| "severity HALTED = 3"
| "severity EMERGENCY = 4"

definition worse_of :: "circuit_state \<Rightarrow> circuit_state \<Rightarrow> circuit_state" where
  "worse_of a b = (if severity a < severity b then b else a)"

definition deriveCircuitState :: "jsnum \<Rightarrow> jsnum \<Rightarrow> jsnum \<Rightarrow> risk_limits \<Rightarrow> circuit_state" where
  "deriveCircuitState dailyLossPct drawdownPct lossStreak limits =
     (if rl_maxDrawdownPercent limits > 0 \<and> drawdownPct \<ge> rl_maxDrawdownPercent limits then EMERGENCY
      else worse_of
        (if rl_maxDailyLossPercent limits > 0 then stateForRatio (dailyLossPct / rl_maxDailyLossPercent limits) else NORMAL)
        (if rl_maxLossStreak limits > 0 then stateForRatio (lossStreak / rl_maxLossStreak limits) else NORMAL))"

fun circuitRiskMultiplier :: "circuit_state \<Rightarrow> jsnum" where
  "circuitRiskMultiplier NORMAL = 1"
| "circuitRiskMultiplier CAUTION = 3/4"
| "circuitRiskMultiplier REDUCED = 1/2"
| "circuitRiskMultiplier HALTED = 0"
| "circuitRiskMultiplier EMERGENCY = 0"

section \<open>Clusters\<close>

text \<open>\<open>toUpperCase\<close> on the ASCII letters symbols are made of.\<close>

definition upper_char :: "char \<Rightarrow> char" where
  "upper_char c = (let n = of_char c :: nat in if 97 \<le> n \<and> n \<le> 122 then char_of (n - 32) else c)"

definition startsWith :: "string \<Rightarrow> string \<Rightarrow> bool" where
  "startsWith s p \<longleftrightarrow> take (length p) s = p"

definition clusterOf :: "string \<Rightarrow> string" where
  "clusterOf symbol =
     (let upper = map upper_char symbol
      in if startsWith upper ''BTC'' then ''BTC''
         else if startsWith upper ''ETH'' then ''ETH''
         else if startsWith upper ''SOL'' then ''SOL''
         else if startsWith upper ''XRP'' then ''XRP''
         else ''ALT'')"

section \<open>Size multipliers\<close>

definition volatilityMultiplier :: "jsnum option \<Rightarrow> jsnum" where
  "volatilityMultiplier p =
     (case p of
        None \<Rightarrow> 1
      | Some x \<Rightarrow> if \<not> is_finite x then 1 else if x \<ge> 95 then 1/4 else if x \<ge> 80 then 1/2
                  else if x \<ge> 60 then 3/4 else 1)"

definition scoreMultiplier :: "jsnum option \<Rightarrow> jsnum" where
  "scoreMultiplier s =
     (case s of
        None \<Rightarrow> 1
      | Some x \<Rightarrow> if \<not> is_finite x then 1 else if x < 65 then 1/2 else if x < 75 then 3/4 else 1)"

record size_scaling =
  ss_volatility :: bool
  ss_score :: bool

definition combinedSizeMultiplier :: "size_scaling \<Rightarrow> jsnum option \<Rightarrow> jsnum option \<Rightarrow> jsnum" where
  "combinedSizeMultiplier scaling atrPercentile evidenceScore =
     (if ss_volatility scaling then volatilityMultiplier atrPercentile else 1)
     * (if ss_score scaling then scoreMultiplier evidenceScore else 1)"

section \<open>Contract spec\<close>

record contract_spec =
  cs_symbol :: string
  cs_lotSize :: jsnum
  cs_minQuantity :: jsnum
  cs_maxQuantity :: jsnum
  cs_minNotional :: jsnum
  cs_tickSize :: jsnum
  cs_maxLeverage :: jsnum

definition DEFAULT_MAX_QUANTITY :: jsnum where "DEFAULT_MAX_QUANTITY = 1000000000"

definition contractSpecFor :: "string \<Rightarrow> symbol_rules \<Rightarrow> risk_limits \<Rightarrow> contract_spec" where
  "contractSpecFor symbol rules limits =
     \<lparr> cs_symbol = symbol, cs_lotSize = sr_stepSize rules, cs_minQuantity = sr_minQty rules,
       cs_maxQuantity = DEFAULT_MAX_QUANTITY, cs_minNotional = sr_minNotional rules,
       cs_tickSize = sr_tickSize rules, cs_maxLeverage = rl_maxLeverage limits \<rparr>"

section \<open>Drawdown response\<close>

datatype drawdown_action = DD_block | DD_flatten

datatype dd_reason = DDNone | DDZeroEquity | DDExceeds jsnum jsnum

record drawdown_response =
  dr_breached :: bool
  dr_drawdownPct :: jsnum
  dr_halt :: bool
  dr_closeAll :: bool
  dr_reason :: dd_reason

definition drawdownResponse :: "jsnum \<Rightarrow> jsnum \<Rightarrow> jsnum \<Rightarrow> drawdown_action \<Rightarrow> drawdown_response" where
  "drawdownResponse equity peak maxPct action =
     (if maxPct \<le> 0 then
        \<lparr> dr_breached = (equity \<le> 0), dr_drawdownPct = 0, dr_halt = False, dr_closeAll = False,
          dr_reason = (if equity \<le> 0 then DDZeroEquity else DDNone) \<rparr>
      else
        (let drawdownPct = (if peak > 0 then math_max 0 (((peak - equity) / peak) * 100) else 0);
             breached = (equity \<le> 0 \<or> drawdownPct > maxPct)
         in if \<not> breached
            then \<lparr> dr_breached = breached, dr_drawdownPct = drawdownPct, dr_halt = False, dr_closeAll = False,
                   dr_reason = DDNone \<rparr>
            else \<lparr> dr_breached = breached, dr_drawdownPct = drawdownPct, dr_halt = (action = DD_flatten),
                   dr_closeAll = (action = DD_flatten), dr_reason = DDExceeds drawdownPct maxPct \<rparr>))"

section \<open>Unprotected positions\<close>

record unprotected_position =
  up_symbol :: string
  up_side :: side
  up_owner :: agent_id
  up_notional :: jsnum
  up_equityPct :: jsnum

definition hasStop :: "position \<Rightarrow> bool" where
  "hasStop p \<longleftrightarrow> p_serverSl p \<noteq> Label [] \<and> is_finite (label_number (p_serverSl p)) \<and> label_number (p_serverSl p) > 0"

text \<open>
  \<open>sort\<close> by descending share, stable. The comparator returns \<open>b - a\<close>, so a pair is out of order when
  that difference is positive; a \<open>NaN\<close> share was filtered out before.
\<close>

fun insert_desc :: "unprotected_position \<Rightarrow> unprotected_position list \<Rightarrow> unprotected_position list" where
  "insert_desc u [] = [u]"
| "insert_desc u (v # vs) = (if up_equityPct v > up_equityPct u \<or> up_equityPct v = up_equityPct u
                             then v # insert_desc u vs else u # v # vs)"

definition findUnprotected :: "position list \<Rightarrow> jsnum \<Rightarrow> jsnum \<Rightarrow> unprotected_position list" where
  "findUnprotected positions equity minEquityPct =
     (if \<not> (equity > 0) then []
      else foldl (\<lambda>acc u. insert_desc u acc) []
        (filter (\<lambda>u. up_equityPct u \<ge> minEquityPct)
          (map (\<lambda>p. let notional = abs (p_qty p * p_mark p)
                     in \<lparr> up_symbol = p_symbol p, up_side = p_side p, up_owner = p_strategy p,
                          up_notional = notional, up_equityPct = (notional / equity) * 100 \<rparr>)
            (filter (\<lambda>p. \<not> hasStop p) positions))))"

section \<open>Lemmas\<close>

lemma stateForRatio_mono: "a \<le> b \<Longrightarrow> severity (stateForRatio a) \<le> severity (stateForRatio b)"
  by (cases a; cases b) (auto simp: stateForRatio_def REDUCED_FRACTION_def CAUTION_FRACTION_def)

lemma severity_worse_of: "severity (worse_of a b) = max (severity a) (severity b)"
  by (simp add: worse_of_def max_def)

lemma stateForRatio_halted: "severity (stateForRatio r) < 3 \<longleftrightarrow> \<not> 1 \<le> r"
  by (auto simp: stateForRatio_def)

lemma js_div_mono: "a \<le> b \<Longrightarrow> 0 < (c::jsnum) \<Longrightarrow> c \<noteq> PInf \<Longrightarrow> a / c \<le> b / c"
  by (cases a; cases b; cases c) (auto simp: divide_right_mono)

lemma js_div_ge_one: "0 < (c::jsnum) \<Longrightarrow> c \<noteq> PInf \<Longrightarrow> 1 \<le> a / c \<longleftrightarrow> c \<le> a"
  by (cases a; cases c) auto

lemma circuitRiskMultiplier_le_one: "0 \<le> circuitRiskMultiplier c \<and> circuitRiskMultiplier c \<le> 1"
  by (cases c) auto

lemma circuitRiskMultiplier_mono: "severity a \<le> severity b \<Longrightarrow> circuitRiskMultiplier b \<le> circuitRiskMultiplier a"
  by (cases a; cases b) auto

lemma combined_cases:
  "combinedSizeMultiplier sc a e \<in> Fin ` {1/8, 3/16, 1/4, 3/8, 1/2, 9/16, 3/4, 1}"
  by (auto simp: combinedSizeMultiplier_def volatilityMultiplier_def scoreMultiplier_def split: option.splits)

lemma insert_desc_set [simp]: "set (insert_desc u us) = insert u (set us)"
  by (induction us) auto

lemma foldl_insert_desc_set: "set (foldl (\<lambda>acc u. insert_desc u acc) acc us) = set acc \<union> set us"
  by (induction us arbitrary: acc) auto

section \<open>Properties\<close>

text \<open>
  The circuit only tightens when things get worse: with finite positive limits, a larger daily
  loss, drawdown or loss streak never gives a less severe state nor a larger size multiplier.
\<close>

theorem circuit_state_monotone:
  assumes "d \<le> d'" and "dd \<le> dd'" and "k \<le> k'"
    and "rl_maxDailyLossPercent limits \<noteq> PInf" and "rl_maxLossStreak limits \<noteq> PInf"
  shows "severity (deriveCircuitState d dd k limits) \<le> severity (deriveCircuitState d' dd' k' limits)
    \<and> circuitRiskMultiplier (deriveCircuitState d' dd' k' limits) \<le> circuitRiskMultiplier (deriveCircuitState d dd k limits)"
proof -
  have "severity (deriveCircuitState d dd k limits) \<le> severity (deriveCircuitState d' dd' k' limits)"
  proof (cases "rl_maxDrawdownPercent limits > 0 \<and> rl_maxDrawdownPercent limits \<le> dd'")
    case True
    then have "severity (deriveCircuitState d' dd' k' limits) = 4" by (simp add: deriveCircuitState_def)
    moreover have "severity s \<le> 4" for s by (cases s) auto
    ultimately show ?thesis by simp
  next
    case False
    then have "\<not> (rl_maxDrawdownPercent limits > 0 \<and> rl_maxDrawdownPercent limits \<le> dd)"
      using assms(2) by (auto intro: js_le_trans)
    moreover have "severity (stateForRatio (d / rl_maxDailyLossPercent limits))
        \<le> severity (stateForRatio (d' / rl_maxDailyLossPercent limits))" if "0 < rl_maxDailyLossPercent limits"
      using assms(1,4) that by (intro stateForRatio_mono js_div_mono)
    moreover have "severity (stateForRatio (k / rl_maxLossStreak limits))
        \<le> severity (stateForRatio (k' / rl_maxLossStreak limits))" if "0 < rl_maxLossStreak limits"
      using assms(3,5) that by (intro stateForRatio_mono js_div_mono)
    ultimately show ?thesis
      using False by (auto simp: deriveCircuitState_def severity_worse_of le_max_iff_disj simp del: js_consts)
  qed
  then show ?thesis by (simp add: circuitRiskMultiplier_mono)
qed

theorem circuit_state_monotone_witness:
  "severity (deriveCircuitState 1 2 0 (riskLimitsFromConfig
      \<lparr> re_riskPerTradePct = 1, re_maxLeverage = 10, re_minLeverage = 1, re_maxDailyLossPct = 3, re_maxDrawdownPct = 15,
        re_maxLossStreak = 4, re_maxConcurrentPositions = 5, re_maxSymbolExposurePct = 100, re_maxExposurePct = 300,
        re_maxCorrelatedExposurePct = 200, re_minRr = 3/2, re_takerFeeRate = 4/10000, re_slippageBufferRate = 2/10000 \<rparr> None))
   \<le> severity (deriveCircuitState (5/2) 2 3 (riskLimitsFromConfig
      \<lparr> re_riskPerTradePct = 1, re_maxLeverage = 10, re_minLeverage = 1, re_maxDailyLossPct = 3, re_maxDrawdownPct = 15,
        re_maxLossStreak = 4, re_maxConcurrentPositions = 5, re_maxSymbolExposurePct = 100, re_maxExposurePct = 300,
        re_maxCorrelatedExposurePct = 200, re_minRr = 3/2, re_takerFeeRate = 4/10000, re_slippageBufferRate = 2/10000 \<rparr> None))"
  by (rule circuit_state_monotone [THEN conjunct1]) (simp_all add: riskLimitsFromConfig_def)

text \<open>The multipliers only ever shrink the budget, and never to zero.\<close>

lemma size_multiplier_shrinks:
  "0 < combinedSizeMultiplier sc a e \<and> combinedSizeMultiplier sc a e \<le> 1"
  using combined_cases [of sc a e] by auto

text \<open>
  Every position without a working stop whose notional reaches the threshold is reported, and
  nothing else: a symbol is in the report exactly when some position has it, has no numeric
  positive stop, and holds at least the given share of a positive equity.
\<close>

theorem findUnprotected_complete:
  "up_symbol ` set (findUnprotected positions equity minPct)
     = p_symbol ` {p \<in> set positions. 0 < equity \<and> \<not> hasStop p \<and> minPct \<le> (abs (p_qty p * p_mark p) / equity) * 100}"
  by (auto simp: findUnprotected_def foldl_insert_desc_set Let_def simp del: js_consts intro!: rev_image_eqI)

text \<open>
  A drawdown never closes the book unless the limit is set, the account is past it or empty, and
  the operator chose to flatten; and with a positive limit an account at zero equity always counts
  as breached.
\<close>

theorem drawdown_response_decides:
  "(dr_closeAll (drawdownResponse equity peak maxPct action)
      = (\<not> maxPct \<le> 0 \<and> action = DD_flatten \<and> dr_breached (drawdownResponse equity peak maxPct action)))
   \<and> dr_halt (drawdownResponse equity peak maxPct action) = dr_closeAll (drawdownResponse equity peak maxPct action)
   \<and> (equity \<le> 0 \<longrightarrow> dr_breached (drawdownResponse equity peak maxPct action))
   \<and> (0 < maxPct \<and> 0 < equity \<and> 0 < peak \<and> peak \<noteq> PInf \<and> equity \<noteq> PInf \<and> dr_breached (drawdownResponse equity peak maxPct action)
        \<longrightarrow> ((peak - equity) / peak) * 100 > maxPct)"
  by (cases maxPct; cases equity; cases peak)
    (auto simp: drawdownResponse_def Let_def math_max_def inf_sign_def split: if_splits)

theorem drawdown_response_decides_witness:
  "dr_breached (drawdownResponse 0 100 10 DD_block) \<and> (100 - 80) / 100 * 100 > (10::jsnum)"
proof
  show "dr_breached (drawdownResponse 0 100 10 DD_block)"
    using drawdown_response_decides [of 0 100 10 DD_block] by simp
  have "dr_breached (drawdownResponse 80 100 10 DD_flatten)"
    by (simp add: drawdownResponse_def Let_def)
  then show "(100 - 80) / 100 * 100 > (10::jsnum)"
    using drawdown_response_decides [of 80 100 10 DD_flatten] by simp
qed

end
