(* ===== verification/PositionSizer.thy ===== *)
theory PositionSizer
  imports RiskLimits
begin

text \<open>
  The sizing pipeline of \<open>src/risk/positionSizer.ts\<close>. The operations of \<open>decimal.js\<close> are the
  parameter \<open>D\<close>; the comparisons of \<open>Decimal\<close>s are those of the numbers they hold.
\<close>

section \<open>Data\<close>

record sizing_input =
  si_equity :: jsnum
  si_availableMargin :: jsnum
  si_direction :: side
  si_entry :: jsnum
  si_stop :: jsnum
  si_requestedLeverage :: jsnum
  si_fundingRate :: "jsnum option"
  si_fundingPeriods :: "jsnum option"
  si_spec :: contract_spec
  si_limits :: risk_limits
  si_circuitMultiplier :: jsnum
  si_riskMultiplier :: "jsnum option"

datatype finite_field =
    F_equity | F_availableMargin | F_entry | F_stop | F_requestedLeverage | F_circuitMultiplier
  | F_riskMultiplier | F_fundingRate

datatype rejection =
    NonFiniteInput finite_field
  | ZeroRiskBudget
  | StopDistanceNotPositive
  | QuantityBelowMin jsnum jsnum
  | MinNotionalExceedsBudget
  | CapBelowMinQuantity
  | CapBelowMinNotional
  | InsufficientMargin
  | RiskExceedsBudget

datatype warning = BumpedToMinNotional | ReducedByNotionalCap

record sizing_result =
  sr_ok :: bool
  sr_rejection :: "rejection option"
  sr_quantity :: jsnum
  sr_notional :: jsnum
  sr_marginRequired :: jsnum
  sr_leverage :: jsnum
  sr_riskAmount :: jsnum
  sr_effectiveRiskPerUnit :: jsnum
  sr_feePerUnit :: jsnum
  sr_fundingPerUnit :: jsnum
  sr_warnings :: "warning list"

record cost_model =
  cm_feePerUnit :: jsnum
  cm_fundingPerUnit :: jsnum
  cm_effectiveRiskPerUnit :: jsnum

definition RISK_BUDGET_TOLERANCE :: jsnum where "RISK_BUDGET_TOLERANCE = 102/100"

definition DEFAULT_FUNDING_PERIODS :: jsnum where "DEFAULT_FUNDING_PERIODS = 3"

definition ROUND_TRIP_LEGS :: jsnum where "ROUND_TRIP_LEGS = 2"

definition or_else :: "'a option \<Rightarrow> 'a \<Rightarrow> 'a" where
  "or_else x d = (case x of None \<Rightarrow> d | Some v \<Rightarrow> v)"

section \<open>Stages\<close>

definition clampedLeverage :: "sizing_input \<Rightarrow> jsnum" where
  "clampedLeverage input =
     math_min (math_min (si_requestedLeverage input) (rl_maxLeverage (si_limits input))) (cs_maxLeverage (si_spec input))"

definition failed_with :: "jsnum \<Rightarrow> rejection \<Rightarrow> warning list \<Rightarrow> sizing_result" where
  "failed_with leverage why warnings =
     \<lparr> sr_ok = False, sr_rejection = Some why, sr_quantity = 0, sr_notional = 0, sr_marginRequired = 0,
       sr_leverage = leverage, sr_riskAmount = 0, sr_effectiveRiskPerUnit = 0, sr_feePerUnit = 0,
       sr_fundingPerUnit = 0, sr_warnings = warnings \<rparr>"

definition sz_fail :: "sizing_input \<Rightarrow> rejection \<Rightarrow> warning list \<Rightarrow> sizing_result" where
  "sz_fail input why warnings = failed_with (clampedLeverage input) why warnings"

definition failedSizing :: "rejection \<Rightarrow> sizing_result" where
  "failedSizing why = failed_with 0 why []"

fun field_value :: "sizing_input \<Rightarrow> finite_field \<Rightarrow> jsnum option" where
  "field_value i F_equity = Some (si_equity i)"
| "field_value i F_availableMargin = Some (si_availableMargin i)"
| "field_value i F_entry = Some (si_entry i)"
| "field_value i F_stop = Some (si_stop i)"
| "field_value i F_requestedLeverage = Some (si_requestedLeverage i)"
| "field_value i F_circuitMultiplier = Some (si_circuitMultiplier i)"
| "field_value i F_riskMultiplier = si_riskMultiplier i"
| "field_value i F_fundingRate = si_fundingRate i"

definition FINITE_FIELDS :: "finite_field list" where
  "FINITE_FIELDS = [F_equity, F_availableMargin, F_entry, F_stop, F_requestedLeverage, F_circuitMultiplier,
     F_riskMultiplier, F_fundingRate]"

definition firstNonFinite :: "sizing_input \<Rightarrow> finite_field option" where
  "firstNonFinite input =
     find (\<lambda>f. case field_value input f of None \<Rightarrow> False | Some v \<Rightarrow> \<not> is_finite v) FINITE_FIELDS"

definition buildCosts :: "dec_ops \<Rightarrow> sizing_input \<Rightarrow> jsnum \<Rightarrow> cost_model" where
  "buildCosts D input stopDistance =
     (let entry = si_entry input;
          feeRate = rl_feeRateTaker (si_limits input) + rl_slippageBufferRate (si_limits input);
          feePerUnit = d_times D (d_times D entry feeRate) ROUND_TRIP_LEGS;
          periods = or_else (si_fundingPeriods input) DEFAULT_FUNDING_PERIODS;
          fundingPerUnit = d_times D (d_times D entry (abs (or_else (si_fundingRate input) 0))) periods
      in \<lparr> cm_feePerUnit = feePerUnit, cm_fundingPerUnit = fundingPerUnit,
           cm_effectiveRiskPerUnit = stopDistance + feePerUnit + fundingPerUnit \<rparr>)"

definition raiseToMinNotional ::
  "dec_ops \<Rightarrow> jsnum \<Rightarrow> sizing_input \<Rightarrow> jsnum \<Rightarrow> cost_model \<Rightarrow> rejection + (jsnum \<times> warning list)" where
  "raiseToMinNotional D qty input riskBudget costs =
     (let entry = si_entry input; spec = si_spec input
      in if d_times D qty entry \<ge> cs_minNotional spec then Inr (qty, [])
         else
           (let minQty = ceilToStep D (d_div D (cs_minNotional spec) entry) (cs_lotSize spec);
                bumped = (if minQty \<ge> cs_minQuantity spec then minQty else cs_minQuantity spec)
            in if d_times D bumped (cm_effectiveRiskPerUnit costs) > d_times D riskBudget RISK_BUDGET_TOLERANCE
               then Inl MinNotionalExceedsBudget
               else Inr (bumped, [BumpedToMinNotional])))"

definition capNotional :: "dec_ops \<Rightarrow> jsnum \<Rightarrow> sizing_input \<Rightarrow> rejection + (jsnum \<times> warning list)" where
  "capNotional D qty input =
     (let entry = si_entry input; spec = si_spec input;
          cap = math_min (rl_maxNotionalPerTrade (si_limits input)) (cs_maxQuantity spec * entry)
      in if d_times D qty entry \<le> cap then Inr (qty, [])
         else
           (let reduced = floorToStep D (d_div D cap entry) (cs_lotSize spec)
            in if reduced < cs_minQuantity spec then Inl CapBelowMinQuantity
               else if d_times D reduced entry < cs_minNotional spec then Inl CapBelowMinNotional
               else Inr (reduced, [ReducedByNotionalCap])))"

text \<open>
  A failure carries the warnings pushed before it: the shared \<open>warnings\<close> array of the source.
\<close>

definition resolveQuantity ::
  "dec_ops \<Rightarrow> sizing_input \<Rightarrow> jsnum \<Rightarrow> cost_model \<Rightarrow> (rejection \<times> warning list) + (jsnum \<times> warning list)" where
  "resolveQuantity D input riskBudget costs =
     (let rawQty = d_div D riskBudget (cm_effectiveRiskPerUnit costs);
          floored = floorToStep D rawQty (cs_lotSize (si_spec input))
      in if floored < cs_minQuantity (si_spec input)
         then Inl (QuantityBelowMin floored (cs_minQuantity (si_spec input)), [])
         else (case raiseToMinNotional D floored input riskBudget costs of
                 Inl why \<Rightarrow> Inl (why, [])
               | Inr (raised, w1) \<Rightarrow>
                   (case capNotional D raised input of
                      Inl why \<Rightarrow> Inl (why, w1 @ [ReducedByNotionalCap])
                    | Inr (capped, w2) \<Rightarrow> Inr (capped, w1 @ w2))))"

definition buildAcceptedSizing ::
  "sizing_input \<Rightarrow> jsnum \<Rightarrow> jsnum \<Rightarrow> cost_model \<Rightarrow> warning list \<Rightarrow> sizing_result" where
  "buildAcceptedSizing input qty riskBudget costs warnings =
     (let notional = qty * si_entry input;
          leverage = math_max 1 (clampedLeverage input);
          marginRequired = notional / leverage;
          riskAmount = qty * cm_effectiveRiskPerUnit costs
      in if marginRequired > si_availableMargin input then sz_fail input InsufficientMargin warnings
         else if riskAmount > riskBudget * RISK_BUDGET_TOLERANCE then sz_fail input RiskExceedsBudget warnings
         else \<lparr> sr_ok = True, sr_rejection = None, sr_quantity = qty, sr_notional = notional,
                sr_marginRequired = marginRequired, sr_leverage = leverage, sr_riskAmount = riskAmount,
                sr_effectiveRiskPerUnit = cm_effectiveRiskPerUnit costs, sr_feePerUnit = cm_feePerUnit costs,
                sr_fundingPerUnit = cm_fundingPerUnit costs, sr_warnings = warnings \<rparr>)"

definition riskBudgetOf :: "dec_ops \<Rightarrow> sizing_input \<Rightarrow> jsnum" where
  "riskBudgetOf D input =
     d_times D (d_times D (d_div D (d_times D (si_equity input) (rl_maxRiskPerTradePercent (si_limits input))) 100)
        (si_circuitMultiplier input)) (math_min 1 (or_else (si_riskMultiplier input) 1))"

definition sizePosition :: "dec_ops \<Rightarrow> sizing_input \<Rightarrow> sizing_result" where
  "sizePosition D input =
     (case firstNonFinite input of
        Some f \<Rightarrow> failedSizing (NonFiniteInput f)
      | None \<Rightarrow>
          (let riskBudget = riskBudgetOf D input;
               stopDistance = abs (si_entry input - si_stop input)
           in if riskBudget \<le> 0 then sz_fail input ZeroRiskBudget []
              else if stopDistance \<le> 0 then sz_fail input StopDistanceNotPositive []
              else
                (let costs = buildCosts D input stopDistance
                 in case resolveQuantity D input riskBudget costs of
                      Inl (why, w) \<Rightarrow> sz_fail input why w
                    | Inr (qty, w) \<Rightarrow> buildAcceptedSizing input qty riskBudget costs w)))"

section \<open>What each stage guarantees\<close>

text \<open>Finite, non-negative exchange rules, limits and cost rates.\<close>

definition sizing_setup :: "sizing_input \<Rightarrow> bool" where
  "sizing_setup i \<longleftrightarrow>
     list_all (\<lambda>x. is_finite x \<and> 0 \<le> x)
       [cs_minQuantity (si_spec i), cs_maxQuantity (si_spec i), cs_minNotional (si_spec i),
        rl_maxNotionalPerTrade (si_limits i), rl_feeRateTaker (si_limits i), rl_slippageBufferRate (si_limits i),
        or_else (si_fundingPeriods i) DEFAULT_FUNDING_PERIODS]
   \<and> is_finite (cs_lotSize (si_spec i)) \<and> is_finite (rl_maxRiskPerTradePercent (si_limits i))
   \<and> is_finite (rl_maxLeverage (si_limits i)) \<and> is_finite (cs_maxLeverage (si_spec i))
   \<and> 0 < si_entry i"

text \<open>A quantity on the lot grid, or the exchange's minimum quantity itself.\<close>

definition on_lot_grid :: "dec_ops \<Rightarrow> contract_spec \<Rightarrow> jsnum \<Rightarrow> bool" where
  "on_lot_grid D spec q \<longleftrightarrow>
     q = cs_minQuantity spec \<or> (\<exists>k::int. 0 \<le> k \<and> q = d_times D (Fin (of_int k)) (cs_lotSize spec))"

lemma raise_sound:
  assumes D: "decimal_rounds D" "decimal_laws D"
    and "raiseToMinNotional D (Fin q) i b costs = Inr (r, w)"
    and "cs_minQuantity (si_spec i) = Fin mq" "cs_minNotional (si_spec i) = Fin mn" "cs_lotSize (si_spec i) = Fin l"
    and "si_entry i = Fin e" and "0 < e" and "0 \<le> mn" and "mq \<le> q" and "0 \<le> q" and "0 \<le> mq"
    and grid: "0 < l \<Longrightarrow> on_lot_grid D (si_spec i) (Fin q)"
  shows "\<exists>x. r = Fin x \<and> mq \<le> x \<and> 0 \<le> x \<and> (1 - slack) * mn \<le> x * e \<and> (0 < l \<longrightarrow> on_lot_grid D (si_spec i) (Fin x))"
proof (cases "d_times D (Fin q) (Fin e) \<ge> Fin mn")
  case True
  obtain t where t: "d_times D (Fin q) (Fin e) = Fin t" "t \<le> (1 + digit40) * (q * e)"
    using times_rounded [OF D(1), of q e] assms(8,11) by (auto elim: rounds_toE)
  have "(1 - slack) * mn \<le> (1 - slack) * ((1 + digit40) * (q * e))"
    using True t slack_covers(2) by (intro mult_left_mono) simp_all
  also have "\<dots> = (1 - slack) * (1 + digit40) * (q * e)" by simp
  also have "\<dots> \<le> 1 * (q * e)" using slack_covers(9) assms(8,11) by (intro mult_right_mono) simp_all
  finally have "(1 - slack) * mn \<le> q * e" by simp
  moreover have "r = Fin q" using True assms(3,5,7) by (simp add: raiseToMinNotional_def Let_def)
  ultimately show ?thesis using assms(10,11) grid by simp
next
  case False
  obtain c0 where c0: "d_div D (Fin mn) (Fin e) = Fin c0" "(1 - digit40) * (mn / e) \<le> c0" "0 \<le> c0"
    using div_rounded [OF D(1), of e mn] assms(8,9) by (auto elim: rounds_toE)
  obtain c where c: "ceilToStep D (Fin c0) (Fin l) = Fin c" "(1 - digit40) * ((1 - digit40) * c0) \<le> c"
    "0 < l \<Longrightarrow> \<exists>k::int. 0 \<le> k \<and> Fin c = d_times D (Fin (of_int k)) (Fin l)"
    by (rule ceilToStep_rounded [OF D c0(3)]) blast
  have "(1 - slack) * (mn / e) \<le> (1 - digit40) * ((1 - digit40) * (1 - digit40)) * (mn / e)"
    using slack_covers(7) assms(8,9) by (intro mult_right_mono) simp_all
  also have "\<dots> = (1 - digit40) * ((1 - digit40) * ((1 - digit40) * (mn / e)))" by simp
  also have "\<dots> \<le> (1 - digit40) * ((1 - digit40) * c0)"
    using c0(2) slack_covers(4) by (intro mult_left_mono) simp_all
  also have "\<dots> \<le> c" by (rule c(2))
  finally have "(1 - slack) * (mn / e) * e \<le> c * e" using assms(8) by (intro mult_right_mono) simp_all
  then have ce: "(1 - slack) * mn \<le> c * e" using assms(8) by simp
  have "(1 - slack) * mn \<le> mq * e" if "c \<le> mq"
    using mult_right_mono [OF that, of e] ce assms(8) by linarith
  moreover have "0 < l \<Longrightarrow> on_lot_grid D (si_spec i) (Fin c)" "on_lot_grid D (si_spec i) (Fin mq)"
    using c(3) assms(4,6) by (auto simp: on_lot_grid_def)
  ultimately show ?thesis
    using False assms(3,12) ce by (auto simp: raiseToMinNotional_def assms(4-7) c0(1) c(1) Let_def split: if_splits)
qed

lemma cap_sound:
  assumes D: "decimal_rounds D" "decimal_laws D" and "capNotional D (Fin q) i = Inr (r, w)"
    and "cs_minQuantity (si_spec i) = Fin mq" "cs_minNotional (si_spec i) = Fin mn" "cs_lotSize (si_spec i) = Fin l"
    and "si_entry i = Fin e" and "0 < e" and "mq \<le> q" and "0 \<le> q" and "(1 - slack) * mn \<le> q * e" and "0 \<le> mn"
    and "math_min (rl_maxNotionalPerTrade (si_limits i)) (cs_maxQuantity (si_spec i) * Fin e) = Fin cap" and "0 \<le> cap"
    and grid: "0 < l \<Longrightarrow> on_lot_grid D (si_spec i) (Fin q)"
  shows "\<exists>x. r = Fin x \<and> mq \<le> x \<and> (1 - slack) * mn \<le> x * e \<and> x * e \<le> (1 + slack) * cap
    \<and> (0 < l \<longrightarrow> on_lot_grid D (si_spec i) (Fin x))"
proof (cases "d_times D (Fin q) (Fin e) \<le> Fin cap")
  case True
  obtain t where t: "d_times D (Fin q) (Fin e) = Fin t" "(1 - digit40) * (q * e) \<le> t"
    using times_rounded [OF D(1), of q e] assms(8,10) by (auto elim: rounds_toE)
  have "1 * (q * e) \<le> (1 + slack) * (1 - digit40) * (q * e)"
    using slack_covers(8) assms(8,10) by (intro mult_right_mono) simp_all
  also have "\<dots> = (1 + slack) * ((1 - digit40) * (q * e))" by simp
  also have "\<dots> \<le> (1 + slack) * cap" using True t slack_covers(1) by (intro mult_left_mono) simp_all
  finally have "q * e \<le> (1 + slack) * cap" by simp
  moreover have "r = Fin q" using True assms(3,7,13) by (simp add: capNotional_def Let_def)
  ultimately show ?thesis using assms(9,11) grid by simp
next
  case False
  obtain c0 where c0: "d_div D (Fin cap) (Fin e) = Fin c0" "c0 \<le> (1 + digit40) * (cap / e)" "0 \<le> c0"
    using div_rounded [OF D(1), of e cap] assms(8,14) by (auto elim: rounds_toE)
  obtain f where f: "floorToStep D (Fin c0) (Fin l) = Fin f" "0 \<le> f" "f \<le> (1 + digit40) * ((1 + digit40) * c0)"
    "0 < l \<Longrightarrow> \<exists>k::int. 0 \<le> k \<and> Fin f = d_times D (Fin (of_int k)) (Fin l)"
    by (rule floorToStep_rounded [OF D c0(3)]) blast
  have "f \<le> (1 + digit40) * ((1 + digit40) * ((1 + digit40) * (cap / e)))"
    using f(3) c0(2) slack_covers(3) by (elim order_trans) (intro mult_left_mono; simp)
  also have "\<dots> = (1 + digit40) * ((1 + digit40) * (1 + digit40)) * (cap / e)" by simp
  also have "\<dots> \<le> (1 + slack) * (cap / e)" using slack_covers(6) assms(8,14) by (intro mult_right_mono) simp_all
  finally have "f * e \<le> (1 + slack) * (cap / e) * e" using assms(8) by (intro mult_right_mono) simp_all
  then have fe: "f * e \<le> (1 + slack) * cap" using assms(8) by simp
  obtain t where t: "d_times D (Fin f) (Fin e) = Fin t" "t \<le> (1 + digit40) * (f * e)"
    using times_rounded [OF D(1), of f e] assms(8) f(2) by (auto elim: rounds_toE)
  have mn: "(1 - slack) * mn \<le> f * e" if "mn \<le> t"
  proof -
    have "(1 - slack) * mn \<le> (1 - slack) * ((1 + digit40) * (f * e))"
      using that t slack_covers(2) by (intro mult_left_mono) simp_all
    also have "\<dots> = (1 - slack) * (1 + digit40) * (f * e)" by simp
    also have "\<dots> \<le> 1 * (f * e)" using slack_covers(9) assms(8) f(2) by (intro mult_right_mono) simp_all
    finally show ?thesis by simp
  qed
  have "0 < l \<Longrightarrow> on_lot_grid D (si_spec i) (Fin f)" using f(4) assms(6) by (auto simp: on_lot_grid_def)
  then show ?thesis
    using False assms(3,13) fe mn t(1)
    by (auto simp: capNotional_def assms(4-7) c0(1) f(1) Let_def split: if_splits)
qed

lemma resolve_sound:
  assumes D: "decimal_rounds D" "decimal_laws D" and "resolveQuantity D i (Fin b) costs = Inr (r, w)"
    and "sizing_setup i" and "si_entry i = Fin e" and "cm_effectiveRiskPerUnit costs = Fin u" and "0 < u" and "0 < b"
  shows "\<exists>x mq mn cap l. r = Fin x \<and> cs_minQuantity (si_spec i) = Fin mq \<and> cs_minNotional (si_spec i) = Fin mn
     \<and> math_min (rl_maxNotionalPerTrade (si_limits i)) (cs_maxQuantity (si_spec i) * Fin e) = Fin cap
     \<and> cs_lotSize (si_spec i) = Fin l
     \<and> 0 \<le> mq \<and> mq \<le> x \<and> (1 - slack) * mn \<le> x * e \<and> x * e \<le> (1 + slack) * cap
     \<and> (0 < l \<longrightarrow> on_lot_grid D (si_spec i) (Fin x))"
proof -
  obtain mq mn xq xn l where v: "cs_minQuantity (si_spec i) = Fin mq" "cs_minNotional (si_spec i) = Fin mn"
      "cs_maxQuantity (si_spec i) = Fin xq" "rl_maxNotionalPerTrade (si_limits i) = Fin xn" "cs_lotSize (si_spec i) = Fin l"
    and nn: "0 \<le> mq" "0 \<le> mn" "0 \<le> xq" "0 \<le> xn" and e: "0 < e"
    using assms(4,5) by (auto simp: sizing_setup_def is_finite_iff)
  obtain q0 where q0: "d_div D (Fin b) (Fin u) = Fin q0" "0 \<le> q0"
    using div_rounded [OF D(1), of u b] assms(7,8) by (auto elim: rounds_toE)
  obtain f where f: "floorToStep D (Fin q0) (Fin l) = Fin f" "0 \<le> f"
    "0 < l \<Longrightarrow> \<exists>k::int. 0 \<le> k \<and> Fin f = d_times D (Fin (of_int k)) (Fin l)"
    by (rule floorToStep_rounded [OF D q0(2)]) blast
  have g: "0 < l \<Longrightarrow> on_lot_grid D (si_spec i) (Fin f)" using f(3) v(5) by (auto simp: on_lot_grid_def)
  obtain q1 w1 w2 where r: "mq \<le> f" "raiseToMinNotional D (Fin f) i (Fin b) costs = Inr (q1, w1)"
      "capNotional D q1 i = Inr (r, w2)"
    using assms(3,6) f(1) q0(1) v by (auto simp: resolveQuantity_def Let_def split: if_splits sum.splits)
  obtain y where y: "q1 = Fin y" "mq \<le> y" "0 \<le> y" "(1 - slack) * mn \<le> y * e" "0 < l \<Longrightarrow> on_lot_grid D (si_spec i) (Fin y)"
    using raise_sound [OF D r(2) v(1,2,5) assms(5) e nn(2) r(1) f(2) nn(1) g] by auto
  have cap: "math_min (rl_maxNotionalPerTrade (si_limits i)) (cs_maxQuantity (si_spec i) * Fin e) = Fin (min xn (xq * e))"
    "0 \<le> min xn (xq * e)"
    using v nn e by simp_all
  from cap_sound [OF D r(3) [unfolded y(1)] v(1,2,5) assms(5) e y(2-4) nn(2) cap y(5)] v nn cap show ?thesis by auto
qed

lemma firstNonFinite_None:
  assumes "firstNonFinite i = None"
  shows "is_finite (si_equity i) \<and> is_finite (si_availableMargin i) \<and> is_finite (si_entry i) \<and> is_finite (si_stop i)
    \<and> is_finite (si_requestedLeverage i) \<and> is_finite (si_circuitMultiplier i)
    \<and> is_finite (or_else (si_riskMultiplier i) 1) \<and> is_finite (or_else (si_fundingRate i) 0)"
  using assms by (auto simp: firstNonFinite_def FINITE_FIELDS_def or_else_def split: option.splits if_splits)

text \<open>An accepted size went through every stage.\<close>

lemma sizePosition_ok_stages:
  assumes "sr_ok (sizePosition D i)"
  obtains costs qty w where
    "firstNonFinite i = None" "\<not> riskBudgetOf D i \<le> 0" "\<not> abs (si_entry i - si_stop i) \<le> 0"
    "costs = buildCosts D i (abs (si_entry i - si_stop i))"
    "resolveQuantity D i (riskBudgetOf D i) costs = Inr (qty, w)"
    "sizePosition D i = buildAcceptedSizing i qty (riskBudgetOf D i) costs w"
    "\<not> qty * si_entry i / math_max 1 (clampedLeverage i) > si_availableMargin i"
    "\<not> qty * cm_effectiveRiskPerUnit costs > riskBudgetOf D i * RISK_BUDGET_TOLERANCE"
  using assms
  by (auto simp: sizePosition_def sz_fail_def failedSizing_def failed_with_def buildAcceptedSizing_def Let_def
      simp del: js_consts split: option.splits if_splits sum.splits prod.splits)

text \<open>With finite rates the budget and the cost per unit are finite and positive.\<close>

lemma times_finite:
  assumes "decimal_rounds D" shows "\<exists>r. d_times D (Fin a) (Fin b) = Fin r"
  using times_rounded [OF assms, of a b] by (auto simp: rounds_to_def)

lemma times_nonneg:
  assumes "decimal_rounds D" and "0 \<le> a" and "0 \<le> b"
  shows "\<exists>r. d_times D (Fin a) (Fin b) = Fin r \<and> 0 \<le> r"
  using times_rounded [OF assms(1), of a b] assms(2,3) by (auto elim: rounds_toE)

lemma div_finite:
  assumes "decimal_rounds D" and "b \<noteq> 0" shows "\<exists>r. d_div D (Fin a) (Fin b) = Fin r"
  using div_rounded [OF assms, of a] by (auto simp: rounds_to_def)

lemma budget_and_costs_finite:
  assumes D: "decimal_rounds D" and "sizing_setup i" and "firstNonFinite i = None" and "\<not> riskBudgetOf D i \<le> 0"
    and "\<not> abs (si_entry i - si_stop i) \<le> 0"
  shows "\<exists>b u. riskBudgetOf D i = Fin b \<and> 0 < b
    \<and> cm_effectiveRiskPerUnit (buildCosts D i (abs (si_entry i - si_stop i))) = Fin u \<and> 0 < u"
proof -
  note fin = firstNonFinite_None [OF assms(3)]
  from fin obtain eq e st c rm fr where f: "si_equity i = Fin eq" "si_entry i = Fin e" "si_stop i = Fin st"
      "si_circuitMultiplier i = Fin c" "or_else (si_riskMultiplier i) 1 = Fin rm" "or_else (si_fundingRate i) 0 = Fin fr"
    by (auto simp: is_finite_iff)
  from assms(2) obtain pc t sl pe where l: "rl_maxRiskPerTradePercent (si_limits i) = Fin pc"
      "rl_feeRateTaker (si_limits i) = Fin t" "rl_slippageBufferRate (si_limits i) = Fin sl"
      "or_else (si_fundingPeriods i) DEFAULT_FUNDING_PERIODS = Fin pe" "0 \<le> t" "0 \<le> sl" "0 \<le> pe"
    by (auto simp: sizing_setup_def is_finite_iff)
  have e: "0 < e" using assms(2) f(2) by (simp add: sizing_setup_def)
  obtain b1 where b1: "d_times D (Fin eq) (Fin pc) = Fin b1" using times_finite [OF D] by blast
  obtain b2 where b2: "d_div D (Fin b1) (Fin 100) = Fin b2" using div_finite [OF D, of 100 b1] by auto
  obtain b3 where b3: "d_times D (Fin b2) (Fin c) = Fin b3" using times_finite [OF D] by blast
  obtain b where b: "d_times D (Fin b3) (Fin (min 1 rm)) = Fin b" using times_finite [OF D] by blast
  have budget: "riskBudgetOf D i = Fin b" using f l b1 b2 b3 b by (simp add: riskBudgetOf_def)
  obtain f1 where f1: "d_times D (Fin e) (Fin (t + sl)) = Fin f1" "0 \<le> f1" using times_nonneg [OF D, of e "t + sl"] e l by auto
  obtain f2 where f2: "d_times D (Fin f1) (Fin 2) = Fin f2" "0 \<le> f2" using times_nonneg [OF D, of f1 2] f1(2) by auto
  obtain g1 where g1: "d_times D (Fin e) (Fin \<bar>fr\<bar>) = Fin g1" "0 \<le> g1" using times_nonneg [OF D, of e "\<bar>fr\<bar>"] e by auto
  obtain g2 where g2: "d_times D (Fin g1) (Fin pe) = Fin g2" "0 \<le> g2" using times_nonneg [OF D, of g1 pe] g1(2) l by auto
  have "cm_effectiveRiskPerUnit (buildCosts D i (abs (si_entry i - si_stop i))) = Fin (\<bar>e - st\<bar> + f2 + g2)"
    using f l f1(1) f2(1) g1(1) g2(1) by (simp add: buildCosts_def ROUND_TRIP_LEGS_def)
  moreover have "0 < \<bar>e - st\<bar>" using assms(5) f by simp
  ultimately show ?thesis using budget assms(4) f2(2) g2(2) by auto
qed

lemma clampedLeverage_finite:
  assumes "sizing_setup i" and "firstNonFinite i = None"
  shows "\<exists>r. clampedLeverage i = Fin r \<and> Fin r \<le> rl_maxLeverage (si_limits i) \<and> Fin r \<le> cs_maxLeverage (si_spec i)
    \<and> Fin r \<le> si_requestedLeverage i"
  using assms firstNonFinite_None [OF assms(2)]
  by (auto simp: sizing_setup_def clampedLeverage_def is_finite_iff min_def)

section \<open>Properties\<close>

text \<open>
  C5. An accepted size respects every limit of the exchange and of the account: with finite exchange rules and rates
  and any decimal arithmetic of 40 digits, the quantity is at least the minimum and, for a positive lot size, a whole
  number of lots (or the minimum itself); neither the exchange's largest quantity nor the account's largest notional is
  exceeded and the exchange's smallest notional is reached, up to one part in \<open>10 ^ 38\<close>; the margin fits, the loss
  at the stop with fees and funding stays within 102% of the risk budget, and the leverage is at most the one
  requested, the account's and the contract's limit (or 1).
\<close>

theorem accepted_size_respects_limits:
  assumes "decimal_laws D" and "decimal_rounds D" and "sizing_setup i" and "sr_ok (sizePosition D i)"
  shows "cs_minQuantity (si_spec i) \<le> sr_quantity (sizePosition D i)
    \<and> sr_quantity (sizePosition D i) \<le> Fin (1 + slack) * cs_maxQuantity (si_spec i)
    \<and> (0 < cs_lotSize (si_spec i) \<longrightarrow> on_lot_grid D (si_spec i) (sr_quantity (sizePosition D i)))
    \<and> Fin (1 - slack) * cs_minNotional (si_spec i) \<le> sr_notional (sizePosition D i)
    \<and> sr_notional (sizePosition D i) \<le> Fin (1 + slack) * rl_maxNotionalPerTrade (si_limits i)
    \<and> sr_marginRequired (sizePosition D i) \<le> si_availableMargin i
    \<and> sr_riskAmount (sizePosition D i) \<le> riskBudgetOf D i * RISK_BUDGET_TOLERANCE
    \<and> sr_leverage (sizePosition D i) \<le> math_max 1 (si_requestedLeverage i)
    \<and> sr_leverage (sizePosition D i) \<le> math_max 1 (rl_maxLeverage (si_limits i))
    \<and> sr_leverage (sizePosition D i) \<le> math_max 1 (cs_maxLeverage (si_spec i))"
proof -
  note D = assms(2,1)
  from assms(4) obtain costs qty w where st: "firstNonFinite i = None" "\<not> riskBudgetOf D i \<le> 0"
    "\<not> abs (si_entry i - si_stop i) \<le> 0" "costs = buildCosts D i (abs (si_entry i - si_stop i))"
    "resolveQuantity D i (riskBudgetOf D i) costs = Inr (qty, w)"
    "sizePosition D i = buildAcceptedSizing i qty (riskBudgetOf D i) costs w"
    "\<not> qty * si_entry i / math_max 1 (clampedLeverage i) > si_availableMargin i"
    "\<not> qty * cm_effectiveRiskPerUnit costs > riskBudgetOf D i * RISK_BUDGET_TOLERANCE"
    by (rule sizePosition_ok_stages)
  obtain b u where bu: "riskBudgetOf D i = Fin b" "0 < b" "cm_effectiveRiskPerUnit costs = Fin u" "0 < u"
    using budget_and_costs_finite [OF assms(2,3) st(1-3)] st(4) by auto
  obtain e m rq where e: "si_entry i = Fin e" "si_availableMargin i = Fin m" "si_requestedLeverage i = Fin rq"
    using firstNonFinite_None [OF st(1)] by (auto simp: is_finite_iff)
  have e0: "0 < e" using assms(3) e(1) by (simp add: sizing_setup_def)
  obtain lev where lev: "clampedLeverage i = Fin lev" "Fin lev \<le> rl_maxLeverage (si_limits i)" "Fin lev \<le> cs_maxLeverage (si_spec i)"
    "Fin lev \<le> si_requestedLeverage i"
    using clampedLeverage_finite [OF assms(3) st(1)] by auto
  obtain ml sl xn xq where fin: "rl_maxLeverage (si_limits i) = Fin ml" "cs_maxLeverage (si_spec i) = Fin sl"
    "rl_maxNotionalPerTrade (si_limits i) = Fin xn" "cs_maxQuantity (si_spec i) = Fin xq"
    using assms(3) by (auto simp: sizing_setup_def is_finite_iff)
  obtain x mq mn cap l where x: "qty = Fin x" "cs_minQuantity (si_spec i) = Fin mq" "cs_minNotional (si_spec i) = Fin mn"
      "math_min (Fin xn) (cs_maxQuantity (si_spec i) * Fin e) = Fin cap" "cs_lotSize (si_spec i) = Fin l"
      "mq \<le> x" "(1 - slack) * mn \<le> x * e" "x * e \<le> (1 + slack) * cap" "0 < l \<Longrightarrow> on_lot_grid D (si_spec i) (Fin x)"
    using resolve_sound [OF D st(5) [unfolded bu(1)] assms(3) e(1) bu(3,4,2)] fin(3) by auto
  have cap: "cap \<le> xn" "cap \<le> xq * e" using x(4) fin(4) by auto
  have s: "0 \<le> 1 + slack" using slack_covers(1) by simp
  have top1: "x * e \<le> (1 + slack) * xn" using x(8) mult_left_mono [OF cap(1) s] by linarith
  have "x * e \<le> (1 + slack) * xq * e" using x(8) mult_left_mono [OF cap(2) s] by (simp add: mult.assoc)
  then have top2: "x \<le> (1 + slack) * xq" using e0 by simp
  have checks: "\<not> m < x * e / max 1 lev" "\<not> b * (102 / 100) < x * u"
    using st(7,8) x(1) e lev(1) bu by (simp_all add: RISK_BUDGET_TOLERANCE_def max_def split: if_splits)
  have "max 1 lev \<noteq> 0" by linarith
  then have z: "sizePosition D i = \<lparr> sr_ok = True, sr_rejection = None, sr_quantity = Fin x, sr_notional = Fin (x * e),
      sr_marginRequired = Fin (x * e / max 1 lev), sr_leverage = Fin (max 1 lev), sr_riskAmount = Fin (x * u),
      sr_effectiveRiskPerUnit = Fin u, sr_feePerUnit = cm_feePerUnit costs, sr_fundingPerUnit = cm_fundingPerUnit costs,
      sr_warnings = w \<rparr>"
    using checks unfolding st(6) by (simp add: buildAcceptedSizing_def x(1) e bu lev(1) RISK_BUDGET_TOLERANCE_def Let_def)
  show ?thesis unfolding z using x top1 top2 checks e fin lev bu by (auto simp: RISK_BUDGET_TOLERANCE_def)
qed

text \<open>
  The quantity is set by the risk budget and not by the leverage: whatever leverage two requests
  ask for, if both are accepted the quantities, notionals and amounts at risk are the same.
\<close>

theorem quantity_independent_of_leverage:
  assumes "sr_ok (sizePosition D i)" and "sr_ok (sizePosition D (i\<lparr> si_requestedLeverage := lev \<rparr>))"
  shows "sr_quantity (sizePosition D (i\<lparr> si_requestedLeverage := lev \<rparr>)) = sr_quantity (sizePosition D i)
    \<and> sr_notional (sizePosition D (i\<lparr> si_requestedLeverage := lev \<rparr>)) = sr_notional (sizePosition D i)
    \<and> sr_riskAmount (sizePosition D (i\<lparr> si_requestedLeverage := lev \<rparr>)) = sr_riskAmount (sizePosition D i)"
proof -
  let ?j = "i\<lparr> si_requestedLeverage := lev \<rparr>"
  have same: "riskBudgetOf D ?j = riskBudgetOf D i" "buildCosts D ?j d = buildCosts D i d"
    "resolveQuantity D ?j b c = resolveQuantity D i b c" for d b c
    by (simp_all add: riskBudgetOf_def buildCosts_def resolveQuantity_def raiseToMinNotional_def capNotional_def Let_def)
  have out: "sr_quantity (buildAcceptedSizing k q b c w) = q \<and> sr_notional (buildAcceptedSizing k q b c w) = q * si_entry k
      \<and> sr_riskAmount (buildAcceptedSizing k q b c w) = q * cm_effectiveRiskPerUnit c"
    if "sr_ok (buildAcceptedSizing k q b c w)" for k q b c w
    using that by (auto simp: buildAcceptedSizing_def sz_fail_def failed_with_def Let_def split: if_splits)
  from assms(1) obtain c1 q1 w1 where 1: "c1 = buildCosts D i (abs (si_entry i - si_stop i))"
      "resolveQuantity D i (riskBudgetOf D i) c1 = Inr (q1, w1)"
      "sizePosition D i = buildAcceptedSizing i q1 (riskBudgetOf D i) c1 w1"
    by (rule sizePosition_ok_stages)
  from assms(2) obtain c2 q2 w2 where 2: "c2 = buildCosts D ?j (abs (si_entry ?j - si_stop ?j))"
      "resolveQuantity D ?j (riskBudgetOf D ?j) c2 = Inr (q2, w2)"
      "sizePosition D ?j = buildAcceptedSizing ?j q2 (riskBudgetOf D ?j) c2 w2"
    by (rule sizePosition_ok_stages)
  have "c2 = c1" using 1(1) 2(1) same(2) by simp
  with 1(2) 2(2) same have "q2 = q1" "w2 = w1" by auto
  with out assms 1(3) 2(3) \<open>c2 = c1\<close> show ?thesis by simp
qed

section \<open>A concrete order\<close>

definition demo_limits :: risk_limits where
  "demo_limits = riskLimitsFromConfig
     \<lparr> re_riskPerTradePct = 1, re_maxLeverage = 10, re_minLeverage = 1, re_maxDailyLossPct = 3, re_maxDrawdownPct = 15,
       re_maxLossStreak = 4, re_maxConcurrentPositions = 5, re_maxSymbolExposurePct = 100, re_maxExposurePct = 300,
       re_maxCorrelatedExposurePct = 200, re_minRr = 3/2, re_takerFeeRate = 4/10000, re_slippageBufferRate = 2/10000 \<rparr> None"

definition demo_sizing :: sizing_input where
  "demo_sizing = \<lparr> si_equity = 10000, si_availableMargin = 5000, si_direction = LONG, si_entry = 100, si_stop = 95,
     si_requestedLeverage = 5, si_fundingRate = None, si_fundingPeriods = None,
     si_spec = contractSpecFor ''BTCUSDT'' DEFAULT_RULES demo_limits, si_limits = demo_limits,
     si_circuitMultiplier = 1, si_riskMultiplier = None \<rparr>"

lemmas demo_sizing_defs = demo_sizing_def demo_limits_def riskLimitsFromConfig_def contractSpecFor_def DEFAULT_RULES_def
  UNCAPPED_NOTIONAL_def DEFAULT_MAX_QUANTITY_def

lemma sizePosition_acceptI:
  assumes "firstNonFinite i = None" and "riskBudgetOf D i = b" and "\<not> b \<le> 0"
    and "abs (si_entry i - si_stop i) = d" and "\<not> d \<le> 0" and "buildCosts D i d = c"
    and "resolveQuantity D i b c = Inr (q, w)"
  shows "sizePosition D i = buildAcceptedSizing i q b c w"
  using assms by (simp add: sizePosition_def Let_def)

lemma demo_sizing_accepted:
  "sizePosition exact_dec (demo_sizing\<lparr> si_requestedLeverage := Fin lev \<rparr>) =
     \<lparr> sr_ok = True, sr_rejection = None, sr_quantity = Fin (19531/1000), sr_notional = Fin (19531/10),
       sr_marginRequired = Fin (19531/10 / max 1 (min lev 10)), sr_leverage = Fin (max 1 (min lev 10)), sr_riskAmount = Fin (9999872/100000),
       sr_effectiveRiskPerUnit = Fin (512/100), sr_feePerUnit = Fin (12/100), sr_fundingPerUnit = Fin 0, sr_warnings = [] \<rparr>"
proof -
  let ?i = "demo_sizing\<lparr> si_requestedLeverage := Fin lev \<rparr>"
  have fin: "firstNonFinite ?i = None"
    by (simp add: firstNonFinite_def FINITE_FIELDS_def demo_sizing_defs)
  have budget: "riskBudgetOf exact_dec ?i = Fin 100"
    by (simp add: riskBudgetOf_def or_else_def demo_sizing_defs)
  have dist: "abs (si_entry ?i - si_stop ?i) = Fin 5" by (simp add: demo_sizing_defs)
  have costs: "buildCosts exact_dec ?i (Fin 5)
      = \<lparr> cm_feePerUnit = Fin (12/100), cm_fundingPerUnit = Fin 0, cm_effectiveRiskPerUnit = Fin (512/100) \<rparr>"
    by (simp add: buildCosts_def or_else_def ROUND_TRIP_LEGS_def DEFAULT_FUNDING_PERIODS_def demo_sizing_defs Let_def)
  have step: "\<lfloor>100 * 1000 / (512/100 :: real)\<rfloor> = 19531" by (simp add: floor_eq_iff)
  have qty: "resolveQuantity exact_dec ?i (Fin 100)
      \<lparr> cm_feePerUnit = Fin (12/100), cm_fundingPerUnit = Fin 0, cm_effectiveRiskPerUnit = Fin (512/100) \<rparr>
      = Inr (Fin (19531/1000), [])"
    using step
    by (simp add: resolveQuantity_def raiseToMinNotional_def capNotional_def floorToStep_def truncate_real_def
        demo_sizing_defs Let_def)
  have lev: "clampedLeverage ?i = Fin (min lev 10)"
    by (simp add: clampedLeverage_def demo_sizing_defs)
  have "19531/10 / max 1 (min lev 10) \<le> (5000 :: real)"
    by (simp add: pos_divide_le_eq less_max_iff_disj)
  moreover have "max 1 (min lev 10) \<noteq> 0" by (simp add: max_def min_def)
  ultimately show ?thesis
    unfolding sizePosition_acceptI [OF fin budget _ dist _ costs qty, simplified]
    by (simp add: buildAcceptedSizing_def lev RISK_BUDGET_TOLERANCE_def Let_def) (simp add: demo_sizing_defs)
qed

theorem accepted_size_respects_limits_witness:
  "sr_ok (sizePosition exact_dec demo_sizing) \<and> sr_riskAmount (sizePosition exact_dec demo_sizing) \<le> 102
   \<and> on_lot_grid exact_dec (si_spec demo_sizing) (sr_quantity (sizePosition exact_dec demo_sizing))"
proof -
  have i: "demo_sizing\<lparr> si_requestedLeverage := Fin 5 \<rparr> = demo_sizing" by (simp add: demo_sizing_defs)
  have ok: "sr_ok (sizePosition exact_dec demo_sizing)" using demo_sizing_accepted [of 5] by (simp add: i)
  have su: "sizing_setup demo_sizing"
    by (simp add: sizing_setup_def or_else_def DEFAULT_FUNDING_PERIODS_def demo_sizing_defs)
  have "riskBudgetOf exact_dec demo_sizing * RISK_BUDGET_TOLERANCE = 102"
    by (simp add: riskBudgetOf_def or_else_def RISK_BUDGET_TOLERANCE_def demo_sizing_defs)
  moreover have "0 < cs_lotSize (si_spec demo_sizing)" by (simp add: demo_sizing_defs)
  ultimately show ?thesis using accepted_size_respects_limits [OF exact_dec_laws exact_dec_rounds su ok] ok by simp
qed

theorem quantity_independent_of_leverage_witness:
  "sr_quantity (sizePosition exact_dec (demo_sizing\<lparr> si_requestedLeverage := 3 \<rparr>)) = sr_quantity (sizePosition exact_dec demo_sizing)"
proof -
  have i: "demo_sizing\<lparr> si_requestedLeverage := Fin 5 \<rparr> = demo_sizing" by (simp add: demo_sizing_defs)
  have ok: "sr_ok (sizePosition exact_dec demo_sizing)" using demo_sizing_accepted [of 5] by (simp add: i)
  have "sr_ok (sizePosition exact_dec (demo_sizing\<lparr> si_requestedLeverage := 3 \<rparr>))" using demo_sizing_accepted [of 3] by simp
  from quantity_independent_of_leverage [OF ok this] show ?thesis by simp
qed

end
