(* ===== verification/RiskEngine.thy ===== *)
theory RiskEngine
  imports PositionSizer FoldPartials Interfaces
begin

text \<open>
  The risk gate of \<open>src/risk/riskEngine.ts\<close> and the journal metrics it reads
  (\<open>src/risk/performanceEngine.ts\<close>). Printed details are kept as the values they print.
\<close>

section \<open>Performance metrics\<close>

record performance_snapshot =
  ps_dailyLossPercent :: jsnum
  ps_drawdownPercent :: jsnum
  ps_lossStreak :: jsnum
  ps_winStreak :: jsnum
  ps_realizedToday :: jsnum
  ps_profitFactor :: jsnum
  ps_expectancy :: jsnum

definition DAY_MS :: jsnum where "DAY_MS = 86400000"

definition FULL_LOSS_PERCENT :: jsnum where "FULL_LOSS_PERCENT = 100"

definition utcDay :: "jsnum \<Rightarrow> jsnum" where
  "utcDay timestamp = math_floor (timestamp / DAY_MS)"

text \<open>The loop from the newest result backwards; the list is passed newest first.\<close>

fun run_from :: "jsnum \<Rightarrow> jsnum list \<Rightarrow> nat" where
  "run_from sign [] = 0"
| "run_from sign (p # ps) =
     (if js_eq p 0 then run_from sign ps
      else if \<not> js_eq (math_sign p) sign then 0
      else Suc (run_from sign ps))"

definition trailingRun :: "jsnum list \<Rightarrow> jsnum \<Rightarrow> nat" where
  "trailingRun pnls sign = run_from sign (rev pnls)"

definition profitFactorOf :: "jsnum list \<Rightarrow> jsnum" where
  "profitFactorOf pnls =
     (let grossWin = js_sum (filter (\<lambda>p. p > 0) pnls);
          grossLoss = abs (js_sum (filter (\<lambda>p. p < 0) pnls))
      in if grossLoss > 0 then grossWin / grossLoss else if grossWin > 0 then PInf else 0)"

record performance_engine =
  pe_initialEquity :: jsnum
  pe_trades :: "trade_record list"
  pe_positions :: "trade_record list"
  pe_observedPeakEquity :: jsnum
  pe_drawdownEpoch :: jsnum

definition perf_new :: "jsnum \<Rightarrow> performance_engine" where
  "perf_new initialEquity =
     \<lparr> pe_initialEquity = initialEquity, pe_trades = [], pe_positions = [], pe_observedPeakEquity = 0, pe_drawdownEpoch = 0 \<rparr>"

text \<open>\<open>sort\<close> by closing time is stable; the journal's times are numbers.\<close>

fun insert_by_close :: "trade_record \<Rightarrow> trade_record list \<Rightarrow> trade_record list" where
  "insert_by_close t [] = [t]"
| "insert_by_close t (u # us) = (if t_closedAt t < t_closedAt u then t # u # us else u # insert_by_close t us)"

definition sort_by_close :: "trade_record list \<Rightarrow> trade_record list" where
  "sort_by_close trades = foldl (\<lambda>acc t. insert_by_close t acc) [] trades"

definition hydrate :: "trade_record list \<Rightarrow> performance_engine \<Rightarrow> performance_engine" where
  "hydrate trades pe =
     (let sorted = sort_by_close trades in pe\<lparr> pe_trades := sorted, pe_positions := foldPartials sorted \<rparr>)"

definition setDrawdownEpoch :: "jsnum \<Rightarrow> performance_engine \<Rightarrow> performance_engine" where
  "setDrawdownEpoch epoch pe = pe\<lparr> pe_drawdownEpoch := (if is_finite epoch \<and> epoch > 0 then epoch else 0) \<rparr>"

definition onEquity :: "jsnum \<Rightarrow> performance_engine \<Rightarrow> performance_engine" where
  "onEquity equity pe =
     (if is_finite equity then pe\<lparr> pe_observedPeakEquity := math_max (pe_observedPeakEquity pe) equity \<rparr> else pe)"

definition seedObservedPeak :: "jsnum \<Rightarrow> performance_engine \<Rightarrow> performance_engine" where
  "seedObservedPeak peak pe =
     (if is_finite peak \<and> peak > 0 then pe\<lparr> pe_observedPeakEquity := math_max (pe_observedPeakEquity pe) peak \<rparr> else pe)"

definition dailyLossPercent :: "performance_engine \<Rightarrow> jsnum \<Rightarrow> jsnum list \<Rightarrow> jsnum" where
  "dailyLossPercent pe today todayPnls =
     (let loss = math_max 0 (- js_sum todayPnls)
      in if js_eq loss 0 then 0
         else
           (let realizedBeforeToday = js_sum (map t_pnl (filter (\<lambda>t. utcDay (t_closedAt t) < today) (pe_trades pe)));
                startOfDayEquity = pe_initialEquity pe + realizedBeforeToday
            in if startOfDayEquity > 0 then (loss / startOfDayEquity) * 100 else FULL_LOSS_PERCENT))"

fun realized_peak :: "jsnum \<Rightarrow> jsnum \<Rightarrow> jsnum option \<Rightarrow> trade_record list \<Rightarrow> jsnum" where
  "realized_peak epoch running peak [] = (case peak of Some p \<Rightarrow> p | None \<Rightarrow> running)"
| "realized_peak epoch running peak (t # ts) =
     (let peak1 = (if peak = None \<and> t_closedAt t \<ge> epoch then Some running else peak);
          running' = running + t_pnl t
      in realized_peak epoch running' (map_option (\<lambda>p. math_max p running') peak1) ts)"

definition realizedPeakEquity :: "performance_engine \<Rightarrow> jsnum" where
  "realizedPeakEquity pe =
     realized_peak (pe_drawdownEpoch pe) (pe_initialEquity pe)
       (if pe_drawdownEpoch pe > 0 then None else Some (pe_initialEquity pe)) (pe_trades pe)"

definition perf_drawdownPercent :: "performance_engine \<Rightarrow> jsnum \<Rightarrow> jsnum" where
  "perf_drawdownPercent pe equity =
     (let peak = math_max (math_max (realizedPeakEquity pe) (pe_observedPeakEquity pe)) equity
      in if peak > 0 then ((peak - equity) / peak) * 100 else 0)"

definition perf_snapshot :: "performance_engine \<Rightarrow> jsnum \<Rightarrow> jsnum \<Rightarrow> performance_snapshot" where
  "perf_snapshot pe equity now =
     (let today = utcDay now;
          todayPnls = map t_pnl (filter (\<lambda>t. js_eq (utcDay (t_closedAt t)) today) (pe_trades pe));
          allPnls = map t_pnl (pe_positions pe);
          todayPositionPnls = map t_pnl (filter (\<lambda>t. js_eq (utcDay (t_closedAt t)) today) (pe_positions pe))
      in \<lparr> ps_dailyLossPercent = dailyLossPercent pe today todayPnls,
           ps_drawdownPercent = perf_drawdownPercent pe equity,
           ps_lossStreak = num_of_nat (trailingRun todayPositionPnls (- 1)),
           ps_winStreak = num_of_nat (trailingRun allPnls 1),
           ps_realizedToday = js_sum todayPnls,
           ps_profitFactor = profitFactorOf allPnls,
           ps_expectancy = (if allPnls \<noteq> [] then js_sum allPnls / num_of_nat (length allPnls) else 0) \<rparr>)"

section \<open>The gate's data\<close>

record portfolio_view =
  pv_equity :: jsnum
  pv_openPositions :: jsnum
  pv_grossExposure :: jsnum
  pv_symbolExposure :: "string \<Rightarrow> jsnum"
  pv_clusterExposure :: "string \<Rightarrow> jsnum"
  pv_performance :: performance_snapshot
  pv_openRisk :: "jsnum option"

record risk_input =
  ri_symbol :: string
  ri_sizing :: sizing_result
  ri_portfolio :: portfolio_view
  ri_limits :: risk_limits
  ri_rr :: "jsnum option"

datatype check_name =
    CK_sizing | CK_risk_per_trade | CK_leverage | CK_position_count | CK_daily_loss | CK_loss_streak
  | CK_portfolio_limits | CK_portfolio_risk | CK_min_rr | CK_circuit_breaker

datatype exposure_breach = BSymbol jsnum jsnum | BGross jsnum jsnum | BCluster string jsnum jsnum | BNotional jsnum jsnum

datatype check_detail =
    DSized jsnum jsnum | DRejected "rejection option" | DAgainst jsnum jsnum | DBreaches "exposure_breach list"
  | DRrUnavailable jsnum | DCircuit circuit_state

record risk_check =
  rc_name :: check_name
  rc_passed :: bool
  rc_detail :: check_detail

datatype risk_reason = Failed check_name check_detail | AllPassed nat | CircuitIs circuit_state

record risk_decision =
  rd_approved :: bool
  rd_circuit :: circuit_state
  rd_checks :: "risk_check list"
  rd_reasons :: "risk_reason list"

definition check :: "check_name \<Rightarrow> bool \<Rightarrow> check_detail \<Rightarrow> risk_check" where
  "check name passed detail = \<lparr> rc_name = name, rc_passed = passed, rc_detail = detail \<rparr>"

definition EXPOSURE_PERCENT_DECIMALS :: nat where "EXPOSURE_PERCENT_DECIMALS = 3"

section \<open>Checks\<close>

definition sizingChecks :: "risk_input \<Rightarrow> circuit_state \<Rightarrow> risk_check list" where
  "sizingChecks input circuit =
     (let sizing = ri_sizing input; limits = ri_limits input;
          riskBudget = (pv_equity (ri_portfolio input) * rl_maxRiskPerTradePercent limits) / 100 * circuitRiskMultiplier circuit
      in [check CK_sizing (sr_ok sizing)
            (if sr_ok sizing then DSized (sr_quantity sizing) (sr_riskAmount sizing) else DRejected (sr_rejection sizing)),
          check CK_risk_per_trade (sr_ok sizing \<and> sr_riskAmount sizing \<le> riskBudget * RISK_BUDGET_TOLERANCE)
            (DAgainst (sr_riskAmount sizing) riskBudget),
          check CK_leverage (sr_ok sizing \<and> sr_leverage sizing \<le> rl_maxLeverage limits)
            (DAgainst (sr_leverage sizing) (rl_maxLeverage limits))])"

definition portfolioChecks :: "risk_input \<Rightarrow> risk_check list" where
  "portfolioChecks input =
     (let portfolio = ri_portfolio input; limits = ri_limits input; perf = pv_performance portfolio
      in [check CK_position_count (pv_openPositions portfolio + 1 \<le> rl_maxConcurrentPositions limits)
            (DAgainst (pv_openPositions portfolio + 1) (rl_maxConcurrentPositions limits)),
          check CK_daily_loss (ps_dailyLossPercent perf < rl_maxDailyLossPercent limits)
            (DAgainst (ps_dailyLossPercent perf) (rl_maxDailyLossPercent limits)),
          check CK_loss_streak (ps_lossStreak perf < rl_maxLossStreak limits)
            (DAgainst (ps_lossStreak perf) (rl_maxLossStreak limits))])"

definition percentOf :: "jsnum \<Rightarrow> jsnum \<Rightarrow> jsnum" where
  "percentOf equity v = toFixed EXPOSURE_PERCENT_DECIMALS ((v / equity) * 100)"

definition exposureBreaches :: "risk_input \<Rightarrow> exposure_breach list" where
  "exposureBreaches input =
     (let sizing = ri_sizing input; portfolio = ri_portfolio input; limits = ri_limits input;
          equity = math_max 1 (pv_equity portfolio);
          cluster = clusterOf (ri_symbol input);
          symbolPercent = percentOf equity (pv_symbolExposure portfolio (ri_symbol input) + sr_notional sizing);
          grossPercent = percentOf equity (pv_grossExposure portfolio + sr_notional sizing);
          clusterPercent = percentOf equity (pv_clusterExposure portfolio cluster + sr_notional sizing)
      in (if symbolPercent > rl_maxSymbolExposurePercent limits
          then [BSymbol symbolPercent (rl_maxSymbolExposurePercent limits)] else [])
       @ (if grossPercent > rl_maxPortfolioGrossExposurePercent limits
          then [BGross grossPercent (rl_maxPortfolioGrossExposurePercent limits)] else [])
       @ (if clusterPercent > rl_maxCorrelatedExposurePercent limits
          then [BCluster cluster clusterPercent (rl_maxCorrelatedExposurePercent limits)] else [])
       @ (if sr_notional sizing > rl_maxNotionalPerTrade limits
          then [BNotional (sr_notional sizing) (rl_maxNotionalPerTrade limits)] else []))"

definition portfolioLimitsCheck :: "risk_input \<Rightarrow> risk_check" where
  "portfolioLimitsCheck input = check CK_portfolio_limits (exposureBreaches input = []) (DBreaches (exposureBreaches input))"

definition openRiskOf :: "position list \<Rightarrow> jsnum" where
  "openRiskOf positions =
     foldl (\<lambda>acc p.
         let stop = label_number (p_serverSl p)
         in if \<not> (stop > 0) then acc
            else acc + math_max 0 ((if p_side p = LONG then p_entry p - stop else stop - p_entry p) * p_qty p))
       0 positions"

definition portfolioRiskCheck :: "risk_input \<Rightarrow> risk_check option" where
  "portfolioRiskCheck input =
     (case (rl_maxPortfolioRiskPercent (ri_limits input), pv_openRisk (ri_portfolio input)) of
        (Some cap, Some openRisk) \<Rightarrow>
          if \<not> sr_ok (ri_sizing input) \<or> \<not> (sr_riskAmount (ri_sizing input) > 0) then None
          else (let percent = ((openRisk + sr_riskAmount (ri_sizing input)) / math_max 1 (pv_equity (ri_portfolio input))) * 100
                in Some (check CK_portfolio_risk (percent \<le> cap) (DAgainst percent cap)))
      | _ \<Rightarrow> None)"

definition minRewardRiskCheck :: "risk_input \<Rightarrow> risk_check" where
  "minRewardRiskCheck input =
     (let m = rl_minRiskRewardRatio (ri_limits input)
      in case ri_rr input of
           None \<Rightarrow> check CK_min_rr False (DRrUnavailable m)
         | Some rr \<Rightarrow> check CK_min_rr (rr \<ge> m) (DAgainst rr m))"

definition runChecks :: "risk_input \<Rightarrow> circuit_state \<Rightarrow> risk_check list" where
  "runChecks input circuit =
     sizingChecks input circuit @ portfolioChecks input @ [portfolioLimitsCheck input]
     @ (case portfolioRiskCheck input of None \<Rightarrow> [] | Some c \<Rightarrow> [c])
     @ (if rl_minRiskRewardRatio (ri_limits input) > 0 then [minRewardRiskCheck input] else [])"

definition haltedDecision :: "circuit_state \<Rightarrow> risk_decision" where
  "haltedDecision circuit =
     \<lparr> rd_approved = False, rd_circuit = circuit, rd_checks = [check CK_circuit_breaker False (DCircuit circuit)],
       rd_reasons = [Failed CK_circuit_breaker (DCircuit circuit)] \<rparr>"

definition evaluateRisk :: "risk_input \<Rightarrow> risk_decision" where
  "evaluateRisk input =
     (let perf = pv_performance (ri_portfolio input);
          circuit = deriveCircuitState (ps_dailyLossPercent perf) (ps_drawdownPercent perf) (ps_lossStreak perf) (ri_limits input)
      in if circuit = HALTED \<or> circuit = EMERGENCY then haltedDecision circuit
         else
           (let checks = runChecks input circuit;
                failed = filter (\<lambda>c. \<not> rc_passed c) checks
            in if failed \<noteq> []
               then \<lparr> rd_approved = False, rd_circuit = circuit, rd_checks = checks,
                      rd_reasons = map (\<lambda>c. Failed (rc_name c) (rc_detail c)) failed \<rparr>
               else \<lparr> rd_approved = True, rd_circuit = circuit, rd_checks = checks,
                      rd_reasons = [AllPassed (length checks), CircuitIs circuit] \<rparr>))"

section \<open>Lemmas\<close>

lemma check_simps [simp]: "rc_passed (check n b d) = b" "rc_name (check n b d) = n"
  by (simp_all add: check_def)

lemma approved_all_passed:
  assumes "rd_approved (evaluateRisk i)"
  shows "severity (rd_circuit (evaluateRisk i)) < 3
    \<and> (\<forall>c\<in>set (runChecks i (rd_circuit (evaluateRisk i))). rc_passed c)"
proof -
  let ?perf = "pv_performance (ri_portfolio i)"
  let ?c = "deriveCircuitState (ps_dailyLossPercent ?perf) (ps_drawdownPercent ?perf) (ps_lossStreak ?perf) (ri_limits i)"
  from assms have ne: "?c \<noteq> HALTED" "?c \<noteq> EMERGENCY" and ok: "filter (\<lambda>c. \<not> rc_passed c) (runChecks i ?c) = []"
    by (auto simp: evaluateRisk_def haltedDecision_def Let_def split: if_splits)
  then have "rd_circuit (evaluateRisk i) = ?c" by (simp add: evaluateRisk_def Let_def)
  moreover have "severity ?c < 3" using ne by (cases ?c) auto
  ultimately show ?thesis using ok by (simp add: filter_empty_conv)
qed

lemma toFixed_error: "toFixed d (Fin r) = Fin x \<Longrightarrow> \<bar>x - r\<bar> \<le> 1 / (2 * 10 ^ d)"
proof -
  assume "toFixed d (Fin r) = Fin x"
  then have x: "x * 10 ^ d = of_int (round_away (r * 10 ^ d))" by (simp add: field_simps)
  have "\<bar>of_int (round_away y) - y\<bar> \<le> 1 / 2" for y :: real
  proof (cases "0 \<le> y")
    case True
    then have "round_away y = \<lfloor>y + 1 / 2\<rfloor>" by (simp add: round_away_def)
    then show ?thesis by linarith
  next
    case False
    then have "round_away y = - \<lfloor>1 / 2 - y\<rfloor>" by (simp add: round_away_def)
    then show ?thesis by linarith
  qed
  from this [of "r * 10 ^ d"] x have "\<bar>(x - r) * 10 ^ d\<bar> \<le> 1 / 2" by (simp add: left_diff_distrib)
  then have "\<bar>x - r\<bar> * 10 ^ d \<le> 1 / 2" by (simp add: abs_mult)
  then show ?thesis by (simp add: field_simps)
qed

lemma percentOf_bound:
  assumes "percentOf (Fin e) (Fin v) = Fin x" and "0 < e" and "x \<le> m"
  shows "v / e * 100 \<le> m + 1 / 2000"
proof -
  have "toFixed 3 (Fin (v / e * 100)) = Fin x"
    using assms(1,2) by (simp add: percentOf_def EXPOSURE_PERCENT_DECIMALS_def numeral_3_eq_3)
  from toFixed_error [OF this] have "\<bar>x - v / e * 100\<bar> \<le> 1 / 2000" by simp
  with assms(3) show ?thesis by linarith
qed

lemma trailingRun_spec:
  assumes "NaN \<notin> set pnls" and "sign \<noteq> 0"
  shows "trailingRun pnls sign
    = length (filter (\<lambda>p. p \<noteq> 0) (takeWhile (\<lambda>p. p = 0 \<or> math_sign p = sign) (rev pnls)))"
proof -
  have sgn: "math_sign p = NaN \<longleftrightarrow> p = NaN" for p by (cases p) auto
  have "run_from sign ps = length (filter (\<lambda>p. p \<noteq> 0) (takeWhile (\<lambda>p. p = 0 \<or> math_sign p = sign) ps))"
    if "NaN \<notin> set ps" for ps
    using that by (induction ps) (auto simp: js_eq_def sgn)
  with assms show ?thesis by (simp add: trailingRun_def)
qed

lemma approved_facts:
  assumes "rd_approved (evaluateRisk i)"
  shows "sr_ok (ri_sizing i)
    \<and> 0 < circuitRiskMultiplier (rd_circuit (evaluateRisk i))
    \<and> sr_riskAmount (ri_sizing i) \<le> (pv_equity (ri_portfolio i) * rl_maxRiskPerTradePercent (ri_limits i)) / 100
          * circuitRiskMultiplier (rd_circuit (evaluateRisk i)) * RISK_BUDGET_TOLERANCE
    \<and> sr_leverage (ri_sizing i) \<le> rl_maxLeverage (ri_limits i)
    \<and> pv_openPositions (ri_portfolio i) + 1 \<le> rl_maxConcurrentPositions (ri_limits i)
    \<and> ps_dailyLossPercent (pv_performance (ri_portfolio i)) < rl_maxDailyLossPercent (ri_limits i)
    \<and> ps_lossStreak (pv_performance (ri_portfolio i)) < rl_maxLossStreak (ri_limits i)
    \<and> exposureBreaches i = []
    \<and> (\<forall>cap r. rl_maxPortfolioRiskPercent (ri_limits i) = Some cap \<and> pv_openRisk (ri_portfolio i) = Some r
          \<and> 0 < sr_riskAmount (ri_sizing i)
        \<longrightarrow> (r + sr_riskAmount (ri_sizing i)) / math_max 1 (pv_equity (ri_portfolio i)) * 100 \<le> cap)
    \<and> (0 < rl_minRiskRewardRatio (ri_limits i)
        \<longrightarrow> (\<exists>rr. ri_rr i = Some rr \<and> rl_minRiskRewardRatio (ri_limits i) \<le> rr))"
proof -
  let ?c = "rd_circuit (evaluateRisk i)"
  note ap = approved_all_passed [OF assms]
  have "0 < circuitRiskMultiplier ?c" using ap by (cases ?c) auto
  moreover have "\<forall>c\<in>set (sizingChecks i ?c). rc_passed c" "\<forall>c\<in>set (portfolioChecks i). rc_passed c"
    "exposureBreaches i = []" "\<And>c. portfolioRiskCheck i = Some c \<Longrightarrow> rc_passed c"
    "0 < rl_minRiskRewardRatio (ri_limits i) \<Longrightarrow> rc_passed (minRewardRiskCheck i)"
    using ap by (auto simp: runChecks_def portfolioLimitsCheck_def simp del: js_consts)
  moreover have "sr_ok (ri_sizing i)" using calculation(2) by (auto simp: sizingChecks_def Let_def)
  ultimately show ?thesis
    by (auto simp: sizingChecks_def portfolioChecks_def portfolioRiskCheck_def minRewardRiskCheck_def Let_def
        simp del: js_consts split: option.splits)
qed

section \<open>Properties\<close>

text \<open>
  C4. The gate approves only within every limit: an approved trade was sized, its circuit allows
  entries, its loss at the stop is within 102% of the circuit-scaled budget, its leverage, the
  position count, the daily loss, the loss streak and (where configured) the open risk and the
  reward-to-risk ratio are within their limits, and no exposure cap is reported breached.
\<close>

theorem approved_within_limits:
  assumes "rd_approved (evaluateRisk i)"
  shows "sr_ok (ri_sizing i)
    \<and> 0 < circuitRiskMultiplier (rd_circuit (evaluateRisk i))
    \<and> sr_riskAmount (ri_sizing i) \<le> (pv_equity (ri_portfolio i) * rl_maxRiskPerTradePercent (ri_limits i)) / 100
          * circuitRiskMultiplier (rd_circuit (evaluateRisk i)) * RISK_BUDGET_TOLERANCE
    \<and> sr_leverage (ri_sizing i) \<le> rl_maxLeverage (ri_limits i)
    \<and> pv_openPositions (ri_portfolio i) + 1 \<le> rl_maxConcurrentPositions (ri_limits i)
    \<and> ps_dailyLossPercent (pv_performance (ri_portfolio i)) < rl_maxDailyLossPercent (ri_limits i)
    \<and> ps_lossStreak (pv_performance (ri_portfolio i)) < rl_maxLossStreak (ri_limits i)
    \<and> exposureBreaches i = []
    \<and> (\<forall>cap r. rl_maxPortfolioRiskPercent (ri_limits i) = Some cap \<and> pv_openRisk (ri_portfolio i) = Some r
          \<and> 0 < sr_riskAmount (ri_sizing i)
        \<longrightarrow> (r + sr_riskAmount (ri_sizing i)) / math_max 1 (pv_equity (ri_portfolio i)) * 100 \<le> cap)
    \<and> (0 < rl_minRiskRewardRatio (ri_limits i)
        \<longrightarrow> (\<exists>rr. ri_rr i = Some rr \<and> rl_minRiskRewardRatio (ri_limits i) \<le> rr))"
  by (rule approved_facts [OF assms])

text \<open>
  Exposure stays within its caps up to the rounding of the check: for finite values and an equity
  of at least 1, an approved trade leaves symbol, gross and cluster exposure at most 0.0005 points of
  equity above their caps, and its notional within the cap per trade.
\<close>

theorem approved_exposure_bounded:
  assumes "rd_approved (evaluateRisk i)"
    and "pv_equity (ri_portfolio i) = Fin e" and "1 \<le> e" and "sr_notional (ri_sizing i) = Fin n"
    and "pv_symbolExposure (ri_portfolio i) (ri_symbol i) = Fin xs" and "rl_maxSymbolExposurePercent (ri_limits i) = Fin ms"
    and "pv_grossExposure (ri_portfolio i) = Fin xg" and "rl_maxPortfolioGrossExposurePercent (ri_limits i) = Fin mg"
    and "pv_clusterExposure (ri_portfolio i) (clusterOf (ri_symbol i)) = Fin xc"
    and "rl_maxCorrelatedExposurePercent (ri_limits i) = Fin mc" and "rl_maxNotionalPerTrade (ri_limits i) = Fin mn"
  shows "(xs + n) / e * 100 \<le> ms + 1 / 2000 \<and> (xg + n) / e * 100 \<le> mg + 1 / 2000
    \<and> (xc + n) / e * 100 \<le> mc + 1 / 2000 \<and> n \<le> mn"
proof -
  have no: "exposureBreaches i = []"
    using approved_all_passed [OF assms(1)] by (auto simp: runChecks_def portfolioLimitsCheck_def)
  have eq: "math_max 1 (pv_equity (ri_portfolio i)) = Fin e" using assms(2,3) by (simp add: max_def)
  have fin: "\<exists>x. percentOf (Fin e) (Fin v) = Fin x" for v
    using assms(3) by (simp add: percentOf_def)
  obtain ps where ps: "percentOf (Fin e) (Fin (xs + n)) = Fin ps" using fin by blast
  obtain pg where pg: "percentOf (Fin e) (Fin (xg + n)) = Fin pg" using fin by blast
  obtain pc where pc: "percentOf (Fin e) (Fin (xc + n)) = Fin pc" using fin by blast
  have "ps \<le> ms" "pg \<le> mg" "pc \<le> mc" "n \<le> mn"
    using no assms(4-11) ps pg pc
    by (auto simp: exposureBreaches_def eq Let_def simp del: js_consts split: if_splits)
  then show ?thesis
    using percentOf_bound [OF ps] percentOf_bound [OF pg] percentOf_bound [OF pc] assms(3) by simp
qed

definition demo_portfolio :: portfolio_view where
  "demo_portfolio = \<lparr> pv_equity = 10000, pv_openPositions = 1, pv_grossExposure = 4000,
     pv_symbolExposure = (\<lambda>s. if s = ''BTCUSDT'' then 4000 else 0), pv_clusterExposure = (\<lambda>c. if c = ''BTC'' then 4000 else 0),
     pv_performance = perf_snapshot (perf_new 10000) 10000 0, pv_openRisk = None \<rparr>"

definition demo_risk :: risk_input where
  "demo_risk = \<lparr> ri_symbol = ''BTCUSDT'', ri_sizing = sizePosition exact_dec demo_sizing, ri_portfolio = demo_portfolio,
     ri_limits = demo_limits, ri_rr = Some 2 \<rparr>"

lemma demo_sizing_result:
  "sizePosition exact_dec demo_sizing =
     \<lparr> sr_ok = True, sr_rejection = None, sr_quantity = Fin (19531/1000), sr_notional = Fin (19531/10),
       sr_marginRequired = Fin (19531/50), sr_leverage = Fin 5, sr_riskAmount = Fin (9999872/100000),
       sr_effectiveRiskPerUnit = Fin (512/100), sr_feePerUnit = Fin (12/100), sr_fundingPerUnit = Fin 0, sr_warnings = [] \<rparr>"
  using demo_sizing_accepted [of 5] by (simp add: demo_sizing_defs)

lemma demo_performance:
  "perf_snapshot (perf_new (Fin 10000)) (Fin 10000) (Fin 0) =
     \<lparr> ps_dailyLossPercent = 0, ps_drawdownPercent = 0, ps_lossStreak = 0, ps_winStreak = 0, ps_realizedToday = 0,
       ps_profitFactor = 0, ps_expectancy = 0 \<rparr>"
  by (simp add: perf_snapshot_def perf_new_def dailyLossPercent_def perf_drawdownPercent_def realizedPeakEquity_def
      trailingRun_def profitFactorOf_def js_sum_def num_of_nat_def Let_def)

lemma demo_cluster: "clusterOf ''BTCUSDT'' = ''BTC''"
  by (simp add: clusterOf_def startsWith_def upper_char_def Let_def numeral_eq_Suc)

lemma demo_risk_approved: "rd_approved (evaluateRisk demo_risk)"
proof -
  have circuit: "deriveCircuitState 0 0 0 demo_limits = NORMAL"
    by (simp add: deriveCircuitState_def worse_of_def stateForRatio_def REDUCED_FRACTION_def CAUTION_FRACTION_def
        demo_limits_def riskLimitsFromConfig_def)
  have no: "exposureBreaches demo_risk = []"
    by (simp add: exposureBreaches_def demo_risk_def demo_portfolio_def demo_sizing_result demo_cluster percentOf_def
        EXPOSURE_PERCENT_DECIMALS_def round_away_def demo_limits_def riskLimitsFromConfig_def UNCAPPED_NOTIONAL_def
        Let_def floor_eq_iff)
  have "\<forall>c\<in>set (runChecks demo_risk NORMAL). rc_passed c"
    unfolding runChecks_def portfolioLimitsCheck_def no
    by (simp add: sizingChecks_def portfolioChecks_def portfolioRiskCheck_def
        minRewardRiskCheck_def demo_risk_def demo_portfolio_def demo_performance demo_sizing_result demo_limits_def
        riskLimitsFromConfig_def RISK_BUDGET_TOLERANCE_def Let_def)
  then show ?thesis
    using circuit by (simp add: evaluateRisk_def filter_empty_conv Let_def)
      (simp add: demo_risk_def demo_portfolio_def demo_performance)
qed

theorem approved_within_limits_witness:
  "sr_riskAmount (ri_sizing demo_risk) \<le> 102 * circuitRiskMultiplier (rd_circuit (evaluateRisk demo_risk))
   \<and> (\<exists>rr. ri_rr demo_risk = Some rr \<and> 3/2 \<le> rr)"
  using approved_within_limits [OF demo_risk_approved]
  by (cases "rd_circuit (evaluateRisk demo_risk)")
    (simp_all add: demo_risk_def demo_portfolio_def demo_limits_def riskLimitsFromConfig_def RISK_BUDGET_TOLERANCE_def)

theorem approved_exposure_bounded_witness:
  "(4000 + 19531/10) / 10000 * 100 \<le> (100 :: real) + 1 / 2000"
  using approved_exposure_bounded [OF demo_risk_approved, of 10000 "19531/10" 4000 100 4000 300 4000 200 1000000000]
  by (simp add: demo_risk_def demo_portfolio_def demo_sizing_result demo_limits_def riskLimitsFromConfig_def
      UNCAPPED_NOTIONAL_def demo_cluster)

section \<open>The high-water mark of a running engine\<close>

datatype perf_op = PfHydrate "trade_record list" | PfEpoch jsnum | PfEquity jsnum | PfSeed jsnum

fun perf_apply :: "performance_engine \<Rightarrow> perf_op \<Rightarrow> performance_engine" where
  "perf_apply pe (PfHydrate ts) = hydrate ts pe"
| "perf_apply pe (PfEpoch e) = setDrawdownEpoch e pe"
| "perf_apply pe (PfEquity x) = onEquity x pe"
| "perf_apply pe (PfSeed x) = seedObservedPeak x pe"

definition peak_finite :: "performance_engine \<Rightarrow> bool" where
  "peak_finite pe \<longleftrightarrow> is_finite (pe_observedPeakEquity pe)"

definition peak_le :: "performance_engine \<Rightarrow> performance_engine \<Rightarrow> bool" where
  "peak_le a b \<longleftrightarrow> pe_observedPeakEquity a = pe_observedPeakEquity b \<or> pe_observedPeakEquity a < pe_observedPeakEquity b"

interpretation perf: guarded_machine perf_apply peak_finite peak_le
proof
  fix s t u :: performance_engine and i :: perf_op
  show "peak_le s s" by (simp add: peak_le_def)
  show "peak_le s t \<Longrightarrow> peak_le t u \<Longrightarrow> peak_le s u" by (auto simp: peak_le_def intro: js_lt_trans)
  assume fin: "peak_finite s"
  show "peak_finite (perf_apply s i)"
    using fin by (cases i) (auto simp: peak_finite_def hydrate_def setDrawdownEpoch_def onEquity_def seedObservedPeak_def
        is_finite_iff Let_def)
  show "peak_le s (perf_apply s i)"
    using fin by (cases i) (auto simp: peak_finite_def peak_le_def hydrate_def setDrawdownEpoch_def onEquity_def
        seedObservedPeak_def is_finite_iff max_def Let_def)
qed

text \<open>
  A running engine forgets no peak: whatever journal is hydrated, equity observed, peak seeded or
  drawdown epoch set after a restart, the observed high-water mark never falls and the drawdown is
  always measured against at least that mark. An operator's reset of the baseline therefore takes
  effect only with a restart.
\<close>

theorem running_engine_keeps_observed_peak:
  assumes "pe_observedPeakEquity pe = Fin p" and "pe_observedPeakEquity (run_steps perf_apply pe ops) = Fin p'"
    and "realizedPeakEquity (run_steps perf_apply pe ops) = Fin r" and "0 < e" and "e < p"
  shows "p \<le> p' \<and> (\<exists>d. perf_drawdownPercent (run_steps perf_apply pe ops) (Fin e) = Fin d \<and> (p - e) / p * 100 \<le> d)"
proof -
  have "peak_finite pe" using assms(1) by (simp add: peak_finite_def)
  from perf.run_le [OF this, of ops] assms(1,2) have pp: "p \<le> p'" by (auto simp: peak_le_def)
  let ?m = "max (max r p') e"
  have m: "p \<le> ?m" "0 < ?m" using pp assms(4,5) by auto
  have "(p - e) / p \<le> (?m - e) / ?m"
  proof -
    have "e / ?m \<le> e / p" using m assms(4,5) by (intro divide_left_mono) auto
    then show ?thesis using m assms(4,5) by (simp add: diff_divide_distrib)
  qed
  then have "(p - e) / p * 100 \<le> (?m - e) / ?m * 100" by (rule mult_right_mono) simp
  moreover have "perf_drawdownPercent (run_steps perf_apply pe ops) (Fin e) = Fin ((?m - e) / ?m * 100)"
    using m assms(2,3) by (simp add: perf_drawdownPercent_def Let_def del: max_less_iff_conj)
  ultimately show ?thesis using pp by blast
qed

theorem running_engine_keeps_observed_peak_witness:
  "\<exists>d. perf_drawdownPercent (run_steps perf_apply (onEquity 12000 (perf_new 10000)) [PfEpoch 5, PfHydrate []]) (Fin 9000) = Fin d
     \<and> 25 \<le> d"
  using running_engine_keeps_observed_peak [of "onEquity 12000 (perf_new 10000)" 12000 "[PfEpoch 5, PfHydrate []]" 12000 10000 9000]
  by (simp add: onEquity_def perf_new_def setDrawdownEpoch_def hydrate_def sort_by_close_def foldPartials_def
      realizedPeakEquity_def Let_def)

end
