(* ===== verification/Liquidation.thy ===== *)
theory Liquidation
  imports CoreTypes
begin

text \<open>
  Isolated-margin liquidation and the leverage search of \<open>src/risk/liquidation.ts\<close>.
\<close>

section \<open>Brackets\<close>

record maintenance_tier =
  mt_notionalFloor :: jsnum
  mt_notionalCap :: jsnum
  mt_maintMarginRatio :: jsnum
  mt_cumMaintenance :: jsnum
  mt_maxLeverage :: jsnum

definition REPLAY_MAINTENANCE_TIERS :: "maintenance_tier list" where
  "REPLAY_MAINTENANCE_TIERS = [\<lparr> mt_notionalFloor = 0, mt_notionalCap = PInf, mt_maintMarginRatio = 1/100,
     mt_cumMaintenance = 0, mt_maxLeverage = 125 \<rparr>]"

definition tierForNotional :: "maintenance_tier list \<Rightarrow> jsnum \<Rightarrow> maintenance_tier option" where
  "tierForNotional tiers notional = last_opt (filter (\<lambda>t. notional \<ge> mt_notionalFloor t) tiers)"

section \<open>The liquidation price\<close>

definition solve :: "side \<Rightarrow> jsnum \<Rightarrow> jsnum \<Rightarrow> jsnum \<Rightarrow> maintenance_tier \<Rightarrow> jsnum" where
  "solve sd entry qty leverage tier =
     (let mmr = mt_maintMarginRatio tier
      in if sd = LONG then (entry * (1 - 1 / leverage) - mt_cumMaintenance tier / qty) / (1 - mmr)
         else (entry * (1 + 1 / leverage) + mt_cumMaintenance tier / qty) / (1 + mmr))"

text \<open>The five rounds that re-pick the tier at the liquidation notional.\<close>

fun repick :: "nat \<Rightarrow> side \<Rightarrow> jsnum \<Rightarrow> jsnum \<Rightarrow> jsnum \<Rightarrow> maintenance_tier list \<Rightarrow> maintenance_tier \<Rightarrow> jsnum
    \<Rightarrow> maintenance_tier \<times> jsnum" where
  "repick 0 sd entry qty leverage tiers tier price = (tier, price)"
| "repick (Suc n) sd entry qty leverage tiers tier price =
     (case tierForNotional tiers (math_max 0 price * qty) of
        None \<Rightarrow> (tier, price)
      | Some t \<Rightarrow> if mt_maintMarginRatio t \<le> mt_maintMarginRatio tier then (tier, price)
                  else repick n sd entry qty leverage tiers t (solve sd entry qty leverage t))"

definition isolatedLiquidationPrice ::
  "side \<Rightarrow> jsnum \<Rightarrow> jsnum \<Rightarrow> jsnum \<Rightarrow> maintenance_tier list \<Rightarrow> jsnum option" where
  "isolatedLiquidationPrice sd entry qty leverage tiers =
     (if \<not> (entry > 0 \<and> qty > 0 \<and> leverage \<ge> 1) \<or> tiers = [] then None
      else (case tierForNotional tiers (entry * qty) of
              None \<Rightarrow> None
            | Some tier \<Rightarrow>
                (let price = snd (repick 5 sd entry qty leverage tiers tier (solve sd entry qty leverage tier))
                 in if \<not> is_finite price then None else Some (math_max 0 price))))"

definition stopClearsLiquidation :: "side \<Rightarrow> jsnum \<Rightarrow> jsnum \<Rightarrow> jsnum \<Rightarrow> bool" where
  "stopClearsLiquidation sd stop liquidation clearance =
     (if sd = LONG then stop - liquidation \<ge> clearance else liquidation - stop \<ge> clearance)"

section \<open>The leverage search\<close>

record safe_leverage_input =
  sl_side :: side
  sl_entry :: jsnum
  sl_stop :: jsnum
  sl_qty :: jsnum
  sl_atr :: jsnum
  sl_clearanceAtr :: jsnum
  sl_requestedLeverage :: jsnum
  sl_minLeverage :: jsnum
  sl_maxLeverage :: jsnum
  sl_tiers :: "maintenance_tier list"

definition clears_at :: "safe_leverage_input \<Rightarrow> jsnum \<Rightarrow> jsnum option" where
  "clears_at i leverage =
     (case isolatedLiquidationPrice (sl_side i) (sl_entry i) (sl_qty i) leverage (sl_tiers i) of
        None \<Rightarrow> None
      | Some p \<Rightarrow> if stopClearsLiquidation (sl_side i) (sl_stop i) p (sl_clearanceAtr i * sl_atr i) then Some p else None)"

text \<open>
  The loop counts down by one from a whole number and stops below \<open>Math.max(1, minLeverage)\<close>, so
  it makes at most \<open>top\<close> rounds.
\<close>

fun search_down :: "nat \<Rightarrow> safe_leverage_input \<Rightarrow> jsnum \<Rightarrow> jsnum \<Rightarrow> (jsnum \<times> jsnum) option" where
  "search_down 0 i bottom leverage = None"
| "search_down (Suc n) i bottom leverage =
     (if leverage \<ge> bottom
      then (case clears_at i leverage of
              Some p \<Rightarrow> Some (leverage, p)
            | None \<Rightarrow> search_down n i bottom (leverage - 1))
      else None)"

fun whole :: "jsnum \<Rightarrow> nat" where
  "whole (Fin r) = nat \<lfloor>r\<rfloor>"
| "whole x = 0"

definition leverage_top :: "safe_leverage_input \<Rightarrow> maintenance_tier \<Rightarrow> jsnum" where
  "leverage_top i tier =
     math_floor (math_min (math_min (sl_requestedLeverage i) (sl_maxLeverage i)) (mt_maxLeverage tier))"

definition safestLeverage :: "safe_leverage_input \<Rightarrow> (jsnum \<times> jsnum) option" where
  "safestLeverage i =
     (if \<not> (sl_atr i > 0) \<or> \<not> (sl_qty i > 0) then None
      else (case tierForNotional (sl_tiers i) (sl_entry i * sl_qty i) of
              None \<Rightarrow> None
            | Some tier \<Rightarrow>
                (let top = leverage_top i tier
                 in search_down (Suc (whole top)) i (math_max 1 (sl_minLeverage i)) top)))"

section \<open>Lemmas\<close>

lemma tierForNotional_mem: "tierForNotional tiers n = Some t \<Longrightarrow> t \<in> set tiers \<and> mt_notionalFloor t \<le> n"
  unfolding tierForNotional_def by (drule last_opt_in_set) auto

text \<open>Brackets with finite numbers and maintenance rates below one.\<close>

definition tiers_ok :: "maintenance_tier list \<Rightarrow> bool" where
  "tiers_ok tiers \<longleftrightarrow> list_all (\<lambda>t. is_finite (mt_cumMaintenance t) \<and> is_finite (mt_maintMarginRatio t)
     \<and> 0 \<le> mt_maintMarginRatio t \<and> mt_maintMarginRatio t < 1) tiers"

lemma tiers_okD:
  "tiers_ok tiers \<Longrightarrow> t \<in> set tiers \<Longrightarrow> \<exists>m c. mt_maintMarginRatio t = Fin m \<and> mt_cumMaintenance t = Fin c \<and> 0 \<le> m \<and> m < 1"
  by (auto simp: tiers_ok_def list_all_iff is_finite_iff)

text \<open>The re-picked tier solves the price it is returned with, and its rate is never lower.\<close>

lemma repick_solves:
  assumes "repick n sd e q l tiers tier p = (t, p')" and "p = solve sd e q l tier" and "tier \<in> set tiers"
    and "tiers_ok tiers"
  shows "p' = solve sd e q l t \<and> t \<in> set tiers \<and> mt_maintMarginRatio tier \<le> mt_maintMarginRatio t"
  using assms
proof (induction n sd e q l tiers tier p rule: repick.induct)
  case (1 sd e q l tiers tier p)
  then show ?case using tiers_okD [OF 1(4,3)] by auto
next
  case (2 n sd e q l tiers tier p)
  obtain m where m: "mt_maintMarginRatio tier = Fin m" using tiers_okD [OF 2(5,4)] by blast
  show ?case
  proof (cases "tierForNotional tiers (math_max 0 p * q)")
    case None
    with 2 m show ?thesis by auto
  next
    case (Some u)
    have u: "u \<in> set tiers" using tierForNotional_mem [OF Some] by simp
    obtain mu where mu: "mt_maintMarginRatio u = Fin mu" using tiers_okD [OF 2(5) u] by blast
    show ?thesis
    proof (cases "mt_maintMarginRatio u \<le> mt_maintMarginRatio tier")
      case True
      with 2 m Some show ?thesis by auto
    next
      case False
      then have "p' = solve sd e q l t \<and> t \<in> set tiers \<and> mt_maintMarginRatio u \<le> mt_maintMarginRatio t"
        using 2 Some u by auto
      moreover have "mt_maintMarginRatio tier \<le> mt_maintMarginRatio u" using False m mu by simp
      ultimately show ?thesis by (blast intro: js_le_trans)
    qed
  qed
qed

lemma js_nat_step: "Fin x - num_of_nat (Suc k) = Fin (x - 1) - num_of_nat k"
  by (simp add: num_of_nat_def)

lemma search_down_cases:
  "case search_down n i b (Fin x) of
     Some (lev, p) \<Rightarrow> (\<exists>j. lev = Fin x - num_of_nat j \<and> b \<le> lev \<and> clears_at i lev = Some p
       \<and> (\<forall>k<j. clears_at i (Fin x - num_of_nat k) = None))
   | None \<Rightarrow> (\<forall>k<n. b \<le> Fin x - num_of_nat k \<longrightarrow> clears_at i (Fin x - num_of_nat k) = None)"
proof (induction n arbitrary: x)
  case 0
  show ?case by simp
next
  case (Suc n)
  have z: "Fin x - num_of_nat 0 = Fin x" by (simp add: num_of_nat_def)
  have step: "Fin x - 1 = Fin (x - 1)" by simp
  show ?case
  proof (cases "b \<le> Fin x")
    case False
    have "\<not> b \<le> Fin x - num_of_nat k" for k
      using False by (cases b) (auto simp: num_of_nat_def)
    with False show ?thesis by simp
  next
    case True
    show ?thesis
    proof (cases "clears_at i (Fin x)")
      case (Some p)
      with True z show ?thesis by (auto intro!: exI [of _ "0::nat"])
    next
      case None
      show ?thesis
      proof (cases "search_down n i b (Fin (x - 1))")
        case n: None
        with Suc.IH [of "x - 1"] True None z step show ?thesis
          by (auto simp: less_Suc_eq_0_disj js_nat_step simp del: js_consts)
      next
        case (Some r)
        obtain lev p where r: "r = (lev, p)" by (cases r)
        with Suc.IH [of "x - 1"] Some obtain j where j: "lev = Fin (x - 1) - num_of_nat j" "b \<le> lev" "clears_at i lev = Some p"
          "\<forall>k<j. clears_at i (Fin (x - 1) - num_of_nat k) = None" by auto
        have "\<forall>k<Suc j. clears_at i (Fin x - num_of_nat k) = None"
          using j(4) None z by (auto simp: less_Suc_eq_0_disj js_nat_step)
        moreover have "lev = Fin x - num_of_nat (Suc j)" using j(1) by (simp add: js_nat_step)
        ultimately show ?thesis using True None Some r j(2,3) step by (auto simp del: js_consts)
      qed
    qed
  qed
qed

text \<open>The two solutions, over the reals.\<close>

lemma liquidation_identity:
  fixes e q l m c p :: real
  assumes "0 < q" and "1 \<le> l"
  shows "m < 1 \<Longrightarrow> p = (e * (1 - 1 / l) - c / q) / (1 - m) \<Longrightarrow> q * e / l + q * (p - e) = q * p * m - c"
    and "0 \<le> m \<Longrightarrow> p = (e * (1 + 1 / l) + c / q) / (1 + m) \<Longrightarrow> q * e / l + q * (e - p) = q * p * m - c"
proof -
  assume "m < 1" "p = (e * (1 - 1 / l) - c / q) / (1 - m)"
  then have "p * (1 - m) = e * (1 - 1 / l) - c / q" by simp
  then have "q * (p * (1 - m)) = q * (e * (1 - 1 / l) - c / q)" by simp
  also have "\<dots> = q * e - q * e / l - c" using assms(1) by (simp add: algebra_simps)
  finally show "q * e / l + q * (p - e) = q * p * m - c" by (simp add: algebra_simps)
next
  assume "0 \<le> m" "p = (e * (1 + 1 / l) + c / q) / (1 + m)"
  then have "p * (1 + m) = e * (1 + 1 / l) + c / q" by simp
  then have "q * (p * (1 + m)) = q * (e * (1 + 1 / l) + c / q)" by simp
  also have "\<dots> = q * e + q * e / l + c" using assms(1) by (simp add: algebra_simps)
  finally show "q * e / l + q * (e - p) = q * p * m - c" by (simp add: algebra_simps)
qed

section \<open>Properties\<close>

text \<open>
  A positive liquidation price is where the position's equity meets its maintenance margin: for
  finite inputs and brackets, margin plus unrealised profit at that price equals the maintenance
  margin of a bracket whose rate is at least that of the bracket at entry.
\<close>

theorem liquidation_price_solves_equity:
  assumes "isolatedLiquidationPrice sd (Fin e) (Fin q) (Fin l) tiers = Some (Fin p)" and "0 < p" and "tiers_ok tiers"
  shows "\<exists>t t0 m c. t \<in> set tiers \<and> tierForNotional tiers (Fin (e * q)) = Some t0
    \<and> mt_maintMarginRatio t = Fin m \<and> mt_cumMaintenance t = Fin c \<and> mt_maintMarginRatio t0 \<le> Fin m
    \<and> q * e / l + (if sd = LONG then q * (p - e) else q * (e - p)) = q * p * m - c"
proof -
  from assms(1) obtain t0 where pos: "0 < e" "0 < q" "1 \<le> l" and t0: "tierForNotional tiers (Fin (e * q)) = Some t0"
    and p: "is_finite (snd (repick 5 sd (Fin e) (Fin q) (Fin l) tiers t0 (solve sd (Fin e) (Fin q) (Fin l) t0)))"
      "Fin p = math_max 0 (snd (repick 5 sd (Fin e) (Fin q) (Fin l) tiers t0 (solve sd (Fin e) (Fin q) (Fin l) t0)))"
    by (auto simp: isolatedLiquidationPrice_def Let_def split: if_splits option.splits)
  obtain t pr where r: "repick 5 sd (Fin e) (Fin q) (Fin l) tiers t0 (solve sd (Fin e) (Fin q) (Fin l) t0) = (t, pr)"
    by (cases "repick 5 sd (Fin e) (Fin q) (Fin l) tiers t0 (solve sd (Fin e) (Fin q) (Fin l) t0)")
  note t = repick_solves [OF r refl _ assms(3)]
  have mem: "t0 \<in> set tiers" using tierForNotional_mem [OF t0] by simp
  obtain m c where mc: "mt_maintMarginRatio t = Fin m" "mt_cumMaintenance t = Fin c" "0 \<le> m" "m < 1"
    using tiers_okD [OF assms(3)] t [OF mem] by blast
  have "pr = Fin p" using p r assms(2) by (cases pr) (auto simp: max_def split: if_splits)
  with t [OF mem] have "solve sd (Fin e) (Fin q) (Fin l) t = Fin p" by simp
  then have "q * e / l + (if sd = LONG then q * (p - e) else q * (e - p)) = q * p * m - c"
    using mc pos liquidation_identity [OF pos(2,3)] by (cases sd) (auto simp: solve_def)
  with t [OF mem] t0 mc show ?thesis by auto
qed

text \<open>
  The leverage search returns the highest whole leverage at which the stop clears liquidation:
  counting down from the whole request (capped by the limits and the bracket), every higher step
  fails, the result is at least the minimum, and when nothing is returned every step down to the
  minimum fails.
\<close>

theorem safestLeverage_maximal:
  assumes "tierForNotional (sl_tiers i) (sl_entry i * sl_qty i) = Some tier"
    and "leverage_top i tier = Fin x" and "0 < sl_atr i" and "0 < sl_qty i" and "sl_minLeverage i \<noteq> NaN"
  shows "case safestLeverage i of
     Some (lev, p) \<Rightarrow> (\<exists>j. lev = Fin x - num_of_nat j \<and> math_max 1 (sl_minLeverage i) \<le> lev \<and> clears_at i lev = Some p
       \<and> (\<forall>k<j. clears_at i (Fin x - num_of_nat k) = None))
   | None \<Rightarrow> (\<forall>k. math_max 1 (sl_minLeverage i) \<le> Fin x - num_of_nat k \<longrightarrow> clears_at i (Fin x - num_of_nat k) = None)"
proof -
  let ?b = "math_max 1 (sl_minLeverage i)"
  have s: "safestLeverage i = search_down (Suc (nat \<lfloor>x\<rfloor>)) i ?b (Fin x)"
    using assms by (simp add: safestLeverage_def Let_def del: search_down.simps)
  have "k < Suc (nat \<lfloor>x\<rfloor>)" if "?b \<le> Fin x - num_of_nat k" for k
  proof -
    have "1 \<le> ?b" using assms(5) by (intro math_max_ge) auto
    with that have "1 \<le> Fin x - num_of_nat k" by (blast intro: js_le_trans)
    then have "1 + real k \<le> x" by (simp add: num_of_nat_def)
    then show ?thesis by linarith
  qed
  with search_down_cases [where n = "Suc (nat \<lfloor>x\<rfloor>)" and i = i and b = ?b and x = x] show ?thesis
    unfolding s
    by (cases "search_down (Suc (nat \<lfloor>x\<rfloor>)) i ?b (Fin x)") (auto simp del: search_down.simps js_consts)
qed

theorem liquidation_price_solves_equity_witness:
  "isolatedLiquidationPrice LONG (Fin 100) (Fin 2) (Fin 10) REPLAY_MAINTENANCE_TIERS = Some (Fin (1000/11))
   \<and> (\<exists>m c. 2 * 100 / 10 + 2 * (1000/11 - 100) = 2 * (1000/11) * m - (c::real))"
proof
  show p: "isolatedLiquidationPrice LONG (Fin 100) (Fin 2) (Fin 10) REPLAY_MAINTENANCE_TIERS = Some (Fin (1000/11))"
    by (simp add: isolatedLiquidationPrice_def tierForNotional_def REPLAY_MAINTENANCE_TIERS_def last_opt_def
        numeral_eq_Suc solve_def Let_def)
  have "tiers_ok REPLAY_MAINTENANCE_TIERS" by (simp add: tiers_ok_def REPLAY_MAINTENANCE_TIERS_def)
  from liquidation_price_solves_equity [OF p _ this]
  show "\<exists>m c. 2 * 100 / 10 + 2 * (1000/11 - 100) = 2 * (1000/11) * m - (c::real)" by auto
qed

definition demo_leverage :: safe_leverage_input where
  "demo_leverage = \<lparr> sl_side = LONG, sl_entry = 100, sl_stop = 90, sl_qty = 2, sl_atr = 2, sl_clearanceAtr = 1,
     sl_requestedLeverage = 25/2, sl_minLeverage = 1, sl_maxLeverage = 20, sl_tiers = REPLAY_MAINTENANCE_TIERS \<rparr>"

theorem safestLeverage_maximal_witness:
  "case safestLeverage demo_leverage of
     Some (lev, p) \<Rightarrow> (\<exists>j. lev = Fin 12 - num_of_nat j \<and> clears_at demo_leverage lev = Some p)
   | None \<Rightarrow> clears_at demo_leverage (Fin 12) = None"
proof -
  have tier: "tierForNotional (sl_tiers demo_leverage) (sl_entry demo_leverage * sl_qty demo_leverage)
      = Some (hd REPLAY_MAINTENANCE_TIERS)"
    by (simp add: tierForNotional_def demo_leverage_def REPLAY_MAINTENANCE_TIERS_def last_opt_def)
  have top: "leverage_top demo_leverage (hd REPLAY_MAINTENANCE_TIERS) = Fin 12"
    by (simp add: leverage_top_def demo_leverage_def REPLAY_MAINTENANCE_TIERS_def floor_eq_iff)
  have "math_max 1 (sl_minLeverage demo_leverage) \<le> Fin 12 - num_of_nat 0"
    by (simp add: demo_leverage_def num_of_nat_def)
  with safestLeverage_maximal [OF tier top] show ?thesis
    by (auto simp: demo_leverage_def num_of_nat_def split: option.splits)
qed

end
