(* ===== verification/EquityHwm.thy ===== *)
theory EquityHwm
  imports Interfaces
begin

text \<open>
  The persisted equity high-water mark (\<open>src/risk/equityHwm.ts\<close>) and the operator's reset of the
  drawdown baseline (\<open>src/risk/hwmReset.ts\<close>). The file on disk is a field of its own, so that two
  processes can share it; the clock and the outcome of a write are inputs. A file that is missing,
  unreadable or not of the expected shape is \<open>None\<close>.
\<close>

record hwm_snapshot =
  hs_peaks :: "trade_mode \<Rightarrow> jsnum option"
  hs_resets :: "trade_mode \<Rightarrow> jsnum option"
  hs_updatedAt :: jsnum

definition EMPTY_HWM :: hwm_snapshot where
  "EMPTY_HWM = \<lparr> hs_peaks = (\<lambda>m. None), hs_resets = (\<lambda>m. None), hs_updatedAt = 0 \<rparr>"

definition all_modes :: "trade_mode list" where "all_modes = [Paper, Live]"

definition finite_entries :: "(trade_mode \<Rightarrow> jsnum option) \<Rightarrow> bool" where
  "finite_entries f \<longleftrightarrow> list_all (\<lambda>m. case f m of None \<Rightarrow> True | Some x \<Rightarrow> is_finite x) all_modes"

definition isHwmSnapshot :: "hwm_snapshot \<Rightarrow> bool" where
  "isHwmSnapshot s \<longleftrightarrow> finite_entries (hs_resets s) \<and> finite_entries (hs_peaks s)"

definition loadSnapshot :: "hwm_snapshot option \<Rightarrow> hwm_snapshot" where
  "loadSnapshot content =
     (case content of None \<Rightarrow> EMPTY_HWM | Some s \<Rightarrow> if isHwmSnapshot s then s else EMPTY_HWM)"

record hwm_store =
  hw_snapshot :: hwm_snapshot
  hw_disk :: "hwm_snapshot option"

definition hwm_open :: "hwm_snapshot option \<Rightarrow> hwm_store" where
  "hwm_open content = \<lparr> hw_snapshot = loadSnapshot content, hw_disk = content \<rparr>"

definition hwm_peak :: "trade_mode \<Rightarrow> hwm_store \<Rightarrow> jsnum" where
  "hwm_peak mode st = (case hs_peaks (hw_snapshot st) mode of None \<Rightarrow> 0 | Some p \<Rightarrow> p)"

definition hwm_resetAt :: "trade_mode \<Rightarrow> hwm_store \<Rightarrow> jsnum" where
  "hwm_resetAt mode st = (case hs_resets (hw_snapshot st) mode of None \<Rightarrow> 0 | Some r \<Rightarrow> r)"

definition hwm_persist :: "bool \<Rightarrow> hwm_store \<Rightarrow> hwm_store" where
  "hwm_persist ok st = (if ok then st\<lparr> hw_disk := Some (hw_snapshot st) \<rparr> else st)"

definition hwm_observe :: "bool \<Rightarrow> jsnum \<Rightarrow> trade_mode \<Rightarrow> jsnum \<Rightarrow> hwm_store \<Rightarrow> hwm_store" where
  "hwm_observe ok now mode equity st =
     (if \<not> is_finite equity \<or> equity \<le> 0 then st
      else if equity > hwm_peak mode st
      then hwm_persist ok (st\<lparr> hw_snapshot := (hw_snapshot st)\<lparr> hs_peaks := (hs_peaks (hw_snapshot st))(mode \<mapsto> equity),
                                                            hs_updatedAt := now \<rparr> \<rparr>)
      else st)"

definition hwm_reset :: "bool \<Rightarrow> jsnum \<Rightarrow> trade_mode \<Rightarrow> hwm_store \<Rightarrow> hwm_store" where
  "hwm_reset ok now mode st =
     (if hs_peaks (hw_snapshot st) mode = None then st
      else hwm_persist ok (st\<lparr> hw_snapshot := (hw_snapshot st)\<lparr> hs_peaks := (hs_peaks (hw_snapshot st))(mode := None),
                                                            hs_updatedAt := now \<rparr> \<rparr>))"

definition hwm_resetDrawdown :: "bool \<Rightarrow> jsnum \<Rightarrow> trade_mode \<Rightarrow> hwm_store \<Rightarrow> hwm_store" where
  "hwm_resetDrawdown ok now mode st =
     hwm_persist ok (st\<lparr> hw_snapshot :=
       \<lparr> hs_peaks = (hs_peaks (hw_snapshot st))(mode := None),
         hs_resets = (hs_resets (hw_snapshot st))(mode \<mapsto> now), hs_updatedAt = now \<rparr> \<rparr>)"

section \<open>The operator's reset\<close>

datatype reset_status = DRY_RUN | RESET | REFUSED | NOTHING_TO_RESET

record reset_options =
  ro_mode :: trade_mode
  ro_confirm :: bool
  ro_allowLive :: bool

record reset_report =
  rr_mode :: trade_mode
  rr_status :: reset_status
  rr_previousPeak :: jsnum
  rr_previousResetAt :: jsnum
  rr_backup :: "hwm_snapshot option"

text \<open>Maps the file's content to the content afterwards and the report; a backup is the content copied.\<close>

definition resetRiskBaseline ::
  "bool \<Rightarrow> jsnum \<Rightarrow> reset_options \<Rightarrow> hwm_snapshot option \<Rightarrow> hwm_snapshot option \<times> reset_report" where
  "resetRiskBaseline ok now options content =
     (let store = hwm_open content;
          mode = ro_mode options;
          report = (\<lambda>status backup. \<lparr> rr_mode = mode, rr_status = status, rr_previousPeak = hwm_peak mode store,
                      rr_previousResetAt = hwm_resetAt mode store, rr_backup = backup \<rparr>)
      in if mode = Live \<and> \<not> ro_allowLive options then (content, report REFUSED None)
         else if \<not> ro_confirm options then (content, report DRY_RUN None)
         else (hw_disk (hwm_resetDrawdown ok now mode store), report RESET content))"

section \<open>The store as a ratchet and as a durable store\<close>

datatype hwm_op = HObserve trade_mode jsnum | HReset trade_mode | HResetDrawdown trade_mode

fun hwm_apply :: "hwm_store \<Rightarrow> hwm_op \<times> bool \<times> jsnum \<Rightarrow> hwm_store" where
  "hwm_apply st (HObserve mode equity, ok, now) = hwm_observe ok now mode equity st"
| "hwm_apply st (HReset mode, ok, now) = hwm_reset ok now mode st"
| "hwm_apply st (HResetDrawdown mode, ok, now) = hwm_resetDrawdown ok now mode st"

definition hwm_disk_peak :: "hwm_store \<Rightarrow> trade_mode \<Rightarrow> jsnum option" where
  "hwm_disk_peak st = (case hw_disk st of None \<Rightarrow> (\<lambda>m. None) | Some s \<Rightarrow> hs_peaks s)"

interpretation hwm: durable_store hwm_apply "\<lambda>st. hs_peaks (hw_snapshot st)" hwm_disk_peak "(=)" "\<lambda>(op, ok, now). ok"
proof
  fix op :: "hwm_op \<times> bool \<times> jsnum" and st :: hwm_store
  assume "case op of (op, ok, now) \<Rightarrow> ok"
  then obtain a now where op: "op = (a, True, now)" by (cases op) auto
  have refl: "rel_option (=) x x" for x :: "jsnum option" by (cases x) auto
  show "hwm_disk_peak (hwm_apply st op) = hs_peaks (hw_snapshot (hwm_apply st op))
    \<or> hwm_disk_peak (hwm_apply st op) = hwm_disk_peak st
      \<and> (\<forall>k. rel_option (=) (hs_peaks (hw_snapshot st) k) (hs_peaks (hw_snapshot (hwm_apply st op)) k))"
    using op by (cases a) (auto simp: hwm_observe_def hwm_reset_def hwm_resetDrawdown_def hwm_persist_def hwm_disk_peak_def refl)
qed auto

text \<open>Without an operator's reset the marks only rise, each mode's on its own.\<close>

fun hwm_observe_step :: "hwm_store \<Rightarrow> (trade_mode \<times> jsnum) \<times> bool \<times> jsnum \<Rightarrow> hwm_store" where
  "hwm_observe_step st ((mode, equity), ok, now) = hwm_observe ok now mode equity st"

definition hwm_good :: "hwm_store \<Rightarrow> bool" where
  "hwm_good st \<longleftrightarrow> (\<forall>m. is_finite (hwm_peak m st))"

definition hwm_le :: "hwm_store \<Rightarrow> hwm_store \<Rightarrow> bool" where
  "hwm_le a b \<longleftrightarrow> hs_resets (hw_snapshot a) = hs_resets (hw_snapshot b)
     \<and> (\<forall>m. hwm_peak m a = hwm_peak m b \<or> hwm_peak m a < hwm_peak m b)"

lemma hwm_persist_simps [simp]: "hw_snapshot (hwm_persist ok st) = hw_snapshot st" "hwm_peak m (hwm_persist ok st) = hwm_peak m st"
  by (simp_all add: hwm_persist_def hwm_peak_def)

interpretation hwm_ratchet: guarded_machine hwm_observe_step hwm_good hwm_le
proof
  fix s t u :: hwm_store and i :: "(trade_mode \<times> jsnum) \<times> bool \<times> jsnum"
  obtain mode equity ok now where i: "i = ((mode, equity), ok, now)" by (metis prod.exhaust)
  show "hwm_le s s" by (simp add: hwm_le_def)
  show "hwm_le s t \<Longrightarrow> hwm_le t u \<Longrightarrow> hwm_le s u" unfolding hwm_le_def by (metis js_lt_trans)
  assume "hwm_good s"
  then show "hwm_good (hwm_observe_step s i)"
    by (auto simp: i hwm_good_def hwm_observe_def hwm_peak_def split: option.splits)
  show "hwm_le s (hwm_observe_step s i)"
    by (auto simp: i hwm_le_def hwm_observe_def hwm_peak_def split: option.splits)
qed

lemma hwm_observe_other: "m \<noteq> mode \<Longrightarrow> hwm_peak m (hwm_observe ok now mode equity st) = hwm_peak m st"
  by (simp add: hwm_observe_def hwm_persist_def hwm_peak_def)

lemma hwm_observe_covers:
  "is_finite equity \<Longrightarrow> is_finite (hwm_peak mode st) \<Longrightarrow> 0 < equity \<Longrightarrow> equity \<le> hwm_peak mode (hwm_observe ok now mode equity st)"
  by (cases equity; cases "hwm_peak mode st") (auto simp: hwm_observe_def hwm_persist_def hwm_peak_def split: option.splits)

lemma hwm_fixed_mode:
  "list_all (\<lambda>i. fst (fst i) \<noteq> m) obs \<Longrightarrow> hwm_peak m (run_steps hwm_observe_step st obs) = hwm_peak m st"
  by (induction obs arbitrary: st) (auto simp: hwm_observe_other)

section \<open>Properties\<close>

text \<open>
  The high-water mark is a ratchet that keeps accounts apart: over any readings each mode's mark
  is at least what it was and at least every positive finite reading of that mode, and readings of
  one mode never move the mark of the other.
\<close>

theorem hwm_ratchets_per_mode:
  assumes "hwm_good st"
  shows "hwm_le st (run_steps hwm_observe_step st obs)
    \<and> (\<forall>m e ok now. ((m, e), ok, now) \<in> set obs \<and> is_finite e \<and> 0 < e
         \<longrightarrow> e \<le> hwm_peak m (run_steps hwm_observe_step st obs))
    \<and> (\<forall>m. list_all (\<lambda>i. fst (fst i) \<noteq> m) obs \<longrightarrow> hwm_peak m (run_steps hwm_observe_step st obs) = hwm_peak m st)"
proof (intro conjI allI impI)
  show "hwm_le st (run_steps hwm_observe_step st obs)" using assms by (rule hwm_ratchet.run_le)
next
  fix m e ok now
  assume "((m, e), ok, now) \<in> set obs \<and> is_finite e \<and> 0 < e"
  with assms show "e \<le> hwm_peak m (run_steps hwm_observe_step st obs)"
  proof (induction obs arbitrary: st)
    case (Cons o1 obs)
    let ?s = "hwm_observe_step st o1"
    have good: "hwm_good ?s" using Cons.prems(1) by (rule hwm_ratchet.inv_step)
    show ?case
    proof (cases "o1 = ((m, e), ok, now)")
      case True
      with Cons.prems have "e \<le> hwm_peak m ?s" by (auto simp: hwm_good_def intro: hwm_observe_covers)
      moreover have "hwm_le ?s (run_steps hwm_observe_step ?s obs)" using good by (rule hwm_ratchet.run_le)
      ultimately show ?thesis by (auto simp: hwm_le_def) (metis js_le_trans js_lt_imp_le)
    next
      case False
      with Cons.IH [OF good] Cons.prems(2) show ?thesis by simp
    qed
  qed simp
next
  fix m
  assume "list_all (\<lambda>i. fst (fst i) \<noteq> m) obs"
  then show "hwm_peak m (run_steps hwm_observe_step st obs) = hwm_peak m st" by (rule hwm_fixed_mode)
qed

theorem hwm_ratchets_per_mode_witness:
  "12 \<le> hwm_peak Paper (run_steps hwm_observe_step (hwm_open None) [((Paper, 12), True, 1), ((Live, 99), True, 2), ((Paper, 8), False, 3)])"
proof -
  have good: "hwm_good (hwm_open None)"
    by (simp add: hwm_good_def hwm_open_def loadSnapshot_def EMPTY_HWM_def hwm_peak_def)
  note r = hwm_ratchets_per_mode [OF this, of "[((Paper, 12), True, 1), ((Live, 99), True, 2), ((Paper, 8), False, 3)]",
      THEN conjunct2, THEN conjunct1]
  show ?thesis by (rule r [THEN spec [of _ Paper], THEN spec [of _ 12], THEN spec [of _ True], THEN spec [of _ 1], THEN mp]) simp
qed

text \<open>
  A restart cannot reset the drawdown: as long as writes succeed, a process that starts on the
  file reads exactly the marks the previous one held, after any readings and resets.
\<close>

theorem hwm_restart_keeps_peaks:
  assumes "list_all (\<lambda>(op, ok, now). ok) ops" and "st = run_steps hwm_apply (hwm_open None) ops"
    and "isHwmSnapshot (hw_snapshot st)"
  shows "hwm_peak mode (hwm_open (hw_disk st)) = hwm_peak mode st"
proof -
  have start: "hwm.in_step (hwm_open None)"
    by (simp add: hwm.in_step_def hwm_disk_peak_def hwm_open_def loadSnapshot_def EMPTY_HWM_def)
  have peaks: "hwm_disk_peak st = hs_peaks (hw_snapshot st)"
    using hwm.crash_agrees [OF assms(1) start] assms(2) by (auto simp: option.rel_eq fun_eq_iff)
  have resets: "case hw_disk t of None \<Rightarrow> hs_resets (hw_snapshot t) = (\<lambda>m. None) | Some s \<Rightarrow> hs_resets s = hs_resets (hw_snapshot t)"
    if "t = run_steps hwm_apply (hwm_open None) ops" for t :: hwm_store
  proof -
    define R where "R u \<longleftrightarrow> (case hw_disk u of None \<Rightarrow> hs_resets (hw_snapshot u) = (\<lambda>m. None)
      | Some s \<Rightarrow> hs_resets s = hs_resets (hw_snapshot u))" for u :: hwm_store
    have step: "R (hwm_apply u (a, True, now))" if "R u" for u a now
      using that by (cases a) (auto simp: R_def hwm_observe_def hwm_reset_def hwm_resetDrawdown_def hwm_persist_def)
    have run: "R (run_steps hwm_apply s ops)" if "R s" for s
      using assms(1) that
    proof (induction ops arbitrary: s)
      case (Cons x ops)
      then have "R (hwm_apply s x)" using step by (cases x) auto
      with Cons show ?case by simp
    qed simp
    have "R (hwm_open None)" by (simp add: R_def hwm_open_def loadSnapshot_def EMPTY_HWM_def)
    from run [OF this] show ?thesis unfolding that R_def .
  qed
  have "hs_peaks (loadSnapshot (hw_disk st)) = hs_peaks (hw_snapshot st)"
  proof (cases "hw_disk st")
    case None
    with peaks show ?thesis by (simp add: loadSnapshot_def EMPTY_HWM_def hwm_disk_peak_def)
  next
    case (Some s)
    with peaks resets [OF assms(2)] assms(3) have "isHwmSnapshot s" by (simp add: isHwmSnapshot_def hwm_disk_peak_def)
    with Some peaks show ?thesis by (simp add: loadSnapshot_def hwm_disk_peak_def)
  qed
  then show ?thesis by (simp add: hwm_peak_def hwm_open_def)
qed

theorem hwm_restart_keeps_peaks_witness:
  "hwm_peak Paper (hwm_open (hw_disk (run_steps hwm_apply (hwm_open None) [(HObserve Paper 12, True, 1)]))) = 12"
proof -
  have "isHwmSnapshot (hw_snapshot (run_steps hwm_apply (hwm_open None) [(HObserve Paper 12, True, 1)]))"
    by (simp add: isHwmSnapshot_def finite_entries_def all_modes_def hwm_open_def loadSnapshot_def EMPTY_HWM_def
        hwm_observe_def hwm_peak_def)
  from hwm_restart_keeps_peaks [OF _ refl this, of Paper] show ?thesis
    by (simp add: hwm_open_def loadSnapshot_def EMPTY_HWM_def hwm_observe_def hwm_peak_def)
qed

text \<open>
  A baseline reset made while the agent runs does not last: the running process keeps the mark it
  loaded, and the next new high it records writes its own view back, so the file then carries the
  process's reset times again and not the operator's.
\<close>

theorem running_store_undoes_operator_reset:
  assumes "options = \<lparr> ro_mode = mode, ro_confirm = True, ro_allowLive = True \<rparr>"
    and "running = hwm_open content"
    and "content' = fst (resetRiskBaseline True now options content)"
    and "running' = running\<lparr> hw_disk := content' \<rparr>"
    and "is_finite e" and "0 < e" and "hwm_peak mode running < e"
  shows "hwm_peak mode running' = hwm_peak mode running
    \<and> (\<exists>s. content' = Some s \<and> hs_peaks s mode = None \<and> hs_resets s mode = Some now)
    \<and> (\<exists>s. hw_disk (hwm_observe True later mode e running') = Some s \<and> hs_peaks s mode = Some e
          \<and> hs_resets s = hs_resets (loadSnapshot content))"
proof -
  have "\<not> e \<le> 0" using assms(5,6) by (cases e) auto
  then show ?thesis
    using assms by (auto simp: resetRiskBaseline_def hwm_resetDrawdown_def hwm_persist_def hwm_open_def hwm_observe_def
        hwm_peak_def Let_def)
qed

theorem running_store_undoes_operator_reset_witness:
  "\<exists>s. hw_disk (hwm_observe True 9 Live 20
        ((hwm_open None)\<lparr> hw_disk := fst (resetRiskBaseline True 5 \<lparr> ro_mode = Live, ro_confirm = True, ro_allowLive = True \<rparr> None) \<rparr>))
      = Some s \<and> hs_resets s Live = None"
proof -
  have p: "hwm_peak Live (hwm_open None) < 20"
    by (simp add: hwm_peak_def hwm_open_def loadSnapshot_def EMPTY_HWM_def)
  have f: "is_finite 20" "0 < (20 :: jsnum)" by simp_all
  from running_store_undoes_operator_reset [OF refl refl refl refl f p, of 5 9] show ?thesis
    by (auto simp: loadSnapshot_def EMPTY_HWM_def)
qed

text \<open>
  The reset tool writes only when it is told to: without the confirmation, or for the live account
  without its own flag, the file is left as it was; a confirmed reset backs the file up and changes
  the mark and the reset time of that one mode only.
\<close>

theorem reset_tool_is_guarded:
  "(if ro_mode options = Live \<and> \<not> ro_allowLive options \<or> \<not> ro_confirm options
    then fst (resetRiskBaseline ok now options content) = content
       \<and> rr_status (snd (resetRiskBaseline ok now options content)) \<in> {REFUSED, DRY_RUN}
    else rr_status (snd (resetRiskBaseline ok now options content)) = RESET
       \<and> rr_backup (snd (resetRiskBaseline ok now options content)) = content
       \<and> fst (resetRiskBaseline True now options content)
         = Some \<lparr> hs_peaks = (hs_peaks (loadSnapshot content))(ro_mode options := None),
                  hs_resets = (hs_resets (loadSnapshot content))(ro_mode options \<mapsto> now), hs_updatedAt = now \<rparr>)"
  by (auto simp: resetRiskBaseline_def hwm_resetDrawdown_def hwm_persist_def hwm_open_def Let_def)

end
