(* ===== verification/PaperEngine.thy ===== *)
theory PaperEngine
  imports Interfaces
begin

text \<open>
  The simulated venue of \<open>src/binance/paperEngine.ts\<close>. The clock (\<open>now\<close>, and \<open>wall\<close> for the
  journal's \<open>Date.now()\<close>) and the outcome of a write are inputs; the debounced save is a pending
  flag and an operation of its own. A saved book comes back with the numbers it had: JSON prints the
  finite numbers of a book exactly.
\<close>

section \<open>Data\<close>

record paper_position = position +
  pp_openFee :: "jsnum option"
  pp_funding :: "jsnum option"
  pp_openedAt :: "jsnum option"

record paper_costs =
  pc_takerFeeRate :: jsnum
  pc_slippageRate :: jsnum

record fill_params =
  fp_symbol :: string
  fp_buy :: bool
  fp_qty :: jsnum
  fp_leverage :: jsnum
  fp_strategy :: agent_id
  fp_stopLoss :: "jsnum option"
  fp_takeProfit :: "jsnum option"
  fp_reduceOnly :: bool
  fp_exitReason :: "exit_reason option"
  fp_entryPrice :: "jsnum option"
  fp_decisionId :: "string option"

text \<open>What is written to the file; \<open>flushSync\<close> leaves the funding clock out.\<close>

record paper_file =
  pf_equity :: jsnum
  pf_startEquity :: "jsnum option"
  pf_fundingSlot :: "jsnum option"
  pf_positions :: "paper_position list"
  pf_closedTrades :: "trade_record list"

record paper_engine =
  pg_positions :: "paper_position list"
  pg_equity :: jsnum
  pg_startEquity :: jsnum
  pg_trades :: "trade_record list"
  pg_lastPrices :: "string \<Rightarrow> jsnum option"
  pg_saveTimer :: bool
  pg_fundingSlot :: jsnum
  pg_disk :: "paper_file option"

datatype fill_error = NoPrice string | HeldByOther string agent_id agent_id

definition FUNDING_INTERVAL_MS :: jsnum where "FUNDING_INTERVAL_MS = 28800000"

definition INITIAL_EQUITY :: jsnum where "INITIAL_EQUITY = 1150"

definition MAX_TRADES :: nat where "MAX_TRADES = 1000"

definition MAINTENANCE_MARGIN_RATE :: jsnum where "MAINTENANCE_MARGIN_RATE = 5/1000"

definition or_zero :: "jsnum option \<Rightarrow> jsnum" where
  "or_zero x = (case x of None \<Rightarrow> 0 | Some v \<Rightarrow> v)"

text \<open>\<open>x ? \<dots>\<close> on an optional number.\<close>

definition opt_truthy :: "jsnum option \<Rightarrow> bool" where
  "opt_truthy x = (case x of None \<Rightarrow> False | Some v \<Rightarrow> truthy v)"

section \<open>One position\<close>

definition liquidationPrice :: "side \<Rightarrow> jsnum \<Rightarrow> jsnum \<Rightarrow> jsnum option" where
  "liquidationPrice sd entry leverage =
     (if sd = LONG \<and> leverage \<le> 1 then None
      else (let buffer = 1 / leverage - MAINTENANCE_MARGIN_RATE
            in Some (if sd = LONG then entry * (1 - buffer) else entry * (1 + buffer))))"

definition refreshMetrics :: "paper_position \<Rightarrow> paper_position" where
  "refreshMetrics pos =
     (let direction = directionOf (p_side pos);
          liqPrice = liquidationPrice (p_side pos) (p_entry pos) (p_leverage pos)
      in pos\<lparr> p_upnl := (p_mark pos - p_entry pos) * p_qty pos * direction - or_zero (pp_openFee pos) + or_zero (pp_funding pos),
              p_upnlPct := (if truthy (p_entry pos) then ((p_mark pos - p_entry pos) / p_entry pos) * 100 * direction else 0),
              p_liqDistancePct := (if opt_truthy liqPrice
                                   then Some ((abs (p_mark pos - the liqPrice) / p_mark pos) * 100) else None) \<rparr>)"

definition findExit :: "paper_position \<Rightarrow> stop_exit option" where
  "findExit pos =
     (let direction = directionOf (p_side pos);
          stopExit = findStopExit (p_side pos) (p_mark pos) (p_serverSl pos) (p_serverTp pos)
      in case liquidationPrice (p_side pos) (p_entry pos) (p_leverage pos) of
           Some liq \<Rightarrow> if (p_mark pos - liq) * direction \<le> 0 then Some (StopExit liq EX_LIQUIDATED) else stopExit
         | None \<Rightarrow> stopExit)"

definition fillPrice :: "paper_costs \<Rightarrow> side \<Rightarrow> jsnum \<Rightarrow> bool \<Rightarrow> jsnum" where
  "fillPrice costs sd price opening =
     (let against = (if opening then directionOf sd else - directionOf sd)
      in price * (1 + against * pc_slippageRate costs))"

text \<open>
  \<open>reduce\<close> on one position: the record it journals and what is left of the position (\<open>None\<close> when it
  is removed).
\<close>

definition reduce_position ::
  "paper_costs \<Rightarrow> jsnum \<Rightarrow> paper_position \<Rightarrow> jsnum \<Rightarrow> jsnum \<Rightarrow> exit_reason \<Rightarrow> trade_record \<times> paper_position option" where
  "reduce_position costs wall pos qty rawPrice reason =
     (let closeQty = math_min (p_qty pos) qty;
          share = (if p_qty pos > 0 then closeQty / p_qty pos else 0);
          price = fillPrice costs (p_side pos) rawPrice False;
          openFee = or_zero (pp_openFee pos) * share;
          funding = or_zero (pp_funding pos) * share;
          exitFee = price * closeQty * pc_takerFeeRate costs;
          gross = (price - p_entry pos) * closeQty * directionOf (p_side pos);
          pnl = gross - openFee - exitFee + funding;
          left_over = pos\<lparr> pp_openFee := Some (or_zero (pp_openFee pos) - openFee),
                            pp_funding := Some (or_zero (pp_funding pos) - funding),
                            p_qty := p_qty pos - closeQty \<rparr>
      in (\<lparr> t_symbol = p_symbol pos, t_strategy = p_strategy pos, t_side = p_side pos, t_entry = p_entry pos,
            t_exit = price, t_qty = closeQty, t_pnl = pnl, t_reason = reason, t_closedAt = wall,
            t_initialRisk = p_initialRisk pos, t_decisionId = p_decisionId pos, t_partial = (reason = EX_PARTIAL_TP) \<rparr>,
          if p_qty left_over \<le> 0 then None else Some (refreshMetrics left_over)))"

definition replace_label :: "jsnum option \<Rightarrow> stop_label \<Rightarrow> stop_label" where
  "replace_label x old = (if opt_truthy x then Level (the x) else old)"

definition scaleIn :: "paper_costs \<Rightarrow> jsnum \<Rightarrow> fill_params \<Rightarrow> jsnum \<Rightarrow> paper_position \<Rightarrow> paper_position" where
  "scaleIn costs now params price pos =
     (let totalQty = p_qty pos + fp_qty params
      in refreshMetrics (pos\<lparr>
           p_entry := (p_entry pos * p_qty pos + price * fp_qty params) / totalQty,
           pp_openFee := Some (or_zero (pp_openFee pos) + price * fp_qty params * pc_takerFeeRate costs),
           pp_openedAt := Some (((case pp_openedAt pos of None \<Rightarrow> now | Some t \<Rightarrow> t) * p_qty pos + now * fp_qty params) / totalQty),
           p_qty := totalQty, p_mark := price, p_leverage := fp_leverage params,
           p_serverSl := replace_label (fp_stopLoss params) (p_serverSl pos),
           p_serverTp := replace_label (fp_takeProfit params) (p_serverTp pos) \<rparr>))"

definition createPosition :: "paper_costs \<Rightarrow> jsnum \<Rightarrow> fill_params \<Rightarrow> side \<Rightarrow> jsnum \<Rightarrow> paper_position" where
  "createPosition costs now params sd price =
     refreshMetrics \<lparr> p_id = fp_symbol params @ ''_'' @ agent_name (fp_strategy params), p_symbol = fp_symbol params,
       p_side = sd, p_strategy = fp_strategy params, p_entry = price, p_qty = fp_qty params, p_mark = price,
       p_upnl = 0, p_upnlPct = 0, p_leverage = fp_leverage params, p_marginType = ISOLATED, p_liqDistancePct = None,
       p_serverSl = replace_label (fp_stopLoss params) (Label ''-''),
       p_serverTp = replace_label (fp_takeProfit params) (Label ''trail''),
       p_initialRisk = (if opt_truthy (fp_stopLoss params) then Some (abs (price - the (fp_stopLoss params))) else None),
       p_decisionId = fp_decisionId params,
       pp_openFee = Some (price * fp_qty params * pc_takerFeeRate costs), pp_funding = None, pp_openedAt = Some now \<rparr>"

section \<open>The book\<close>

definition syncEquity :: "paper_engine \<Rightarrow> paper_engine" where
  "syncEquity pg = pg\<lparr> pg_equity := pg_startEquity pg + js_sum (map p_upnl (pg_positions pg)) \<rparr>"

definition pg_persist :: "paper_engine \<Rightarrow> paper_engine" where
  "pg_persist pg = pg\<lparr> pg_saveTimer := True \<rparr>"

text \<open>The timer fires: the book as it is then is written.\<close>

definition pg_timer :: "bool \<Rightarrow> paper_engine \<Rightarrow> paper_engine" where
  "pg_timer ok pg =
     (if \<not> pg_saveTimer pg then pg
      else pg\<lparr> pg_saveTimer := False,
               pg_disk := (if ok then Some \<lparr> pf_equity = pg_equity pg, pf_startEquity = Some (pg_startEquity pg),
                                             pf_fundingSlot = Some (pg_fundingSlot pg), pf_positions = pg_positions pg,
                                             pf_closedTrades = pg_trades pg \<rparr>
                           else pg_disk pg) \<rparr>)"

definition pg_flushSync :: "bool \<Rightarrow> paper_engine \<Rightarrow> paper_engine" where
  "pg_flushSync ok pg =
     pg\<lparr> pg_saveTimer := False,
         pg_disk := (if ok then Some \<lparr> pf_equity = pg_equity pg, pf_startEquity = Some (pg_startEquity pg),
                                       pf_fundingSlot = None, pf_positions = pg_positions pg,
                                       pf_closedTrades = pg_trades pg \<rparr>
                     else pg_disk pg) \<rparr>"

definition pg_open :: "paper_file option \<Rightarrow> paper_engine" where
  "pg_open content =
     (let fresh = \<lparr> pg_positions = [], pg_equity = INITIAL_EQUITY, pg_startEquity = INITIAL_EQUITY, pg_trades = [],
                    pg_lastPrices = (\<lambda>s. None), pg_saveTimer = False, pg_fundingSlot = - 1, pg_disk = content \<rparr>
      in case content of
           None \<Rightarrow> fresh
         | Some f \<Rightarrow>
             if \<not> is_finite (pf_equity f) then fresh
             else fresh\<lparr> pg_positions := pf_positions f, pg_equity := pf_equity f,
                         pg_startEquity := (case pf_startEquity f of None \<Rightarrow> pf_equity f | Some e \<Rightarrow> e),
                         pg_trades := pf_closedTrades f,
                         pg_fundingSlot := (case pf_fundingSlot f of
                                              Some n \<Rightarrow> if is_integer n then n else - 1
                                            | None \<Rightarrow> - 1) \<rparr>)"

definition push_trade :: "trade_record \<Rightarrow> trade_record list \<Rightarrow> trade_record list" where
  "push_trade t ts = (if length (ts @ [t]) > MAX_TRADES then tl (ts @ [t]) else ts @ [t])"

text \<open>Replaces the first position that satisfies \<open>P\<close>, or removes it.\<close>

fun modify_first :: "('a \<Rightarrow> bool) \<Rightarrow> ('a \<Rightarrow> 'a option) \<Rightarrow> 'a list \<Rightarrow> 'a list" where
  "modify_first P f [] = []"
| "modify_first P f (x # xs) =
     (if P x then (case f x of None \<Rightarrow> xs | Some y \<Rightarrow> y # xs) else x # modify_first P f xs)"

definition owned_by :: "string \<Rightarrow> agent_id \<Rightarrow> paper_position \<Rightarrow> bool" where
  "owned_by symbol strategy p \<longleftrightarrow> p_symbol p = symbol \<and> p_strategy p = strategy"

definition book_reduce ::
  "paper_costs \<Rightarrow> jsnum \<Rightarrow> paper_position \<Rightarrow> jsnum \<Rightarrow> jsnum \<Rightarrow> exit_reason \<Rightarrow> paper_engine \<Rightarrow> paper_engine" where
  "book_reduce costs wall pos qty price reason pg =
     (case reduce_position costs wall pos qty price reason of
        (t, left_over) \<Rightarrow>
          pg\<lparr> pg_startEquity := pg_startEquity pg + t_pnl t, pg_trades := push_trade t (pg_trades pg),
              pg_positions := modify_first (owned_by (p_symbol pos) (p_strategy pos)) (\<lambda>x. left_over) (pg_positions pg) \<rparr>)"

text \<open>The first truthy price.\<close>

fun first_truthy :: "jsnum option list \<Rightarrow> jsnum option" where
  "first_truthy [] = None"
| "first_truthy (x # xs) = (if opt_truthy x then x else first_truthy xs)"

definition openPosition ::
  "paper_costs \<Rightarrow> jsnum \<Rightarrow> jsnum \<Rightarrow> fill_params \<Rightarrow> paper_engine \<Rightarrow> fill_error + paper_engine" where
  "openPosition costs now wall params pg =
     (let existing = find (owned_by (fp_symbol params) (fp_strategy params)) (pg_positions pg);
          price = first_truthy [fp_entryPrice params, pg_lastPrices pg (fp_symbol params), map_option p_mark existing];
          sd = (if fp_buy params then LONG else SHORT);
          holder = find (\<lambda>p. p_symbol p = fp_symbol params \<and> p_strategy p \<noteq> fp_strategy params) (pg_positions pg);
          finish = (\<lambda>pg'. Inr (pg_persist (syncEquity pg')))
      in case price of
           None \<Rightarrow> Inl (NoPrice (fp_symbol params))
         | Some pr \<Rightarrow>
             if \<not> fp_reduceOnly params \<and> holder \<noteq> None
             then Inl (HeldByOther (fp_symbol params) (p_strategy (the holder)) (fp_strategy params))
             else if fp_reduceOnly params
             then (case existing of
                     None \<Rightarrow> finish pg
                   | Some e \<Rightarrow> finish (book_reduce costs wall e (fp_qty params) pr
                                  (case fp_exitReason params of None \<Rightarrow> EX_CLOSE | Some r \<Rightarrow> r) pg))
             else (case existing of
                     None \<Rightarrow> finish (pg\<lparr> pg_positions := pg_positions pg
                               @ [createPosition costs now params sd (fillPrice costs sd pr True)] \<rparr>)
                   | Some e \<Rightarrow>
                       if p_side e = sd
                       then finish (pg\<lparr> pg_positions := modify_first (owned_by (fp_symbol params) (fp_strategy params))
                                 (\<lambda>x. Some (scaleIn costs now params (fillPrice costs sd pr True) x)) (pg_positions pg) \<rparr>)
                       else (let flat = book_reduce costs wall e (p_qty e) pr EX_FLIP pg
                             in finish (flat\<lparr> pg_positions := pg_positions flat
                                  @ [createPosition costs now params sd (fillPrice costs sd pr True)] \<rparr>))))"

definition pg_updateStops :: "string \<Rightarrow> agent_id \<Rightarrow> jsnum \<Rightarrow> jsnum option \<Rightarrow> paper_engine \<Rightarrow> paper_engine" where
  "pg_updateStops symbol strategy stopLoss takeProfit pg =
     (if find (owned_by symbol strategy) (pg_positions pg) = None then pg
      else pg_persist (pg\<lparr> pg_positions := modify_first (owned_by symbol strategy)
             (\<lambda>p. Some (p\<lparr> p_serverSl := Level stopLoss,
                           p_serverTp := (case takeProfit of None \<Rightarrow> Label ''trail'' | Some t \<Rightarrow> Level t) \<rparr>)) (pg_positions pg) \<rparr>))"

definition dropUnlistedSymbols :: "string list \<Rightarrow> paper_engine \<Rightarrow> paper_engine \<times> string list" where
  "dropUnlistedSymbols symbols pg =
     (let dropped = map p_symbol (filter (\<lambda>p. p_symbol p \<notin> set symbols) (pg_positions pg))
      in if dropped = [] then (pg, dropped)
         else (pg_persist (syncEquity (pg\<lparr> pg_positions := filter (\<lambda>p. p_symbol p \<in> set symbols) (pg_positions pg) \<rparr>)), dropped))"

section \<open>Marking to market\<close>

text \<open>
  The loop over a copy of the positions: each either stays (with its new mark) or is closed in full,
  which books its record and removes that very position.
\<close>

fun mark_loop ::
  "paper_costs \<Rightarrow> jsnum \<Rightarrow> (string \<Rightarrow> jsnum option) \<Rightarrow> jsnum \<Rightarrow> trade_record list \<Rightarrow> paper_position list
     \<Rightarrow> jsnum \<times> trade_record list \<times> paper_position list \<times> (exit_reason \<times> string \<times> jsnum) list" where
  "mark_loop costs wall prices start trades [] = (start, trades, [], [])"
| "mark_loop costs wall prices start trades (p # ps) =
     (case (if opt_truthy (prices (p_symbol p)) then
              (let pos = p\<lparr> p_mark := the (prices (p_symbol p)) \<rparr>
               in case findExit pos of
                    None \<Rightarrow> (start, trades, [refreshMetrics pos], [])
                  | Some (StopExit price reason) \<Rightarrow>
                      (case reduce_position costs wall pos (p_qty pos) price reason of
                         (t, left_over) \<Rightarrow>
                           (start + t_pnl t, push_trade t trades, (case left_over of None \<Rightarrow> [] | Some q \<Rightarrow> [q]),
                            [(reason, p_symbol pos, price)])))
            else (start, trades, [p], [])) of
        (start1, trades1, kept, out) \<Rightarrow>
          (case mark_loop costs wall prices start1 trades1 ps of
             (start2, trades2, rest, outs) \<Rightarrow> (start2, trades2, kept @ rest, out @ outs)))"

definition markAll :: "paper_costs \<Rightarrow> jsnum \<Rightarrow> (string \<Rightarrow> jsnum option) \<Rightarrow> paper_engine
    \<Rightarrow> paper_engine \<times> (exit_reason \<times> string \<times> jsnum) list" where
  "markAll costs wall prices pg =
     (case mark_loop costs wall prices (pg_startEquity pg) (pg_trades pg) (pg_positions pg) of
        (start, trades, positions, exits) \<Rightarrow>
          (pg_persist (syncEquity (pg\<lparr> pg_lastPrices := pg_lastPrices pg ++ prices, pg_startEquity := start,
                                       pg_trades := trades, pg_positions := positions \<rparr>)), exits))"

section \<open>Funding\<close>

definition funding_slot :: "jsnum \<Rightarrow> jsnum" where
  "funding_slot t = math_floor (t / FUNDING_INTERVAL_MS)"

definition accrue_position :: "(string \<Rightarrow> jsnum option) \<Rightarrow> jsnum \<Rightarrow> jsnum \<Rightarrow> paper_position \<Rightarrow> paper_position" where
  "accrue_position rates prevSlot slot pos =
     (case rates (p_symbol pos) of
        None \<Rightarrow> pos
      | Some rate \<Rightarrow>
          if \<not> is_finite rate then pos
          else
            (let openedSlot = (case pp_openedAt pos of None \<Rightarrow> - 1 | Some t \<Rightarrow> funding_slot t);
                 first = math_max prevSlot openedSlot + 1;
                 crossed = slot - first + 1
             in if crossed \<le> 0 then pos
                else refreshMetrics (pos\<lparr> pp_funding :=
                       Some (or_zero (pp_funding pos) - directionOf (p_side pos) * rate * p_qty pos * p_mark pos * crossed) \<rparr>)))"

definition accrueFunding :: "(string \<Rightarrow> jsnum option) \<Rightarrow> jsnum \<Rightarrow> paper_engine \<Rightarrow> paper_engine" where
  "accrueFunding rates now pg =
     (let slot = funding_slot now
      in if pg_fundingSlot pg < 0 then pg\<lparr> pg_fundingSlot := slot \<rparr>
         else if slot \<le> pg_fundingSlot pg then pg
         else pg_persist (syncEquity (pg\<lparr> pg_positions := map (accrue_position rates (pg_fundingSlot pg) slot) (pg_positions pg),
                                          pg_fundingSlot := slot \<rparr>)))"

definition marginUsed :: "paper_engine \<Rightarrow> jsnum" where
  "marginUsed pg =
     js_sum (map (\<lambda>p. (p_qty p * p_mark p) / (if truthy (p_leverage p) then p_leverage p else 1)) (pg_positions pg))"

section \<open>The book as a machine\<close>

datatype pg_op =
    PgFill fill_params jsnum jsnum
  | PgStops string agent_id jsnum "jsnum option"
  | PgDrop "string list"
  | PgMark "string \<Rightarrow> jsnum option" jsnum
  | PgFunding "string \<Rightarrow> jsnum option" jsnum
  | PgTimer bool
  | PgFlush bool

definition positive_qty :: "jsnum \<Rightarrow> bool" where
  "positive_qty q \<longleftrightarrow> is_finite q \<and> 0 < q"

text \<open>A fill that throws leaves the book.\<close>

fun pg_step :: "paper_costs \<Rightarrow> paper_engine \<Rightarrow> pg_op \<Rightarrow> paper_engine" where
  "pg_step costs pg (PgFill params now wall) =
     (case openPosition costs now wall params pg of Inl e \<Rightarrow> pg | Inr pg' \<Rightarrow> pg')"
| "pg_step costs pg (PgStops symbol strat sl tp) = pg_updateStops symbol strat sl tp pg"
| "pg_step costs pg (PgDrop symbols) = fst (dropUnlistedSymbols symbols pg)"
| "pg_step costs pg (PgMark prices wall) = fst (markAll costs wall prices pg)"
| "pg_step costs pg (PgFunding rates now) = accrueFunding rates now pg"
| "pg_step costs pg (PgTimer ok) = pg_timer ok pg"
| "pg_step costs pg (PgFlush ok) = pg_flushSync ok pg"

text \<open>The code does not check the quantity of a fill; the book is only sound for positive finite ones.\<close>

fun sound_op :: "pg_op \<Rightarrow> bool" where
  "sound_op (PgFill params now wall) = positive_qty (fp_qty params)"
| "sound_op _ = True"

definition refreshed :: "paper_position \<Rightarrow> bool" where
  "refreshed p \<longleftrightarrow> refreshMetrics p = p \<and> positive_qty (p_qty p)"

definition book_ok :: "paper_engine \<Rightarrow> bool" where
  "book_ok pg \<longleftrightarrow> pg_equity pg = pg_startEquity pg + js_sum (map p_upnl (pg_positions pg))
     \<and> list_all refreshed (pg_positions pg) \<and> distinct (map p_symbol (pg_positions pg))"

text \<open>The wallet moved by exactly the records that were journaled.\<close>

definition wallet_le :: "paper_engine \<Rightarrow> paper_engine \<Rightarrow> bool" where
  "wallet_le a b \<longleftrightarrow> (\<exists>ts. pg_startEquity b = pg_startEquity a + sum_list (map t_pnl ts)
     \<and> pg_trades b = foldl (\<lambda>acc t. push_trade t acc) (pg_trades a) ts)"

lemma wallet_le_refl: "wallet_le a a"
  unfolding wallet_le_def by (rule exI [of _ "[]"]) simp

lemma wallet_le_trans: "wallet_le a b \<Longrightarrow> wallet_le b c \<Longrightarrow> wallet_le a c"
  unfolding wallet_le_def by (elim exE, rule_tac x = "ts @ tsa" in exI) (simp add: add.assoc)

lemma wallet_le_same:
  "pg_startEquity b = pg_startEquity a \<Longrightarrow> pg_trades b = pg_trades a \<Longrightarrow> wallet_le a b"
  unfolding wallet_le_def by (rule exI [of _ "[]"]) simp

lemma refreshMetrics_frame [simp]:
  "p_symbol (refreshMetrics p) = p_symbol p" "p_strategy (refreshMetrics p) = p_strategy p"
  "p_qty (refreshMetrics p) = p_qty p" "p_side (refreshMetrics p) = p_side p" "p_mark (refreshMetrics p) = p_mark p"
  "p_entry (refreshMetrics p) = p_entry p" "pp_openFee (refreshMetrics p) = pp_openFee p"
  "pp_funding (refreshMetrics p) = pp_funding p" "pp_openedAt (refreshMetrics p) = pp_openedAt p"
  by (simp_all add: refreshMetrics_def Let_def)

lemma refreshMetrics_idem [simp]: "refreshMetrics (refreshMetrics p) = refreshMetrics p"
  by (simp add: refreshMetrics_def Let_def)

lemma refreshedI: "positive_qty (p_qty p) \<Longrightarrow> refreshed (refreshMetrics p)"
  by (simp add: refreshed_def)

lemma reduce_position_left:
  assumes "reduce_position costs wall pos q pr why = (t, Some p')" and "positive_qty (p_qty pos)" and "positive_qty q"
  shows "refreshed p' \<and> p_symbol p' = p_symbol pos"
  using assms
  by (cases "p_qty pos"; cases q)
    (auto simp: reduce_position_def positive_qty_def Let_def refreshed_def min_def split: if_splits)

lemma reduce_position_full:
  assumes "positive_qty (p_qty pos)"
  shows "snd (reduce_position costs wall pos (p_qty pos) pr why) = None"
  using assms by (cases "p_qty pos") (auto simp: reduce_position_def positive_qty_def Let_def)

lemma modify_first_symbols:
  assumes "\<And>x y. P x \<Longrightarrow> f x = Some y \<Longrightarrow> p_symbol y = p_symbol x"
  shows "set (map p_symbol (modify_first P f ps)) \<subseteq> set (map p_symbol ps)"
    and "distinct (map p_symbol ps) \<Longrightarrow> distinct (map p_symbol (modify_first P f ps))"
proof -
  show *: "set (map p_symbol (modify_first P f ps)) \<subseteq> set (map p_symbol ps)" for ps
    by (induction ps) (auto split: option.splits simp: assms)
  show "distinct (map p_symbol ps) \<Longrightarrow> distinct (map p_symbol (modify_first P f ps))"
  proof (induction ps)
    case (Cons x xs)
    with * [of xs] show ?case by (auto split: option.splits simp: assms)
  qed simp
qed

lemma modify_first_all:
  assumes "list_all Q ps" and "\<And>x y. Q x \<Longrightarrow> P x \<Longrightarrow> f x = Some y \<Longrightarrow> Q y"
  shows "list_all Q (modify_first P f ps)"
  using assms(1) by (induction ps) (auto split: option.splits intro: assms(2))

lemma modify_first_removed:
  assumes "distinct (map p_symbol ps)" and "\<And>x. P x \<Longrightarrow> p_symbol x = s" and "\<exists>x\<in>set ps. P x" and "\<And>x. P x \<Longrightarrow> f x = None"
  shows "s \<notin> set (map p_symbol (modify_first P f ps))"
  using assms(1,3)
proof (induction ps)
  case (Cons x xs)
  show ?case
  proof (cases "P x")
    case True
    with Cons.prems(1) assms(2,4) show ?thesis by auto
  next
    case False
    with Cons.prems obtain y where "y \<in> set xs" "P y" by auto
    then have "p_symbol y = s" "p_symbol y \<in> p_symbol ` set xs" using assms(2) by auto
    then have "p_symbol x \<noteq> s" using Cons.prems(1) by auto
    with Cons False \<open>y \<in> set xs\<close> \<open>P y\<close> show ?thesis by auto
  qed
qed simp

lemma finish_equity: "pg_equity (pg_persist (syncEquity pg)) = pg_startEquity (pg_persist (syncEquity pg))
    + js_sum (map p_upnl (pg_positions (pg_persist (syncEquity pg))))"
  by (simp add: syncEquity_def pg_persist_def)

lemma finish_simps [simp]: "pg_positions (pg_persist (syncEquity pg)) = pg_positions pg"
  "pg_startEquity (pg_persist (syncEquity pg)) = pg_startEquity pg" "pg_trades (pg_persist (syncEquity pg)) = pg_trades pg"
  by (simp_all add: syncEquity_def pg_persist_def)

lemma finish_ok:
  assumes "list_all refreshed (pg_positions pg)" and "distinct (map p_symbol (pg_positions pg))"
  shows "book_ok (pg_persist (syncEquity pg))"
  using assms finish_equity [of pg] by (simp add: book_ok_def)

lemma book_reduce_wallet: "wallet_le pg (book_reduce costs wall pos q pr why pg)"
proof -
  obtain t l where r: "reduce_position costs wall pos q pr why = (t, l)"
    by (cases "reduce_position costs wall pos q pr why")
  then show ?thesis
    unfolding wallet_le_def by (intro exI [of _ "[t]"]) (simp add: book_reduce_def)
qed

lemma book_reduce_ok:
  assumes "list_all refreshed (pg_positions pg)" and "distinct (map p_symbol (pg_positions pg))"
    and "refreshed pos" and "positive_qty q"
  shows "list_all refreshed (pg_positions (book_reduce costs wall pos q pr why pg))"
    and "distinct (map p_symbol (pg_positions (book_reduce costs wall pos q pr why pg)))"
    and "set (map p_symbol (pg_positions (book_reduce costs wall pos q pr why pg))) \<subseteq> set (map p_symbol (pg_positions pg))"
proof -
  obtain t l where r: "reduce_position costs wall pos q pr why = (t, l)"
    by (cases "reduce_position costs wall pos q pr why")
  have left: "refreshed y \<and> p_symbol y = p_symbol pos" if "l = Some y" for y
    using reduce_position_left [of costs wall pos q pr why t y] r that assms(3,4) by (simp add: refreshed_def)
  have sym: "p_symbol y = p_symbol x" if "owned_by (p_symbol pos) (p_strategy pos) x" "l = Some y" for x y
    using left [OF that(2)] that(1) by (simp add: owned_by_def)
  have pos: "pg_positions (book_reduce costs wall pos q pr why pg)
      = modify_first (owned_by (p_symbol pos) (p_strategy pos)) (\<lambda>x. l) (pg_positions pg)"
    by (simp add: book_reduce_def r)
  show "list_all refreshed (pg_positions (book_reduce costs wall pos q pr why pg))"
    unfolding pos using assms(1) left by (auto intro: modify_first_all)
  show "distinct (map p_symbol (pg_positions (book_reduce costs wall pos q pr why pg)))"
    "set (map p_symbol (pg_positions (book_reduce costs wall pos q pr why pg))) \<subseteq> set (map p_symbol (pg_positions pg))"
    unfolding pos using modify_first_symbols [OF sym] assms(2) by auto
qed

lemma scaleIn_ok:
  "refreshed p \<Longrightarrow> positive_qty (fp_qty params) \<Longrightarrow> refreshed (scaleIn costs now params pr p) \<and> p_symbol (scaleIn costs now params pr p) = p_symbol p"
  by (cases "p_qty p"; cases "fp_qty params")
    (auto simp: scaleIn_def refreshed_def positive_qty_def Let_def)

lemma createPosition_ok:
  "positive_qty (fp_qty params) \<Longrightarrow> refreshed (createPosition costs now params sd pr)
     \<and> p_symbol (createPosition costs now params sd pr) = fp_symbol params"
  by (simp add: createPosition_def refreshed_def)

lemma find_owned:
  assumes "find (owned_by a b) ps = Some e"
  shows "e \<in> set ps \<and> p_symbol e = a \<and> p_strategy e = b"
  using find_Some_iff_set [OF assms] by (simp add: owned_by_def)

lemma openPosition_ok:
  assumes "openPosition costs now wall params pg = Inr pg'" and "book_ok pg" and "positive_qty (fp_qty params)"
  shows "book_ok pg' \<and> wallet_le pg pg'"
proof -
  have inv: "list_all refreshed (pg_positions pg)" "distinct (map p_symbol (pg_positions pg))"
    using assms(2) by (auto simp: book_ok_def)
  define sd where "sd = (if fp_buy params then LONG else SHORT)"
  define existing where "existing = find (owned_by (fp_symbol params) (fp_strategy params)) (pg_positions pg)"
  define holder where "holder = find (\<lambda>p. p_symbol p = fp_symbol params \<and> p_strategy p \<noteq> fp_strategy params) (pg_positions pg)"
  obtain pr where pr: "first_truthy [fp_entryPrice params, pg_lastPrices pg (fp_symbol params), map_option p_mark existing] = Some pr"
    using assms(1) by (auto simp: openPosition_def existing_def Let_def split: option.splits)
  have ex: "e \<in> set (pg_positions pg)" "p_symbol e = fp_symbol params" "p_strategy e = fp_strategy params" "refreshed e"
    if "existing = Some e" for e
    using find_owned [of "fp_symbol params" "fp_strategy params" "pg_positions pg" e] that inv(1)
    by (auto simp: existing_def list_all_iff)
  note unf = openPosition_def existing_def [symmetric] holder_def [symmetric] sd_def [symmetric] Let_def pr option.case
  show ?thesis
  proof (cases "fp_reduceOnly params")
    case True
    show ?thesis
    proof (cases existing)
      case None
      with assms(1) True have "pg' = pg_persist (syncEquity pg)" unfolding unf by simp
      with inv show ?thesis by (auto intro: finish_ok wallet_le_same)
    next
      case (Some e)
      with assms(1) True obtain why where
        pg': "pg' = pg_persist (syncEquity (book_reduce costs wall e (fp_qty params) pr why pg))" unfolding unf by auto
      show ?thesis
        using book_reduce_ok [OF inv ex(4) [OF Some] assms(3)] book_reduce_wallet [of pg costs wall e "fp_qty params" pr why]
        unfolding pg' by (auto intro: finish_ok simp: wallet_le_def)
    qed
  next
    case entry: False
    with assms(1) have nh: "holder = None" unfolding unf by (auto split: if_splits)
    then have own: "p_strategy p = fp_strategy params" if "p \<in> set (pg_positions pg)" "p_symbol p = fp_symbol params" for p
      using that by (auto simp: holder_def find_None_iff)
    show ?thesis
    proof (cases existing)
      case None
      then have fresh: "fp_symbol params \<notin> set (map p_symbol (pg_positions pg))"
        using own by (auto simp: existing_def find_None_iff owned_by_def)
      have pg': "pg' = pg_persist (syncEquity (pg\<lparr> pg_positions := pg_positions pg
          @ [createPosition costs now params sd (fillPrice costs sd pr True)] \<rparr>))"
        using assms(1) None nh entry unfolding unf by simp
      show ?thesis
        unfolding pg' using inv fresh createPosition_ok [OF assms(3)]
        by (auto intro!: finish_ok wallet_le_same)
    next
      case (Some e)
      show ?thesis
      proof (cases "p_side e = sd")
        case True
        have pg': "pg' = pg_persist (syncEquity (pg\<lparr> pg_positions := modify_first (owned_by (fp_symbol params) (fp_strategy params))
            (\<lambda>x. Some (scaleIn costs now params (fillPrice costs sd pr True) x)) (pg_positions pg) \<rparr>))"
          using assms(1) Some True nh entry unfolding unf by simp
        let ?ps = "modify_first (owned_by (fp_symbol params) (fp_strategy params))
            (\<lambda>x. Some (scaleIn costs now params (fillPrice costs sd pr True) x)) (pg_positions pg)"
        have "distinct (map p_symbol ?ps)"
          by (rule modify_first_symbols(2) [OF _ inv(2)]) (auto simp: scaleIn_def Let_def)
        moreover have "list_all refreshed ?ps"
          using inv(1) scaleIn_ok [OF _ assms(3)] by (auto intro: modify_first_all)
        ultimately show ?thesis
          unfolding pg' by (auto intro!: finish_ok wallet_le_same)
      next
        case False
        let ?flat = "book_reduce costs wall e (p_qty e) pr EX_FLIP pg"
        have pg': "pg' = pg_persist (syncEquity (?flat\<lparr> pg_positions := pg_positions ?flat
            @ [createPosition costs now params sd (fillPrice costs sd pr True)] \<rparr>))"
          using assms(1) Some False nh entry unfolding unf by simp
        have q: "positive_qty (p_qty e)" using ex(4) [OF Some] by (simp add: refreshed_def)
        note red = book_reduce_ok [OF inv ex(4) [OF Some] q, of costs wall pr EX_FLIP]
        have gone: "fp_symbol params \<notin> set (map p_symbol (pg_positions ?flat))"
        proof -
          obtain t where "reduce_position costs wall e (p_qty e) pr EX_FLIP = (t, None)"
            using reduce_position_full [OF q, of costs wall pr EX_FLIP] by (metis prod.collapse)
          then have "pg_positions ?flat = modify_first (owned_by (p_symbol e) (p_strategy e)) (\<lambda>x. None) (pg_positions pg)"
            by (simp add: book_reduce_def)
          moreover have "fp_symbol params \<notin> set (map p_symbol (modify_first (owned_by (p_symbol e) (p_strategy e)) (\<lambda>x. None) (pg_positions pg)))"
            using ex(1-3) [OF Some] by (intro modify_first_removed [OF inv(2)]) (auto simp: owned_by_def)
          ultimately show ?thesis by simp
        qed
        show ?thesis
          unfolding pg' using red gone createPosition_ok [OF assms(3)] book_reduce_wallet [of pg costs wall e "p_qty e" pr EX_FLIP]
          by (auto intro!: finish_ok simp: wallet_le_def)
      qed
    qed
  qed
qed

lemma mark_loop_ok:
  "mark_loop costs wall prices start trades ps = (start', trades', qs, outs) \<Longrightarrow> list_all refreshed ps
     \<Longrightarrow> distinct (map p_symbol ps)
     \<Longrightarrow> list_all refreshed qs \<and> distinct (map p_symbol qs) \<and> set (map p_symbol qs) \<subseteq> set (map p_symbol ps)
       \<and> (\<exists>ts. start' = start + sum_list (map t_pnl ts) \<and> trades' = foldl (\<lambda>acc t. push_trade t acc) trades ts)"
proof (induction ps arbitrary: start trades qs outs)
  case Nil
  then show ?case by (auto intro: exI [of _ "[]"])
next
  case (Cons p ps)
  have q: "positive_qty (p_qty p)" using Cons.prems(2) by (simp add: refreshed_def)
  obtain s1 t1 kept out rest outs2 where
    first: "(if opt_truthy (prices (p_symbol p)) then
              (let pos = p\<lparr> p_mark := the (prices (p_symbol p)) \<rparr>
               in case findExit pos of
                    None \<Rightarrow> (start, trades, [refreshMetrics pos], [])
                  | Some (StopExit price reason) \<Rightarrow>
                      (case reduce_position costs wall pos (p_qty pos) price reason of
                         (t, left_over) \<Rightarrow>
                           (start + t_pnl t, push_trade t trades, (case left_over of None \<Rightarrow> [] | Some q \<Rightarrow> [q]),
                            [(reason, p_symbol pos, price)])))
            else (start, trades, [p], [])) = (s1, t1, kept, out)"
    and more: "mark_loop costs wall prices s1 t1 ps = (start', trades', rest, outs2)" "qs = kept @ rest"
    using Cons.prems(1) by (auto split: prod.splits)
  have k: "list_all refreshed kept" "kept = [] \<or> (\<exists>r. kept = [r] \<and> p_symbol r = p_symbol p)"
    and t: "(s1 = start \<and> t1 = trades) \<or> (\<exists>t. s1 = start + t_pnl t \<and> t1 = push_trade t trades)"
  proof -
    have full: "snd (reduce_position costs wall (p\<lparr> p_mark := m \<rparr>) (p_qty p) pr why) = None" for m pr why
      using reduce_position_full [of "p\<lparr> p_mark := m \<rparr>"] q by simp
    show "list_all refreshed kept" "kept = [] \<or> (\<exists>r. kept = [r] \<and> p_symbol r = p_symbol p)"
      "(s1 = start \<and> t1 = trades) \<or> (\<exists>t. s1 = start + t_pnl t \<and> t1 = push_trade t trades)"
      using first full Cons.prems(2) q
      by (auto simp: refreshed_def Let_def split: if_splits option.splits stop_exit.splits prod.splits)
        (metis snd_conv option.distinct(1))+
  qed
  from Cons.IH [OF more(1)] Cons.prems(2,3) obtain ts where IH: "list_all refreshed rest" "distinct (map p_symbol rest)"
    "set (map p_symbol rest) \<subseteq> set (map p_symbol ps)" "start' = s1 + sum_list (map t_pnl ts)"
    "trades' = foldl (\<lambda>acc t. push_trade t acc) t1 ts" by auto
  from t have "\<exists>ts. start' = start + sum_list (map t_pnl ts) \<and> trades' = foldl (\<lambda>acc t. push_trade t acc) trades ts"
  proof (elim disjE exE conjE)
    fix t assume "s1 = start + t_pnl t" "t1 = push_trade t trades"
    with IH(4,5) show ?thesis by (intro exI [of _ "t # ts"]) (simp add: add.assoc)
  qed (use IH(4,5) in blast)
  with IH(1-3) k more(2) Cons.prems(3) show ?case by auto
qed

lemma accrue_position_ok:
  "refreshed p \<Longrightarrow> refreshed (accrue_position rates a b p) \<and> p_symbol (accrue_position rates a b p) = p_symbol p"
  by (auto simp: accrue_position_def refreshed_def Let_def split: option.splits)

lemma updateStops_refreshed:
  "refreshed p \<Longrightarrow> refreshed (p\<lparr> p_serverSl := a, p_serverTp := b \<rparr>)"
  unfolding refreshed_def refreshMetrics_def Let_def by (cases p) simp

lemma modify_first_map:
  "(\<And>x. P x \<Longrightarrow> g (h x) = g x) \<Longrightarrow> map g (modify_first P (\<lambda>x. Some (h x)) ps) = map g ps"
  by (induction ps) auto

lemma pg_step_ok:
  assumes "book_ok pg" and "sound_op op"
  shows "book_ok (pg_step costs pg op) \<and> wallet_le pg (pg_step costs pg op)"
proof (cases op)
  case (PgFill params now wall)
  then show ?thesis
    using assms openPosition_ok [OF _ assms(1)] by (auto intro: wallet_le_refl split: sum.splits)
next
  case (PgStops symbol strat sl tp)
  let ?f = "\<lambda>p. Some (p\<lparr> p_serverSl := Level sl, p_serverTp := (case tp of None \<Rightarrow> Label ''trail'' | Some t \<Rightarrow> Level t) \<rparr> :: paper_position)"
  have "map p_upnl (modify_first (owned_by symbol strat) ?f (pg_positions pg)) = map p_upnl (pg_positions pg)"
    "map p_symbol (modify_first (owned_by symbol strat) ?f (pg_positions pg)) = map p_symbol (pg_positions pg)"
    by (rule modify_first_map; auto)+
  moreover have "list_all refreshed (modify_first (owned_by symbol strat) ?f (pg_positions pg))"
    using assms by (auto simp: book_ok_def intro!: modify_first_all updateStops_refreshed)
  ultimately show ?thesis
    using assms PgStops by (auto simp: pg_updateStops_def book_ok_def pg_persist_def intro: wallet_le_refl wallet_le_same)
next
  case (PgDrop symbols)
  show ?thesis
  proof (cases "map p_symbol (filter (\<lambda>p. p_symbol p \<notin> set symbols) (pg_positions pg)) = []")
    case True
    with assms PgDrop show ?thesis by (auto simp: dropUnlistedSymbols_def Let_def intro: wallet_le_refl)
  next
    case False
    have "list_all refreshed (filter (\<lambda>p. p_symbol p \<in> set symbols) (pg_positions pg))"
      "distinct (map p_symbol (filter (\<lambda>p. p_symbol p \<in> set symbols) (pg_positions pg)))"
      using assms by (auto simp: book_ok_def list_all_iff distinct_map_filter)
    with False PgDrop show ?thesis by (auto simp: dropUnlistedSymbols_def Let_def intro!: finish_ok wallet_le_same)
  qed
next
  case (PgMark prices wall)
  obtain start trades qs outs where m: "mark_loop costs wall prices (pg_startEquity pg) (pg_trades pg) (pg_positions pg)
      = (start, trades, qs, outs)" by (metis prod.collapse)
  let ?pg = "pg\<lparr> pg_lastPrices := pg_lastPrices pg ++ prices, pg_startEquity := start, pg_trades := trades, pg_positions := qs \<rparr>"
  have step: "pg_step costs pg op = pg_persist (syncEquity ?pg)" using PgMark m by (simp add: markAll_def)
  have inv: "list_all refreshed (pg_positions pg)" "distinct (map p_symbol (pg_positions pg))"
    using assms by (auto simp: book_ok_def)
  note ml = mark_loop_ok [OF m inv]
  have "book_ok (pg_persist (syncEquity ?pg))" using ml by (intro finish_ok) auto
  moreover have "wallet_le pg (pg_persist (syncEquity ?pg))" using ml by (auto simp: wallet_le_def)
  ultimately show ?thesis unfolding step by simp
next
  case (PgFunding rates now)
  let ?pg = "pg\<lparr> pg_positions := map (accrue_position rates (pg_fundingSlot pg) (funding_slot now)) (pg_positions pg),
     pg_fundingSlot := funding_slot now \<rparr>"
  have same: "map p_symbol (pg_positions ?pg) = map p_symbol (pg_positions pg)" "list_all refreshed (pg_positions ?pg)"
    using assms accrue_position_ok by (auto simp: book_ok_def list_all_iff)
  have "book_ok (pg_persist (syncEquity ?pg))"
    by (rule finish_ok) (use same assms in \<open>simp_all only: book_ok_def\<close>)
  moreover have "wallet_le pg (pg_persist (syncEquity ?pg))" by (rule wallet_le_same) simp_all
  moreover have "book_ok (pg\<lparr> pg_fundingSlot := funding_slot now \<rparr>)" "wallet_le pg (pg\<lparr> pg_fundingSlot := funding_slot now \<rparr>)"
    using assms by (auto simp: book_ok_def intro: wallet_le_same)
  ultimately show ?thesis
    using PgFunding assms wallet_le_refl [of pg] by (simp add: accrueFunding_def Let_def)
qed (use assms in \<open>auto simp: book_ok_def pg_timer_def pg_flushSync_def intro: wallet_le_same\<close>)

text \<open>The wallet and the journal move together whatever the quantities and whatever the book.\<close>

lemma wallet_le_frame:
  "wallet_le a b \<Longrightarrow> pg_startEquity c = pg_startEquity b \<Longrightarrow> pg_trades c = pg_trades b \<Longrightarrow> wallet_le a c"
  by (simp add: wallet_le_def)

lemma openPosition_wallet:
  assumes "openPosition costs now wall params pg = Inr pg'"
  shows "wallet_le pg pg'"
  using assms
  by (auto simp: openPosition_def Let_def split: option.splits if_splits
      intro: wallet_le_same wallet_le_frame [OF book_reduce_wallet])

lemma mark_loop_wallet:
  "mark_loop costs wall prices start trades ps = (start', trades', qs, outs)
     \<Longrightarrow> \<exists>ts. start' = start + sum_list (map t_pnl ts) \<and> trades' = foldl (\<lambda>acc t. push_trade t acc) trades ts"
proof (induction ps arbitrary: start trades qs outs)
  case Nil
  then show ?case by (auto intro: exI [of _ "[]"])
next
  case (Cons p ps)
  obtain s1 t1 kept out rest outs2 where
    first: "(if opt_truthy (prices (p_symbol p)) then
              (let pos = p\<lparr> p_mark := the (prices (p_symbol p)) \<rparr>
               in case findExit pos of
                    None \<Rightarrow> (start, trades, [refreshMetrics pos], [])
                  | Some (StopExit price reason) \<Rightarrow>
                      (case reduce_position costs wall pos (p_qty pos) price reason of
                         (t, left_over) \<Rightarrow>
                           (start + t_pnl t, push_trade t trades, (case left_over of None \<Rightarrow> [] | Some q \<Rightarrow> [q]),
                            [(reason, p_symbol pos, price)])))
            else (start, trades, [p], [])) = (s1, t1, kept, out)"
    and more: "mark_loop costs wall prices s1 t1 ps = (start', trades', rest, outs2)"
    using Cons.prems by (auto split: prod.splits)
  have t: "(s1 = start \<and> t1 = trades) \<or> (\<exists>t. s1 = start + t_pnl t \<and> t1 = push_trade t trades)"
    using first by (auto simp: Let_def split: if_splits option.splits stop_exit.splits prod.splits)
  from Cons.IH [OF more] obtain ts where IH: "start' = s1 + sum_list (map t_pnl ts)"
    "trades' = foldl (\<lambda>acc t. push_trade t acc) t1 ts" by auto
  from t show ?case
  proof (elim disjE exE conjE)
    fix t assume "s1 = start + t_pnl t" "t1 = push_trade t trades"
    with IH show ?thesis by (intro exI [of _ "t # ts"]) (simp add: add.assoc)
  qed (use IH in blast)
qed

lemma pg_step_wallet: "wallet_le pg (pg_step costs pg op)"
proof (cases op)
  case (PgFill params now wall)
  then show ?thesis using openPosition_wallet by (auto intro: wallet_le_refl split: sum.splits)
next
  case (PgMark prices wall)
  obtain start trades qs outs where m: "mark_loop costs wall prices (pg_startEquity pg) (pg_trades pg) (pg_positions pg)
      = (start, trades, qs, outs)" by (metis prod.collapse)
  then show ?thesis using PgMark mark_loop_wallet [OF m] by (auto simp: markAll_def wallet_le_def)
next
  case (PgStops symbol strat sl tp)
  then show ?thesis by (auto simp: pg_updateStops_def pg_persist_def intro: wallet_le_same)
next
  case (PgDrop symbols)
  then show ?thesis by (auto simp: dropUnlistedSymbols_def Let_def intro: wallet_le_same)
next
  case (PgFunding rates now)
  then show ?thesis by (auto simp: accrueFunding_def Let_def intro: wallet_le_same)
qed (auto simp: pg_timer_def pg_flushSync_def intro: wallet_le_same)

interpretation paper: guarded_machine "pg_step costs" "\<lambda>pg. True" wallet_le for costs
proof
  fix s t u :: paper_engine and i :: pg_op
  show "wallet_le s s" by (rule wallet_le_refl)
  show "wallet_le s t \<Longrightarrow> wallet_le t u \<Longrightarrow> wallet_le s u" by (rule wallet_le_trans)
  show "wallet_le s (pg_step costs s i)" by (rule pg_step_wallet)
qed simp_all

lemma book_run:
  "book_ok pg \<Longrightarrow> list_all sound_op ops \<Longrightarrow> book_ok (run_steps (pg_step costs) pg ops)"
  by (induction ops arbitrary: pg) (auto simp: pg_step_ok)

section \<open>Funding\<close>

lemma accrue_twice:
  assumes "p_qty p = Fin q" and "p_mark p = Fin m" and "or_zero (pp_funding p) = Fin f"
    and "case pp_openedAt p of None \<Rightarrow> True | Some t \<Rightarrow> is_finite t" and "a \<le> b" and "b \<le> c"
  shows "accrue_position rates (Fin b) (Fin c) (accrue_position rates (Fin a) (Fin b) p) = accrue_position rates (Fin a) (Fin c) p"
proof (cases "\<exists>r. rates (p_symbol p) = Some (Fin r)")
  case False
  then show ?thesis
    by (cases "rates (p_symbol p)") (auto simp: accrue_position_def is_finite_iff Let_def)
next
  case True
  then obtain r where r: "rates (p_symbol p) = Some (Fin r)" by blast
  obtain o1 where o1: "(case pp_openedAt p of None \<Rightarrow> - 1 | Some t \<Rightarrow> funding_slot t) = Fin o1"
    using assms(4) by (cases "pp_openedAt p") (auto simp: funding_slot_def FUNDING_INTERVAL_MS_def is_finite_iff)
  define d where "d = (if p_side p = LONG then r else - r) * q * m"
  have acc: "accrue_position rates (Fin x) (Fin y) u =
      (if y - max x o1 \<le> 0 then u else refreshMetrics (u\<lparr> pp_funding := Some (or_zero (pp_funding u) - Fin (d * (y - max x o1))) \<rparr>))"
    if "rates (p_symbol u) = Some (Fin r)" "p_qty u = Fin q" "p_mark u = Fin m" "p_side u = p_side p" "pp_openedAt u = pp_openedAt p"
    for x y u
    using that o1 by (cases "p_side p") (auto simp: accrue_position_def Let_def d_def algebra_simps)
  have fin: "refreshMetrics ((refreshMetrics (p\<lparr> pp_funding := F \<rparr>))\<lparr> pp_funding := G \<rparr>) = refreshMetrics (p\<lparr> pp_funding := G \<rparr>)" for F G
    by (simp add: refreshMetrics_def Let_def)
  note one = acc [OF r assms(1,2) refl refl, of a b] acc [OF r assms(1,2) refl refl, of a c] acc [OF r assms(1,2) refl refl, of b c]
  show ?thesis
  proof (cases "b - max a o1 \<le> 0")
    case True
    have "max b o1 = max a o1 \<or> c - max b o1 \<le> 0 \<and> c - max a o1 \<le> 0 \<or> b = max a o1 \<or> max b o1 = max a o1"
      using True assms(5,6) by (auto simp: max_def)
    then show ?thesis using True one assms(5,6) by (auto simp: max_def split: if_splits)
  next
    case False
    let ?u = "refreshMetrics (p\<lparr> pp_funding := Some (or_zero (pp_funding p) - Fin (d * (b - max a o1))) \<rparr>)"
    have u: "accrue_position rates (Fin a) (Fin b) p = ?u" using one(1) False by simp
    have mx: "max b o1 = b" using False by (auto simp: max_def split: if_splits)
    show ?thesis
    proof (cases "c - b \<le> 0")
      case True
      then have "c = b" using assms(6) by simp
      then show ?thesis unfolding u using acc [of ?u b c] r assms(1,2) mx one(1) False u by simp
    next
      case cb: False
      have "or_zero (pp_funding p) - Fin (d * (b - max a o1)) - Fin (d * (c - b)) = or_zero (pp_funding p) - Fin (d * (c - max a o1))"
        using assms(3) by (simp add: algebra_simps)
      then show ?thesis
        unfolding u using acc [of ?u b c] r assms(1,2) mx cb False one(2) fin by (simp add: or_zero_def)
    qed
  qed
qed

section \<open>Properties\<close>

text \<open>
  C18. The paper book stays consistent: from a consistent book, after any sequence of fills of positive finite
  quantities, stop updates, drops of unlisted symbols, marks, funding charges and saves the equity is the wallet plus
  the unrealised profit of the open positions, every position carries the profit its mark, fees and funding imply and a
  positive quantity, and no symbol is held twice.
\<close>

theorem paper_book_stays_consistent:
  assumes "book_ok pg" and "list_all sound_op ops"
  shows "book_ok (run_steps (pg_step costs) pg ops)"
  using assms by (rule book_run)

text \<open>
  C19. The wallet is the journal: over any sequence of operations, whatever their quantities, the wallet balance moves by
  exactly the sum of the profits of the records that were journaled, in the order they were appended.
\<close>

theorem paper_wallet_is_journal:
  "\<exists>ts. pg_startEquity (run_steps (pg_step costs) pg ops) = pg_startEquity pg + sum_list (map t_pnl ts)
     \<and> pg_trades (run_steps (pg_step costs) pg ops) = foldl (\<lambda>acc t. push_trade t acc) (pg_trades pg) ts"
  using paper.run_le [OF TrueI] by (simp add: wallet_le_def)

lemma pg_open_ok: "book_ok (pg_open None)"
  by (simp add: book_ok_def pg_open_def INITIAL_EQUITY_def js_sum_def)

definition demo_costs :: paper_costs where
  "demo_costs = \<lparr> pc_takerFeeRate = 4/10000, pc_slippageRate = 2/10000 \<rparr>"

definition demo_fill :: fill_params where
  "demo_fill = \<lparr> fp_symbol = ''BTCUSDT'', fp_buy = True, fp_qty = 2, fp_leverage = 5, fp_strategy = STRUCTURE_TREND,
     fp_stopLoss = Some 90, fp_takeProfit = None, fp_reduceOnly = False, fp_exitReason = None, fp_entryPrice = Some 100,
     fp_decisionId = None \<rparr>"

theorem paper_book_stays_consistent_witness:
  "book_ok (run_steps (pg_step demo_costs) (pg_open None) [PgFill demo_fill 1 1, PgMark (\<lambda>s. Some 80) 2])"
  by (rule paper_book_stays_consistent [OF pg_open_ok]) (simp add: demo_fill_def positive_qty_def)

theorem paper_wallet_is_journal_witness:
  "\<exists>ts :: trade_record list. pg_startEquity (run_steps (pg_step demo_costs) (pg_open None) [PgFill demo_fill 1 1, PgMark (\<lambda>s. Some 80) 2])
      = INITIAL_EQUITY + sum_list (map t_pnl ts)"
proof -
  obtain ts :: "trade_record list" where "pg_startEquity (run_steps (pg_step demo_costs) (pg_open None) [PgFill demo_fill 1 1, PgMark (\<lambda>s. Some 80) 2])
      = pg_startEquity (pg_open None) + sum_list (map t_pnl ts)"
    using paper_wallet_is_journal [of demo_costs "pg_open None" "[PgFill demo_fill 1 1, PgMark (\<lambda>s. Some 80) 2]"] by (elim exE conjE)
  moreover have "pg_startEquity (pg_open None) = INITIAL_EQUITY" by (simp add: pg_open_def)
  ultimately show ?thesis by metis
qed

text \<open>
  A round trip at an unchanged price costs exactly the slippage and the taker fee of both fills:
  opening a quantity on a symbol nobody holds and closing it in full at the same price leaves the
  positions as they were and the wallet lower by \<open>2 * price * qty * (slippage + fee)\<close>.
\<close>

theorem paper_round_trip_cost:
  assumes "\<forall>p\<in>set (pg_positions pg). p_symbol p \<noteq> fp_symbol params"
    and "fp_entryPrice params = Some (Fin pr)" and "0 < pr" and "fp_qty params = Fin q" and "0 < q"
    and "\<not> fp_reduceOnly params" and "pc_takerFeeRate costs = Fin f" and "pc_slippageRate costs = Fin sl"
    and "pg_startEquity pg = Fin w"
    and "openPosition costs now wall params pg = Inr pg1"
    and "openPosition costs now' wall' (params\<lparr> fp_reduceOnly := True \<rparr>) pg1 = Inr pg2"
  shows "pg_positions pg2 = pg_positions pg \<and> pg_startEquity pg2 = Fin (w - 2 * pr * q * (sl + f))"
proof -
  define sd where "sd = (if fp_buy params then LONG else SHORT)"
  define pos where "pos = createPosition costs now params sd (fillPrice costs sd (Fin pr) True)"
  have none: "find (owned_by (fp_symbol params) (fp_strategy params)) (pg_positions pg) = None"
    "find (\<lambda>p. p_symbol p = fp_symbol params \<and> p_strategy p \<noteq> fp_strategy params) (pg_positions pg) = None"
    using assms(1) by (auto simp: find_None_iff owned_by_def)
  have truthy: "opt_truthy (Some (Fin pr))" using assms(3) by (simp add: opt_truthy_def)
  have pg1: "pg1 = pg_persist (syncEquity (pg\<lparr> pg_positions := pg_positions pg @ [pos] \<rparr>))"
    using assms(10) by (simp add: openPosition_def none assms(2,6) truthy pos_def sd_def Let_def)
  have find1: "find (owned_by (fp_symbol params) (fp_strategy params)) (xs @ [pos]) = Some pos"
    if "find (owned_by (fp_symbol params) (fp_strategy params)) xs = None" for xs
    using that by (induction xs) (auto simp: pos_def createPosition_def owned_by_def split: if_splits)
  have mod1: "modify_first (owned_by (fp_symbol params) (fp_strategy params)) (\<lambda>x. None) (xs @ [pos]) = xs"
    if "find (owned_by (fp_symbol params) (fp_strategy params)) xs = None" for xs
    using that by (induction xs) (auto simp: pos_def createPosition_def owned_by_def split: if_splits)
  have own: "p_symbol pos = fp_symbol params" "p_strategy pos = fp_strategy params" "p_qty pos = Fin q" "p_side pos = sd"
    "p_entry pos = fillPrice costs sd (Fin pr) True" "pp_openFee pos = Some (fillPrice costs sd (Fin pr) True * Fin q * Fin f)"
    "pp_funding pos = None"
    using assms(4,7) by (simp_all add: pos_def createPosition_def)
  obtain t where r: "reduce_position costs wall' pos (Fin q) (Fin pr) why = (t why, None)"
      "t_pnl (t why) = Fin (- (2 * pr * q * (sl + f)))" for why
  proof -
    have "snd (reduce_position costs wall' pos (Fin q) (Fin pr) why) = None
      \<and> t_pnl (fst (reduce_position costs wall' pos (Fin q) (Fin pr) why)) = Fin (- (2 * pr * q * (sl + f)))" for why
      using assms(5,7,8) own
      by (cases sd) (auto simp: reduce_position_def fillPrice_def or_zero_def Let_def algebra_simps)
    then show thesis
      by (intro that [of "\<lambda>why. fst (reduce_position costs wall' pos (Fin q) (Fin pr) why)"]) (auto intro: prod_eqI)
  qed
  have "pg_positions pg2 = modify_first (owned_by (fp_symbol params) (fp_strategy params)) (\<lambda>x. None) (pg_positions pg @ [pos])
      \<and> pg_startEquity pg2 = pg_startEquity pg + Fin (- (2 * pr * q * (sl + f)))"
    using assms(11) find1 [OF none(1)] own r unfolding pg1
    by (auto simp: openPosition_def book_reduce_def assms(2,4) truthy Let_def)
  with mod1 [OF none(1)] assms(9) show ?thesis by simp
qed

lemma demo_fill_opens:
  "\<exists>pg1. openPosition demo_costs 1 1 demo_fill (pg_open None) = Inr pg1
     \<and> (\<exists>pg2. openPosition demo_costs 2 2 (demo_fill\<lparr> fp_reduceOnly := True \<rparr>) pg1 = Inr pg2)"
  by (simp add: openPosition_def pg_open_def demo_fill_def opt_truthy_def owned_by_def syncEquity_def pg_persist_def
      createPosition_def Let_def)

theorem paper_round_trip_cost_witness:
  "\<exists>pg1 pg2. openPosition demo_costs 1 1 demo_fill (pg_open None) = Inr pg1
     \<and> openPosition demo_costs 2 2 (demo_fill\<lparr> fp_reduceOnly := True \<rparr>) pg1 = Inr pg2
     \<and> pg_positions pg2 = [] \<and> pg_startEquity pg2 = Fin (1150 - 24/100)"
proof -
  obtain pg1 pg2 where r: "openPosition demo_costs 1 1 demo_fill (pg_open None) = Inr pg1"
      "openPosition demo_costs 2 2 (demo_fill\<lparr> fp_reduceOnly := True \<rparr>) pg1 = Inr pg2"
    using demo_fill_opens by blast
  have "pg_positions pg2 = pg_positions (pg_open None)
      \<and> pg_startEquity pg2 = Fin (1150 - 2 * 100 * 2 * (2/10000 + 4/10000))"
    by (rule paper_round_trip_cost [OF _ _ _ _ _ _ _ _ _ r])
      (simp_all add: pg_open_def demo_fill_def demo_costs_def INITIAL_EQUITY_def)
  with r show ?thesis by (auto simp: pg_open_def)
qed

text \<open>
  Funding is charged once per boundary however the calls are spaced: charging a position up to one
  boundary and later up to another, at the same rate and mark, leaves it as charging it once over
  both, also when it opened in between.
\<close>

theorem funding_charge_splits:
  assumes "p_qty p = Fin q" and "p_mark p = Fin m" and "or_zero (pp_funding p) = Fin f"
    and "case pp_openedAt p of None \<Rightarrow> True | Some t \<Rightarrow> is_finite t" and "a \<le> b" and "b \<le> c"
  shows "accrue_position rates (Fin b) (Fin c) (accrue_position rates (Fin a) (Fin b) p) = accrue_position rates (Fin a) (Fin c) p"
  using assms by (rule accrue_twice)

theorem funding_charge_splits_witness:
  "accrue_position (\<lambda>s. Some (1/10000)) 2 5 (accrue_position (\<lambda>s. Some (1/10000)) 1 2
      (createPosition demo_costs 40000000 demo_fill LONG 100))
   = accrue_position (\<lambda>s. Some (1/10000)) 1 5 (createPosition demo_costs 40000000 demo_fill LONG 100)"
  using funding_charge_splits [of "createPosition demo_costs 40000000 demo_fill LONG 100" 2 100 0 1 2 5 "\<lambda>s. Some (1/10000)"]
  by (simp add: createPosition_def demo_fill_def or_zero_def)

text \<open>
  A clean shutdown forgets the funding clock: the debounced save keeps it, so a restart charges
  the boundaries crossed while the process was down, but the synchronous flush leaves it out, and the
  first call after that restart charges nothing whatever the time.
\<close>

theorem flush_forgets_funding_clock:
  assumes "is_finite (pg_equity pg)" and "is_integer (pg_fundingSlot pg)"
  shows "pg_positions (accrueFunding rates now (pg_open (pg_disk (pg_flushSync True pg)))) = pg_positions pg
    \<and> pg_positions (accrueFunding rates now (pg_open (pg_disk (pg_timer True (pg_persist pg)))))
      = pg_positions (accrueFunding rates now pg)"
proof
  show "pg_positions (accrueFunding rates now (pg_open (pg_disk (pg_flushSync True pg)))) = pg_positions pg"
    using assms(1) by (simp add: pg_flushSync_def pg_open_def accrueFunding_def Let_def)
  show "pg_positions (accrueFunding rates now (pg_open (pg_disk (pg_timer True (pg_persist pg)))))
      = pg_positions (accrueFunding rates now pg)"
    using assms by (simp add: pg_timer_def pg_persist_def pg_open_def accrueFunding_def syncEquity_def Let_def)
qed

theorem flush_forgets_funding_clock_witness:
  "let pg = (pg_open None)\<lparr> pg_fundingSlot := 3, pg_positions := [createPosition demo_costs 0 demo_fill LONG 100] \<rparr>
   in map pp_funding (pg_positions (accrueFunding (\<lambda>s. Some (1/10000)) 144000000 (pg_open (pg_disk (pg_flushSync True pg))))) = [None]
    \<and> map pp_funding (pg_positions (accrueFunding (\<lambda>s. Some (1/10000)) 144000000 (pg_open (pg_disk (pg_timer True (pg_persist pg))))))
      = [Some (Fin (- 4/100))]"
proof -
  let ?pg = "(pg_open None)\<lparr> pg_fundingSlot := 3, pg_positions := [createPosition demo_costs 0 demo_fill LONG 100] \<rparr>"
  have pre: "is_finite (pg_equity ?pg)" "is_integer (pg_fundingSlot ?pg)"
    by (simp_all add: pg_open_def INITIAL_EQUITY_def)
  have "map pp_funding (pg_positions (accrueFunding (\<lambda>s. Some (1/10000)) 144000000 ?pg)) = [Some (Fin (- 4/100))]"
    by (simp add: accrueFunding_def accrue_position_def funding_slot_def FUNDING_INTERVAL_MS_def pg_open_def createPosition_def
        demo_fill_def or_zero_def Let_def)
  moreover have "map pp_funding (pg_positions ?pg) = [None]" by (simp add: createPosition_def)
  ultimately show ?thesis
    unfolding Let_def using flush_forgets_funding_clock [OF pre, of "\<lambda>s. Some (1/10000)" 144000000] by metis
qed

end
