(* ===== verification/OrderBook.thy ===== *)
theory OrderBook
  imports Interfaces "HOL-Library.Multiset"
begin

text \<open>
  The local order book (\<open>src/microstructure/LocalOrderBook.ts\<close>). A \<open>Map\<close> from prices to quantities is
  an association list in insertion order (\<open>AList.update\<close> replaces in place and appends, as \<open>Map.set\<close>
  does). Update ids are whole numbers. A level of a diff is the pair of numbers \<open>Number\<close> reads from
  its two strings.
\<close>

type_synonym price_levels = "(jsnum \<times> jsnum) list"

record depth_diff =
  df_U :: int
  df_u :: int
  df_pu :: "int option"
  df_E :: jsnum
  df_b :: price_levels
  df_a :: price_levels

record depth_snapshot =
  dn_lastUpdateId :: int
  dn_bids :: price_levels
  dn_asks :: price_levels

datatype book_status = SYNCING | LIVE | RESYNC_REQUIRED

datatype diff_result = Buffered | Applied | Dropped | Gap

datatype book_reason =
    NoReason
  | AwaitingSnapshot
  | Replaying
  | CallerReset string
  | BufferOverflowed
  | NotStraddling int int int
  | SequenceGap "int option" "int option" int
  | MalformedBid jsnum jsnum
  | MalformedAsk jsnum jsnum
  | CrossedBook jsnum jsnum

definition MAX_BUFFER :: nat where "MAX_BUFFER = 5000"

record local_book =
  bk_bids :: price_levels
  bk_asks :: price_levels
  bk_buffer :: "depth_diff list"
  bk_lastU :: "int option"
  bk_snapshotId :: "int option"
  bk_status :: book_status
  bk_reason :: book_reason
  bk_lastEventAt :: jsnum
  bk_coverage :: "(jsnum \<times> jsnum) option"

definition new_book :: local_book where
  "new_book = \<lparr> bk_bids = [], bk_asks = [], bk_buffer = [], bk_lastU = None, bk_snapshotId = None,
     bk_status = SYNCING, bk_reason = AwaitingSnapshot, bk_lastEventAt = 0, bk_coverage = None \<rparr>"

definition book_reset :: "string \<Rightarrow> local_book \<Rightarrow> local_book" where
  "book_reset why b = b\<lparr> bk_bids := [], bk_asks := [], bk_buffer := [], bk_lastU := None,
     bk_snapshotId := None, bk_coverage := None, bk_status := SYNCING, bk_reason := CallerReset why \<rparr>"

definition book_fail :: "book_reason \<Rightarrow> local_book \<Rightarrow> local_book \<times> diff_result" where
  "book_fail why b = (b\<lparr> bk_status := RESYNC_REQUIRED, bk_reason := why \<rparr>, Gap)"

definition setLevel :: "price_levels \<Rightarrow> jsnum \<Rightarrow> jsnum \<Rightarrow> price_levels option" where
  "setLevel m price qty =
     (if \<not> is_finite price \<or> \<not> is_finite qty \<or> price \<le> 0 \<or> qty < 0 then None
      else if qty = 0 then Some (AList.delete price m)
      else Some (AList.update price qty m))"

text \<open>The loop over one side of a diff: the levels set so far, and the first one refused.\<close>

fun set_levels :: "price_levels \<Rightarrow> price_levels \<Rightarrow> price_levels \<times> (jsnum \<times> jsnum) option" where
  "set_levels m [] = (m, None)"
| "set_levels m ((p, q) # ls) =
     (case setLevel m p q of None \<Rightarrow> (m, Some (p, q)) | Some m' \<Rightarrow> set_levels m' ls)"

fun best_of :: "(jsnum \<Rightarrow> jsnum \<Rightarrow> bool) \<Rightarrow> jsnum option \<Rightarrow> jsnum list \<Rightarrow> jsnum option" where
  "best_of better best [] = best"
| "best_of better best (p # ps) =
     best_of better (case best of None \<Rightarrow> Some p | Some q \<Rightarrow> if better p q then Some p else Some q) ps"

definition bestBid :: "local_book \<Rightarrow> jsnum option" where
  "bestBid b = best_of (\<lambda>p q. q < p) None (map fst (bk_bids b))"

definition bestAsk :: "local_book \<Rightarrow> jsnum option" where
  "bestAsk b = best_of (\<lambda>p q. p < q) None (map fst (bk_asks b))"

record top_of_book =
  tb_bid :: jsnum
  tb_bidQty :: jsnum
  tb_ask :: jsnum
  tb_askQty :: jsnum

definition book_top :: "local_book \<Rightarrow> top_of_book option" where
  "book_top b = (case (bestBid b, bestAsk b) of
     (Some bid, Some ask) \<Rightarrow>
       Some \<lparr> tb_bid = bid, tb_bidQty = the (map_of (bk_bids b) bid),
              tb_ask = ask, tb_askQty = the (map_of (bk_asks b) ask) \<rparr>
   | _ \<Rightarrow> None)"

definition book_mid :: "local_book \<Rightarrow> jsnum option" where
  "book_mid b = (case (bestBid b, bestAsk b) of (Some bid, Some ask) \<Rightarrow> Some ((bid + ask) / 2) | _ \<Rightarrow> None)"

datatype book_side = Bids | Asks

fun insert_level :: "book_side \<Rightarrow> jsnum \<times> jsnum \<Rightarrow> price_levels \<Rightarrow> price_levels" where
  "insert_level s x [] = [x]"
| "insert_level s x (y # ys) =
     (if (case s of Bids \<Rightarrow> fst y < fst x | Asks \<Rightarrow> fst x < fst y) then x # y # ys
      else y # insert_level s x ys)"

text \<open>The best levels first; \<open>None\<close> is the default limit, \<open>Infinity\<close>.\<close>

definition levels :: "book_side \<Rightarrow> nat option \<Rightarrow> local_book \<Rightarrow> price_levels" where
  "levels s limit b =
     (let sorted_levels = foldl (\<lambda>acc x. insert_level s x acc) []
            (case s of Bids \<Rightarrow> bk_bids b | Asks \<Rightarrow> bk_asks b)
      in case limit of None \<Rightarrow> sorted_levels | Some n \<Rightarrow> take n sorted_levels)"

definition crossed :: "local_book \<Rightarrow> (jsnum \<times> jsnum) option" where
  "crossed b = (case (bestBid b, bestAsk b) of
     (Some bid, Some ask) \<Rightarrow> if ask \<le> bid then Some (bid, ask) else None | _ \<Rightarrow> None)"

text \<open>The position of an event in the chain: it must straddle the snapshot first, then follow its predecessor.\<close>

definition straddles :: "int \<Rightarrow> depth_diff \<Rightarrow> bool" where
  "straddles sid d \<longleftrightarrow> df_U d \<le> sid \<and> sid \<le> df_u d"

definition follows :: "int \<Rightarrow> depth_diff \<Rightarrow> bool" where
  "follows u d = (case df_pu d of Some pu \<Rightarrow> pu = u | None \<Rightarrow> df_U d = u + 1)"

definition apply_diff :: "int \<Rightarrow> local_book \<Rightarrow> depth_diff \<Rightarrow> local_book \<times> diff_result" where
  "apply_diff sid b d =
     (if df_u d < sid then (b, Dropped)
      else if bk_lastU b = None \<and> \<not> straddles sid d then book_fail (NotStraddling (df_U d) (df_u d) sid) b
      else if bk_lastU b \<noteq> None \<and> \<not> follows (the (bk_lastU b)) d
        then book_fail (SequenceGap (bk_lastU b) (df_pu d) (df_U d)) b
      else (case set_levels (bk_bids b) (df_b d) of
         (bids, Some (p, q)) \<Rightarrow> book_fail (MalformedBid p q) (b\<lparr> bk_bids := bids \<rparr>)
       | (bids, None) \<Rightarrow>
           (case set_levels (bk_asks b) (df_a d) of
              (asks, Some (p, q)) \<Rightarrow> book_fail (MalformedAsk p q) (b\<lparr> bk_bids := bids, bk_asks := asks \<rparr>)
            | (asks, None) \<Rightarrow>
                (let b' = b\<lparr> bk_bids := bids, bk_asks := asks, bk_lastU := Some (df_u d),
                             bk_lastEventAt := df_E d \<rparr>
                 in case crossed b' of
                      Some (bid, ask) \<Rightarrow> book_fail (CrossedBook bid ask) b'
                    | None \<Rightarrow> (b'\<lparr> bk_status := LIVE, bk_reason := NoReason \<rparr>, Applied)))))"

definition onDiff :: "local_book \<Rightarrow> depth_diff \<Rightarrow> local_book \<times> diff_result" where
  "onDiff b d =
     (if bk_status b = RESYNC_REQUIRED then (b, Dropped)
      else case bk_snapshotId b of
        None \<Rightarrow> (if MAX_BUFFER \<le> length (bk_buffer b) then book_fail BufferOverflowed b
                 else (b\<lparr> bk_buffer := bk_buffer b @ [d] \<rparr>, Buffered))
      | Some sid \<Rightarrow> apply_diff sid b d)"

definition snapshot_side :: "price_levels \<Rightarrow> price_levels" where
  "snapshot_side ls = foldl (\<lambda>m (p, q). if 0 < q then AList.update p q m else m) [] ls"

fun replay :: "int \<Rightarrow> local_book \<Rightarrow> depth_diff list \<Rightarrow> local_book \<times> diff_result" where
  "replay sid b [] = (b, Applied)"
| "replay sid b (d # ds) =
     (case apply_diff sid b d of (b', r) \<Rightarrow> if r = Gap then (b', Gap) else replay sid b' ds)"

definition book_loadSnapshot :: "local_book \<Rightarrow> depth_snapshot \<Rightarrow> local_book \<times> diff_result" where
  "book_loadSnapshot b s =
     (let bids = snapshot_side (dn_bids s); asks = snapshot_side (dn_asks s)
      in replay (dn_lastUpdateId s)
           (b\<lparr> bk_bids := bids, bk_asks := asks, bk_snapshotId := Some (dn_lastUpdateId s), bk_lastU := None,
               bk_coverage := (if bids \<noteq> [] \<and> asks \<noteq> []
                  then Some (math_min_list (map fst bids), math_max_list (map fst asks)) else None),
               bk_buffer := [], bk_status := SYNCING, bk_reason := Replaying \<rparr>)
           (bk_buffer b))"

section \<open>Sides of the book\<close>

text \<open>What a side is, whatever the order of its levels: last write wins, a quantity of zero removes.\<close>

definition side_after :: "(jsnum \<Rightarrow> jsnum option) \<Rightarrow> price_levels \<Rightarrow> jsnum \<Rightarrow> jsnum option" where
  "side_after m ls = foldl (\<lambda>m (p, q). if q = 0 then m(p := None) else m(p \<mapsto> q)) m ls"

definition level_ok :: "jsnum \<times> jsnum \<Rightarrow> bool" where
  "level_ok l \<longleftrightarrow> is_finite (fst l) \<and> 0 < fst l \<and> is_finite (snd l) \<and> 0 < snd l"

definition side_ok :: "price_levels \<Rightarrow> bool" where
  "side_ok m \<longleftrightarrow> distinct (map fst m) \<and> list_all level_ok m"

definition snapshot_ok :: "depth_snapshot \<Rightarrow> bool" where
  "snapshot_ok s \<longleftrightarrow> list_all (\<lambda>l. is_finite (fst l) \<and> 0 < fst l \<and> is_finite (snd l)) (dn_bids s @ dn_asks s)"

lemma setLevel_map_of: "setLevel m p q = Some m' \<Longrightarrow> map_of m' = side_after (map_of m) [(p, q)]"
  by (auto simp: setLevel_def side_after_def update_conv' delete_conv' simp del: js_consts split: if_splits)

lemma side_ok_update:
  "side_ok m \<Longrightarrow> level_ok (p, q) \<Longrightarrow> side_ok (AList.update p q m)"
  using set_update_subset [of p q m] by (auto simp: side_ok_def list_all_iff distinct_update)

lemma setLevel_ok: "setLevel m p q = Some m' \<Longrightarrow> side_ok m \<Longrightarrow> side_ok m'"
proof -
  assume s: "setLevel m p q = Some m'" and m: "side_ok m"
  show "side_ok m'"
  proof (cases "q = 0")
    case True
    with s m set_delete_subset [of p m] show ?thesis
      by (auto simp: setLevel_def side_ok_def list_all_iff distinct_delete split: if_splits)
  next
    case False
    with s have "level_ok (p, q)"
      by (cases p; cases q) (auto simp: setLevel_def level_ok_def split: if_splits)
    with s m False show ?thesis by (auto simp: setLevel_def side_ok_update split: if_splits)
  qed
qed

lemma side_after_Cons: "side_after m (l # ls) = side_after (side_after m [l]) ls"
  by (simp add: side_after_def)

lemma set_levels_map_of: "set_levels m ls = (m', None) \<Longrightarrow> map_of m' = side_after (map_of m) ls"
proof (induction m ls rule: set_levels.induct)
  case (1 m)
  then show ?case by (simp add: side_after_def)
next
  case (2 m p q ls)
  then obtain m1 where m1: "setLevel m p q = Some m1" "set_levels m1 ls = (m', None)"
    by (cases "setLevel m p q") auto
  from 2(1) [OF m1] show ?case by (simp only: setLevel_map_of [OF m1(1)] side_after_Cons [of _ "(p, q)" ls])
qed

lemma set_levels_ok: "side_ok m \<Longrightarrow> side_ok (fst (set_levels m ls))"
proof (induction m ls rule: set_levels.induct)
  case (2 m p q ls)
  then show ?case by (cases "setLevel m p q") (auto dest: setLevel_ok)
qed simp

lemma snapshot_side_fold_ok:
  "side_ok m \<Longrightarrow> list_all (\<lambda>l. is_finite (fst l) \<and> 0 < fst l \<and> is_finite (snd l)) ls
     \<Longrightarrow> side_ok (foldl (\<lambda>m (p, q). if 0 < q then AList.update p q m else m) m ls)"
proof (induction ls arbitrary: m)
  case (Cons l ls)
  then have "side_ok (if 0 < snd l then AList.update (fst l) (snd l) m else m)"
    by (auto intro!: side_ok_update simp: level_ok_def)
  from Cons.IH [OF this] Cons.prems(2) show ?case by (simp add: case_prod_beta)
qed simp

lemma side_ok_Nil [simp]: "side_ok []"
  by (simp add: side_ok_def)

lemma snapshot_side_ok:
  "snapshot_ok s \<Longrightarrow> side_ok (snapshot_side (dn_bids s)) \<and> side_ok (snapshot_side (dn_asks s))"
  unfolding snapshot_side_def snapshot_ok_def list_all_append
  by (intro conjI snapshot_side_fold_ok side_ok_Nil) (elim conjE; assumption)+

section \<open>The touch\<close>

lemma best_of_some:
  "best_of better best ps = None \<longleftrightarrow> best = None \<and> ps = []"
  by (induction ps arbitrary: best) (auto split: option.splits)

lemma best_of_in:
  "best_of better None ps = Some r \<Longrightarrow> r \<in> set ps"
proof -
  have "best_of better best ps = Some r \<Longrightarrow> r \<in> set ps \<union> set_option best" for best
    by (induction ps arbitrary: best) (fastforce split: option.splits if_splits)+
  then show "best_of better None ps = Some r \<Longrightarrow> r \<in> set ps" by force
qed

lemma best_of_max:
  assumes "best_of (\<lambda>p q. q < p) best ps = Some r" and "\<forall>p \<in> set ps \<union> set_option best. is_finite p"
  shows "is_finite r \<and> (\<forall>p \<in> set ps \<union> set_option best. p \<le> r)"
  using assms
proof (induction ps arbitrary: best)
  case (Cons p ps)
  define b where "b = (case best of None \<Rightarrow> p | Some q \<Rightarrow> if q < p then p else q)"
  have b: "best_of (\<lambda>p q. q < p) (Some b) ps = Some r" "is_finite b"
    "\<forall>x \<in> insert p (set_option best). x \<le> b"
    using Cons.prems by (auto simp: b_def is_finite_iff split: option.splits)
  with Cons.IH [of "Some b"] Cons.prems show ?case by (auto intro: js_le_trans)
qed (auto simp: is_finite_iff)

lemma best_of_min:
  assumes "best_of (\<lambda>p q. p < q) best ps = Some r" and "\<forall>p \<in> set ps \<union> set_option best. is_finite p"
  shows "is_finite r \<and> (\<forall>p \<in> set ps \<union> set_option best. r \<le> p)"
  using assms
proof (induction ps arbitrary: best)
  case (Cons p ps)
  define b where "b = (case best of None \<Rightarrow> p | Some q \<Rightarrow> if p < q then p else q)"
  have b: "best_of (\<lambda>p q. p < q) (Some b) ps = Some r" "is_finite b"
    "\<forall>x \<in> insert p (set_option best). b \<le> x"
    using Cons.prems by (auto simp: b_def is_finite_iff split: option.splits)
  with Cons.IH [of "Some b"] Cons.prems show ?case by (auto intro: js_le_trans)
qed (auto simp: is_finite_iff)

definition uncrossed :: "local_book \<Rightarrow> bool" where
  "uncrossed b \<longleftrightarrow> list_all (\<lambda>x. list_all (\<lambda>y. fst x < fst y) (bk_asks b)) (bk_bids b)"

definition sides_ok :: "local_book \<Rightarrow> bool" where
  "sides_ok b \<longleftrightarrow> side_ok (bk_bids b) \<and> side_ok (bk_asks b)"

lemma crossed_None_uncrossed:
  assumes "crossed b = None" and "sides_ok b"
  shows "uncrossed b"
proof -
  have "fst x < fst y" if x: "x \<in> set (bk_bids b)" and y: "y \<in> set (bk_asks b)" for x y
  proof -
    have fin: "\<forall>p \<in> set (map fst (bk_bids b)). is_finite p" "\<forall>p \<in> set (map fst (bk_asks b)). is_finite p"
      using assms(2) by (auto simp: sides_ok_def side_ok_def list_all_iff level_ok_def)
    from x y obtain bid ask where ba: "bestBid b = Some bid" "bestAsk b = Some ask"
      by (cases "bestBid b"; cases "bestAsk b") (auto simp: bestBid_def bestAsk_def best_of_some)
    have "fst x \<le> bid" "is_finite bid" "ask \<le> fst y" "is_finite ask"
      using best_of_max [of None "map fst (bk_bids b)" bid] best_of_min [of None "map fst (bk_asks b)" ask]
        ba fin x y by (auto simp: bestBid_def bestAsk_def)
    moreover have "\<not> ask \<le> bid" using assms(1) ba by (auto simp: crossed_def split: if_splits)
    ultimately show ?thesis
      by (auto simp: is_finite_not_nan js_not_le_iff intro: js_le_lt_trans js_lt_le_trans)
  qed
  then show ?thesis by (auto simp: uncrossed_def list_all_iff)
qed

section \<open>A live book is a gap-free replay\<close>

text \<open>The exchange's rule for a gap-free stream, stated on the ids alone.\<close>

definition joins :: "int \<Rightarrow> depth_diff \<Rightarrow> bool" where
  "joins u d \<longleftrightarrow> df_pu d = Some u \<or> (df_pu d = None \<and> df_U d = u + 1)"

fun chained :: "int \<Rightarrow> depth_diff list \<Rightarrow> bool" where
  "chained u [] = True"
| "chained u (d # ds) = (joins u d \<and> chained (df_u d) ds)"

fun gap_free :: "int \<Rightarrow> depth_diff list \<Rightarrow> bool" where
  "gap_free sid [] = False"
| "gap_free sid (d # ds) = (df_U d \<le> sid \<and> sid \<le> df_u d \<and> chained (df_u d) ds)"

definition bids_after :: "depth_snapshot \<Rightarrow> depth_diff list \<Rightarrow> jsnum \<Rightarrow> jsnum option" where
  "bids_after snap ds = foldl (\<lambda>m d. side_after m (df_b d))
     (side_after Map.empty (filter (\<lambda>l. 0 < snd l) (dn_bids snap))) ds"

definition asks_after :: "depth_snapshot \<Rightarrow> depth_diff list \<Rightarrow> jsnum \<Rightarrow> jsnum option" where
  "asks_after snap ds = foldl (\<lambda>m d. side_after m (df_a d))
     (side_after Map.empty (filter (\<lambda>l. 0 < snd l) (dn_asks snap))) ds"

definition book_is :: "depth_snapshot \<Rightarrow> depth_diff list \<Rightarrow> local_book \<Rightarrow> bool" where
  "book_is snap used b \<longleftrightarrow>
     bk_snapshotId b = Some (dn_lastUpdateId snap)
   \<and> bk_lastU b = (if used = [] then None else Some (df_u (last used)))
   \<and> bk_status b = (if used = [] then SYNCING else LIVE)
   \<and> (used = [] \<or> gap_free (dn_lastUpdateId snap) used)
   \<and> map_of (bk_bids b) = bids_after snap used \<and> map_of (bk_asks b) = asks_after snap used"

lemma follows_joins: "follows u d = joins u d"
  by (auto simp: follows_def joins_def split: option.splits)

lemma chained_snoc:
  "chained u (ds @ [d]) \<longleftrightarrow> chained u ds \<and> follows (if ds = [] then u else df_u (last ds)) d"
  by (induction ds arbitrary: u) (auto simp: follows_joins)

lemma gap_free_snoc:
  "gap_free sid (ds @ [d]) \<longleftrightarrow>
     (if ds = [] then straddles sid d else gap_free sid ds \<and> follows (df_u (last ds)) d)"
  by (cases ds) (auto simp: chained_snoc straddles_def)

lemma map_of_snapshot_fold:
  "map_of (foldl (\<lambda>m (p, q). if 0 < q then AList.update p q m else m) m ls)
     = side_after (map_of m) (filter (\<lambda>l. 0 < snd l) ls)"
proof (induction ls arbitrary: m)
  case (Cons l ls)
  show ?case
  proof (cases "0 < snd l")
    case True
    then have "side_after (map_of m) [l] = map_of (AList.update (fst l) (snd l) m)"
      by (auto simp: side_after_def update_conv' case_prod_beta)
    with True Cons [of "AList.update (fst l) (snd l) m"] show ?thesis
      by (simp add: case_prod_beta side_after_def)
  next
    case False
    with Cons show ?thesis by (simp add: case_prod_beta)
  qed
qed (simp add: side_after_def)

lemma apply_diff_cases:
  assumes "apply_diff sid b d = (b', r)"
  obtains (skip) "df_u d < sid" "b' = b" "r = Dropped"
  | (broken) "r = Gap" "bk_status b' = RESYNC_REQUIRED" "sid \<le> df_u d"
  | (step) bids asks where "r = Applied" "sid \<le> df_u d"
      "bk_lastU b = None \<longrightarrow> straddles sid d" "\<forall>u. bk_lastU b = Some u \<longrightarrow> follows u d"
      "set_levels (bk_bids b) (df_b d) = (bids, None)" "set_levels (bk_asks b) (df_a d) = (asks, None)"
      "b' = b\<lparr> bk_bids := bids, bk_asks := asks, bk_lastU := Some (df_u d), bk_lastEventAt := df_E d,
               bk_status := LIVE, bk_reason := NoReason \<rparr>"
      "crossed b' = None"
proof -
  have status: "crossed (c\<lparr> bk_status := LIVE, bk_reason := NoReason \<rparr>) = crossed c" for c
    by (simp add: crossed_def bestBid_def bestAsk_def)
  obtain bids eb where b: "set_levels (bk_bids b) (df_b d) = (bids, eb)" by fastforce
  obtain asks ea where a: "set_levels (bk_asks b) (df_a d) = (asks, ea)" by fastforce
  define c where "c = b\<lparr> bk_bids := bids, bk_asks := asks, bk_lastU := Some (df_u d), bk_lastEventAt := df_E d \<rparr>"
  define ok where "ok \<longleftrightarrow> (bk_lastU b = None \<longrightarrow> straddles sid d) \<and> (\<forall>u. bk_lastU b = Some u \<longrightarrow> follows u d)
    \<and> eb = None \<and> ea = None \<and> crossed c = None"
  consider "df_u d < sid" | "sid \<le> df_u d" "\<not> ok" | "sid \<le> df_u d" "ok" by linarith
  then show ?thesis
  proof cases
    case 1
    with assms skip show ?thesis by (simp add: apply_diff_def)
  next
    case 2
    with assms a b have "r = Gap \<and> bk_status b' = RESYNC_REQUIRED"
      by (auto simp: apply_diff_def book_fail_def ok_def c_def Let_def split: if_splits option.splits prod.splits)
    with 2 broken show ?thesis by blast
  next
    case 3
    with a b have e: "apply_diff sid b d = (c\<lparr> bk_status := LIVE, bk_reason := NoReason \<rparr>, Applied)"
      by (auto simp: apply_diff_def ok_def c_def Let_def)
    with assms have "b' = c\<lparr> bk_status := LIVE, bk_reason := NoReason \<rparr>" "r = Applied" by auto
    with 3 a b status [of c] show ?thesis by (intro step [of bids asks]) (simp_all add: ok_def c_def)
  qed
qed

lemma book_is_apply:
  assumes "book_is snap used b" and "apply_diff (dn_lastUpdateId snap) b d = (b', r)" and "r \<noteq> Gap"
  shows "book_is snap (if df_u d < dn_lastUpdateId snap then used else used @ [d]) b'"
  using assms(2)
proof (cases rule: apply_diff_cases)
  case skip
  with assms show ?thesis by simp
next
  case broken
  with assms(3) show ?thesis by simp
next
  case (step bids asks)
  from assms(1) step show ?thesis
    by (auto simp: book_is_def bids_after_def asks_after_def gap_free_snoc set_levels_map_of split: if_splits)
qed

lemma book_is_replay:
  assumes "book_is snap used b" and "replay (dn_lastUpdateId snap) b ds = (b', r)"
  shows "if r = Gap then bk_status b' = RESYNC_REQUIRED
         else book_is snap (used @ filter (\<lambda>d. dn_lastUpdateId snap \<le> df_u d) ds) b'"
  using assms
proof (induction ds arbitrary: used b)
  case (Cons d ds)
  obtain b1 r1 where a: "apply_diff (dn_lastUpdateId snap) b d = (b1, r1)" by fastforce
  show ?case
  proof (cases "r1 = Gap")
    case True
    with a Cons.prems(2) show ?thesis by (auto elim: apply_diff_cases)
  next
    case False
    from book_is_apply [OF Cons.prems(1) a False]
    have n: "book_is snap (if df_u d < dn_lastUpdateId snap then used else used @ [d]) b1" .
    from a False Cons.prems(2) have "replay (dn_lastUpdateId snap) b1 ds = (b', r)" by simp
    from Cons.IH [OF n this] show ?thesis by (auto split: if_splits)
  qed
qed simp

lemma book_is_loaded:
  assumes "book_loadSnapshot b snap = (b', r)"
  shows "if r = Gap then bk_status b' = RESYNC_REQUIRED
         else book_is snap (filter (\<lambda>d. dn_lastUpdateId snap \<le> df_u d) (bk_buffer b)) b'"
proof -
  have start: "book_is snap [] (b\<lparr> bk_bids := snapshot_side (dn_bids snap), bk_asks := snapshot_side (dn_asks snap),
      bk_snapshotId := Some (dn_lastUpdateId snap), bk_lastU := None, bk_coverage := cov,
      bk_buffer := [], bk_status := SYNCING, bk_reason := Replaying \<rparr>)" for cov
    using map_of_snapshot_fold [of "[]"]
    by (simp add: book_is_def bids_after_def asks_after_def snapshot_side_def)
  show ?thesis
    using book_is_replay [OF start] assms unfolding book_loadSnapshot_def Let_def append_Nil .
qed

definition diff_step :: "local_book \<Rightarrow> depth_diff \<Rightarrow> local_book" where
  "diff_step b d = fst (onDiff b d)"

lemma resync_sticks: "bk_status b = RESYNC_REQUIRED \<Longrightarrow> diff_step b d = b"
  by (simp add: diff_step_def onDiff_def)

lemma book_is_run:
  assumes "book_is snap used b" and "bk_status (run_steps diff_step b ds) = LIVE"
  shows "book_is snap (used @ filter (\<lambda>d. dn_lastUpdateId snap \<le> df_u d) ds) (run_steps diff_step b ds)"
  using assms
proof (induction ds arbitrary: used b)
  case (Cons d ds)
  obtain b1 r1 where a: "apply_diff (dn_lastUpdateId snap) b d = (b1, r1)" by fastforce
  from Cons.prems(1) a have st: "diff_step b d = b1"
    by (auto simp: diff_step_def onDiff_def book_is_def split: if_splits)
  have "r1 \<noteq> Gap"
  proof
    assume "r1 = Gap"
    with a have "bk_status b1 = RESYNC_REQUIRED" by (auto elim: apply_diff_cases)
    then have "run_steps diff_step b1 ds = b1" by (induction ds) (auto simp: resync_sticks)
    with Cons.prems(2) st \<open>bk_status b1 = RESYNC_REQUIRED\<close> show False by simp
  qed
  from book_is_apply [OF Cons.prems(1) a this]
  have "book_is snap (if df_u d < dn_lastUpdateId snap then used else used @ [d]) (diff_step b d)"
    by (simp only: st)
  from Cons.IH [OF this] Cons.prems(2) show ?case by (auto split: if_splits)
qed simp

section \<open>What every operation keeps\<close>

definition book_ok :: "local_book \<Rightarrow> bool" where
  "book_ok b \<longleftrightarrow> sides_ok b \<and>
     (bk_status b = LIVE \<longrightarrow> uncrossed b \<and> bk_snapshotId b \<noteq> None \<and> bk_lastU b \<noteq> None)"

definition frozen_after_gap :: "local_book \<Rightarrow> local_book \<Rightarrow> bool" where
  "frozen_after_gap b c \<longleftrightarrow> (bk_status b = RESYNC_REQUIRED \<longrightarrow> c = b)"

lemma uncrossed_update [simp]:
  "uncrossed (b\<lparr> bk_status := s, bk_reason := r \<rparr>) = uncrossed b"
  "sides_ok (b\<lparr> bk_status := s, bk_reason := r \<rparr>) = sides_ok b"
  by (simp_all add: uncrossed_def sides_ok_def)

lemma apply_diff_sides: "sides_ok b \<Longrightarrow> sides_ok (fst (apply_diff sid b d))"
  using set_levels_ok [of "bk_bids b" "df_b d"] set_levels_ok [of "bk_asks b" "df_a d"]
  by (auto simp: apply_diff_def book_fail_def sides_ok_def Let_def split: prod.splits option.splits)

lemma apply_diff_snapshotId: "bk_snapshotId (fst (apply_diff sid b d)) = bk_snapshotId b"
  by (auto simp: apply_diff_def book_fail_def Let_def split: prod.splits option.splits)

lemma apply_diff_ok:
  assumes "book_ok b" and "bk_snapshotId b = Some sid"
  shows "book_ok (fst (apply_diff sid b d))"
proof -
  obtain b' r where a: "apply_diff sid b d = (b', r)" by fastforce
  from assms(1) have sides: "sides_ok b'"
    using apply_diff_sides [of b sid d] a by (simp add: book_ok_def)
  from a show ?thesis
  proof (cases rule: apply_diff_cases)
    case skip
    with a assms show ?thesis by simp
  next
    case broken
    with a sides show ?thesis by (simp add: book_ok_def)
  next
    case (step bids asks)
    with crossed_None_uncrossed [OF step(8) sides] a sides assms(2) show ?thesis by (simp add: book_ok_def)
  qed
qed

lemma diff_step_ok: "book_ok b \<Longrightarrow> book_ok (diff_step b d)"
  by (auto simp: diff_step_def onDiff_def book_fail_def apply_diff_ok split: option.splits)
     (auto simp: book_ok_def sides_ok_def uncrossed_def)

interpretation lob: guarded_machine diff_step book_ok frozen_after_gap
  by unfold_locales (auto simp: frozen_after_gap_def diff_step_ok resync_sticks)

interpretation lob_any: guarded_machine diff_step "\<lambda>b. True" frozen_after_gap
  by unfold_locales (auto simp: frozen_after_gap_def resync_sticks)

lemma gap_freezes_book: "bk_status b = RESYNC_REQUIRED \<Longrightarrow> run_steps diff_step b ds = b"
  using lob_any.run_le [of b ds] by (simp add: frozen_after_gap_def)

lemma replay_ok:
  "book_ok b \<Longrightarrow> bk_snapshotId b = Some sid \<Longrightarrow> book_ok (fst (replay sid b ds))"
proof (induction ds arbitrary: b)
  case (Cons d ds)
  obtain b' r where a: "apply_diff sid b d = (b', r)" by fastforce
  with apply_diff_ok [OF Cons.prems, of d] apply_diff_snapshotId [of sid b d] Cons show ?case by auto
qed simp

datatype book_op = OnDiff depth_diff | LoadSnapshot depth_snapshot | ResetBook string

fun book_apply :: "local_book \<Rightarrow> book_op \<Rightarrow> local_book" where
  "book_apply b (OnDiff d) = diff_step b d"
| "book_apply b (LoadSnapshot s) = fst (book_loadSnapshot b s)"
| "book_apply b (ResetBook why) = book_reset why b"

fun book_op_ok :: "book_op \<Rightarrow> bool" where
  "book_op_ok (LoadSnapshot s) = snapshot_ok s"
| "book_op_ok _ = True"

lemma book_apply_ok: "book_ok b \<Longrightarrow> book_op_ok op \<Longrightarrow> book_ok (book_apply b op)"
proof (cases op)
  case (LoadSnapshot s)
  assume "book_op_ok op"
  with LoadSnapshot snapshot_side_ok [of s] show ?thesis
    by (auto simp: book_loadSnapshot_def Let_def intro!: replay_ok) (auto simp: book_ok_def sides_ok_def)
next
  case (OnDiff d)
  assume "book_ok b"
  with OnDiff show ?thesis by (simp add: diff_step_ok)
qed (simp add: book_reset_def book_ok_def sides_ok_def)

lemma book_run_ok: "book_ok b \<Longrightarrow> list_all book_op_ok ops \<Longrightarrow> book_ok (run_steps book_apply b ops)"
  by (induction ops arbitrary: b) (auto intro: book_apply_ok)

section \<open>Properties\<close>

text \<open>
  A live book is never crossed: whatever diffs, snapshots with finite positive prices and resets
  arrive, in whatever order, every level held has a finite positive price and a positive quantity, a
  price appears once per side, and while the book is live every bid is below every ask.
\<close>

theorem live_book_never_crossed:
  assumes "list_all book_op_ok ops"
  shows "(let b = run_steps book_apply new_book ops
          in side_ok (bk_bids b) \<and> side_ok (bk_asks b)
           \<and> (bk_status b = LIVE \<longrightarrow>
                list_all (\<lambda>x. list_all (\<lambda>y. fst x < fst y) (bk_asks b)) (bk_bids b)))"
proof -
  have "book_ok new_book" by (simp add: book_ok_def new_book_def sides_ok_def)
  from book_run_ok [OF this assms] show ?thesis
    by (simp add: book_ok_def sides_ok_def uncrossed_def Let_def)
qed

text \<open>
  C12. A live book is exactly a gap-free replay: after a snapshot is loaded and any diffs follow, if the
  book is live, the diffs that reach past the snapshot (buffered before it or received after) start
  with one that straddles it and follow each other without a gap, and each side holds, price by price,
  the snapshot's level overwritten by those diffs and nothing else.
\<close>

theorem live_book_is_gap_free_replay:
  assumes "bk_status (run_steps diff_step (fst (book_loadSnapshot b snap)) ds) = LIVE"
  shows "(let f = run_steps diff_step (fst (book_loadSnapshot b snap)) ds;
              used = filter (\<lambda>d. dn_lastUpdateId snap \<le> df_u d) (bk_buffer b @ ds)
          in gap_free (dn_lastUpdateId snap) used
           \<and> map_of (bk_bids f) = bids_after snap used
           \<and> map_of (bk_asks f) = asks_after snap used)"
proof -
  obtain b1 r where l: "book_loadSnapshot b snap = (b1, r)" by fastforce
  have "r \<noteq> Gap"
  proof
    assume "r = Gap"
    with book_is_loaded [OF l] have "bk_status b1 = RESYNC_REQUIRED" by simp
    with gap_freezes_book [of b1 ds] assms l show False by simp
  qed
  with book_is_loaded [OF l]
  have "book_is snap (filter (\<lambda>d. dn_lastUpdateId snap \<le> df_u d) (bk_buffer b)) b1" by simp
  from book_is_run [OF this] assms l
  have f: "book_is snap (filter (\<lambda>d. dn_lastUpdateId snap \<le> df_u d) (bk_buffer b @ ds))
         (run_steps diff_step b1 ds)" by simp
  with assms l have "filter (\<lambda>d. dn_lastUpdateId snap \<le> df_u d) (bk_buffer b @ ds) \<noteq> []"
    by (auto simp: book_is_def simp del: filter_append)
  with f l show ?thesis by (simp add: book_is_def Let_def del: filter_append)
qed

definition demo_snapshot :: depth_snapshot where
  "demo_snapshot = \<lparr> dn_lastUpdateId = 10, dn_bids = [(99, 2)], dn_asks = [(101, 3)] \<rparr>"

definition demo_diff :: depth_diff where
  "demo_diff = \<lparr> df_U = 9, df_u = 12, df_pu = Some 8, df_E = 1000, df_b = [(100, 1), (99, 0)], df_a = [] \<rparr>"

lemmas demo_book_simps = run_steps.simps diff_step_def onDiff_def book_loadSnapshot_def apply_diff_def
  snapshot_side_def straddles_def setLevel_def crossed_def bestBid_def bestAsk_def demo_diff_def
  demo_snapshot_def new_book_def

theorem live_book_never_crossed_witness:
  "list_all book_op_ok [LoadSnapshot demo_snapshot, OnDiff demo_diff] \<and>
   (let b = run_steps book_apply new_book [LoadSnapshot demo_snapshot, OnDiff demo_diff]
    in side_ok (bk_bids b) \<and> side_ok (bk_asks b)
     \<and> (bk_status b = LIVE \<longrightarrow>
          list_all (\<lambda>x. list_all (\<lambda>y. fst x < fst y) (bk_asks b)) (bk_bids b)))"
proof -
  have "list_all book_op_ok [LoadSnapshot demo_snapshot, OnDiff demo_diff]"
    by (simp add: snapshot_ok_def demo_snapshot_def)
  from live_book_never_crossed [OF this] this show ?thesis by blast
qed

theorem live_book_is_gap_free_replay_witness:
  "(let f = run_steps diff_step (fst (book_loadSnapshot new_book demo_snapshot)) [demo_diff];
        used = filter (\<lambda>d. dn_lastUpdateId demo_snapshot \<le> df_u d) (bk_buffer new_book @ [demo_diff])
    in bk_status f = LIVE \<and> gap_free (dn_lastUpdateId demo_snapshot) used
     \<and> map_of (bk_bids f) = bids_after demo_snapshot used
     \<and> map_of (bk_asks f) = asks_after demo_snapshot used)"
proof -
  have "bk_status (run_steps diff_step (fst (book_loadSnapshot new_book demo_snapshot)) [demo_diff]) = LIVE"
    by (simp add: demo_book_simps Let_def)
  from live_book_is_gap_free_replay [OF this] this show ?thesis by (simp only: Let_def)
qed

end
