(* ===== verification/MicroFlow.thy ===== *)
theory MicroFlow
  imports OrderBook
begin

text \<open>
  The rolling measurements taken beside the book: aggressor flow (\<open>src/microstructure/TradeFlow.ts\<close>),
  order-flow imbalance at the touch (\<open>src/microstructure/Ofi.ts\<close>) and the persisted micro bias
  (\<open>src/microstructure/MicroBias.ts\<close>).
\<close>

section \<open>Trade flow\<close>

record agg_trade =
  ag_time :: jsnum
  ag_price :: jsnum
  ag_qty :: jsnum
  ag_buyerIsMaker :: bool

record flow_window =
  fw_buyQty :: jsnum
  fw_sellQty :: jsnum
  fw_buyNotional :: jsnum
  fw_sellNotional :: jsnum
  fw_trades :: nat
  fw_delta :: "jsnum option"

record trade_flow =
  tf_trades :: "agg_trade list"
  tf_cvd :: jsnum
  tf_retainMs :: jsnum

definition new_flow :: "jsnum \<Rightarrow> trade_flow" where
  "new_flow retain = \<lparr> tf_trades = [], tf_cvd = 0, tf_retainMs = retain \<rparr>"

definition flow_accepts :: "agg_trade \<Rightarrow> bool" where
  "flow_accepts t \<longleftrightarrow> 0 < ag_qty t \<and> 0 < ag_price t \<and> is_finite (ag_time t)"

definition flow_add :: "trade_flow \<Rightarrow> agg_trade \<Rightarrow> trade_flow" where
  "flow_add f t =
     (if \<not> flow_accepts t then f
      else f\<lparr> tf_trades := tf_trades f @ [t],
              tf_cvd := tf_cvd f + (if ag_buyerIsMaker t then - ag_qty t else ag_qty t) \<rparr>)"

text \<open>The scan for the first event not older than the cutoff, and the slice from there.\<close>

fun drop_before :: "('e \<Rightarrow> jsnum) \<Rightarrow> jsnum \<Rightarrow> 'e list \<Rightarrow> 'e list" where
  "drop_before time cutoff [] = []"
| "drop_before time cutoff (e # es) = (if time e < cutoff then drop_before time cutoff es else e # es)"

definition flow_prune :: "jsnum \<Rightarrow> trade_flow \<Rightarrow> trade_flow" where
  "flow_prune now f = f\<lparr> tf_trades := drop_before ag_time (now - tf_retainMs f) (tf_trades f) \<rparr>"

definition in_window :: "jsnum \<Rightarrow> jsnum \<Rightarrow> jsnum \<Rightarrow> bool" where
  "in_window now ms t \<longleftrightarrow> \<not> (t \<le> now - ms \<or> now < t)"

definition flow_count :: "flow_window \<Rightarrow> agg_trade \<Rightarrow> flow_window" where
  "flow_count w t =
     (if ag_buyerIsMaker t
      then w\<lparr> fw_trades := fw_trades w + 1, fw_sellQty := fw_sellQty w + ag_qty t,
              fw_sellNotional := fw_sellNotional w + ag_qty t * ag_price t \<rparr>
      else w\<lparr> fw_trades := fw_trades w + 1, fw_buyQty := fw_buyQty w + ag_qty t,
              fw_buyNotional := fw_buyNotional w + ag_qty t * ag_price t \<rparr>)"

definition flow_over :: "agg_trade list \<Rightarrow> flow_window" where
  "flow_over ts =
     (let w = foldl flow_count \<lparr> fw_buyQty = 0, fw_sellQty = 0, fw_buyNotional = 0, fw_sellNotional = 0,
                                 fw_trades = 0, fw_delta = None \<rparr> ts;
          total = fw_buyNotional w + fw_sellNotional w
      in w\<lparr> fw_delta := (if 0 < total then Some ((fw_buyNotional w - fw_sellNotional w) / total) else None) \<rparr>)"

definition flow_windowOf :: "trade_flow \<Rightarrow> jsnum \<Rightarrow> jsnum \<Rightarrow> trade_flow \<times> flow_window" where
  "flow_windowOf f now ms =
     (let g = flow_prune now f
      in (g, flow_over (filter (\<lambda>t. in_window now ms (ag_time t)) (tf_trades g))))"

definition flow_between :: "trade_flow \<Rightarrow> jsnum \<Rightarrow> jsnum \<Rightarrow> agg_trade list" where
  "flow_between f from_time to_time = filter (\<lambda>t. from_time < ag_time t \<and> ag_time t \<le> to_time) (tf_trades f)"

section \<open>Order-flow imbalance\<close>

definition ofiIncrement :: "top_of_book \<Rightarrow> top_of_book \<Rightarrow> jsnum" where
  "ofiIncrement prev nxt =
     (let e0 = 0;
          e1 = (if tb_bid prev \<le> tb_bid nxt then e0 + tb_bidQty nxt else e0);
          e2 = (if tb_bid nxt \<le> tb_bid prev then e1 - tb_bidQty prev else e1);
          e3 = (if tb_ask nxt \<le> tb_ask prev then e2 - tb_askQty nxt else e2)
      in if tb_ask prev \<le> tb_ask nxt then e3 + tb_askQty prev else e3)"

record ofi_event =
  oe_t :: jsnum
  oe_e :: jsnum
  oe_depth :: jsnum

record ofi_tracker =
  ot_prev :: "top_of_book option"
  ot_events :: "ofi_event list"
  ot_retainMs :: jsnum

record ofi_window =
  ow_ofi :: jsnum
  ow_normalized :: "jsnum option"
  ow_updates :: nat

definition new_ofi :: "jsnum \<Rightarrow> ofi_tracker" where
  "new_ofi retain = \<lparr> ot_prev = None, ot_events = [], ot_retainMs = retain \<rparr>"

definition same_top :: "top_of_book \<Rightarrow> top_of_book \<Rightarrow> bool" where
  "same_top a b \<longleftrightarrow> js_eq (tb_bid a) (tb_bid b) \<and> js_eq (tb_ask a) (tb_ask b)
     \<and> js_eq (tb_bidQty a) (tb_bidQty b) \<and> js_eq (tb_askQty a) (tb_askQty b)"

definition ofi_onTop :: "ofi_tracker \<Rightarrow> top_of_book option \<Rightarrow> jsnum \<Rightarrow> ofi_tracker" where
  "ofi_onTop o1 t tm =
     (case t of
        None \<Rightarrow> o1\<lparr> ot_prev := None \<rparr>
      | Some new_top \<Rightarrow>
          (case ot_prev o1 of
             None \<Rightarrow> o1\<lparr> ot_prev := Some new_top \<rparr>
           | Some prev \<Rightarrow>
               (if same_top new_top prev then o1\<lparr> ot_prev := Some new_top \<rparr>
                else o1\<lparr> ot_prev := Some new_top,
                         ot_events := drop_before oe_t (tm - ot_retainMs o1)
                           (ot_events o1 @ [\<lparr> oe_t = tm, oe_e = ofiIncrement prev new_top,
                                              oe_depth = (tb_bidQty new_top + tb_askQty new_top) / 2 \<rparr>]) \<rparr>)))"

definition ofi_reset :: "ofi_tracker \<Rightarrow> ofi_tracker" where
  "ofi_reset o1 = o1\<lparr> ot_prev := None \<rparr>"

definition ofi_windowOf :: "ofi_tracker \<Rightarrow> jsnum \<Rightarrow> jsnum \<Rightarrow> ofi_window" where
  "ofi_windowOf o1 now ms =
     (let es = filter (\<lambda>e. in_window now ms (oe_t e)) (ot_events o1);
          ofi = js_sum (map oe_e es); depth = js_sum (map oe_depth es); updates = length es
      in \<lparr> ow_ofi = ofi,
           ow_normalized = (if 0 < updates \<and> 0 < depth then Some (ofi / (depth / num_of_nat updates)) else None),
           ow_updates = updates \<rparr>)"

section \<open>The persisted bias\<close>

datatype bias = BiasLong | BiasShort | BiasNeutral

fun bias_of :: "side \<Rightarrow> bias" where
  "bias_of LONG = BiasLong"
| "bias_of SHORT = BiasShort"

record bias_options =
  bo_confirmMs :: jsnum
  bo_releaseMs :: jsnum

definition DEFAULT_BIAS_OPTIONS :: bias_options where
  "DEFAULT_BIAS_OPTIONS = \<lparr> bo_confirmMs = 10000, bo_releaseMs = 30000 \<rparr>"

record bias_candidate =
  bc_bias :: bias
  bc_since :: jsnum
  bc_needMs :: jsnum

record bias_state =
  bs_bias :: bias
  bs_since :: jsnum
  bs_candidate :: "bias_candidate option"
  bs_reasons :: "string list"

record bias_input =
  bi_valid :: bool
  bi_enter :: "side option"
  bi_holds_long :: bool
  bi_holds_short :: bool
  bi_reasons :: "string list"

definition new_bias :: "jsnum \<Rightarrow> bias_state" where
  "new_bias now = \<lparr> bs_bias = BiasNeutral, bs_since = now, bs_candidate = None, bs_reasons = [''no data yet''] \<rparr>"

definition bias_target :: "bias \<Rightarrow> bias_input \<Rightarrow> bias" where
  "bias_target held i =
     (if held = BiasNeutral then (case bi_enter i of None \<Rightarrow> BiasNeutral | Some d \<Rightarrow> bias_of d)
      else case bi_enter i of
          Some d \<Rightarrow> (if bias_of d \<noteq> held then bias_of d
                     else if (if held = BiasLong then bi_holds_long i else bi_holds_short i) then held else BiasNeutral)
        | None \<Rightarrow> (if (if held = BiasLong then bi_holds_long i else bi_holds_short i) then held else BiasNeutral))"

definition need_ms :: "bias_options \<Rightarrow> bias \<Rightarrow> jsnum" where
  "need_ms opts target = (if target = BiasNeutral then bo_releaseMs opts else bo_confirmMs opts)"

definition bias_update :: "bias_options \<Rightarrow> bias_state \<Rightarrow> bias_input \<times> jsnum \<Rightarrow> bias_state" where
  "bias_update opts s0 x =
     (let i = fst x; now = snd x;
          s = (if js_eq (bs_since s0) 0 then s0\<lparr> bs_since := now \<rparr> else s0)
      in if \<not> bi_valid i then
           (let s1 = (if bs_bias s \<noteq> BiasNeutral then s\<lparr> bs_bias := BiasNeutral, bs_since := now \<rparr> else s)
            in s1\<lparr> bs_candidate := None,
                    bs_reasons := (if bi_reasons i \<noteq> [] then bi_reasons i else [''book not live'']) \<rparr>)
         else
           (let target = bias_target (bs_bias s) i
            in if target = bs_bias s then
                 s\<lparr> bs_candidate := None,
                    bs_reasons := (if bi_reasons i \<noteq> [] then bi_reasons i
                       else if bs_bias s = BiasNeutral then [''no aligned flow''] else bs_reasons s) \<rparr>
               else
                 (let need = need_ms opts target;
                      fresh = \<lparr> bc_bias = target, bc_since = now, bc_needMs = need \<rparr>;
                      c = (case bs_candidate s of None \<Rightarrow> fresh | Some c0 \<Rightarrow> if bc_bias c0 \<noteq> target then fresh else c0)
                  in if need \<le> now - bc_since c
                     then s\<lparr> bs_bias := target, bs_since := now, bs_candidate := None,
                             bs_reasons := (if bi_reasons i \<noteq> [] then bi_reasons i else [''support lapsed'']) \<rparr>
                     else s\<lparr> bs_candidate := Some c \<rparr>)))"

section \<open>Pruning is invisible inside the retained span\<close>

lemma filter_drop_before:
  assumes "\<And>e. P (time e) \<Longrightarrow> \<not> time e < cutoff"
  shows "filter (\<lambda>e. P (time e)) (drop_before time cutoff es) = filter (\<lambda>e. P (time e)) es"
  by (induction es) (auto dest: assms)

lemma drop_before_suffix: "\<exists>ds. es = ds @ drop_before time cutoff es \<and> list_all (\<lambda>e. time e < cutoff) ds"
proof (induction es)
  case (Cons e es)
  then obtain ds where ds: "es = ds @ drop_before time cutoff es" "list_all (\<lambda>e. time e < cutoff) ds" by blast
  show ?case
  proof (cases "time e < cutoff")
    case True
    with ds show ?thesis by (intro exI [of _ "e # ds"]) simp
  qed simp
qed simp

datatype flow_op = AddTrade agg_trade | ReadWindow jsnum jsnum

fun flow_apply :: "trade_flow \<Rightarrow> flow_op \<Rightarrow> trade_flow" where
  "flow_apply f (AddTrade t) = flow_add f t"
| "flow_apply f (ReadWindow now ms) = fst (flow_windowOf f now ms)"

text \<open>Every trade the operations offered and the feed accepted, never pruned.\<close>

fun offered :: "flow_op list \<Rightarrow> agg_trade list" where
  "offered [] = []"
| "offered (AddTrade t # ops) = (if flow_accepts t then t # offered ops else offered ops)"
| "offered (ReadWindow now ms # ops) = offered ops"

text \<open>No window is read later than \<open>now\<close>.\<close>

fun reads_until :: "jsnum \<Rightarrow> flow_op \<Rightarrow> bool" where
  "reads_until now (AddTrade t) = True"
| "reads_until now (ReadWindow r ms) = (r \<le> now)"

text \<open>What is missing from the buffer is older than anything a window ending now can see.\<close>

definition kept_of :: "jsnum \<Rightarrow> agg_trade list \<Rightarrow> trade_flow \<Rightarrow> bool" where
  "kept_of cutoff all f \<longleftrightarrow> (\<exists>gone. all = gone @ tf_trades f \<and> list_all (\<lambda>t. ag_time t < cutoff) gone)"

lemma js_minus_mono: "a \<le> b \<Longrightarrow> is_finite c \<Longrightarrow> a - c \<le> b - (c::jsnum)"
  by (cases a; cases b; cases c) auto

lemma js_minus_anti: "is_finite a \<Longrightarrow> b \<le> c \<Longrightarrow> a - c \<le> a - (b::jsnum)"
  by (cases a; cases b; cases c) auto

lemma kept_of_prune:
  assumes "kept_of cutoff all f" and "r - tf_retainMs f \<le> cutoff"
  shows "kept_of cutoff all (flow_prune r f)"
proof -
  from assms(1) obtain gone where g: "all = gone @ tf_trades f" "list_all (\<lambda>t. ag_time t < cutoff) gone"
    by (auto simp: kept_of_def)
  from drop_before_suffix [of "tf_trades f" ag_time "r - tf_retainMs f"] obtain ds where
    ds: "tf_trades f = ds @ drop_before ag_time (r - tf_retainMs f) (tf_trades f)"
        "list_all (\<lambda>t. ag_time t < r - tf_retainMs f) ds" by blast
  from ds(2) assms(2) have "list_all (\<lambda>t. ag_time t < cutoff) ds"
    by (auto simp: list_all_iff intro: js_lt_le_trans)
  with g ds(1) show ?thesis
    unfolding kept_of_def flow_prune_def by (intro exI [of _ "gone @ ds"]) simp
qed

lemma kept_of_add: "kept_of cutoff all f \<Longrightarrow> kept_of cutoff (if flow_accepts t then all @ [t] else all) (flow_add f t)"
  by (auto simp: kept_of_def flow_add_def)

lemma kept_of_run:
  assumes "kept_of (now - tf_retainMs f) all f" and "list_all (reads_until now) ops" and "is_finite (tf_retainMs f)"
  shows "kept_of (now - tf_retainMs f) (all @ offered ops) (run_steps flow_apply f ops)
       \<and> tf_retainMs (run_steps flow_apply f ops) = tf_retainMs f"
  using assms
proof (induction ops arbitrary: all f)
  case (Cons op ops)
  show ?case
  proof (cases op)
    case (AddTrade t)
    have r: "tf_retainMs (flow_add f t) = tf_retainMs f" by (simp add: flow_add_def)
    from Cons.IH [of "flow_add f t" "if flow_accepts t then all @ [t] else all"] Cons.prems AddTrade r
      kept_of_add [OF Cons.prems(1), of t]
    show ?thesis by (auto split: if_splits)
  next
    case (ReadWindow rd ms)
    have r: "tf_retainMs (flow_prune rd f) = tf_retainMs f" by (simp add: flow_prune_def)
    from Cons.prems ReadWindow have "rd - tf_retainMs f \<le> now - tf_retainMs f" by (auto intro: js_minus_mono)
    from kept_of_prune [OF Cons.prems(1) this] Cons.IH [of "flow_prune rd f" all] Cons.prems ReadWindow r
    show ?thesis by (auto simp: flow_windowOf_def Let_def)
  qed
qed simp

lemma kept_of_filter:
  assumes "kept_of cutoff all f" and "cutoff \<le> now - ms"
  shows "filter (\<lambda>t. in_window now ms (ag_time t)) (tf_trades f) = filter (\<lambda>t. in_window now ms (ag_time t)) all"
proof -
  from assms obtain gone where g: "all = gone @ tf_trades f" "list_all (\<lambda>t. ag_time t < cutoff) gone"
    by (auto simp: kept_of_def)
  from g(2) assms(2) have "filter (\<lambda>t. in_window now ms (ag_time t)) gone = []"
    by (auto simp: filter_empty_conv list_all_iff in_window_def intro: js_lt_imp_le js_lt_le_trans)
  with g(1) show ?thesis by simp
qed

text \<open>
  C36. The rolling flow is exact: after any trades and any window reads no later than now, a window no
  longer than the retention counts exactly the accepted trades of its span, however often the buffer
  was pruned on the way, as a feed that never prunes would.
\<close>

theorem pruned_flow_is_exact:
  assumes "list_all (reads_until (Fin now)) ops" and "Fin ms \<le> Fin retain"
  shows "snd (flow_windowOf (run_steps flow_apply (new_flow (Fin retain)) ops) (Fin now) (Fin ms))
       = flow_over (filter (\<lambda>t. in_window (Fin now) (Fin ms) (ag_time t)) (offered ops))"
proof -
  let ?f = "run_steps flow_apply (new_flow (Fin retain)) ops"
  have "kept_of (Fin now - tf_retainMs (new_flow (Fin retain))) [] (new_flow (Fin retain))"
    by (simp add: kept_of_def new_flow_def)
  from kept_of_run [OF this assms(1)]
  have k: "kept_of (Fin now - Fin retain) (offered ops) ?f" and r: "tf_retainMs ?f = Fin retain"
    by (auto simp: new_flow_def)
  have "kept_of (Fin now - Fin retain) (offered ops) (flow_prune (Fin now) ?f)"
    by (rule kept_of_prune [OF k]) (simp add: r)
  from kept_of_filter [OF this] assms(2) show ?thesis by (simp add: flow_windowOf_def Let_def)
qed

definition demo_trade :: "real \<Rightarrow> agg_trade" where
  "demo_trade t = \<lparr> ag_time = Fin t, ag_price = 100, ag_qty = 2, ag_buyerIsMaker = False \<rparr>"

theorem pruned_flow_is_exact_witness:
  "snd (flow_windowOf (run_steps flow_apply (new_flow (Fin 60))
         [AddTrade (demo_trade 10), ReadWindow (Fin 80) (Fin 60), AddTrade (demo_trade 90)]) (Fin 100) (Fin 60))
     = flow_over (filter (\<lambda>t. in_window (Fin 100) (Fin 60) (ag_time t))
         (offered [AddTrade (demo_trade 10), ReadWindow (Fin 80) (Fin 60), AddTrade (demo_trade 90)]))
   \<and> fw_trades (flow_over (filter (\<lambda>t. in_window (Fin 100) (Fin 60) (ag_time t))
         (offered [AddTrade (demo_trade 10), ReadWindow (Fin 80) (Fin 60), AddTrade (demo_trade 90)]))) = 1"
proof -
  have "list_all (reads_until (Fin 100)) [AddTrade (demo_trade 10), ReadWindow (Fin 80) (Fin 60), AddTrade (demo_trade 90)]"
    by simp
  from pruned_flow_is_exact [OF this, of 60 60]
  show ?thesis
    by (simp add: flow_over_def flow_count_def in_window_def demo_trade_def flow_accepts_def Let_def del: js_consts)
       (simp add: flow_count_def)
qed

text \<open>The signed share of a window of finite trades lies in [-1, 1].\<close>

definition finite_trade :: "agg_trade \<Rightarrow> bool" where
  "finite_trade t \<longleftrightarrow> is_finite (ag_qty t) \<and> 0 < ag_qty t \<and> is_finite (ag_price t) \<and> 0 < ag_price t"

lemma flow_count_notional:
  assumes "finite_trade t" and "fw_buyNotional w = Fin b" "fw_sellNotional w = Fin s" "0 \<le> b" "0 \<le> s"
  shows "\<exists>b' s'. fw_buyNotional (flow_count w t) = Fin b' \<and> fw_sellNotional (flow_count w t) = Fin s'
              \<and> 0 \<le> b' \<and> 0 \<le> s'"
  using assms by (auto simp: flow_count_def finite_trade_def is_finite_iff)

lemma flow_fold_notional:
  assumes "list_all finite_trade ts" and "fw_buyNotional w = Fin b" "fw_sellNotional w = Fin s" "0 \<le> b" "0 \<le> s"
  shows "\<exists>b' s'. fw_buyNotional (foldl flow_count w ts) = Fin b' \<and> fw_sellNotional (foldl flow_count w ts) = Fin s'
              \<and> 0 \<le> b' \<and> 0 \<le> s'"
  using assms
proof (induction ts arbitrary: w b s)
  case (Cons t ts)
  from flow_count_notional [of t w b s] Cons.prems obtain b' s' where
    "fw_buyNotional (flow_count w t) = Fin b'" "fw_sellNotional (flow_count w t) = Fin s'" "0 \<le> b'" "0 \<le> s'"
    by auto
  with Cons.IH [of "flow_count w t" b' s'] Cons.prems show ?case by simp
qed auto

lemma flow_delta_bounded:
  assumes "list_all finite_trade ts" and "fw_delta (flow_over ts) = Some d"
  shows "- 1 \<le> d \<and> d \<le> 1"
proof -
  obtain b s where w: "fw_buyNotional (flow_over ts) = Fin b" "fw_sellNotional (flow_over ts) = Fin s" "0 \<le> b" "0 \<le> s"
    using flow_fold_notional [OF assms(1), of "\<lparr> fw_buyQty = 0, fw_sellQty = 0, fw_buyNotional = 0,
      fw_sellNotional = 0, fw_trades = 0, fw_delta = None \<rparr>" 0 0]
    by (auto simp: flow_over_def Let_def)
  with assms(2) have "0 < b + s" "d = Fin ((b - s) / (b + s))"
    by (auto simp: flow_over_def Let_def split: if_splits)
  with w(3,4) show ?thesis by (auto simp: field_simps)
qed

section \<open>Order-flow imbalance mirrors itself\<close>

definition finite_top :: "top_of_book \<Rightarrow> bool" where
  "finite_top t \<longleftrightarrow> is_finite (tb_bid t) \<and> is_finite (tb_bidQty t) \<and> is_finite (tb_ask t) \<and> is_finite (tb_askQty t)"

lemma ofiIncrement_reverses:
  "finite_top a \<Longrightarrow> finite_top b \<Longrightarrow> ofiIncrement b a = - ofiIncrement a b"
  by (auto simp: ofiIncrement_def finite_top_def is_finite_iff Let_def)

text \<open>At an unchanged touch the imbalance is the change of displayed size, bid against ask.\<close>

lemma ofiIncrement_same_prices:
  assumes "finite_top a" "finite_top b" "tb_bid a = tb_bid b" "tb_ask a = tb_ask b"
  shows "ofiIncrement a b = (tb_bidQty b - tb_bidQty a) - (tb_askQty b - tb_askQty a)"
  using assms by (auto simp: ofiIncrement_def finite_top_def is_finite_iff Let_def)

section \<open>The bias changes only when confirmed\<close>

definition bias_run :: "bias_options \<Rightarrow> bias_state \<Rightarrow> (bias_input \<times> jsnum) list \<Rightarrow> bias_state" where
  "bias_run opts s us = run_steps (bias_update opts) s us"

text \<open>Every sample of the stretch was valid and pushed the bias held toward the same target.\<close>

definition pushes :: "bias \<Rightarrow> bias \<Rightarrow> (bias_input \<times> jsnum) list \<Rightarrow> bool" where
  "pushes held target us \<longleftrightarrow> list_all (\<lambda>x. bi_valid (fst x) \<and> bias_target held (fst x) = target) us"

text \<open>A candidate records when its unbroken stretch of samples began.\<close>

definition candidate_traced :: "(bias_input \<times> jsnum) list \<Rightarrow> bias_state \<Rightarrow> bool" where
  "candidate_traced us s \<longleftrightarrow> (case bs_candidate s of None \<Rightarrow> True
     | Some c \<Rightarrow> (\<exists>pre suf. us = pre @ suf \<and> suf \<noteq> [] \<and> snd (hd suf) = bc_since c \<and> pushes (bs_bias s) (bc_bias c) suf))"

definition stretch_now :: "(bias_input \<times> jsnum) list \<Rightarrow> bias_state \<Rightarrow> bias_input \<times> jsnum \<Rightarrow> jsnum" where
  "stretch_now us s x = (case bs_candidate s of
     Some c \<Rightarrow> if bc_bias c = bias_target (bs_bias s) (fst x) then bc_since c else snd x | None \<Rightarrow> snd x)"

lemma stretch_extends:
  assumes "candidate_traced us s" and "bi_valid (fst x)"
  shows "\<exists>pre suf. us @ [x] = pre @ suf \<and> suf \<noteq> [] \<and> snd (hd suf) = stretch_now us s x
                 \<and> pushes (bs_bias s) (bias_target (bs_bias s) (fst x)) suf"
proof (cases "\<exists>c. bs_candidate s = Some c \<and> bc_bias c = bias_target (bs_bias s) (fst x)")
  case True
  with assms obtain c pre suf where c: "bs_candidate s = Some c" "bc_bias c = bias_target (bs_bias s) (fst x)"
    "us = pre @ suf" "suf \<noteq> []" "snd (hd suf) = bc_since c" "pushes (bs_bias s) (bc_bias c) suf"
    by (auto simp: candidate_traced_def)
  then show ?thesis
    using assms(2) by (intro exI [of _ pre] exI [of _ "suf @ [x]"]) (simp add: pushes_def stretch_now_def)
next
  case False
  with assms(2) show ?thesis
    by (intro exI [of _ us] exI [of _ "[x]"]) (auto simp: pushes_def stretch_now_def split: option.splits)
qed

lemma bias_update_cases:
  "(\<not> bi_valid (fst x) \<and> bs_bias (bias_update opts s x) = BiasNeutral \<and> bs_candidate (bias_update opts s x) = None)
 \<or> (bi_valid (fst x) \<and> bias_target (bs_bias s) (fst x) = bs_bias s
      \<and> bs_bias (bias_update opts s x) = bs_bias s \<and> bs_candidate (bias_update opts s x) = None)
 \<or> (bi_valid (fst x) \<and> need_ms opts (bias_target (bs_bias s) (fst x)) \<le> snd x - stretch_now us s x
      \<and> bs_bias (bias_update opts s x) = bias_target (bs_bias s) (fst x) \<and> bs_candidate (bias_update opts s x) = None)
 \<or> (bi_valid (fst x) \<and> bs_bias (bias_update opts s x) = bs_bias s
      \<and> (\<exists>c. bs_candidate (bias_update opts s x) = Some c \<and> bc_bias c = bias_target (bs_bias s) (fst x)
             \<and> bc_since c = stretch_now us s x))"
  by (auto simp: bias_update_def stretch_now_def Let_def split: option.splits)

lemma candidate_traced_step:
  assumes "candidate_traced us s"
  shows "candidate_traced (us @ [x]) (bias_update opts s x)"
  using bias_update_cases [of x opts s us] stretch_extends [OF assms, of x]
  by (auto simp: candidate_traced_def)

lemma candidate_traced_run:
  "candidate_traced us s \<Longrightarrow> candidate_traced (us @ vs) (run_steps (bias_update opts) s vs)"
proof (induction vs arbitrary: us s)
  case (Cons v vs)
  from Cons.IH [OF candidate_traced_step [OF Cons.prems, of v opts]] show ?case by simp
qed simp

text \<open>
  The bias never flips on a whim: along any samples from a fresh machine, a sample that changes the
  bias either reported an invalid book, which clears it to neutral at once, or ends an unbroken stretch
  of valid samples that all pushed the bias held so far toward the new one and lasted the confirmation
  time (the release time when it falls back to neutral).
\<close>

theorem bias_change_was_confirmed:
  assumes "bs_bias (bias_run opts (new_bias t0) (us @ [x])) \<noteq> bs_bias (bias_run opts (new_bias t0) us)"
  shows "(let held = bs_bias (bias_run opts (new_bias t0) us);
              adopted = bs_bias (bias_run opts (new_bias t0) (us @ [x]))
          in (\<not> bi_valid (fst x) \<and> adopted = BiasNeutral)
           \<or> (\<exists>pre suf. us @ [x] = pre @ suf \<and> suf \<noteq> [] \<and> pushes held adopted suf
                \<and> need_ms opts adopted \<le> snd x - snd (hd suf)))"
proof -
  let ?s = "bias_run opts (new_bias t0) us"
  have "candidate_traced us ?s"
    using candidate_traced_run [of "[]" "new_bias t0" us opts]
    by (simp add: candidate_traced_def new_bias_def bias_run_def)
  note stretch = stretch_extends [OF this, of x]
  have step: "bias_run opts (new_bias t0) (us @ [x]) = bias_update opts ?s x"
    by (simp add: bias_run_def run_steps_append)
  with assms bias_update_cases [of x opts ?s us] have
    "(\<not> bi_valid (fst x) \<and> bs_bias (bias_update opts ?s x) = BiasNeutral)
     \<or> (bi_valid (fst x) \<and> need_ms opts (bs_bias (bias_update opts ?s x)) \<le> snd x - stretch_now us ?s x
         \<and> bs_bias (bias_update opts ?s x) = bias_target (bs_bias ?s) (fst x))"
    by auto
  then show ?thesis
  proof (elim disjE conjE)
    assume "bi_valid (fst x)" and *: "need_ms opts (bs_bias (bias_update opts ?s x)) \<le> snd x - stretch_now us ?s x"
      "bs_bias (bias_update opts ?s x) = bias_target (bs_bias ?s) (fst x)"
    from stretch [OF this(1)] obtain pre suf where "us @ [x] = pre @ suf" "suf \<noteq> []"
      "snd (hd suf) = stretch_now us ?s x" "pushes (bs_bias ?s) (bias_target (bs_bias ?s) (fst x)) suf" by blast
    with * show ?thesis unfolding step Let_def by metis
  qed (simp add: step Let_def)
qed

definition demo_push :: bias_input where
  "demo_push = \<lparr> bi_valid = True, bi_enter = Some LONG, bi_holds_long = True, bi_holds_short = False, bi_reasons = [] \<rparr>"

theorem bias_change_was_confirmed_witness:
  "bs_bias (bias_run DEFAULT_BIAS_OPTIONS (new_bias (Fin 1)) ([(demo_push, Fin 1000)] @ [(demo_push, Fin 12000)]))
     \<noteq> bs_bias (bias_run DEFAULT_BIAS_OPTIONS (new_bias (Fin 1)) [(demo_push, Fin 1000)])
   \<and> (let held = bs_bias (bias_run DEFAULT_BIAS_OPTIONS (new_bias (Fin 1)) [(demo_push, Fin 1000)]);
          adopted = bs_bias (bias_run DEFAULT_BIAS_OPTIONS (new_bias (Fin 1)) ([(demo_push, Fin 1000)] @ [(demo_push, Fin 12000)]))
      in (\<not> bi_valid (fst (demo_push, Fin 12000)) \<and> adopted = BiasNeutral)
       \<or> (\<exists>pre suf. [(demo_push, Fin 1000)] @ [(demo_push, Fin 12000)] = pre @ suf \<and> suf \<noteq> [] \<and> pushes held adopted suf
            \<and> need_ms DEFAULT_BIAS_OPTIONS adopted \<le> snd (demo_push, Fin 12000) - snd (hd suf)))"
proof -
  have "bs_bias (bias_run DEFAULT_BIAS_OPTIONS (new_bias (Fin 1)) ([(demo_push, Fin 1000)] @ [(demo_push, Fin 12000)]))
     \<noteq> bs_bias (bias_run DEFAULT_BIAS_OPTIONS (new_bias (Fin 1)) [(demo_push, Fin 1000)])"
    by (simp add: bias_run_def bias_update_def new_bias_def demo_push_def bias_target_def need_ms_def
        DEFAULT_BIAS_OPTIONS_def Let_def)
  from bias_change_was_confirmed [OF this] this show ?thesis by blast
qed

end
