(* ===== verification/MicroFriction.thy ===== *)
theory MicroFriction
  imports MicroFlow
begin

text \<open>
  The friction path of the microstructure engine, the only one that reaches an order
  (\<open>src/microstructure/MicrostructureEngine.ts\<close>: the stream handlers, the status of the book, the
  depth walk, the grading and \<open>entryFriction\<close>; \<open>src/microstructure/FrictionGate.ts\<close>: the verdict), and
  the descriptive phase and evidence rules. The columns of the rendered field and their tiers are
  left out.
\<close>

section \<open>Engine state and stream handlers\<close>

datatype feed_status = FeedLive | FeedSyncing | FeedResync | FeedStale

datatype feed_reason = FromBook book_reason | ResyncNote string | NoDepthFor "jsnum option" | NoFeedReason

datatype friction_status = FrictionOk | FrictionElevated | FrictionBlock

datatype entry_side = Buy | Sell

datatype friction_label = Spread | Slippage entry_side

datatype friction_reason =
    BookNot feed_status feed_reason
  | TooThin friction_label
  | OverLimit friction_label jsnum jsnum
  | NearLimit friction_label jsnum
  | NoOrderBook string
  | FeedNotRunning

record micro_options =
  mo_flowWindowMs :: jsnum
  mo_flowActive :: jsnum
  mo_priceMoveBps :: jsnum
  mo_minTrades :: nat
  mo_orderNotional :: jsnum
  mo_maxSpreadBps :: jsnum
  mo_maxSlipBps :: jsnum
  mo_staleMs :: jsnum

definition DEFAULT_MICRO_OPTIONS :: micro_options where
  "DEFAULT_MICRO_OPTIONS = \<lparr> mo_flowWindowMs = 30000, mo_flowActive = 2/10, mo_priceMoveBps = 3,
     mo_minTrades = 5, mo_orderNotional = 5000, mo_maxSpreadBps = 5, mo_maxSlipBps = 10, mo_staleMs = 5000 \<rparr>"

record micro_engine =
  me_book :: local_book
  me_flow :: trade_flow
  me_ofi :: ofi_tracker
  me_lastDepthAt :: "jsnum option"
  me_resyncNote :: string

definition new_micro :: "jsnum \<Rightarrow> micro_engine" where
  "new_micro longest = \<lparr> me_book = new_book, me_flow = new_flow (longest + 30000),
     me_ofi = new_ofi (longest + 30000), me_lastDepthAt = None, me_resyncNote = '''' \<rparr>"

definition onDepth :: "micro_engine \<Rightarrow> depth_diff \<Rightarrow> jsnum \<Rightarrow> micro_engine \<times> diff_result" where
  "onDepth e d receivedAt =
     (case onDiff (me_book e) d of
        (b, r) \<Rightarrow>
          (e\<lparr> me_lastDepthAt := Some receivedAt, me_book := b,
              me_ofi := (if r = Applied then ofi_onTop (me_ofi e) (book_top b) receivedAt
                         else if r = Gap then ofi_reset (me_ofi e) else me_ofi e) \<rparr>, r))"

definition onSnapshot :: "micro_engine \<Rightarrow> depth_snapshot \<Rightarrow> micro_engine \<times> diff_result" where
  "onSnapshot e s =
     (case book_loadSnapshot (me_book e) s of
        (b, r) \<Rightarrow> (e\<lparr> me_ofi := ofi_reset (me_ofi e), me_book := b \<rparr>, r))"

definition onTrade :: "micro_engine \<Rightarrow> agg_trade \<Rightarrow> micro_engine" where
  "onTrade e t = e\<lparr> me_flow := flow_add (me_flow e) t \<rparr>"

definition invalidate :: "string \<Rightarrow> micro_engine \<Rightarrow> micro_engine" where
  "invalidate why e = e\<lparr> me_book := book_reset why (me_book e), me_ofi := ofi_reset (me_ofi e), me_resyncNote := why \<rparr>"

section \<open>Friction\<close>

definition feed_bookStatus :: "micro_options \<Rightarrow> micro_engine \<Rightarrow> jsnum \<Rightarrow> feed_status \<times> feed_reason \<times> jsnum option" where
  "feed_bookStatus opts e now =
     (let age = map_option (\<lambda>t. now - t) (me_lastDepthAt e)
      in if bk_status (me_book e) = RESYNC_REQUIRED then (FeedResync, FromBook (bk_reason (me_book e)), age)
         else if bk_status (me_book e) = SYNCING then
           (FeedSyncing, (if bk_reason (me_book e) \<in> {NoReason, CallerReset ''''} then ResyncNote (me_resyncNote e)
                          else FromBook (bk_reason (me_book e))), age)
         else case age of
             None \<Rightarrow> (FeedStale, NoDepthFor None, age)
           | Some a \<Rightarrow> (if mo_staleMs opts < a then (FeedStale, NoDepthFor (Some (math_round (a / 1000))), age)
                        else (FeedLive, NoFeedReason, age)))"

definition bps :: "jsnum \<Rightarrow> jsnum \<Rightarrow> jsnum" where
  "bps a b = ((a - b) / b) * 10000"

definition DUST :: jsnum where "DUST = Fin (1 / 10 ^ 9)"

text \<open>The walk down one side: what is left, and the quantity and cost taken so far.\<close>

fun walk :: "jsnum \<Rightarrow> jsnum \<Rightarrow> jsnum \<Rightarrow> price_levels \<Rightarrow> jsnum \<times> jsnum \<times> jsnum" where
  "walk left qty cost [] = (left, qty, cost)"
| "walk left qty cost ((price, shown) # ls) =
     (let taken = math_min shown (left / price);
          left' = left - taken * price
      in if left' \<le> DUST then (left', qty + taken, cost + taken * price)
         else walk left' (qty + taken) (cost + taken * price) ls)"

definition slippageBps :: "price_levels \<Rightarrow> jsnum \<Rightarrow> jsnum \<Rightarrow> entry_side \<Rightarrow> jsnum option" where
  "slippageBps ls notional mid s =
     (case walk notional 0 0 ls of
        (left, qty, cost) \<Rightarrow>
          (if DUST < left \<or> qty \<le> 0 then None
           else Some (case s of Buy \<Rightarrow> bps (cost / qty) mid | Sell \<Rightarrow> bps mid (cost / qty))))"

definition blockers :: "(jsnum option \<times> jsnum \<times> friction_label) list \<Rightarrow> friction_reason list" where
  "blockers checks = concat (map (\<lambda>(v, limit, label). case v of
       None \<Rightarrow> [TooThin label] | Some x \<Rightarrow> (if limit < x then [OverLimit label x limit] else [])) checks)"

definition warnings :: "(jsnum option \<times> jsnum \<times> friction_label) list \<Rightarrow> friction_reason list" where
  "warnings checks = concat (map (\<lambda>(v, limit, label). case v of
       None \<Rightarrow> [] | Some x \<Rightarrow> (if \<not> limit < x \<and> limit / 2 < x then [NearLimit label x] else [])) checks)"

definition grade :: "(jsnum option \<times> jsnum \<times> friction_label) list \<Rightarrow> friction_status \<times> friction_reason list" where
  "grade checks =
     ((if blockers checks \<noteq> [] then FrictionBlock else if warnings checks \<noteq> [] then FrictionElevated else FrictionOk),
      blockers checks @ warnings checks)"

record entry_friction =
  ef_status :: friction_status
  ef_reasons :: "friction_reason list"
  ef_spreadBps :: "jsnum option"
  ef_slipBps :: "jsnum option"
  ef_bookStatus :: feed_status
  ef_bookAgeMs :: "jsnum option"

definition entryFriction :: "micro_options \<Rightarrow> micro_engine \<Rightarrow> entry_side \<Rightarrow> jsnum \<Rightarrow> jsnum \<Rightarrow> entry_friction" where
  "entryFriction opts e s notional now =
     (case feed_bookStatus opts e now of
        (status, reason, age) \<Rightarrow>
          (case (if status = FeedLive then bestBid (me_book e) else None,
                 if status = FeedLive then bestAsk (me_book e) else None) of
             (Some bid, Some ask) \<Rightarrow>
               (let m = (bid + ask) / 2;
                    spread = bps ask bid;
                    slip = (if 0 < notional
                            then slippageBps (levels (case s of Buy \<Rightarrow> Asks | Sell \<Rightarrow> Bids) None (me_book e)) notional m s
                            else Some 0);
                    g = grade [(Some spread, mo_maxSpreadBps opts, Spread), (slip, mo_maxSlipBps opts, Slippage s)]
                in \<lparr> ef_status = fst g, ef_reasons = snd g, ef_spreadBps = Some spread, ef_slipBps = slip,
                     ef_bookStatus = status, ef_bookAgeMs = age \<rparr>)
           | _ \<Rightarrow> \<lparr> ef_status = FrictionBlock, ef_reasons = [BookNot status reason], ef_spreadBps = None,
                   ef_slipBps = None, ef_bookStatus = status, ef_bookAgeMs = age \<rparr>))"

section \<open>The gate\<close>

datatype gate_mode = GateOff | GateShadow | GateOn

record friction_verdict =
  fv_allowed :: bool
  fv_mode :: gate_mode
  fv_status :: "friction_status option"
  fv_reasons :: "friction_reason list"
  fv_spreadBps :: "jsnum option"
  fv_slipBps :: "jsnum option"

text \<open>\<open>None\<close> as the status is \<open>UNMEASURED\<close>; an empty list of reasons reads as within limits.\<close>

definition frictionVerdict :: "gate_mode \<Rightarrow> (string \<Rightarrow> (micro_options \<times> micro_engine) option) option \<Rightarrow> string
     \<Rightarrow> entry_side \<Rightarrow> jsnum \<Rightarrow> jsnum \<Rightarrow> friction_verdict" where
  "frictionVerdict mode source symbol s notional now =
     (if mode = GateOff then
        \<lparr> fv_allowed = True, fv_mode = mode, fv_status = None, fv_reasons = [], fv_spreadBps = None, fv_slipBps = None \<rparr>
      else
        (let friction = (case (case source of None \<Rightarrow> None | Some src \<Rightarrow> src symbol) of
               Some (opts, e) \<Rightarrow> entryFriction opts e s notional now
             | None \<Rightarrow> \<lparr> ef_status = FrictionBlock,
                         ef_reasons = [if source = None then FeedNotRunning else NoOrderBook symbol],
                         ef_spreadBps = None, ef_slipBps = None, ef_bookStatus = FeedSyncing, ef_bookAgeMs = None \<rparr>)
         in \<lparr> fv_allowed = (\<not> (ef_status friction = FrictionBlock \<and> mode = GateOn)), fv_mode = mode,
              fv_status = Some (ef_status friction), fv_reasons = ef_reasons friction,
              fv_spreadBps = ef_spreadBps friction, fv_slipBps = ef_slipBps friction \<rparr>))"

definition entrySide :: "signal_type \<Rightarrow> entry_side" where
  "entrySide t = (if t \<in> {OPEN_SHORT, OPEN_HEDGE, OPEN_FUNDING_SHORT} then Sell else Buy)"

section \<open>Phase and evidence\<close>

datatype flow_phase = INITIATIVE_BUYING | BUY_ABSORBED | INITIATIVE_SELLING | SELL_ABSORBED
  | DRIFT_UP | DRIFT_DOWN | BALANCED | THIN

text \<open>\<open>scale\<close> is \<open>Math.sqrt(ms / 30_000)\<close>.\<close>

definition phase_of :: "micro_options \<Rightarrow> jsnum option \<Rightarrow> nat \<Rightarrow> jsnum option \<Rightarrow> jsnum \<Rightarrow> flow_phase" where
  "phase_of opts delta trades response scale =
     (case (delta, response) of
        (Some d, Some r) \<Rightarrow>
          (if trades < mo_minTrades opts then THIN
           else
             (let moved = mo_priceMoveBps opts * scale \<le> \<bar>r\<bar>
              in if mo_flowActive opts \<le> d then (if moved \<and> 0 < r then INITIATIVE_BUYING else BUY_ABSORBED)
                 else if d \<le> - mo_flowActive opts then (if moved \<and> r < 0 then INITIATIVE_SELLING else SELL_ABSORBED)
                 else if moved then (if 0 < r then DRIFT_UP else DRIFT_DOWN)
                 else BALANCED))
      | _ \<Rightarrow> THIN)"

text \<open>The sum over the levels within the band, walked best first.\<close>

fun band_sum :: "(jsnum \<Rightarrow> jsnum) \<Rightarrow> jsnum \<Rightarrow> jsnum \<Rightarrow> price_levels \<Rightarrow> jsnum" where
  "band_sum gap band acc [] = acc"
| "band_sum gap band acc ((p, q) # ls) = (if band < gap p then acc else band_sum gap band (acc + q) ls)"

definition imbalance :: "local_book \<Rightarrow> jsnum option \<Rightarrow> jsnum \<Rightarrow> jsnum option" where
  "imbalance b m band =
     (case m of None \<Rightarrow> None
      | Some mid_price \<Rightarrow>
          (let bq = band_sum (\<lambda>p. bps mid_price p) band 0 (levels Bids None b);
               aq = band_sum (\<lambda>p. bps p mid_price) band 0 (levels Asks None b)
           in if 0 < bq + aq then Some ((bq - aq) / (bq + aq)) else None))"

section \<open>The depth walk\<close>

definition depth_notional :: "price_levels \<Rightarrow> jsnum" where
  "depth_notional ls = sum_list (map (\<lambda>l. fst l * snd l) ls)"

lemma depth_notional_Cons [simp]: "depth_notional (l # ls) = fst l * snd l + depth_notional ls"
  by (simp add: depth_notional_def)

lemma depth_notional_nonneg: "list_all level_ok ls \<Longrightarrow> \<exists>d. depth_notional ls = Fin d \<and> 0 \<le> d"
proof (induction ls)
  case (Cons l ls)
  then obtain d where "depth_notional ls = Fin d" "0 \<le> d" by auto
  with Cons.prems show ?case by (auto simp: level_ok_def is_finite_iff)
qed (simp add: depth_notional_def)

text \<open>One level: something is taken, never more than is shown or than is left to spend.\<close>

lemma walk_level:
  assumes "level_ok (price, shown)" and "0 \<le> l"
  obtains p s t where "price = Fin p" "shown = Fin s" "0 < p" "0 < s"
    "math_min shown (Fin l / price) = Fin t" "0 \<le> t" "t \<le> s" "t * p \<le> l"
proof -
  from assms(1) obtain p s where ps: "price = Fin p" "shown = Fin s" "0 < p" "0 < s"
    by (auto simp: level_ok_def is_finite_iff)
  have "min s (l / p) * p \<le> (l / p) * p" using ps by (intro mult_right_mono) auto
  with ps have "min s (l / p) * p \<le> l" by simp
  with ps assms(2) that [of p s "min s (l / p)"] show ?thesis by simp
qed

definition walk_ok :: "real \<Rightarrow> real \<Rightarrow> price_levels \<Rightarrow> real \<Rightarrow> real \<Rightarrow> real \<Rightarrow> real \<Rightarrow> real \<Rightarrow> real \<Rightarrow> bool" where
  "walk_ok lo hi ls l q c l' q' c' \<longleftrightarrow>
     0 \<le> l' \<and> l' + c' = l + c \<and> q \<le> q' \<and> Fin (c' - c) \<le> depth_notional ls
   \<and> lo * (q' - q) \<le> c' - c \<and> c' - c \<le> hi * (q' - q)"

lemma walk_bounds:
  assumes "list_all level_ok ls" and "list_all (\<lambda>x. Fin lo \<le> fst x \<and> fst x \<le> Fin hi) ls" and "0 \<le> l"
  shows "\<exists>l' q' c'. walk (Fin l) (Fin q) (Fin c) ls = (Fin l', Fin q', Fin c') \<and> walk_ok lo hi ls l q c l' q' c'"
  using assms
proof (induction ls arbitrary: l q c)
  case Nil
  then show ?case by (simp add: walk_ok_def depth_notional_def)
next
  case (Cons x ls)
  obtain price shown where x: "x = (price, shown)" by fastforce
  from Cons.prems x have "level_ok (price, shown)" by simp
  then obtain p s t where t: "price = Fin p" "shown = Fin s" "0 < p" "0 < s"
    "math_min shown (Fin l / price) = Fin t" "0 \<le> t" "t \<le> s" "t * p \<le> l"
    using walk_level Cons.prems(3) by metis
  from Cons.prems x t have lohi: "lo \<le> p" "p \<le> hi" by auto
  from depth_notional_nonneg Cons.prems obtain d where d: "depth_notional ls = Fin d" "0 \<le> d" by auto
  have here: "t * p \<le> p * s" "lo * t \<le> t * p" "t * p \<le> hi * t"
    using t lohi by (simp_all add: mult.commute mult_left_mono mult_right_mono)
  show ?case
  proof (cases "Fin (l - t * p) \<le> DUST")
    case True
    with x t have "walk (Fin l) (Fin q) (Fin c) (x # ls) = (Fin (l - t * p), Fin (q + t), Fin (c + t * p))"
      by (simp add: Let_def del: js_consts)
    moreover from here(1) d(2) have "t * p \<le> p * s + d" by linarith
    then have "walk_ok lo hi (x # ls) l q c (l - t * p) (q + t) (c + t * p)"
      using here d x t by (simp add: walk_ok_def algebra_simps)
    ultimately show ?thesis by blast
  next
    case False
    from Cons.IH [of "l - t * p" "q + t" "c + t * p"] Cons.prems t obtain l' q' c' where
      IH: "walk (Fin (l - t * p)) (Fin (q + t)) (Fin (c + t * p)) ls = (Fin l', Fin q', Fin c')"
          "walk_ok lo hi ls (l - t * p) (q + t) (c + t * p) l' q' c'" by auto
    with False x t have "walk (Fin l) (Fin q) (Fin c) (x # ls) = (Fin l', Fin q', Fin c')"
      by (simp add: Let_def del: js_consts)
    moreover from IH(2) d(1) have "c' - (c + t * p) \<le> d" by (simp add: walk_ok_def)
    with here(1) have "c' - c \<le> p * s + d" by linarith
    then have "walk_ok lo hi (x # ls) l q c l' q' c'"
      using IH(2) here(2,3) d x t by (simp add: walk_ok_def algebra_simps)
    ultimately show ?thesis by blast
  qed
qed

text \<open>What a filled walk says of its average price.\<close>

lemma slippage_filled:
  assumes "list_all level_ok ls" and "list_all (\<lambda>x. Fin lo \<le> fst x \<and> fst x \<le> Fin hi) ls"
    and "0 \<le> n" and "slippageBps ls (Fin n) (Fin m) s = Some slip"
  shows "\<exists>v. lo \<le> v \<and> v \<le> hi \<and> Fin (n - 1 / 10 ^ 9) \<le> depth_notional ls
           \<and> slip = (case s of Buy \<Rightarrow> bps (Fin v) (Fin m) | Sell \<Rightarrow> bps (Fin m) (Fin v))"
proof -
  from walk_bounds [OF assms(1-3), of 0 0] obtain l' q' c' where
    w: "walk (Fin n) (Fin 0) (Fin 0) ls = (Fin l', Fin q', Fin c')" "walk_ok lo hi ls n 0 0 l' q' c'" by auto
  with assms(4) have f: "l' \<le> 1 / 10 ^ 9" "0 < q'"
    and s: "slip = (case s of Buy \<Rightarrow> bps (Fin (c' / q')) (Fin m) | Sell \<Rightarrow> bps (Fin m) (Fin (c' / q')))"
    by (auto simp: slippageBps_def DUST_def split: if_splits entry_side.splits)
  from w(2) f depth_notional_nonneg [OF assms(1)] have "lo \<le> c' / q'" "c' / q' \<le> hi"
    "Fin (n - 1 / 10 ^ 9) \<le> depth_notional ls"
    by (auto simp: walk_ok_def field_simps)
  with s show ?thesis by blast
qed

section \<open>The gate over a live book\<close>

lemma insert_level_mset: "mset (insert_level s x ls) = add_mset x (mset ls)"
  by (induction ls) auto

lemma levels_mset:
  "mset (levels s None b) = mset (case s of Bids \<Rightarrow> bk_bids b | Asks \<Rightarrow> bk_asks b)"
proof -
  have "mset (foldl (\<lambda>acc x. insert_level s x acc) acc xs) = mset acc + mset xs" for acc xs
    by (induction xs arbitrary: acc) (auto simp: insert_level_mset)
  then show ?thesis by (simp add: levels_def)
qed

lemma levels_set: "set (levels s None b) = set (case s of Bids \<Rightarrow> bk_bids b | Asks \<Rightarrow> bk_asks b)"
  using levels_mset [of s b] by (metis set_mset_mset)

text \<open>Stream operations as one step, so that the gate can be stated for any feed.\<close>

datatype micro_op = MicroDepth depth_diff jsnum | MicroSnapshot depth_snapshot | MicroTrade agg_trade | MicroInvalidate string

fun micro_apply :: "micro_engine \<Rightarrow> micro_op \<Rightarrow> micro_engine" where
  "micro_apply e (MicroDepth d tm) = fst (onDepth e d tm)"
| "micro_apply e (MicroSnapshot s) = fst (onSnapshot e s)"
| "micro_apply e (MicroTrade t) = onTrade e t"
| "micro_apply e (MicroInvalidate why) = invalidate why e"

fun micro_op_ok :: "micro_op \<Rightarrow> bool" where
  "micro_op_ok (MicroSnapshot s) = snapshot_ok s"
| "micro_op_ok _ = True"

lemma micro_apply_book:
  "book_ok (me_book e) \<Longrightarrow> micro_op_ok op \<Longrightarrow> book_ok (me_book (micro_apply e op))"
proof (cases op)
  case (MicroDepth d tm)
  assume "book_ok (me_book e)"
  with MicroDepth show ?thesis
    using book_apply_ok [of "me_book e" "OnDiff d"] by (simp add: onDepth_def diff_step_def case_prod_beta)
next
  case (MicroSnapshot s)
  assume "book_ok (me_book e)" "micro_op_ok op"
  with MicroSnapshot show ?thesis
    using book_apply_ok [of "me_book e" "LoadSnapshot s"] by (simp add: onSnapshot_def case_prod_beta)
next
  case (MicroInvalidate why)
  assume "book_ok (me_book e)"
  with MicroInvalidate show ?thesis
    using book_apply_ok [of "me_book e" "ResetBook why"] by (simp add: invalidate_def)
qed (simp add: onTrade_def)

lemma micro_run_book:
  "list_all micro_op_ok ops \<Longrightarrow> book_ok (me_book (run_steps micro_apply (new_micro longest) ops))"
proof -
  have "book_ok (me_book e) \<Longrightarrow> list_all micro_op_ok ops \<Longrightarrow> book_ok (me_book (run_steps micro_apply e ops))" for e
    by (induction ops arbitrary: e) (auto intro: micro_apply_book)
  moreover have "book_ok (me_book (new_micro longest))"
    by (simp add: new_micro_def new_book_def book_ok_def sides_ok_def)
  ultimately show "list_all micro_op_ok ops \<Longrightarrow> ?thesis" by blast
qed

lemma touch_in_book:
  "bestBid b = Some bid \<Longrightarrow> bid \<in> set (map fst (bk_bids b))"
  "bestAsk b = Some ask \<Longrightarrow> ask \<in> set (map fst (bk_asks b))"
  unfolding bestBid_def bestAsk_def by (erule best_of_in)+

lemma uncrossed_touch: "uncrossed b \<Longrightarrow> bestBid b = Some bid \<Longrightarrow> bestAsk b = Some ask \<Longrightarrow> bid < ask"
  using touch_in_book(1) [of b bid] touch_in_book(2) [of b ask] by (auto simp: uncrossed_def list_all_iff)

lemma live_status:
  assumes "feed_bookStatus opts e now = (FeedLive, r, age)"
  shows "bk_status (me_book e) = LIVE \<and> (\<exists>t. me_lastDepthAt e = Some t \<and> \<not> mo_staleMs opts < now - t)"
  using assms by (cases "bk_status (me_book e)") (auto simp: feed_bookStatus_def Let_def split: if_splits option.splits)

lemma not_blocked:
  "fst (grade checks) \<noteq> FrictionBlock \<Longrightarrow> (v, limit, label) \<in> set checks \<Longrightarrow> \<exists>x. v = Some x \<and> \<not> limit < x"
  by (auto simp: grade_def blockers_def split: if_splits option.splits)

text \<open>
  C25. The entry gate fails closed: whatever the feed received, if the gate is on and lets an entry
  through, the symbol has an engine whose book is live and uncrossed with a depth update no older than
  the stale limit, both sides quote, the spread is within its limit, and the walk down the book fills
  the order within the slippage limit.
\<close>

theorem friction_gate_fails_closed:
  assumes "fv_allowed (frictionVerdict GateOn source symbol s (Fin n) now)" and "0 < n"
    and "\<And>opts e src. source = Some src \<Longrightarrow> src symbol = Some (opts, e) \<Longrightarrow>
           \<exists>longest ops. list_all micro_op_ok ops \<and> e = run_steps micro_apply (new_micro longest) ops"
  shows "\<exists>src opts e bid ask slip t.
           source = Some src \<and> src symbol = Some (opts, e) \<and>
           bk_status (me_book e) = LIVE \<and> uncrossed (me_book e) \<and>
           me_lastDepthAt e = Some t \<and> \<not> mo_staleMs opts < now - t \<and>
           bestBid (me_book e) = Some bid \<and> bestAsk (me_book e) = Some ask \<and> bid < ask \<and>
           \<not> mo_maxSpreadBps opts < bps ask bid \<and>
           slippageBps (levels (case s of Buy \<Rightarrow> Asks | Sell \<Rightarrow> Bids) None (me_book e)) (Fin n)
             ((bid + ask) / 2) s = Some slip \<and>
           \<not> mo_maxSlipBps opts < slip"
proof -
  obtain src opts e where se: "source = Some src" "src symbol = Some (opts, e)"
    using assms(1) by (auto simp: frictionVerdict_def Let_def split: option.splits)
  with assms(1) have nb: "ef_status (entryFriction opts e s (Fin n) now) \<noteq> FrictionBlock"
    by (auto simp: frictionVerdict_def Let_def)
  obtain st r age where fs: "feed_bookStatus opts e now = (st, r, age)" by (metis prod_cases3)
  with nb obtain bid ask where ba: "st = FeedLive" "bestBid (me_book e) = Some bid" "bestAsk (me_book e) = Some ask"
    by (auto simp: entryFriction_def split: option.splits if_splits)
  let ?slip = "slippageBps (levels (case s of Buy \<Rightarrow> Asks | Sell \<Rightarrow> Bids) None (me_book e)) (Fin n) ((bid + ask) / 2) s"
  from nb fs ba assms(2) have g: "fst (grade [(Some (bps ask bid), mo_maxSpreadBps opts, Spread),
      (?slip, mo_maxSlipBps opts, Slippage s)]) \<noteq> FrictionBlock"
    by (simp add: entryFriction_def Let_def)
  from not_blocked [OF g, of "Some (bps ask bid)"] have sp: "\<not> mo_maxSpreadBps opts < bps ask bid" by auto
  from not_blocked [OF g, of ?slip] obtain slip where sl: "?slip = Some slip" "\<not> mo_maxSlipBps opts < slip" by auto
  from live_status fs ba(1) obtain t where t: "bk_status (me_book e) = LIVE" "me_lastDepthAt e = Some t"
    "\<not> mo_staleMs opts < now - t" by blast
  from assms(3) [OF se] micro_run_book have ok: "book_ok (me_book e)" by blast
  with t(1) have u: "uncrossed (me_book e)" by (simp add: book_ok_def)
  from uncrossed_touch [OF u ba(2,3)] have "bid < ask" .
  with se t u ba sp sl show ?thesis by blast
qed

lemma price_bounds:
  "list_all level_ok ls \<Longrightarrow> \<exists>lo hi. 0 < lo \<and> list_all (\<lambda>x. Fin lo \<le> fst x \<and> fst x \<le> Fin hi) ls"
proof (induction ls)
  case Nil
  show ?case by (simp add: exI [of _ "1::real"])
next
  case (Cons x ls)
  then obtain lo hi p where "0 < lo" "list_all (\<lambda>x. Fin lo \<le> fst x \<and> fst x \<le> Fin hi) ls" "fst x = Fin p" "0 < p"
    by (auto simp: level_ok_def is_finite_iff)
  moreover have "Fin (min lo p) \<le> y \<and> y \<le> Fin (max hi p)" if "Fin lo \<le> y" "y \<le> Fin hi" for y
    using that by (cases y) auto
  ultimately have "0 < min lo p \<and> list_all (\<lambda>x. Fin (min lo p) \<le> fst x \<and> fst x \<le> Fin (max hi p)) (x # ls)"
    by (auto simp: list_all_iff)
  then show ?case by blast
qed

lemma touch_bounds_levels:
  assumes "sides_ok b"
  shows "bestAsk b = Some ask \<Longrightarrow> is_finite ask \<and> list_all (\<lambda>x. ask \<le> fst x) (levels Asks None b)"
    and "bestBid b = Some bid \<Longrightarrow> is_finite bid \<and> list_all (\<lambda>x. fst x \<le> bid) (levels Bids None b)"
  using assms best_of_min [of None "map fst (bk_asks b)" ask] best_of_max [of None "map fst (bk_bids b)" bid]
  by (auto simp: bestAsk_def bestBid_def sides_ok_def side_ok_def list_all_iff levels_set level_ok_def)

lemma levels_ok: "sides_ok b \<Longrightarrow> list_all level_ok (levels s None b)"
  by (cases s) (auto simp: sides_ok_def side_ok_def list_all_iff levels_set)

text \<open>
  The measured slippage is honest: on the live book of any feed, an order the walk fills is backed
  by displayed depth of its notional (up to the walk's dust), and its slippage from the mid is
  positive and at least the distance from the mid to the touch it crosses.
\<close>

theorem filled_order_pays_the_touch:
  assumes "list_all micro_op_ok ops" and "e = run_steps micro_apply (new_micro longest) ops"
    and "bk_status (me_book e) = LIVE" and "bestBid (me_book e) = Some bid" and "bestAsk (me_book e) = Some ask"
    and "0 < n"
    and "slippageBps (levels (case s of Buy \<Rightarrow> Asks | Sell \<Rightarrow> Bids) None (me_book e)) (Fin n) ((bid + ask) / 2) s = Some slip"
  shows "0 < slip
       \<and> (case s of Buy \<Rightarrow> bps ask ((bid + ask) / 2) | Sell \<Rightarrow> bps ((bid + ask) / 2) bid) \<le> slip
       \<and> Fin (n - 1 / 10 ^ 9) \<le> depth_notional (levels (case s of Buy \<Rightarrow> Asks | Sell \<Rightarrow> Bids) None (me_book e))"
proof -
  let ?b = "me_book e" and ?ls = "levels (case s of Buy \<Rightarrow> Asks | Sell \<Rightarrow> Bids) None (me_book e)"
  have ok: "book_ok ?b" using micro_run_book assms(1,2) by blast
  then have so: "sides_ok ?b" by (simp add: book_ok_def)
  from so touch_in_book(1) [OF assms(4)] touch_in_book(2) [OF assms(5)] have "level_ok (bid, 1)" "level_ok (ask, 1)"
    by (auto simp: sides_ok_def side_ok_def list_all_iff level_ok_def)
  then obtain rb ra where r: "bid = Fin rb" "ask = Fin ra" "0 < rb" "0 < ra"
    by (auto simp: level_ok_def is_finite_iff)
  from ok assms(3) uncrossed_touch [OF _ assms(4,5)] have "bid < ask" by (simp add: book_ok_def)
  with r have lt: "rb < ra" by simp
  define m where "m = (rb + ra) / 2"
  have mid: "(bid + ask) / 2 = Fin m" using r by (simp add: m_def)
  from price_bounds [OF levels_ok [OF so]] obtain lo hi where
    lh: "0 < lo" "list_all (\<lambda>x. Fin lo \<le> fst x \<and> fst x \<le> Fin hi) ?ls" by blast
  show ?thesis
  proof (cases s)
    case Buy
    with touch_bounds_levels(1) [OF so assms(5)] lh r
    have "list_all (\<lambda>x. Fin ra \<le> fst x \<and> fst x \<le> Fin hi) ?ls" by (simp add: list_all_iff)
    from slippage_filled [OF levels_ok [OF so] this, of n m s slip] assms(6,7) mid Buy obtain v where
      v: "ra \<le> v" "slip = bps (Fin v) (Fin m)" "Fin (n - 1 / 10 ^ 9) \<le> depth_notional ?ls" by auto
    from v(1) lt r have "0 < m" "m < v" by (simp_all add: m_def)
    moreover have "(ra * 10000 - m * 10000) / m \<le> (v * 10000 - m * 10000) / m"
      using v(1) \<open>0 < m\<close> by (intro divide_right_mono) auto
    ultimately show ?thesis using v r mid Buy by (simp add: bps_def)
  next
    case Sell
    with touch_bounds_levels(2) [OF so assms(4)] lh r
    have "list_all (\<lambda>x. Fin lo \<le> fst x \<and> fst x \<le> Fin rb) ?ls" by (simp add: list_all_iff)
    from slippage_filled [OF levels_ok [OF so] this, of n m s slip] assms(6,7) mid Sell obtain v where
      v: "lo \<le> v" "v \<le> rb" "slip = bps (Fin m) (Fin v)" "Fin (n - 1 / 10 ^ 9) \<le> depth_notional ?ls" by auto
    from v(1,2) lt lh(1) have "0 < v" "v < m" by (simp_all add: m_def)
    moreover have "(m * 10000 - rb * 10000) / rb \<le> (m * 10000 - v * 10000) / v"
      using v(2) \<open>0 < v\<close> \<open>v < m\<close> r(3) by (simp add: field_simps)
    ultimately show ?thesis using v r mid Sell by (simp add: bps_def)
  qed
qed

definition demo_ops :: "micro_op list" where
  "demo_ops = [MicroSnapshot demo_snapshot, MicroDepth demo_diff (Fin 1000)]"

definition demo_engine :: micro_engine where
  "demo_engine = run_steps micro_apply (new_micro (Fin 300000)) demo_ops"

definition demo_micro_options :: micro_options where
  "demo_micro_options = DEFAULT_MICRO_OPTIONS\<lparr> mo_maxSpreadBps := 200, mo_maxSlipBps := 100 \<rparr>"

lemma demo_micro_options_simps:
  "mo_maxSpreadBps demo_micro_options = Fin 200" "mo_maxSlipBps demo_micro_options = Fin 100"
  "mo_staleMs demo_micro_options = Fin 5000"
  by (simp_all add: demo_micro_options_def DEFAULT_MICRO_OPTIONS_def)

lemma demo_ops_ok: "list_all micro_op_ok demo_ops"
  by (simp add: demo_ops_def snapshot_ok_def demo_snapshot_def)

lemmas demo_engine_simps = demo_engine_def demo_ops_def new_micro_def onDepth_def onSnapshot_def onDiff_def
  book_loadSnapshot_def apply_diff_def snapshot_side_def straddles_def setLevel_def crossed_def bestBid_def
  bestAsk_def demo_diff_def demo_snapshot_def new_book_def

lemma demo_engine_book:
  "bk_status (me_book demo_engine) = LIVE" "bestBid (me_book demo_engine) = Some (Fin 100)"
  "bestAsk (me_book demo_engine) = Some (Fin 101)" "me_lastDepthAt demo_engine = Some (Fin 1000)"
  "levels Asks None (me_book demo_engine) = [(Fin 101, Fin 3)]"
  by (simp_all add: demo_engine_simps Let_def levels_def)

lemma demo_slippage:
  "slippageBps (levels (case Buy of Buy \<Rightarrow> Asks | Sell \<Rightarrow> Bids) None (me_book demo_engine)) (Fin 101)
     ((Fin 100 + Fin 101) / 2) Buy = Some (Fin (10000 / 201))"
  by (simp add: demo_engine_book slippageBps_def DUST_def Let_def bps_def)

theorem filled_order_pays_the_touch_witness:
  "slippageBps (levels (case Buy of Buy \<Rightarrow> Asks | Sell \<Rightarrow> Bids) None (me_book demo_engine)) (Fin 101)
     ((Fin 100 + Fin 101) / 2) Buy = Some (Fin (10000 / 201))
   \<and> 0 < Fin (10000 / 201)
   \<and> bps (Fin 101) ((Fin 100 + Fin 101) / 2) \<le> Fin (10000 / 201)
   \<and> Fin (101 - 1 / 10 ^ 9) \<le> depth_notional (levels (case Buy of Buy \<Rightarrow> Asks | Sell \<Rightarrow> Bids) None (me_book demo_engine))"
  using filled_order_pays_the_touch [OF demo_ops_ok demo_engine_def demo_engine_book(1,2,3), of 101 Buy, OF _ demo_slippage]
    demo_slippage by simp

theorem friction_gate_fails_closed_witness:
  "fv_allowed (frictionVerdict GateOn (Some (\<lambda>s. Some (demo_micro_options, demo_engine))) ''BTCUSDT'' Buy (Fin 101) (Fin 2000))
   \<and> (\<exists>src opts e bid ask slip t.
           Some (\<lambda>s. Some (demo_micro_options, demo_engine)) = Some src \<and> src ''BTCUSDT'' = Some (opts, e) \<and>
           bk_status (me_book e) = LIVE \<and> uncrossed (me_book e) \<and>
           me_lastDepthAt e = Some t \<and> \<not> mo_staleMs opts < Fin 2000 - t \<and>
           bestBid (me_book e) = Some bid \<and> bestAsk (me_book e) = Some ask \<and> bid < ask \<and>
           \<not> mo_maxSpreadBps opts < bps ask bid \<and>
           slippageBps (levels (case Buy of Buy \<Rightarrow> Asks | Sell \<Rightarrow> Bids) None (me_book e)) (Fin 101)
             ((bid + ask) / 2) Buy = Some slip \<and>
           \<not> mo_maxSlipBps opts < slip)"
proof -
  have fs: "feed_bookStatus demo_micro_options demo_engine (Fin 2000) = (FeedLive, NoFeedReason, Some (Fin 1000))"
    using demo_engine_book by (simp add: feed_bookStatus_def demo_micro_options_simps Let_def)
  have al: "fv_allowed (frictionVerdict GateOn (Some (\<lambda>s. Some (demo_micro_options, demo_engine))) ''BTCUSDT'' Buy (Fin 101) (Fin 2000))"
    using demo_slippage
    by (simp add: frictionVerdict_def entryFriction_def fs demo_engine_book(2,3) Let_def grade_def blockers_def bps_def
        demo_micro_options_simps)
  have "\<exists>longest ops. list_all micro_op_ok ops \<and> e = run_steps micro_apply (new_micro longest) ops"
    if "Some (\<lambda>s. Some (demo_micro_options, demo_engine)) = Some src" "src ''BTCUSDT'' = Some (opts, e)" for opts e src
    using that demo_ops_ok demo_engine_def by auto
  from friction_gate_fails_closed [OF al _ this] al show ?thesis by simp
qed

end
