(* ===== verification/SmcLifecycle.thy ===== *)
theory SmcLifecycle
  imports RiskLimits Interfaces
begin

text \<open>
  The lifecycle of an SMC-ML trade (\<open>src/strategies/smc-ml/SmcTradeLifecycle.ts\<close>): one record per
  trade, a constructor that checks its geometry and one pure step per mark price. A throw is \<open>Inl\<close>.
\<close>

datatype smc_phase = ENTRY | TP1_PARTIAL | BREAKEVEN | TRAILING | CLOSED

datatype closed_reason = ByTp2 | ByStop | ExternalClose | ManualClose

record smc_config =
  sc_tp1Fraction :: jsnum
  sc_breakevenBufferR :: jsnum
  sc_trailingStartR :: jsnum
  sc_trailingDistanceR :: jsnum

record smc_config_part =
  cp_tp1Fraction :: "jsnum option"
  cp_breakevenBufferR :: "jsnum option"
  cp_trailingStartR :: "jsnum option"
  cp_trailingDistanceR :: "jsnum option"

definition DEFAULT_SMC_TRADE_LIFECYCLE_CONFIG :: smc_config where
  "DEFAULT_SMC_TRADE_LIFECYCLE_CONFIG = \<lparr> sc_tp1Fraction = 5/10, sc_breakevenBufferR = 0,
     sc_trailingStartR = 1, sc_trailingDistanceR = 5/10 \<rparr>"

record smc_lifecycle =
  lc_setupId :: string
  lc_symbol :: string
  lc_direction :: side
  lc_initialQty :: jsnum
  lc_remainingQty :: jsnum
  lc_entryPrice :: jsnum
  lc_initialRisk :: jsnum
  lc_tp1 :: jsnum
  lc_tp2 :: jsnum
  lc_stopPrice :: jsnum
  lc_phase :: smc_phase
  lc_highestPrice :: jsnum
  lc_lowestPrice :: jsnum
  lc_tp1Executed :: bool
  lc_breakevenActivated :: bool
  lc_trailingActivated :: bool
  lc_config :: smc_config
  lc_closedReason :: "closed_reason option"

record smc_market =
  mk_markPrice :: jsnum
  mk_positionQty :: jsnum

datatype stop_move = MoveBreakeven | MoveTrailing

datatype smc_action =
    PartialClose jsnum
  | MoveStop jsnum stop_move
  | CloseRemaining

datatype smc_error =
    QtyNotPositive | RiskNotPositive | PricesNotPositive | FractionOutOfRange | InvalidThresholds
  | InvalidGeometry | InvalidMarketState

record smc_params =
  sp_setupId :: string
  sp_symbol :: string
  sp_direction :: side
  sp_initialQty :: jsnum
  sp_entryPrice :: jsnum
  sp_initialRisk :: jsnum
  sp_tp1 :: jsnum
  sp_tp2 :: jsnum
  sp_stopPrice :: jsnum
  sp_config :: "smc_config_part option"

definition merge_config :: "smc_config_part option \<Rightarrow> smc_config" where
  "merge_config part = (let d = DEFAULT_SMC_TRADE_LIFECYCLE_CONFIG in case part of None \<Rightarrow> d
     | Some p \<Rightarrow> \<lparr> sc_tp1Fraction = case_option (sc_tp1Fraction d) id (cp_tp1Fraction p),
                  sc_breakevenBufferR = case_option (sc_breakevenBufferR d) id (cp_breakevenBufferR p),
                  sc_trailingStartR = case_option (sc_trailingStartR d) id (cp_trailingStartR p),
                  sc_trailingDistanceR = case_option (sc_trailingDistanceR d) id (cp_trailingDistanceR p) \<rparr>)"

definition correctGeometry :: "smc_params \<Rightarrow> bool" where
  "correctGeometry p = (case sp_direction p of
     LONG \<Rightarrow> sp_stopPrice p < sp_entryPrice p \<and> sp_entryPrice p < sp_tp1 p \<and> sp_tp1 p \<le> sp_tp2 p
   | SHORT \<Rightarrow> sp_entryPrice p < sp_stopPrice p \<and> sp_tp1 p < sp_entryPrice p \<and> sp_tp2 p \<le> sp_tp1 p)"

definition createSmcTradeLifecycle :: "smc_params \<Rightarrow> smc_error + smc_lifecycle" where
  "createSmcTradeLifecycle p =
     (let cfg = merge_config (sp_config p)
      in if \<not> 0 < sp_initialQty p then Inl QtyNotPositive
         else if \<not> 0 < sp_initialRisk p then Inl RiskNotPositive
         else if \<not> (0 < sp_entryPrice p \<and> 0 < sp_tp1 p \<and> 0 < sp_tp2 p \<and> 0 < sp_stopPrice p) then Inl PricesNotPositive
         else if \<not> (0 < sc_tp1Fraction cfg \<and> sc_tp1Fraction cfg < 1) then Inl FractionOutOfRange
         else if sc_breakevenBufferR cfg < 0 \<or> sc_trailingStartR cfg < 0 \<or> sc_trailingDistanceR cfg \<le> 0
           then Inl InvalidThresholds
         else if \<not> correctGeometry p then Inl InvalidGeometry
         else Inr \<lparr> lc_setupId = sp_setupId p, lc_symbol = map upper_char (sp_symbol p),
                    lc_direction = sp_direction p, lc_initialQty = sp_initialQty p,
                    lc_remainingQty = sp_initialQty p, lc_entryPrice = sp_entryPrice p,
                    lc_initialRisk = sp_initialRisk p, lc_tp1 = sp_tp1 p, lc_tp2 = sp_tp2 p,
                    lc_stopPrice = sp_stopPrice p, lc_phase = ENTRY, lc_highestPrice = sp_entryPrice p,
                    lc_lowestPrice = sp_entryPrice p, lc_tp1Executed = False, lc_breakevenActivated = False,
                    lc_trailingActivated = False, lc_config = cfg, lc_closedReason = None \<rparr>)"

definition reached :: "side \<Rightarrow> jsnum \<Rightarrow> jsnum \<Rightarrow> bool" where
  "reached d mark target = (case d of LONG \<Rightarrow> target \<le> mark | SHORT \<Rightarrow> mark \<le> target)"

definition improves :: "side \<Rightarrow> jsnum \<Rightarrow> jsnum \<Rightarrow> bool" where
  "improves d candidate stop = (case d of LONG \<Rightarrow> stop < candidate | SHORT \<Rightarrow> candidate < stop)"

definition breakevenPrice :: "smc_lifecycle \<Rightarrow> jsnum" where
  "breakevenPrice l = (case lc_direction l of
     LONG \<Rightarrow> lc_entryPrice l + sc_breakevenBufferR (lc_config l) * lc_initialRisk l
   | SHORT \<Rightarrow> lc_entryPrice l - sc_breakevenBufferR (lc_config l) * lc_initialRisk l)"

definition excursionR :: "smc_lifecycle \<Rightarrow> jsnum" where
  "excursionR l = (case lc_direction l of
     LONG \<Rightarrow> (lc_highestPrice l - lc_entryPrice l) / lc_initialRisk l
   | SHORT \<Rightarrow> (lc_entryPrice l - lc_lowestPrice l) / lc_initialRisk l)"

definition trailingCandidate :: "smc_lifecycle \<Rightarrow> jsnum" where
  "trailingCandidate l = (case lc_direction l of
     LONG \<Rightarrow> lc_highestPrice l - sc_trailingDistanceR (lc_config l) * lc_initialRisk l
   | SHORT \<Rightarrow> lc_lowestPrice l + sc_trailingDistanceR (lc_config l) * lc_initialRisk l)"

definition advanceSmcTradeLifecycle :: "smc_lifecycle \<Rightarrow> smc_market \<Rightarrow> smc_error + (smc_lifecycle \<times> smc_action list)" where
  "advanceSmcTradeLifecycle l m =
     (if lc_phase l = CLOSED then Inr (l, [])
      else if \<not> 0 < mk_markPrice m \<or> mk_positionQty m < 0 then Inl InvalidMarketState
      else if js_eq (mk_positionQty m) 0
        then Inr (l\<lparr> lc_phase := CLOSED, lc_remainingQty := 0, lc_closedReason := Some ExternalClose \<rparr>, [])
      else
        (let n = l\<lparr> lc_remainingQty := mk_positionQty m,
                    lc_highestPrice := math_max (lc_highestPrice l) (mk_markPrice m),
                    lc_lowestPrice := math_min (lc_lowestPrice l) (mk_markPrice m) \<rparr>
         in if reached (lc_direction l) (mk_markPrice m) (lc_tp2 l)
            then Inr (n\<lparr> lc_phase := CLOSED, lc_remainingQty := 0, lc_closedReason := Some ByTp2 \<rparr>, [CloseRemaining])
            else if \<not> lc_tp1Executed l \<and> reached (lc_direction l) (mk_markPrice m) (lc_tp1 l)
            then Inr (n\<lparr> lc_phase := TP1_PARTIAL, lc_tp1Executed := True,
                         lc_remainingQty := mk_positionQty m * (1 - sc_tp1Fraction (lc_config l)) \<rparr>,
                      [PartialClose (sc_tp1Fraction (lc_config l))])
            else if lc_phase l = TP1_PARTIAL \<and> \<not> lc_breakevenActivated l
            then (if improves (lc_direction l) (breakevenPrice l) (lc_stopPrice l)
                  then Inr (n\<lparr> lc_phase := BREAKEVEN, lc_stopPrice := breakevenPrice l, lc_breakevenActivated := True \<rparr>,
                            [MoveStop (breakevenPrice l) MoveBreakeven])
                  else Inr (n\<lparr> lc_phase := BREAKEVEN, lc_breakevenActivated := True \<rparr>, []))
            else if lc_tp1Executed l \<and> sc_trailingStartR (lc_config l) \<le> excursionR n
                 \<and> improves (lc_direction l) (trailingCandidate n) (lc_stopPrice n)
            then Inr (n\<lparr> lc_phase := TRAILING, lc_stopPrice := trailingCandidate n, lc_trailingActivated := True \<rparr>,
                      [MoveStop (trailingCandidate n) MoveTrailing])
            else Inr (n, [])))"

section \<open>Runs\<close>

text \<open>A step that throws leaves the lifecycle as it was and acts on nothing.\<close>

definition smc_step :: "smc_lifecycle \<Rightarrow> smc_market \<Rightarrow> smc_lifecycle" where
  "smc_step l m = (case advanceSmcTradeLifecycle l m of Inl e \<Rightarrow> l | Inr (n, acts) \<Rightarrow> n)"

fun smc_actions :: "smc_lifecycle \<Rightarrow> smc_market list \<Rightarrow> smc_action list" where
  "smc_actions l [] = []"
| "smc_actions l (m # ms) =
     (case advanceSmcTradeLifecycle l m of Inl e \<Rightarrow> smc_actions l ms | Inr (n, acts) \<Rightarrow> acts @ smc_actions n ms)"

definition stop_no_looser :: "side \<Rightarrow> jsnum \<Rightarrow> jsnum \<Rightarrow> bool" where
  "stop_no_looser d old new = (case d of LONG \<Rightarrow> old \<le> new | SHORT \<Rightarrow> new \<le> old)"

definition smc_le :: "smc_lifecycle \<Rightarrow> smc_lifecycle \<Rightarrow> bool" where
  "smc_le a b \<longleftrightarrow> lc_direction b = lc_direction a \<and> lc_entryPrice b = lc_entryPrice a
     \<and> lc_initialRisk b = lc_initialRisk a \<and> lc_config b = lc_config a
     \<and> (lc_stopPrice b = lc_stopPrice a \<or> improves (lc_direction a) (lc_stopPrice b) (lc_stopPrice a))
     \<and> (lc_tp1Executed a \<longrightarrow> lc_tp1Executed b) \<and> (lc_breakevenActivated a \<longrightarrow> lc_breakevenActivated b)
     \<and> (lc_trailingActivated a \<longrightarrow> lc_trailingActivated b)
     \<and> (lc_phase a = CLOSED \<longrightarrow> b = a)"

lemma smc_step_le: "smc_le l (smc_step l m)"
  by (auto simp: smc_step_def advanceSmcTradeLifecycle_def smc_le_def Let_def)

lemma improves_trans: "improves d c b \<Longrightarrow> improves d b a \<Longrightarrow> improves d c a"
  by (cases d) (auto simp: improves_def intro: js_lt_trans)

lemma smc_le_trans: "smc_le a b \<Longrightarrow> smc_le b c \<Longrightarrow> smc_le a c"
  by (auto simp: smc_le_def intro: improves_trans)

interpretation smc: guarded_machine smc_step "\<lambda>l. True" smc_le
  by unfold_locales (auto simp: smc_step_le intro: smc_le_trans, auto simp: smc_le_def)

section \<open>The protocol of actions\<close>

fun is_move :: "smc_action \<Rightarrow> bool" where
  "is_move (MoveStop p w) = True"
| "is_move _ = False"

fun is_partial :: "smc_action \<Rightarrow> bool" where
  "is_partial (PartialClose f) = True"
| "is_partial _ = False"

fun moved_to :: "smc_action list \<Rightarrow> jsnum list" where
  "moved_to [] = []"
| "moved_to (MoveStop p w # acts) = p # moved_to acts"
| "moved_to (a # acts) = moved_to acts"

text \<open>Each price strictly more protective than the one before.\<close>

fun tightening :: "side \<Rightarrow> jsnum \<Rightarrow> jsnum list \<Rightarrow> bool" where
  "tightening d stop [] = True"
| "tightening d stop (p # ps) = (improves d p stop \<and> tightening d p ps)"

definition after_tp1 :: "smc_action list \<Rightarrow> bool" where
  "after_tp1 acts \<longleftrightarrow> (\<exists>moves closing. acts = moves @ closing \<and> list_all is_move moves \<and> closing \<in> {[], [CloseRemaining]})"

definition protocol :: "smc_action list \<Rightarrow> bool" where
  "protocol acts \<longleftrightarrow> acts = [] \<or> acts = [CloseRemaining] \<or> (\<exists>f rest. acts = PartialClose f # rest \<and> after_tp1 rest)"

lemma closed_silent: "lc_phase l = CLOSED \<Longrightarrow> smc_actions l ms = []"
  by (induction ms) (auto simp: advanceSmcTradeLifecycle_def)

text \<open>What one step may do, by whether the first target was taken.\<close>

lemma advance_after_tp1:
  assumes "lc_tp1Executed l" and "advanceSmcTradeLifecycle l m = Inr (n, acts)"
  shows "lc_tp1Executed n \<and> (acts = [] \<or> acts = [CloseRemaining] \<and> lc_phase n = CLOSED
            \<or> (\<exists>p w. acts = [MoveStop p w] \<and> lc_stopPrice n = p \<and> improves (lc_direction l) p (lc_stopPrice l)))"
  using assms by (auto simp: advanceSmcTradeLifecycle_def Let_def split: if_splits)

lemma advance_before_tp1:
  assumes "\<not> lc_tp1Executed l" and "lc_phase l \<noteq> TP1_PARTIAL" and "advanceSmcTradeLifecycle l m = Inr (n, acts)"
  shows "(acts = [] \<and> \<not> lc_tp1Executed n \<and> lc_phase n \<noteq> TP1_PARTIAL)
       \<or> (acts = [CloseRemaining] \<and> lc_phase n = CLOSED)
       \<or> (\<exists>f. acts = [PartialClose f] \<and> lc_tp1Executed n)"
  using assms by (auto simp: advanceSmcTradeLifecycle_def Let_def split: if_splits)

lemma advance_keeps_side:
  "advanceSmcTradeLifecycle l m = Inr (n, acts) \<Longrightarrow>
     lc_direction n = lc_direction l \<and> (moved_to acts = [] \<longrightarrow> lc_stopPrice n = lc_stopPrice l)
   \<and> (\<forall>p w. acts = [MoveStop p w] \<longrightarrow> lc_stopPrice n = p \<and> improves (lc_direction l) p (lc_stopPrice l))
   \<and> length acts \<le> 1"
  by (auto simp: advanceSmcTradeLifecycle_def Let_def split: if_splits)

lemma after_tp1_Cons: "after_tp1 acts \<Longrightarrow> after_tp1 (MoveStop p w # acts)"
proof -
  assume "after_tp1 acts"
  then obtain moves closing where "acts = moves @ closing" "list_all is_move moves" "closing \<in> {[], [CloseRemaining]}"
    by (auto simp: after_tp1_def)
  then have "MoveStop p w # acts = (MoveStop p w # moves) @ closing \<and> list_all is_move (MoveStop p w # moves)
      \<and> closing \<in> {[], [CloseRemaining]}" by simp
  then show ?thesis unfolding after_tp1_def by blast
qed

lemma after_tp1_close: "after_tp1 [CloseRemaining]"
  unfolding after_tp1_def by (rule exI [of _ "[]"]) simp

lemma actions_after_tp1: "lc_tp1Executed l \<Longrightarrow> after_tp1 (smc_actions l ms)"
proof (induction ms arbitrary: l)
  case (Cons m ms)
  show ?case
  proof (cases "advanceSmcTradeLifecycle l m")
    case (Inr r)
    then obtain n acts where a: "advanceSmcTradeLifecycle l m = Inr (n, acts)" by (cases r) auto
    from advance_after_tp1 [OF Cons.prems a] Cons.IH [of n] a show ?thesis
      by (auto simp: closed_silent after_tp1_Cons after_tp1_close)
  qed (simp add: Cons)
qed (simp add: after_tp1_def)

lemma actions_protocol:
  "\<not> lc_tp1Executed l \<Longrightarrow> lc_phase l \<noteq> TP1_PARTIAL \<Longrightarrow> protocol (smc_actions l ms)"
proof (induction ms arbitrary: l)
  case (Cons m ms)
  show ?case
  proof (cases "advanceSmcTradeLifecycle l m")
    case (Inr r)
    then obtain n acts where a: "advanceSmcTradeLifecycle l m = Inr (n, acts)" by (cases r) auto
    from advance_before_tp1 [OF Cons.prems a] Cons.IH [of n] a actions_after_tp1 [of n ms] show ?thesis
      by (auto simp: closed_silent protocol_def)
  qed (simp add: Cons)
qed (simp add: protocol_def)

lemma actions_tighten: "tightening (lc_direction l) (lc_stopPrice l) (moved_to (smc_actions l ms))"
proof (induction ms arbitrary: l)
  case (Cons m ms)
  show ?case
  proof (cases "advanceSmcTradeLifecycle l m")
    case (Inr r)
    then obtain n acts where a: "advanceSmcTradeLifecycle l m = Inr (n, acts)" by (cases r) auto
    note k = advance_keeps_side [OF a]
    show ?thesis
    proof (cases acts)
      case Nil
      with k a Cons.IH [of n] show ?thesis by simp
    next
      case (Cons act rest)
      with k have "rest = []" by simp
      with Cons k a \<open>tightening (lc_direction n) (lc_stopPrice n) (moved_to (smc_actions n ms))\<close>
      show ?thesis by (cases act) auto
    qed
  qed (simp add: Cons)
qed simp

section \<open>Properties\<close>

text \<open>
  C22. A trade follows its protocol: whatever marks and quantities a created lifecycle sees, its actions
  are one partial close, then stop moves, then at most one final close, with no stop moved before the
  first target was taken, and every stop it sends is strictly more protective than the one before and
  than the initial stop.
\<close>

theorem smc_actions_follow_protocol:
  assumes "createSmcTradeLifecycle p = Inr l"
  shows "protocol (smc_actions l ms) \<and> tightening (sp_direction p) (sp_stopPrice p) (moved_to (smc_actions l ms))"
proof -
  from assms have "\<not> lc_tp1Executed l" "lc_phase l \<noteq> TP1_PARTIAL" "lc_direction l = sp_direction p"
    "lc_stopPrice l = sp_stopPrice p"
    by (auto simp: createSmcTradeLifecycle_def Let_def split: if_splits)
  with actions_protocol [of l ms] actions_tighten [of l ms] show ?thesis by simp
qed

text \<open>
  A lifecycle only moves forward: over any marks, the identity of the trade is kept, the stop is
  the old one or strictly more protective, no flag that was set is cleared, and a closed lifecycle
  never changes again, whether or not a step throws.
\<close>

theorem smc_lifecycle_moves_forward:
  "(let n = run_steps smc_step l ms
    in lc_direction n = lc_direction l \<and> lc_entryPrice n = lc_entryPrice l \<and> lc_initialRisk n = lc_initialRisk l
     \<and> (lc_stopPrice n = lc_stopPrice l \<or> improves (lc_direction l) (lc_stopPrice n) (lc_stopPrice l))
     \<and> lc_tp1Executed n \<ge> lc_tp1Executed l \<and> lc_breakevenActivated n \<ge> lc_breakevenActivated l
     \<and> (if lc_phase l = CLOSED then n = l else True))"
proof -
  have "smc_le l (run_steps smc_step l ms)" by (rule smc.run_le) simp
  then show ?thesis unfolding smc_le_def Let_def le_bool_def by (cases "lc_phase l = CLOSED") simp_all
qed

definition demo_smc :: smc_params where
  "demo_smc = \<lparr> sp_setupId = ''s1'', sp_symbol = ''BTCUSDT'', sp_direction = LONG, sp_initialQty = 2,
     sp_entryPrice = 100, sp_initialRisk = 10, sp_tp1 = 110, sp_tp2 = 200, sp_stopPrice = 90, sp_config = None \<rparr>"

definition demo_lifecycle :: smc_lifecycle where
  "demo_lifecycle = \<lparr> lc_setupId = ''s1'', lc_symbol = ''BTCUSDT'', lc_direction = LONG, lc_initialQty = 2,
     lc_remainingQty = 2, lc_entryPrice = 100, lc_initialRisk = 10, lc_tp1 = 110, lc_tp2 = 200, lc_stopPrice = 90,
     lc_phase = ENTRY, lc_highestPrice = 100, lc_lowestPrice = 100, lc_tp1Executed = False,
     lc_breakevenActivated = False, lc_trailingActivated = False,
     lc_config = DEFAULT_SMC_TRADE_LIFECYCLE_CONFIG, lc_closedReason = None \<rparr>"

lemma upper_symbol: "map upper_char ''BTCUSDT'' = ''BTCUSDT''"
  by (simp add: upper_char_def)

lemma demo_smc_created: "createSmcTradeLifecycle demo_smc = Inr demo_lifecycle"
  unfolding demo_smc_def demo_lifecycle_def
  by (simp add: createSmcTradeLifecycle_def merge_config_def correctGeometry_def
      DEFAULT_SMC_TRADE_LIFECYCLE_CONFIG_def Let_def upper_symbol del: list.map)

theorem smc_actions_follow_protocol_witness:
  "createSmcTradeLifecycle demo_smc = Inr demo_lifecycle
   \<and> protocol (smc_actions demo_lifecycle [\<lparr> mk_markPrice = 120, mk_positionQty = 2 \<rparr>])
   \<and> tightening LONG (sp_stopPrice demo_smc) (moved_to (smc_actions demo_lifecycle [\<lparr> mk_markPrice = 120, mk_positionQty = 2 \<rparr>]))"
  using smc_actions_follow_protocol [OF demo_smc_created, of "[\<lparr> mk_markPrice = 120, mk_positionQty = 2 \<rparr>]"]
    demo_smc_created by (simp add: demo_smc_def)

text \<open>
  A trailed stop can be sent beyond the market: the trailing candidate follows the best price ever
  seen, also one seen on a tick that took the target or moved to breakeven, and is compared with the
  stop but never with the mark, so a long whose mark has fallen back is given a stop above it.
\<close>

theorem smc_trailed_stop_can_pass_mark:
  "\<exists>l before mark stop. createSmcTradeLifecycle demo_smc = Inr l
     \<and> (\<exists>n. advanceSmcTradeLifecycle (run_steps smc_step l before) \<lparr> mk_markPrice = mark, mk_positionQty = 1 \<rparr>
              = Inr (n, [MoveStop stop MoveTrailing]))
     \<and> lc_direction l = LONG \<and> mark < stop"
proof -
  let ?before = "[\<lparr> mk_markPrice = Fin 150, mk_positionQty = Fin 2 \<rparr>, \<lparr> mk_markPrice = Fin 130, mk_positionQty = Fin 1 \<rparr>]"
  have "\<exists>n. advanceSmcTradeLifecycle (run_steps smc_step demo_lifecycle ?before)
           \<lparr> mk_markPrice = Fin 120, mk_positionQty = 1 \<rparr> = Inr (n, [MoveStop (Fin 145) MoveTrailing])"
    by (simp add: smc_step_def advanceSmcTradeLifecycle_def demo_lifecycle_def DEFAULT_SMC_TRADE_LIFECYCLE_CONFIG_def
        reached_def improves_def breakevenPrice_def excursionR_def trailingCandidate_def Let_def)
  moreover have "lc_direction demo_lifecycle = LONG" by (simp add: demo_lifecycle_def)
  moreover have "Fin 120 < Fin 145" by simp
  ultimately show ?thesis using demo_smc_created by blast
qed

end
