(* ===== verification/SmcCoordinator.thy ===== *)
theory SmcCoordinator
  imports SmcLifecycle
begin

text \<open>
  The coordinator that carries a lifecycle's actions to the exchange
  (\<open>src/strategies/smc-ml/SmcTradeLifecycleCoordinator.ts\<close>). The exchange is asynchronous and not part
  of the program: what it answers at each call of one pass is an input (\<open>None\<close>, or \<open>False\<close>, when the
  call throws), and the calls made are recorded in order. The position cache and the set of known
  symbols are one map, since they are always set and deleted together.
  A pass over a mark runs to its end here; in the code an account or order update can arrive while the pass waits
  for the exchange.
\<close>

section \<open>State\<close>

record smc_position =
  ps_symbol :: string
  ps_direction :: side
  ps_quantity :: jsnum
  ps_entryPrice :: jsnum

record smc_order =
  od_orderId :: int
  od_type :: string
  od_buy :: bool
  od_quantity :: jsnum
  od_stopPrice :: "jsnum option"
  od_status :: string

record exchange_state =
  xs_position :: "smc_position option"
  xs_openOrders :: "smc_order list"

record registered =
  rg_lifecycle :: smc_lifecycle
  rg_stopOrderId :: int
  rg_tp2OrderId :: "int option"

record coordinator =
  co_active :: "string \<Rightarrow> registered option"
  co_cache :: "string \<Rightarrow> smc_position option option"
  co_lastUserEventAt :: "string \<Rightarrow> jsnum option"

definition new_coordinator :: coordinator where
  "new_coordinator = \<lparr> co_active = (\<lambda>s. None), co_cache = (\<lambda>s. None), co_lastUserEventAt = (\<lambda>s. None) \<rparr>"

datatype co_error =
    LifecycleError smc_error
  | ExchangeThrew
  | DirectionMismatch side side
  | CloseNotConfirmed
  | StopMissing int
  | StopMissingAfterPartial int
  | LoosenAttempt
  | AmendNotConfirmed
  | QuantityNotSynced
  | NotRegistered string

datatype exchange_call =
    CallPartialClose jsnum
  | CallCloseRemaining
  | CallModify int jsnum "jsnum option"
  | CallCancel int

record venue_answers =
  va_known :: "exchange_state option"
  va_before :: "exchange_state option"
  va_close :: "bool option"
  va_after :: "exchange_state option"
  va_sync :: "exchange_state option"
  va_modifyStop :: bool
  va_modifyTp2 :: bool
  va_final :: "exchange_state option"
  va_cancelStop :: bool
  va_cancelTp2 :: bool

definition upperCase :: "string \<Rightarrow> string" where
  "upperCase s = map upper_char s"

section \<open>Registration\<close>

definition co_register :: "smc_params \<Rightarrow> int \<Rightarrow> int option \<Rightarrow> coordinator \<Rightarrow> smc_error + (coordinator \<times> smc_lifecycle)" where
  "co_register p stopId tp2Id co =
     (case createSmcTradeLifecycle p of
        Inl e \<Rightarrow> Inl e
      | Inr l \<Rightarrow> Inr (co\<lparr> co_active := (co_active co)(lc_symbol l \<mapsto>
             \<lparr> rg_lifecycle = l, rg_stopOrderId = stopId, rg_tp2OrderId = tp2Id \<rparr>) \<rparr>, l))"

definition co_replace :: "string \<Rightarrow> smc_lifecycle \<Rightarrow> coordinator \<Rightarrow> co_error + coordinator" where
  "co_replace symbol l co =
     (case co_active co (upperCase symbol) of
        None \<Rightarrow> Inl (NotRegistered symbol)
      | Some r \<Rightarrow> Inr (co\<lparr> co_active := (co_active co)(upperCase symbol \<mapsto> r\<lparr> rg_lifecycle := l \<rparr>) \<rparr>))"

definition co_get :: "string \<Rightarrow> coordinator \<Rightarrow> smc_lifecycle option" where
  "co_get symbol co = map_option rg_lifecycle (co_active co (upperCase symbol))"

definition co_clear :: "string \<Rightarrow> coordinator \<Rightarrow> coordinator" where
  "co_clear symbol co = co\<lparr> co_active := (co_active co)(upperCase symbol := None),
     co_cache := (co_cache co)(upperCase symbol := None),
     co_lastUserEventAt := (co_lastUserEventAt co)(upperCase symbol := None) \<rparr>"

definition setPositionCache :: "string \<Rightarrow> smc_position option \<Rightarrow> coordinator \<Rightarrow> coordinator" where
  "setPositionCache symbol pos co = co\<lparr> co_cache := (co_cache co)(upperCase symbol \<mapsto> pos) \<rparr>"

definition store :: "string \<Rightarrow> registered \<Rightarrow> smc_lifecycle \<Rightarrow> coordinator \<Rightarrow> coordinator" where
  "store key r l co = co\<lparr> co_active := (co_active co)(key \<mapsto> r\<lparr> rg_lifecycle := l \<rparr>) \<rparr>"

definition closed_by :: "closed_reason \<Rightarrow> smc_lifecycle \<Rightarrow> smc_lifecycle" where
  "closed_by why l = l\<lparr> lc_phase := CLOSED, lc_remainingQty := 0, lc_closedReason := Some why \<rparr>"

section \<open>Carrying out one action\<close>

definition find_order :: "int \<Rightarrow> smc_order list \<Rightarrow> smc_order option" where
  "find_order i orders = find (\<lambda>ord. od_orderId ord = i) orders"

definition isOpenProtectiveStop :: "smc_order \<Rightarrow> bool" where
  "isOpenProtectiveStop ord \<longleftrightarrow> od_status ord = ''NEW'' \<and> od_type ord = ''STOP_MARKET''"

definition AMEND_EPS :: jsnum where "AMEND_EPS = Fin (1 / 10 ^ 12)"

definition AMEND_REL :: jsnum where "AMEND_REL = Fin (1 / 10 ^ 10)"

text \<open>The result of an asynchronous piece: the coordinator, a value or a throw, and the calls made.\<close>

type_synonym 'a outcome = "coordinator \<times> (co_error + 'a) \<times> exchange_call list"

text \<open>The amendment of the second target to the remaining quantity, when the order is still open.\<close>

definition modify_tp2 :: "registered \<Rightarrow> jsnum \<Rightarrow> smc_order list \<Rightarrow> bool \<Rightarrow> (co_error + unit) \<times> exchange_call list" where
  "modify_tp2 r quantity orders ok =
     (case rg_tp2OrderId r of
        None \<Rightarrow> (Inr (), [])
      | Some i \<Rightarrow>
          (case find_order i orders of
             Some tp2 \<Rightarrow>
               (if od_status tp2 = ''NEW''
                then ((if ok then Inr () else Inl ExchangeThrew), [CallModify i quantity (od_stopPrice tp2)])
                else (Inr (), []))
           | None \<Rightarrow> (Inr (), [])))"

definition syncProtection :: "registered \<Rightarrow> jsnum \<Rightarrow> jsnum \<Rightarrow> venue_answers \<Rightarrow> (co_error + unit) \<times> exchange_call list" where
  "syncProtection r quantity stopPrice va =
     (case va_sync va of
        None \<Rightarrow> (Inl ExchangeThrew, [])
      | Some st \<Rightarrow>
          (case find_order (rg_stopOrderId r) (xs_openOrders st) of
             None \<Rightarrow> (Inl (StopMissingAfterPartial (rg_stopOrderId r)), [])
           | Some stop \<Rightarrow>
               (if \<not> isOpenProtectiveStop stop then (Inl (StopMissingAfterPartial (rg_stopOrderId r)), [])
                else
                  (let c1 = [CallModify (rg_stopOrderId r) quantity (Some stopPrice)]
                   in if \<not> va_modifyStop va then (Inl ExchangeThrew, c1)
                      else (case modify_tp2 r quantity (xs_openOrders st) (va_modifyTp2 va) of
                          (Inl e, c2) \<Rightarrow> (Inl e, c1 @ c2)
                        | (Inr u, c2) \<Rightarrow>
                            (case va_final va of
                               None \<Rightarrow> (Inl ExchangeThrew, c1 @ c2)
                             | Some final \<Rightarrow>
                                 (case find_order (rg_stopOrderId r) (xs_openOrders final) of
                                    None \<Rightarrow> (Inl QuantityNotSynced, c1 @ c2)
                                  | Some updated \<Rightarrow>
                                      (if quantity + math_max AMEND_EPS (quantity * AMEND_REL) < od_quantity updated
                                       then (Inl QuantityNotSynced, c1 @ c2)
                                       else (Inr (), c1 @ c2)))))))))"

definition execute_partial :: "string \<Rightarrow> registered \<Rightarrow> smc_lifecycle \<Rightarrow> jsnum \<Rightarrow> smc_position \<Rightarrow> venue_answers
    \<Rightarrow> coordinator \<Rightarrow> smc_lifecycle outcome" where
  "execute_partial key r state fraction before va co =
     (let c = [CallPartialClose fraction]
      in case va_close va of
           None \<Rightarrow> (co, Inl ExchangeThrew, c)
         | Some ok \<Rightarrow>
             (case va_after va of
                None \<Rightarrow> (co, Inl ExchangeThrew, c)
              | Some after \<Rightarrow>
                  (let co1 = setPositionCache key (xs_position after) co
                   in case xs_position after of
                        None \<Rightarrow> (co1, Inr (closed_by ExternalClose state), c)
                      | Some pos \<Rightarrow>
                          (if \<not> ok \<or> ps_quantity before \<le> ps_quantity pos then (co1, Inl CloseNotConfirmed, c)
                           else
                             (let n = state\<lparr> lc_remainingQty := ps_quantity pos \<rparr>
                              in case syncProtection r (ps_quantity pos) (lc_stopPrice state) va of
                                   (Inl e, cs) \<Rightarrow> (store key r n co1, Inl e, c @ cs)
                                 | (Inr u, cs) \<Rightarrow> (store key r n co1, Inr n, c @ cs))))))"

definition loosens :: "side \<Rightarrow> jsnum \<Rightarrow> jsnum option \<Rightarrow> bool" where
  "loosens d price venue_stop =
     (\<not> (case d of LONG \<Rightarrow> (case venue_stop of None \<Rightarrow> 0 | Some x \<Rightarrow> x) < price
                  | SHORT \<Rightarrow> price < (case venue_stop of None \<Rightarrow> PInf | Some x \<Rightarrow> x))
      \<and> \<not> (case venue_stop of None \<Rightarrow> False | Some x \<Rightarrow> js_eq price x))"

text \<open>The stop is as asked, up to the comparison's tolerance; a missing price is \<open>NaN\<close>, which passes.\<close>

definition amend_refused :: "jsnum \<Rightarrow> jsnum option \<Rightarrow> bool" where
  "amend_refused price venue_stop \<longleftrightarrow>
     math_max AMEND_EPS (\<bar>price\<bar> * AMEND_REL) < \<bar>(case venue_stop of None \<Rightarrow> NaN | Some x \<Rightarrow> x) - price\<bar>"

definition execute_move :: "string \<Rightarrow> registered \<Rightarrow> smc_lifecycle \<Rightarrow> jsnum \<Rightarrow> smc_position \<Rightarrow> smc_order list \<Rightarrow> venue_answers
    \<Rightarrow> coordinator \<Rightarrow> smc_lifecycle outcome" where
  "execute_move key r state price before orders va co =
     (case find_order (rg_stopOrderId r) orders of
        None \<Rightarrow> (co, Inl (StopMissing (rg_stopOrderId r)), [])
      | Some stop \<Rightarrow>
          (if \<not> isOpenProtectiveStop stop then (co, Inl (StopMissing (rg_stopOrderId r)), [])
           else if loosens (lc_direction state) price (od_stopPrice stop) then (co, Inl LoosenAttempt, [])
           else
             (let c = [CallModify (rg_stopOrderId r) (ps_quantity before) (Some price)]
              in if \<not> va_modifyStop va then (co, Inl ExchangeThrew, c)
                 else
                   (let n = state\<lparr> lc_stopPrice := price \<rparr>; co1 = store key r n co
                    in case va_after va of
                         None \<Rightarrow> (co1, Inl ExchangeThrew, c)
                       | Some after \<Rightarrow>
                           (let co2 = setPositionCache key (xs_position after) co1
                            in case find_order (rg_stopOrderId r) (xs_openOrders after) of
                                 None \<Rightarrow> (co2, Inl AmendNotConfirmed, c)
                               | Some updated \<Rightarrow>
                                   (if amend_refused price (od_stopPrice updated) then (co2, Inl AmendNotConfirmed, c)
                                    else case xs_position after of
                                        None \<Rightarrow> (co2, Inr n, c)
                                      | Some pos \<Rightarrow>
                                          (case modify_tp2 r (ps_quantity pos) (xs_openOrders after) (va_modifyTp2 va) of
                                             (Inl e, c2) \<Rightarrow> (co2, Inl e, c @ c2)
                                           | (Inr u, c2) \<Rightarrow> (co2, Inr n, c @ c2))))))))"

text \<open>The bound orders still open are cancelled one by one; the first refusal throws.\<close>

definition cancel_one :: "int \<Rightarrow> smc_order list \<Rightarrow> bool \<Rightarrow> (co_error + unit) \<times> exchange_call list" where
  "cancel_one i orders ok =
     (case find_order i orders of
        Some ord \<Rightarrow> (if od_status ord = ''NEW'' then ((if ok then Inr () else Inl ExchangeThrew), [CallCancel i]) else (Inr (), []))
      | None \<Rightarrow> (Inr (), []))"

definition cancelBoundOrders :: "registered \<Rightarrow> smc_order list \<Rightarrow> venue_answers \<Rightarrow> (co_error + unit) \<times> exchange_call list" where
  "cancelBoundOrders r orders va =
     (case cancel_one (rg_stopOrderId r) orders (va_cancelStop va) of
        (Inl e, c) \<Rightarrow> (Inl e, c)
      | (Inr u, c) \<Rightarrow>
          (case rg_tp2OrderId r of
             None \<Rightarrow> (Inr (), c)
           | Some i \<Rightarrow> (case cancel_one i orders (va_cancelTp2 va) of (res, c2) \<Rightarrow> (res, c @ c2))))"

definition execute_close :: "string \<Rightarrow> registered \<Rightarrow> smc_lifecycle \<Rightarrow> venue_answers \<Rightarrow> coordinator \<Rightarrow> smc_lifecycle outcome" where
  "execute_close key r state va co =
     (let c = [CallCloseRemaining]
      in case va_close va of
           None \<Rightarrow> (co, Inl ExchangeThrew, c)
         | Some ok \<Rightarrow>
             (case va_after va of
                None \<Rightarrow> (co, Inl ExchangeThrew, c)
              | Some after \<Rightarrow>
                  (let co1 = setPositionCache key (xs_position after) co
                   in case xs_position after of
                        Some pos \<Rightarrow> (co1, Inl CloseNotConfirmed, c)
                      | None \<Rightarrow>
                          (let n = closed_by ByTp2 state
                           in case cancelBoundOrders r (xs_openOrders after) va of
                                (Inl e, c2) \<Rightarrow> (store key r n co1, Inl e, c @ c2)
                              | (Inr u, c2) \<Rightarrow> (store key r n co1, Inr n, c @ c2)))))"

definition executeAction :: "string \<Rightarrow> registered \<Rightarrow> smc_lifecycle \<Rightarrow> smc_action \<Rightarrow> venue_answers \<Rightarrow> coordinator
    \<Rightarrow> smc_lifecycle outcome" where
  "executeAction key r state action va co =
     (case va_before va of
        None \<Rightarrow> (co, Inl ExchangeThrew, [])
      | Some before \<Rightarrow>
          (let co1 = setPositionCache key (xs_position before) co
           in case xs_position before of
                None \<Rightarrow> (co1, Inr (closed_by ExternalClose state), [])
              | Some pos \<Rightarrow>
                  (if lc_direction state \<noteq> ps_direction pos
                   then (co1, Inl (DirectionMismatch (lc_direction state) (ps_direction pos)), [])
                   else case action of
                       PartialClose f \<Rightarrow> execute_partial key r state f pos va co1
                     | MoveStop p w \<Rightarrow> execute_move key r state p pos (xs_openOrders before) va co1
                     | CloseRemaining \<Rightarrow> execute_close key r state va co1)))"

section \<open>The mark-price handler\<close>

definition knownPosition :: "string \<Rightarrow> venue_answers \<Rightarrow> coordinator \<Rightarrow> (co_error + smc_position option) \<times> coordinator" where
  "knownPosition key va co =
     (case co_cache co key of
        Some pos \<Rightarrow> (Inr pos, co)
      | None \<Rightarrow> (case va_known va of
            None \<Rightarrow> (Inl ExchangeThrew, co)
          | Some st \<Rightarrow> (Inr (xs_position st), setPositionCache key (xs_position st) co)))"

text \<open>A transition carries at most one action (\<open>advance_keeps_side\<close>), so one record of answers serves a pass.\<close>

fun execute_all :: "string \<Rightarrow> registered \<Rightarrow> smc_lifecycle \<Rightarrow> smc_action list \<Rightarrow> venue_answers \<Rightarrow> coordinator
    \<Rightarrow> smc_lifecycle outcome" where
  "execute_all key r state [] va co = (co, Inr state, [])"
| "execute_all key r state (a # acts) va co =
     (case executeAction key r state a va co of
        (co1, Inl e, c) \<Rightarrow> (co1, Inl e, c)
      | (co1, Inr state1, c) \<Rightarrow>
          (case execute_all key r state1 acts va co1 of (co2, res, c2) \<Rightarrow> (co2, res, c @ c2)))"

record mark_result =
  mr_state :: "smc_lifecycle option"
  mr_actions :: "smc_action list"

definition onMarkPrice :: "string \<Rightarrow> jsnum \<Rightarrow> venue_answers \<Rightarrow> coordinator \<Rightarrow> mark_result outcome" where
  "onMarkPrice symbol mark va co =
     (let key = upperCase symbol
      in case co_active co key of
           None \<Rightarrow> (co, Inr \<lparr> mr_state = None, mr_actions = [] \<rparr>, [])
         | Some r \<Rightarrow>
             (case knownPosition key va co of
                (Inl e, co1) \<Rightarrow> (co1, Inl e, [])
              | (Inr None, co1) \<Rightarrow>
                  (let st = closed_by ExternalClose (rg_lifecycle r)
                   in (store key r st (setPositionCache key None co1), Inr \<lparr> mr_state = Some st, mr_actions = [] \<rparr>, []))
              | (Inr (Some pos), co1) \<Rightarrow>
                  (if lc_direction (rg_lifecycle r) \<noteq> ps_direction pos
                   then (co1, Inl (DirectionMismatch (lc_direction (rg_lifecycle r)) (ps_direction pos)), [])
                   else case advanceSmcTradeLifecycle (rg_lifecycle r) \<lparr> mk_markPrice = mark, mk_positionQty = ps_quantity pos \<rparr> of
                       Inl e \<Rightarrow> (co1, Inl (LifecycleError e), [])
                     | Inr (n, acts) \<Rightarrow>
                         (if acts = [] then (store key r n co1, Inr \<lparr> mr_state = Some n, mr_actions = [] \<rparr>, [])
                          else (case execute_all key r n acts va co1 of
                              (co2, Inl e, c) \<Rightarrow> (co2, Inl e, c)
                            | (co2, Inr st, c) \<Rightarrow>
                                (store key r st co2, Inr \<lparr> mr_state = Some st, mr_actions = acts \<rparr>, c))))))"

section \<open>User-data events\<close>

text \<open>One entry of \<open>a.P\<close> after its fields were read: symbol, amount and entry price.\<close>

record account_leg =
  al_symbol :: string
  al_amount :: jsnum
  al_entryPrice :: jsnum

definition last_event :: "coordinator \<Rightarrow> string \<Rightarrow> jsnum" where
  "last_event co symbol = (case co_lastUserEventAt co symbol of None \<Rightarrow> NInf | Some x \<Rightarrow> x)"

definition account_leg_step :: "jsnum \<Rightarrow> coordinator \<times> string list \<Rightarrow> account_leg \<Rightarrow> coordinator \<times> string list" where
  "account_leg_step eventTime acc leg =
     (let co = fst acc; touched = snd acc; symbol = upperCase (al_symbol leg)
      in if symbol = [] \<or> \<not> is_finite (al_amount leg) \<or> \<not> is_finite (al_entryPrice leg) then acc
         else if is_finite eventTime \<and> eventTime < last_event co symbol then acc
         else if js_eq (al_amount leg) 0 then (co\<lparr> co_cache := (co_cache co)(symbol := None) \<rparr>, symbol # touched)
         else (setPositionCache symbol (Some \<lparr> ps_symbol = symbol,
                  ps_direction = (if 0 < al_amount leg then LONG else SHORT),
                  ps_quantity = \<bar>al_amount leg\<bar>, ps_entryPrice = al_entryPrice leg \<rparr>) co, symbol # touched))"

definition handleAccountUpdate :: "jsnum \<Rightarrow> account_leg list \<Rightarrow> coordinator \<Rightarrow> coordinator" where
  "handleAccountUpdate eventTime legs co =
     (case foldl (account_leg_step eventTime) (co, []) legs of
        (co1, touched) \<Rightarrow>
          (if is_finite eventTime
           then co1\<lparr> co_lastUserEventAt := (\<lambda>s. if s \<in> set touched then Some eventTime else co_lastUserEventAt co1 s) \<rparr>
           else co1))"

definition handleOrderTradeUpdate :: "string \<Rightarrow> int \<Rightarrow> string \<Rightarrow> jsnum \<Rightarrow> coordinator \<Rightarrow> coordinator" where
  "handleOrderTradeUpdate sym_raw orderId status eventTime co =
     (let symbol = upperCase sym_raw
      in if symbol = [] \<or> status \<noteq> ''FILLED'' then co
         else if is_finite eventTime \<and> eventTime \<le> last_event co symbol then co
         else
           (let co1 = (if is_finite eventTime
                       then co\<lparr> co_lastUserEventAt := (co_lastUserEventAt co)(symbol \<mapsto> eventTime) \<rparr> else co)
            in case co_active co1 symbol of
                 None \<Rightarrow> co1
               | Some r \<Rightarrow>
                   (if lc_phase (rg_lifecycle r) = CLOSED then co1
                    else if orderId = rg_stopOrderId r
                      then store symbol r (closed_by ByStop (rg_lifecycle r)) (setPositionCache symbol None co1)
                    else if rg_tp2OrderId r = Some orderId
                      then store symbol r (closed_by ByTp2 (rg_lifecycle r)) (setPositionCache symbol None co1)
                    else co1)))"

section \<open>The first target is taken once\<close>

lemma upper_char_idem: "upper_char (upper_char c) = upper_char c"
  by (auto simp: upper_char_def Let_def)

lemma upperCase_idem [simp]: "upperCase (upperCase s) = upperCase s"
  by (simp add: upperCase_def upper_char_idem)

lemma active_frames [simp]:
  "co_active (setPositionCache k p co) = co_active co"
  "co_active (store k r l co) = (co_active co)(k \<mapsto> r\<lparr> rg_lifecycle := l \<rparr>)"
  by (simp_all add: setPositionCache_def store_def)

definition took_tp1 :: "string \<Rightarrow> coordinator \<Rightarrow> bool" where
  "took_tp1 key co \<longleftrightarrow> (case co_active co key of None \<Rightarrow> False | Some r \<Rightarrow> lc_tp1Executed (rg_lifecycle r))"

text \<open>The exchange accepted the partial close and reports a smaller position.\<close>

definition partial_confirmed :: "venue_answers \<Rightarrow> bool" where
  "partial_confirmed va \<longleftrightarrow> va_close va = Some True \<and>
     (case va_before va of None \<Rightarrow> False | Some b \<Rightarrow>
        (case va_after va of None \<Rightarrow> False | Some a \<Rightarrow>
           (case (xs_position b, xs_position a) of
              (Some p, Some q) \<Rightarrow> \<not> ps_quantity p \<le> ps_quantity q | _ \<Rightarrow> False)))"

definition is_partial_call :: "exchange_call \<Rightarrow> bool" where
  "is_partial_call c \<longleftrightarrow> (\<exists>f. c = CallPartialClose f)"

lemma modify_tp2_calls: "\<not> list_ex is_partial_call (snd (modify_tp2 r q orders ok))"
  by (auto simp: modify_tp2_def is_partial_call_def split: option.splits)

lemma syncProtection_calls: "\<not> list_ex is_partial_call (snd (syncProtection r q p va))"
  using modify_tp2_calls [of r q]
  by (auto simp: syncProtection_def is_partial_call_def Let_def split: option.splits sum.splits prod.splits)
     (metis snd_conv)+

text \<open>What a pass may leave under the keys: what was there, or a lifecycle with the flag of \<open>state\<close>.\<close>

definition stores_flag :: "string \<Rightarrow> smc_lifecycle \<Rightarrow> coordinator \<Rightarrow> coordinator \<Rightarrow> bool" where
  "stores_flag key state co co' \<longleftrightarrow>
     (\<forall>k. co_active co' k = co_active co k
        \<or> k = key \<and> (\<exists>r. co_active co' k = Some r \<and> lc_tp1Executed (rg_lifecycle r) = lc_tp1Executed state))"

lemma stores_flag_same [simp]: "co_active co' = co_active co \<Longrightarrow> stores_flag key state co co'"
  by (simp add: stores_flag_def)

lemma stores_flag_store [simp]:
  "co_active co1 = co_active co \<Longrightarrow> lc_tp1Executed n = lc_tp1Executed state \<Longrightarrow> stores_flag key state co (store key r n co1)"
  by (simp add: stores_flag_def)

lemma closed_by_flag [simp]: "lc_tp1Executed (closed_by why l) = lc_tp1Executed l"
  by (simp add: closed_by_def)

lemma cache_of_store [simp]: "co_active (setPositionCache k p (store key r n co)) = co_active (store key r n co)"
  by simp

definition value_flag :: "smc_lifecycle \<Rightarrow> co_error + smc_lifecycle \<Rightarrow> bool" where
  "value_flag state res \<longleftrightarrow> (case res of Inl e \<Rightarrow> True | Inr n \<Rightarrow> lc_tp1Executed n = lc_tp1Executed state)"

lemma execute_partial_flag:
  assumes "execute_partial key r state f pos va co = (co', res, c)"
  shows "stores_flag key state co co' \<and> value_flag state res \<and> length (filter is_partial_call c) = 1
       \<and> (va_close va = Some True \<and> (\<exists>a q. va_after va = Some a \<and> xs_position a = Some q \<and> \<not> ps_quantity pos \<le> ps_quantity q)
            \<longrightarrow> (\<exists>r. co_active co' key = Some r \<and> lc_tp1Executed (rg_lifecycle r) = lc_tp1Executed state))"
  using assms syncProtection_calls [of r]
  by (auto simp: execute_partial_def Let_def value_flag_def is_partial_call_def filter_empty_conv list_ex_iff
      split: option.splits sum.splits prod.splits if_splits) (metis snd_conv)+

lemma execute_move_flag:
  assumes "execute_move key r state p pos orders va co = (co', res, c)"
  shows "stores_flag key state co co' \<and> value_flag state res \<and> \<not> list_ex is_partial_call c"
  using assms modify_tp2_calls [of r]
  by (auto simp: execute_move_def Let_def value_flag_def is_partial_call_def list_ex_iff stores_flag_def
      split: option.splits sum.splits prod.splits if_splits) (metis snd_conv)+

lemma cancelBoundOrders_calls: "\<not> list_ex is_partial_call (snd (cancelBoundOrders r orders va))"
  by (auto simp: cancelBoundOrders_def cancel_one_def is_partial_call_def split: option.splits sum.splits prod.splits if_splits)

lemma execute_close_flag:
  assumes "execute_close key r state va co = (co', res, c)"
  shows "stores_flag key state co co' \<and> value_flag state res \<and> \<not> list_ex is_partial_call c"
  using assms cancelBoundOrders_calls [of r]
  by (auto simp: execute_close_def Let_def value_flag_def is_partial_call_def list_ex_iff
      split: option.splits sum.splits prod.splits if_splits) (metis snd_conv)+

lemma stores_flag_cache [simp]:
  "stores_flag key state (setPositionCache k p co) co' = stores_flag key state co co'"
  by (simp add: stores_flag_def)

definition partial_calls :: "exchange_call list \<Rightarrow> nat" where
  "partial_calls c = length (filter is_partial_call c)"

lemma partial_calls_none [simp]: "\<not> list_ex is_partial_call c \<Longrightarrow> partial_calls c = 0"
  by (auto simp: partial_calls_def list_ex_iff filter_empty_conv)

lemma partial_calls_simps [simp]: "partial_calls [] = 0" "partial_calls (a @ b) = partial_calls a + partial_calls b"
  by (simp_all add: partial_calls_def)

definition flag_stored :: "string \<Rightarrow> smc_lifecycle \<Rightarrow> coordinator \<Rightarrow> bool" where
  "flag_stored key state co \<longleftrightarrow> (\<exists>r. co_active co key = Some r \<and> lc_tp1Executed (rg_lifecycle r) = lc_tp1Executed state)"

lemma executeAction_flag:
  assumes "executeAction key r state a va co = (co', res, c)"
  shows "stores_flag key state co co' \<and> value_flag state res \<and> partial_calls c \<le> (if is_partial a then 1 else 0)
       \<and> (0 < partial_calls c \<and> partial_confirmed va \<longrightarrow> flag_stored key state co')"
proof (cases "\<exists>b p. va_before va = Some b \<and> xs_position b = Some p \<and> lc_direction state = ps_direction p")
  case False
  with assms show ?thesis
    by (auto simp: executeAction_def Let_def value_flag_def split: option.splits)
next
  case True
  then obtain b p where b: "va_before va = Some b" "xs_position b = Some p" "lc_direction state = ps_direction p" by blast
  let ?co = "setPositionCache key (Some p) co"
  show ?thesis
  proof (cases a)
    case (PartialClose f)
    with assms b have e: "execute_partial key r state f p va ?co = (co', res, c)" by (simp add: executeAction_def)
    have "partial_confirmed va \<Longrightarrow> va_close va = Some True \<and>
        (\<exists>a q. va_after va = Some a \<and> xs_position a = Some q \<and> \<not> ps_quantity p \<le> ps_quantity q)"
      using b by (auto simp: partial_confirmed_def split: option.splits)
    with execute_partial_flag [OF e] PartialClose show ?thesis by (auto simp: partial_calls_def flag_stored_def)
  next
    case (MoveStop pr w)
    with assms b have e: "execute_move key r state pr p (xs_openOrders b) va ?co = (co', res, c)"
      by (simp add: executeAction_def)
    from execute_move_flag [OF e] show ?thesis by simp
  next
    case CloseRemaining
    with assms b have e: "execute_close key r state va ?co = (co', res, c)" by (simp add: executeAction_def)
    from execute_close_flag [OF e] show ?thesis by simp
  qed
qed

lemma advance_flag:
  assumes "advanceSmcTradeLifecycle l m = Inr (n, acts)"
  shows "(acts = [] \<or> (\<exists>a. acts = [a] \<and> (is_partial a \<longrightarrow> \<not> lc_tp1Executed l \<and> lc_tp1Executed n)))
       \<and> (lc_tp1Executed l \<longrightarrow> lc_tp1Executed n)"
  using assms by (auto simp: advanceSmcTradeLifecycle_def Let_def split: if_splits)

text \<open>The pass as a whole, on the flag of the symbol it handles.\<close>

definition pass_ok :: "string \<Rightarrow> venue_answers \<Rightarrow> coordinator \<Rightarrow> coordinator \<Rightarrow> exchange_call list \<Rightarrow> bool" where
  "pass_ok key va co co' c \<longleftrightarrow>
     (\<forall>k. k \<noteq> key \<longrightarrow> co_active co' k = co_active co k)
   \<and> (if took_tp1 key co then took_tp1 key co' \<and> partial_calls c = 0
      else partial_calls c \<le> 1 \<and> (0 < partial_calls c \<and> partial_confirmed va \<longrightarrow> took_tp1 key co'))"

lemma pass_ok_quiet:
  assumes "co_active co' = co_active co"
  shows "pass_ok key va co co' []"
  using assms by (auto simp: pass_ok_def took_tp1_def)

lemma pass_ok_stored:
  assumes "co_active co key = Some r" and "lc_tp1Executed (rg_lifecycle r) \<longrightarrow> lc_tp1Executed n"
    and "co_active co' = (co_active co)(key \<mapsto> r\<lparr> rg_lifecycle := n \<rparr>)"
  shows "pass_ok key va co co' []"
  using assms by (auto simp: pass_ok_def took_tp1_def)

lemma pass_ok_executed:
  assumes "co_active co key = Some r" and "advanceSmcTradeLifecycle (rg_lifecycle r) m = Inr (n, [a])"
    and "executeAction key r n a va co1 = (co2, res, c)" and "co_active co1 = co_active co"
  shows "pass_ok key va co (case res of Inl e \<Rightarrow> co2 | Inr st \<Rightarrow> store key r st co2) c"
proof -
  from executeAction_flag [OF assms(3)] have sf: "stores_flag key n co co2" and vf: "value_flag n res"
    and pc: "partial_calls c \<le> (if is_partial a then 1 else 0)"
    and fs: "0 < partial_calls c \<and> partial_confirmed va \<longrightarrow> flag_stored key n co2"
    using assms(4) by (auto simp: stores_flag_def)
  from advance_flag [OF assms(2)] have af: "is_partial a \<longrightarrow> \<not> lc_tp1Executed (rg_lifecycle r) \<and> lc_tp1Executed n"
    "lc_tp1Executed (rg_lifecycle r) \<longrightarrow> lc_tp1Executed n" by auto
  have pos: "0 < partial_calls c \<Longrightarrow> is_partial a" using pc by (auto split: if_splits)
  have keep: "\<And>k. k \<noteq> key \<Longrightarrow> co_active co2 k = co_active co k" using sf by (auto simp: stores_flag_def)
  have stored: "lc_tp1Executed (rg_lifecycle r) \<Longrightarrow> took_tp1 key co2"
    using sf [unfolded stores_flag_def, rule_format, of key] af assms(1) by (auto simp: took_tp1_def)
  show ?thesis
  proof (cases res)
    case (Inl e)
    with keep stored pos pc af fs assms(1) show ?thesis
      by (auto simp: pass_ok_def took_tp1_def flag_stored_def split: if_splits)
  next
    case (Inr st)
    with vf have "lc_tp1Executed st = lc_tp1Executed n" by (simp add: value_flag_def)
    with Inr keep pos pc af assms(1) show ?thesis
      by (auto simp: pass_ok_def took_tp1_def split: if_splits)
  qed
qed

lemma onMarkPrice_pass:
  assumes "onMarkPrice symbol mark va co = (co', res, c)"
  shows "pass_ok (upperCase symbol) va co co' c"
proof (cases "co_active co (upperCase symbol)")
  case None
  with assms show ?thesis by (auto simp: onMarkPrice_def Let_def pass_ok_quiet)
next
  case (Some r)
  obtain kp co1 where k: "knownPosition (upperCase symbol) va co = (kp, co1)" by fastforce
  then have a1: "co_active co1 = co_active co" by (auto simp: knownPosition_def split: option.splits)
  show ?thesis
  proof (cases "\<exists>pos. kp = Inr (Some pos) \<and> lc_direction (rg_lifecycle r) = ps_direction pos")
    case False
    show ?thesis
    proof (cases "kp = Inr None")
      case True
      with assms Some k a1 show ?thesis
        by (auto simp: onMarkPrice_def Let_def
            intro!: pass_ok_stored [OF Some, of "closed_by ExternalClose (rg_lifecycle r)"])
    next
      case no_answer: False
      with False assms Some k a1 show ?thesis
        by (auto simp: onMarkPrice_def Let_def split: sum.splits option.splits if_splits intro!: pass_ok_quiet)
    qed
  next
    case True
    then obtain pos where pos: "kp = Inr (Some pos)" "lc_direction (rg_lifecycle r) = ps_direction pos" by blast
    let ?m = "\<lparr> mk_markPrice = mark, mk_positionQty = ps_quantity pos \<rparr>"
    show ?thesis
    proof (cases "advanceSmcTradeLifecycle (rg_lifecycle r) ?m")
      case (Inl e)
      with assms Some k a1 pos show ?thesis by (auto simp: onMarkPrice_def Let_def intro!: pass_ok_quiet)
    next
      case (Inr na)
      then obtain n acts where adv: "advanceSmcTradeLifecycle (rg_lifecycle r) ?m = Inr (n, acts)" by (cases na) auto
      from advance_flag [OF adv] consider "acts = []" | a where "acts = [a]" by blast
      then show ?thesis
      proof cases
        case 1
        with assms Some k a1 pos adv advance_flag [OF adv] show ?thesis
          by (auto simp: onMarkPrice_def Let_def intro!: pass_ok_stored [OF Some, of n])
      next
        case 2
        obtain co2 res2 c2 where ex: "executeAction (upperCase symbol) r n a va co1 = (co2, res2, c2)" by (metis prod_cases3)
        from pass_ok_executed [OF Some adv [unfolded 2] ex a1] assms Some k a1 pos adv 2 ex show ?thesis
          by (auto simp: onMarkPrice_def Let_def split: sum.splits)
      qed
    qed
  qed
qed

datatype co_op =
    OnRegister smc_params int "int option"
  | OnReplace string smc_lifecycle
  | OnClear string
  | OnMark string jsnum venue_answers
  | OnAccount jsnum "account_leg list"
  | OnOrder string int string jsnum

text \<open>Every operation that changes a coordinator; one that throws leaves it as it was.\<close>

fun co_apply :: "coordinator \<Rightarrow> co_op \<Rightarrow> coordinator" where
  "co_apply co (OnRegister p stopId tp2Id) = (case co_register p stopId tp2Id co of Inl e \<Rightarrow> co | Inr (co', l) \<Rightarrow> co')"
| "co_apply co (OnReplace symbol l) = (case co_replace symbol l co of Inl e \<Rightarrow> co | Inr co' \<Rightarrow> co')"
| "co_apply co (OnClear symbol) = co_clear symbol co"
| "co_apply co (OnMark symbol mark va) = fst (onMarkPrice symbol mark va co)"
| "co_apply co (OnAccount tm legs) = handleAccountUpdate tm legs co"
| "co_apply co (OnOrder symbol i status tm) = handleOrderTradeUpdate symbol i status tm co"

text \<open>The operations that give a symbol a new lifecycle: a registration or a replacement.\<close>

fun renews :: "string \<Rightarrow> co_op \<Rightarrow> bool" where
  "renews key (OnRegister p stopId tp2Id) = (case createSmcTradeLifecycle p of Inl e \<Rightarrow> False | Inr l \<Rightarrow> lc_symbol l = key)"
| "renews key (OnReplace symbol l) = (upperCase symbol = key)"
| "renews key _ = False"

text \<open>The partial closes of a symbol that the exchange confirmed, along a sequence of events.\<close>

fun confirmed_partials :: "string \<Rightarrow> coordinator \<Rightarrow> co_op list \<Rightarrow> nat" where
  "confirmed_partials key co [] = 0"
| "confirmed_partials key co (op # ops) =
     (case op of
        OnMark symbol mark va \<Rightarrow>
          (if upperCase symbol = key \<and> partial_confirmed va
           then partial_calls (snd (snd (onMarkPrice symbol mark va co))) else 0)
      | _ \<Rightarrow> 0) + confirmed_partials key (co_apply co op) ops"

lemma account_active: "co_active (handleAccountUpdate tm legs co) = co_active co"
proof -
  have "co_active (fst (foldl (account_leg_step tm) acc legs)) = co_active (fst acc)" for acc
    by (induction legs arbitrary: acc) (auto simp: account_leg_step_def Let_def)
  from this [of "(co, [])"] show ?thesis
    by (cases "foldl (account_leg_step tm) (co, []) legs") (simp add: handleAccountUpdate_def)
qed

text \<open>A symbol whose lifecycle has not taken its first target yet.\<close>

definition tp1_open :: "string \<Rightarrow> coordinator \<Rightarrow> bool" where
  "tp1_open key co \<longleftrightarrow> (case co_active co key of None \<Rightarrow> False | Some r \<Rightarrow> \<not> lc_tp1Executed (rg_lifecycle r))"

lemma order_open: "tp1_open key (handleOrderTradeUpdate symbol i status tm co) = tp1_open key co"
  by (auto simp: handleOrderTradeUpdate_def tp1_open_def Let_def split: option.splits)

text \<open>A mark that confirms a partial closes the first target, and no mark opens it again.\<close>

lemma mark_counts:
  assumes "onMarkPrice symbol mark va co = (co', res, c)"
  shows "(if upperCase symbol = key \<and> partial_confirmed va then partial_calls c else 0) + of_bool (tp1_open key co')
    \<le> of_bool (tp1_open key co)"
proof (cases "upperCase symbol = key")
  case False
  then show ?thesis using onMarkPrice_pass [OF assms] by (simp add: pass_ok_def tp1_open_def)
next
  case True
  show ?thesis
  proof (cases "co_active co key")
    case None
    then have "co' = co \<and> c = []" using assms True by (simp add: onMarkPrice_def Let_def)
    then show ?thesis by simp
  next
    case (Some r)
    then have "took_tp1 key co = (\<not> tp1_open key co)" by (simp add: took_tp1_def tp1_open_def)
    moreover have "took_tp1 key co' \<Longrightarrow> \<not> tp1_open key co'" by (auto simp: took_tp1_def tp1_open_def split: option.splits)
    ultimately show ?thesis using onMarkPrice_pass [OF assms] True by (auto simp: pass_ok_def split: if_splits)
  qed
qed

lemma op_counts:
  "confirmed_partials key co [op] + of_bool (tp1_open key (co_apply co op)) \<le> of_bool (tp1_open key co) + of_bool (renews key op)"
proof (cases op)
  case (OnMark symbol mark va)
  obtain co' res c where e: "onMarkPrice symbol mark va co = (co', res, c)" by (metis prod_cases3)
  have o: "confirmed_partials key co [op] = (if upperCase symbol = key \<and> partial_confirmed va then partial_calls c else 0)"
    "co_apply co op = co'" "renews key op = False" by (simp_all add: OnMark e)
  show ?thesis unfolding o using mark_counts [OF e, of key] by (simp only: of_bool_eq add_0_right)
next
  case (OnOrder symbol i status tm)
  then show ?thesis by (simp add: order_open)
qed (auto simp: tp1_open_def account_active co_register_def co_replace_def co_clear_def split: sum.splits option.splits)

lemma run_counts: "confirmed_partials key co ops \<le> of_bool (tp1_open key co) + length (filter (renews key) ops)"
proof (induction ops arbitrary: co)
  case Nil
  show ?case by simp
next
  case (Cons op ops)
  have "confirmed_partials key co (op # ops) = confirmed_partials key co [op] + confirmed_partials key (co_apply co op) ops" by simp
  moreover have "length (filter (renews key) (op # ops)) = of_bool (renews key op) + length (filter (renews key) ops)" by simp
  ultimately show ?case using op_counts [of key co op] Cons [of "co_apply co op"] by linarith
qed

section \<open>Properties\<close>

text \<open>
  C23. The first target of a trade is taken at most once: along any operations of a coordinator, whatever the exchange
  answers, the partial closes of a symbol that are both sent and confirmed by a smaller position are at most as many as
  the lifecycles the symbol was given (by \<open>register\<close> or \<open>replace\<close>) along the way, plus the one it started with while its
  first target is open; also when the protection that follows a partial could not be amended. So between two confirmed
  partials of a symbol lies a new registration or a replacement.
\<close>

theorem coordinator_confirms_one_partial:
  "confirmed_partials key co ops \<le> of_bool (tp1_open key co) + length (filter (renews key) ops)"
  by (rule run_counts)

text \<open>
  A fill reported in the same millisecond as its account update is dropped: the order handler
  ignores events not newer than the last one of the symbol, and the account handler records its time in
  the same place, so a stop that filled at the time of the account update does not close the trade.
\<close>

theorem same_time_fill_is_dropped:
  assumes "upperCase (al_symbol leg) \<noteq> []" and "is_finite (al_amount leg)" and "is_finite (al_entryPrice leg)"
    and "\<not> Fin t < last_event co (upperCase (al_symbol leg))"
  shows "handleOrderTradeUpdate (al_symbol leg) i ''FILLED'' (Fin t) (handleAccountUpdate (Fin t) [leg] co)
       = handleAccountUpdate (Fin t) [leg] co"
  using assms by (auto simp: handleOrderTradeUpdate_def handleAccountUpdate_def account_leg_step_def last_event_def Let_def)

theorem same_time_fill_is_dropped_witness:
  "handleOrderTradeUpdate ''BTCUSDT'' 7 ''FILLED'' (Fin 5)
     (handleAccountUpdate (Fin 5) [\<lparr> al_symbol = ''BTCUSDT'', al_amount = Fin 0, al_entryPrice = Fin 0 \<rparr>] new_coordinator)
   = handleAccountUpdate (Fin 5) [\<lparr> al_symbol = ''BTCUSDT'', al_amount = Fin 0, al_entryPrice = Fin 0 \<rparr>] new_coordinator"
  using same_time_fill_is_dropped
    [of "\<lparr> al_symbol = ''BTCUSDT'', al_amount = Fin 0, al_entryPrice = Fin 0 \<rparr>" 5 new_coordinator 7]
  by (simp add: upperCase_def last_event_def new_coordinator_def)

text \<open>
  The reason a trade closed is lost on the next mark: a lifecycle closed by its stop or its second
  target, whose position is known flat, is rewritten as closed externally by the next mark price.
\<close>

theorem closed_reason_is_overwritten:
  assumes "co_active co (upperCase symbol) = Some r" and "lc_phase (rg_lifecycle r) = CLOSED"
    and "co_cache co (upperCase symbol) = Some None"
  shows "map_option lc_closedReason (co_get symbol (fst (onMarkPrice symbol mark va co))) = Some (Some ExternalClose)"
  using assms by (simp add: onMarkPrice_def knownPosition_def co_get_def closed_by_def Let_def)

definition demo_closed :: coordinator where
  "demo_closed = handleOrderTradeUpdate ''BTCUSDT'' 7 ''FILLED'' (Fin 5)
     (new_coordinator\<lparr> co_active := [''BTCUSDT'' \<mapsto> \<lparr> rg_lifecycle = demo_lifecycle, rg_stopOrderId = 7, rg_tp2OrderId = None \<rparr>] \<rparr>)"

lemma upperCase_demo: "upperCase ''BTCUSDT'' = ''BTCUSDT''"
  using upper_symbol by (simp only: upperCase_def)

lemma demo_closed_simps:
  "co_active demo_closed ''BTCUSDT'' =
     Some \<lparr> rg_lifecycle = closed_by ByStop demo_lifecycle, rg_stopOrderId = 7, rg_tp2OrderId = None \<rparr>"
  "co_cache demo_closed ''BTCUSDT'' = Some None"
  by (simp_all add: demo_closed_def handleOrderTradeUpdate_def last_event_def new_coordinator_def demo_lifecycle_def
      upperCase_demo store_def setPositionCache_def Let_def)

definition demo_answers :: venue_answers where
  "demo_answers = \<lparr> va_known = None, va_before = None, va_close = None, va_after = None, va_sync = None,
     va_modifyStop = False, va_modifyTp2 = False, va_final = None, va_cancelStop = False, va_cancelTp2 = False \<rparr>"

theorem closed_reason_is_overwritten_witness:
  "map_option lc_closedReason (co_get ''BTCUSDT'' demo_closed) = Some (Some ByStop)
   \<and> map_option lc_closedReason (co_get ''BTCUSDT'' (fst (onMarkPrice ''BTCUSDT'' (Fin 100) demo_answers demo_closed)))
       = Some (Some ExternalClose)"
  using closed_reason_is_overwritten [of demo_closed "''BTCUSDT''"] demo_closed_simps
  by (simp add: upperCase_demo closed_by_def co_get_def)

text \<open>
  A stop amended off the tick grid is reported as failed: when the exchange accepts a trailing stop
  but shows it rounded by more than the confirmation's tolerance, the pass throws although the stop has
  moved and the lifecycle records the unrounded price, and the second target is not resized.
\<close>

theorem rounded_amendment_reported_failed:
  assumes "co_active co (upperCase symbol) = Some r" and "co_cache co (upperCase symbol) = Some (Some pos)"
    and "lc_direction (rg_lifecycle r) = ps_direction pos"
    and "advanceSmcTradeLifecycle (rg_lifecycle r) \<lparr> mk_markPrice = mark, mk_positionQty = ps_quantity pos \<rparr>
           = Inr (n, [MoveStop price why])"
    and "lc_direction n = ps_direction pos"
    and "va_before va = Some before" and "xs_position before = Some pos"
    and "find_order (rg_stopOrderId r) (xs_openOrders before) = Some stop" and "isOpenProtectiveStop stop"
    and "\<not> loosens (lc_direction n) price (od_stopPrice stop)" and "va_modifyStop va"
    and "va_after va = Some after"
    and "find_order (rg_stopOrderId r) (xs_openOrders after) = Some updated"
    and "amend_refused price (od_stopPrice updated)"
  shows "(case onMarkPrice symbol mark va co of
            (co', res, calls) \<Rightarrow>
              res = Inl AmendNotConfirmed
            \<and> map_option lc_stopPrice (co_get symbol co') = Some price
            \<and> calls = [CallModify (rg_stopOrderId r) (ps_quantity pos) (Some price)])"
proof -
  have "executeAction (upperCase symbol) r n (MoveStop price why) va co
      = (setPositionCache (upperCase symbol) (xs_position after)
           (store (upperCase symbol) r (n\<lparr> lc_stopPrice := price \<rparr>)
             (setPositionCache (upperCase symbol) (Some pos) co)),
         Inl AmendNotConfirmed, [CallModify (rg_stopOrderId r) (ps_quantity pos) (Some price)])"
    using assms by (simp add: executeAction_def execute_move_def Let_def)
  with assms(1-4) show ?thesis by (simp add: onMarkPrice_def knownPosition_def co_get_def Let_def)
qed

definition demo_pos :: smc_position where
  "demo_pos = \<lparr> ps_symbol = ''BTCUSDT'', ps_direction = LONG, ps_quantity = Fin 1, ps_entryPrice = Fin 100 \<rparr>"

definition demo_stop :: "real \<Rightarrow> smc_order" where
  "demo_stop p = \<lparr> od_orderId = 7, od_type = ''STOP_MARKET'', od_buy = False, od_quantity = Fin 1,
     od_stopPrice = Some (Fin p), od_status = ''NEW'' \<rparr>"

definition demo_running :: registered where
  "demo_running = \<lparr> rg_lifecycle = demo_lifecycle\<lparr> lc_tp1Executed := True, lc_breakevenActivated := True,
     lc_phase := BREAKEVEN, lc_stopPrice := Fin 100 \<rparr>, rg_stopOrderId = 7, rg_tp2OrderId = None \<rparr>"

definition demo_coordinator :: coordinator where
  "demo_coordinator = new_coordinator\<lparr> co_active := [''BTCUSDT'' \<mapsto> demo_running], co_cache := [''BTCUSDT'' \<mapsto> Some demo_pos] \<rparr>"

definition demo_xs :: "real \<Rightarrow> exchange_state" where
  "demo_xs p = \<lparr> xs_position = Some demo_pos, xs_openOrders = [demo_stop p] \<rparr>"

lemma demo_xs_simps: "xs_position (demo_xs p) = Some demo_pos" "xs_openOrders (demo_xs p) = [demo_stop p]"
  by (simp_all add: demo_xs_def)

definition demo_amend :: venue_answers where
  "demo_amend = demo_answers\<lparr> va_before := Some (demo_xs 100), va_modifyStop := True, va_after := Some (demo_xs 145) \<rparr>"

theorem rounded_amendment_reported_failed_witness:
  "(case onMarkPrice ''BTCUSDT'' (Fin (15003 / 100)) demo_amend demo_coordinator of
      (co', res, calls) \<Rightarrow>
        res = Inl AmendNotConfirmed
      \<and> map_option lc_stopPrice (co_get ''BTCUSDT'' co') = Some (Fin (14503 / 100))
      \<and> calls = [CallModify (rg_stopOrderId demo_running) (ps_quantity demo_pos) (Some (Fin (14503 / 100)))])"
proof -
  have adv: "\<exists>n. advanceSmcTradeLifecycle (rg_lifecycle demo_running)
        \<lparr> mk_markPrice = Fin (15003 / 100), mk_positionQty = ps_quantity demo_pos \<rparr>
      = Inr (n, [MoveStop (Fin (14503 / 100)) MoveTrailing]) \<and> lc_direction n = LONG"
    by (simp add: advanceSmcTradeLifecycle_def demo_running_def demo_lifecycle_def demo_pos_def
        DEFAULT_SMC_TRADE_LIFECYCLE_CONFIG_def reached_def improves_def excursionR_def trailingCandidate_def Let_def)
  then obtain n where n: "advanceSmcTradeLifecycle (rg_lifecycle demo_running)
        \<lparr> mk_markPrice = Fin (15003 / 100), mk_positionQty = ps_quantity demo_pos \<rparr>
      = Inr (n, [MoveStop (Fin (14503 / 100)) MoveTrailing])" "lc_direction n = LONG" by blast
  show ?thesis
  proof (rule rounded_amendment_reported_failed [where stop = "demo_stop 100" and updated = "demo_stop 145"
        and before = "demo_xs 100" and after = "demo_xs 145"])
    show "co_active demo_coordinator (upperCase ''BTCUSDT'') = Some demo_running"
      "co_cache demo_coordinator (upperCase ''BTCUSDT'') = Some (Some demo_pos)"
      by (simp_all add: demo_coordinator_def new_coordinator_def upperCase_demo)
    show "lc_direction (rg_lifecycle demo_running) = ps_direction demo_pos"
      by (simp add: demo_running_def demo_lifecycle_def demo_pos_def)
    show "lc_direction n = ps_direction demo_pos" using n(2) by (simp add: demo_pos_def)
    show "\<not> loosens (lc_direction n) (Fin (14503 / 100)) (od_stopPrice (demo_stop 100))"
      using n(2) by (simp add: loosens_def demo_stop_def)
    show "amend_refused (Fin (14503 / 100)) (od_stopPrice (demo_stop 145))"
      by (simp add: amend_refused_def demo_stop_def AMEND_EPS_def AMEND_REL_def)
  qed (use n in \<open>simp_all add: demo_amend_def demo_answers_def demo_xs_simps find_order_def demo_stop_def demo_running_def
         isOpenProtectiveStop_def\<close>)
qed

end
