(* ===== verification/OptionExit.thy ===== *)
theory OptionExit
  imports CoreTypes Interfaces
begin

text \<open>
  The life of one option trade: its transition table (\<open>src/options/OptionPositionMachine.ts\<close>) and the
  deterministic exit pass over an open position (\<open>src/options/ExitPolicy.ts\<close>).
\<close>

section \<open>The transition table\<close>

datatype option_state = IDLE | SIGNAL_DETECTED | ENTRY_PENDING | POSITION_OPEN | EXIT_PENDING | POSITION_CLOSED

datatype option_event = SIGNAL | REJECT | SUBMIT | FILL | NO_FILL | EXIT_TRIGGER | PARTIAL_EXIT | EXIT_RETRY
  | EXIT_FILL | EXTERNAL_CLOSE | ADOPT | RESET

fun option_transition :: "option_state \<Rightarrow> option_event \<Rightarrow> option_state option" where
  "option_transition IDLE SIGNAL = Some SIGNAL_DETECTED"
| "option_transition IDLE ADOPT = Some POSITION_OPEN"
| "option_transition SIGNAL_DETECTED REJECT = Some IDLE"
| "option_transition SIGNAL_DETECTED SUBMIT = Some ENTRY_PENDING"
| "option_transition ENTRY_PENDING FILL = Some POSITION_OPEN"
| "option_transition ENTRY_PENDING NO_FILL = Some IDLE"
| "option_transition POSITION_OPEN EXIT_TRIGGER = Some EXIT_PENDING"
| "option_transition POSITION_OPEN EXTERNAL_CLOSE = Some POSITION_CLOSED"
| "option_transition EXIT_PENDING PARTIAL_EXIT = Some EXIT_PENDING"
| "option_transition EXIT_PENDING EXIT_RETRY = Some EXIT_PENDING"
| "option_transition EXIT_PENDING EXIT_FILL = Some POSITION_CLOSED"
| "option_transition EXIT_PENDING EXTERNAL_CLOSE = Some POSITION_CLOSED"
| "option_transition POSITION_CLOSED RESET = Some IDLE"
| "option_transition s e = None"

definition canTransition :: "option_state \<Rightarrow> option_event \<Rightarrow> bool" where
  "canTransition s e \<longleftrightarrow> option_transition s e \<noteq> None"

definition holds_position :: "option_state \<Rightarrow> bool" where
  "holds_position s \<longleftrightarrow> s = POSITION_OPEN \<or> s = EXIT_PENDING"

definition open_gate :: "option_state \<Rightarrow> option_event \<Rightarrow> bool" where
  "open_gate s e \<longleftrightarrow> (s = ENTRY_PENDING \<and> e = FILL) \<or> (s = IDLE \<and> e = ADOPT)"

definition flat_gate :: "option_state \<Rightarrow> option_event \<Rightarrow> bool" where
  "flat_gate s e \<longleftrightarrow> (s = EXIT_PENDING \<and> e = EXIT_FILL) \<or> (holds_position s \<and> e = EXTERNAL_CLOSE)"

text \<open>Positions are only entered through a fill or an adoption, and only left through a fill or the venue.\<close>

interpretation option_opens: gated_machine option_transition holds_position open_gate
proof
  fix s e t
  assume "option_transition s e = Some t" "holds_position t" "\<not> holds_position s"
  then show "open_gate s e"
    by (cases s; cases e) (auto simp: holds_position_def open_gate_def)
qed

interpretation option_flattens: gated_machine option_transition "\<lambda>s. \<not> holds_position s" flat_gate
proof
  fix s e t
  assume "option_transition s e = Some t" "\<not> holds_position t" "\<not> \<not> holds_position s"
  then show "flat_gate s e"
    by (cases s; cases e) (auto simp: holds_position_def flat_gate_def)
qed

section \<open>The exit pass\<close>

datatype option_right = CE | PE

datatype option_exit_reason = STOP_LOSS | TRAILING_STOP | TAKE_PROFIT | PRE_EXPIRY | TIME_STOP | THESIS_INVALIDATED | MANUAL

record exit_limits =
  el_trailArmPct :: jsnum
  el_trailPct :: jsnum
  el_maxHoldMs :: jsnum
  el_exitBeforeExpiryMs :: jsnum

record managed_leg =
  ml_right :: option_right
  ml_entryPrice :: jsnum
  ml_stopPremium :: jsnum
  ml_targetPremium :: jsnum
  ml_peakBid :: jsnum
  ml_trailActive :: bool
  ml_openedAt :: jsnum
  ml_expiryMs :: jsnum

record option_quote =
  oq_symbol :: string
  oq_bids :: "(jsnum \<times> jsnum) list"
  oq_asks :: "(jsnum \<times> jsnum) list"
  oq_mark :: jsnum
  oq_receivedAt :: jsnum

datatype exit_decision =
    Hold managed_leg bool
  | Exit managed_leg option_exit_reason "jsnum option"
  | Stale managed_leg jsnum

definition best_level :: "(jsnum \<times> jsnum) list \<Rightarrow> jsnum option" where
  "best_level ls = (case ls of [] \<Rightarrow> None | l # _ \<Rightarrow> Some (fst l))"

definition raise_peak :: "jsnum \<Rightarrow> managed_leg \<Rightarrow> managed_leg" where
  "raise_peak bid leg = (if ml_peakBid leg < bid then leg\<lparr> ml_peakBid := bid \<rparr> else leg)"

definition trail_stop :: "exit_limits \<Rightarrow> managed_leg \<Rightarrow> managed_leg" where
  "trail_stop limits leg =
     (if ml_entryPrice leg * (1 + el_trailArmPct limits / 100) \<le> ml_peakBid leg
      then (let trail = ml_peakBid leg * (1 - el_trailPct limits / 100)
            in if ml_stopPremium leg < trail then leg\<lparr> ml_stopPremium := trail, ml_trailActive := True \<rparr> else leg)
      else leg)"

record exit_params =
  ep_leg :: managed_leg
  ep_quote :: "option_quote option"
  ep_now :: jsnum
  ep_staleMs :: jsnum
  ep_limits :: exit_limits
  ep_direction :: "option_right option"

text \<open>The flag of \<open>Hold\<close> is the note that the book had no bid.\<close>

definition evaluateExit :: "exit_params \<Rightarrow> exit_decision" where
  "evaluateExit p =
     (let leg = ep_leg p; now = ep_now p; limits = ep_limits p;
          bid = (case ep_quote p of None \<Rightarrow> None | Some q \<Rightarrow> best_level (oq_bids q))
      in if ml_expiryMs leg - el_exitBeforeExpiryMs limits \<le> now then Exit leg PRE_EXPIRY bid
         else if el_maxHoldMs limits \<le> now - ml_openedAt leg then Exit leg TIME_STOP bid
         else case ep_quote p of
             None \<Rightarrow> Stale leg PInf
           | Some q \<Rightarrow>
               (if ep_staleMs p < now - oq_receivedAt q then Stale leg (now - oq_receivedAt q)
                else case bid of
                    None \<Rightarrow> Hold leg True
                  | Some b \<Rightarrow>
                      (let l = trail_stop limits (raise_peak b leg)
                       in if b \<le> ml_stopPremium l
                          then Exit l (if ml_trailActive l then TRAILING_STOP else STOP_LOSS) bid
                          else if ml_targetPremium l \<le> b then Exit l TAKE_PROFIT bid
                          else if ep_direction p \<noteq> None \<and> ep_direction p \<noteq> Some (ml_right l)
                            then Exit l THESIS_INVALIDATED bid
                          else Hold l False)))"

fun decision_leg :: "exit_decision \<Rightarrow> managed_leg" where
  "decision_leg (Hold l n) = l"
| "decision_leg (Exit l r b) = l"
| "decision_leg (Stale l a) = l"

section \<open>Passes only tighten\<close>

definition exit_step :: "managed_leg \<Rightarrow> exit_params \<Rightarrow> managed_leg" where
  "exit_step leg p = decision_leg (evaluateExit (p\<lparr> ep_leg := leg \<rparr>))"

text \<open>The terms fixed at entry are kept; the stop and the peak only rise, and trailing is not undone.\<close>

definition leg_le :: "managed_leg \<Rightarrow> managed_leg \<Rightarrow> bool" where
  "leg_le a b \<longleftrightarrow> ml_right b = ml_right a \<and> ml_entryPrice b = ml_entryPrice a
     \<and> ml_targetPremium b = ml_targetPremium a \<and> ml_openedAt b = ml_openedAt a \<and> ml_expiryMs b = ml_expiryMs a
     \<and> (ml_stopPremium b = ml_stopPremium a \<or> ml_stopPremium a < ml_stopPremium b)
     \<and> (ml_peakBid b = ml_peakBid a \<or> ml_peakBid a < ml_peakBid b)
     \<and> (ml_trailActive a \<longrightarrow> ml_trailActive b)"

lemma leg_le_refl: "leg_le a a"
  by (simp add: leg_le_def)

lemma leg_le_trans: "leg_le a b \<Longrightarrow> leg_le b c \<Longrightarrow> leg_le a c"
  by (auto simp: leg_le_def intro: js_lt_trans)

lemma raise_peak_le: "leg_le leg (raise_peak b leg)"
  by (simp add: leg_le_def raise_peak_def)

lemma trail_stop_le: "leg_le leg (trail_stop limits leg)"
  by (simp add: leg_le_def trail_stop_def Let_def)

lemma evaluateExit_leg_le: "leg_le (ep_leg p) (decision_leg (evaluateExit p))"
  using leg_le_trans [OF raise_peak_le trail_stop_le] leg_le_refl
  by (auto simp: evaluateExit_def Let_def split: option.splits)

interpretation leg: guarded_machine exit_step "\<lambda>l. True" leg_le
proof
  show "leg_le s (exit_step s i)" for s i
    using evaluateExit_leg_le [of "i\<lparr> ep_leg := s \<rparr>"] by (simp add: exit_step_def)
qed (auto intro: leg_le_refl leg_le_trans)

section \<open>Properties\<close>

text \<open>
  A held option's protection only tightens: over any quotes, clocks and direction reads, the terms
  fixed at entry are kept, the stop premium and the peak bid are the old ones or higher, and once the
  trailing stop is active it stays active.
\<close>

theorem option_stop_only_rises:
  "(let l = run_steps exit_step leg ps
    in ml_entryPrice l = ml_entryPrice leg \<and> ml_targetPremium l = ml_targetPremium leg
     \<and> ml_openedAt l = ml_openedAt leg \<and> ml_expiryMs l = ml_expiryMs leg
     \<and> (ml_stopPremium l = ml_stopPremium leg \<or> ml_stopPremium leg < ml_stopPremium l)
     \<and> (ml_peakBid l = ml_peakBid leg \<or> ml_peakBid leg < ml_peakBid l)
     \<and> ml_trailActive leg \<le> ml_trailActive l)"
proof -
  have "leg_le leg (run_steps exit_step leg ps)" by (rule leg.run_le) simp
  then show ?thesis by (simp add: leg_le_def Let_def le_bool_def)
qed

text \<open>
  Why an option is exited: a time exit fires exactly when expiry is near or the hold is over,
  whatever the quote; a price exit needs a quote no older than the limit and a bid, and is a stop when
  the bid is at or below the stop, a take-profit when it is above it and at the target, and a lost
  thesis only between the two when the direction read opposes the position.
\<close>

theorem option_exit_causes:
  assumes "evaluateExit p = Exit l reason b"
  shows "(case reason of
            PRE_EXPIRY \<Rightarrow> ml_expiryMs (ep_leg p) - el_exitBeforeExpiryMs (ep_limits p) \<le> ep_now p
          | TIME_STOP \<Rightarrow> el_maxHoldMs (ep_limits p) \<le> ep_now p - ml_openedAt (ep_leg p)
          | MANUAL \<Rightarrow> False
          | _ \<Rightarrow> (\<exists>q bid. ep_quote p = Some q \<and> \<not> ep_staleMs p < ep_now p - oq_receivedAt q
                    \<and> best_level (oq_bids q) = Some bid \<and> b = Some bid
                    \<and> (case reason of
                         STOP_LOSS \<Rightarrow> bid \<le> ml_stopPremium l \<and> \<not> ml_trailActive l
                       | TRAILING_STOP \<Rightarrow> bid \<le> ml_stopPremium l \<and> ml_trailActive l
                       | TAKE_PROFIT \<Rightarrow> \<not> bid \<le> ml_stopPremium l \<and> ml_targetPremium l \<le> bid
                       | _ \<Rightarrow> \<not> bid \<le> ml_stopPremium l \<and> \<not> ml_targetPremium l \<le> bid
                              \<and> (\<exists>r. ep_direction p = Some r \<and> r \<noteq> ml_right l))))"
  using assms
  by (auto simp: evaluateExit_def Let_def eq_commute [of "Some x" "best_level ls" for x ls]
      split: if_splits option.splits)

text \<open>
  A position that must go is always exited: past the pre-expiry time or the maximum hold the pass
  exits whatever the quote, and a fresh bid at or below the stop in force, or at or above the target,
  exits at once.
\<close>

theorem option_due_exit_fires:
  assumes "ml_expiryMs (ep_leg p) - el_exitBeforeExpiryMs (ep_limits p) \<le> ep_now p
         \<or> el_maxHoldMs (ep_limits p) \<le> ep_now p - ml_openedAt (ep_leg p)
         \<or> (\<exists>q bid. ep_quote p = Some q \<and> \<not> ep_staleMs p < ep_now p - oq_receivedAt q
              \<and> best_level (oq_bids q) = Some bid
              \<and> (bid \<le> ml_stopPremium (ep_leg p) \<or> ml_targetPremium (ep_leg p) \<le> bid))"
  shows "\<exists>l reason b. evaluateExit p = Exit l reason b"
proof -
  have stop: "bid \<le> ml_stopPremium (trail_stop lim (raise_peak bid leg))" if "bid \<le> ml_stopPremium leg" for bid lim leg
    using leg_le_trans [OF raise_peak_le trail_stop_le, of leg lim bid] js_le_trans [OF that] that
    by (auto simp: leg_le_def dest!: js_lt_imp_le)
  have target: "ml_targetPremium (trail_stop lim (raise_peak bid leg)) = ml_targetPremium leg" for bid lim leg
    by (simp add: trail_stop_def raise_peak_def Let_def)
  from assms show ?thesis
    by (auto simp: evaluateExit_def Let_def stop target split: option.splits)
qed

definition demo_leg :: managed_leg where
  "demo_leg = \<lparr> ml_right = CE, ml_entryPrice = 100, ml_stopPremium = 60, ml_targetPremium = 200, ml_peakBid = 100,
     ml_trailActive = False, ml_openedAt = 0, ml_expiryMs = 100000000 \<rparr>"

definition demo_exit :: exit_params where
  "demo_exit = \<lparr> ep_leg = demo_leg,
     ep_quote = Some \<lparr> oq_symbol = ''BTC-C'', oq_bids = [(Fin 55, Fin 1)], oq_asks = [], oq_mark = Fin 55, oq_receivedAt = Fin 1000 \<rparr>,
     ep_now = Fin 2000, ep_staleMs = Fin 5000,
     ep_limits = \<lparr> el_trailArmPct = 50, el_trailPct = 20, el_maxHoldMs = 1000000, el_exitBeforeExpiryMs = 1000000 \<rparr>,
     ep_direction = None \<rparr>"

lemma demo_exit_stops: "evaluateExit demo_exit = Exit demo_leg STOP_LOSS (Some (Fin 55))"
  by (simp add: evaluateExit_def demo_exit_def demo_leg_def raise_peak_def trail_stop_def best_level_def Let_def)

theorem option_exit_causes_witness:
  "evaluateExit demo_exit = Exit demo_leg STOP_LOSS (Some (Fin 55))
   \<and> (\<exists>q bid. ep_quote demo_exit = Some q \<and> \<not> ep_staleMs demo_exit < ep_now demo_exit - oq_receivedAt q
                    \<and> best_level (oq_bids q) = Some bid \<and> Some (Fin 55) = Some bid
                    \<and> bid \<le> ml_stopPremium demo_leg \<and> \<not> ml_trailActive demo_leg)"
  using option_exit_causes [OF demo_exit_stops] demo_exit_stops by simp

theorem option_due_exit_fires_witness: "\<exists>l reason b. evaluateExit demo_exit = Exit l reason b"
  by (rule option_due_exit_fires) (simp add: demo_exit_def demo_leg_def best_level_def)

end
