(* ===== verification/OptionPlanner.thy ===== *)
theory OptionPlanner
  imports OptionExit SymbolRules
begin

text \<open>
  Sizing of a long option: lot flooring (\<open>src/options/contract.ts\<close>), fees and the walk of the book
  (\<open>src/options/execution.ts\<close>), the entry plan and the loss governor
  (\<open>src/options/OptionRiskPlanner.ts\<close>).
\<close>

record option_contract =
  oc_symbol :: string
  oc_underlying :: string
  oc_right :: option_right
  oc_strike :: jsnum
  oc_expiryMs :: jsnum
  oc_unit :: jsnum
  oc_minQty :: jsnum
  oc_qtyStep :: jsnum
  oc_tickSize :: jsnum

section \<open>Lots, fees and fills\<close>

text \<open>The decimals kept after flooring: two more than the step's leading digit needs, at most 12.\<close>

fun step_decimals :: "jsnum \<Rightarrow> nat" where
  "step_decimals (Fin s) = min 12 (nat (max 0 (2 - \<lfloor>log 10 s\<rfloor>)))"
| "step_decimals x = 0"

definition LOT_EPS :: jsnum where "LOT_EPS = Fin (1 / 10 ^ 9)"

definition opt_floorToStep :: "jsnum \<Rightarrow> jsnum \<Rightarrow> jsnum" where
  "opt_floorToStep qty step =
     (if \<not> 0 < qty \<or> \<not> 0 < step then 0
      else toFixed (step_decimals step) (math_floor (qty / step + LOT_EPS) * step))"

record fee_model =
  fm_rate :: jsnum
  fm_cap :: jsnum

definition optionFee :: "fee_model \<Rightarrow> jsnum \<Rightarrow> jsnum \<Rightarrow> jsnum \<Rightarrow> jsnum \<Rightarrow> jsnum" where
  "optionFee m premium qty indexPrice unit =
     (if \<not> 0 < qty \<or> \<not> 0 \<le> premium then 0
      else (let cap = fm_cap m * premium * qty
            in if \<not> 0 < indexPrice then cap else math_min (fm_rate m * indexPrice * qty * unit) cap))"

record book_fill =
  bf_qty :: jsnum
  bf_avgPrice :: jsnum
  bf_partial :: bool

datatype fill_side = BuySide | SellSide

fun take_levels :: "fill_side \<Rightarrow> jsnum \<Rightarrow> (jsnum \<times> jsnum) list \<Rightarrow> jsnum \<Rightarrow> jsnum \<Rightarrow> jsnum" where
  "take_levels side limit [] remaining filled = filled"
| "take_levels side limit ((price, shown) # ls) remaining filled =
     (if remaining \<le> 0 then filled
      else if (case side of BuySide \<Rightarrow> limit < price | SellSide \<Rightarrow> price < limit) then filled
      else (let t = math_min shown remaining in take_levels side limit ls (remaining - t) (filled + t)))"

fun lot_cost :: "(jsnum \<times> jsnum) list \<Rightarrow> jsnum \<Rightarrow> jsnum \<Rightarrow> jsnum" where
  "lot_cost [] left cost = cost"
| "lot_cost ((price, shown) # ls) left cost =
     (if left \<le> 0 then cost
      else (let t = math_min shown left in lot_cost ls (left - t) (cost + t * price)))"

definition walkBook :: "(jsnum \<times> jsnum) list \<Rightarrow> fill_side \<Rightarrow> jsnum \<Rightarrow> jsnum \<Rightarrow> option_contract \<Rightarrow> book_fill" where
  "walkBook ls side qty limit contract =
     (let filled = take_levels side limit ls qty 0;
          lots = opt_floorToStep filled (oc_qtyStep contract)
      in if lots < oc_minQty contract \<or> lots \<le> 0 then \<lparr> bf_qty = 0, bf_avgPrice = 0, bf_partial = (0 < qty) \<rparr>
         else \<lparr> bf_qty = lots, bf_avgPrice = lot_cost ls lots 0 / lots,
                bf_partial = (lots + Fin (1 / 10 ^ 12) < qty) \<rparr>)"

section \<open>The entry plan\<close>

record option_risk_limits =
  rl_riskPerTradePct :: jsnum
  rl_maxPremiumPct :: jsnum
  rl_maxTotalPremiumPct :: jsnum
  rl_maxOpenPositions :: nat
  rl_maxDailyLossPct :: jsnum
  rl_maxLossStreak :: nat
  rl_maxSlippagePct :: jsnum

record open_exposure =
  ox_premiumAtRisk :: jsnum
  ox_openPositions :: nat

datatype plan_binding = ByRisk | ByPremium | ByPortfolio | ByBook

record entry_plan =
  en_qty :: jsnum
  en_expectedFill :: jsnum
  en_limitPrice :: jsnum
  en_stopPremium :: jsnum
  en_targetPremium :: jsnum
  en_plannedLoss :: jsnum
  en_worstCaseLoss :: jsnum
  en_binding :: plan_binding

datatype plan_refusal = NoEquity | TooManyOpen nat | NoAsk | PremiumCapReached jsnum | BelowMinQty jsnum plan_binding | BookTooThin

record plan_params =
  pp_equity :: jsnum
  pp_exposure :: open_exposure
  pp_contract :: option_contract
  pp_quote :: option_quote
  pp_indexPrice :: jsnum
  pp_stopPct :: jsnum
  pp_targetPct :: jsnum
  pp_limits :: option_risk_limits
  pp_fees :: fee_model

definition least_ceiling :: "plan_binding \<times> jsnum \<Rightarrow> plan_binding \<times> jsnum \<Rightarrow> plan_binding \<times> jsnum" where
  "least_ceiling lo cur = (if snd cur < snd lo then cur else lo)"

definition planEntry :: "plan_params \<Rightarrow> plan_refusal + entry_plan" where
  "planEntry p =
     (let eq = pp_equity p; ex = pp_exposure p; c = pp_contract p; lims = pp_limits p;
          fee = (\<lambda>premium qty. optionFee (pp_fees p) premium qty (pp_indexPrice p) (oc_unit c))
      in if \<not> 0 < eq then Inl NoEquity
         else if rl_maxOpenPositions lims \<le> ox_openPositions ex then Inl (TooManyOpen (ox_openPositions ex))
         else case best_level (oq_asks (pp_quote p)) of
             None \<Rightarrow> Inl NoAsk
           | Some ask \<Rightarrow>
               (if \<not> 0 < ask then Inl NoAsk
                else
                  (let limitPrice = ask * (1 + rl_maxSlippagePct lims / 100);
                       unitFee = fee limitPrice 1;
                       stopPremium = limitPrice * (1 - pp_stopPct p / 100);
                       stopFee = fee stopPremium 1;
                       riskPer = (limitPrice - stopPremium) + unitFee + stopFee;
                       costPer = limitPrice + unitFee;
                       byRisk = (eq * rl_riskPerTradePct lims / 100) / riskPer;
                       byPremium = (eq * rl_maxPremiumPct lims / 100) / costPer;
                       room = eq * rl_maxTotalPremiumPct lims / 100 - ox_premiumAtRisk ex
                   in if room \<le> 0 then Inl (PremiumCapReached (ox_premiumAtRisk ex))
                      else
                        (let least = least_ceiling (least_ceiling (ByRisk, byRisk) (ByPremium, byPremium)) (ByPortfolio, room / costPer);
                             wanted = opt_floorToStep (snd least) (oc_qtyStep c)
                         in if wanted < oc_minQty c then Inl (BelowMinQty wanted (fst least))
                            else
                              (let fill = walkBook (oq_asks (pp_quote p)) BuySide wanted limitPrice c; avg = bf_avgPrice fill; qty = bf_qty fill
                               in if qty \<le> 0 then Inl BookTooThin
                                  else
                                    (let stopAtFill = avg * (1 - pp_stopPct p / 100);
                                         entryFee = fee avg qty; exitFee = fee stopAtFill qty
                                     in Inr \<lparr> en_qty = qty, en_expectedFill = avg, en_limitPrice = limitPrice,
                                              en_stopPremium = stopAtFill,
                                              en_targetPremium = avg * (1 + pp_targetPct p / 100),
                                              en_plannedLoss = qty * (avg - stopAtFill) + entryFee + exitFee,
                                              en_worstCaseLoss = qty * avg + entryFee,
                                              en_binding = (if bf_partial fill then ByBook else fst least) \<rparr>))))))"

section \<open>The loss governor\<close>

text \<open>Days are counted from the epoch; \<open>utcDay\<close> prints the same day as a date.\<close>

definition opt_utcDay :: "jsnum \<Rightarrow> jsnum" where
  "opt_utcDay ms = math_floor (ms / 86400000)"

record risk_book =
  rb_day :: jsnum
  rb_dayStartEquity :: jsnum
  rb_realizedToday :: jsnum
  rb_lossStreak :: nat

definition risk_book_new :: "risk_book option \<Rightarrow> jsnum \<Rightarrow> jsnum \<Rightarrow> risk_book" where
  "risk_book_new initial eq now =
     (case initial of
        Some b \<Rightarrow> (if rb_day b = opt_utcDay now then b
                   else \<lparr> rb_day = opt_utcDay now, rb_dayStartEquity = eq, rb_realizedToday = 0, rb_lossStreak = rb_lossStreak b \<rparr>)
      | None \<Rightarrow> \<lparr> rb_day = opt_utcDay now, rb_dayStartEquity = eq, rb_realizedToday = 0, rb_lossStreak = 0 \<rparr>)"

definition rollIfNewDay :: "jsnum \<Rightarrow> jsnum \<Rightarrow> risk_book \<Rightarrow> risk_book" where
  "rollIfNewDay eq now b =
     (if opt_utcDay now \<noteq> rb_day b
      then \<lparr> rb_day = opt_utcDay now, rb_dayStartEquity = eq, rb_realizedToday = 0, rb_lossStreak = rb_lossStreak b \<rparr>
      else b)"

definition risk_record :: "jsnum \<Rightarrow> jsnum \<Rightarrow> risk_book \<Rightarrow> risk_book" where
  "risk_record pnl closedAt b0 =
     (let b = rollIfNewDay (rb_dayStartEquity b0 + rb_realizedToday b0) closedAt b0
      in b\<lparr> rb_realizedToday := rb_realizedToday b + pnl,
            rb_lossStreak := (if pnl < 0 then rb_lossStreak b + 1 else 0) \<rparr>)"

datatype halt_reason = DailyLoss jsnum jsnum | LossesInARow nat

definition haltReason :: "option_risk_limits \<Rightarrow> risk_book \<Rightarrow> halt_reason option" where
  "haltReason lims b =
     (let lossLimit = rb_dayStartEquity b * rl_maxDailyLossPct lims / 100
      in if lossLimit \<le> - rb_realizedToday b then Some (DailyLoss (- rb_realizedToday b) lossLimit)
         else if rl_maxLossStreak lims \<le> rb_lossStreak b then Some (LossesInARow (rb_lossStreak b))
         else None)"

section \<open>Lots and fees\<close>

definition unit_fee :: "real \<Rightarrow> real \<Rightarrow> real \<Rightarrow> real \<Rightarrow> real \<Rightarrow> real" where
  "unit_fee rate cap ix u premium = (if ix \<le> 0 then cap * premium else min (rate * ix * u) (cap * premium))"

text \<open>Fees are proportional to the quantity and grow with the premium.\<close>

lemma optionFee_unit:
  assumes "0 < q" and "0 \<le> premium"
  shows "optionFee \<lparr> fm_rate = Fin rate, fm_cap = Fin cap \<rparr> (Fin premium) (Fin q) (Fin ix) (Fin u)
       = Fin (q * unit_fee rate cap ix u premium)"
proof -
  have "min (rate * ix * q * u) (cap * premium * q) = q * min (rate * ix * u) (cap * premium)"
    using assms(1) mult_le_cancel_left_pos [of q "rate * ix * u" "cap * premium"] by (simp add: min_def algebra_simps)
  with assms show ?thesis by (simp add: optionFee_def unit_fee_def Let_def)
qed

lemma unit_fee_mono: "0 \<le> cap \<Longrightarrow> a \<le> b \<Longrightarrow> unit_fee rate cap ix u a \<le> unit_fee rate cap ix u b"
  using mult_left_mono [of a b cap] by (auto simp: unit_fee_def min_def)

lemma unit_fee_nonneg: "0 \<le> cap \<Longrightarrow> 0 \<le> rate \<Longrightarrow> 0 \<le> u \<Longrightarrow> 0 \<le> a \<Longrightarrow> 0 \<le> unit_fee rate cap ix u a"
  by (auto simp: unit_fee_def)

lemma opt_floor_grid:
  assumes "0 < s" and "s * 10 ^ step_decimals (Fin s) = of_int k"
  shows "opt_floorToStep (Fin q) (Fin s) = (if 0 < q then Fin (of_int \<lfloor>q / s + 1 / 10 ^ 9\<rfloor> * s) else Fin 0)"
  using assms toFixed_grid [OF assms(2)] by (simp add: opt_floorToStep_def LOT_EPS_def)

text \<open>Flooring keeps a whole number of lots, and gives at most one part in \<open>10\<^sup>9\<close> more than was asked.\<close>

lemma floorToStep_lots:
  assumes "0 < s" and "s * 10 ^ step_decimals (Fin s) = of_int k" and "opt_floorToStep (Fin q) (Fin s) = Fin w"
  shows "\<exists>n. w = of_nat n * s \<and> (1 - 1 / 10 ^ 9) * w \<le> max 0 q"
proof (cases "0 < q")
  case False
  with assms show ?thesis by (auto simp: opt_floor_grid intro!: exI [of _ 0])
next
  case True
  let ?n = "\<lfloor>q / s + 1 / 10 ^ 9\<rfloor>"
  have "0 \<le> ?n" using True assms(1) by (simp add: zero_le_floor)
  have le: "of_int ?n \<le> q / s + 1 / 10 ^ 9" by linarith
  have w: "w = of_int ?n * s" using assms True by (simp add: opt_floor_grid)
  have "(1 - 1 / 10 ^ 9) * (of_int ?n :: real) \<le> q / s"
  proof (cases "?n = 0")
    case True
    then show ?thesis using \<open>0 < q\<close> assms(1) by simp
  next
    case False
    with \<open>0 \<le> ?n\<close> have "1 \<le> ?n" by linarith
    then have "(1::real) \<le> of_int ?n" by linarith
    then have "1 / 10 ^ 9 * (1::real) \<le> 1 / 10 ^ 9 * of_int ?n" by (intro mult_left_mono) auto
    moreover have "(1 - 1 / 10 ^ 9) * (of_int ?n :: real) = of_int ?n - 1 / 10 ^ 9 * of_int ?n"
      by (simp only: left_diff_distrib mult_1)
    ultimately show ?thesis using le by linarith
  qed
  then have "(1 - 1 / 10 ^ 9) * (of_int ?n :: real) * s \<le> q / s * s" using assms(1) by (intro mult_right_mono) auto
  then have "(1 - 1 / 10 ^ 9) * w \<le> q" using assms(1) w by (simp add: mult.assoc)
  moreover have "w = of_nat (nat ?n) * s" using w \<open>0 \<le> ?n\<close> by simp
  ultimately show ?thesis using True by (intro exI [of _ "nat ?n"]) auto
qed

section \<open>The fill\<close>

text \<open>A book that shows whole lots at finite positive prices.\<close>

definition lot_level :: "real \<Rightarrow> jsnum \<times> jsnum \<Rightarrow> bool" where
  "lot_level s l \<longleftrightarrow> (\<exists>a k. l = (Fin a, Fin (of_nat k * s)) \<and> 0 < a)"

lemma take_lots:
  assumes "0 < s" and "\<forall>l\<in>set ls. lot_level s l" and "0 \<le> L"
  shows "\<exists>j\<le>m. take_levels BuySide (Fin L) ls (Fin (of_nat m * s)) (Fin f) = Fin (f + of_nat j * s)
    \<and> (\<forall>c. \<exists>c'. lot_cost ls (Fin (of_nat j * s)) (Fin c) = Fin c' \<and> c \<le> c' \<and> c' \<le> c + L * (of_nat j * s))"
  using assms(2)
proof (induction ls arbitrary: m f)
  case Nil
  then show ?case by (intro exI [of _ 0]) auto
next
  case (Cons l ls)
  then obtain a k where l: "l = (Fin a, Fin (of_nat k * s))" "0 < a" by (auto simp: lot_level_def)
  show ?case
  proof (cases "m = 0 \<or> L < a")
    case True
    then show ?thesis using l assms(1) by (intro exI [of _ 0]) auto
  next
    case False
    define t where "t = min k m"
    have t: "min (of_nat k * s) (of_nat m * s) = of_nat t * s" "t \<le> m" "t \<le> k"
      using assms(1) by (simp_all add: t_def min_def)
    have rest: "of_nat m * s - of_nat t * s = of_nat (m - t) * s" using t by (simp add: of_nat_diff algebra_simps)
    from Cons.IH [of "m - t" "f + of_nat t * s"] Cons.prems obtain j where
      j: "j \<le> m - t" "take_levels BuySide (Fin L) ls (Fin (of_nat (m - t) * s)) (Fin (f + of_nat t * s)) = Fin (f + of_nat t * s + of_nat j * s)"
      "\<And>c. \<exists>c'. lot_cost ls (Fin (of_nat j * s)) (Fin c) = Fin c' \<and> c \<le> c' \<and> c' \<le> c + L * (of_nat j * s)"
      by auto
    have "0 < of_nat m * s" using False assms(1) by simp
    with False l t rest j have taken: "take_levels BuySide (Fin L) (l # ls) (Fin (of_nat m * s)) (Fin f) = Fin (f + of_nat (t + j) * s)"
      by (simp add: Let_def algebra_simps)
    have cost: "\<exists>c'. lot_cost (l # ls) (Fin (of_nat (t + j) * s)) (Fin c) = Fin c' \<and> c \<le> c' \<and> c' \<le> c + L * (of_nat (t + j) * s)" for c
    proof (cases "t + j = 0")
      case True
      then show ?thesis using l by simp
    next
      case pos: False
      have "min k (t + j) = t" using j(1) by (auto simp: t_def min_def split: if_splits)
      then have mn: "min (of_nat k * s) (of_nat (t + j) * s) = of_nat t * s"
        using assms(1) by (simp add: min_def split: if_splits)
      have left: "of_nat (t + j) * s - of_nat t * s = of_nat j * s" by (simp add: algebra_simps)
      have "0 < of_nat (t + j) * s" using pos assms(1) by (intro mult_pos_pos) auto
      with l mn left have step: "lot_cost (l # ls) (Fin (of_nat (t + j) * s)) (Fin c) = lot_cost ls (Fin (of_nat j * s)) (Fin (c + of_nat t * s * a))"
        by (simp add: Let_def del: of_nat_add)
      have "of_nat t * s * a \<le> of_nat t * s * L" "0 \<le> of_nat t * s * a" using False l assms(1) by (auto intro!: mult_left_mono)
      with j(3) [of "c + of_nat t * s * a"] step show ?thesis by (auto simp: algebra_simps)
    qed
    from taken cost j(1) t(2) show ?thesis by (intro exI [of _ "t + j"]) auto
  qed
qed

lemma walkBook_fill:
  assumes "0 < s" and "s * 10 ^ step_decimals (Fin s) = of_int k" and "\<forall>l\<in>set ls. lot_level s l" and "0 \<le> L"
    and "oc_qtyStep c = Fin s" and "oc_minQty c = Fin mq" and "\<not> bf_qty (walkBook ls BuySide (Fin (of_nat m * s)) (Fin L) c) \<le> 0"
  shows "\<exists>q a. bf_qty (walkBook ls BuySide (Fin (of_nat m * s)) (Fin L) c) = Fin q
     \<and> bf_avgPrice (walkBook ls BuySide (Fin (of_nat m * s)) (Fin L) c) = Fin a
     \<and> 0 < q \<and> mq \<le> q \<and> q \<le> of_nat m * s \<and> 0 \<le> a \<and> a \<le> L"
proof -
  from take_lots [OF assms(1,3,4), of m 0] obtain j where
    j: "j \<le> m" "take_levels BuySide (Fin L) ls (Fin (of_nat m * s)) (Fin 0) = Fin (of_nat j * s)"
    "\<And>c. \<exists>c'. lot_cost ls (Fin (of_nat j * s)) (Fin c) = Fin c' \<and> c \<le> c' \<and> c' \<le> c + L * (of_nat j * s)" by auto
  have "\<lfloor>real j + 1 / 10 ^ 9\<rfloor> = int j" by (intro floor_unique) auto
  then have lots: "opt_floorToStep (Fin (of_nat j * s)) (Fin s) = Fin (of_nat j * s)"
    using assms(1) by (cases j) (simp_all add: opt_floor_grid [OF assms(1,2)] zero_less_mult_iff)
  from j(3) [of 0] obtain c' where c': "lot_cost ls (Fin (of_nat j * s)) (Fin 0) = Fin c'" "0 \<le> c'" "c' \<le> L * (of_nat j * s)" by auto
  from assms(5-7) j(2) lots have pos: "0 < of_nat j * s" "mq \<le> of_nat j * s"
    by (auto simp: walkBook_def Let_def split: if_splits)
  have "of_nat j * s \<le> of_nat m * s" using j(1) assms(1) by simp
  moreover have "0 \<le> c' / (of_nat j * s)" "c' / (of_nat j * s) \<le> L" using c' pos(1) by (auto simp: pos_divide_le_eq zero_le_divide_iff)
  moreover have "walkBook ls BuySide (Fin (of_nat m * s)) (Fin L) c
      = \<lparr> bf_qty = Fin (of_nat j * s), bf_avgPrice = Fin (c' / (of_nat j * s)),
          bf_partial = (Fin (of_nat j * s) + Fin (1 / 10 ^ 12) < Fin (of_nat m * s)) \<rparr>"
    using assms(5,6) j(2) lots c'(1) pos unfolding walkBook_def Let_def zero_jsnum_def by auto
  ultimately show ?thesis using pos by simp
qed

section \<open>The ceilings hold at the fill\<close>

text \<open>
  The setting of a plan: finite numbers, a stop between the fill and zero, fees and unit not negative, a
  lot step with the decimals \<open>floorToStep\<close> keeps, and a book of whole lots.
\<close>

definition plan_setting :: "real \<Rightarrow> real \<Rightarrow> plan_params \<Rightarrow> bool" where
  "plan_setting s sp p \<longleftrightarrow>
     is_finite (pp_equity p) \<and> is_finite (pp_indexPrice p) \<and> is_finite (ox_premiumAtRisk (pp_exposure p)) \<and>
     is_finite (rl_riskPerTradePct (pp_limits p)) \<and> is_finite (rl_maxPremiumPct (pp_limits p)) \<and>
     is_finite (rl_maxTotalPremiumPct (pp_limits p)) \<and>
     is_finite (rl_maxSlippagePct (pp_limits p)) \<and> 0 \<le> rl_maxSlippagePct (pp_limits p) \<and>
     is_finite (fm_rate (pp_fees p)) \<and> 0 \<le> fm_rate (pp_fees p) \<and> is_finite (fm_cap (pp_fees p)) \<and> 0 \<le> fm_cap (pp_fees p) \<and>
     is_finite (oc_unit (pp_contract p)) \<and> 0 \<le> oc_unit (pp_contract p) \<and> is_finite (oc_minQty (pp_contract p)) \<and>
     oc_qtyStep (pp_contract p) = Fin s \<and> 0 < s \<and> s * 10 ^ step_decimals (Fin s) \<in> \<int> \<and>
     pp_stopPct p = Fin sp \<and> 0 < sp \<and> sp \<le> 100 \<and>
     (\<forall>l\<in>set (oq_asks (pp_quote p)). lot_level s l)"

text \<open>A quantity within a ceiling, sold at no more than the price the ceiling was computed at, costs no more than the budget.\<close>

lemma within_budget:
  assumes "(1 - e) * (q::real) \<le> budget / per" and "0 < per" and "0 \<le> q" and "e \<le> 1" and "x \<le> q * per'" and "per' \<le> per"
  shows "(1 - e) * x \<le> budget"
proof -
  have "q * per' \<le> q * per" using assms(3,6) by (intro mult_left_mono)
  with assms(5) have "x \<le> q * per" by linarith
  then have "(1 - e) * x \<le> (1 - e) * (q * per)" using assms(4) by (intro mult_left_mono) auto
  also have "\<dots> = (1 - e) * q * per" by simp
  also have "\<dots> \<le> budget / per * per" using assms(1,2) by (intro mult_right_mono) auto
  also have "\<dots> = budget" using assms(2) by simp
  finally show ?thesis .
qed

lemma least_ceiling_le:
  assumes "snd x = Fin a" and "snd y = Fin b"
  shows "snd (least_ceiling x y) = Fin (min a b)"
  using assms by (auto simp: least_ceiling_def min_def)

text \<open>
  C24. A planned entry stays inside every ceiling when it is filled: with a plan's usual setting, the plan's
  quantity is at least the contract's minimum, its average fill within the slippage limit, the loss at the
  stop (fees included) within the risk per trade, and the whole premium plus the entry fee within the
  premium cap and within what the portfolio cap leaves, each up to the one part in \<open>10\<^sup>9\<close> of the lot
  flooring; and the plan is only made below the position limit.
\<close>

theorem planned_entry_respects_ceilings:
  assumes "plan_setting s sp p" and "planEntry p = Inr e"
  shows "0 < en_qty e \<and> oc_minQty (pp_contract p) \<le> en_qty e \<and> en_expectedFill e \<le> en_limitPrice e
    \<and> Fin (1 - 1 / 10 ^ 9) * en_plannedLoss e \<le> pp_equity p * rl_riskPerTradePct (pp_limits p) / 100
    \<and> Fin (1 - 1 / 10 ^ 9) * en_worstCaseLoss e \<le> pp_equity p * rl_maxPremiumPct (pp_limits p) / 100
    \<and> Fin (1 - 1 / 10 ^ 9) * en_worstCaseLoss e
        \<le> pp_equity p * rl_maxTotalPremiumPct (pp_limits p) / 100 - ox_premiumAtRisk (pp_exposure p)
    \<and> ox_openPositions (pp_exposure p) < rl_maxOpenPositions (pp_limits p)"
proof -
  let ?c = "pp_contract p" and ?l = "pp_limits p" and ?asks = "oq_asks (pp_quote p)"
  from assms(1) obtain E ix ex R MP MT sl rate cap u mq k where
    fin: "pp_equity p = Fin E" "pp_indexPrice p = Fin ix" "ox_premiumAtRisk (pp_exposure p) = Fin ex"
      "rl_riskPerTradePct ?l = Fin R" "rl_maxPremiumPct ?l = Fin MP" "rl_maxTotalPremiumPct ?l = Fin MT"
      "rl_maxSlippagePct ?l = Fin sl" "pp_fees p = \<lparr> fm_rate = Fin rate, fm_cap = Fin cap \<rparr>"
      "oc_unit ?c = Fin u" "oc_minQty ?c = Fin mq" "oc_qtyStep ?c = Fin s" "pp_stopPct p = Fin sp"
    and nn: "0 \<le> sl" "0 \<le> rate" "0 \<le> cap" "0 \<le> u" "0 < s" "0 < sp" "sp \<le> 100"
    and k: "s * 10 ^ step_decimals (Fin s) = of_int k"
    and bk: "\<forall>l\<in>set ?asks. lot_level s l"
    by (cases "pp_fees p") (auto simp: plan_setting_def is_finite_iff Ints_def)
  from assms(2) obtain ask where ask0: "best_level ?asks = Some ask" "0 < ask"
    by (auto simp: planEntry_def Let_def split: if_splits option.splits)
  then obtain a0 where a0: "ask = Fin a0" "0 < a0" using bk by (cases ?asks) (auto simp: best_level_def lot_level_def)
  define L where "L = a0 * (1 + sl / 100)"
  define S where "S = L * (1 - sp / 100)"
  define f where "f = unit_fee rate cap ix u"
  define riskPer where "riskPer = (L - S) + f L + f S"
  define costPer where "costPer = L + f L"
  define room where "room = E * MT / 100 - ex"
  define w where "w = min (min ((E * R / 100) / riskPer) ((E * MP / 100) / costPer)) (room / costPer)"
  have "0 < L" using a0(2) nn(1) by (simp add: L_def add_pos_nonneg)
  moreover have "0 \<le> S" "S < L" using \<open>0 < L\<close> nn(6,7) by (simp_all add: S_def)
  moreover have "0 \<le> f L" "0 \<le> f S" using nn \<open>0 < L\<close> \<open>0 \<le> S\<close> by (simp_all add: f_def unit_fee_nonneg)
  ultimately have per: "0 < L" "0 \<le> S" "0 < riskPer" "0 < costPer" by (simp_all add: riskPer_def costPer_def)
  have fee: "optionFee (pp_fees p) (Fin pr) (Fin q) (pp_indexPrice p) (oc_unit ?c) = Fin (q * f pr)" if "0 < q" "0 \<le> pr" for pr q
    using optionFee_unit [OF that] by (simp add: fin f_def)
  have calc: "Fin a0 * (1 + Fin sl / 100) = Fin L" "Fin L * (1 - Fin sp / 100) = Fin S" "Fin L - Fin S = Fin (L - S)"
    "Fin E * Fin R / 100 = Fin (E * R / 100)" "Fin E * Fin MP / 100 = Fin (E * MP / 100)" "Fin E * Fin MT / 100 - Fin ex = Fin room"
    by (simp_all add: L_def S_def room_def)
  have fees: "optionFee (pp_fees p) (Fin L) 1 (pp_indexPrice p) (oc_unit ?c) = Fin (f L)"
      "optionFee (pp_fees p) (Fin S) 1 (pp_indexPrice p) (oc_unit ?c) = Fin (f S)"
    using fee [of 1 L] fee [of 1 S] per by simp_all
  have ceil: "Fin (E * R / 100) / (Fin (L - S) + Fin (f L) + Fin (f S)) = Fin (E * R / 100 / riskPer)"
      "Fin (E * MP / 100) / (Fin L + Fin (f L)) = Fin (E * MP / 100 / costPer)"
      "Fin room / (Fin L + Fin (f L)) = Fin (room / costPer)"
    using per(3,4) by (simp_all add: riskPer_def costPer_def)
  have least: "snd (least_ceiling (least_ceiling (ByRisk, Fin (E * R / 100 / riskPer)) (ByPremium, Fin (E * MP / 100 / costPer)))
      (ByPortfolio, Fin (room / costPer))) = Fin w"
    by (simp add: least_ceiling_le w_def)
  from opt_floor_grid [OF nn(5) k, of w] obtain w' where "opt_floorToStep (Fin w) (Fin s) = Fin w'" by (cases "0 < w") auto
  with floorToStep_lots [OF nn(5) k] obtain m where
    m: "opt_floorToStep (Fin w) (Fin s) = Fin (of_nat m * s)" "(1 - 1 / 10 ^ 9) * (of_nat m * s) \<le> max 0 w" by blast
  define F where "F = walkBook ?asks BuySide (Fin (of_nat m * s)) (Fin L) ?c"
  define b where "b = fst (least_ceiling (least_ceiling (ByRisk, Fin (E * R / 100 / riskPer)) (ByPremium, Fin (E * MP / 100 / costPer)))
      (ByPortfolio, Fin (room / costPer)))"
  have "0 < Fin E \<and> ox_openPositions (pp_exposure p) < rl_maxOpenPositions ?l \<and> 0 < Fin room \<and> \<not> bf_qty F \<le> 0 \<and>
     e = \<lparr> en_qty = bf_qty F, en_expectedFill = bf_avgPrice F, en_limitPrice = Fin L,
           en_stopPremium = bf_avgPrice F * (1 - Fin sp / 100), en_targetPremium = bf_avgPrice F * (1 + pp_targetPct p / 100),
           en_plannedLoss = bf_qty F * (bf_avgPrice F - bf_avgPrice F * (1 - Fin sp / 100))
             + optionFee (pp_fees p) (bf_avgPrice F) (bf_qty F) (pp_indexPrice p) (oc_unit ?c)
             + optionFee (pp_fees p) (bf_avgPrice F * (1 - Fin sp / 100)) (bf_qty F) (pp_indexPrice p) (oc_unit ?c),
           en_worstCaseLoss = bf_qty F * bf_avgPrice F + optionFee (pp_fees p) (bf_avgPrice F) (bf_qty F) (pp_indexPrice p) (oc_unit ?c),
           en_binding = (if bf_partial F then ByBook else b) \<rparr>"
    using assms(2) ask0 unfolding planEntry_def Let_def fin(1,3-7,11,12) ask0(1) a0(1) option.case calc fees ceil least m(1)
    by (fold F_def b_def) (auto simp: js_not_le_iff split: if_splits)
  note plan = this
  from walkBook_fill [OF nn(5) k bk less_imp_le [OF per(1)] fin(11,10), of m] plan obtain q a where
    F: "bf_qty F = Fin q" "bf_avgPrice F = Fin a" and q: "0 < q" "mq \<le> q" "q \<le> of_nat m * s" and a: "0 \<le> a" "a \<le> L"
    by (auto simp: F_def)
  define a' where "a' = a * (1 - sp / 100)"
  have "a * (sp / 100) \<le> L * (sp / 100)" "a * (1 - sp / 100) \<le> L * (1 - sp / 100)"
    using a nn(6,7) by (auto intro!: mult_right_mono)
  then have a': "0 \<le> a'" "a' \<le> S" "a - a' \<le> L - S" "Fin a * (1 - Fin sp / 100) = Fin a'"
    using a nn(6,7) mult_left_mono [of sp 100 a] by (simp_all add: a'_def S_def right_diff_distrib)
  have mono: "f a \<le> f L" "f a' \<le> f S" using a(2) a'(2) nn(3) by (simp_all add: f_def unit_fee_mono)
  have "0 < (1 - 1 / 10 ^ 9) * (of_nat m * s)" using q by simp
  with m(2) have "(1 - 1 / 10 ^ 9) * (of_nat m * s) \<le> w" by (auto simp: max_def split: if_splits)
  moreover have "(1 - 1 / 10 ^ 9) * q \<le> (1 - 1 / 10 ^ 9) * (of_nat m * s)" using q(3) by simp
  ultimately have qw: "(1 - 1 / 10 ^ 9) * q \<le> w" by linarith
  then have le: "(1 - 1 / 10 ^ 9) * q \<le> E * R / 100 / riskPer" "(1 - 1 / 10 ^ 9) * q \<le> E * MP / 100 / costPer"
      "(1 - 1 / 10 ^ 9) * q \<le> room / costPer" by (simp_all add: w_def)
  have loss: "en_plannedLoss e = Fin (q * ((a - a') + f a + f a'))" "en_worstCaseLoss e = Fin (q * (a + f a))"
    using plan unfolding F a'(4) fee [OF q(1) a(1)] fee [OF q(1) a'(1)] by (simp_all add: distrib_left)
  have "(1 - 1 / 10 ^ 9) * (q * ((a - a') + f a + f a')) \<le> E * R / 100"
    using a'(3) mono q(1) by (intro within_budget [OF le(1) per(3), of _ "(a - a') + f a + f a'"]) (auto simp: riskPer_def)
  moreover have "(1 - 1 / 10 ^ 9) * (q * (a + f a)) \<le> E * MP / 100"
    using a(2) mono q(1) by (intro within_budget [OF le(2) per(4), of _ "a + f a"]) (auto simp: costPer_def)
  moreover have "(1 - 1 / 10 ^ 9) * (q * (a + f a)) \<le> room"
    using a(2) mono q(1) by (intro within_budget [OF le(3) per(4), of _ "a + f a"]) (auto simp: costPer_def)
  ultimately show ?thesis using plan F q a fin loss calc(4-6) by (simp add: algebra_simps)
qed

definition demo_plan :: plan_params where
  "demo_plan =
     \<lparr> pp_equity = Fin 1000, pp_exposure = \<lparr> ox_premiumAtRisk = Fin 0, ox_openPositions = 0 \<rparr>,
       pp_contract = \<lparr> oc_symbol = ''BTC-C'', oc_underlying = ''BTCUSDT'', oc_right = CE, oc_strike = Fin 100, oc_expiryMs = Fin 0,
         oc_unit = Fin 1, oc_minQty = Fin 1, oc_qtyStep = Fin 1, oc_tickSize = Fin 1 \<rparr>,
       pp_quote = \<lparr> oq_symbol = ''BTC-C'', oq_bids = [], oq_asks = [(Fin 10, Fin 3), (Fin 11, Fin 3)], oq_mark = Fin 10, oq_receivedAt = Fin 0 \<rparr>,
       pp_indexPrice = Fin 100, pp_stopPct = Fin 50, pp_targetPct = Fin 100,
       pp_limits = \<lparr> rl_riskPerTradePct = Fin 2, rl_maxPremiumPct = Fin 5, rl_maxTotalPremiumPct = Fin 10, rl_maxOpenPositions = 1,
         rl_maxDailyLossPct = Fin 5, rl_maxLossStreak = 3, rl_maxSlippagePct = Fin 0 \<rparr>,
       pp_fees = \<lparr> fm_rate = Fin 0, fm_cap = Fin 0 \<rparr> \<rparr>"

lemma demo_plan_setting: "plan_setting 1 50 demo_plan"
  by (auto simp: plan_setting_def demo_plan_def lot_level_def intro: exI [of _ 3])

lemma demo_plan_accepted:
  "\<exists>e. planEntry demo_plan = Inr e \<and> en_qty e = Fin 3 \<and> en_limitPrice e = Fin 10 \<and> en_plannedLoss e = Fin 15
     \<and> en_worstCaseLoss e = Fin 30"
proof -
  have "\<lfloor>4 + 1 / 1000000000 :: real\<rfloor> = 4" "\<lfloor>3 + 1 / 1000000000 :: real\<rfloor> = 3" by (intro floor_unique; simp)+
  moreover have "\<lfloor>4000000001 / 1000000000 :: real\<rfloor> = 4" "\<lfloor>3000000001 / 1000000000 :: real\<rfloor> = 3" by (intro floor_unique; simp)+
  moreover have "round_away 400 = 400" "round_away 300 = 300"
    using round_away_of_int [of 400] round_away_of_int [of 300] by simp_all
  ultimately show ?thesis
    by (simp add: planEntry_def demo_plan_def best_level_def optionFee_def least_ceiling_def opt_floorToStep_def LOT_EPS_def
        walkBook_def Let_def)
qed

theorem planned_entry_respects_ceilings_witness:
  "\<exists>e. planEntry demo_plan = Inr e \<and> en_qty e = Fin 3 \<and> en_plannedLoss e = Fin 15
     \<and> Fin (1 - 1 / 10 ^ 9) * en_plannedLoss e \<le> pp_equity demo_plan * rl_riskPerTradePct (pp_limits demo_plan) / 100"
  using demo_plan_accepted planned_entry_respects_ceilings [OF demo_plan_setting] by blast

section \<open>The loss governor\<close>

datatype governor_op = Roll jsnum jsnum | Restart jsnum jsnum

fun governor_apply :: "risk_book \<Rightarrow> governor_op \<Rightarrow> risk_book" where
  "governor_apply b (Roll eq now) = rollIfNewDay eq now b"
| "governor_apply b (Restart eq now) = risk_book_new (Some b) eq now"

lemma governor_streak: "rb_lossStreak (governor_apply b op) = rb_lossStreak b"
  by (cases op) (auto simp: rollIfNewDay_def risk_book_new_def)

lemma governor_run_streak: "rb_lossStreak (run_steps governor_apply b ops) = rb_lossStreak b"
  by (induction ops arbitrary: b) (auto simp: governor_streak)

text \<open>
  A losing streak halts the desk for good: once the streak has reached its limit, no change of day,
  restart from the saved book or restart with another equity clears the halt, so with no position left to
  win, entries stay blocked whatever the time.
\<close>

theorem streak_halt_never_expires:
  assumes "rl_maxLossStreak lims \<le> rb_lossStreak b"
  shows "haltReason lims (run_steps governor_apply b ops) \<noteq> None"
  using assms by (simp add: haltReason_def governor_run_streak Let_def)

theorem streak_halt_never_expires_witness:
  "haltReason (pp_limits demo_plan)
     (run_steps governor_apply \<lparr> rb_day = Fin 1, rb_dayStartEquity = Fin 1000, rb_realizedToday = - Fin 30, rb_lossStreak = 3 \<rparr>
       [Roll (Fin 970) (Fin 500000000), Restart (Fin 970) (Fin 50000000000)]) \<noteq> None"
  using streak_halt_never_expires [of "pp_limits demo_plan"
      "\<lparr> rb_day = Fin 1, rb_dayStartEquity = Fin 1000, rb_realizedToday = - Fin 30, rb_lossStreak = 3 \<rparr>"
      "[Roll (Fin 970) (Fin 500000000), Restart (Fin 970) (Fin 50000000000)]"]
  by (simp add: demo_plan_def)

end
