(* ===== verification/OptionVenue.thy ===== *)
theory OptionVenue
  imports OptionPlanner "HOL-Library.AList"
begin

text \<open>
  The in-process paper venue of the options desk (\<open>LocalOptionsPaperVenue\<close> of \<open>src/options/venues.ts\<close>):
  its order book of remembered answers, its cash and its holdings. An order fills by walking the book handed
  in with it. Maps keep their insertion order as association lists.
\<close>

text \<open>The texts of order ids are built from their parts; the parts are kept as constructors.\<close>

datatype order_id = EntryId string string | AdoptedId string string | ExitId order_id nat

record order_request =
  rq_contract :: option_contract
  rq_qty :: jsnum
  rq_limitPrice :: jsnum
  rq_book :: "(jsnum \<times> jsnum) list"
  rq_indexPrice :: jsnum
  rq_clientOrderId :: order_id

datatype order_status = FILLED | PARTIALLY_FILLED | UNFILLED | REJECTED

datatype venue_reason = NoAskWithinLimit | NoBidWithinLimit | InsufficientCash jsnum jsnum | NoPositionToClose

record order_result =
  or_clientOrderId :: order_id
  or_status :: order_status
  or_filledQty :: jsnum
  or_avgPrice :: jsnum
  or_fee :: jsnum
  or_reason :: "venue_reason option"

record venue_position =
  vp_symbol :: string
  vp_qty :: jsnum
  vp_avgPrice :: jsnum

record venue_holding =
  vh_qty :: jsnum
  vh_avgPrice :: jsnum

record local_venue =
  lv_cash :: jsnum
  lv_held :: "(string \<times> venue_holding) list"
  lv_marks :: "(string \<times> jsnum) list"
  lv_orders :: "(order_id \<times> order_result) list"

definition statusFor :: "jsnum \<Rightarrow> jsnum \<Rightarrow> order_status" where
  "statusFor filled wanted =
     (if filled \<le> 0 then UNFILLED else if filled + Fin (1 / 10 ^ 12) < wanted then PARTIALLY_FILLED else FILLED)"

definition local_venue_new :: "jsnum \<Rightarrow> local_venue option" where
  "local_venue_new startingCash =
     (if \<not> 0 < startingCash then None
      else Some \<lparr> lv_cash = startingCash, lv_held = [], lv_marks = [], lv_orders = [] \<rparr>)"

definition venue_equity :: "local_venue \<Rightarrow> jsnum" where
  "venue_equity v = foldl (\<lambda>value (symbol, pos). value + vh_qty pos *
     (case map_of (lv_marks v) symbol of Some m \<Rightarrow> m | None \<Rightarrow> vh_avgPrice pos)) (lv_cash v) (lv_held v)"

definition venue_positions :: "local_venue \<Rightarrow> venue_position list" where
  "venue_positions v = map (\<lambda>(symbol, p). \<lparr> vp_symbol = symbol, vp_qty = vh_qty p, vp_avgPrice = vh_avgPrice p \<rparr>)
     (filter (\<lambda>(symbol, p). 0 < vh_qty p) (lv_held v))"

definition not_filled :: "order_request \<Rightarrow> order_status \<Rightarrow> venue_reason \<Rightarrow> order_result" where
  "not_filled req status why = \<lparr> or_clientOrderId = rq_clientOrderId req, or_status = status, or_filledQty = 0,
     or_avgPrice = 0, or_fee = 0, or_reason = Some why \<rparr>"

definition remember :: "order_result \<Rightarrow> local_venue \<Rightarrow> local_venue" where
  "remember r v = v\<lparr> lv_orders := AList.update (or_clientOrderId r) r (lv_orders v) \<rparr>"

definition buyToOpen :: "fee_model \<Rightarrow> local_venue \<Rightarrow> order_request \<Rightarrow> order_result \<times> local_venue" where
  "buyToOpen fees v req =
     (case map_of (lv_orders v) (rq_clientOrderId req) of
        Some r \<Rightarrow> (r, v)
      | None \<Rightarrow>
          (let symbol = oc_symbol (rq_contract req);
               fill = walkBook (rq_book req) BuySide (rq_qty req) (rq_limitPrice req) (rq_contract req);
               answer = (\<lambda>r w. (r, remember r w))
           in if bf_qty fill \<le> 0 then answer (not_filled req UNFILLED NoAskWithinLimit) v
              else
                (let fee = optionFee fees (bf_avgPrice fill) (bf_qty fill) (rq_indexPrice req) (oc_unit (rq_contract req));
                     cost = bf_qty fill * bf_avgPrice fill + fee
                 in if lv_cash v < cost then answer (not_filled req REJECTED (InsufficientCash cost (lv_cash v))) v
                    else
                      (let prev = (case map_of (lv_held v) symbol of Some p \<Rightarrow> p | None \<Rightarrow> \<lparr> vh_qty = 0, vh_avgPrice = 0 \<rparr>);
                           qty = vh_qty prev + bf_qty fill;
                           avg = (vh_qty prev * vh_avgPrice prev + bf_qty fill * bf_avgPrice fill) / qty
                       in answer \<lparr> or_clientOrderId = rq_clientOrderId req, or_status = statusFor (bf_qty fill) (rq_qty req),
                              or_filledQty = bf_qty fill, or_avgPrice = bf_avgPrice fill, or_fee = fee, or_reason = None \<rparr>
                            (v\<lparr> lv_cash := lv_cash v - cost,
                                lv_held := AList.update symbol \<lparr> vh_qty = qty, vh_avgPrice = avg \<rparr> (lv_held v) \<rparr>)))))"

definition sellToClose :: "fee_model \<Rightarrow> local_venue \<Rightarrow> order_request \<Rightarrow> order_result \<times> local_venue" where
  "sellToClose fees v req =
     (case map_of (lv_orders v) (rq_clientOrderId req) of
        Some r \<Rightarrow> (r, v)
      | None \<Rightarrow>
          (let symbol = oc_symbol (rq_contract req);
               answer = (\<lambda>r w. (r, remember r w));
               refused = answer (not_filled req REJECTED NoPositionToClose) v
           in case map_of (lv_held v) symbol of
                None \<Rightarrow> refused
              | Some pos \<Rightarrow>
                  if vh_qty pos \<le> 0 then refused
                  else
                    (let wanted = math_min (rq_qty req) (vh_qty pos);
                         fill = walkBook (rq_book req) SellSide wanted (rq_limitPrice req) (rq_contract req)
                     in if bf_qty fill \<le> 0 then answer (not_filled req UNFILLED NoBidWithinLimit) v
                        else
                          (let fee = optionFee fees (bf_avgPrice fill) (bf_qty fill) (rq_indexPrice req) (oc_unit (rq_contract req));
                               rest = toFixed 12 (vh_qty pos - bf_qty fill)
                           in answer \<lparr> or_clientOrderId = rq_clientOrderId req, or_status = statusFor (bf_qty fill) wanted,
                                  or_filledQty = bf_qty fill, or_avgPrice = bf_avgPrice fill, or_fee = fee, or_reason = None \<rparr>
                                (v\<lparr> lv_cash := lv_cash v + (bf_qty fill * bf_avgPrice fill - fee),
                                    lv_held := (if 0 < rest then AList.update symbol \<lparr> vh_qty = rest, vh_avgPrice = vh_avgPrice pos \<rparr> (lv_held v)
                                                else AList.delete symbol (lv_held v)) \<rparr>)))))"

definition findOrder :: "local_venue \<Rightarrow> order_id \<Rightarrow> order_result option" where
  "findOrder v i = map_of (lv_orders v) i"

definition publishMarks :: "(string \<times> jsnum) list \<Rightarrow> local_venue \<Rightarrow> local_venue" where
  "publishMarks marks v = foldl (\<lambda>v (symbol, price). if 0 < price then v\<lparr> lv_marks := AList.update symbol price (lv_marks v) \<rparr> else v) v marks"

section \<open>The snapshot\<close>

definition MAX_REMEMBERED_ORDERS :: nat where "MAX_REMEMBERED_ORDERS = 500"

record venue_state =
  vs_cash :: jsnum
  vs_held :: "(string \<times> venue_holding) list"
  vs_marks :: "(string \<times> jsnum) list"
  vs_orders :: "(order_id \<times> order_result) list"

definition exportState :: "local_venue \<Rightarrow> venue_state" where
  "exportState v = \<lparr> vs_cash = lv_cash v, vs_held = lv_held v, vs_marks = lv_marks v,
     vs_orders = last_n MAX_REMEMBERED_ORDERS (lv_orders v) \<rparr>"

definition set_all :: "('k \<times> 'v) list \<Rightarrow> ('k \<times> 'v) list" where
  "set_all xs = foldl (\<lambda>m (k, v). AList.update k v m) [] xs"

text \<open>\<open>None\<close> is the error of a malformed snapshot; the venue is left as it was.\<close>

definition importState :: "venue_state \<Rightarrow> local_venue option" where
  "importState s =
     (if is_finite (vs_cash s) \<and> (\<forall>(symbol, p)\<in>set (vs_held s). is_finite (vh_qty p) \<and> 0 \<le> vh_qty p \<and> is_finite (vh_avgPrice p))
      then Some \<lparr> lv_cash = vs_cash s, lv_held = set_all (filter (\<lambda>(symbol, p). 0 < vh_qty p) (vs_held s)),
                  lv_marks = set_all (vs_marks s), lv_orders = set_all (vs_orders s) \<rparr>
      else None)"

section \<open>Repeated ids\<close>

datatype desk_order = BuyOrder order_request | SellOrder order_request

fun order_of :: "desk_order \<Rightarrow> order_request" where
  "order_of (BuyOrder r) = r"
| "order_of (SellOrder r) = r"

definition desk_id :: "desk_order \<Rightarrow> order_id" where
  "desk_id d = rq_clientOrderId (order_of d)"

fun desk_submit :: "fee_model \<Rightarrow> local_venue \<Rightarrow> desk_order \<Rightarrow> order_result \<times> local_venue" where
  "desk_submit fees v (BuyOrder r) = buyToOpen fees v r"
| "desk_submit fees v (SellOrder r) = sellToClose fees v r"

lemma remember_orders [simp]: "map_of (lv_orders (remember r v)) = (map_of (lv_orders v))(or_clientOrderId r \<mapsto> r)"
  by (simp add: remember_def update_conv')

lemma remember_frame [simp]:
  "lv_cash (remember r v) = lv_cash v" "lv_held (remember r v) = lv_held v" "lv_marks (remember r v) = lv_marks v"
  by (simp_all add: remember_def)

lemma not_filled_simps [simp]:
  "or_clientOrderId (not_filled req st why) = rq_clientOrderId req" "or_filledQty (not_filled req st why) = 0"
  "or_avgPrice (not_filled req st why) = 0" "or_fee (not_filled req st why) = 0"
  by (simp_all add: not_filled_def)

text \<open>The venue's answers are recorded under the id of the order, whichever side it is on.\<close>

interpretation desk: idempotent_desk "desk_submit fees" desk_id findOrder for fees
proof
  fix v d a
  assume "findOrder v (desk_id d) = Some a"
  then show "desk_submit fees v d = (a, v)"
    by (cases d) (simp_all add: findOrder_def desk_id_def buyToOpen_def sellToClose_def)
next
  fix v d
  show "findOrder (snd (desk_submit fees v d)) (desk_id d) = Some (fst (desk_submit fees v d))"
    by (cases d) (auto simp: findOrder_def desk_id_def buyToOpen_def sellToClose_def Let_def simp del: js_consts split: option.splits)
next
  fix k d v
  assume "k \<noteq> desk_id d"
  then show "findOrder (snd (desk_submit fees v d)) k = findOrder v k"
    by (cases d) (auto simp: findOrder_def desk_id_def buyToOpen_def sellToClose_def Let_def simp del: js_consts split: option.splits)
qed

section \<open>Well-formed books\<close>

text \<open>
  \<open>st\<close> is the lot step of each contract. An order of whole lots on a book of whole lots, with finite index
  and unit; fees that are not negative and capped by the premium.
\<close>

definition request_ok :: "(string \<Rightarrow> real) \<Rightarrow> order_request \<Rightarrow> bool" where
  "request_ok st req \<longleftrightarrow>
     (let c = rq_contract req; s = st (oc_symbol c)
      in oc_qtyStep c = Fin s \<and> 0 < s \<and> s * 10 ^ step_decimals (Fin s) \<in> \<int> \<and> is_finite (oc_minQty c) \<and>
         is_finite (oc_unit c) \<and> 0 \<le> oc_unit c \<and> is_finite (rq_indexPrice req) \<and>
         rq_qty req \<in> range (\<lambda>m. Fin (of_nat m * s)) \<and> (\<forall>l\<in>set (rq_book req). lot_level s l))"

definition fees_ok :: "fee_model \<Rightarrow> bool" where
  "fees_ok fees \<longleftrightarrow> is_finite (fm_rate fees) \<and> 0 \<le> fm_rate fees \<and> is_finite (fm_cap fees) \<and> 0 \<le> fm_cap fees \<and> fm_cap fees \<le> 1"

definition holding_ok :: "(string \<Rightarrow> real) \<Rightarrow> string \<times> venue_holding \<Rightarrow> bool" where
  "holding_ok st h \<longleftrightarrow> 0 < st (fst h) \<and> (\<exists>n. vh_qty (snd h) = Fin (of_nat (Suc n) * st (fst h))) \<and> (\<exists>a\<ge>0. vh_avgPrice (snd h) = Fin a)"

definition keys_distinct :: "local_venue \<Rightarrow> bool" where
  "keys_distinct v \<longleftrightarrow> distinct (map fst (lv_held v)) \<and> distinct (map fst (lv_marks v)) \<and> distinct (map fst (lv_orders v))"

definition venue_ok :: "(string \<Rightarrow> real) \<Rightarrow> local_venue \<Rightarrow> bool" where
  "venue_ok st v \<longleftrightarrow> is_finite (lv_cash v) \<and> 0 \<le> lv_cash v \<and> list_all (holding_ok st) (lv_held v) \<and> keys_distinct v"

lemma take_any:
  assumes "0 < s" and "\<forall>l\<in>set ls. lot_level s l"
  shows "\<exists>j\<le>m. take_levels side L ls (Fin (of_nat m * s)) (Fin f) = Fin (f + of_nat j * s)"
  using assms(2)
proof (induction ls arbitrary: m f)
  case Nil
  then show ?case by (intro exI [of _ 0]) auto
next
  case (Cons l ls)
  then obtain a k where l: "l = (Fin a, Fin (of_nat k * s))" by (auto simp: lot_level_def)
  define t where "t = min k m"
  have t: "min (of_nat k * s) (of_nat m * s) = of_nat t * s" "t \<le> m" using assms(1) by (simp_all add: t_def min_def)
  have rest: "of_nat m * s - of_nat t * s = of_nat (m - t) * s" using t by (simp add: of_nat_diff algebra_simps)
  from Cons.IH [of "m - t" "f + of_nat t * s"] Cons.prems obtain j where
    "j \<le> m - t" "take_levels side L ls (Fin (of_nat (m - t) * s)) (Fin (f + of_nat t * s)) = Fin (f + of_nat t * s + of_nat j * s)"
    by auto
  then show ?case using l t rest
    by (cases "Fin (of_nat m * s) \<le> 0 \<or> (case side of BuySide \<Rightarrow> L < Fin a | SellSide \<Rightarrow> Fin a < L)")
      (auto simp: Let_def algebra_simps intro: exI [of _ 0] exI [of _ "t + j"])
qed

lemma lot_cost_ge:
  assumes "0 < s" and "\<forall>l\<in>set ls. lot_level s l"
  shows "\<exists>c'. lot_cost ls (Fin r) (Fin c) = Fin c' \<and> c \<le> c'"
  using assms(2)
proof (induction ls arbitrary: r c)
  case Nil
  then show ?case by simp
next
  case (Cons l ls)
  then obtain a k where l: "l = (Fin a, Fin (of_nat k * s))" "0 < a" by (auto simp: lot_level_def)
  from Cons obtain c' where "lot_cost ls (Fin (r - min (of_nat k * s) r)) (Fin (c + min (of_nat k * s) r * a)) = Fin c'"
      "c + min (of_nat k * s) r * a \<le> c'" by (metis list.set_intros(2))
  moreover have "0 \<le> min (of_nat k * s) r * a" if "0 < r" using that l(2) assms(1) by (simp add: min_def)
  ultimately show ?case using l by (auto simp: Let_def)
qed

lemma walk_any:
  assumes "0 < s" and "s * 10 ^ step_decimals (Fin s) \<in> \<int>" and "\<forall>l\<in>set ls. lot_level s l"
    and "oc_qtyStep c = Fin s" and "is_finite (oc_minQty c)"
    and "\<not> bf_qty (walkBook ls side (Fin (of_nat m * s)) L c) \<le> 0"
  shows "\<exists>j a. bf_qty (walkBook ls side (Fin (of_nat m * s)) L c) = Fin (of_nat j * s)
     \<and> bf_avgPrice (walkBook ls side (Fin (of_nat m * s)) L c) = Fin a \<and> 0 < j \<and> j \<le> m \<and> 0 \<le> a"
proof -
  from take_any [OF assms(1,3), of m side L 0] obtain j where
    j: "j \<le> m" "take_levels side L ls (Fin (of_nat m * s)) 0 = Fin (of_nat j * s)" by auto
  have "\<lfloor>real j + 1 / 10 ^ 9\<rfloor> = int j" by (intro floor_unique) auto
  with assms(1,2) have lots: "opt_floorToStep (Fin (of_nat j * s)) (Fin s) = Fin (of_nat j * s)"
    by (cases j) (auto simp: opt_floor_grid zero_less_mult_iff elim!: Ints_cases)
  from lot_cost_ge [OF assms(1,3), of "of_nat j * s" 0] obtain c' where
    c': "lot_cost ls (Fin (of_nat j * s)) 0 = Fin c'" "0 \<le> c'" by auto
  from assms(4-6) j(2) lots have pos: "0 < of_nat j * s" "\<not> Fin (of_nat j * s) < oc_minQty c"
    by (auto simp: walkBook_def Let_def split: if_splits)
  then have "0 < j" using assms(1) by (simp add: zero_less_mult_iff)
  have "walkBook ls side (Fin (of_nat m * s)) L c
      = \<lparr> bf_qty = Fin (of_nat j * s), bf_avgPrice = Fin (c' / (of_nat j * s)),
          bf_partial = (Fin (of_nat j * s) + Fin (1 / 10 ^ 12) < Fin (of_nat m * s)) \<rparr>"
    using assms(4) j(2) lots c'(1) pos unfolding walkBook_def Let_def by auto
  then show ?thesis using c'(2) pos(1) j(1) \<open>0 < j\<close> by auto
qed

lemma fee_bounds:
  assumes "fees_ok fees" and "is_finite ix" and "is_finite u" and "0 \<le> u" and "0 < q" and "0 \<le> a"
  shows "\<exists>f. optionFee fees (Fin a) (Fin q) ix u = Fin f \<and> 0 \<le> f \<and> f \<le> q * a"
proof -
  from assms(1-3) obtain rate cap i u' where
    r: "fees = \<lparr> fm_rate = Fin rate, fm_cap = Fin cap \<rparr>" "ix = Fin i" "u = Fin u'" "0 \<le> rate" "0 \<le> cap" "cap \<le> 1"
    by (cases fees) (auto simp: fees_ok_def is_finite_iff)
  have "unit_fee rate cap i u' a \<le> cap * a" by (auto simp: unit_fee_def)
  also have "\<dots> \<le> 1 * a" using r(6) assms(6) by (intro mult_right_mono)
  finally have "q * unit_fee rate cap i u' a \<le> q * a" using assms(5) by (intro mult_left_mono) auto
  moreover have "0 \<le> unit_fee rate cap i u' a" using r assms(4,6) by (simp add: unit_fee_nonneg)
  ultimately show ?thesis using assms(5,6) r(1-3) by (simp add: optionFee_unit)
qed

lemma toFixed12_grid:
  assumes "s * 10 ^ step_decimals (Fin s) \<in> \<int>"
  shows "toFixed 12 (Fin (of_int n * s)) = Fin (of_int n * s)"
proof -
  from assms obtain k where k: "s * 10 ^ step_decimals (Fin s) = of_int k" by (auto elim: Ints_cases)
  have "step_decimals (Fin s) \<le> 12" by simp
  then have "(10::real) ^ 12 = 10 ^ step_decimals (Fin s) * 10 ^ (12 - step_decimals (Fin s))"
    by (simp only: power_add [symmetric] le_add_diff_inverse)
  then have "s * 10 ^ 12 = s * 10 ^ step_decimals (Fin s) * 10 ^ (12 - step_decimals (Fin s))" by (simp only: mult.assoc)
  then have "s * 10 ^ 12 = of_int (k * 10 ^ (12 - step_decimals (Fin s)))" unfolding k by simp
  then show ?thesis by (rule toFixed_grid)
qed

lemma held_update_ok:
  "list_all (holding_ok st) hs \<Longrightarrow> holding_ok st (k, h) \<Longrightarrow> list_all (holding_ok st) (AList.update k h hs)"
  using set_update_subset [of k h hs] by (auto simp: list_all_iff)

lemma held_delete_ok: "list_all (holding_ok st) hs \<Longrightarrow> list_all (holding_ok st) (AList.delete k hs)"
  using set_delete_subset [of k hs] by (auto simp: list_all_iff)

lemma remember_ok: "venue_ok st (remember r v) = venue_ok st v" if "keys_distinct v"
  using that by (auto simp: venue_ok_def keys_distinct_def remember_def distinct_update)

lemma buy_ok:
  assumes "fees_ok fees" and "request_ok st req" and "venue_ok st v"
  shows "venue_ok st (snd (buyToOpen fees v req))"
proof (cases "map_of (lv_orders v) (rq_clientOrderId req)")
  case (Some r)
  with assms(3) show ?thesis by (simp add: buyToOpen_def)
next
  case None
  have kd: "keys_distinct v" using assms(3) by (simp add: venue_ok_def)
  let ?c = "rq_contract req" and ?s = "st (oc_symbol (rq_contract req))"
  let ?F = "walkBook (rq_book req) BuySide (rq_qty req) (rq_limitPrice req) ?c"
  let ?fee = "optionFee fees (bf_avgPrice ?F) (bf_qty ?F) (rq_indexPrice req) (oc_unit ?c)"
  from assms(2) obtain m where q: "rq_qty req = Fin (of_nat m * ?s)" by (auto simp: request_ok_def Let_def)
  show ?thesis
  proof (cases "bf_qty ?F \<le> 0 \<or> lv_cash v < bf_qty ?F * bf_avgPrice ?F + ?fee")
    case True
    with None assms(3) kd show ?thesis by (auto simp: buyToOpen_def Let_def remember_ok simp del: js_consts)
  next
    case False
    with walk_any [of ?s "rq_book req" ?c BuySide m "rq_limitPrice req"] assms(2) q obtain j a where
      F: "bf_qty ?F = Fin (of_nat j * ?s)" "bf_avgPrice ?F = Fin a" "0 < j" "0 \<le> a" "0 < ?s"
      by (auto simp: request_ok_def Let_def)
    then have pos: "0 < of_nat j * ?s" by simp
    from fee_bounds [OF assms(1) _ _ _ pos F(4), of "rq_indexPrice req" "oc_unit ?c"] assms(2) F obtain f where
      f: "optionFee fees (Fin a) (Fin (of_nat j * ?s)) (rq_indexPrice req) (oc_unit ?c) = Fin f" by (auto simp: request_ok_def Let_def)
    from assms(3) obtain c where c: "lv_cash v = Fin c" by (auto simp: venue_ok_def is_finite_iff)
    with False F f have cash: "of_nat j * ?s * a + f \<le> c" by simp
    obtain n b where n: "(case map_of (lv_held v) (oc_symbol ?c) of Some p \<Rightarrow> p | None \<Rightarrow> \<lparr> vh_qty = 0, vh_avgPrice = 0 \<rparr>)
        = \<lparr> vh_qty = Fin (of_nat n * ?s), vh_avgPrice = Fin b \<rparr>" and b: "0 \<le> b"
    proof (cases "map_of (lv_held v) (oc_symbol ?c)")
      case None
      then show ?thesis using that [of 0 0] by simp
    next
      case (Some p)
      then have "holding_ok st (oc_symbol ?c, p)" using assms(3) by (auto simp: venue_ok_def list_all_iff dest: map_of_SomeD)
      then show ?thesis using that Some by (cases p) (auto simp: holding_ok_def simp del: of_nat_Suc)
    qed
    have "0 < of_nat n * ?s + of_nat j * ?s" using pos F(5) by (intro add_nonneg_pos) auto
    then have "0 \<le> (of_nat n * ?s * b + of_nat j * ?s * a) / (of_nat n * ?s + of_nat j * ?s)"
      using b F(4,5) by (intro divide_nonneg_pos add_nonneg_nonneg mult_nonneg_nonneg) auto
    moreover have "of_nat n * ?s + of_nat j * ?s = of_nat (Suc (n + j - 1)) * ?s" using F(3) by (simp add: algebra_simps)
    ultimately have "holding_ok st (oc_symbol ?c, \<lparr> vh_qty = Fin (of_nat n * ?s + of_nat j * ?s),
        vh_avgPrice = Fin ((of_nat n * ?s * b + of_nat j * ?s * a) / (of_nat n * ?s + of_nat j * ?s)) \<rparr>)"
      using F(5) unfolding holding_ok_def by auto
    from held_update_ok [OF _ this] have held: "list_all (holding_ok st) (lv_held v) \<Longrightarrow> list_all (holding_ok st)
       (AList.update (oc_symbol ?c) \<lparr> vh_qty = Fin (of_nat n * ?s + of_nat j * ?s),
        vh_avgPrice = Fin ((of_nat n * ?s * b + of_nat j * ?s * a) / (of_nat n * ?s + of_nat j * ?s)) \<rparr> (lv_held v))" .
    have "snd (buyToOpen fees v req) = remember \<lparr> or_clientOrderId = rq_clientOrderId req,
        or_status = statusFor (Fin (of_nat j * ?s)) (rq_qty req), or_filledQty = Fin (of_nat j * ?s), or_avgPrice = Fin a, or_fee = Fin f, or_reason = None \<rparr>
      (v\<lparr> lv_cash := Fin (c - (of_nat j * ?s * a + f)),
          lv_held := AList.update (oc_symbol ?c) \<lparr> vh_qty = Fin (of_nat n * ?s + of_nat j * ?s),
        vh_avgPrice = Fin ((of_nat n * ?s * b + of_nat j * ?s * a) / (of_nat n * ?s + of_nat j * ?s)) \<rparr> (lv_held v) \<rparr>)"
      using False \<open>0 < of_nat n * ?s + of_nat j * ?s\<close> unfolding buyToOpen_def Let_def None option.case n F f c by auto
    moreover have "keys_distinct (v\<lparr> lv_cash := x, lv_held := AList.update k h (lv_held v) \<rparr>)" for x k h
      using kd by (simp add: keys_distinct_def distinct_update)
    ultimately show ?thesis using held assms(3) cash by (simp add: remember_ok) (simp add: venue_ok_def)
  qed
qed

lemma sell_ok:
  assumes "fees_ok fees" and "request_ok st req" and "venue_ok st v"
  shows "venue_ok st (snd (sellToClose fees v req))"
proof (cases "map_of (lv_orders v) (rq_clientOrderId req)")
  case (Some r)
  with assms(3) show ?thesis by (simp add: sellToClose_def)
next
  case None
  have kd: "keys_distinct v" using assms(3) by (simp add: venue_ok_def)
  let ?c = "rq_contract req" and ?s = "st (oc_symbol (rq_contract req))"
  from assms(2) obtain m where q: "rq_qty req = Fin (of_nat m * ?s)" and s: "0 < ?s" by (auto simp: request_ok_def Let_def)
  show ?thesis
  proof (cases "map_of (lv_held v) (oc_symbol ?c)")
    case none: None
    with None assms(3) kd show ?thesis by (auto simp: sellToClose_def Let_def remember_ok simp del: js_consts)
  next
    case (Some p)
    then have "holding_ok st (oc_symbol ?c, p)" using assms(3) by (auto simp: venue_ok_def list_all_iff dest: map_of_SomeD)
    then obtain n b where p: "p = \<lparr> vh_qty = Fin (of_nat (Suc n) * ?s), vh_avgPrice = Fin b \<rparr>" and b: "0 \<le> b"
      by (cases p) (auto simp: holding_ok_def simp del: of_nat_Suc)
    define w where "w = min m (Suc n)"
    have w: "math_min (rq_qty req) (Fin (of_nat (Suc n) * ?s)) = Fin (of_nat w * ?s)"
      using q s by (simp add: w_def min_def del: of_nat_Suc)
    let ?F = "walkBook (rq_book req) SellSide (Fin (of_nat w * ?s)) (rq_limitPrice req) ?c"
    have alive: "\<not> Fin (of_nat (Suc n) * ?s) \<le> 0" using s by (simp add: not_le del: of_nat_Suc)
    show ?thesis
    proof (cases "bf_qty ?F \<le> 0")
      case True
      with None Some p w alive assms(3) kd show ?thesis
        by (auto simp: sellToClose_def Let_def remember_ok simp del: js_consts of_nat_Suc)
    next
      case False
      with walk_any [of ?s "rq_book req" ?c SellSide w "rq_limitPrice req"] assms(2) obtain j a where
        F: "bf_qty ?F = Fin (of_nat j * ?s)" "bf_avgPrice ?F = Fin a" "0 < j" "j \<le> w" "0 \<le> a"
        by (auto simp: request_ok_def Let_def)
      then have pos: "0 < of_nat j * ?s" using s by simp
      from fee_bounds [OF assms(1) _ _ _ pos F(5), of "rq_indexPrice req" "oc_unit ?c"] assms(2) obtain f where
        f: "optionFee fees (Fin a) (Fin (of_nat j * ?s)) (rq_indexPrice req) (oc_unit ?c) = Fin f" "f \<le> of_nat j * ?s * a"
        by (auto simp: request_ok_def Let_def)
      from assms(3) obtain c where c: "lv_cash v = Fin c" "0 \<le> c" by (auto simp: venue_ok_def is_finite_iff)
      have jn: "j \<le> Suc n" using F(4) by (simp add: w_def)
      have "of_nat (Suc n) * ?s - of_nat j * ?s = of_int (int (Suc n - j)) * ?s"
        using jn by (simp add: of_nat_diff left_diff_distrib)
      with toFixed12_grid [of ?s "int (Suc n - j)"] assms(2)
      have rest0: "toFixed 12 (Fin (of_nat (Suc n) * ?s) - Fin (of_nat j * ?s)) = Fin (of_nat (Suc n - j) * ?s)"
        by (simp add: request_ok_def Let_def del: of_nat_Suc)
      define r where "r = Suc n - j"
      have rest: "toFixed 12 (Fin (of_nat (Suc n) * ?s) - Fin (of_nat j * ?s)) = Fin (of_nat r * ?s)"
        unfolding r_def by (rule rest0)
      define held where "held = (if 0 < Fin (of_nat r * ?s)
         then AList.update (oc_symbol ?c) \<lparr> vh_qty = Fin (of_nat r * ?s), vh_avgPrice = Fin b \<rparr> (lv_held v)
         else AList.delete (oc_symbol ?c) (lv_held v))"
      have "holding_ok st (oc_symbol ?c, \<lparr> vh_qty = Fin (of_nat r * ?s), vh_avgPrice = Fin b \<rparr>)"
        if "0 < Fin (of_nat r * ?s)"
        using that s b by (auto simp: holding_ok_def zero_less_mult_iff intro!: exI [of _ "r - 1"])
      then have "list_all (holding_ok st) held"
        using assms(3) by (auto simp: held_def venue_ok_def held_update_ok held_delete_ok)
      moreover have "distinct (map fst held)"
        using kd by (auto simp: held_def keys_distinct_def distinct_update distinct_delete)
      moreover have "snd (sellToClose fees v req) = remember \<lparr> or_clientOrderId = rq_clientOrderId req,
          or_status = statusFor (Fin (of_nat j * ?s)) (Fin (of_nat w * ?s)), or_filledQty = Fin (of_nat j * ?s), or_avgPrice = Fin a,
          or_fee = Fin f, or_reason = None \<rparr> (v\<lparr> lv_cash := Fin (c + (of_nat j * ?s * a - f)), lv_held := held \<rparr>)"
        using False alive unfolding sellToClose_def Let_def None Some option.case p venue_holding.simps w F f(1) c(1) rest held_def
        by simp
      ultimately show ?thesis using assms(3) kd c f(2)
        by (simp add: remember_ok keys_distinct_def) (simp add: venue_ok_def keys_distinct_def)
    qed
  qed
qed

datatype venue_op = Desk desk_order | Marks "(string \<times> jsnum) list"

fun venue_apply :: "fee_model \<Rightarrow> local_venue \<Rightarrow> venue_op \<Rightarrow> local_venue" where
  "venue_apply fees v (Desk d) = snd (desk_submit fees v d)"
| "venue_apply fees v (Marks ms) = publishMarks ms v"

fun venue_op_ok :: "(string \<Rightarrow> real) \<Rightarrow> venue_op \<Rightarrow> bool" where
  "venue_op_ok st (Desk d) = request_ok st (order_of d)"
| "venue_op_ok st (Marks ms) = True"

lemma publishMarks_frame:
  "lv_cash (publishMarks ms v) = lv_cash v \<and> lv_held (publishMarks ms v) = lv_held v \<and> lv_orders (publishMarks ms v) = lv_orders v
   \<and> (distinct (map fst (lv_marks v)) \<longrightarrow> distinct (map fst (lv_marks (publishMarks ms v))))"
proof (induction ms arbitrary: v)
  case Nil
  then show ?case by (simp add: publishMarks_def)
next
  case (Cons m ms)
  obtain k p where "m = (k, p)" by (cases m)
  with Cons [of "v\<lparr> lv_marks := AList.update k p (lv_marks v) \<rparr>"] Cons [of v]
  show ?case by (auto simp: publishMarks_def distinct_update)
qed

lemma venue_apply_ok: "fees_ok fees \<Longrightarrow> venue_op_ok st op \<Longrightarrow> venue_ok st v \<Longrightarrow> venue_ok st (venue_apply fees v op)"
proof (cases op)
  case (Desk d)
  then show "fees_ok fees \<Longrightarrow> venue_op_ok st op \<Longrightarrow> venue_ok st v \<Longrightarrow> venue_ok st (venue_apply fees v op)"
    by (cases d) (simp_all add: buy_ok sell_ok)
next
  case (Marks ms)
  then show "fees_ok fees \<Longrightarrow> venue_op_ok st op \<Longrightarrow> venue_ok st v \<Longrightarrow> venue_ok st (venue_apply fees v op)"
    using publishMarks_frame [of ms v] by (simp add: venue_ok_def keys_distinct_def)
qed

lemma venue_run_ok:
  "fees_ok fees \<Longrightarrow> list_all (venue_op_ok st) ops \<Longrightarrow> venue_ok st v \<Longrightarrow> venue_ok st (run_steps (venue_apply fees) v ops)"
  by (induction ops arbitrary: v) (auto intro: venue_apply_ok)

lemma venue_new_ok: "local_venue_new (Fin c) = Some v \<Longrightarrow> venue_ok st v"
  by (auto simp: local_venue_new_def venue_ok_def keys_distinct_def split: if_splits)

section \<open>Properties\<close>

text \<open>What an order moves the cash by, according to its answer.\<close>

fun cash_flow :: "desk_order \<Rightarrow> order_result \<Rightarrow> jsnum" where
  "cash_flow (BuyOrder q) r = - (or_filledQty r * or_avgPrice r + or_fee r)"
| "cash_flow (SellOrder q) r = or_filledQty r * or_avgPrice r - or_fee r"

text \<open>The flows of the orders whose ids were new when they arrived.\<close>

fun ledger :: "fee_model \<Rightarrow> local_venue \<Rightarrow> venue_op list \<Rightarrow> jsnum" where
  "ledger fees v [] = 0"
| "ledger fees v (Desk d # ops) =
     (if findOrder v (desk_id d) = None then cash_flow d (fst (desk_submit fees v d)) else 0)
     + ledger fees (venue_apply fees v (Desk d)) ops"
| "ledger fees v (Marks ms # ops) = ledger fees (venue_apply fees v (Marks ms)) ops"

lemma submit_cash:
  "lv_cash (snd (desk_submit fees v d)) =
     lv_cash v + (if findOrder v (desk_id d) = None then cash_flow d (fst (desk_submit fees v d)) else 0)"
  by (cases d) (auto simp: findOrder_def desk_id_def buyToOpen_def sellToClose_def Let_def minus_jsnum_def split: option.splits)

text \<open>
  The local venue's cash is its ledger: over any orders, repeated or not, and any mark updates, the
  cash moves by exactly what the answers of the first submissions say, premium and fee paid for a buy,
  proceeds less fee received for a sale.
\<close>

theorem venue_cash_is_ledger: "lv_cash (run_steps (venue_apply fees) v ops) = lv_cash v + ledger fees v ops"
proof (induction ops arbitrary: v)
  case Nil
  then show ?case by simp
next
  case (Cons op ops)
  then show ?case
    by (cases op) (simp_all add: submit_cash publishMarks_frame add.assoc del: desk_submit.simps js_consts)
qed

text \<open>
  C31. The local venue is never short and never overdrawn: from its opening with positive cash, after any
  orders of whole lots on books of whole lots with fees capped by the premium, the cash is not negative and
  every holding is a positive quantity at a price that is not negative.
\<close>

theorem venue_never_short_or_overdrawn:
  assumes "fees_ok fees" and "local_venue_new (Fin c) = Some v" and "list_all (venue_op_ok st) ops"
  shows "0 \<le> lv_cash (run_steps (venue_apply fees) v ops)
    \<and> (\<forall>(symbol, h)\<in>set (lv_held (run_steps (venue_apply fees) v ops)). 0 < vh_qty h \<and> 0 \<le> vh_avgPrice h)"
proof -
  have "venue_ok st (run_steps (venue_apply fees) v ops)"
    using venue_run_ok [OF assms(1,3) venue_new_ok [OF assms(2)]] .
  moreover have "0 < vh_qty h \<and> 0 \<le> vh_avgPrice h" if "holding_ok st (symbol, h)" for symbol h
    using that by (auto simp: holding_ok_def simp del: of_nat_Suc)
  ultimately show ?thesis by (auto simp: venue_ok_def list_all_iff simp del: js_consts)
qed

lemma set_all_distinct: "distinct (map fst xs) \<Longrightarrow> set_all xs = xs"
proof -
  have "foldl (\<lambda>m (k, v). AList.update k v m) m xs = m @ xs" if "distinct (map fst (m @ xs))" for m
    using that
  proof (induction xs arbitrary: m)
    case Nil
    then show ?case by simp
  next
    case (Cons x xs)
    obtain k v where x: "x = (k, v)" by (cases x)
    with Cons.prems have "k \<notin> fst ` set m" by auto
    then have "AList.update k v m = m @ [(k, v)]" by (induction m) auto
    with Cons.IH [of "m @ [x]"] Cons.prems x show ?case by simp
  qed
  from this [of "[]"] show "distinct (map fst xs) \<Longrightarrow> set_all xs = xs" by (simp add: set_all_def)
qed

text \<open>
  C32. A snapshot restores the venue: a venue reached from its opening by any well-formed orders and marks,
  with no more orders than a snapshot remembers, is read back from its exported state exactly as it was.
\<close>

theorem venue_snapshot_roundtrip:
  assumes "fees_ok fees" and "local_venue_new (Fin c) = Some v0" and "list_all (venue_op_ok st) ops"
    and "v = run_steps (venue_apply fees) v0 ops" and "length (lv_orders v) \<le> MAX_REMEMBERED_ORDERS"
  shows "importState (exportState v) = Some v"
proof -
  have ok: "venue_ok st v" using venue_run_ok [OF assms(1,3) venue_new_ok [OF assms(2)]] assms(4) by simp
  have h: "is_finite (vh_qty h) \<and> 0 < vh_qty h \<and> is_finite (vh_avgPrice h)" if "(symbol, h) \<in> set (lv_held v)" for symbol h
  proof -
    from ok that have "holding_ok st (symbol, h)" by (auto simp: venue_ok_def list_all_iff)
    then show ?thesis by (auto simp: holding_ok_def simp del: of_nat_Suc)
  qed
  then have "filter (\<lambda>(symbol, p). 0 < vh_qty p) (lv_held v) = lv_held v" by (auto simp: filter_id_conv)
  moreover have "last_n MAX_REMEMBERED_ORDERS (lv_orders v) = lv_orders v" using assms(5) by (simp add: last_n_def)
  moreover have "\<forall>(symbol, p)\<in>set (lv_held v). is_finite (vh_qty p) \<and> 0 \<le> vh_qty p \<and> is_finite (vh_avgPrice p)"
    using h js_lt_imp_le by blast
  ultimately show ?thesis using ok
    by (simp add: importState_def exportState_def venue_ok_def keys_distinct_def set_all_distinct del: js_consts)
qed

text \<open>
  An order resent with its id fills once: after an order and any others, submitting its id again, on
  either side and whatever it asks, returns the first answer and leaves the venue as it was.
\<close>

theorem resent_order_fills_once:
  assumes "desk_id d' = desk_id d"
  shows "desk_submit fees (run_steps (\<lambda>v d. snd (desk_submit fees v d)) (snd (desk_submit fees v d)) ds) d'
    = (fst (desk_submit fees v d), run_steps (\<lambda>v d. snd (desk_submit fees v d)) (snd (desk_submit fees v d)) ds)"
  by (rule desk.resubmission_is_free [OF assms])

section \<open>Witnesses\<close>

definition demo_fees :: fee_model where "demo_fees = \<lparr> fm_rate = Fin 0, fm_cap = Fin 1 \<rparr>"

definition demo_request :: "nat \<Rightarrow> order_request" where
  "demo_request n = \<lparr> rq_contract = pp_contract demo_plan, rq_qty = Fin 2, rq_limitPrice = Fin 10, rq_book = [(Fin 10, Fin 3)],
     rq_indexPrice = Fin 100, rq_clientOrderId = ExitId (EntryId ''BTC-C'' ''1'') n \<rparr>"

definition demo_venue :: local_venue where
  "demo_venue = \<lparr> lv_cash = Fin 100, lv_held = [], lv_marks = [], lv_orders = [] \<rparr>"

lemma demo_venue_new: "local_venue_new (Fin 100) = Some demo_venue"
  by (simp add: local_venue_new_def demo_venue_def)

lemma demo_fees_ok: "fees_ok demo_fees"
  by (simp add: fees_ok_def demo_fees_def)

lemma demo_ops_venue_ok: "list_all (venue_op_ok (\<lambda>s. 1)) [Desk (BuyOrder (demo_request 1)), Marks [(''BTC-C'', Fin 11)]]"
  by (auto simp: request_ok_def demo_request_def demo_plan_def lot_level_def Let_def image_iff intro: exI [of _ 2] exI [of _ 3])

lemma demo_lots: "\<lfloor>2 + 1 / 1000000000 :: real\<rfloor> = 2" "\<lfloor>2000000001 / 1000000000 :: real\<rfloor> = 2"
  by (intro floor_unique; simp)+

lemma demo_buy: "fst (buyToOpen demo_fees demo_venue (demo_request 1)) = \<lparr> or_clientOrderId = rq_clientOrderId (demo_request 1),
    or_status = FILLED, or_filledQty = Fin 2, or_avgPrice = Fin 10, or_fee = Fin 0, or_reason = None \<rparr>"
  using round_away_of_int [of 200] demo_lots
  by (simp add: buyToOpen_def demo_venue_def demo_request_def demo_plan_def demo_fees_def walkBook_def opt_floorToStep_def LOT_EPS_def
      optionFee_def statusFor_def Let_def)

theorem venue_never_short_or_overdrawn_witness:
  "0 \<le> lv_cash (run_steps (venue_apply demo_fees) demo_venue [Desk (BuyOrder (demo_request 1)), Marks [(''BTC-C'', Fin 11)]])"
  using venue_never_short_or_overdrawn [OF demo_fees_ok demo_venue_new demo_ops_venue_ok] by blast

theorem venue_snapshot_roundtrip_witness:
  "importState (exportState (run_steps (venue_apply demo_fees) demo_venue [Desk (BuyOrder (demo_request 1)), Marks [(''BTC-C'', Fin 11)]]))
   = Some (run_steps (venue_apply demo_fees) demo_venue [Desk (BuyOrder (demo_request 1)), Marks [(''BTC-C'', Fin 11)]])"
proof (rule venue_snapshot_roundtrip [OF demo_fees_ok demo_venue_new demo_ops_venue_ok refl])
  show "length (lv_orders (run_steps (venue_apply demo_fees) demo_venue [Desk (BuyOrder (demo_request 1)), Marks [(''BTC-C'', Fin 11)]]))
      \<le> MAX_REMEMBERED_ORDERS"
    by (simp add: publishMarks_frame buyToOpen_def Let_def MAX_REMEMBERED_ORDERS_def demo_venue_def remember_def)
qed

theorem resent_order_fills_once_witness:
  "fst (desk_submit demo_fees (run_steps (\<lambda>v d. snd (desk_submit demo_fees v d)) (snd (desk_submit demo_fees demo_venue (BuyOrder (demo_request 1))))
      [SellOrder (demo_request 2)]) (BuyOrder (demo_request 1)))
   = \<lparr> or_clientOrderId = rq_clientOrderId (demo_request 1), or_status = FILLED, or_filledQty = Fin 2, or_avgPrice = Fin 10,
       or_fee = Fin 0, or_reason = None \<rparr>"
  using resent_order_fills_once [of "BuyOrder (demo_request 1)" "BuyOrder (demo_request 1)" demo_fees demo_venue "[SellOrder (demo_request 2)]"]
    demo_buy by (simp del: js_consts)

end
