(* ===== verification/OptionsEngine.thy ===== *)
theory OptionsEngine
  imports OptionVenue
begin

text \<open>
  The long-only options engine (\<open>src/options/OptionsBuyingEngine.ts\<close>, state in \<open>src/options/stateStore.ts\<close>):
  one machine per underlying, its entry, exit and reconciliation passes. What the chain, the direction engine,
  the selector, the vetoer and the venue answer, and the clock, are inputs of a pass (\<open>pass_input\<close>); the calls
  the engine makes are appended to \<open>oe_calls\<close> in order, saves of the state file included (a save is taken to
  succeed; in the code one that throws ends the pass before the order is sent). The journal, the notes, the log and the
  published marks are left out.
\<close>

section \<open>State\<close>

record pending_entry =
  pn_clientOrderId :: order_id
  pn_contract :: option_contract
  pn_qty :: jsnum
  pn_limitPrice :: jsnum
  pn_stopPct :: jsnum
  pn_targetPct :: jsnum
  pn_submittedAt :: jsnum

record open_option_position =
  op_contract :: option_contract
  op_qty :: jsnum
  op_entryPrice :: jsnum
  op_entryFee :: jsnum
  op_entryClientOrderId :: order_id
  op_leg :: managed_leg
  op_exitReason :: "option_exit_reason option"
  op_exitAttempts :: nat
  op_unresolvedExitId :: "order_id option"
  op_closedQty :: jsnum
  op_exitProceeds :: jsnum
  op_exitFees :: jsnum

record underlying_slot =
  us_state :: option_state
  us_updatedAt :: jsnum
  us_cooldownUntil :: jsnum
  us_pendingEntry :: "pending_entry option"
  us_position :: "open_option_position option"

definition emptySlot :: "jsnum \<Rightarrow> underlying_slot" where
  "emptySlot now = \<lparr> us_state = IDLE, us_updatedAt = now, us_cooldownUntil = 0, us_pendingEntry = None, us_position = None \<rparr>"

datatype engine_call =
    Persisted "(string \<times> underlying_slot) list" risk_book
  | BuySent order_id
  | SellSent order_id
  | FindSent order_id

datatype engine_error =
    IllegalTransition option_state option_event
  | ContextFailed | ChainFailed | SelectionFailed | VetoFailed | QuoteFailed
  | NoPendingEntry | PositionsFailed | NoFillPrice string jsnum
  | WithoutPosition option_state | FindFailed

record options_engine =
  oe_slots :: "(string \<times> underlying_slot) list"
  oe_riskBook :: risk_book
  oe_calls :: "engine_call list"

type_synonym pass_result = "(engine_error \<times> options_engine) + options_engine"

text \<open>An error ends the pass where it is thrown; the state keeps what was already changed.\<close>

fun and_then :: "pass_result \<Rightarrow> (options_engine \<Rightarrow> pass_result) \<Rightarrow> pass_result" where
  "and_then (Inl e) f = Inl e"
| "and_then (Inr s) f = f s"

record options_config =
  cf_underlyings :: "string list"
  cf_stopPct :: jsnum
  cf_targetPct :: jsnum
  cf_exits :: exit_limits
  cf_quoteStaleMs :: jsnum
  cf_indexStaleMs :: jsnum
  cf_risk :: option_risk_limits
  cf_fees :: fee_model
  cf_cooldownMs :: jsnum
  cf_canExecute :: bool

record direction_view =
  dv_right :: "option_right option"
  dv_realizedVol :: "jsnum option"
  dv_atr1h :: "jsnum option"

datatype context_answer = StaleContext | ContextError | Context direction_view

datatype selection_answer = SelectionError | NotSelected | Selected option_contract option_quote

datatype veto_answer = NoVetoer | VetoError | Veto | Confirm

text \<open>
  What one pass over one underlying is told. The clock is read after every wait; the readings that decide
  anything have a field each.
\<close>

record pass_input =
  pa_now :: jsnum
  pa_equity :: "jsnum option"
  pa_positions :: "venue_position list option"
  pa_halted :: bool
  pa_context :: context_answer
  pa_index :: "(jsnum \<times> jsnum) option"
  pa_indexNow :: jsnum
  pa_selection :: selection_answer
  pa_veto :: veto_answer
  pa_freshQuote :: "option_quote option"
  pa_newId :: string
  pa_submitNow :: jsnum
  pa_buyAnswer :: "order_result option"
  pa_found :: "order_result option option"
  pa_rereadPositions :: "venue_position list option"
  pa_resultNow :: jsnum
  pa_quote :: "option_quote option"
  pa_direction :: "option_right option"
  pa_evalNow :: jsnum
  pa_exitNow :: jsnum
  pa_exitIndex :: "jsnum option"
  pa_sellAnswer :: "order_result option"
  pa_closeNow :: jsnum

definition EPS :: jsnum where "EPS = Fin (1 / 10 ^ 12)"

definition slot :: "string \<Rightarrow> jsnum \<Rightarrow> options_engine \<Rightarrow> underlying_slot" where
  "slot u now s = (case map_of (oe_slots s) u of Some x \<Rightarrow> x | None \<Rightarrow> emptySlot now)"

definition put_slot :: "string \<Rightarrow> underlying_slot \<Rightarrow> options_engine \<Rightarrow> options_engine" where
  "put_slot u x s = s\<lparr> oe_slots := AList.update u x (oe_slots s) \<rparr>"

definition note_call :: "engine_call \<Rightarrow> options_engine \<Rightarrow> options_engine" where
  "note_call c s = s\<lparr> oe_calls := oe_calls s @ [c] \<rparr>"

definition persist :: "options_engine \<Rightarrow> options_engine" where
  "persist s = note_call (Persisted (oe_slots s) (oe_riskBook s)) s"

definition fire :: "string \<Rightarrow> option_event \<Rightarrow> jsnum \<Rightarrow> options_engine \<Rightarrow> pass_result" where
  "fire u ev now s =
     (let x = slot u now s
      in case option_transition (us_state x) ev of
           None \<Rightarrow> Inl (IllegalTransition (us_state x) ev, s)
         | Some t \<Rightarrow> Inr (put_slot u (x\<lparr> us_state := t, us_updatedAt := now \<rparr>) s))"

definition reject :: "string \<Rightarrow> jsnum \<Rightarrow> options_engine \<Rightarrow> pass_result" where
  "reject u now s = fire u REJECT now s"

section \<open>Entry\<close>

fun add_exposure :: "open_exposure \<Rightarrow> underlying_slot \<Rightarrow> open_exposure" where
  "add_exposure e x =
     (case us_position x of
        Some p \<Rightarrow> \<lparr> ox_premiumAtRisk = ox_premiumAtRisk e + op_qty p * op_entryPrice p, ox_openPositions = ox_openPositions e + 1 \<rparr>
      | None \<Rightarrow>
          (case us_pendingEntry x of
             Some q \<Rightarrow> \<lparr> ox_premiumAtRisk = ox_premiumAtRisk e + pn_qty q * pn_limitPrice q, ox_openPositions = ox_openPositions e + 1 \<rparr>
           | None \<Rightarrow> e))"

definition exposure :: "options_engine \<Rightarrow> open_exposure" where
  "exposure s = foldl add_exposure \<lparr> ox_premiumAtRisk = 0, ox_openPositions = 0 \<rparr> (map snd (oe_slots s))"

definition trackedSymbols :: "options_engine \<Rightarrow> string list" where
  "trackedSymbols s = List.map_filter (\<lambda>(u, x). map_option (\<lambda>p. oc_symbol (op_contract p)) (us_position x)) (oe_slots s)"

definition venue_average :: "string \<Rightarrow> venue_position list \<Rightarrow> jsnum" where
  "venue_average symbol ps = (case find (\<lambda>p. vp_symbol p = symbol) ps of Some p \<Rightarrow> vp_avgPrice p | None \<Rightarrow> 0)"

definition opening_leg :: "option_contract \<Rightarrow> jsnum \<Rightarrow> jsnum \<Rightarrow> jsnum \<Rightarrow> jsnum \<Rightarrow> managed_leg" where
  "opening_leg c price stopPct targetPct now =
     \<lparr> ml_right = oc_right c, ml_entryPrice = price, ml_stopPremium = price * (1 - stopPct / 100),
       ml_targetPremium = price * (1 + targetPct / 100), ml_peakBid = price, ml_trailActive = False,
       ml_openedAt = now, ml_expiryMs = oc_expiryMs c \<rparr>"

definition opened_position :: "option_contract \<Rightarrow> jsnum \<Rightarrow> jsnum \<Rightarrow> jsnum \<Rightarrow> order_id \<Rightarrow> managed_leg \<Rightarrow> open_option_position" where
  "opened_position c qty price fee i leg =
     \<lparr> op_contract = c, op_qty = qty, op_entryPrice = price, op_entryFee = fee, op_entryClientOrderId = i, op_leg = leg,
       op_exitReason = None, op_exitAttempts = 0, op_unresolvedExitId = None, op_closedQty = 0, op_exitProceeds = 0, op_exitFees = 0 \<rparr>"

definition clear_entry :: "options_config \<Rightarrow> string \<Rightarrow> jsnum \<Rightarrow> options_engine \<Rightarrow> options_engine" where
  "clear_entry cfg u now s =
     put_slot u ((slot u now s)\<lparr> us_pendingEntry := None, us_cooldownUntil := now + cf_cooldownMs cfg \<rparr>) s"

definition applyEntryResult ::
  "options_config \<Rightarrow> string \<Rightarrow> pass_input \<Rightarrow> order_result \<Rightarrow> venue_position list option \<Rightarrow> options_engine \<Rightarrow> pass_result" where
  "applyEntryResult cfg u i r known s =
     (let now = pa_resultNow i; x = slot u now s
      in if or_filledQty r \<le> EPS
         then and_then (fire u NO_FILL now s) (\<lambda>s'. Inr (clear_entry cfg u now s'))
         else case us_pendingEntry x of
             None \<Rightarrow> Inl (NoPendingEntry, s)
           | Some pending \<Rightarrow>
               (let symbol = oc_symbol (pn_contract pending);
                    positions = (case known of Some ps \<Rightarrow> Some ps | None \<Rightarrow> pa_rereadPositions i);
                    price = (if 0 < or_avgPrice r then Some (or_avgPrice r) else map_option (venue_average symbol) positions)
                in case price of
                     None \<Rightarrow> Inl (PositionsFailed, s)
                   | Some entryPrice \<Rightarrow>
                       if \<not> 0 < entryPrice then Inl (NoFillPrice symbol (or_filledQty r), s)
                       else fire u FILL now
                         (put_slot u (x\<lparr> us_pendingEntry := None,
                            us_position := Some (opened_position (pn_contract pending) (or_filledQty r) entryPrice (or_fee r)
                              (pn_clientOrderId pending)
                              (opening_leg (pn_contract pending) entryPrice (pn_stopPct pending) (pn_targetPct pending) now)) \<rparr>) s)))"

definition submitEntry ::
  "options_config \<Rightarrow> string \<Rightarrow> pass_input \<Rightarrow> option_contract \<Rightarrow> entry_plan \<Rightarrow> options_engine \<Rightarrow> pass_result" where
  "submitEntry cfg u i c plan s =
     (let now = pa_submitNow i; cid = EntryId (oc_symbol c) (pa_newId i);
          pending = \<lparr> pn_clientOrderId = cid, pn_contract = c, pn_qty = en_qty plan, pn_limitPrice = en_limitPrice plan,
                      pn_stopPct = cf_stopPct cfg, pn_targetPct = cf_targetPct cfg, pn_submittedAt = now \<rparr>
      in and_then (fire u SUBMIT now (put_slot u ((slot u now s)\<lparr> us_pendingEntry := Some pending \<rparr>) s)) (\<lambda>s1.
         (let s2 = note_call (BuySent cid) (persist s1)
          in case pa_buyAnswer i of
               None \<Rightarrow> Inr s2
             | Some r \<Rightarrow> applyEntryResult cfg u i r None s2)))"

definition enterFromSignal ::
  "options_config \<Rightarrow> string \<Rightarrow> pass_input \<Rightarrow> jsnum \<Rightarrow> open_exposure \<Rightarrow> options_engine \<Rightarrow> pass_result" where
  "enterFromSignal cfg u i eq ex s =
     (case pa_index i of
        None \<Rightarrow> Inl (ChainFailed, s)
      | Some (price, time) \<Rightarrow>
          if cf_indexStaleMs cfg < pa_indexNow i - time then reject u (pa_indexNow i) s
          else case pa_selection i of
              SelectionError \<Rightarrow> Inl (SelectionFailed, s)
            | NotSelected \<Rightarrow> reject u (pa_indexNow i) s
            | Selected c q \<Rightarrow>
                (case planEntry \<lparr> pp_equity = eq, pp_exposure = ex, pp_contract = c, pp_quote = q, pp_indexPrice = price,
                        pp_stopPct = cf_stopPct cfg, pp_targetPct = cf_targetPct cfg, pp_limits = cf_risk cfg, pp_fees = cf_fees cfg \<rparr> of
                   Inl why \<Rightarrow> reject u (pa_indexNow i) s
                 | Inr plan \<Rightarrow>
                     (case pa_veto i of
                        VetoError \<Rightarrow> Inl (VetoFailed, s)
                      | Veto \<Rightarrow> reject u (pa_submitNow i) s
                      | _ \<Rightarrow>
                          if \<not> cf_canExecute cfg
                          then and_then (fire u REJECT (pa_submitNow i) s) (\<lambda>s1. Inr (put_slot u
                                 ((slot u (pa_submitNow i) s1)\<lparr> us_cooldownUntil := pa_submitNow i + cf_cooldownMs cfg \<rparr>) s1))
                          else case pa_freshQuote i of
                              None \<Rightarrow> Inl (QuoteFailed, s)
                            | Some fresh \<Rightarrow>
                                (case best_level (oq_asks fresh) of
                                   None \<Rightarrow> reject u (pa_submitNow i) s
                                 | Some ask \<Rightarrow>
                                     if \<not> 0 < ask \<or> en_limitPrice plan < ask then reject u (pa_submitNow i) s
                                     else submitEntry cfg u i c plan s))))"

definition tryEntry :: "options_config \<Rightarrow> string \<Rightarrow> pass_input \<Rightarrow> options_engine \<Rightarrow> pass_result" where
  "tryEntry cfg u i s =
     (case pa_equity i of
        None \<Rightarrow> Inr s
      | Some eq \<Rightarrow>
          if pa_halted i then Inr s
          else if haltReason (cf_risk cfg) (oe_riskBook s) \<noteq> None then Inr s
          else if rl_maxOpenPositions (cf_risk cfg) \<le> ox_openPositions (exposure s) then Inr s
          else case pa_context i of
              StaleContext \<Rightarrow> Inr s
            | ContextError \<Rightarrow> Inl (ContextFailed, s)
            | Context view \<Rightarrow>
                if dv_right view = None \<or> dv_realizedVol view = None \<or> dv_atr1h view = None then Inr s
                else and_then (fire u SIGNAL (pa_now i) s) (\<lambda>s1.
                  case enterFromSignal cfg u i eq (exposure s) s1 of
                    Inr s2 \<Rightarrow> Inr s2
                  | Inl (e, s2) \<Rightarrow>
                      if us_state (slot u (pa_now i) s2) = SIGNAL_DETECTED then reject u (pa_submitNow i) s2 else Inl (e, s2)))"

definition resolvePendingEntry :: "options_config \<Rightarrow> string \<Rightarrow> pass_input \<Rightarrow> options_engine \<Rightarrow> pass_result" where
  "resolvePendingEntry cfg u i s =
     (case us_pendingEntry (slot u (pa_now i) s) of
        None \<Rightarrow> fire u NO_FILL (pa_now i) s
      | Some pending \<Rightarrow>
          (let s1 = note_call (FindSent (pn_clientOrderId pending)) s
           in case pa_found i of
                None \<Rightarrow> Inr s1
              | Some (Some r) \<Rightarrow> applyEntryResult cfg u i r (pa_positions i) s1
              | Some None \<Rightarrow>
                  (case pa_positions i of
                     None \<Rightarrow> Inr s1
                   | Some ps \<Rightarrow>
                       (case find (\<lambda>p. vp_symbol p = oc_symbol (pn_contract pending)) ps of
                          Some held \<Rightarrow>
                            if vp_symbol held \<notin> set (trackedSymbols s1)
                            then applyEntryResult cfg u i \<lparr> or_clientOrderId = pn_clientOrderId pending, or_status = FILLED,
                                   or_filledQty = vp_qty held, or_avgPrice = vp_avgPrice held, or_fee = 0, or_reason = None \<rparr>
                                 (pa_positions i) s1
                            else and_then (fire u NO_FILL (pa_resultNow i) s1) (\<lambda>s2. Inr (clear_entry cfg u (pa_resultNow i) s2))
                        | None \<Rightarrow> and_then (fire u NO_FILL (pa_resultNow i) s1) (\<lambda>s2. Inr (clear_entry cfg u (pa_resultNow i) s2))))))"

section \<open>Exit\<close>

definition put_position :: "string \<Rightarrow> jsnum \<Rightarrow> open_option_position option \<Rightarrow> options_engine \<Rightarrow> options_engine" where
  "put_position u now p s = put_slot u ((slot u now s)\<lparr> us_position := p \<rparr>) s"

definition closeOut ::
  "options_config \<Rightarrow> string \<Rightarrow> option_event \<Rightarrow> jsnum option \<Rightarrow> jsnum \<Rightarrow> open_option_position \<Rightarrow> options_engine \<Rightarrow> pass_result" where
  "closeOut cfg u ev override now pos s =
     (let cost = op_closedQty pos * op_entryPrice pos + op_entryFee pos;
          pnl = (case override of Some p \<Rightarrow> p | None \<Rightarrow> op_exitProceeds pos - op_exitFees pos - cost);
          s1 = s\<lparr> oe_riskBook := risk_record pnl now (oe_riskBook s) \<rparr>
      in and_then (fire u ev now s1) (\<lambda>s2. Inr (put_slot u
           ((slot u now s2)\<lparr> us_position := None, us_cooldownUntil := now + cf_cooldownMs cfg \<rparr>) s2)))"

definition applyExitResult ::
  "options_config \<Rightarrow> string \<Rightarrow> jsnum \<Rightarrow> order_result \<Rightarrow> jsnum \<Rightarrow> open_option_position \<Rightarrow> options_engine \<Rightarrow> pass_result" where
  "applyExitResult cfg u now r fallback pos s =
     (if or_filledQty r \<le> EPS then fire u EXIT_RETRY now s
      else
        (let price = (if 0 < or_avgPrice r then or_avgPrice r else fallback);
             filled = math_min (or_filledQty r) (op_qty pos);
             pos' = pos\<lparr> op_closedQty := op_closedQty pos + filled, op_exitProceeds := op_exitProceeds pos + filled * price,
                         op_exitFees := op_exitFees pos + or_fee r, op_qty := toFixed 12 (op_qty pos - filled) \<rparr>;
             s' = put_position u now (Some pos') s
         in if EPS < op_qty pos' then fire u PARTIAL_EXIT now s'
            else closeOut cfg u EXIT_FILL None now pos' s'))"

definition exitFailed :: "string \<Rightarrow> jsnum \<Rightarrow> open_option_position \<Rightarrow> options_engine \<Rightarrow> pass_result" where
  "exitFailed u now pos s =
     fire u EXIT_RETRY now (put_position u now (Some (pos\<lparr> op_exitAttempts := op_exitAttempts pos + 1 \<rparr>)) s)"

definition exit_id :: "open_option_position \<Rightarrow> order_id" where
  "exit_id pos = (case op_unresolvedExitId pos of Some i \<Rightarrow> i | None \<Rightarrow> ExitId (op_entryClientOrderId pos) (op_exitAttempts pos + 1))"

definition executeExit ::
  "options_config \<Rightarrow> string \<Rightarrow> pass_input \<Rightarrow> open_option_position \<Rightarrow> options_engine \<Rightarrow> pass_result" where
  "executeExit cfg u i pos s =
     (let now = pa_exitNow i;
          bid = (case pa_quote i of None \<Rightarrow> None | Some q \<Rightarrow> best_level (oq_bids q))
      in case (pa_quote i, bid) of
           (Some q, Some b) \<Rightarrow>
             (if cf_quoteStaleMs cfg < now - oq_receivedAt q \<or> \<not> 0 < b then exitFailed u now pos s
              else
                (let cid = exit_id pos; limitPrice = b * (1 - rl_maxSlippagePct (cf_risk cfg) / 100); s1 = note_call (SellSent cid) s
                 in case pa_sellAnswer i of
                      None \<Rightarrow> exitFailed u (pa_closeNow i) (pos\<lparr> op_unresolvedExitId := Some cid \<rparr>) s1
                    | Some r \<Rightarrow>
                        (let pos' = pos\<lparr> op_unresolvedExitId := None, op_exitAttempts := op_exitAttempts pos + 1 \<rparr>
                         in applyExitResult cfg u (pa_closeNow i) r limitPrice pos' (put_position u (pa_closeNow i) (Some pos') s1))))
         | _ \<Rightarrow> exitFailed u now pos s)"

definition manage :: "options_config \<Rightarrow> string \<Rightarrow> pass_input \<Rightarrow> options_engine \<Rightarrow> pass_result" where
  "manage cfg u i s =
     (let x = slot u (pa_now i) s
      in case us_position x of
           None \<Rightarrow> Inl (WithoutPosition (us_state x), s)
         | Some pos \<Rightarrow>
             (if us_state x = POSITION_OPEN
              then (case evaluateExit \<lparr> ep_leg = op_leg pos, ep_quote = pa_quote i, ep_now = pa_evalNow i, ep_staleMs = cf_quoteStaleMs cfg,
                           ep_limits = cf_exits cfg, ep_direction = pa_direction i \<rparr> of
                      Stale leg age \<Rightarrow> Inr (put_position u (pa_now i) (Some (pos\<lparr> op_leg := leg \<rparr>)) s)
                    | Hold leg n \<Rightarrow> Inr (put_position u (pa_now i) (Some (pos\<lparr> op_leg := leg \<rparr>)) s)
                    | Exit leg why bid \<Rightarrow>
                        (let pos' = pos\<lparr> op_leg := leg, op_exitReason := Some why \<rparr>
                         in and_then (fire u EXIT_TRIGGER (pa_evalNow i) (put_position u (pa_now i) (Some pos') s))
                              (executeExit cfg u i pos')))
              else executeExit cfg u i pos s))"

text \<open>The pass is over when the venue no longer holds the position (\<open>Some\<close>).\<close>

definition detectExternalClose ::
  "options_config \<Rightarrow> string \<Rightarrow> pass_input \<Rightarrow> venue_position list \<Rightarrow> options_engine \<Rightarrow> pass_result option" where
  "detectExternalClose cfg u i ps s =
     (case us_position (slot u (pa_now i) s) of
        None \<Rightarrow> None
      | Some pos \<Rightarrow>
          if \<exists>p\<in>set ps. vp_symbol p = oc_symbol (op_contract pos) \<and> EPS < vp_qty p then None
          else
            (let worst = (\<lambda>s'.
                   (let worstCase = - (op_qty pos * op_entryPrice pos) + (op_exitProceeds pos - op_exitFees pos)
                          - (op_closedQty pos * op_entryPrice pos) - op_entryFee pos;
                        pos' = pos\<lparr> op_closedQty := op_closedQty pos + op_qty pos, op_qty := 0 \<rparr>
                    in closeOut cfg u EXTERNAL_CLOSE (Some worstCase) (pa_closeNow i) pos' (put_position u (pa_closeNow i) (Some pos') s')))
             in Some (case op_unresolvedExitId pos of
                  None \<Rightarrow> worst s
                | Some cid \<Rightarrow>
                    (let s1 = note_call (FindSent cid) s
                     in case pa_found i of
                          None \<Rightarrow> Inl (FindFailed, s1)
                        | Some None \<Rightarrow> worst s1
                        | Some (Some r) \<Rightarrow>
                            if EPS < or_filledQty r
                            then (let pos' = pos\<lparr> op_unresolvedExitId := None, op_exitAttempts := op_exitAttempts pos + 1 \<rparr>
                                  in applyExitResult cfg u (pa_closeNow i) (r\<lparr> or_filledQty := op_qty pos \<rparr>)
                                       (if truthy (or_avgPrice r) then or_avgPrice r else ml_stopPremium (op_leg pos))
                                       pos' (put_position u (pa_closeNow i) (Some pos') s1))
                            else worst s1))))"

section \<open>The pass, the cycle and the start\<close>

definition step :: "options_config \<Rightarrow> string \<Rightarrow> pass_input \<Rightarrow> options_engine \<Rightarrow> pass_result" where
  "step cfg u i s =
     (let x = slot u (pa_now i) s; now = pa_now i
      in case us_state x of
           POSITION_CLOSED \<Rightarrow> (if us_cooldownUntil x \<le> now then fire u RESET now s else Inr s)
         | SIGNAL_DETECTED \<Rightarrow> fire u REJECT now s
         | ENTRY_PENDING \<Rightarrow> resolvePendingEntry cfg u i s
         | IDLE \<Rightarrow> (if now < us_cooldownUntil x then Inr s else tryEntry cfg u i s)
         | _ \<Rightarrow>
             (case (case pa_positions i of None \<Rightarrow> None | Some ps \<Rightarrow> detectExternalClose cfg u i ps s) of
                Some r \<Rightarrow> r
              | None \<Rightarrow> manage cfg u i s))"

fun settled :: "pass_result \<Rightarrow> options_engine" where
  "settled (Inl (e, s)) = s"
| "settled (Inr s) = s"

definition contained_step :: "options_config \<Rightarrow> (string \<Rightarrow> pass_input) \<Rightarrow> options_engine \<Rightarrow> string \<Rightarrow> options_engine" where
  "contained_step cfg is s u = persist (settled (step cfg u (is u) s))"

record cycle_input =
  ci_equity :: "jsnum option"
  ci_now :: jsnum
  ci_positions :: "venue_position list option"
  ci_passes :: "string \<Rightarrow> pass_input"

definition cycle :: "options_config \<Rightarrow> options_engine \<Rightarrow> cycle_input \<Rightarrow> options_engine" where
  "cycle cfg s ci =
     (let s1 = (case ci_equity ci of None \<Rightarrow> s | Some eq \<Rightarrow> s\<lparr> oe_riskBook := rollIfNewDay eq (ci_now ci) (oe_riskBook s) \<rparr>);
          is = (\<lambda>u. (ci_passes ci u)\<lparr> pa_equity := ci_equity ci, pa_positions := ci_positions ci \<rparr>)
      in persist (foldl (contained_step cfg is) s1 (cf_underlyings cfg)))"

definition reconcile_qty :: "venue_position list \<Rightarrow> jsnum \<Rightarrow> options_engine \<Rightarrow> string \<Rightarrow> options_engine" where
  "reconcile_qty ps now s u =
     (let x = slot u now s
      in case us_position x of
           None \<Rightarrow> s
         | Some pos \<Rightarrow>
             if us_state x \<noteq> POSITION_OPEN \<and> us_state x \<noteq> EXIT_PENDING then s
             else (case find (\<lambda>p. vp_symbol p = oc_symbol (op_contract pos)) ps of
                     None \<Rightarrow> s
                   | Some held \<Rightarrow>
                       if EPS < abs (vp_qty held - op_qty pos) then put_position u now (Some (pos\<lparr> op_qty := vp_qty held \<rparr>)) s else s))"

text \<open>
  \<open>parse\<close> reads the underlying off an option symbol; \<open>listed\<close> are the contracts the chain lists for it,
  \<open>None\<close> when it cannot be asked; \<open>ids\<close> are fresh.
\<close>

definition adopt ::
  "options_config \<Rightarrow> (string \<Rightarrow> string option) \<Rightarrow> (string \<Rightarrow> option_contract list option) \<Rightarrow> (string \<Rightarrow> string) \<Rightarrow> string list \<Rightarrow> jsnum \<Rightarrow>
     venue_position \<Rightarrow> options_engine \<Rightarrow> pass_result" where
  "adopt cfg parse listed ids tracked now held s =
     (if vp_symbol held \<in> set tracked then Inr s
      else case parse (vp_symbol held) of
          None \<Rightarrow> Inr s
        | Some u \<Rightarrow>
            if u \<notin> set (cf_underlyings cfg) then Inr s
            else if us_state (slot u now s) \<noteq> IDLE then Inr s
            else (case listed u of
                    None \<Rightarrow> Inl (ChainFailed, s)
                  | Some cs \<Rightarrow>
                      (case find (\<lambda>c. oc_symbol c = vp_symbol held) cs of
                         None \<Rightarrow> Inr s
                       | Some c \<Rightarrow>
                           fire u ADOPT now (put_position u now (Some (opened_position c (vp_qty held) (vp_avgPrice held) 0
                             (AdoptedId (vp_symbol held) (ids (vp_symbol held)))
                             (opening_leg c (vp_avgPrice held) (cf_stopPct cfg) (cf_targetPct cfg) now))) s))))"

definition reconcile ::
  "options_config \<Rightarrow> (string \<Rightarrow> string option) \<Rightarrow> (string \<Rightarrow> option_contract list option) \<Rightarrow> (string \<Rightarrow> string) \<Rightarrow> jsnum \<Rightarrow>
     venue_position list \<Rightarrow> options_engine \<Rightarrow> pass_result" where
  "reconcile cfg parse listed ids now ps s =
     (let s1 = foldl (reconcile_qty ps now) s (cf_underlyings cfg); tracked = trackedSymbols s1
      in foldl (\<lambda>r held. and_then r (adopt cfg parse listed ids tracked now held)) (Inr s1) ps)"

definition ensure_slot :: "jsnum \<Rightarrow> (string \<times> underlying_slot) list \<Rightarrow> string \<Rightarrow> (string \<times> underlying_slot) list" where
  "ensure_slot now slots u = (case map_of slots u of None \<Rightarrow> AList.update u (emptySlot now) slots | Some x \<Rightarrow> slots)"

record options_state =
  os_slots :: "(string \<times> underlying_slot) list"
  os_riskBook :: "risk_book option"

definition start ::
  "options_config \<Rightarrow> (string \<Rightarrow> string option) \<Rightarrow> (string \<Rightarrow> option_contract list option) \<Rightarrow> (string \<Rightarrow> string) \<Rightarrow> jsnum \<Rightarrow> jsnum \<Rightarrow>
     venue_position list \<Rightarrow> options_state \<Rightarrow> pass_result" where
  "start cfg parse listed ids now eq ps loaded =
     and_then (reconcile cfg parse listed ids now ps
         \<lparr> oe_slots = foldl (ensure_slot now) (os_slots loaded) (cf_underlyings cfg),
           oe_riskBook = risk_book_new (os_riskBook loaded) eq now, oe_calls = [] \<rparr>)
       (\<lambda>s. Inr (persist s))"

text \<open>The state file: a missing file is a clean start, an unreadable or misshapen one an error.\<close>

datatype state_file = MissingFile | UnreadableFile | InvalidJson | UnknownShape | StateFile options_state

datatype load_error = Unreadable | NotJson | BadShape

fun load_options_state :: "state_file \<Rightarrow> load_error + options_state" where
  "load_options_state MissingFile = Inr \<lparr> os_slots = [], os_riskBook = None \<rparr>"
| "load_options_state UnreadableFile = Inl Unreadable"
| "load_options_state InvalidJson = Inl NotJson"
| "load_options_state UnknownShape = Inl BadShape"
| "load_options_state (StateFile s) = Inr s"

section \<open>Frames\<close>

lemma slot_put [simp]: "slot u now (put_slot u x s) = x"
  by (simp add: slot_def put_slot_def update_conv')

lemma slot_frames [simp]:
  "slot u now (note_call c s) = slot u now s" "slot u now (persist s) = slot u now s"
  "slot u now (s\<lparr> oe_riskBook := b \<rparr>) = slot u now s" "slot u now (put_position u now' p s) = (slot u now' s)\<lparr> us_position := p \<rparr>"
  by (simp_all add: slot_def note_call_def persist_def put_position_def put_slot_def update_conv')

lemma calls_frames [simp]:
  "oe_calls (put_slot u x s) = oe_calls s" "oe_calls (put_position u now p s) = oe_calls s" "oe_calls (clear_entry cfg u now s) = oe_calls s"
  "oe_calls (note_call c s) = oe_calls s @ [c]" "oe_calls (persist s) = oe_calls s @ [Persisted (oe_slots s) (oe_riskBook s)]"
  by (simp_all add: put_slot_def put_position_def clear_entry_def note_call_def persist_def)

lemma book_frames [simp]:
  "oe_riskBook (put_slot u x s) = oe_riskBook s" "oe_riskBook (put_position u now p s) = oe_riskBook s"
  "oe_riskBook (note_call c s) = oe_riskBook s" "oe_riskBook (persist s) = oe_riskBook s"
  by (simp_all add: put_slot_def put_position_def note_call_def persist_def)

section \<open>Sound slots\<close>

text \<open>
  A slot between two passes: it holds a position exactly when it is open or exiting, an entry order exactly
  when one is pending, it is never left in the transient signal state, an exiting position knows why, and an
  open one has no exit order out.
\<close>

definition slot_ok :: "underlying_slot \<Rightarrow> bool" where
  "slot_ok x \<longleftrightarrow>
     (holds_position (us_state x) \<longleftrightarrow> us_position x \<noteq> None) \<and> (us_state x = ENTRY_PENDING \<longleftrightarrow> us_pendingEntry x \<noteq> None) \<and>
     us_state x \<noteq> SIGNAL_DETECTED \<and>
     (case us_position x of
        None \<Rightarrow> True
      | Some p \<Rightarrow> (if us_state x = POSITION_OPEN then op_unresolvedExitId p = None \<and> op_exitReason p = None else op_exitReason p \<noteq> None))"

definition others_ok :: "string \<Rightarrow> options_engine \<Rightarrow> bool" where
  "others_ok u s \<longleftrightarrow> (\<forall>v x. v \<noteq> u \<longrightarrow> map_of (oe_slots s) v = Some x \<longrightarrow> slot_ok x)"

definition slots_ok :: "options_engine \<Rightarrow> bool" where
  "slots_ok s \<longleftrightarrow> (\<forall>v x. map_of (oe_slots s) v = Some x \<longrightarrow> slot_ok x)"

text \<open>The errors of the answers a pass waits for; the others would be faults of the machine itself.\<close>

fun outside_error :: "engine_error \<Rightarrow> bool" where
  "outside_error (IllegalTransition st ev) = False"
| "outside_error NoPendingEntry = False"
| "outside_error (WithoutPosition st) = False"
| "outside_error e = True"

fun sound :: "pass_result \<Rightarrow> bool" where
  "sound (Inl (e, s)) = (outside_error e \<and> slots_ok s)"
| "sound (Inr s) = slots_ok s"

lemma slot_ok_empty [simp]: "slot_ok (emptySlot now)"
  by (simp add: slot_ok_def emptySlot_def holds_position_def)

lemma slots_ok_slot: "slots_ok s \<Longrightarrow> slot_ok (slot u now s)"
  by (auto simp: slots_ok_def slot_def split: option.splits)

lemma slots_ok_others: "slots_ok s \<Longrightarrow> others_ok u s"
  by (simp add: slots_ok_def others_ok_def)

lemma slots_ok_put [simp]: "slots_ok (put_slot u x s) \<longleftrightarrow> others_ok u s \<and> slot_ok x"
  by (auto simp: slots_ok_def others_ok_def put_slot_def update_conv' split: if_splits)

lemma others_ok_frames [simp]:
  "others_ok u (put_slot u x s) = others_ok u s" "others_ok u (put_position u now p s) = others_ok u s"
  "others_ok u (note_call c s) = others_ok u s" "others_ok u (persist s) = others_ok u s"
  "others_ok u (s\<lparr> oe_riskBook := b \<rparr>) = others_ok u s"
  by (auto simp: others_ok_def put_position_def put_slot_def update_conv' note_call_def persist_def)

lemma slots_ok_frames [simp]:
  "slots_ok (note_call c s) = slots_ok s" "slots_ok (persist s) = slots_ok s" "slots_ok (s\<lparr> oe_riskBook := b \<rparr>) = slots_ok s"
  by (simp_all add: slots_ok_def note_call_def persist_def)

lemma fire_eq: "option_transition (us_state (slot u now s)) ev = Some t \<Longrightarrow>
    fire u ev now s = Inr (put_slot u ((slot u now s)\<lparr> us_state := t, us_updatedAt := now \<rparr>) s)"
  by (simp add: fire_def Let_def)

lemma slot_state_now: "map_of (oe_slots s) u \<noteq> None \<Longrightarrow> slot u now s = slot u now' s"
  by (auto simp: slot_def)

lemma slot_known: "us_state (slot u now s) \<noteq> IDLE \<Longrightarrow> slot u now s = slot u now' s"
  by (auto simp: slot_def emptySlot_def split: option.splits)

lemma slot_of [simp]: "map_of (oe_slots s) u = Some x \<Longrightarrow> slot u now s = x"
  by (simp add: slot_def)

lemma known_frames [simp]:
  "map_of (oe_slots (put_slot u x s)) v = (if u = v then Some x else map_of (oe_slots s) v)"
  "oe_slots (note_call c s) = oe_slots s" "oe_slots (persist s) = oe_slots s"
  "map_of (oe_slots (put_position u now p s)) u = Some ((slot u now s)\<lparr> us_position := p \<rparr>)"
  by (auto simp: put_slot_def update_conv' note_call_def persist_def put_position_def)

lemmas fire_simps = fire_def Let_def

definition pending_slot :: "string \<Rightarrow> pending_entry \<Rightarrow> options_engine \<Rightarrow> bool" where
  "pending_slot u q s \<longleftrightarrow> (\<exists>x. map_of (oe_slots s) u = Some x \<and> us_state x = ENTRY_PENDING \<and> us_pendingEntry x = Some q \<and> us_position x = None)"

lemma slots_ok_iff: "map_of (oe_slots s) u = Some x \<Longrightarrow> slots_ok s \<longleftrightarrow> others_ok u s \<and> slot_ok x"
  unfolding slots_ok_def others_ok_def by (metis option.inject)

lemma pending_slots_ok: "pending_slot u q s \<Longrightarrow> others_ok u s \<Longrightarrow> slots_ok s"
  by (auto simp: pending_slot_def slots_ok_iff slot_ok_def holds_position_def)

lemma applyEntry_sound:
  assumes "pending_slot u q s" and "others_ok u s"
  shows "sound (applyEntryResult cfg u i r known s)"
proof -
  from assms obtain x where x: "map_of (oe_slots s) u = Some x" "us_state x = ENTRY_PENDING" "us_pendingEntry x = Some q" "us_position x = None"
    by (auto simp: pending_slot_def)
  with pending_slots_ok [OF assms] assms(2) show ?thesis
    by (auto simp: applyEntryResult_def fire_simps clear_entry_def slot_ok_def holds_position_def opened_position_def
        split: option.split)
qed

lemma submit_sound:
  assumes "map_of (oe_slots s) u = Some x" and "us_state x = SIGNAL_DETECTED" and "us_position x = None" and "others_ok u s"
  shows "sound (submitEntry cfg u i c plan s)"
proof -
  define q where "q = \<lparr> pn_clientOrderId = EntryId (oc_symbol c) (pa_newId i), pn_contract = c, pn_qty = en_qty plan,
    pn_limitPrice = en_limitPrice plan, pn_stopPct = cf_stopPct cfg, pn_targetPct = cf_targetPct cfg, pn_submittedAt = pa_submitNow i \<rparr>"
  define s1 where "s1 = note_call (BuySent (EntryId (oc_symbol c) (pa_newId i)))
     (persist (put_slot u (x\<lparr> us_pendingEntry := Some q, us_state := ENTRY_PENDING, us_updatedAt := pa_submitNow i \<rparr>)
       (put_slot u (x\<lparr> us_pendingEntry := Some q \<rparr>) s)))"
  have "submitEntry cfg u i c plan s = (case pa_buyAnswer i of None \<Rightarrow> Inr s1 | Some r \<Rightarrow> applyEntryResult cfg u i r None s1)"
    using assms(1,2) by (simp add: submitEntry_def fire_simps s1_def q_def split: option.split)
  moreover have "pending_slot u q s1" "others_ok u s1" using assms by (simp_all add: s1_def pending_slot_def)
  ultimately show ?thesis by (auto simp: applyEntry_sound pending_slots_ok split: option.split)
qed

text \<open>A signalled slot is either submitted, put back, or left as it was by an error the caller turns into a rejection.\<close>

lemma reject_sound:
  assumes "map_of (oe_slots s) u = Some x" and "us_state x = SIGNAL_DETECTED" and "us_position x = None" and "us_pendingEntry x = None"
    and "others_ok u s"
  shows "sound (reject u now s)"
  using assms by (simp add: reject_def fire_simps slot_ok_def holds_position_def)

lemma enter_sound:
  assumes "map_of (oe_slots s) u = Some x" and "us_state x = SIGNAL_DETECTED" and "us_position x = None" and "us_pendingEntry x = None"
    and "others_ok u s"
  shows "sound (enterFromSignal cfg u i eq ex s) \<or> (\<exists>e. enterFromSignal cfg u i eq ex s = Inl (e, s))"
  using assms reject_sound [OF assms] submit_sound [OF assms(1-3,5)]
  by (auto simp: enterFromSignal_def fire_simps slot_ok_def holds_position_def split: option.split selection_answer.split sum.split veto_answer.split)

lemma slots_ok_no_signal: "slots_ok s \<Longrightarrow> us_state (slot u now s) \<noteq> SIGNAL_DETECTED"
  using slots_ok_slot [of s u now] by (auto simp: slot_ok_def)

lemma tryEntry_sound:
  assumes "slots_ok s" and "us_state (slot u (pa_now i) s) = IDLE"
  shows "sound (tryEntry cfg u i s)"
proof -
  define x where "x = (slot u (pa_now i) s)\<lparr> us_state := SIGNAL_DETECTED, us_updatedAt := pa_now i \<rparr>"
  define s1 where "s1 = put_slot u x s"
  have fire: "fire u SIGNAL (pa_now i) s = Inr s1" using assms(2) by (simp add: fire_eq s1_def x_def)
  have "slot_ok (slot u (pa_now i) s)" using assms(1) by (rule slots_ok_slot)
  then have s1: "map_of (oe_slots s1) u = Some x" "us_state x = SIGNAL_DETECTED" "us_position x = None" "us_pendingEntry x = None" "others_ok u s1"
    using assms by (auto simp: s1_def x_def slot_ok_def holds_position_def slots_ok_others)
  have "sound (case enterFromSignal cfg u i eq (exposure s) s1 of Inr s2 \<Rightarrow> Inr s2
      | Inl (e, s2) \<Rightarrow> if us_state (slot u (pa_now i) s2) = SIGNAL_DETECTED then reject u (pa_submitNow i) s2 else Inl (e, s2))" for eq
    using enter_sound [OF s1, of cfg i eq "exposure s"] reject_sound [OF s1] s1(1,2)
    by (auto simp: slots_ok_no_signal split: sum.split)
  then show ?thesis using assms(1) by (auto simp: tryEntry_def fire split: option.split context_answer.split)
qed

lemma resolve_entry_sound:
  assumes "slots_ok s" and "us_state (slot u (pa_now i) s) = ENTRY_PENDING"
  shows "sound (resolvePendingEntry cfg u i s)"
proof -
  obtain x where x: "map_of (oe_slots s) u = Some x" using assms(2) by (auto simp: slot_def emptySlot_def split: option.splits)
  with assms have ok: "slot_ok x" "us_state x = ENTRY_PENDING" by (auto simp: slots_ok_def)
  then obtain q where q: "us_pendingEntry x = Some q" "us_position x = None" by (auto simp: slot_ok_def holds_position_def)
  have "pending_slot u q (note_call c s)" "others_ok u (note_call c s)" for c
    using x ok q assms(1) by (simp_all add: pending_slot_def slots_ok_others)
  then have entry: "sound (applyEntryResult cfg u i r known (note_call c s))" for c r known
    by (rule applyEntry_sound)
  with x ok q assms(1) show ?thesis
    by (auto simp: resolvePendingEntry_def fire_simps clear_entry_def slots_ok_others slot_ok_def holds_position_def
        split: option.split)
qed

lemma fire_exit:
  assumes "map_of (oe_slots s) u = Some x" and "option_transition (us_state x) ev = Some t"
    and "slot_ok (x\<lparr> us_state := t, us_updatedAt := now \<rparr>)" and "others_ok u s"
  shows "sound (fire u ev now s)"
  using assms by (simp add: fire_simps)

text \<open>\<open>exiting u pos s\<close>: the slot is exiting, holds some position and no pending entry, and \<open>pos\<close> knows its reason.\<close>

definition exiting :: "string \<Rightarrow> open_option_position \<Rightarrow> options_engine \<Rightarrow> bool" where
  "exiting u pos s \<longleftrightarrow> (\<exists>x. map_of (oe_slots s) u = Some x \<and> us_state x = EXIT_PENDING \<and> us_pendingEntry x = None
     \<and> us_position x \<noteq> None) \<and> op_exitReason pos \<noteq> None \<and> others_ok u s"

lemma exiting_frames [simp]:
  "exiting u pos (note_call c s) = exiting u pos s" "exiting u pos (s\<lparr> oe_riskBook := b \<rparr>) = exiting u pos s"
  by (simp_all add: exiting_def note_call_def others_ok_def)

lemma exiting_put: "exiting u pos s \<Longrightarrow> exiting u pos (put_position u now (Some p) s)"
  by (auto simp: exiting_def)

lemma closeOut_sound:
  assumes "map_of (oe_slots s) u = Some x" and "us_pendingEntry x = None" and "others_ok u s"
    and "us_state x = EXIT_PENDING \<and> (ev = EXIT_FILL \<or> ev = EXTERNAL_CLOSE) \<or> us_state x = POSITION_OPEN \<and> ev = EXTERNAL_CLOSE"
  shows "sound (closeOut cfg u ev ov now pos s)"
  using assms by (auto simp: closeOut_def fire_simps slot_ok_def holds_position_def)

lemma put_fire_sound:
  assumes "exiting u pos s" and "op_exitReason p \<noteq> None" and "ev = EXIT_RETRY \<or> ev = PARTIAL_EXIT"
  shows "sound (fire u ev now (put_position u now (Some p) s))"
  using assms by (auto simp: exiting_def fire_simps slot_ok_def holds_position_def put_position_def)

lemma exitFailed_sound:
  assumes "exiting u pos s"
  shows "sound (exitFailed u now pos s)"
  using assms put_fire_sound [OF assms, of "pos\<lparr> op_exitAttempts := op_exitAttempts pos + 1 \<rparr>" EXIT_RETRY]
  by (auto simp: exitFailed_def exiting_def)

lemma applyExit_sound:
  assumes "exiting u pos s" and "us_position (slot u now s) = Some pos"
  shows "sound (applyExitResult cfg u now r fb pos s)"
proof -
  define filled where "filled = math_min (or_filledQty r) (op_qty pos)"
  define p where "p = pos\<lparr> op_closedQty := op_closedQty pos + filled,
     op_exitProceeds := op_exitProceeds pos + filled * (if 0 < or_avgPrice r then or_avgPrice r else fb),
     op_exitFees := op_exitFees pos + or_fee r, op_qty := toFixed 12 (op_qty pos - filled) \<rparr>"
  have p: "op_exitReason p \<noteq> None" using assms by (auto simp: p_def exiting_def)
  obtain x where x: "map_of (oe_slots s) u = Some x" "us_state x = EXIT_PENDING" "us_pendingEntry x = None" "others_ok u s"
    using assms by (auto simp: exiting_def)
  have "sound (fire u EXIT_RETRY now s)"
    using x assms by (auto simp: exiting_def fire_simps slot_ok_def holds_position_def)
  moreover have "sound (closeOut cfg u EXIT_FILL None now p (put_position u now (Some p) s))"
    using x by (intro closeOut_sound [of _ _ "x\<lparr> us_position := Some p \<rparr>"]) simp_all
  moreover have "applyExitResult cfg u now r fb pos s =
      (if or_filledQty r \<le> EPS then fire u EXIT_RETRY now s
       else if EPS < op_qty p then fire u PARTIAL_EXIT now (put_position u now (Some p) s)
       else closeOut cfg u EXIT_FILL None now p (put_position u now (Some p) s))"
    by (simp add: applyExitResult_def Let_def p_def filled_def)
  ultimately show ?thesis using put_fire_sound [OF assms(1) p] by simp
qed

lemma executeExit_sound:
  assumes "exiting u pos s"
  shows "sound (executeExit cfg u i pos s)"
proof -
  have "sound (exitFailed u now (pos\<lparr> op_unresolvedExitId := z \<rparr>) (note_call c s))" for now z c
    using assms by (intro exitFailed_sound) (simp add: exiting_def)
  moreover have "sound (applyExitResult cfg u now r fb (pos\<lparr> op_unresolvedExitId := None, op_exitAttempts := Suc (op_exitAttempts pos) \<rparr>)
      (put_position u now (Some (pos\<lparr> op_unresolvedExitId := None, op_exitAttempts := Suc (op_exitAttempts pos) \<rparr>)) (note_call c s)))" for now r fb c
    using assms by (intro applyExit_sound exiting_put) (simp_all add: exiting_def)
  ultimately show ?thesis using exitFailed_sound [OF assms]
    by (simp add: executeExit_def Let_def split: option.split)
qed

lemma held_slot:
  assumes "slots_ok s" and "holds_position (us_state (slot u now s))"
  obtains x pos where "map_of (oe_slots s) u = Some x" "us_position x = Some pos" "us_pendingEntry x = None" "others_ok u s" "slot_ok x"
proof -
  obtain x where x: "map_of (oe_slots s) u = Some x" using assms(2)
    by (auto simp: slot_def emptySlot_def holds_position_def split: option.splits)
  with assms have "slot_ok x" "holds_position (us_state x)" by (auto simp: slots_ok_def)
  with x that assms(1) show ?thesis by (auto simp: slot_ok_def holds_position_def slots_ok_others)
qed

lemma manage_sound:
  assumes "slots_ok s" and "holds_position (us_state (slot u (pa_now i) s))"
  shows "sound (manage cfg u i s)"
proof -
  from held_slot [OF assms] obtain x pos where
    x: "map_of (oe_slots s) u = Some x" "us_position x = Some pos" "us_pendingEntry x = None" "others_ok u s" "slot_ok x" .
  show ?thesis
  proof (cases "us_state x = POSITION_OPEN")
    case False
    with x assms have "exiting u pos s" by (auto simp: exiting_def slot_ok_def holds_position_def)
    with False x show ?thesis by (simp add: manage_def Let_def executeExit_sound)
  next
    case True
    have "slots_ok (put_position u (pa_now i) (Some (pos\<lparr> op_leg := leg \<rparr>)) s)" for leg
      using x True by (auto simp: put_position_def slot_ok_def holds_position_def)
    moreover have "sound (and_then (fire u EXIT_TRIGGER (pa_evalNow i) (put_position u (pa_now i) (Some p) s)) (executeExit cfg u i p))"
      if "op_exitReason p \<noteq> None" for p
    proof -
      define x' where "x' = x\<lparr> us_position := Some p, us_state := EXIT_PENDING, us_updatedAt := pa_evalNow i \<rparr>"
      have "fire u EXIT_TRIGGER (pa_evalNow i) (put_position u (pa_now i) (Some p) s) = Inr (put_slot u x' (put_position u (pa_now i) (Some p) s))"
        using x True by (simp add: fire_simps x'_def)
      moreover have "exiting u p (put_slot u x' (put_position u (pa_now i) (Some p) s))"
        using x that by (simp add: exiting_def x'_def)
      ultimately show ?thesis by (simp add: executeExit_sound)
    qed
    ultimately show ?thesis using True x by (simp add: manage_def Let_def split: exit_decision.split)
  qed
qed

lemma detect_sound:
  assumes "slots_ok s" and "holds_position (us_state (slot u (pa_now i) s))" and "detectExternalClose cfg u i ps s = Some r"
  shows "sound r"
proof -
  from held_slot [OF assms(1,2)] obtain x pos where
    x: "map_of (oe_slots s) u = Some x" "us_position x = Some pos" "us_pendingEntry x = None" "others_ok u s" "slot_ok x" .
  have st: "us_state x = POSITION_OPEN \<or> us_state x = EXIT_PENDING" using assms(2) x by (simp add: holds_position_def)
  have worst: "sound (closeOut cfg u EXTERNAL_CLOSE ov (pa_closeNow i) p (put_position u (pa_closeNow i) (Some p) s'))"
    if "oe_slots s' = oe_slots s" for ov p s'
  proof -
    have "others_ok u s'" using x(4) that by (simp add: others_ok_def)
    then show ?thesis using x st that by (intro closeOut_sound [of _ _ "x\<lparr> us_position := Some p \<rparr>"]) auto
  qed
  have lost: "sound (applyExitResult cfg u (pa_closeNow i) q fb (pos\<lparr> op_unresolvedExitId := None, op_exitAttempts := Suc (op_exitAttempts pos) \<rparr>)
      (put_position u (pa_closeNow i) (Some (pos\<lparr> op_unresolvedExitId := None, op_exitAttempts := Suc (op_exitAttempts pos) \<rparr>)) (note_call c s)))"
    if "op_unresolvedExitId pos \<noteq> None" for q fb c
  proof -
    have "exiting u pos s" using x st that by (auto simp: exiting_def slot_ok_def split: if_splits)
    then show ?thesis by (intro applyExit_sound exiting_put) (simp_all add: exiting_def)
  qed
  show ?thesis using assms(1,3) x worst lost
    by (auto simp: detectExternalClose_def Let_def split: option.splits if_splits)
qed

theorem step_sound:
  assumes "slots_ok s"
  shows "sound (step cfg u i s)"
proof -
  have ok: "slot_ok (slot u (pa_now i) s)" using assms by (rule slots_ok_slot)
  have "sound (fire u RESET (pa_now i) s)" if "us_state (slot u (pa_now i) s) = POSITION_CLOSED"
    using that ok assms by (auto simp: fire_simps slots_ok_others slot_ok_def holds_position_def)
  moreover have "us_state (slot u (pa_now i) s) \<noteq> SIGNAL_DETECTED" using assms by (rule slots_ok_no_signal)
  moreover have "sound (case (case pa_positions i of None \<Rightarrow> None | Some ps \<Rightarrow> detectExternalClose cfg u i ps s) of
      Some r \<Rightarrow> r | None \<Rightarrow> manage cfg u i s)" if "holds_position (us_state (slot u (pa_now i) s))"
    using manage_sound [OF assms that, of cfg] detect_sound [OF assms that, of cfg] by (auto split: option.split)
  ultimately show ?thesis using tryEntry_sound [OF assms, of u i cfg] resolve_entry_sound [OF assms, of u i cfg] assms
    by (simp add: step_def Let_def holds_position_def split: option_state.split)
qed

lemma sound_settled: "sound r \<Longrightarrow> slots_ok (settled r)"
  by (cases r) auto

lemma contained_ok: "slots_ok s \<Longrightarrow> slots_ok (contained_step cfg is s u)"
  by (simp add: contained_step_def sound_settled step_sound)

lemma contained_all_ok: "slots_ok s \<Longrightarrow> slots_ok (foldl (contained_step cfg is) s us)"
  by (induction us arbitrary: s) (simp_all add: contained_ok)

lemma cycle_ok: "slots_ok s \<Longrightarrow> slots_ok (cycle cfg s ci)"
  by (simp add: cycle_def Let_def contained_all_ok split: option.split)

text \<open>A cycle keeps the slots sound whatever it is told.\<close>

interpretation engine: guarded_machine "cycle cfg" slots_ok "\<lambda>s t. True" for cfg
  by unfold_locales (simp_all add: cycle_ok)

section \<open>The start\<close>

lemma ensure_ok:
  assumes "\<forall>v x. map_of slots v = Some x \<longrightarrow> slot_ok x"
  shows "\<forall>v x. map_of (foldl (ensure_slot now) slots us) v = Some x \<longrightarrow> slot_ok x"
  using assms
proof (induction us arbitrary: slots)
  case Nil
  then show ?case by simp
next
  case (Cons u us)
  from Cons.prems have "\<forall>v x. map_of (ensure_slot now slots u) v = Some x \<longrightarrow> slot_ok x"
    by (auto simp: ensure_slot_def update_conv' split: option.split)
  from Cons.IH [OF this] show ?case by simp
qed

lemma reconcile_qty_ok: "slots_ok s \<Longrightarrow> slots_ok (reconcile_qty ps now s u)"
  using slots_ok_slot [of s u now]
  by (auto simp: reconcile_qty_def put_position_def Let_def slots_ok_others slot_ok_def split: option.split)

lemma reconcile_all_ok: "slots_ok s \<Longrightarrow> slots_ok (foldl (reconcile_qty ps now) s us)"
  by (induction us arbitrary: s) (simp_all add: reconcile_qty_ok)

lemma adopt_sound: "slots_ok s \<Longrightarrow> sound (adopt cfg parse listed ids tracked now held s)"
proof -
  assume ok: "slots_ok s"
  have "sound (fire u ADOPT now (put_position u now (Some p) s))"
    if "us_state (slot u now s) = IDLE" "op_unresolvedExitId p = None" "op_exitReason p = None" for u p
    using that ok slots_ok_slot [OF ok, of u now] by (simp add: fire_simps slots_ok_others slot_ok_def holds_position_def)
  with ok show ?thesis by (auto simp: adopt_def opened_position_def split: option.split)
qed

lemma adopt_all_sound: "sound r \<Longrightarrow> sound (foldl (\<lambda>r held. and_then r (adopt cfg parse listed ids tracked now held)) r ps)"
proof (induction ps arbitrary: r)
  case Nil
  then show ?case by simp
next
  case (Cons p ps)
  then show ?case by (cases r) (auto simp: adopt_sound)
qed

lemma start_sound:
  assumes "\<forall>v x. map_of (os_slots loaded) v = Some x \<longrightarrow> slot_ok x"
  shows "sound (start cfg parse listed ids now eq ps loaded)"
proof -
  have "sound (reconcile cfg parse listed ids now ps \<lparr> oe_slots = foldl (ensure_slot now) (os_slots loaded) (cf_underlyings cfg),
           oe_riskBook = risk_book_new (os_riskBook loaded) eq now, oe_calls = [] \<rparr>)"
    unfolding reconcile_def Let_def using ensure_ok [OF assms, of now "cf_underlyings cfg"]
    by (intro adopt_all_sound) (simp only: sound.simps, rule reconcile_all_ok, simp add: slots_ok_def)
  then show ?thesis unfolding start_def
    by (cases "reconcile cfg parse listed ids now ps \<lparr> oe_slots = foldl (ensure_slot now) (os_slots loaded) (cf_underlyings cfg),
           oe_riskBook = risk_book_new (os_riskBook loaded) eq now, oe_calls = [] \<rparr>") auto
qed

section \<open>What a pass sends\<close>

lemma fire_calls [simp]: "oe_calls (settled (fire u ev now s)) = oe_calls s"
  by (simp add: fire_simps split: option.split)

lemma settled_and_then: "(\<And>t. r = Inr t \<Longrightarrow> oe_calls (settled (f t)) = oe_calls t) \<Longrightarrow> oe_calls (settled (and_then r f)) = oe_calls (settled r)"
  by (cases r) auto

lemma then_same: "(\<And>t. oe_calls (settled (f t)) = oe_calls t) \<Longrightarrow> oe_calls (settled (and_then r f)) = oe_calls (settled r)"
  by (rule settled_and_then)

lemma closeOut_calls [simp]: "oe_calls (settled (closeOut cfg u ev ov now pos s)) = oe_calls s"
  by (simp add: closeOut_def Let_def then_same)

lemma reject_calls [simp]: "oe_calls (settled (reject u now s)) = oe_calls s"
  by (simp add: reject_def)

lemma applyEntry_calls [simp]: "oe_calls (settled (applyEntryResult cfg u i r known s)) = oe_calls s"
  by (simp add: applyEntryResult_def Let_def then_same split: option.split)

lemma applyExit_calls [simp]: "oe_calls (settled (applyExitResult cfg u now r fb pos s)) = oe_calls s"
  by (simp add: applyExitResult_def Let_def)

lemma exitFailed_calls [simp]: "oe_calls (settled (exitFailed u now pos s)) = oe_calls s"
  by (simp add: exitFailed_def)

definition sellable :: "options_config \<Rightarrow> pass_input \<Rightarrow> bool" where
  "sellable cfg i \<longleftrightarrow>
     (case pa_quote i of
        None \<Rightarrow> False
      | Some q \<Rightarrow> (case best_level (oq_bids q) of
                    None \<Rightarrow> False
                  | Some b \<Rightarrow> 0 < b \<and> \<not> cf_quoteStaleMs cfg < pa_exitNow i - oq_receivedAt q))"

lemma executeExit_calls:
  "oe_calls (settled (executeExit cfg u i pos s)) = oe_calls s @ (if sellable cfg i then [SellSent (exit_id pos)] else [])"
  by (simp add: executeExit_def sellable_def Let_def split: option.split)

fun is_buy :: "engine_call \<Rightarrow> bool" where
  "is_buy (BuySent i) = True"
| "is_buy c = False"

text \<open>The calls a pass adds, when none of them is a buy.\<close>

definition adds_no_buy :: "options_engine \<Rightarrow> pass_result \<Rightarrow> bool" where
  "adds_no_buy s r \<longleftrightarrow> (\<exists>new. oe_calls (settled r) = oe_calls s @ new \<and> \<not> list_ex is_buy new)"

lemma adds_no_buy_same: "oe_calls (settled r) = oe_calls s \<Longrightarrow> adds_no_buy s r"
  by (simp add: adds_no_buy_def)

lemma manage_no_buy: "adds_no_buy s (manage cfg u i s)"
proof -
  have ex: "adds_no_buy s (executeExit cfg u i p s')" if "oe_calls s' = oe_calls s" for p s'
    using that by (auto simp: adds_no_buy_def executeExit_calls)
  have "adds_no_buy s (and_then (fire u EXIT_TRIGGER now (put_position u now' (Some p) s)) (executeExit cfg u i p))" for now now' p
    using ex by (auto simp: fire_simps adds_no_buy_same split: option.split)
  then show ?thesis using ex [of s]
    by (auto simp: manage_def Let_def adds_no_buy_same split: option.split exit_decision.split)
qed

lemma detect_no_buy: "detectExternalClose cfg u i ps s = Some r \<Longrightarrow> adds_no_buy s r"
  by (auto simp: detectExternalClose_def Let_def adds_no_buy_def split: option.splits if_splits)

lemma resolve_no_buy: "adds_no_buy s (resolvePendingEntry cfg u i s)"
  by (auto simp: resolvePendingEntry_def Let_def adds_no_buy_def then_same split: option.splits)

text \<open>The saved slot of \<open>u\<close> waits for the order \<open>cid\<close> on contract \<open>c\<close> with the quantity and limit of the plan.\<close>

definition on_record :: "string \<Rightarrow> order_id \<Rightarrow> option_contract \<Rightarrow> entry_plan \<Rightarrow> (string \<times> underlying_slot) list \<Rightarrow> bool" where
  "on_record u cid c plan slots \<longleftrightarrow> list_ex (\<lambda>(v, x). v = u \<and> us_state x = ENTRY_PENDING \<and>
     (case us_pendingEntry x of None \<Rightarrow> False
      | Some p \<Rightarrow> pn_clientOrderId p = cid \<and> pn_contract p = c \<and> pn_qty p = en_qty plan \<and> pn_limitPrice p = en_limitPrice plan)) slots"

definition submitted :: "string \<Rightarrow> pass_input \<Rightarrow> option_contract \<Rightarrow> entry_plan \<Rightarrow> options_engine \<Rightarrow> pass_result \<Rightarrow> bool" where
  "submitted u i c plan s r \<longleftrightarrow> (\<exists>slots rb. oe_calls (settled r)
     = oe_calls s @ [Persisted slots rb, BuySent (EntryId (oc_symbol c) (pa_newId i))]
     \<and> on_record u (EntryId (oc_symbol c) (pa_newId i)) c plan slots)"

lemma submit_calls:
  assumes "us_state (slot u (pa_submitNow i) s) = SIGNAL_DETECTED"
  shows "submitted u i c plan s (submitEntry cfg u i c plan s)"
proof -
  define cid where "cid = EntryId (oc_symbol c) (pa_newId i)"
  define x where "x = (slot u (pa_submitNow i) s)\<lparr> us_pendingEntry := Some \<lparr> pn_clientOrderId = cid, pn_contract = c, pn_qty = en_qty plan,
       pn_limitPrice = en_limitPrice plan, pn_stopPct = cf_stopPct cfg, pn_targetPct = cf_targetPct cfg, pn_submittedAt = pa_submitNow i \<rparr>,
     us_state := ENTRY_PENDING, us_updatedAt := pa_submitNow i \<rparr>"
  define s1 where "s1 = put_slot u x (put_slot u ((slot u (pa_submitNow i) s)\<lparr> us_pendingEntry := us_pendingEntry x \<rparr>) s)"
  have "fire u SUBMIT (pa_submitNow i) (put_slot u ((slot u (pa_submitNow i) s)\<lparr> us_pendingEntry := us_pendingEntry x \<rparr>) s) = Inr s1"
    using assms by (simp add: fire_simps s1_def x_def)
  then have "oe_calls (settled (submitEntry cfg u i c plan s)) = oe_calls s @ [Persisted (oe_slots s1) (oe_riskBook s1), BuySent cid]"
    by (simp add: submitEntry_def Let_def x_def cid_def s1_def split: option.split)
  moreover have "map_of (oe_slots s1) u = Some x" by (simp add: s1_def)
  then have "on_record u cid c plan (oe_slots s1)"
    by (auto simp: on_record_def list_ex_iff x_def dest!: map_of_SomeD intro!: bexI)
  ultimately show ?thesis unfolding submitted_def cid_def by blast
qed

text \<open>
  Every guard of an entry: those of \<open>step\<close> and \<open>tryEntry\<close> (cooldown over, equity known, no halt of either kind, a
  position free, a fresh context with a direction) and those of \<open>enterFromSignal\<close> (a fresh index, a selected contract, a
  plan within its limits, no veto, a venue that executes, and an ask on the fresh quote within the plan's limit).
\<close>

definition entry_guards ::
  "options_config \<Rightarrow> pass_input \<Rightarrow> jsnum \<Rightarrow> open_exposure \<Rightarrow> option_contract \<Rightarrow> entry_plan \<Rightarrow> bool" where
  "entry_guards cfg i eq ex c plan \<longleftrightarrow>
     (\<exists>price time q fresh ask. pa_index i = Some (price, time) \<and> \<not> cf_indexStaleMs cfg < pa_indexNow i - time
        \<and> pa_selection i = Selected c q
        \<and> planEntry \<lparr> pp_equity = eq, pp_exposure = ex, pp_contract = c, pp_quote = q, pp_indexPrice = price,
             pp_stopPct = cf_stopPct cfg, pp_targetPct = cf_targetPct cfg, pp_limits = cf_risk cfg, pp_fees = cf_fees cfg \<rparr> = Inr plan
        \<and> pa_veto i \<in> {NoVetoer, Confirm} \<and> cf_canExecute cfg
        \<and> pa_freshQuote i = Some fresh \<and> best_level (oq_asks fresh) = Some ask \<and> 0 < ask \<and> \<not> en_limitPrice plan < ask)"

definition may_enter :: "options_config \<Rightarrow> string \<Rightarrow> pass_input \<Rightarrow> options_engine \<Rightarrow> option_contract \<Rightarrow> entry_plan \<Rightarrow> bool" where
  "may_enter cfg u i s c plan \<longleftrightarrow> us_state (slot u (pa_now i) s) = IDLE \<and> \<not> pa_now i < us_cooldownUntil (slot u (pa_now i) s)
     \<and> \<not> pa_halted i \<and> haltReason (cf_risk cfg) (oe_riskBook s) = None \<and> ox_openPositions (exposure s) < rl_maxOpenPositions (cf_risk cfg)
     \<and> (\<exists>view. pa_context i = Context view \<and> dv_right view \<noteq> None \<and> dv_realizedVol view \<noteq> None \<and> dv_atr1h view \<noteq> None)
     \<and> (\<exists>eq. pa_equity i = Some eq \<and> entry_guards cfg i eq (exposure s) c plan)"

lemma enter_calls:
  assumes "\<And>now. us_state (slot u now s) = SIGNAL_DETECTED"
  shows "oe_calls (settled (enterFromSignal cfg u i eq ex s)) = oe_calls s
     \<or> (\<exists>c plan. entry_guards cfg i eq ex c plan \<and> submitted u i c plan s (enterFromSignal cfg u i eq ex s))"
proof (cases "\<exists>price time c q plan fresh ask. pa_index i = Some (price, time) \<and> \<not> cf_indexStaleMs cfg < pa_indexNow i - time
        \<and> pa_selection i = Selected c q
        \<and> planEntry \<lparr> pp_equity = eq, pp_exposure = ex, pp_contract = c, pp_quote = q, pp_indexPrice = price,
             pp_stopPct = cf_stopPct cfg, pp_targetPct = cf_targetPct cfg, pp_limits = cf_risk cfg, pp_fees = cf_fees cfg \<rparr> = Inr plan
        \<and> pa_veto i \<in> {NoVetoer, Confirm} \<and> cf_canExecute cfg
        \<and> pa_freshQuote i = Some fresh \<and> best_level (oq_asks fresh) = Some ask \<and> 0 < ask \<and> \<not> en_limitPrice plan < ask")
  case True
  then obtain price time c q plan fresh ask where g: "pa_index i = Some (price, time)" "\<not> cf_indexStaleMs cfg < pa_indexNow i - time"
        "pa_selection i = Selected c q"
        "planEntry \<lparr> pp_equity = eq, pp_exposure = ex, pp_contract = c, pp_quote = q, pp_indexPrice = price,
             pp_stopPct = cf_stopPct cfg, pp_targetPct = cf_targetPct cfg, pp_limits = cf_risk cfg, pp_fees = cf_fees cfg \<rparr> = Inr plan"
        "pa_veto i \<in> {NoVetoer, Confirm}" "cf_canExecute cfg"
        "pa_freshQuote i = Some fresh" "best_level (oq_asks fresh) = Some ask" "0 < ask" "\<not> en_limitPrice plan < ask" by blast
  then have "enterFromSignal cfg u i eq ex s = submitEntry cfg u i c plan s" by (auto simp: enterFromSignal_def simp del: js_consts)
  then have "submitted u i c plan s (enterFromSignal cfg u i eq ex s)" using submit_calls [OF assms] by simp
  moreover have "entry_guards cfg i eq ex c plan" using g unfolding entry_guards_def by blast
  ultimately show ?thesis by blast
next
  case False
  then have "oe_calls (settled (enterFromSignal cfg u i eq ex s)) = oe_calls s"
    by (auto simp: enterFromSignal_def then_same simp del: js_consts split: option.split selection_answer.split sum.split veto_answer.split)
  then show ?thesis ..
qed

lemma tryEntry_calls:
  assumes "us_state (slot u (pa_now i) s) = IDLE" and "\<not> pa_now i < us_cooldownUntil (slot u (pa_now i) s)"
  shows "oe_calls (settled (tryEntry cfg u i s)) = oe_calls s
    \<or> (\<exists>c plan. may_enter cfg u i s c plan \<and> submitted u i c plan s (tryEntry cfg u i s))"
proof -
  define s1 where "s1 = put_slot u ((slot u (pa_now i) s)\<lparr> us_state := SIGNAL_DETECTED, us_updatedAt := pa_now i \<rparr>) s"
  have fire: "fire u SIGNAL (pa_now i) s = Inr s1" using assms by (simp add: fire_eq s1_def)
  have c: "oe_calls s1 = oe_calls s" "\<And>now. us_state (slot u now s1) = SIGNAL_DETECTED" by (simp_all add: s1_def)
  define f where "f eq = (case enterFromSignal cfg u i eq (exposure s) s1 of Inr s2 \<Rightarrow> Inr s2
      | Inl (e, s2) \<Rightarrow> if us_state (slot u (pa_now i) s2) = SIGNAL_DETECTED then reject u (pa_submitNow i) s2 else Inl (e, s2))" for eq
  have "oe_calls (settled (f eq)) = oe_calls (settled (enterFromSignal cfg u i eq (exposure s) s1))" for eq
    by (auto simp: f_def split: sum.split)
  then have "oe_calls (settled (f eq)) = oe_calls s
      \<or> (\<exists>c plan. entry_guards cfg i eq (exposure s) c plan \<and> submitted u i c plan s (f eq))" for eq
    using enter_calls [OF c(2), of cfg i eq "exposure s"] c(1) by (auto simp: submitted_def)
  note sent = this
  have "tryEntry cfg u i s = Inr s \<or> (\<exists>e. tryEntry cfg u i s = Inl (e, s)) \<or>
     (\<exists>eq view. tryEntry cfg u i s = f eq \<and> pa_equity i = Some eq \<and> \<not> pa_halted i \<and> haltReason (cf_risk cfg) (oe_riskBook s) = None \<and>
        ox_openPositions (exposure s) < rl_maxOpenPositions (cf_risk cfg) \<and> pa_context i = Context view
        \<and> dv_right view \<noteq> None \<and> dv_realizedVol view \<noteq> None \<and> dv_atr1h view \<noteq> None)"
    by (auto simp: tryEntry_def fire f_def split: option.split context_answer.split)
  then show ?thesis
  proof (elim disjE exE conjE)
    fix eq view
    assume t: "tryEntry cfg u i s = f eq" and g: "pa_equity i = Some eq" "\<not> pa_halted i" "haltReason (cf_risk cfg) (oe_riskBook s) = None"
      "ox_openPositions (exposure s) < rl_maxOpenPositions (cf_risk cfg)" "pa_context i = Context view"
      "dv_right view \<noteq> None" "dv_realizedVol view \<noteq> None" "dv_atr1h view \<noteq> None"
    have "may_enter cfg u i s c plan" if "entry_guards cfg i eq (exposure s) c plan" for c plan
      unfolding may_enter_def using g assms that by blast
    then show ?thesis using sent [of eq] unfolding t by blast
  qed auto
qed

lemma step_calls:
  assumes "slots_ok s"
  shows "adds_no_buy s (step cfg u i s) \<or> (\<exists>c plan. may_enter cfg u i s c plan \<and> submitted u i c plan s (step cfg u i s))"
proof (cases "us_state (slot u (pa_now i) s) = IDLE")
  case True
  show ?thesis
  proof (cases "pa_now i < us_cooldownUntil (slot u (pa_now i) s)")
    case True
    with \<open>us_state (slot u (pa_now i) s) = IDLE\<close> show ?thesis by (simp add: step_def Let_def adds_no_buy_same)
  next
    case False
    have "step cfg u i s = tryEntry cfg u i s" using True False by (simp add: step_def Let_def)
    then show ?thesis using tryEntry_calls [OF True False, of cfg] by (auto simp: adds_no_buy_same)
  qed
next
  case False
  have "adds_no_buy s (case (case pa_positions i of None \<Rightarrow> None | Some ps \<Rightarrow> detectExternalClose cfg u i ps s) of
      Some r \<Rightarrow> r | None \<Rightarrow> manage cfg u i s)"
    using manage_no_buy detect_no_buy by (auto split: option.split)
  with False show ?thesis
    by (auto simp: step_def Let_def adds_no_buy_same resolve_no_buy split: option_state.split)
qed

text \<open>What is left of the position after an exit attempt: nothing, or a position that keeps its reason and its next order id.\<close>

definition exit_left :: "string \<Rightarrow> open_option_position \<Rightarrow> bool \<Rightarrow> options_engine \<Rightarrow> bool" where
  "exit_left u pos lost s \<longleftrightarrow>
     (\<exists>y. map_of (oe_slots s) u = Some y \<and>
       (us_state y = POSITION_CLOSED \<and> us_position y = None \<or>
        us_state y = EXIT_PENDING \<and> (\<exists>p. us_position y = Some p \<and> op_exitReason p = op_exitReason pos \<and> (lost \<longrightarrow> exit_id p = exit_id pos))))"

lemma closeOut_left:
  assumes "map_of (oe_slots s) u = Some x" and "us_state x = EXIT_PENDING"
  shows "exit_left u pos lost (settled (closeOut cfg u EXIT_FILL ov now p s))"
  using assms by (simp add: closeOut_def fire_simps exit_left_def)

lemma retry_left:
  assumes "map_of (oe_slots s) u = Some x" and "us_state x = EXIT_PENDING" and "us_position x = Some p"
    and "op_exitReason p = op_exitReason pos" and "lost \<longrightarrow> exit_id p = exit_id pos" and "ev = EXIT_RETRY \<or> ev = PARTIAL_EXIT"
  shows "exit_left u pos lost (settled (fire u ev now s))"
  using assms by (auto simp: fire_simps exit_left_def)

lemma applyExit_left:
  assumes "map_of (oe_slots s) u = Some x" and "us_state x = EXIT_PENDING" and "us_position x = Some p"
    and "op_exitReason p = op_exitReason pos"
  shows "exit_left u pos False (settled (applyExitResult cfg u now r fb p s))"
  using assms by (auto simp: applyExitResult_def Let_def intro!: retry_left closeOut_left)

lemma exitFailed_left:
  assumes "map_of (oe_slots s) u = Some x" and "us_state x = EXIT_PENDING" and "op_exitReason p = op_exitReason pos"
    and "lost \<longrightarrow> op_unresolvedExitId p = Some (exit_id pos)"
  shows "exit_left u pos lost (settled (exitFailed u now p s))"
  unfolding exitFailed_def using assms
  by (intro retry_left [of _ _ "x\<lparr> us_position := Some (p\<lparr> op_exitAttempts := op_exitAttempts p + 1 \<rparr>) \<rparr>"
        "p\<lparr> op_exitAttempts := op_exitAttempts p + 1 \<rparr>"]) (auto simp: exit_id_def)

lemma executeExit_left:
  assumes "map_of (oe_slots s) u = Some x" and "us_state x = EXIT_PENDING"
  shows "exit_left u pos (sellable cfg i \<and> pa_sellAnswer i = None) (settled (executeExit cfg u i pos s))"
proof -
  define p where "p = pos\<lparr> op_unresolvedExitId := None, op_exitAttempts := Suc (op_exitAttempts pos) \<rparr>"
  have answered: "exit_left u pos False (settled (applyExitResult cfg u now r fb p (put_position u now (Some p) (note_call c s))))" for now r fb c
    using assms by (intro applyExit_left [of _ _ "x\<lparr> us_position := Some p \<rparr>"]) (simp_all add: p_def)
  have lost: "exit_left u pos True (settled (exitFailed u now (pos\<lparr> op_unresolvedExitId := Some (exit_id pos) \<rparr>) (note_call c s)))" for now c
    using assms by (intro exitFailed_left [of _ _ x]) simp_all
  have failed: "exit_left u pos False (settled (exitFailed u now pos s))" for now
    using assms by (intro exitFailed_left [of _ _ x]) simp_all
  show ?thesis using answered lost failed
    by (auto simp: executeExit_def sellable_def Let_def p_def split: option.split)
qed

definition venue_holds :: "pass_input \<Rightarrow> open_option_position \<Rightarrow> bool" where
  "venue_holds i pos \<longleftrightarrow>
     (case pa_positions i of
        None \<Rightarrow> True
      | Some ps \<Rightarrow> list_ex (\<lambda>p. vp_symbol p = oc_symbol (op_contract pos) \<and> EPS < vp_qty p) ps)"

lemma step_manages:
  assumes "map_of (oe_slots s) u = Some x" and "holds_position (us_state x)" and "us_position x = Some pos" and "venue_holds i pos"
  shows "step cfg u i s = manage cfg u i s"
  using assms by (auto simp: step_def holds_position_def venue_holds_def detectExternalClose_def list_ex_iff Let_def split: option.splits)

section \<open>Properties\<close>

text \<open>
  C13. The machine of every underlying stays sound: from a start on any state file whose slots are sound,
  over any cycles and whatever the chain, the venue and the clock answer, a slot holds a position exactly
  when it is open or exiting and an entry order exactly when one is pending, an exiting position keeps its
  reason, and no pass fires an illegal transition or misses the position or order its state promises.
\<close>

theorem engine_slots_stay_sound:
  assumes "\<forall>v x. map_of (os_slots loaded) v = Some x \<longrightarrow> slot_ok x"
    and "start cfg parse listed ids now eq ps loaded = Inr s"
  shows "(\<forall>v x. map_of (oe_slots (run_steps (cycle cfg) s inputs)) v = Some x \<longrightarrow> slot_ok x)
    \<and> (\<forall>u i e t. step cfg u i (run_steps (cycle cfg) s inputs) = Inl (e, t) \<longrightarrow> outside_error e)"
proof -
  from start_sound [OF assms(1), of cfg parse listed ids now eq ps] assms(2) have "slots_ok s" by simp
  then have ok: "slots_ok (run_steps (cycle cfg) s inputs)" by (rule engine.inv_run)
  have "outside_error e" if "step cfg u i (run_steps (cycle cfg) s inputs) = Inl (e, t)" for u i e t
    using step_sound [OF ok, of cfg u i] that by simp
  then show ?thesis using ok by (auto simp: slots_ok_def)
qed

text \<open>
  C14. An entry is sent once, with every guard open, and on record: a pass that sends a buy started from an idle slot
  whose cooldown was over, with the equity known, the kill switch off, no loss halt, a position free, a fresh context
  with a direction, a fresh index, a contract selected, a plan within its limits, no veto, a venue that executes and a
  fresh ask within the plan's limit; its only calls are the save of a state in which the slot waits for that order with
  the plan's quantity and limit price, and then the buy itself, once.
\<close>

theorem entry_sent_once_and_on_record:
  assumes "slots_ok s" and "oe_calls (settled (step cfg u i s)) = oe_calls s @ new" and "BuySent cid \<in> set new"
  shows "\<exists>c plan slots rb. may_enter cfg u i s c plan \<and> cid = EntryId (oc_symbol c) (pa_newId i)
    \<and> new = [Persisted slots rb, BuySent cid] \<and> on_record u cid c plan slots"
proof -
  have "\<not> adds_no_buy s (step cfg u i s)" using assms(2,3) by (auto simp: adds_no_buy_def list_ex_iff intro!: bexI [of _ "BuySent cid"])
  then obtain c plan where "may_enter cfg u i s c plan" "submitted u i c plan s (step cfg u i s)" using step_calls [OF assms(1)] by blast
  moreover from this(2) assms(2,3) have "cid = EntryId (oc_symbol c) (pa_newId i) \<and>
      (\<exists>slots rb. new = [Persisted slots rb, BuySent cid] \<and> on_record u cid c plan slots)" by (auto simp: submitted_def)
  ultimately show ?thesis by blast
qed

text \<open>
  C15. An exit decided in a pass is acted on in that pass: when the exit rules say exit and the venue still
  holds the position, the slot ends exiting for that reason or closed, and if the book is fresh and has a
  bid, exactly one sell is sent, under the position's next order id.
\<close>

theorem decided_exit_is_sent:
  assumes "map_of (oe_slots s) u = Some x" and "us_state x = POSITION_OPEN" and "us_position x = Some pos" and "venue_holds i pos"
    and "evaluateExit \<lparr> ep_leg = op_leg pos, ep_quote = pa_quote i, ep_now = pa_evalNow i, ep_staleMs = cf_quoteStaleMs cfg,
           ep_limits = cf_exits cfg, ep_direction = pa_direction i \<rparr> = Exit leg why bid"
  shows "(\<exists>y. map_of (oe_slots (settled (step cfg u i s))) u = Some y \<and>
      (us_state y = POSITION_CLOSED \<or> us_state y = EXIT_PENDING \<and> map_option op_exitReason (us_position y) = Some (Some why)))
    \<and> oe_calls (settled (step cfg u i s)) = oe_calls s @ (if sellable cfg i then [SellSent (exit_id pos)] else [])"
proof -
  define p where "p = pos\<lparr> op_leg := leg, op_exitReason := Some why \<rparr>"
  define s1 where "s1 = put_slot u (x\<lparr> us_position := Some p, us_state := EXIT_PENDING, us_updatedAt := pa_evalNow i \<rparr>) (put_position u (pa_now i) (Some p) s)"
  have "step cfg u i s = manage cfg u i s"
    using step_manages assms(1-4) by (simp add: holds_position_def)
  also have "\<dots> = executeExit cfg u i p s1"
    using assms by (simp add: manage_def Let_def fire_simps p_def s1_def)
  finally have step: "step cfg u i s = executeExit cfg u i p s1" .
  have "exit_left u p (sellable cfg i \<and> pa_sellAnswer i = None) (settled (step cfg u i s))"
    unfolding step
    by (rule executeExit_left [where x = "x\<lparr> us_position := Some p, us_state := EXIT_PENDING, us_updatedAt := pa_evalNow i \<rparr>"])
      (simp_all add: s1_def)
  moreover have "oe_calls s1 = oe_calls s" "exit_id p = exit_id pos" "op_exitReason p = Some why"
    by (simp_all add: s1_def p_def exit_id_def split: option.split)
  ultimately show ?thesis by (auto simp: step executeExit_calls exit_left_def)
qed

text \<open>
  A shortfall found at the start is booked nowhere: when the venue holds less of a contract than the
  state file, the tracked quantity is lowered to the venue's, and when that is then sold, the loss recorded
  is that of the sold quantity alone, whatever was tracked before, though the premium of the missing
  contracts was paid.
\<close>

theorem reconciled_shortfall_is_not_booked:
  assumes "map_of (oe_slots s) u = Some x" and "us_state x = EXIT_PENDING" and "us_position x = Some pos"
    and "find (\<lambda>p. vp_symbol p = oc_symbol (op_contract pos)) ps = Some held" and "vp_qty held = Fin h" and "op_qty pos = Fin n"
    and "1 < h" and "h < n - 1" and "op_closedQty pos = 0" and "op_exitProceeds pos = 0" and "op_exitFees pos = 0"
    and "or_filledQty r = Fin h" and "0 < or_avgPrice r"
    and "s1 = reconcile_qty ps now s u" and "us_position (slot u now s1) = Some p"
  shows "op_qty p = Fin h
    \<and> oe_riskBook (settled (applyExitResult cfg u t r fb p s1))
       = risk_record (Fin h * or_avgPrice r - or_fee r - (Fin h * op_entryPrice pos + op_entryFee pos)) t (oe_riskBook s)"
proof -
  have s1: "s1 = put_position u now (Some (pos\<lparr> op_qty := Fin h \<rparr>)) s"
    using assms(1-8,14) by (auto simp: reconcile_qty_def EPS_def Let_def)
  with assms(15) have p: "p = pos\<lparr> op_qty := Fin h \<rparr>" by simp
  have "toFixed 12 (Fin 0) = Fin 0" using toFixed_grid [of 1 12 "10 ^ 12" 0] by simp
  then have "applyExitResult cfg u t r fb p s1 = closeOut cfg u EXIT_FILL None t
     (p\<lparr> op_closedQty := Fin h, op_exitProceeds := Fin h * or_avgPrice r, op_exitFees := or_fee r, op_qty := Fin 0 \<rparr>)
     (put_position u t (Some (p\<lparr> op_closedQty := Fin h, op_exitProceeds := Fin h * or_avgPrice r, op_exitFees := or_fee r, op_qty := Fin 0 \<rparr>)) s1)"
    using assms(7,9-13) by (simp add: applyExitResult_def p EPS_def Let_def del: toFixed.simps)
  then show ?thesis using assms(1,2) by (simp add: p s1 closeOut_def fire_simps put_position_def)
qed

section \<open>Witnesses\<close>

definition demo_config :: options_config where
  "demo_config = \<lparr> cf_underlyings = [''BTCUSDT''], cf_stopPct = Fin 50, cf_targetPct = Fin 100, cf_exits = ep_limits demo_exit,
     cf_quoteStaleMs = Fin 5000, cf_indexStaleMs = Fin 5000, cf_risk = pp_limits demo_plan, cf_fees = pp_fees demo_plan,
     cf_cooldownMs = Fin 1000, cf_canExecute = True \<rparr>"

definition demo_book_quote :: option_quote where
  "demo_book_quote = \<lparr> oq_symbol = ''BTC-C'', oq_bids = [(Fin 4, Fin 3)], oq_asks = [(Fin 10, Fin 3)], oq_mark = Fin 5, oq_receivedAt = Fin 1000 \<rparr>"

definition demo_pass :: pass_input where
  "demo_pass = \<lparr> pa_now = Fin 1000, pa_equity = Some (Fin 1000), pa_positions = None, pa_halted = False,
     pa_context = Context \<lparr> dv_right = Some CE, dv_realizedVol = Some (Fin 1), dv_atr1h = Some (Fin 1) \<rparr>,
     pa_index = Some (Fin 100, Fin 1000), pa_indexNow = Fin 1000, pa_selection = Selected (pp_contract demo_plan) (pp_quote demo_plan),
     pa_veto = NoVetoer, pa_freshQuote = Some demo_book_quote, pa_newId = ''1'', pa_submitNow = Fin 1000, pa_buyAnswer = None,
     pa_found = None, pa_rereadPositions = None, pa_resultNow = Fin 1000, pa_quote = Some demo_book_quote, pa_direction = None,
     pa_evalNow = Fin 1000, pa_exitNow = Fin 1000, pa_exitIndex = None, pa_sellAnswer = None, pa_closeNow = Fin 1000 \<rparr>"

definition demo_held :: open_option_position where
  "demo_held = opened_position (pp_contract demo_plan) (Fin 5) (Fin 10) (Fin 0) (EntryId ''BTC-C'' ''1'')
     \<lparr> ml_right = CE, ml_entryPrice = Fin 10, ml_stopPremium = Fin 5, ml_targetPremium = Fin 20, ml_peakBid = Fin 10,
       ml_trailActive = False, ml_openedAt = Fin 0, ml_expiryMs = Fin 100000000 \<rparr>"

definition demo_slot :: "option_state \<Rightarrow> underlying_slot" where
  "demo_slot st = \<lparr> us_state = st, us_updatedAt = Fin 0, us_cooldownUntil = Fin 0, us_pendingEntry = None,
     us_position = (if st = IDLE then None else Some (if st = POSITION_OPEN then demo_held else demo_held\<lparr> op_exitReason := Some STOP_LOSS \<rparr>)) \<rparr>"

definition demo_desk :: "option_state \<Rightarrow> options_engine" where
  "demo_desk st = \<lparr> oe_slots = [(''BTCUSDT'', demo_slot st)],
     oe_riskBook = \<lparr> rb_day = Fin 0, rb_dayStartEquity = Fin 1000, rb_realizedToday = Fin 0, rb_lossStreak = 0 \<rparr>, oe_calls = [] \<rparr>"

lemma demo_desk_slot: "map_of (oe_slots (demo_desk st)) ''BTCUSDT'' = Some (demo_slot st)"
  by (simp add: demo_desk_def)

lemma demo_slots_ok: "slots_ok (demo_desk IDLE)"
  by (simp add: slots_ok_def demo_desk_def slot_ok_def demo_slot_def holds_position_def)

lemma demo_sellable: "sellable demo_config demo_pass"
  by (simp add: sellable_def demo_pass_def demo_book_quote_def demo_config_def best_level_def)

theorem engine_slots_stay_sound_witness:
  "\<exists>s. start demo_config (\<lambda>x. None) (\<lambda>x. None) (\<lambda>x. x) (Fin 0) (Fin 1000) [] \<lparr> os_slots = [(''BTCUSDT'', demo_slot IDLE)], os_riskBook = None \<rparr> = Inr s
     \<and> (\<forall>v x. map_of (oe_slots (run_steps (cycle demo_config) s [])) v = Some x \<longrightarrow> slot_ok x)"
proof -
  let ?f = "\<lparr> os_slots = [(''BTCUSDT'', demo_slot IDLE)], os_riskBook = None \<rparr>"
  have "\<forall>v x. map_of (os_slots ?f) v = Some x \<longrightarrow> slot_ok x" by (simp add: slot_ok_def demo_slot_def holds_position_def)
  moreover obtain s where "start demo_config (\<lambda>x. None) (\<lambda>x. None) (\<lambda>x. x) (Fin 0) (Fin 1000) [] ?f = Inr s"
    by (simp add: start_def reconcile_def Let_def)
  ultimately show ?thesis using engine_slots_stay_sound [of ?f demo_config "\<lambda>x. None" "\<lambda>x. None" "\<lambda>x. x" "Fin 0" "Fin 1000" "[]" s "[]"] by blast
qed

lemma demo_decision: "evaluateExit \<lparr> ep_leg = op_leg demo_held, ep_quote = pa_quote demo_pass, ep_now = pa_evalNow demo_pass,
    ep_staleMs = cf_quoteStaleMs demo_config, ep_limits = cf_exits demo_config, ep_direction = pa_direction demo_pass \<rparr>
   = Exit (op_leg demo_held) STOP_LOSS (Some (Fin 4))"
  by (simp add: evaluateExit_def demo_pass_def demo_held_def demo_config_def demo_exit_def demo_book_quote_def opened_position_def
      best_level_def raise_peak_def trail_stop_def Let_def)

theorem decided_exit_is_sent_witness:
  "oe_calls (settled (step demo_config ''BTCUSDT'' demo_pass (demo_desk POSITION_OPEN))) = [SellSent (exit_id demo_held)]"
proof -
  have "us_state (demo_slot POSITION_OPEN) = POSITION_OPEN" "us_position (demo_slot POSITION_OPEN) = Some demo_held"
    "venue_holds demo_pass demo_held" by (simp_all add: demo_slot_def venue_holds_def demo_pass_def)
  from decided_exit_is_sent [OF demo_desk_slot this demo_decision] show ?thesis
    by (simp add: demo_sellable) (simp add: demo_desk_def)
qed

theorem reconciled_shortfall_is_not_booked_witness:
  "oe_riskBook (settled (applyExitResult demo_config ''BTCUSDT'' (Fin 10)
      \<lparr> or_clientOrderId = exit_id demo_held, or_status = FILLED, or_filledQty = Fin 2, or_avgPrice = Fin 10, or_fee = Fin 0, or_reason = None \<rparr> (Fin 1)
      (demo_held\<lparr> op_exitReason := Some STOP_LOSS, op_qty := Fin 2 \<rparr>)
      (reconcile_qty [\<lparr> vp_symbol = ''BTC-C'', vp_qty = Fin 2, vp_avgPrice = Fin 10 \<rparr>] (Fin 0) (demo_desk EXIT_PENDING) ''BTCUSDT'')))
   = risk_record (Fin 0) (Fin 10) (oe_riskBook (demo_desk EXIT_PENDING))"
proof -
  let ?p = "demo_held\<lparr> op_exitReason := Some STOP_LOSS \<rparr>" and ?h = "\<lparr> vp_symbol = ''BTC-C'', vp_qty = Fin 2, vp_avgPrice = Fin 10 \<rparr>"
  let ?r = "\<lparr> or_clientOrderId = exit_id demo_held, or_status = FILLED, or_filledQty = Fin 2, or_avgPrice = Fin 10, or_fee = Fin 0, or_reason = None \<rparr>"
  have a: "us_state (demo_slot EXIT_PENDING) = EXIT_PENDING" "us_position (demo_slot EXIT_PENDING) = Some ?p" by (simp_all add: demo_slot_def)
  have h: "find (\<lambda>p. vp_symbol p = oc_symbol (op_contract ?p)) [?h] = Some ?h" "vp_qty ?h = Fin 2" "op_qty ?p = Fin 5"
    by (simp_all add: demo_held_def opened_position_def demo_plan_def)
  have z: "(1::real) < 2" "(2::real) < 5 - 1" "op_closedQty ?p = 0" "op_exitProceeds ?p = 0" "op_exitFees ?p = 0" "or_filledQty ?r = Fin 2" "0 < or_avgPrice ?r"
    by (simp_all add: demo_held_def opened_position_def)
  have s1: "us_position (slot ''BTCUSDT'' (Fin 0) (reconcile_qty [?h] (Fin 0) (demo_desk EXIT_PENDING) ''BTCUSDT'')) = Some (?p\<lparr> op_qty := Fin 2 \<rparr>)"
    using a h by (simp add: reconcile_qty_def demo_desk_slot EPS_def Let_def)
  from reconciled_shortfall_is_not_booked [OF demo_desk_slot a h z refl s1, of demo_config "Fin 10" "Fin 1"] show ?thesis
    by (simp add: demo_held_def opened_position_def)
qed

lemma demo_signal_enters: "\<exists>slots rb. oe_calls (settled (step demo_config ''BTCUSDT'' demo_pass (demo_desk IDLE)))
    = [Persisted slots rb, BuySent (EntryId ''BTC-C'' ''1'')]"
proof -
  obtain e where e: "planEntry demo_plan = Inr e" "en_limitPrice e = Fin 10" using demo_plan_accepted by blast
  have plan: "planEntry \<lparr> pp_equity = Fin 1000, pp_exposure = \<lparr> ox_premiumAtRisk = Fin 0, ox_openPositions = 0 \<rparr>,
      pp_contract = pp_contract demo_plan, pp_quote = pp_quote demo_plan, pp_indexPrice = Fin 100, pp_stopPct = Fin 50,
      pp_targetPct = Fin 100, pp_limits = pp_limits demo_plan, pp_fees = pp_fees demo_plan \<rparr> = Inr e"
    using e(1) by (simp add: demo_plan_def)
  have lims: "rl_maxOpenPositions (pp_limits demo_plan) = 1" "rl_maxLossStreak (pp_limits demo_plan) = 3"
    "rl_maxDailyLossPct (pp_limits demo_plan) = Fin 5" "oc_symbol (pp_contract demo_plan) = ''BTC-C''"
    by (simp_all add: demo_plan_def)
  show ?thesis
    by (simp add: step_def tryEntry_def fire_simps demo_desk_def demo_slot_def slot_def demo_pass_def demo_config_def haltReason_def lims
        exposure_def enterFromSignal_def plan e(2) demo_book_quote_def best_level_def submitEntry_def put_slot_def persist_def note_call_def)
qed

theorem entry_sent_once_and_on_record_witness:
  "\<exists>c plan slots rb. oe_calls (settled (step demo_config ''BTCUSDT'' demo_pass (demo_desk IDLE))) = [Persisted slots rb, BuySent (EntryId ''BTC-C'' ''1'')]
     \<and> may_enter demo_config ''BTCUSDT'' demo_pass (demo_desk IDLE) c plan
     \<and> on_record ''BTCUSDT'' (EntryId ''BTC-C'' ''1'') c plan slots"
proof -
  have "oe_calls (demo_desk IDLE) = []" by (simp add: demo_desk_def)
  with demo_signal_enters entry_sent_once_and_on_record [OF demo_slots_ok, of demo_config "''BTCUSDT''" demo_pass _ "EntryId ''BTC-C'' ''1''"]
  show ?thesis by fastforce
qed

end
