(* ===== verification/KillSwitch.thy ===== *)
theory KillSwitch
  imports Interfaces
begin

text \<open>
  The operator's halt (\<open>src/ops/killSwitch.ts\<close>): a flag kept in memory and in a file. Reading is reduced to
  what the file holds, writing to whether the save succeeded.
\<close>

record kill_state =
  ks_halted :: bool
  ks_reason :: string
  ks_at :: jsnum

datatype kill_file = MissingFile | UnreadableFile | MalformedFile | KillFile kill_state

definition NOT_HALTED :: kill_state where
  "NOT_HALTED = \<lparr> ks_halted = False, ks_reason = '''', ks_at = 0 \<rparr>"

definition unreadable :: "string \<Rightarrow> kill_state" where
  "unreadable detail = \<lparr> ks_halted = True,
     ks_reason = ''kill-switch file '' @ detail @ ''; press k to resume once it is repaired or removed'', ks_at = 0 \<rparr>"

text \<open>A file that parses to another shape is malformed, like one that does not parse.\<close>

fun loadKillState :: "kill_file \<Rightarrow> kill_state" where
  "loadKillState MissingFile = NOT_HALTED"
| "loadKillState UnreadableFile = unreadable ''cannot read''"
| "loadKillState MalformedFile = unreadable ''malformed state''"
| "loadKillState (KillFile s) = s"

record kill_switch =
  kw_current :: kill_state
  kw_saveFailed :: bool
  kw_file :: kill_file

definition openKillSwitch :: "kill_file \<Rightarrow> kill_switch" where
  "openKillSwitch f = \<lparr> kw_current = loadKillState f, kw_saveFailed = False, kw_file = f \<rparr>"

definition isHalted :: "kill_switch \<Rightarrow> bool" where
  "isHalted k = ks_halted (kw_current k)"

text \<open>\<open>saved\<close> is the outcome of the write; a failed one leaves the file as it was.\<close>

definition toggle :: "kill_switch \<Rightarrow> string \<times> jsnum \<times> bool \<Rightarrow> kill_switch" where
  "toggle k op =
     (case op of (reason, now, saved) \<Rightarrow>
        (let s = \<lparr> ks_halted = (\<not> ks_halted (kw_current k)), ks_reason = reason, ks_at = now \<rparr>
         in k\<lparr> kw_current := s, kw_saveFailed := (\<not> saved), kw_file := (if saved then KillFile s else kw_file k) \<rparr>))"

interpretation killswitch: durable_store toggle "\<lambda>k (_::unit). Some (kw_current k)" "\<lambda>k _. Some (loadKillState (kw_file k))" "(=)"
  "\<lambda>(reason, now, saved). saved"
  by unfold_locales (auto simp: toggle_def Let_def)

lemma toggle_simps [simp]:
  "isHalted (toggle k op) = (\<not> isHalted k)" "kw_saveFailed (toggle k op) = (\<not> snd (snd op))"
  "snd (snd op) \<Longrightarrow> loadKillState (kw_file (toggle k op)) = kw_current (toggle k op)"
  by (cases op; simp add: toggle_def isHalted_def Let_def)+

text \<open>
  C34. A restart can only lose a halt the operator was warned about: after any toggles of a switch opened on
  any file, either the last save failed and the error is set, or a restart reads back exactly the current
  state; and while every save succeeds, nothing is ever lost.
\<close>

theorem halt_survives_restart:
  "kw_saveFailed (run_steps toggle (openKillSwitch f) ops)
   \<or> isHalted (openKillSwitch (kw_file (run_steps toggle (openKillSwitch f) ops))) = isHalted (run_steps toggle (openKillSwitch f) ops)"
proof (cases ops rule: rev_cases)
  case Nil
  then show ?thesis by (simp add: openKillSwitch_def)
next
  case (snoc ops' op)
  then show ?thesis by (cases "snd (snd op)") (simp_all add: run_steps_append openKillSwitch_def isHalted_def)
qed

text \<open>
  The switch fails closed: a start is unhalted only on a missing file or on one that says so; an
  unreadable or malformed file starts halted, and a switch in either state alternates with every toggle.
\<close>

theorem kill_switch_fails_closed:
  "isHalted (run_steps toggle (openKillSwitch f) ops) =
     ((case f of MissingFile \<Rightarrow> False | KillFile s \<Rightarrow> ks_halted s | _ \<Rightarrow> True) \<noteq> odd (length ops))"
proof -
  have "isHalted (run_steps toggle k ops) = (isHalted k \<noteq> odd (length ops))" for k
    by (induction ops arbitrary: k) auto
  then show ?thesis by (cases f) (auto simp: openKillSwitch_def isHalted_def NOT_HALTED_def unreadable_def)
qed

end
