(* ===== verification/LiveProtection.thy ===== *)
theory LiveProtection
  imports CoreTypes
begin

text \<open>
  Which resting orders protect a position, and what a start does about the orders it finds
  (\<open>src/binance/liveProtection.ts\<close>).
\<close>

datatype order_type = LIMIT | STOP_MARKET | TAKE_PROFIT_MARKET | OtherType string

definition ENTRY_ORDER_PREFIX :: string where "ENTRY_ORDER_PREFIX = ''e''"

record open_order_view =
  ov_symbol :: string
  ov_orderId :: nat
  ov_clientOrderId :: string
  ov_type :: order_type
  ov_side :: order_side
  ov_reduceOnly :: bool
  ov_closePosition :: bool
  ov_stopPrice :: jsnum
  ov_status :: string

record venue_position_view =
  vv_symbol :: string
  vv_amount :: jsnum

definition isEntryOrder :: "open_order_view \<Rightarrow> bool" where
  "isEntryOrder ord \<longleftrightarrow> ov_type ord = LIMIT \<and> \<not> ov_reduceOnly ord \<and> \<not> ov_closePosition ord
     \<and> take (length ENTRY_ORDER_PREFIX) (ov_clientOrderId ord) = ENTRY_ORDER_PREFIX"

definition isProtectiveOrder :: "open_order_view \<Rightarrow> bool" where
  "isProtectiveOrder ord \<longleftrightarrow> (ov_type ord = STOP_MARKET \<or> ov_type ord = TAKE_PROFIT_MARKET) \<and> ov_closePosition ord"

definition exitSideOf_amount :: "jsnum \<Rightarrow> order_side" where
  "exitSideOf_amount amount = (if 0 < amount then SELL else BUY)"

record position_protection =
  pt_stopPrice :: "jsnum option"
  pt_takeProfitPrice :: "jsnum option"
  pt_stopOrderIds :: "nat list"
  pt_takeProfitOrderIds :: "nat list"

definition protectionOf :: "open_order_view list \<Rightarrow> string \<Rightarrow> jsnum \<Rightarrow> position_protection" where
  "protectionOf orders symbol amount =
     (let mine = filter (\<lambda>ord. ov_symbol ord = symbol \<and> ov_side ord = exitSideOf_amount amount \<and> isProtectiveOrder ord) orders;
          stops = filter (\<lambda>ord. ov_type ord = STOP_MARKET) mine;
          targets = filter (\<lambda>ord. ov_type ord = TAKE_PROFIT_MARKET) mine;
          tightest = (if 0 < amount then math_max_list else math_min_list)
      in \<lparr> pt_stopPrice = (if stops = [] then None else Some (tightest (map ov_stopPrice stops))),
           pt_takeProfitPrice = (case targets of [] \<Rightarrow> None | t # ts \<Rightarrow> Some (ov_stopPrice t)),
           pt_stopOrderIds = map ov_orderId stops, pt_takeProfitOrderIds = map ov_orderId targets \<rparr>)"

record startup_reconciliation =
  sr_cancel :: "open_order_view list"
  sr_unprotected :: "string list"
  sr_unrecognised :: "open_order_view list"

text \<open>\<open>new Map(...)\<close>: a later entry of a symbol replaces the amount and keeps the place.\<close>

definition held_amounts :: "venue_position_view list \<Rightarrow> (string \<times> jsnum) list" where
  "held_amounts positions =
     foldl (\<lambda>m p. AList.update (vv_symbol p) (vv_amount p) m) [] (filter (\<lambda>p. \<not> js_eq (vv_amount p) 0) positions)"

definition planStartupReconciliation :: "open_order_view list \<Rightarrow> venue_position_view list \<Rightarrow> startup_reconciliation" where
  "planStartupReconciliation orders positions =
     (let held = held_amounts positions
      in \<lparr> sr_cancel = filter (\<lambda>ord. isEntryOrder ord \<or> isProtectiveOrder ord \<and> map_of held (ov_symbol ord) = None) orders,
           sr_unprotected = map fst (filter (\<lambda>(symbol, amount). pt_stopOrderIds (protectionOf orders symbol amount) = []) held),
           sr_unrecognised = filter (\<lambda>ord. \<not> isEntryOrder ord \<and> \<not> isProtectiveOrder ord) orders \<rparr>)"

section \<open>A start keeps what protects a position\<close>

lemma held_fold_of:
  "map_of (foldl (\<lambda>m p. AList.update (vv_symbol p) (vv_amount p) m) m ps) s \<noteq> None
     \<longleftrightarrow> map_of m s \<noteq> None \<or> s \<in> vv_symbol ` set ps"
  by (induction ps arbitrary: m) (auto simp: update_conv')

lemma held_of: "map_of (held_amounts positions) s \<noteq> None \<longleftrightarrow> (\<exists>p\<in>set positions. vv_symbol p = s \<and> \<not> js_eq (vv_amount p) 0)"
  unfolding held_amounts_def held_fold_of by auto

lemma held_distinct: "distinct (map fst (held_amounts positions))"
proof -
  have "distinct (map fst (foldl (\<lambda>m p. AList.update (vv_symbol p) (vv_amount p) m) m ps))" if "distinct (map fst m)" for m ps
    using that by (induction ps arbitrary: m) (auto simp: distinct_update)
  from this [of "[]"] show ?thesis by (simp add: held_amounts_def del: js_consts)
qed

lemma reported_unprotected:
  assumes "map_of (held_amounts positions) s = Some a"
  shows "s \<in> set (sr_unprotected (planStartupReconciliation orders positions))
    \<longleftrightarrow> \<not> (\<exists>ord\<in>set orders. ov_symbol ord = s \<and> ov_side ord = exitSideOf_amount a \<and> ov_type ord = STOP_MARKET \<and> ov_closePosition ord)"
proof -
  have "(s, b) \<in> set (held_amounts positions) \<longleftrightarrow> b = a" for b
    using assms held_distinct [of positions] map_of_eq_Some_iff by fastforce
  then have "s \<in> set (sr_unprotected (planStartupReconciliation orders positions))
      \<longleftrightarrow> pt_stopOrderIds (protectionOf orders s a) = []"
    by (force simp: planStartupReconciliation_def Let_def)
  then show ?thesis by (auto simp: protectionOf_def Let_def filter_empty_conv isProtectiveOrder_def)
qed

text \<open>
  C35. A start never cancels what protects a position and misses no bare one: on a symbol with a position it cancels
  nothing but its own resting entries, and it reports the symbol as unprotected exactly when no close-position stop
  rests on its exit side.
\<close>

theorem startup_keeps_protection:
  assumes "map_of (held_amounts positions) s = Some a"
  shows "(\<forall>ord. ord \<in> set (sr_cancel (planStartupReconciliation orders positions)) \<and> ov_symbol ord = s \<longrightarrow> isEntryOrder ord)
    \<and> (s \<in> set (sr_unprotected (planStartupReconciliation orders positions))
        \<longleftrightarrow> \<not> (\<exists>ord\<in>set orders. ov_symbol ord = s \<and> ov_side ord = exitSideOf_amount a \<and> ov_type ord = STOP_MARKET \<and> ov_closePosition ord))"
  using assms reported_unprotected [OF assms, of orders] by (auto simp: planStartupReconciliation_def Let_def)

lemma startup_keeps_protection_witness:
  "''BTCUSDT'' \<in> set (sr_unprotected (planStartupReconciliation [] [\<lparr> vv_symbol = ''BTCUSDT'', vv_amount = Fin 2 \<rparr>]))"
  using startup_keeps_protection [of "[\<lparr> vv_symbol = ''BTCUSDT'', vv_amount = Fin 2 \<rparr>]" "''BTCUSDT''" "Fin 2" "[]"]
  by (simp add: held_amounts_def)

text \<open>
  The prefix of the bot's entries is one letter, so an operator's limit order whose client id happens to begin with it
  is cancelled at a start, not reported.
\<close>

lemma foreign_limit_order_cancelled:
  assumes "ord \<in> set orders" and "ov_type ord = LIMIT" and "\<not> ov_reduceOnly ord" and "\<not> ov_closePosition ord"
    and "ov_clientOrderId ord = ''electron_'' @ rest"
  shows "ord \<in> set (sr_cancel (planStartupReconciliation orders positions))"
    and "ord \<notin> set (sr_unrecognised (planStartupReconciliation orders positions))"
  using assms by (simp_all add: planStartupReconciliation_def Let_def isEntryOrder_def ENTRY_ORDER_PREFIX_def)

end
