(* ===== verification/LiveBook.thy ===== *)
theory LiveBook
  imports LiveProtection PositionDriver
begin

text \<open>
  The live side of the position manager (\<open>src/binance/liveBook.ts\<close>): what the bot remembers of each live
  position, the cycle's refresh with its audit of the stop, partials, and the replacement of a stop. The
  exchange is an argument: what it answers to each call of an operation is a field of \<open>book_env\<close>, and the calls
  made are appended to \<open>lb_calls\<close> with their answers. Everything that touches one symbol's orders runs under the
  symbol's lock in the code, so an operation here is one step. A call that throws is taken to have had no effect at the
  venue (\<open>after_call\<close>), as the comments of the code assume for a refused cancel. Log lines are left out.
\<close>

section \<open>State\<close>

datatype live_mode = Shadow | On

record live_raw =
  lr_symbol :: string
  lr_positionAmt :: jsnum
  lr_entryPrice :: jsnum
  lr_markPrice :: jsnum
  lr_unrealizedProfit :: jsnum
  lr_liquidationPrice :: jsnum
  lr_leverage :: jsnum
  lr_isolated :: bool

record live_open_order =
  lo_orderId :: nat
  lo_type :: order_type
  lo_side :: order_side
  lo_stopPrice :: jsnum
  lo_closePosition :: bool

record live_meta =
  lm_symbol :: string
  lm_side :: side
  lm_strategy :: agent_id
  lm_stopLoss :: jsnum
  lm_takeProfit :: "jsnum option"
  lm_stopOrderId :: "nat option"
  lm_tpOrderId :: "nat option"
  lm_initialRisk :: "jsnum option"
  lm_openedAt :: jsnum
  lm_decisionId :: "string option"

text \<open>The file \<open>data/live-state.json\<close>; an entry that does not look like one is dropped.\<close>

datatype live_file = NoLiveFile | BadLiveFile | LiveFile "(string \<times> live_meta option) list"

record live_store =
  ls_positions :: "(string \<times> live_meta) list"
  ls_file :: live_file

definition isMeta :: "live_meta option \<Rightarrow> bool" where
  "isMeta v \<longleftrightarrow> (case v of None \<Rightarrow> False | Some m \<Rightarrow> is_finite (lm_stopLoss m))"

fun open_live_store :: "live_file \<Rightarrow> live_store" where
  "open_live_store (LiveFile ms) =
     \<lparr> ls_positions = map (\<lambda>(s, m). (s, the m)) (filter (\<lambda>(s, m). isMeta m) ms), ls_file = LiveFile ms \<rparr>"
| "open_live_store f = \<lparr> ls_positions = [], ls_file = f \<rparr>"

definition live_flush :: "bool \<Rightarrow> live_store \<Rightarrow> live_store" where
  "live_flush saveOk st = (if saveOk then st\<lparr> ls_file := LiveFile (map (\<lambda>(s, m). (s, Some m)) (ls_positions st)) \<rparr> else st)"

definition live_set :: "bool \<Rightarrow> live_meta \<Rightarrow> live_store \<Rightarrow> live_store" where
  "live_set saveOk m st = live_flush saveOk (st\<lparr> ls_positions := AList.update (lm_symbol m) m (ls_positions st) \<rparr>)"

definition live_delete :: "bool \<Rightarrow> string \<Rightarrow> live_store \<Rightarrow> live_store" where
  "live_delete saveOk s st =
     (if map_of (ls_positions st) s = None then st
      else live_flush saveOk (st\<lparr> ls_positions := AList.delete s (ls_positions st) \<rparr>))"

record simulated =
  sd_reduced :: jsnum
  sd_stop :: "jsnum option"
  sd_target :: "jsnum option option"

datatype reduce_id = PartialId string jsnum nat | EmergencyId string jsnum nat

datatype book_call =
    CancelCall string nat bool
  | PlaceCall string order_side order_type jsnum "nat option"
  | ReduceCall string order_side jsnum reduce_id "(string \<times> jsnum) option"

record live_book =
  lb_raw :: "(string \<times> live_raw) list"
  lb_sim :: "(string \<times> simulated) list"
  lb_store :: live_store
  lb_announced :: "string list"
  lb_sequence :: nat
  lb_calls :: "book_call list"

text \<open>
  The options, the tick rules, the clock, and the exchange's answers to one operation: the fetch of a refresh, the
  reads of the positions under a symbol's lock by their number, the open orders, the cancels by order id, the
  placements on a symbol by their number, and the market order. \<open>None\<close> is a call that throws.
\<close>

record book_env =
  be_mode :: live_mode
  be_attempts :: nat
  be_rules :: rules_map
  be_now :: jsnum
  be_saveOk :: bool
  be_fetched :: "live_raw list option"
  be_positions :: "string \<Rightarrow> nat \<Rightarrow> live_raw list option"
  be_orders :: "string \<Rightarrow> live_open_order list option"
  be_cancel :: "string \<Rightarrow> nat \<Rightarrow> bool"
  be_place :: "string \<Rightarrow> nat \<Rightarrow> nat option"
  be_reduce :: "string \<Rightarrow> (string \<times> jsnum) option"

definition exitSideOf :: "side \<Rightarrow> order_side" where
  "exitSideOf s = (if s = LONG then SELL else BUY)"

definition sideOfAmount :: "jsnum \<Rightarrow> side" where
  "sideOfAmount amt = (if 0 < amt then LONG else SHORT)"

definition metaOf :: "live_book \<Rightarrow> string \<Rightarrow> live_meta option" where
  "metaOf b s = map_of (ls_positions (lb_store b)) s"

definition set_meta :: "book_env \<Rightarrow> live_meta \<Rightarrow> live_book \<Rightarrow> live_book" where
  "set_meta e m b = b\<lparr> lb_store := live_set (be_saveOk e) m (lb_store b) \<rparr>"

definition call_of :: "book_call list \<Rightarrow> live_book \<Rightarrow> live_book" where
  "call_of cs b = b\<lparr> lb_calls := lb_calls b @ cs \<rparr>"

section \<open>Entries\<close>

record entry_record =
  er_symbol :: string
  er_side :: side
  er_strategy :: agent_id
  er_stopLoss :: jsnum
  er_takeProfit :: "jsnum option"
  er_stopOrderId :: "nat option"
  er_tpOrderId :: "nat option"
  er_decisionId :: "string option"

definition recordEntry :: "book_env \<Rightarrow> entry_record \<Rightarrow> live_book \<Rightarrow> live_book" where
  "recordEntry e en b =
     (let prior = metaOf b (er_symbol en);
          sameSide = (map_option lm_side prior = Some (er_side en));
          m = \<lparr> lm_symbol = er_symbol en, lm_side = er_side en, lm_strategy = er_strategy en, lm_stopLoss = er_stopLoss en,
                lm_takeProfit = er_takeProfit en, lm_stopOrderId = er_stopOrderId en, lm_tpOrderId = er_tpOrderId en,
                lm_initialRisk = (if sameSide then Option.bind prior lm_initialRisk else None),
                lm_openedAt = (if sameSide then lm_openedAt (the prior) else be_now e), lm_decisionId = er_decisionId en \<rparr>
      in (set_meta e m b)\<lparr> lb_sim := AList.delete (er_symbol en) (lb_sim b) \<rparr>)"

section \<open>Orders\<close>

text \<open>The attempts from number \<open>i\<close> on, \<open>n\<close> of them.\<close>

fun placeWithRetry :: "book_env \<Rightarrow> string \<Rightarrow> order_side \<Rightarrow> order_type \<Rightarrow> jsnum \<Rightarrow> nat \<Rightarrow> nat \<Rightarrow> nat option \<times> book_call list" where
  "placeWithRetry e s sd ty p i 0 = (None, [])"
| "placeWithRetry e s sd ty p i (Suc n) =
     (case be_place e s i of
        Some oid \<Rightarrow> (Some oid, [PlaceCall s sd ty p (Some oid)])
      | None \<Rightarrow> (case placeWithRetry e s sd ty p (Suc i) n of (r, cs) \<Rightarrow> (r, PlaceCall s sd ty p None # cs)))"

definition refreshRaw :: "string \<Rightarrow> live_raw option \<Rightarrow> live_book \<Rightarrow> live_book" where
  "refreshRaw s p b = b\<lparr> lb_raw := (case p of Some r \<Rightarrow> AList.update s r (lb_raw b) | None \<Rightarrow> AList.delete s (lb_raw b)) \<rparr>"

definition find_raw :: "string \<Rightarrow> live_raw list \<Rightarrow> live_raw option" where
  "find_raw s ps = find (\<lambda>p. lr_symbol p = s) ps"

text \<open>\<open>n\<close> is the number of the read under the lock.\<close>

definition emergencyClose :: "book_env \<Rightarrow> nat \<Rightarrow> live_meta \<Rightarrow> live_book \<Rightarrow> live_book" where
  "emergencyClose e n m b =
     (let s = lm_symbol m;
          b1 = (case be_positions e s n of None \<Rightarrow> b | Some ps \<Rightarrow> refreshRaw s (find_raw s ps) b);
          held = (case be_positions e s n of None \<Rightarrow> map_of (lb_raw b) s | Some ps \<Rightarrow> find_raw s ps);
          quantity = (case held of Some p \<Rightarrow> roundQty (be_rules e) s (abs (lr_positionAmt p)) | None \<Rightarrow> 0)
      in if \<not> 0 < quantity then b1
         else (call_of [ReduceCall s (exitSideOf (lm_side m)) quantity (EmergencyId s (be_now e) (lb_sequence b1)) (be_reduce e s)] b1)
                \<lparr> lb_sequence := lb_sequence b1 + 1 \<rparr>)"

definition replaceStop :: "book_env \<Rightarrow> live_meta \<Rightarrow> jsnum \<Rightarrow> live_book \<Rightarrow> live_book" where
  "replaceStop e m newStop b =
     (let s = lm_symbol m; exitSide = exitSideOf (lm_side m);
          cancelled = (case lm_stopOrderId m of None \<Rightarrow> True | Some oid \<Rightarrow> be_cancel e s oid);
          b1 = (case lm_stopOrderId m of None \<Rightarrow> b | Some oid \<Rightarrow> call_of [CancelCall s oid cancelled] b)
      in if \<not> cancelled then b1
         else (case placeWithRetry e s exitSide STOP_MARKET newStop 0 (be_attempts e) of
             (Some oid, cs) \<Rightarrow> set_meta e (m\<lparr> lm_stopLoss := newStop, lm_stopOrderId := Some oid \<rparr>) (call_of cs b1)
           | (None, cs) \<Rightarrow>
               (case placeWithRetry e s exitSide STOP_MARKET (lm_stopLoss m) (be_attempts e) (be_attempts e) of
                  (Some oid, cs') \<Rightarrow> set_meta e (m\<lparr> lm_stopOrderId := Some oid \<rparr>) (call_of (cs @ cs') b1)
                | (None, cs') \<Rightarrow> emergencyClose e 0 m (call_of (cs @ cs') b1))))"

definition dropTarget :: "book_env \<Rightarrow> live_meta \<Rightarrow> live_book \<Rightarrow> live_book" where
  "dropTarget e m b =
     (let s = lm_symbol m; dropped = set_meta e (m\<lparr> lm_takeProfit := None, lm_tpOrderId := None \<rparr>)
      in case lm_tpOrderId m of
           None \<Rightarrow> dropped b
         | Some oid \<Rightarrow> (let b1 = call_of [CancelCall s oid (be_cancel e s oid)] b
                          in if be_cancel e s oid then dropped b1 else b1))"

text \<open>What the audit does to one managed symbol; \<open>False\<close> when the second read of the positions throws.\<close>

definition auditProtection :: "book_env \<Rightarrow> string \<Rightarrow> live_book \<Rightarrow> bool \<times> live_book" where
  "auditProtection e s b =
     (case metaOf b s of
        None \<Rightarrow> (True, b)
      | Some m \<Rightarrow>
          (case be_orders e s of
             None \<Rightarrow> (True, b)
           | Some open_orders \<Rightarrow>
               (case find (\<lambda>ord. lo_type ord = STOP_MARKET \<and> lo_closePosition ord \<and> lo_side ord = exitSideOf (lm_side m)) open_orders of
                  Some ord \<Rightarrow>
                    (True, if Some (lo_orderId ord) \<noteq> lm_stopOrderId m \<or> \<not> js_eq (lo_stopPrice ord) (lm_stopLoss m)
                           then set_meta e (m\<lparr> lm_stopOrderId := Some (lo_orderId ord), lm_stopLoss := lo_stopPrice ord \<rparr>) b else b)
                | None \<Rightarrow>
                    (case be_positions e s 0 of
                       None \<Rightarrow> (False, b)
                     | Some ps \<Rightarrow>
                         (let current = find_raw s ps; b1 = refreshRaw s current b
                          in if map_option (sideOfAmount \<circ> lr_positionAmt) current \<noteq> Some (lm_side m)
                             then (True, b1\<lparr> lb_store := live_delete (be_saveOk e) s (lb_store b1), lb_sim := AList.delete s (lb_sim b1) \<rparr>)
                             else (case placeWithRetry e s (exitSideOf (lm_side m)) STOP_MARKET (lm_stopLoss m) 0 (be_attempts e) of
                                 (Some oid, cs) \<Rightarrow> (True, set_meta e (m\<lparr> lm_stopOrderId := Some oid \<rparr>) (call_of cs b1))
                               | (None, cs) \<Rightarrow> (True, emergencyClose e 1 m (call_of cs b1))))))))"

section \<open>The cycle\<close>

definition refresh_symbol :: "book_env \<Rightarrow> string \<Rightarrow> live_book \<Rightarrow> bool \<times> live_book" where
  "refresh_symbol e s b =
     (case metaOf b s of
        None \<Rightarrow> (False, b)
      | Some m \<Rightarrow>
          (case map_of (lb_raw b) s of
             Some p \<Rightarrow>
               if sideOfAmount (lr_positionAmt p) \<noteq> lm_side m
               then (True, b\<lparr> lb_store := live_delete (be_saveOk e) s (lb_store b), lb_sim := AList.delete s (lb_sim b) \<rparr>)
               else (let risk = abs (lr_entryPrice p - lm_stopLoss m);
                         b1 = (if lm_initialRisk m = None \<and> 0 < risk then set_meta e (m\<lparr> lm_initialRisk := Some risk \<rparr>) b else b)
                     in if be_mode e = On then auditProtection e s b1 else (True, b1))
           | None \<Rightarrow> (True, b\<lparr> lb_store := live_delete (be_saveOk e) s (lb_store b), lb_sim := AList.delete s (lb_sim b) \<rparr>)))"

fun refresh_symbols :: "book_env \<Rightarrow> string list \<Rightarrow> live_book \<Rightarrow> bool \<times> live_book" where
  "refresh_symbols e [] b = (True, b)"
| "refresh_symbols e (s # ss) b =
     (case refresh_symbol e s b of (ok, b') \<Rightarrow> if ok then refresh_symbols e ss b' else (False, b'))"

definition announce :: "live_raw \<Rightarrow> live_book \<Rightarrow> live_book" where
  "announce p b =
     (if metaOf b (lr_symbol p) \<noteq> None \<or> lr_symbol p \<in> set (lb_announced b) then b
      else b\<lparr> lb_announced := lr_symbol p # lb_announced b \<rparr>)"

text \<open>\<open>False\<close> is a refresh that throws.\<close>

definition live_refresh :: "book_env \<Rightarrow> live_book \<Rightarrow> bool \<times> live_book" where
  "live_refresh e b =
     (case be_fetched e of
        None \<Rightarrow> (False, b)
      | Some ps \<Rightarrow>
          (let b1 = b\<lparr> lb_raw := foldl (\<lambda>m p. AList.update (lr_symbol p) p m) [] ps \<rparr>
           in case refresh_symbols e (map fst (ls_positions (lb_store b1))) b1 of
                (ok, b2) \<Rightarrow> (ok, if ok then foldl (\<lambda>b p. announce p b) b2 ps else b2)))"

definition live_position :: "(string \<Rightarrow> jsnum option) \<Rightarrow> live_book \<Rightarrow> string \<times> live_raw \<Rightarrow> position option" where
  "live_position prices b sr =
     (let s = fst sr; raw = snd sr
      in case metaOf b s of
           None \<Rightarrow> None
         | Some m \<Rightarrow>
             (let sim = map_of (lb_sim b) s;
                  qty = abs (lr_positionAmt raw) - (case sim of Some x \<Rightarrow> sd_reduced x | None \<Rightarrow> 0);
                  direction = (if lm_side m = LONG then 1 else - 1);
                  mark = (case prices s of Some p \<Rightarrow> p | None \<Rightarrow> lr_markPrice raw);
                  stop = (case Option.bind sim sd_stop of Some x \<Rightarrow> x | None \<Rightarrow> lm_stopLoss m);
                  target = (case Option.bind sim sd_target of Some t \<Rightarrow> t | None \<Rightarrow> lm_takeProfit m)
              in if \<not> 0 < qty then None
                 else Some \<lparr> p_id = s @ ''_'' @ agent_name (lm_strategy m), p_symbol = s, p_side = lm_side m, p_strategy = lm_strategy m,
                   p_entry = lr_entryPrice raw, p_qty = qty, p_mark = mark, p_upnl = (mark - lr_entryPrice raw) * qty * direction,
                   p_upnlPct = (if truthy (lr_entryPrice raw) then (mark - lr_entryPrice raw) / lr_entryPrice raw * 100 * direction else 0),
                   p_leverage = lr_leverage raw, p_marginType = (if lr_isolated raw then ISOLATED else CROSS),
                   p_liqDistancePct = (if 0 < lr_liquidationPrice raw \<and> 0 < mark
                                       then Some (abs (mark - lr_liquidationPrice raw) / mark * 100) else None),
                   p_serverSl = Level stop, p_serverTp = (case target of None \<Rightarrow> Label ''trail'' | Some t \<Rightarrow> Level t),
                   p_initialRisk = lm_initialRisk m, p_decisionId = lm_decisionId m \<rparr>))"

definition live_positions :: "(string \<Rightarrow> jsnum option) \<Rightarrow> live_book \<Rightarrow> position list" where
  "live_positions prices b = List.map_filter (live_position prices b) (lb_raw b)"

section \<open>The venue the driver talks to\<close>

definition sim_of :: "live_book \<Rightarrow> string \<Rightarrow> simulated" where
  "sim_of b s = (case map_of (lb_sim b) s of Some x \<Rightarrow> x | None \<Rightarrow> \<lparr> sd_reduced = 0, sd_stop = None, sd_target = None \<rparr>)"

definition live_reduce :: "book_env \<Rightarrow> position \<Rightarrow> jsnum \<Rightarrow> live_book \<Rightarrow> venue_outcome \<times> live_book" where
  "live_reduce e pos qty b =
     (let s = p_symbol pos; quantity = roundQty (be_rules e) s qty
      in if \<not> 0 < quantity \<or> p_qty pos \<le> quantity then (Rejected, b)
         else if be_mode e = Shadow
         then (Resolved (Some quantity),
               b\<lparr> lb_sim := AList.update s ((sim_of b s)\<lparr> sd_reduced := sd_reduced (sim_of b s) + quantity \<rparr>) (lb_sim b) \<rparr>)
         else (let b1 = (call_of [ReduceCall s (exitSideOf (p_side pos)) quantity (PartialId s (be_now e) (lb_sequence b)) (be_reduce e s)] b)
                          \<lparr> lb_sequence := lb_sequence b + 1 \<rparr>
               in case be_reduce e s of
                    None \<Rightarrow> (Rejected, b1)
                  | Some (status, executed) \<Rightarrow>
                      if \<not> 0 < executed then (Rejected, b1)
                      else (Resolved (Some executed),
                            (case map_of (lb_raw b1) s of
                               None \<Rightarrow> b1
                             | Some held \<Rightarrow> b1\<lparr> lb_raw := AList.update s
                                 (held\<lparr> lr_positionAmt := lr_positionAmt held - math_sign (lr_positionAmt held) * executed \<rparr>) (lb_raw b1) \<rparr>))))"

definition live_updateStops :: "book_env \<Rightarrow> string \<Rightarrow> jsnum \<Rightarrow> jsnum option \<Rightarrow> side \<Rightarrow> live_book \<Rightarrow> venue_outcome \<times> live_book" where
  "live_updateStops e s stop target sd b =
     (case metaOf b s of
        None \<Rightarrow> (Rejected, b)
      | Some m \<Rightarrow>
          (let newStop = roundPrice (be_rules e) s stop
           in if be_mode e = Shadow
              then (Resolved None, b\<lparr> lb_sim := AList.update s ((sim_of b s)\<lparr> sd_stop := Some newStop, sd_target := Some target \<rparr>) (lb_sim b) \<rparr>)
              else (let b1 = (if 0 < (newStop - lm_stopLoss m) * directionOf sd then replaceStop e m newStop b else b);
                        m1 = (case metaOf b1 s of Some x \<Rightarrow> x | None \<Rightarrow> m)
                    in (Resolved None, if target = None \<and> lm_takeProfit m \<noteq> None then dropTarget e m1 b1 else b1))))"

section \<open>Frames\<close>

lemma metaOf_set [simp]: "metaOf (set_meta e m b) s = (if s = lm_symbol m then Some m else metaOf b s)"
  by (simp add: metaOf_def set_meta_def live_set_def live_flush_def update_conv')

lemma metaOf_delete [simp]:
  "metaOf (b\<lparr> lb_store := live_delete ok s (lb_store b), lb_sim := x \<rparr>) t = (if t = s then None else metaOf b t)"
  by (auto simp: metaOf_def live_delete_def live_flush_def delete_conv')

lemma metaOf_frames [simp]:
  "metaOf (call_of cs b) s = metaOf b s" "metaOf (refreshRaw t p b) s = metaOf b s"
  "metaOf (b\<lparr> lb_sequence := n \<rparr>) s = metaOf b s" "metaOf (b\<lparr> lb_raw := r \<rparr>) s = metaOf b s"
  by (simp_all add: metaOf_def call_of_def refreshRaw_def)

lemma book_calls_frames [simp]:
  "lb_calls (call_of cs b) = lb_calls b @ cs" "lb_calls (refreshRaw t p b) = lb_calls b" "lb_calls (set_meta e m b) = lb_calls b"
  by (simp_all add: call_of_def refreshRaw_def set_meta_def)

lemma raw_frames [simp]: "lb_raw (call_of cs b) = lb_raw b" "lb_raw (set_meta e m b) = lb_raw b"
  by (simp_all add: call_of_def set_meta_def)

section \<open>The stops that rest\<close>

text \<open>What an answered call does to the stop orders resting on a symbol; a call that throws does nothing.\<close>

fun after_call :: "string \<Rightarrow> nat set \<Rightarrow> book_call \<Rightarrow> nat set" where
  "after_call s R (CancelCall t oid ok) = (if t = s \<and> ok then R - {oid} else R)"
| "after_call s R (PlaceCall t sd ty p r) = (if t = s \<and> ty = STOP_MARKET then set_option r \<union> R else R)"
| "after_call s R (ReduceCall t sd q i r) = R"

definition stops_after :: "string \<Rightarrow> nat set \<Rightarrow> book_call list \<Rightarrow> nat set" where
  "stops_after s R cs = foldl (after_call s) R cs"

lemma stops_after_simps [simp]:
  "stops_after s R [] = R" "stops_after s R (c # cs) = stops_after s (after_call s R c) cs"
  "stops_after s R (cs @ cs') = stops_after s (stops_after s R cs) cs'"
  by (simp_all add: stops_after_def)

lemma placed:
  assumes "placeWithRetry e s sd STOP_MARKET p i n = (r, cs)"
  shows "stops_after s R cs = set_option r \<union> R"
    and "r = Some x \<Longrightarrow> (\<exists>k. be_place e s k = Some x) \<and> PlaceCall s sd STOP_MARKET p (Some x) \<in> set cs"
  using assms by (induction n arbitrary: i r cs) (auto split: option.splits prod.splits)

definition closes :: "string \<Rightarrow> side \<Rightarrow> book_call list \<Rightarrow> bool" where
  "closes s sd cs \<longleftrightarrow> (\<exists>q i r. ReduceCall s (exitSideOf sd) q i r \<in> set cs \<and> 0 < q)"

text \<open>The last known size of the symbol's position is nothing that could be closed.\<close>

definition gone :: "book_env \<Rightarrow> nat \<Rightarrow> string \<Rightarrow> live_book \<Rightarrow> bool" where
  "gone e n s b \<longleftrightarrow>
     (case (case be_positions e s n of None \<Rightarrow> map_of (lb_raw b) s | Some ps \<Rightarrow> find_raw s ps) of
        None \<Rightarrow> True
      | Some p \<Rightarrow> \<not> 0 < roundQty (be_rules e) s (abs (lr_positionAmt p)))"

lemma gone_frame [simp]: "gone e n s (call_of cs b) = gone e n s b"
  by (simp only: gone_def raw_frames)

lemma emergency_closes:
  "\<exists>cs. lb_calls (emergencyClose e n m b) = lb_calls b @ cs \<and> metaOf (emergencyClose e n m b) s = metaOf b s
    \<and> stops_after s R cs = R \<and> (closes (lm_symbol m) (lm_side m) cs \<or> gone e n (lm_symbol m) b)"
  by (auto simp: emergencyClose_def Let_def closes_def gone_def split: option.split)

text \<open>
  The recorded stop of \<open>m\<close>'s symbol rests, at the old or the new level; or a close was sent; or there is nothing to
  close.
\<close>

definition safe_after :: "book_env \<Rightarrow> nat set \<Rightarrow> live_meta \<Rightarrow> jsnum \<Rightarrow> live_book \<Rightarrow> live_book \<Rightarrow> book_call list \<Rightarrow> bool" where
  "safe_after e R m p b b' cs \<longleftrightarrow> lb_calls b' = lb_calls b @ cs \<and>
     (\<exists>m'. metaOf b' (lm_symbol m) = Some m' \<and> lm_symbol m' = lm_symbol m \<and> lm_side m' = lm_side m \<and> lm_tpOrderId m' \<in> {None, lm_tpOrderId m}
        \<and> lm_stopLoss m' \<in> {lm_stopLoss m, p}
        \<and> (closes (lm_symbol m) (lm_side m) cs \<or> gone e 0 (lm_symbol m) b
           \<or> (\<exists>x. lm_stopOrderId m' = Some x \<and> x \<in> stops_after (lm_symbol m) R cs \<and> (lm_stopOrderId m = Some x \<or> (\<exists>k. be_place e (lm_symbol m) k = Some x)))))"

lemma replaceStop_safe:
  assumes "metaOf b (lm_symbol m) = Some m" and "lm_stopOrderId m = Some oid" and "oid \<in> R"
  shows "\<exists>cs. safe_after e R m p b (replaceStop e m p b) cs"
proof (cases "be_cancel e (lm_symbol m) oid")
  case False
  then show ?thesis using assms
    by (intro exI [of _ "[CancelCall (lm_symbol m) oid False]"]) (simp add: safe_after_def replaceStop_def Let_def)
next
  case True
  let ?s = "lm_symbol m" and ?b1 = "call_of [CancelCall (lm_symbol m) oid True] b"
  obtain r cs where r: "placeWithRetry e ?s (exitSideOf (lm_side m)) STOP_MARKET p 0 (be_attempts e) = (r, cs)" by fastforce
  obtain r' cs' where r': "placeWithRetry e ?s (exitSideOf (lm_side m)) STOP_MARKET (lm_stopLoss m) (be_attempts e) (be_attempts e) = (r', cs')" by fastforce
  show ?thesis
  proof (cases r)
    case (Some x)
    then show ?thesis using assms(1,2) True r placed(1) [OF r, of "R - {oid}"] placed(2) [OF r, of x]
      by (intro exI [of _ "CancelCall ?s oid True # cs"]) (simp add: safe_after_def replaceStop_def Let_def)
  next
    case none: None
    show ?thesis
    proof (cases r')
      case (Some x)
      then show ?thesis using assms(1,2) True r r' none placed(1) [OF r', of "R - {oid}"] placed(2) [OF r', of x] placed(1) [OF r, of "R - {oid}"]
        by (intro exI [of _ "CancelCall ?s oid True # cs @ cs'"]) (simp add: safe_after_def replaceStop_def Let_def)
    next
      case None
      obtain ds where ds: "lb_calls (emergencyClose e 0 m (call_of (cs @ cs') ?b1)) = lb_calls (call_of (cs @ cs') ?b1) @ ds"
        "metaOf (emergencyClose e 0 m (call_of (cs @ cs') ?b1)) ?s = metaOf b ?s"
        "closes ?s (lm_side m) ds \<or> gone e 0 ?s (call_of (cs @ cs') ?b1)"
        using emergency_closes [of e 0 m "call_of (cs @ cs') ?b1" ?s] by auto
      have "closes ?s (lm_side m) (CancelCall ?s oid True # cs @ cs' @ ds) \<or> gone e 0 ?s b"
        using ds(3) by (auto simp: closes_def)
      then show ?thesis using assms(1,2) True r r' none None ds(1,2)
        by (intro exI [of _ "CancelCall ?s oid True # cs @ cs' @ ds"]) (auto simp: safe_after_def replaceStop_def Let_def)
    qed
  qed
qed

lemma dropTarget_safe:
  assumes "safe_after e R m p b b1 cs" and "metaOf b1 (lm_symbol m) = Some m1"
    and "\<And>t. lm_tpOrderId m = Some t \<Longrightarrow> lm_stopOrderId m \<noteq> Some t \<and> (\<forall>k. be_place e (lm_symbol m) k \<noteq> Some t)"
  shows "\<exists>cs'. safe_after e R m p b (dropTarget e m1 b1) cs'"
proof (cases "lm_tpOrderId m1")
  case None
  then show ?thesis using assms(1,2) by (intro exI [of _ cs]) (auto simp: safe_after_def dropTarget_def Let_def)
next
  case (Some t)
  have m1: "lm_tpOrderId m = Some t" "lm_symbol m1 = lm_symbol m" using assms(1,2) Some by (auto simp: safe_after_def)
  have t: "lm_stopOrderId m \<noteq> Some t" "\<forall>k. be_place e (lm_symbol m) k \<noteq> Some t" "lm_symbol m1 = lm_symbol m"
    using assms(3) [OF m1(1)] m1(2) by auto
  have c: "closes s sd (cs @ ds)" if "closes s sd cs" for s sd ds using that by (auto simp: closes_def)
  let ?c = "CancelCall (lm_symbol m) t (be_cancel e (lm_symbol m) t)"
  have d: "lb_calls (dropTarget e m1 b1) = lb_calls b1 @ [?c]"
    "metaOf (dropTarget e m1 b1) (lm_symbol m) = (if be_cancel e (lm_symbol m) t then Some (m1\<lparr> lm_takeProfit := None, lm_tpOrderId := None \<rparr>) else Some m1)"
    using Some t(3) assms(2) by (simp_all add: dropTarget_def Let_def)
  have "x \<noteq> t" if "lm_stopOrderId m = Some x \<or> (\<exists>k. be_place e (lm_symbol m) k = Some x)" for x
    using that t(1,2) by auto
  then show ?thesis using assms(1,2) c d unfolding safe_after_def
    by (intro exI [of _ "cs @ [?c]"]) (cases "be_cancel e (lm_symbol m) t"; fastforce)
qed

text \<open>
  C8. A stop change fails safe: whatever the exchange answers to the calls it makes, after it the stop the book has
  recorded rests on the exchange and is no looser than before, or a reduce-only close of the position was sent, or
  the position has no size left to close. Asked of the answers is only that the target's order id differs from the stops'.
\<close>

theorem stop_change_fails_safe:
  assumes "metaOf b s = Some m" and "lm_symbol m = s" and "lm_side m = sd" and "lm_stopOrderId m = Some oid" and "oid \<in> R"
    and "\<And>t. lm_tpOrderId m = Some t \<Longrightarrow> t \<noteq> oid \<and> (\<forall>k. be_place e s k \<noteq> Some t)"
  shows "\<exists>cs m'. lb_calls (snd (live_updateStops e s stop target sd b)) = lb_calls b @ cs
    \<and> metaOf (snd (live_updateStops e s stop target sd b)) s = Some m' \<and> no_looser sd (lm_stopLoss m) (lm_stopLoss m')
    \<and> (closes s sd cs \<or> gone e 0 s b \<or> (\<exists>x. lm_stopOrderId m' = Some x \<and> x \<in> stops_after s R cs))"
proof (cases "be_mode e")
  case Shadow
  then show ?thesis using assms(1,4,5) by (intro exI [of _ "[]"] exI [of _ m]) (simp add: live_updateStops_def Let_def metaOf_def)
next
  case On
  let ?p = "roundPrice (be_rules e) s stop"
  define b1 where "b1 = (if 0 < (?p - lm_stopLoss m) * directionOf sd then replaceStop e m ?p b else b)"
  let ?q = "if 0 < (?p - lm_stopLoss m) * directionOf sd then ?p else lm_stopLoss m"
  have "safe_after e R m (lm_stopLoss m) b b []" using assms(1-5) by (simp add: safe_after_def)
  moreover obtain cs where "safe_after e R m ?p b (replaceStop e m ?p b) cs"
    using replaceStop_safe [of b m oid R e ?p] assms(1,2,4,5) by blast
  ultimately obtain cs where cs: "safe_after e R m ?q b b1 cs" by (cases "0 < (?p - lm_stopLoss m) * directionOf sd") (auto simp: b1_def simp del: js_consts)
  then obtain m1 where m1: "metaOf b1 s = Some m1" using assms(2) by (auto simp: safe_after_def)
  have "\<exists>ds. safe_after e R m ?q b (snd (live_updateStops e s stop target sd b)) ds"
  proof (cases "target = None \<and> lm_takeProfit m \<noteq> None")
    case True
    have "lm_stopOrderId m \<noteq> Some t \<and> (\<forall>k. be_place e (lm_symbol m) k \<noteq> Some t)" if "lm_tpOrderId m = Some t" for t
      using assms(2,4) assms(6) [OF that] by auto
    then have "\<exists>ds. safe_after e R m ?q b (dropTarget e m1 b1) ds" using dropTarget_safe [OF cs] m1 assms(2) by blast
    then show ?thesis using True m1 assms(1) On by (simp add: live_updateStops_def Let_def b1_def [symmetric] del: js_consts)
  next
    case False
    then show ?thesis using cs m1 assms(1) On by (auto simp: live_updateStops_def Let_def b1_def)
  qed
  then show ?thesis using assms(2,3) gap_beyond [of ?p "lm_stopLoss m" sd]
    by (auto simp: safe_after_def no_looser_def simp del: js_consts split: if_splits)
qed

section \<open>The audit\<close>

definition well_keyed :: "live_book \<Rightarrow> bool" where
  "well_keyed b \<longleftrightarrow> distinct (map fst (ls_positions (lb_store b))) \<and> (\<forall>s m. metaOf b s = Some m \<longrightarrow> lm_symbol m = s)"

text \<open>The last size the audit read is nothing that could be closed.\<close>

definition nothing_left :: "book_env \<Rightarrow> string \<Rightarrow> bool" where
  "nothing_left e s \<longleftrightarrow>
     (case (case be_positions e s 1 of None \<Rightarrow> Option.bind (be_positions e s 0) (find_raw s) | Some ps \<Rightarrow> find_raw s ps) of
        None \<Rightarrow> True
      | Some p \<Rightarrow> \<not> 0 < roundQty (be_rules e) s (abs (lr_positionAmt p)))"

definition stop_order_of :: "live_meta \<Rightarrow> live_open_order \<Rightarrow> bool" where
  "stop_order_of m ord \<longleftrightarrow> lo_type ord = STOP_MARKET \<and> lo_closePosition ord \<and> lo_side ord = exitSideOf (lm_side m)
     \<and> lm_stopOrderId m = Some (lo_orderId ord) \<and> lm_stopLoss m = lo_stopPrice ord"

text \<open>
  What a completed audit leaves of a managed position: its recorded stop is an order that rests or was just placed at
  the recorded level, or a close was sent, or there is nothing left to close, or the orders could not be read.
\<close>

definition covered :: "book_env \<Rightarrow> string \<Rightarrow> live_meta \<Rightarrow> book_call list \<Rightarrow> bool" where
  "covered e s m cs \<longleftrightarrow>
     (case be_orders e s of None \<Rightarrow> True | Some os \<Rightarrow>
        list_ex (stop_order_of m) os
      \<or> (\<exists>x. lm_stopOrderId m = Some x \<and> PlaceCall s (exitSideOf (lm_side m)) STOP_MARKET (lm_stopLoss m) (Some x) \<in> set cs)
      \<or> closes s (lm_side m) cs \<or> nothing_left e s)"

lemma covered_mono: "covered e s m cs \<Longrightarrow> set cs \<subseteq> set cs' \<Longrightarrow> covered e s m cs'"
  unfolding covered_def closes_def by (auto split: option.splits)

definition audited :: "book_env \<Rightarrow> string \<Rightarrow> live_book \<Rightarrow> live_book \<Rightarrow> bool" where
  "audited e s b b' \<longleftrightarrow> (\<exists>cs. lb_calls b' = lb_calls b @ cs \<and> (\<forall>t. t \<noteq> s \<longrightarrow> metaOf b' t = metaOf b t)
     \<and> (\<forall>m. metaOf b' s = Some m \<longrightarrow> lm_symbol m = s \<and> metaOf b s \<noteq> None \<and> (be_mode e = On \<longrightarrow> covered e s m cs)))"

lemma audit_step:
  assumes "auditProtection e s b = (True, b')" and "metaOf b s = Some m" and "lm_symbol m = s"
  shows "audited e s b b'"
proof (cases "be_orders e s")
  case None
  then show ?thesis using assms by (auto simp: audited_def auditProtection_def covered_def)
next
  case (Some os)
  let ?P = "\<lambda>ord. lo_type ord = STOP_MARKET \<and> lo_closePosition ord \<and> lo_side ord = exitSideOf (lm_side m)"
  show ?thesis
  proof (cases "find ?P os")
    case found: (Some ord)
    let ?m = "m\<lparr> lm_stopOrderId := Some (lo_orderId ord), lm_stopLoss := lo_stopPrice ord \<rparr>"
    have "ord \<in> set os" "?P ord" using find_Some_iff_set [OF found] by auto
    moreover have "metaOf b' s = Some ?m \<and> lb_calls b' = lb_calls b \<and> (\<forall>t. t \<noteq> s \<longrightarrow> metaOf b' t = metaOf b t)"
      using assms Some found by (auto simp: auditProtection_def dest: js_eq_imp_eq split: if_splits)
    ultimately show ?thesis using assms(2,3) Some by (auto simp: audited_def covered_def stop_order_of_def list_ex_iff)
  next
    case none: None
    then obtain ps where ps: "be_positions e s 0 = Some ps" using assms Some by (auto simp: auditProtection_def split: option.splits)
    let ?b1 = "refreshRaw s (find_raw s ps) b"
    show ?thesis
    proof (cases "map_option (sideOfAmount \<circ> lr_positionAmt) (find_raw s ps) = Some (lm_side m)")
      case False
      then have "b' = ?b1\<lparr> lb_store := live_delete (be_saveOk e) s (lb_store ?b1), lb_sim := AList.delete s (lb_sim ?b1) \<rparr>"
        using assms(1,2) Some none ps by (simp add: auditProtection_def Let_def)
      then show ?thesis by (simp add: audited_def)
    next
      case True
      then obtain q where side: "find_raw s ps = Some q" "sideOfAmount (lr_positionAmt q) = lm_side m" by (cases "find_raw s ps") auto
      obtain r cs where r: "placeWithRetry e s (exitSideOf (lm_side m)) STOP_MARKET (lm_stopLoss m) 0 (be_attempts e) = (r, cs)" by fastforce
      show ?thesis
      proof (cases r)
        case (Some x)
        then have "b' = set_meta e (m\<lparr> lm_stopOrderId := Some x \<rparr>) (call_of cs ?b1)"
          using assms(1,2) \<open>be_orders e s = Some os\<close> none ps side r by (simp add: auditProtection_def Let_def)
        then show ?thesis using assms(2,3) placed(2) [OF r Some] \<open>be_orders e s = Some os\<close>
          by (auto simp: audited_def covered_def)
      next
        case None
        then have b': "b' = emergencyClose e 1 m (call_of cs ?b1)"
          using assms(1,2) \<open>be_orders e s = Some os\<close> none ps side r by (simp add: auditProtection_def Let_def)
        have "gone e 1 s (call_of cs ?b1) = nothing_left e s"
          using ps by (auto simp: gone_def nothing_left_def refreshRaw_def update_conv' delete_conv' split: option.splits)
        then obtain ds where "lb_calls b' = lb_calls b @ cs @ ds" "\<forall>t. metaOf b' t = metaOf b t" "closes s (lm_side m) ds \<or> nothing_left e s"
          using emergency_closes [of e 1 m "call_of cs ?b1"] assms(3) by (metis append_assoc b' book_calls_frames(1,2) metaOf_frames(1,2))
        moreover from this have "closes s (lm_side m) (cs @ ds) \<or> nothing_left e s" by (auto simp: closes_def)
        ultimately show ?thesis using assms(2,3) \<open>be_orders e s = Some os\<close> by (auto simp: audited_def covered_def)
      qed
    qed
  qed
qed

lemma refresh_symbol_step:
  assumes "refresh_symbol e s b = (True, b')" and "\<forall>m. metaOf b s = Some m \<longrightarrow> lm_symbol m = s"
  shows "audited e s b b'"
proof -
  obtain m where m: "metaOf b s = Some m" "lm_symbol m = s" using assms by (auto simp: refresh_symbol_def split: option.splits)
  show ?thesis
  proof (cases "\<exists>p. map_of (lb_raw b) s = Some p \<and> sideOfAmount (lr_positionAmt p) = lm_side m")
    case False
    then have "b' = b\<lparr> lb_store := live_delete (be_saveOk e) s (lb_store b), lb_sim := AList.delete s (lb_sim b) \<rparr>"
      using assms(1) m by (auto simp: refresh_symbol_def split: option.splits if_splits)
    then show ?thesis by (simp add: audited_def)
  next
    case True
    then obtain p where p: "map_of (lb_raw b) s = Some p" "sideOfAmount (lr_positionAmt p) = lm_side m" by blast
    let ?risk = "abs (lr_entryPrice p - lm_stopLoss m)"
    define b1 where "b1 = (if lm_initialRisk m = None \<and> 0 < ?risk then set_meta e (m\<lparr> lm_initialRisk := Some ?risk \<rparr>) b else b)"
    have b1: "lb_calls b1 = lb_calls b" "\<forall>t. t \<noteq> s \<longrightarrow> metaOf b1 t = metaOf b t" "\<exists>m'. metaOf b1 s = Some m' \<and> lm_symbol m' = s"
      using m by (auto simp: b1_def)
    have r: "(if be_mode e = On then auditProtection e s b1 else (True, b1)) = (True, b')"
      using assms(1) m p by (auto simp: refresh_symbol_def Let_def b1_def simp del: js_consts split: if_splits)
    show ?thesis
    proof (cases "be_mode e")
      case Shadow
      then show ?thesis using r b1 m by (auto simp: audited_def)
    next
      case On
      then have "audited e s b1 b'" using r b1(3) audit_step by auto
      then show ?thesis using b1 m by (auto simp: audited_def)
    qed
  qed
qed

lemma refresh_symbols_step:
  assumes "refresh_symbols e ss b = (True, b')" and "distinct ss" and "\<forall>s m. metaOf b s = Some m \<longrightarrow> lm_symbol m = s" and "be_mode e = On"
  shows "\<exists>cs. lb_calls b' = lb_calls b @ cs \<and> (\<forall>t. t \<notin> set ss \<longrightarrow> metaOf b' t = metaOf b t)
    \<and> (\<forall>s\<in>set ss. \<forall>m. metaOf b' s = Some m \<longrightarrow> covered e s m cs)"
  using assms(1-3)
proof (induction ss arbitrary: b)
  case Nil
  then show ?case by simp
next
  case (Cons s ss)
  then obtain b1 where b1: "refresh_symbol e s b = (True, b1)" "refresh_symbols e ss b1 = (True, b')"
    by (auto split: prod.splits if_splits)
  have a: "audited e s b b1" using refresh_symbol_step [OF b1(1)] Cons.prems(3) by blast
  then have keyed: "\<forall>t m. metaOf b1 t = Some m \<longrightarrow> lm_symbol m = t" using Cons.prems(3) by (metis audited_def)
  from a obtain c1 where c1: "lb_calls b1 = lb_calls b @ c1" "\<forall>t. t \<noteq> s \<longrightarrow> metaOf b1 t = metaOf b t"
    "\<forall>m. metaOf b1 s = Some m \<longrightarrow> covered e s m c1" using assms(4) by (auto simp: audited_def)
  obtain c2 where c2: "lb_calls b' = lb_calls b1 @ c2" "\<forall>t. t \<notin> set ss \<longrightarrow> metaOf b' t = metaOf b1 t"
    "\<forall>s\<in>set ss. \<forall>m. metaOf b' s = Some m \<longrightarrow> covered e s m c2"
    using Cons.IH [OF b1(2)] Cons.prems(2) keyed by auto
  have "covered e t m (c1 @ c2)" if "t \<in> set (s # ss)" "metaOf b' t = Some m" for t m
    using that c1(3) c2(2,3) Cons.prems(2) covered_mono [of e t m c1 "c1 @ c2"] covered_mono [of e t m c2 "c1 @ c2"]
    by (cases "t = s") auto
  then show ?case using c1 c2 by (intro exI [of _ "c1 @ c2"]) auto
qed

lemma announce_frames [simp]: "metaOf (foldl (\<lambda>b p. announce p b) b ps) s = metaOf b s" "lb_calls (foldl (\<lambda>b p. announce p b) b ps) = lb_calls b"
proof -
  have "metaOf (announce p b) s = metaOf b s" "lb_calls (announce p b) = lb_calls b" for p b
    by (simp_all add: announce_def metaOf_def)
  then show "metaOf (foldl (\<lambda>b p. announce p b) b ps) s = metaOf b s" "lb_calls (foldl (\<lambda>b p. announce p b) b ps) = lb_calls b"
    by (induction ps arbitrary: b) simp_all
qed

text \<open>
  C9. A completed refresh leaves no managed position bare: in the mode that trades, every position still recorded
  after it has its recorded stop among the orders that rest or among those just placed at the recorded level, or a
  reduce-only close of it was sent (executed or not: a close that fails is only reported, and tried again by the
  next refresh), or its size was read as nothing, or its orders could not be read this time.
\<close>

theorem refreshed_positions_are_covered:
  assumes "live_refresh e b = (True, b')" and "well_keyed b" and "be_mode e = On" and "metaOf b' s = Some m"
  shows "\<exists>cs. lb_calls b' = lb_calls b @ cs \<and> covered e s m cs"
proof -
  obtain ps where ps: "be_fetched e = Some ps" using assms(1) by (auto simp: live_refresh_def split: option.splits)
  define b1 where "b1 = b\<lparr> lb_raw := foldl (\<lambda>m p. AList.update (lr_symbol p) p m) [] ps \<rparr>"
  let ?ss = "map fst (ls_positions (lb_store b))"
  obtain b2 where b2: "refresh_symbols e ?ss b1 = (True, b2)" "b' = foldl (\<lambda>b p. announce p b) b2 ps"
    using assms(1) ps by (auto simp: live_refresh_def b1_def Let_def split: prod.splits if_splits)
  have b1: "metaOf b1 t = metaOf b t" "lb_calls b1 = lb_calls b" for t by (simp_all add: b1_def)
  obtain cs where cs: "lb_calls b2 = lb_calls b1 @ cs" "\<forall>t. t \<notin> set ?ss \<longrightarrow> metaOf b2 t = metaOf b1 t"
    "\<forall>s\<in>set ?ss. \<forall>m. metaOf b2 s = Some m \<longrightarrow> covered e s m cs"
    using refresh_symbols_step [OF b2(1) _ _ assms(3)] assms(2) b1(1) by (auto simp: well_keyed_def)
  have "s \<in> set ?ss"
  proof (rule ccontr)
    assume n: "s \<notin> set ?ss"
    then have "metaOf b s = None" by (simp add: metaOf_def map_of_eq_None_iff)
    then show False using n cs(2) b1(1) b2(2) assms(4) by simp
  qed
  then show ?thesis using cs(1,3) b1(2) b2(2) assms(4) by auto
qed

section \<open>What reaches the exchange\<close>

text \<open>The operations of a book, in any order, each with its own environment.\<close>

datatype book_op =
    OpRecord book_env entry_record
  | OpRefresh book_env
  | OpReduce book_env position jsnum
  | OpStops book_env string jsnum "jsnum option" side

fun op_env :: "book_op \<Rightarrow> book_env" where
  "op_env (OpRecord e en) = e"
| "op_env (OpRefresh e) = e"
| "op_env (OpReduce e pos q) = e"
| "op_env (OpStops e s p t sd) = e"

fun book_apply :: "live_book \<Rightarrow> book_op \<Rightarrow> live_book" where
  "book_apply b (OpRecord e en) = recordEntry e en b"
| "book_apply b (OpRefresh e) = snd (live_refresh e b)"
| "book_apply b (OpReduce e pos q) = snd (live_reduce e pos q b)"
| "book_apply b (OpStops e s p t sd) = snd (live_updateStops e s p t sd b)"

lemma record_calls [simp]: "lb_calls (recordEntry e en b) = lb_calls b"
  by (simp add: recordEntry_def Let_def set_meta_def)

lemma shadow_refresh_symbol: "be_mode e = Shadow \<Longrightarrow> lb_calls (snd (refresh_symbol e s b)) = lb_calls b"
  by (auto simp: refresh_symbol_def Let_def split: option.split)

lemma shadow_refresh_symbols: "be_mode e = Shadow \<Longrightarrow> lb_calls (snd (refresh_symbols e ss b)) = lb_calls b"
proof (induction ss arbitrary: b)
  case Nil
  then show ?case by simp
next
  case (Cons s ss)
  then show ?case using shadow_refresh_symbol [of e s b] by (auto split: prod.split)
qed

lemma shadow_refresh:
  assumes "be_mode e = Shadow"
  shows "lb_calls (snd (live_refresh e b)) = lb_calls b"
proof (cases "be_fetched e")
  case None
  then show ?thesis by (simp add: live_refresh_def)
next
  case (Some ps)
  define b1 where "b1 = b\<lparr> lb_raw := foldl (\<lambda>m p. AList.update (lr_symbol p) p m) [] ps \<rparr>"
  obtain ok b2 where r: "refresh_symbols e (map fst (ls_positions (lb_store b1))) b1 = (ok, b2)" by fastforce
  have "lb_calls b2 = lb_calls b"
    using shadow_refresh_symbols [OF assms, of "map fst (ls_positions (lb_store b1))" b1] r by (simp add: b1_def)
  moreover have "live_refresh e b = (ok, if ok then foldl (\<lambda>b p. announce p b) b2 ps else b2)"
    using Some r unfolding live_refresh_def b1_def by (simp add: Let_def)
  ultimately show ?thesis by simp
qed

text \<open>
  Shadow mode sends nothing: over any entries, refreshes, partials and stop changes in shadow mode, not one call
  that could change an order or a position reaches the exchange.
\<close>

theorem shadow_sends_nothing:
  assumes "list_all (\<lambda>op. be_mode (op_env op) = Shadow) ops"
  shows "lb_calls (run_steps book_apply b ops) = lb_calls b"
  using assms
proof (induction ops arbitrary: b)
  case Nil
  then show ?case by simp
next
  case (Cons op ops)
  have "lb_calls (book_apply b op) = lb_calls b"
    using Cons.prems by (cases op) (auto simp: shadow_refresh live_reduce_def live_updateStops_def Let_def split: option.split)
  then show ?case using Cons by simp
qed

text \<open>
  A partial never reaches past the position: a market order sent for a partial is on the closing side and for a
  positive quantity below the size the caller read; and what the driver is told was executed is what the exchange answered.
\<close>

theorem partial_stays_inside_position:
  assumes "live_reduce e pos qty b = (out, b')" and "lb_calls b' = lb_calls b @ [ReduceCall s sd q i r]"
  shows "s = p_symbol pos \<and> sd = exitSideOf (p_side pos) \<and> 0 < q \<and> \<not> p_qty pos \<le> q
    \<and> (out = Rejected \<or> (\<exists>status x. r = Some (status, x) \<and> 0 < x \<and> out = Resolved (Some x)))"
proof (cases "be_reduce e (p_symbol pos)")
  case None
  then show ?thesis using assms by (auto simp: live_reduce_def Let_def split: if_splits)
next
  case (Some y)
  obtain status x where "y = (status, x)" by (cases y)
  then show ?thesis using assms Some by (cases "0 < x") (auto simp: live_reduce_def Let_def split: if_splits option.splits, metis+)
qed

section \<open>Witnesses\<close>

definition demo_env :: "live_mode \<Rightarrow> book_env" where
  "demo_env mode = \<lparr> be_mode = mode, be_attempts = 1, be_rules = (\<lambda>s. None), be_now = Fin 5, be_saveOk = True,
     be_fetched = Some [\<lparr> lr_symbol = ''BTC'', lr_positionAmt = Fin 2, lr_entryPrice = Fin 100, lr_markPrice = Fin 120, lr_unrealizedProfit = 0,
       lr_liquidationPrice = 0, lr_leverage = Fin 5, lr_isolated = True \<rparr>],
     be_positions = (\<lambda>s n. None), be_orders = (\<lambda>s. Some [\<lparr> lo_orderId = 7, lo_type = STOP_MARKET, lo_side = SELL, lo_stopPrice = Fin 90, lo_closePosition = True \<rparr>]),
     be_cancel = (\<lambda>s n. True), be_place = (\<lambda>s k. Some 8), be_reduce = (\<lambda>s. Some (''FILLED'', Fin 1)) \<rparr>"

definition demo_meta :: live_meta where
  "demo_meta = \<lparr> lm_symbol = ''BTC'', lm_side = LONG, lm_strategy = FLEET, lm_stopLoss = Fin 90, lm_takeProfit = None, lm_stopOrderId = Some 7,
     lm_tpOrderId = None, lm_initialRisk = Some (Fin 10), lm_openedAt = 0, lm_decisionId = None \<rparr>"

definition demo_book :: live_book where
  "demo_book = \<lparr> lb_raw = [], lb_sim = [], lb_store = \<lparr> ls_positions = [(''BTC'', demo_meta)], ls_file = NoLiveFile \<rparr>, lb_announced = [],
     lb_sequence = 0, lb_calls = [] \<rparr>"

lemma demo_metaOf: "metaOf demo_book s = (if s = ''BTC'' then Some demo_meta else None)"
  by (simp add: metaOf_def demo_book_def)

lemma stop_change_fails_safe_witness:
  "\<exists>cs m'. metaOf (snd (live_updateStops (demo_env On) ''BTC'' (Fin 110) None LONG demo_book)) ''BTC'' = Some m'
    \<and> no_looser LONG (Fin 90) (lm_stopLoss m')
    \<and> (closes ''BTC'' LONG cs \<or> gone (demo_env On) 0 ''BTC'' demo_book \<or> (\<exists>x. lm_stopOrderId m' = Some x \<and> x \<in> stops_after ''BTC'' {7} cs))"
  using stop_change_fails_safe [of demo_book "''BTC''" demo_meta LONG 7 "{7}" "demo_env On" "Fin 110" None]
  by (auto simp: demo_metaOf) (auto simp: demo_meta_def)

lemma refreshed_positions_are_covered_witness:
  "\<exists>b' m cs. live_refresh (demo_env On) demo_book = (True, b') \<and> metaOf b' ''BTC'' = Some m \<and> lb_calls b' = cs \<and> covered (demo_env On) ''BTC'' m cs"
proof -
  have k: "well_keyed demo_book" by (auto simp: well_keyed_def demo_metaOf demo_meta_def split: if_splits) (simp add: demo_book_def)
  obtain b' where b': "live_refresh (demo_env On) demo_book = (True, b')" "metaOf b' ''BTC'' = Some demo_meta" "be_mode (demo_env On) = On"
    by (simp add: live_refresh_def demo_env_def demo_book_def refresh_symbol_def metaOf_def auditProtection_def sideOfAmount_def demo_meta_def
        exitSideOf_def announce_def)
  then obtain cs where "lb_calls b' = lb_calls demo_book @ cs" "covered (demo_env On) ''BTC'' demo_meta cs"
    using refreshed_positions_are_covered [OF b'(1) k b'(3,2)] by blast
  then show ?thesis using b' by (intro exI [of _ b'] exI [of _ demo_meta] exI [of _ cs]) (simp add: demo_book_def)
qed

lemma shadow_sends_nothing_witness:
  "lb_calls (run_steps book_apply demo_book [OpRefresh (demo_env Shadow), OpStops (demo_env Shadow) ''BTC'' (Fin 110) None LONG]) = []"
  using shadow_sends_nothing [of "[OpRefresh (demo_env Shadow), OpStops (demo_env Shadow) ''BTC'' (Fin 110) None LONG]" demo_book]
  by (simp add: demo_env_def demo_book_def)

end
