(* ===== verification/LiveEntry.thy ===== *)
theory LiveEntry
  imports LiveBook
begin

text \<open>
  The tracker of one live entry (\<open>src/binance/liveEntry.ts\<close>): the single slot, and the pass that keeps the
  protective legs in step with the venue position until the order is over. The port is an argument: what it
  answers in one pass is a field of \<open>entry_pass\<close> (\<open>None\<close> and \<open>False\<close> are calls that throw), and the calls that
  change the venue or the book are logged with their answers. A call that throws is taken to have had no effect at the venue
  (\<open>legs_after\<close>); a time-out whose order still reached the venue is outside the model. Timers, waking and log lines are
  left out.
\<close>

definition TERMINAL_STATUSES :: "string set" where
  "TERMINAL_STATUSES = {''FILLED'', ''CANCELED'', ''REJECTED'', ''EXPIRED'', ''EXPIRED_IN_MATCH'', ''UNKNOWN_ORDER''}"

definition isWorking :: "string \<Rightarrow> bool" where
  "isWorking status \<longleftrightarrow> status \<notin> TERMINAL_STATUSES"

definition orderSideOf :: "side \<Rightarrow> order_side" where
  "orderSideOf sd = (if sd = LONG then BUY else SELL)"

record live_entry_job =
  ej_symbol :: string
  ej_side :: side
  ej_clientOrderId :: string
  ej_strategy :: agent_id
  ej_stopLoss :: jsnum
  ej_takeProfit :: "jsnum option"
  ej_decisionId :: "string option"
  ej_submittedAt :: jsnum

record leg_ids =
  lg_stopOrderId :: "nat option"
  lg_tpOrderId :: "nat option"

record entry_context =
  ec_legs :: "leg_ids option"
  ec_legsQty :: jsnum
  ec_stale :: "leg_ids list"
  ec_cancelSent :: bool
  ec_overdueLogged :: bool

definition entry_context_new :: entry_context where
  "entry_context_new = \<lparr> ec_legs = None, ec_legsQty = 0, ec_stale = [], ec_cancelSent = False, ec_overdueLogged = False \<rparr>"

section \<open>The slot\<close>

type_synonym entry_holder = "(string \<times> string option) option"

definition entry_busy :: "entry_holder \<Rightarrow> bool" where
  "entry_busy h \<longleftrightarrow> h \<noteq> None"

definition entry_holds :: "entry_holder \<Rightarrow> string \<Rightarrow> bool" where
  "entry_holds h s \<longleftrightarrow> map_option fst h = Some s"

text \<open>\<open>None\<close>: another entry is still working.\<close>

definition reserve :: "string \<Rightarrow> entry_holder \<Rightarrow> entry_holder option" where
  "reserve s h = (if h = None then Some (Some (s, None)) else None)"

definition release :: "string \<Rightarrow> entry_holder \<Rightarrow> entry_holder" where
  "release s h = (if h = Some (s, None) then None else h)"

definition track :: "live_entry_job \<Rightarrow> entry_holder" where
  "track job = Some (ej_symbol job, Some (ej_clientOrderId job))"

section \<open>One pass\<close>

datatype entry_call =
    PlaceLegs jsnum "leg_ids option"
  | CancelLegs leg_ids bool
  | CancelAllOpen bool
  | Flatten side jsnum bool
  | CancelOrder bool
  | RecordEntry entry_record

record entry_pass =
  en_order :: "(string \<times> jsnum) option"
  en_held :: "jsnum option"
  en_place :: "leg_ids option"
  en_cancelAll :: bool
  en_flatten :: bool
  en_cancelLegs :: "leg_ids \<Rightarrow> bool"
  en_cancelOrder :: bool
  en_now :: jsnum
  en_overdueNow :: jsnum

definition entry_of :: "live_entry_job \<Rightarrow> leg_ids \<Rightarrow> entry_record" where
  "entry_of job legs = \<lparr> er_symbol = ej_symbol job, er_side = ej_side job, er_strategy = ej_strategy job, er_stopLoss = ej_stopLoss job,
     er_takeProfit = ej_takeProfit job, er_stopOrderId = lg_stopOrderId legs, er_tpOrderId = lg_tpOrderId legs, er_decisionId = ej_decisionId job \<rparr>"

definition push_stale :: "entry_context \<Rightarrow> leg_ids list" where
  "push_stale ctx = ec_stale ctx @ (case ec_legs ctx of None \<Rightarrow> [] | Some l \<Rightarrow> [l])"

text \<open>The context after it, whether it returned, and the calls made.\<close>

definition syncLegs :: "live_entry_job \<Rightarrow> entry_pass \<Rightarrow> jsnum \<Rightarrow> entry_context \<Rightarrow> entry_context \<times> bool \<times> entry_call list" where
  "syncLegs job i held ctx =
     (if js_eq held 0 then (ctx\<lparr> ec_stale := push_stale ctx, ec_legs := None, ec_legsQty := 0 \<rparr>, True, [])
      else case en_place i of
        None \<Rightarrow>
          (if \<not> en_cancelAll i then (ctx, False, [PlaceLegs held None, CancelAllOpen False])
           else if \<not> en_flatten i then (ctx, False, [PlaceLegs held None, CancelAllOpen True, Flatten (ej_side job) held False])
           else (ctx\<lparr> ec_legs := None, ec_legsQty := 0, ec_stale := [] \<rparr>, True,
                 [PlaceLegs held None, CancelAllOpen True, Flatten (ej_side job) held True]))
      | Some legs \<Rightarrow>
          (ctx\<lparr> ec_stale := push_stale ctx, ec_legs := Some legs, ec_legsQty := held \<rparr>, True,
           [PlaceLegs held (Some legs), RecordEntry (entry_of job legs)]))"

definition cancelStale :: "entry_pass \<Rightarrow> entry_context \<Rightarrow> entry_context \<times> entry_call list" where
  "cancelStale i ctx = (ctx\<lparr> ec_stale := filter (\<lambda>l. \<not> en_cancelLegs i l) (ec_stale ctx) \<rparr>, map (\<lambda>l. CancelLegs l (en_cancelLegs i l)) (ec_stale ctx))"

datatype pass_end = Threw | Unresolved | Done

definition sync_pass :: "live_entry_job \<Rightarrow> entry_pass \<Rightarrow> jsnum \<Rightarrow> entry_context \<Rightarrow> entry_context \<times> bool \<times> entry_call list" where
  "sync_pass job i held ctx =
     (if \<not> js_eq held (ec_legsQty ctx) \<or> js_eq held 0 \<and> ec_legs ctx \<noteq> None then syncLegs job i held ctx else (ctx, True, []))"

definition expire_pass :: "live_entry_job \<Rightarrow> jsnum \<Rightarrow> entry_pass \<Rightarrow> entry_context \<Rightarrow> entry_context \<times> entry_call list" where
  "expire_pass job ttl i ctx =
     (let deadline = ej_submittedAt job + ttl;
          due = (\<not> ec_cancelSent ctx \<and> deadline \<le> en_now i);
          ctx1 = (if due \<and> en_cancelOrder i then ctx\<lparr> ec_cancelSent := True \<rparr> else ctx);
          ctx2 = (if \<not> ec_overdueLogged ctx1 \<and> deadline + ttl \<le> en_overdueNow i then ctx1\<lparr> ec_overdueLogged := True \<rparr> else ctx1)
      in (ctx2, if due then [CancelOrder (en_cancelOrder i)] else []))"

definition close_pass :: "live_entry_job \<Rightarrow> jsnum \<Rightarrow> entry_pass \<Rightarrow> string \<Rightarrow> jsnum \<Rightarrow> entry_context \<Rightarrow> pass_end \<times> entry_context \<times> entry_call list" where
  "close_pass job ttl i status held ctx =
     (case cancelStale i ctx of
        (ctx1, cs1) \<Rightarrow>
          (if isWorking status then (case expire_pass job ttl i ctx1 of (ctx2, cs2) \<Rightarrow> (Unresolved, ctx2, cs1 @ cs2))
           else if js_eq held (ec_legsQty ctx1) \<and> ec_stale ctx1 = [] then (Done, ctx1, cs1)
           else (Unresolved, ctx1, cs1)))"

definition entry_step :: "live_entry_job \<Rightarrow> jsnum \<Rightarrow> entry_pass \<Rightarrow> entry_context \<Rightarrow> pass_end \<times> entry_context \<times> entry_call list" where
  "entry_step job ttl i ctx =
     (case (en_order i, en_held i) of
        (Some (status, executed), Some held) \<Rightarrow>
          (case sync_pass job i held ctx of
             (ctx1, ok, cs1) \<Rightarrow>
               (if \<not> ok then (Threw, ctx1, cs1)
                else (case close_pass job ttl i status held ctx1 of (r, ctx', cs2) \<Rightarrow> (r, ctx', cs1 @ cs2))))
      | _ \<Rightarrow> (Threw, ctx, []))"

text \<open>The passes until the entry is resolved; \<open>None\<close> when the inputs end first.\<close>

fun entry_run :: "live_entry_job \<Rightarrow> jsnum \<Rightarrow> entry_context \<Rightarrow> entry_pass list \<Rightarrow> pass_end \<times> entry_context \<times> entry_call list" where
  "entry_run job ttl ctx [] = (Unresolved, ctx, [])"
| "entry_run job ttl ctx (i # is) =
     (case entry_step job ttl i ctx of
        (r, ctx', cs) \<Rightarrow>
          (if r = Done then (Done, ctx', cs)
           else (case entry_run job ttl ctx' is of (r', ctx'', cs') \<Rightarrow> (r', ctx'', cs @ cs'))))"

section \<open>The legs that rest on the venue\<close>

text \<open>A call that throws leaves the venue as it was; legs that trigger are not the tracker's doing.\<close>

fun legs_after :: "leg_ids set \<Rightarrow> entry_call \<Rightarrow> leg_ids set" where
  "legs_after R (PlaceLegs q r) = set_option r \<union> R"
| "legs_after R (CancelLegs l ok) = (if ok then R - {l} else R)"
| "legs_after R (CancelAllOpen ok) = (if ok then {} else R)"
| "legs_after R _ = R"

definition resting :: "leg_ids set \<Rightarrow> entry_call list \<Rightarrow> leg_ids set" where
  "resting R cs = foldl legs_after R cs"

lemma resting_simps [simp]:
  "resting R [] = R" "resting R (c # cs) = resting (legs_after R c) cs" "resting R (cs @ cs') = resting (resting R cs) cs'"
  by (simp_all add: resting_def)

text \<open>The legs placed by a log; the venue gives every order an id of its own.\<close>

fun placed_legs :: "entry_call list \<Rightarrow> leg_ids list" where
  "placed_legs [] = []"
| "placed_legs (PlaceLegs q (Some l) # cs) = l # placed_legs cs"
| "placed_legs (c # cs) = placed_legs cs"

lemma placed_append [simp]: "placed_legs (cs @ cs') = placed_legs cs @ placed_legs cs'"
  by (induction cs rule: placed_legs.induct) auto

text \<open>A flatten of the emergency path that threw: the orders are gone and the position is still there.\<close>

fun emergency_failed :: "entry_call \<Rightarrow> bool" where
  "emergency_failed (Flatten sd q ok) = (\<not> ok)"
| "emergency_failed _ = False"

text \<open>
  \<open>in_step ctx R\<close>: what rests on the venue is what the context knows, the current legs are not stale, and the
  protected size is zero exactly without legs.
\<close>

definition legs_in_step :: "entry_context \<Rightarrow> leg_ids set \<Rightarrow> bool" where
  "legs_in_step ctx R \<longleftrightarrow> R = set_option (ec_legs ctx) \<union> set (ec_stale ctx) \<and> set_option (ec_legs ctx) \<inter> set (ec_stale ctx) = {}
     \<and> (ec_legs ctx = None \<longleftrightarrow> ec_legsQty ctx = 0)"

definition calm :: "entry_call list \<Rightarrow> bool" where
  "calm cs \<longleftrightarrow> list_all (\<lambda>c. \<not> emergency_failed c) cs"

lemma calm_append [simp]: "calm (cs @ cs') \<longleftrightarrow> calm cs \<and> calm cs'"
  by (simp add: calm_def)

lemma resting_placed: "resting R cs \<subseteq> R \<union> set (placed_legs cs)"
proof (induction cs arbitrary: R)
  case Nil
  then show ?case by simp
next
  case (Cons c cs)
  have "legs_after R c \<union> set (placed_legs cs) \<subseteq> R \<union> set (placed_legs (c # cs))"
    by (cases "(c # cs)" rule: placed_legs.cases) auto
  then show ?case using Cons [of "legs_after R c"] by auto
qed

lemma resting_cancels: "resting R (map (\<lambda>l. CancelLegs l (f l)) ls) = R - {l \<in> set ls. f l}"
  by (induction ls arbitrary: R) auto

lemma placed_cancels: "placed_legs (map (\<lambda>l. CancelLegs l (f l)) ls) = []"
  by (induction ls) auto

lemma sync_keeps:
  assumes "syncLegs job i held ctx = (ctx', ok, cs)" and "legs_in_step ctx R" and "\<forall>l\<in>set (placed_legs cs). l \<notin> R" and "calm cs"
  shows "legs_in_step ctx' (resting R cs)"
  using assms by (auto simp: syncLegs_def legs_in_step_def push_stale_def js_eq_def calm_def split: if_splits option.splits)

lemma sync_pass_keeps:
  assumes "sync_pass job i held ctx = (ctx', ok, cs)" and "legs_in_step ctx R" and "\<forall>l\<in>set (placed_legs cs). l \<notin> R" and "calm cs"
  shows "legs_in_step ctx' (resting R cs)"
  using assms sync_keeps [of job i held ctx ctx' ok cs R] by (auto simp: sync_pass_def split: if_splits)

lemma close_pass_log:
  assumes "close_pass job ttl i status held ctx = (r, ctx', cs)"
  obtains c where "cs = map (\<lambda>l. CancelLegs l (en_cancelLegs i l)) (ec_stale ctx) @ c" "set c \<subseteq> {CancelOrder True, CancelOrder False}"
    "ec_stale ctx' = filter (\<lambda>l. \<not> en_cancelLegs i l) (ec_stale ctx)" "ec_legs ctx' = ec_legs ctx" "ec_legsQty ctx' = ec_legsQty ctx"
    "r = Done \<longrightarrow> \<not> isWorking status \<and> js_eq held (ec_legsQty ctx) \<and> ec_stale ctx' = []"
  using assms by (auto simp: close_pass_def cancelStale_def expire_pass_def Let_def split: if_splits)

lemma resting_orders: "set c \<subseteq> {CancelOrder True, CancelOrder False} \<Longrightarrow> resting R c = R \<and> placed_legs c = []"
  by (induction c) auto

lemma close_pass_keeps:
  assumes "close_pass job ttl i status held ctx = (r, ctx', cs)" and "legs_in_step ctx R"
  shows "legs_in_step ctx' (resting R cs) \<and> placed_legs cs = []"
proof -
  obtain c where "cs = map (\<lambda>l. CancelLegs l (en_cancelLegs i l)) (ec_stale ctx) @ c" "set c \<subseteq> {CancelOrder True, CancelOrder False}"
    "ec_stale ctx' = filter (\<lambda>l. \<not> en_cancelLegs i l) (ec_stale ctx)" "ec_legs ctx' = ec_legs ctx" "ec_legsQty ctx' = ec_legsQty ctx"
    using close_pass_log [OF assms(1)] by blast
  then show ?thesis using assms(2) resting_orders [of c] by (auto simp: legs_in_step_def resting_cancels placed_cancels)
qed

lemma step_split:
  assumes "entry_step job ttl i ctx = (r, ctx', cs)"
  shows "r = Threw \<and> ctx' = ctx \<and> cs = [] \<or> (\<exists>status x held ctx1 ok cs1. en_order i = Some (status, x) \<and> en_held i = Some held
    \<and> sync_pass job i held ctx = (ctx1, ok, cs1)
    \<and> (if ok then \<exists>cs2. close_pass job ttl i status held ctx1 = (r, ctx', cs2) \<and> cs = cs1 @ cs2 else r = Threw \<and> ctx' = ctx1 \<and> cs = cs1))"
  using assms by (auto simp: entry_step_def split: option.splits prod.splits if_splits)

lemma step_keeps:
  assumes "entry_step job ttl i ctx = (r, ctx', cs)" and "legs_in_step ctx R" and "\<forall>l\<in>set (placed_legs cs). l \<notin> R" and "calm cs"
  shows "legs_in_step ctx' (resting R cs)"
  using step_split [OF assms(1)]
proof (elim disjE exE conjE)
  fix status x held ctx1 ok cs1
  assume s: "sync_pass job i held ctx = (ctx1, ok, cs1)"
    and t: "if ok then \<exists>cs2. close_pass job ttl i status held ctx1 = (r, ctx', cs2) \<and> cs = cs1 @ cs2 else r = Threw \<and> ctx' = ctx1 \<and> cs = cs1"
  show ?thesis
  proof (cases ok)
    case True
    then obtain cs2 where c: "close_pass job ttl i status held ctx1 = (r, ctx', cs2)" "cs = cs1 @ cs2" using t by auto
    then have "legs_in_step ctx1 (resting R cs1)" using sync_pass_keeps [OF s assms(2)] assms(3,4) by auto
    then show ?thesis using close_pass_keeps [OF c(1)] c(2) by simp
  next
    case False
    then show ?thesis using t sync_pass_keeps [OF s assms(2)] assms(3,4) by auto
  qed
qed (use assms in auto)

text \<open>What a resolved pass was told.\<close>

lemma close_done:
  "close_pass job ttl i status held ctx = (Done, ctx', cs) \<Longrightarrow> \<not> isWorking status \<and> js_eq held (ec_legsQty ctx') \<and> ec_stale ctx' = []"
  by (auto simp: close_pass_def cancelStale_def expire_pass_def Let_def split: if_splits)

lemma step_done:
  assumes "entry_step job ttl i ctx = (Done, ctx', cs)"
  shows "\<exists>status x held. en_order i = Some (status, x) \<and> \<not> isWorking status \<and> en_held i = Some held \<and> js_eq held (ec_legsQty ctx') \<and> ec_stale ctx' = []"
  using step_split [OF assms] by (auto dest: close_done split: if_splits)

lemma run_keeps:
  assumes "entry_run job ttl ctx is = (r, ctx', cs)" and "legs_in_step ctx R" and "distinct (placed_legs cs)"
    and "set (placed_legs cs) \<inter> R = {}" and "calm cs"
  shows "legs_in_step ctx' (resting R cs) \<and>
    (r = Done \<longrightarrow> (\<exists>i\<in>set is. \<exists>status x held. en_order i = Some (status, x) \<and> \<not> isWorking status \<and> en_held i = Some held
       \<and> js_eq held (ec_legsQty ctx') \<and> ec_stale ctx' = []))"
  using assms
proof (induction "is" arbitrary: ctx R cs)
  case Nil
  then show ?case by auto
next
  case (Cons i "is")
  obtain r1 ctx1 cs1 where s: "entry_step job ttl i ctx = (r1, ctx1, cs1)" by (cases "entry_step job ttl i ctx")
  show ?case
  proof (cases "r1 = Done")
    case True
    then have "r = Done" "ctx' = ctx1" "cs = cs1" using Cons.prems(1) s by auto
    then show ?thesis using step_keeps [OF s Cons.prems(2)] step_done [of job ttl i ctx ctx1 cs1] s True Cons.prems(4,5) by auto
  next
    case False
    then obtain cs2 where t: "entry_run job ttl ctx1 is = (r, ctx', cs2)" "cs = cs1 @ cs2"
      using Cons.prems(1) s by (auto split: prod.splits)
    have "legs_in_step ctx1 (resting R cs1)" using step_keeps [OF s Cons.prems(2)] Cons.prems(4,5) t(2) by auto
    moreover have "set (placed_legs cs2) \<inter> resting R cs1 = {}" using resting_placed [of R cs1] Cons.prems(3,4) t(2) by auto
    ultimately show ?thesis using Cons.IH [OF t(1)] Cons.prems(3,5) t(2) by auto
  qed
qed

lemma fresh_context: "legs_in_step entry_context_new {}"
  by (simp add: legs_in_step_def entry_context_new_def)

text \<open>
  C6. A resolved entry is protected: when the tracker calls an entry resolved and no flatten of its emergency path threw
  on the way, the order is over on the venue, and exactly one pair of legs rests there, placed by the tracker, when the
  venue holds a position, and none when it is flat; no superseded pair remains. The venue gives every order an id of
  its own. (Without the condition on the flatten this is false, see \<open>failed_flatten_resolves_unprotected\<close>.)
\<close>

theorem resolved_entry_is_protected:
  assumes "entry_run job ttl entry_context_new is = (Done, ctx, cs)" and "distinct (placed_legs cs)" and "calm cs"
  shows "\<exists>i\<in>set is. \<exists>status x held. en_order i = Some (status, x) \<and> \<not> isWorking status \<and> en_held i = Some held
    \<and> (if held = 0 then resting {} cs = {} else \<exists>l. resting {} cs = {l} \<and> l \<in> set (placed_legs cs))"
proof -
  from run_keeps [OF assms(1) fresh_context assms(2) _ assms(3)] obtain i status x held where
    i: "i \<in> set is" "en_order i = Some (status, x)" "\<not> isWorking status" "en_held i = Some held"
    "js_eq held (ec_legsQty ctx)" "ec_stale ctx = []" and k: "legs_in_step ctx (resting {} cs)" by auto
  have h: "held = ec_legsQty ctx" using js_eq_imp_eq [OF i(5)] .
  have "if held = 0 then resting {} cs = {} else \<exists>l. resting {} cs = {l} \<and> l \<in> set (placed_legs cs)"
    using k i(6) h resting_placed [of "{}" cs] by (cases "ec_legs ctx") (auto simp: legs_in_step_def)
  then show ?thesis using i(1-4) by blast
qed

section \<open>Never bare in between\<close>

text \<open>
  No call takes away the last legs that rest but a cancel of everything, and the call right after every such cancel
  is a flatten.
\<close>

fun flatten_next :: "entry_call list \<Rightarrow> bool" where
  "flatten_next (Flatten sd q ok # cs) = True"
| "flatten_next _ = False"

fun never_bare :: "leg_ids set \<Rightarrow> entry_call list \<Rightarrow> bool" where
  "never_bare R [] = True"
| "never_bare R (c # cs) =
     ((R \<noteq> {} \<and> legs_after R c = {} \<longrightarrow> c = CancelAllOpen True) \<and> (c = CancelAllOpen True \<longrightarrow> flatten_next cs)
      \<and> never_bare (legs_after R c) cs)"

lemma flatten_next_append: "flatten_next cs \<Longrightarrow> flatten_next (cs @ cs')"
  by (cases cs rule: flatten_next.cases) auto

lemma never_bare_append: "never_bare R cs \<Longrightarrow> never_bare (resting R cs) cs' \<Longrightarrow> never_bare R (cs @ cs')"
  by (induction cs arbitrary: R) (auto simp: flatten_next_append)

text \<open>What the tracker knows of the legs: all were placed before, the current pair is not stale and rests if anything does.\<close>

definition legs_known :: "entry_context \<Rightarrow> leg_ids set \<Rightarrow> leg_ids set \<Rightarrow> bool" where
  "legs_known ctx P R \<longleftrightarrow> set_option (ec_legs ctx) \<union> set (ec_stale ctx) \<subseteq> P \<and> R \<subseteq> P \<and> set_option (ec_legs ctx) \<inter> set (ec_stale ctx) = {}
     \<and> (R = {} \<or> (\<exists>l. ec_legs ctx = Some l \<and> l \<in> R))"

lemma never_bare_keeps:
  assumes "R = {} \<or> l \<in> R" and "\<forall>c\<in>set cs. (\<exists>l' ok. c = CancelLegs l' ok \<and> l' \<noteq> l) \<or> (\<exists>ok. c = CancelOrder ok)"
  shows "never_bare R cs \<and> (resting R cs = {} \<or> l \<in> resting R cs)"
  using assms
proof (induction cs arbitrary: R)
  case Nil
  then show ?case by simp
next
  case (Cons c cs)
  from Cons.prems(2) consider l' ok where "c = CancelLegs l' ok" "l' \<noteq> l" | ok where "c = CancelOrder ok" by auto
  then have "(legs_after R c = {} \<or> l \<in> legs_after R c) \<and> (R \<noteq> {} \<longrightarrow> legs_after R c \<noteq> {}) \<and> c \<noteq> CancelAllOpen True"
    using Cons.prems(1) by cases auto
  moreover from this have "never_bare (legs_after R c) cs \<and> (resting (legs_after R c) cs = {} \<or> l \<in> resting (legs_after R c) cs)"
    using Cons.IH [of "legs_after R c"] Cons.prems(2) by simp
  ultimately show ?case by auto
qed

lemma never_bare_nothing:
  assumes "\<forall>c\<in>set cs. (\<exists>l ok. c = CancelLegs l ok) \<or> (\<exists>ok. c = CancelOrder ok)"
  shows "never_bare {} cs \<and> resting {} cs = {}"
  using assms
proof (induction cs)
  case Nil
  then show ?case by simp
next
  case (Cons c cs)
  then have "legs_after {} c = {}" "c \<noteq> CancelAllOpen True" by (auto split: if_splits)
  then show ?case using Cons by simp
qed

lemma close_never_bare:
  assumes "close_pass job ttl i status held ctx = (r, ctx', cs)" and "legs_known ctx P R"
  shows "never_bare R cs \<and> placed_legs cs = [] \<and> legs_known ctx' P (resting R cs)"
proof -
  obtain c where c: "cs = map (\<lambda>l. CancelLegs l (en_cancelLegs i l)) (ec_stale ctx) @ c" "set c \<subseteq> {CancelOrder True, CancelOrder False}"
    "ec_stale ctx' = filter (\<lambda>l. \<not> en_cancelLegs i l) (ec_stale ctx)" "ec_legs ctx' = ec_legs ctx"
    using close_pass_log [OF assms(1)] by blast
  define l where "l = (case ec_legs ctx of Some l \<Rightarrow> l | None \<Rightarrow> \<lparr> lg_stopOrderId = None, lg_tpOrderId = None \<rparr>)"
  have cs: "(\<exists>l' ok. x = CancelLegs l' ok \<and> (ec_legs ctx \<noteq> None \<longrightarrow> l' \<noteq> l)) \<or> (\<exists>ok. x = CancelOrder ok)" if "x \<in> set cs" for x
    using that c(1,2) assms(2) by (auto simp: legs_known_def l_def split: option.splits)
  have p: "placed_legs cs = []" using c(1,2) resting_orders [OF c(2)] by (simp add: placed_cancels)
  have sub: "resting R cs \<subseteq> P" using resting_placed [of R cs] p assms(2) by (auto simp: legs_known_def)
  show ?thesis
  proof (cases "ec_legs ctx")
    case None
    then have "R = {}" using assms(2) by (auto simp: legs_known_def)
    moreover have "never_bare {} cs \<and> resting {} cs = {}" using cs by (intro never_bare_nothing) blast
    ultimately show ?thesis using c(3,4) assms(2) p None by (auto simp: legs_known_def)
  next
    case (Some k)
    then have "R = {} \<or> l \<in> R" "k = l" using assms(2) by (auto simp: legs_known_def l_def)
    then show ?thesis using never_bare_keeps [of R l cs] cs c(3,4) assms(2) p sub Some by (auto simp: legs_known_def)
  qed
qed

lemma sync_never_bare:
  assumes "sync_pass job i held ctx = (ctx', ok, cs)" and "legs_known ctx P R" and "held \<noteq> 0" and "\<forall>l\<in>set (placed_legs cs). l \<notin> P"
  shows "never_bare R cs \<and> legs_known ctx' (P \<union> set (placed_legs cs)) (resting R cs)"
  using assms
  by (auto simp: sync_pass_def syncLegs_def legs_known_def js_eq_def push_stale_def split: if_splits option.splits)

lemma step_never_bare:
  assumes "entry_step job ttl i ctx = (r, ctx', cs)" and "legs_known ctx P R" and "\<forall>l\<in>set (placed_legs cs). l \<notin> P"
    and "en_held i \<noteq> Some 0"
  shows "never_bare R cs \<and> legs_known ctx' (P \<union> set (placed_legs cs)) (resting R cs)"
  using step_split [OF assms(1)]
proof (elim disjE exE conjE)
  fix status x held ctx1 ok cs1
  assume h: "en_held i = Some held" and s: "sync_pass job i held ctx = (ctx1, ok, cs1)"
    and t: "if ok then \<exists>cs2. close_pass job ttl i status held ctx1 = (r, ctx', cs2) \<and> cs = cs1 @ cs2 else r = Threw \<and> ctx' = ctx1 \<and> cs = cs1"
  have n: "held \<noteq> 0" using assms(4) h by simp
  show ?thesis
  proof (cases ok)
    case True
    then obtain cs2 where c: "close_pass job ttl i status held ctx1 = (r, ctx', cs2)" "cs = cs1 @ cs2" using t by auto
    have b: "never_bare R cs1" "legs_known ctx1 (P \<union> set (placed_legs cs1)) (resting R cs1)"
      using sync_never_bare [OF s assms(2) n] assms(3) c(2) by auto
    show ?thesis using close_never_bare [OF c(1) b(2)] b(1) c(2) by (auto intro: never_bare_append)
  next
    case False
    then show ?thesis using t sync_never_bare [OF s assms(2) n] assms(3) by auto
  qed
qed (use assms in auto)

lemma run_never_bare:
  assumes "entry_run job ttl ctx is = (r, ctx', cs)" and "legs_known ctx P R" and "distinct (placed_legs cs)"
    and "set (placed_legs cs) \<inter> P = {}" and "list_all (\<lambda>i. en_held i \<noteq> Some 0) is"
  shows "never_bare R cs"
  using assms
proof (induction "is" arbitrary: ctx R P cs)
  case Nil
  then show ?case by auto
next
  case (Cons i "is")
  obtain r1 ctx1 cs1 where s: "entry_step job ttl i ctx = (r1, ctx1, cs1)" by (cases "entry_step job ttl i ctx")
  show ?case
  proof (cases "r1 = Done")
    case True
    then show ?thesis using Cons.prems step_never_bare [OF s Cons.prems(2)] s by auto
  next
    case False
    then obtain cs2 where t: "entry_run job ttl ctx1 is = (r, ctx', cs2)" "cs = cs1 @ cs2"
      using Cons.prems(1) s by (auto split: prod.splits)
    have b: "never_bare R cs1" "legs_known ctx1 (P \<union> set (placed_legs cs1)) (resting R cs1)"
      using step_never_bare [OF s Cons.prems(2)] Cons.prems(4,5) t(2) by auto
    have "never_bare (resting R cs1) cs2" using Cons.IH [OF t(1) b(2)] Cons.prems(3-5) t(2) by auto
    then show ?thesis using b(1) t(2) by (auto intro: never_bare_append)
  qed
qed

text \<open>
  C7. Protection is never interrupted: as long as the venue reports a position, whatever fills arrive and whichever calls
  fail, no call of the tracker takes away the last legs that rest except a cancel of everything, and the call right
  after every such cancel is a flatten of the position: new legs go up before the old ones come down. The venue
  gives every order an id of its own.
\<close>

theorem protection_never_interrupted:
  assumes "entry_run job ttl entry_context_new is = (r, ctx, cs)" and "distinct (placed_legs cs)"
    and "list_all (\<lambda>i. en_held i \<noteq> Some 0) is"
  shows "never_bare {} cs"
  using run_never_bare [OF assms(1) _ assms(2) _ assms(3), of "{}" "{}"] by (simp add: entry_context_new_def legs_known_def)

text \<open>
  A failed flatten can end as protected: the tracker holds legs for a size \<open>q\<close>; the position grows, the new legs
  are refused, everything is cancelled and the flatten throws. The context still names the cancelled legs, so when the
  position next reads \<open>q\<close> and the order is over, the entry resolves as protected although no leg rests.
\<close>

theorem failed_flatten_resolves_unprotected:
  assumes "ctx = entry_context_new\<lparr> ec_legs := Some l, ec_legsQty := Fin q \<rparr>"
    and "en_order i = Some first_status" and "en_held i = Some (Fin h)" and "h \<noteq> q" and "h \<noteq> 0"
    and "en_place i = None" and "en_cancelAll i" and "\<not> en_flatten i"
    and "en_order j = Some (status, x)" and "\<not> isWorking status" and "en_held j = Some (Fin q)" and "q \<noteq> 0"
  shows "\<exists>ctx' cs. entry_run job ttl ctx [i, j] = (Done, ctx', cs) \<and> ec_legs ctx' = Some l \<and> ec_legsQty ctx' = Fin q \<and> resting {l} cs = {}"
  using assms
  by (cases first_status) (simp add: entry_step_def sync_pass_def syncLegs_def close_pass_def cancelStale_def entry_context_new_def)

text \<open>
  An entry that does not fill in time is cancelled: a pass that gets its answers, finds the order still working at
  or past its deadline and has sent no cancel yet sends one.
\<close>

theorem overdue_entry_is_cancelled:
  assumes "entry_step job ttl i ctx = (Unresolved, ctx', cs)" and "en_order i = Some (status, x)" and "isWorking status"
    and "ej_submittedAt job + ttl \<le> en_now i" and "\<not> ec_cancelSent ctx"
  shows "CancelOrder (en_cancelOrder i) \<in> set cs \<and> (en_cancelOrder i \<longrightarrow> ec_cancelSent ctx')"
proof -
  obtain held ctx1 cs1 cs2 where s: "sync_pass job i held ctx = (ctx1, True, cs1)" "close_pass job ttl i status held ctx1 = (Unresolved, ctx', cs2)" "cs = cs1 @ cs2"
    using assms(1,2) by (auto simp: entry_step_def split: option.splits prod.splits if_splits)
  have "\<not> ec_cancelSent ctx1" using s(1) assms(5) by (auto simp: sync_pass_def syncLegs_def split: if_splits option.splits)
  then show ?thesis using s(2,3) assms(3,4)
    by (auto simp: close_pass_def cancelStale_def expire_pass_def Let_def split: if_splits)
qed

section \<open>Witnesses\<close>

definition demo_job :: live_entry_job where
  "demo_job = \<lparr> ej_symbol = ''BTC'', ej_side = LONG, ej_clientOrderId = ''e1'', ej_strategy = FLEET, ej_stopLoss = Fin 90, ej_takeProfit = None,
     ej_decisionId = None, ej_submittedAt = 0 \<rparr>"

definition demo_entry_pass :: "string \<Rightarrow> real \<Rightarrow> nat option \<Rightarrow> entry_pass" where
  "demo_entry_pass status held oid = \<lparr> en_order = Some (status, Fin held), en_held = Some (Fin held),
     en_place = map_option (\<lambda>n. \<lparr> lg_stopOrderId = Some n, lg_tpOrderId = None \<rparr>) oid,
     en_cancelAll = True, en_flatten = False, en_cancelLegs = (\<lambda>l. True), en_cancelOrder = True, en_now = Fin 1, en_overdueNow = Fin 1 \<rparr>"

definition demo_passes :: "entry_pass list" where
  "demo_passes = [demo_entry_pass ''PARTIALLY_FILLED'' 1 (Some 7), demo_entry_pass ''FILLED'' 2 (Some 8)]"

lemmas entry_evals = demo_passes_def demo_entry_pass_def demo_job_def entry_step_def sync_pass_def syncLegs_def close_pass_def cancelStale_def
  expire_pass_def entry_context_new_def isWorking_def TERMINAL_STATUSES_def push_stale_def js_eq_def Let_def

lemma demo_entry_run:
  "\<exists>ctx. entry_run demo_job (Fin 100) entry_context_new demo_passes = (Done, ctx,
     [PlaceLegs (Fin 1) (Some \<lparr> lg_stopOrderId = Some 7, lg_tpOrderId = None \<rparr>), RecordEntry (entry_of demo_job \<lparr> lg_stopOrderId = Some 7, lg_tpOrderId = None \<rparr>),
      PlaceLegs (Fin 2) (Some \<lparr> lg_stopOrderId = Some 8, lg_tpOrderId = None \<rparr>), RecordEntry (entry_of demo_job \<lparr> lg_stopOrderId = Some 8, lg_tpOrderId = None \<rparr>),
      CancelLegs \<lparr> lg_stopOrderId = Some 7, lg_tpOrderId = None \<rparr> True])"
  by (simp add: entry_evals)

lemma resolved_entry_is_protected_witness:
  "\<exists>ctx cs l. entry_run demo_job (Fin 100) entry_context_new demo_passes = (Done, ctx, cs) \<and> resting {} cs = {l}"
proof -
  obtain ctx cs where r: "entry_run demo_job (Fin 100) entry_context_new demo_passes = (Done, ctx, cs)" and d: "distinct (placed_legs cs)" "calm cs"
    using demo_entry_run by (auto simp: calm_def)
  have "en_held i \<noteq> Some 0" if "i \<in> set demo_passes" for i using that by (auto simp: demo_passes_def demo_entry_pass_def)
  then show ?thesis using resolved_entry_is_protected [OF r d] r by (auto split: if_splits)
qed

text \<open>Legs for one unit, a second fill whose legs are refused, and a flatten that throws.\<close>

definition demo_refused :: "entry_pass list" where
  "demo_refused = [demo_entry_pass ''PARTIALLY_FILLED'' 1 (Some 7), demo_entry_pass ''PARTIALLY_FILLED'' 2 None]"

lemma protection_never_interrupted_witness:
  "\<exists>r ctx cs. entry_run demo_job (Fin 100) entry_context_new demo_refused = (r, ctx, cs)
     \<and> CancelAllOpen True \<in> set cs \<and> resting {} cs = {} \<and> never_bare {} cs"
proof -
  obtain r ctx cs where r: "entry_run demo_job (Fin 100) entry_context_new demo_refused = (r, ctx, cs)"
    "distinct (placed_legs cs)" "CancelAllOpen True \<in> set cs" "resting {} cs = {}"
    by (simp add: demo_refused_def entry_evals)
  have "list_all (\<lambda>i. en_held i \<noteq> Some 0) demo_refused" by (simp add: demo_refused_def demo_entry_pass_def)
  then show ?thesis using protection_never_interrupted [OF r(1,2)] r by blast
qed

lemma failed_flatten_resolves_unprotected_witness:
  "\<exists>ctx' cs. entry_run demo_job (Fin 100) (entry_context_new\<lparr> ec_legs := Some \<lparr> lg_stopOrderId = Some 7, lg_tpOrderId = None \<rparr>, ec_legsQty := Fin 5 \<rparr>)
      [demo_entry_pass ''FILLED'' 10 None, demo_entry_pass ''FILLED'' 5 None] = (Done, ctx', cs)
    \<and> ec_legsQty ctx' = Fin 5 \<and> resting {\<lparr> lg_stopOrderId = Some 7, lg_tpOrderId = None \<rparr>} cs = {}"
  using failed_flatten_resolves_unprotected [OF refl, of "demo_entry_pass ''FILLED'' 10 None" "(''FILLED'', Fin 10)" 10 5
      "demo_entry_pass ''FILLED'' 5 None" "''FILLED''" "Fin 5" demo_job "Fin 100" "\<lparr> lg_stopOrderId = Some 7, lg_tpOrderId = None \<rparr>"]
  by (auto simp: demo_entry_pass_def isWorking_def TERMINAL_STATUSES_def)

lemma overdue_entry_is_cancelled_witness:
  "CancelOrder True \<in> set (snd (snd (entry_step demo_job (Fin 1) (demo_entry_pass ''NEW'' 0 None) entry_context_new)))"
proof -
  obtain ctx cs where s: "entry_step demo_job (Fin 1) (demo_entry_pass ''NEW'' 0 None) entry_context_new = (Unresolved, ctx, cs)"
    by (simp add: entry_evals)
  then show ?thesis using overdue_entry_is_cancelled [OF s, of "''NEW''" "Fin 0"]
    by (simp add: demo_entry_pass_def demo_job_def isWorking_def TERMINAL_STATUSES_def entry_context_new_def)
qed

end
