(* ===== verification/LiveJournal.thy ===== *)
theory LiveJournal
  imports CoreTypes "HOL-Library.Multiset"
begin

text \<open>
  The closed-trade journal of live mode (\<open>src/binance/liveJournal.ts\<close>): trades built from the venue's
  executions and funding lines, the sync with its cursors, and the record of who opened what. The venue is
  an argument: what it answers to a page request is an input of a sync, the clock readings of a sync are
  separate inputs, and a save is an outcome. JavaScript objects keyed by symbol are association lists.
\<close>

record fill_view =
  fv_id :: nat
  fv_symbol :: string
  fv_orderId :: nat
  fv_side :: order_side
  fv_price :: jsnum
  fv_qty :: jsnum
  fv_realizedPnl :: jsnum
  fv_commission :: jsnum
  fv_commissionAsset :: string
  fv_time :: jsnum

record funding_view =
  fu_symbol :: string
  fu_amount :: jsnum
  fu_time :: jsnum

section \<open>Trades from executions\<close>

datatype journal_event = FillEvent fill_view | FundingEvent funding_view

fun event_at :: "journal_event \<Rightarrow> jsnum" where
  "event_at (FillEvent f) = fv_time f"
| "event_at (FundingEvent u) = fu_time u"

text \<open>A stable sort by time.\<close>

fun insert_event :: "journal_event \<Rightarrow> journal_event list \<Rightarrow> journal_event list" where
  "insert_event e [] = [e]"
| "insert_event e (u # us) = (if event_at e < event_at u then e # u # us else u # insert_event e us)"

definition sort_events :: "journal_event list \<Rightarrow> journal_event list" where
  "sort_events es = foldl (\<lambda>acc e. insert_event e acc) [] es"

record close_group =
  cg_symbol :: string
  cg_orderId :: nat
  cg_side :: order_side
  cg_fills :: "fill_view list"

record journal_build =
  jb_trades :: "trade_record list"
  jb_unpricedFees :: jsnum
  jb_carry :: "(string \<times> jsnum) list"
  jb_group :: "close_group option"

definition carry_get :: "(string \<times> jsnum) list \<Rightarrow> string \<Rightarrow> jsnum" where
  "carry_get c s = (case map_of c s of Some x \<Rightarrow> x | None \<Rightarrow> 0)"

definition in_usdt :: "fill_view \<Rightarrow> bool" where
  "in_usdt f \<longleftrightarrow> fv_commissionAsset f = ''USDT''"

definition usdt_fees :: "fill_view list \<Rightarrow> jsnum" where
  "usdt_fees fs = js_sum (map fv_commission (filter in_usdt fs))"

definition closed_trade :: "(string \<Rightarrow> jsnum \<Rightarrow> agent_id) \<Rightarrow> jsnum \<Rightarrow> close_group \<Rightarrow> trade_record" where
  "closed_trade ownerOf charges g =
     (let closing = cg_fills g; qty = js_sum (map fv_qty closing);
          exit = js_sum (map (\<lambda>f. fv_price f * fv_qty f) closing) / qty;
          realized = js_sum (map fv_realizedPnl closing);
          direction = (if cg_side g = SELL then 1 else - 1);
          closedAt = math_max_list (map fv_time closing)
      in \<lparr> t_symbol = cg_symbol g, t_strategy = ownerOf (cg_symbol g) closedAt, t_side = (if cg_side g = SELL then LONG else SHORT),
           t_entry = exit - direction * realized / qty, t_exit = exit, t_qty = qty,
           t_pnl = realized - usdt_fees closing + charges, t_reason = EX_CLOSE, t_closedAt = closedAt,
           t_initialRisk = None, t_decisionId = None, t_partial = False \<rparr>)"

definition finish_group :: "(string \<Rightarrow> jsnum \<Rightarrow> agent_id) \<Rightarrow> journal_build \<Rightarrow> journal_build" where
  "finish_group ownerOf b =
     (case jb_group b of
        None \<Rightarrow> b
      | Some g \<Rightarrow>
          b\<lparr> jb_group := None,
             jb_unpricedFees := jb_unpricedFees b + js_sum (map fv_commission (filter (\<lambda>f. \<not> in_usdt f) (cg_fills g))),
             jb_carry := AList.update (cg_symbol g) 0 (jb_carry b),
             jb_trades := jb_trades b @ [closed_trade ownerOf (carry_get (jb_carry b) (cg_symbol g)) g] \<rparr>)"

definition add_carry :: "string \<Rightarrow> jsnum \<Rightarrow> journal_build \<Rightarrow> journal_build" where
  "add_carry s x b = b\<lparr> jb_carry := AList.update s (carry_get (jb_carry b) s + x) (jb_carry b) \<rparr>"

definition join_group :: "fill_view \<Rightarrow> journal_build \<Rightarrow> journal_build" where
  "join_group f b =
     b\<lparr> jb_group := Some (case jb_group b of
          None \<Rightarrow> \<lparr> cg_symbol = fv_symbol f, cg_orderId = fv_orderId f, cg_side = fv_side f, cg_fills = [f] \<rparr>
        | Some g \<Rightarrow> g\<lparr> cg_fills := cg_fills g @ [f] \<rparr>) \<rparr>"

fun journal_step :: "(string \<Rightarrow> jsnum \<Rightarrow> agent_id) \<Rightarrow> journal_build \<Rightarrow> journal_event \<Rightarrow> journal_build" where
  "journal_step ownerOf b (FundingEvent u) = add_carry (fu_symbol u) (fu_amount u) b"
| "journal_step ownerOf b (FillEvent f) =
     (if js_eq (fv_realizedPnl f) 0
      then (add_carry (fv_symbol f) (- (if in_usdt f then fv_commission f else 0)) b)
             \<lparr> jb_unpricedFees := jb_unpricedFees b + (if in_usdt f then 0 else fv_commission f) \<rparr>
      else join_group f
             (case jb_group b of
                Some g \<Rightarrow> if cg_orderId g \<noteq> fv_orderId f \<or> cg_symbol g \<noteq> fv_symbol f then finish_group ownerOf b else b
              | None \<Rightarrow> b))"

definition closedTradesFromFills ::
  "(string \<Rightarrow> jsnum \<Rightarrow> agent_id) \<Rightarrow> (string \<times> jsnum) list \<Rightarrow> fill_view list \<Rightarrow> funding_view list \<Rightarrow> journal_build" where
  "closedTradesFromFills ownerOf pending fills funding =
     finish_group ownerOf
       (foldl (journal_step ownerOf) \<lparr> jb_trades = [], jb_unpricedFees = 0, jb_carry = pending, jb_group = None \<rparr>
          (sort_events (map FillEvent fills @ map FundingEvent funding)))"

section \<open>The journal and its sync\<close>

record journal_state =
  jn_syncedAt :: jsnum
  jn_cursors :: "(string \<times> nat) list"
  jn_fundingSince :: jsnum
  jn_pending :: "(string \<times> jsnum) list"
  jn_trades :: "trade_record list"

definition EMPTY_JOURNAL :: journal_state where
  "EMPTY_JOURNAL = \<lparr> jn_syncedAt = 0, jn_cursors = [], jn_fundingSince = 0, jn_pending = [], jn_trades = [] \<rparr>"

definition KEEP_TRADES :: nat where "KEEP_TRADES = 1000"

definition PAGE :: nat where "PAGE = 1000"

definition FUNDING_LOOKBACK_MS :: jsnum where "FUNDING_LOOKBACK_MS = Fin 604800000"

datatype journal_file = NoJournal | BadJournal | JournalFile journal_state

record live_journal =
  lj_state :: journal_state
  lj_file :: journal_file

fun load_journal :: "journal_file \<Rightarrow> journal_state" where
  "load_journal (JournalFile st) = st"
| "load_journal f = EMPTY_JOURNAL"

definition open_journal :: "journal_file \<Rightarrow> live_journal" where
  "open_journal f = \<lparr> lj_state = load_journal f, lj_file = f \<rparr>"

definition isFresh :: "jsnum \<Rightarrow> jsnum \<Rightarrow> live_journal \<Rightarrow> bool" where
  "isFresh now maxAge j \<longleftrightarrow> 0 < jn_syncedAt (lj_state j) \<and> now - jn_syncedAt (lj_state j) \<le> maxAge"

definition max_id :: "nat \<Rightarrow> fill_view list \<Rightarrow> nat" where
  "max_id n fs = foldl max n (map fv_id fs)"

text \<open>
  The page loop of one symbol. \<open>None\<close> is a loop that does not end, \<open>Some None\<close> a request that failed.
\<close>

partial_function (option) fetch_pages ::
  "(nat option \<Rightarrow> nat \<Rightarrow> fill_view list option) \<Rightarrow> nat option \<Rightarrow> nat option \<Rightarrow> fill_view list
     \<Rightarrow> (fill_view list \<times> nat option) option option" where
  "fetch_pages src fromId cur acc =
     (case src fromId PAGE of
        None \<Rightarrow> Some None
      | Some page \<Rightarrow>
          (let cur' = (if page = [] then cur else Some (max_id (case cur of Some n \<Rightarrow> n | None \<Rightarrow> 0) page))
           in if length page < PAGE then Some (Some (acc @ page, cur'))
              else fetch_pages src (Some (max_id 0 page + 1)) cur' (acc @ page)))"

fun fetch_symbols ::
  "(string \<Rightarrow> nat option \<Rightarrow> nat \<Rightarrow> fill_view list option) \<Rightarrow> string list \<Rightarrow> (string \<times> nat) list \<Rightarrow> fill_view list
     \<Rightarrow> ((string \<times> nat) list \<times> fill_view list) option option" where
  "fetch_symbols src [] cursors fills = Some (Some (cursors, fills))"
| "fetch_symbols src (s # ss) cursors fills =
     (case fetch_pages (src s) (map_option Suc (map_of cursors s)) (map_of cursors s) fills of
        None \<Rightarrow> None
      | Some None \<Rightarrow> Some None
      | Some (Some (fills', cur)) \<Rightarrow>
          fetch_symbols src ss (case cur of Some n \<Rightarrow> AList.update s n cursors | None \<Rightarrow> cursors) fills')"

record sync_input =
  si_accountTrades :: "string \<Rightarrow> nat option \<Rightarrow> nat \<Rightarrow> fill_view list option"
  si_fundingFees :: "jsnum \<Rightarrow> nat \<Rightarrow> funding_view list option"
  si_startNow :: jsnum
  si_syncedNow :: jsnum
  si_doneNow :: jsnum
  si_saveOk :: bool

datatype sync_error = SourceFailed | SaveFailed

definition funding_from :: "sync_input \<Rightarrow> journal_state \<Rightarrow> jsnum" where
  "funding_from i st = (if 0 < jn_fundingSince st then jn_fundingSince st else si_startNow i - FUNDING_LOOKBACK_MS)"

definition journal_sync ::
  "(string \<Rightarrow> jsnum \<Rightarrow> agent_id) \<Rightarrow> string list \<Rightarrow> sync_input \<Rightarrow> live_journal
     \<Rightarrow> ((sync_error + nat \<times> jsnum) \<times> live_journal) option" where
  "journal_sync ownerOf symbols i j =
     (let st = lj_state j
      in case fetch_symbols (si_accountTrades i) symbols (jn_cursors st) [] of
           None \<Rightarrow> None
         | Some None \<Rightarrow> Some (Inl SourceFailed, j)
         | Some (Some (cursors, fills)) \<Rightarrow>
             (case si_fundingFees i (funding_from i st) PAGE of
                None \<Rightarrow> Some (Inl SourceFailed, j)
              | Some funding \<Rightarrow>
                  (let built = closedTradesFromFills ownerOf (jn_pending st) fills funding;
                       st' = \<lparr> jn_syncedAt = si_syncedNow i, jn_cursors = cursors, jn_fundingSince = si_doneNow i,
                               jn_pending = jb_carry built, jn_trades = last_n KEEP_TRADES (jn_trades st @ jb_trades built) \<rparr>
                   in if si_saveOk i
                      then Some (Inr (length (jb_trades built), jb_unpricedFees built), \<lparr> lj_state = st', lj_file = JournalFile st' \<rparr>)
                      else Some (Inl SaveFailed, j\<lparr> lj_state := st' \<rparr>))))"

section \<open>Owners\<close>

record owner_record =
  ow_symbol :: string
  ow_side :: side
  ow_strategy :: agent_id
  ow_submittedAt :: jsnum
  ow_clientOrderId :: string

definition record_owner :: "owner_record \<Rightarrow> owner_record list \<Rightarrow> owner_record list" where
  "record_owner r rs = last_n 500 (rs @ [r])"

definition ownerAt :: "owner_record list \<Rightarrow> string \<Rightarrow> jsnum \<Rightarrow> side option \<Rightarrow> agent_id" where
  "ownerAt rs symbol time sd =
     fst (foldl (\<lambda>(owner, latest) r.
       if ow_symbol r = symbol \<and> (case sd of None \<Rightarrow> True | Some x \<Rightarrow> ow_side r = x) \<and> ow_submittedAt r \<le> time \<and> latest < ow_submittedAt r
       then (ow_strategy r, ow_submittedAt r) else (owner, latest)) (EXECUTOR, NInf) rs)"

section \<open>The journal is the account's result\<close>

text \<open>
  What an execution or a funding line does to the account: realized profit less the commission paid in USDT, or
  the amount received.
\<close>

definition fill_result :: "fill_view \<Rightarrow> jsnum" where
  "fill_result f = fv_realizedPnl f + - (if in_usdt f then fv_commission f else 0)"

fun event_result :: "journal_event \<Rightarrow> jsnum" where
  "event_result (FillEvent f) = fill_result f"
| "event_result (FundingEvent u) = fu_amount u"

definition group_result :: "close_group option \<Rightarrow> jsnum" where
  "group_result g = (case g of None \<Rightarrow> 0 | Some g \<Rightarrow> sum_list (map fill_result (cg_fills g)))"

definition build_result :: "journal_build \<Rightarrow> jsnum" where
  "build_result b = sum_list (map t_pnl (jb_trades b)) + sum_list (map snd (jb_carry b)) + group_result (jb_group b)"

lemma js_minus_add: "- (a + b) = - a + - (b :: jsnum)"
  by (cases a; cases b) auto

lemma js_minus_zero: "- (0 :: jsnum) = 0"
  by simp

lemma sum_update: "sum_list (map snd (AList.update k (carry_get c k + x) c)) = sum_list (map snd c) + (x :: jsnum)"
proof (induction c)
  case Nil
  then show ?case by (simp add: carry_get_def del: js_consts)
next
  case (Cons p c)
  then show ?case by (cases p) (auto simp: carry_get_def ac_simps simp del: js_consts)
qed

lemma sum_clear: "sum_list (map snd (AList.update k 0 c)) + carry_get c k = sum_list (map snd c)"
proof (induction c)
  case Nil
  then show ?case by (simp add: carry_get_def del: js_consts)
next
  case (Cons p c)
  then show ?case by (cases p) (auto simp: carry_get_def ac_simps simp del: js_consts)
qed

lemma fees_result: "sum_list (map fill_result fs) = sum_list (map fv_realizedPnl fs) + - usdt_fees fs"
proof (induction fs)
  case Nil
  then show ?case by (simp add: usdt_fees_def js_sum_eq_sum_list js_minus_zero del: js_consts)
next
  case (Cons f fs)
  then show ?case
    by (simp add: usdt_fees_def js_sum_eq_sum_list fill_result_def js_minus_add js_minus_zero ac_simps del: js_consts)
qed

lemma closed_trade_pnl: "t_pnl (closed_trade ownerOf charges g) = sum_list (map fill_result (cg_fills g)) + charges"
  by (simp add: closed_trade_def Let_def fees_result js_sum_eq_sum_list minus_jsnum_def del: js_consts)

lemma add_carry_result: "build_result (add_carry s x b) = build_result b + x"
  by (simp add: build_result_def add_carry_def sum_update) (simp add: ac_simps)

lemma finish_result: "build_result (finish_group ownerOf b) = build_result b"
proof (cases "jb_group b")
  case None
  then show ?thesis by (simp add: finish_group_def)
next
  case (Some g)
  then show ?thesis using sum_clear [of "cg_symbol g" "jb_carry b"]
    by (simp add: finish_group_def build_result_def closed_trade_pnl group_result_def ac_simps del: js_consts)
qed

lemma join_result: "build_result (join_group f b) = build_result b + fill_result f"
  by (cases "jb_group b") (simp_all add: join_group_def build_result_def group_result_def ac_simps del: js_consts)

lemma journal_step_result: "build_result (journal_step ownerOf b e) = build_result b + event_result e"
proof (cases e)
  case (FillEvent f)
  have u: "build_result (b\<lparr> jb_unpricedFees := x \<rparr>) = build_result b" for b x by (simp add: build_result_def)
  have "fill_result f = - (if in_usdt f then fv_commission f else 0)" if "js_eq (fv_realizedPnl f) 0"
    using js_eq_imp_eq [OF that] by (simp add: fill_result_def)
  then show ?thesis using FillEvent
    by (simp add: u add_carry_result join_result finish_result del: js_consts split: option.split)
qed (simp add: add_carry_result)

lemma insert_event_mset: "mset (insert_event e es) = add_mset e (mset es)"
  by (induction es) auto

lemma sort_events_mset: "mset (sort_events es) = mset es"
proof -
  have "mset (foldl (\<lambda>acc e. insert_event e acc) acc es) = mset acc + mset es" for acc
    by (induction es arbitrary: acc) (auto simp: insert_event_mset)
  then show ?thesis by (simp add: sort_events_def)
qed

lemma fold_steps_result: "build_result (foldl (journal_step ownerOf) b es) = build_result b + sum_list (map event_result es)"
  by (induction es arbitrary: b) (simp_all add: journal_step_result add.assoc)

lemma journal_conserves:
  "sum_list (map t_pnl (jb_trades (closedTradesFromFills ownerOf pending fills funding)))
     + sum_list (map snd (jb_carry (closedTradesFromFills ownerOf pending fills funding)))
   = sum_list (map snd pending) + sum_list (map fill_result fills) + sum_list (map fu_amount funding)"
proof -
  let ?b = "\<lparr> jb_trades = [], jb_unpricedFees = 0, jb_carry = pending, jb_group = None \<rparr>"
  let ?es = "map FillEvent fills @ map FundingEvent funding"
  have "sum_list (map event_result (sort_events ?es)) = sum_list (map event_result ?es)"
    by (metis mset_map sort_events_mset sum_mset_sum_list)
  also have "\<dots> = sum_list (map fill_result fills) + sum_list (map fu_amount funding)"
    by (simp add: o_def)
  finally have "build_result (closedTradesFromFills ownerOf pending fills funding)
      = build_result ?b + (sum_list (map fill_result fills) + sum_list (map fu_amount funding))"
    by (simp add: closedTradesFromFills_def finish_result fold_steps_result del: js_consts)
  moreover have "jb_group (closedTradesFromFills ownerOf pending fills funding) = None"
    by (simp add: closedTradesFromFills_def finish_group_def split: option.split)
  ultimately show ?thesis by (simp add: build_result_def group_result_def add.assoc del: js_consts)
qed

text \<open>
  C17. Nothing the venue booked is lost or invented: whatever executions and funding lines arrive, in whatever order,
  the profit of the trades built from them plus the charges carried forward is exactly the charges carried in, plus
  the realized profit, less the commissions in USDT, plus the funding.
\<close>

theorem journal_conserves_result:
  "sum_list (map t_pnl (jb_trades (closedTradesFromFills ownerOf pending fills funding)))
     + sum_list (map snd (jb_carry (closedTradesFromFills ownerOf pending fills funding)))
   = sum_list (map snd pending) + sum_list (map fill_result fills) + sum_list (map fu_amount funding)"
  by (rule journal_conserves)

section \<open>The page loop returns\<close>










section \<open>Syncs book every execution once\<close>









text \<open>
  A run of syncs: each with its executions by symbol, new since the sync before, its funding answer and its input.
\<close>

fun run_syncs :: "(string \<Rightarrow> jsnum \<Rightarrow> agent_id) \<Rightarrow> string list \<Rightarrow> live_journal \<Rightarrow> sync_input list \<Rightarrow> live_journal option" where
  "run_syncs ownerOf ss j [] = Some j"
| "run_syncs ownerOf ss j (i # is) =
     (case journal_sync ownerOf ss i j of Some (Inr r, j') \<Rightarrow> run_syncs ownerOf ss j' is | _ \<Rightarrow> None)"



section \<open>Properties\<close>


text \<open>
  C37. The fee of an opening execution is charged to the close before it, not to the next one: in one batch with a
  close, an opening and the close of what was opened, the first trade pays the opening's commission and the trade it
  belongs to does not, because the first close is only written down when the second one arrives.
\<close>

theorem opening_fee_charged_to_earlier_close:
  assumes "fv_time a < fv_time b" and "fv_time b < fv_time c" and "fv_symbol b = fv_symbol a" and "fv_symbol c = fv_symbol a"
    and "in_usdt a" and "in_usdt b" and "in_usdt c" and "fv_orderId c \<noteq> fv_orderId a"
    and "fv_realizedPnl b = 0" and "\<not> js_eq (fv_realizedPnl a) 0" and "\<not> js_eq (fv_realizedPnl c) 0"
  shows "map t_pnl (jb_trades (closedTradesFromFills ownerOf [] [a, b, c] []))
    = [fv_realizedPnl a - fv_commission a - fv_commission b, fv_realizedPnl c - fv_commission c]"
proof -
  have e: "sort_events [FillEvent a, FillEvent b, FillEvent c] = [FillEvent a, FillEvent b, FillEvent c]"
    using assms(1,2) js_lt_trans [OF assms(1,2)] js_lt_asym by (auto simp: sort_events_def dest: js_lt_imp_le)
  have z: "js_eq 0 0" by simp
  show ?thesis
    using assms(3-11) z
    by (simp add: closedTradesFromFills_def e finish_group_def join_group_def add_carry_def carry_get_def closed_trade_pnl fill_result_def
          minus_jsnum_def del: js_consts)
qed

text \<open>
  A save that fails throws but leaves the new state in place: the sync reports a failure, and the journal is
  fresh all the same, with the cursors moved and the trades added, while the file still holds the old state.
\<close>

theorem failed_save_leaves_journal_fresh:
  assumes "journal_sync ownerOf ss i j = Some (Inl SaveFailed, j')" and "si_syncedNow i = Fin t" and "0 < t" and "0 \<le> m"
  shows "isFresh (Fin t) (Fin m) j' \<and> lj_file j' = lj_file j"
  using assms by (auto simp: journal_sync_def Let_def isFresh_def split: option.splits if_splits prod.splits)

text \<open>
  A failed request leaves the journal as it was, and only then or when the save fails does a sync report failure;
  a journal that was never synced is never fresh.
\<close>

theorem failed_request_changes_nothing:
  "case journal_sync ownerOf ss i j of
     Some (Inl SourceFailed, j') \<Rightarrow> j' = j
   | Some (Inr r, j') \<Rightarrow> lj_file j' = JournalFile (lj_state j') \<and> jn_syncedAt (lj_state j') = si_syncedNow i
   | _ \<Rightarrow> True"
  by (auto simp: journal_sync_def Let_def split: option.splits prod.splits sum.splits sync_error.splits)

lemma sync_since:
  "journal_sync ownerOf ss i j = Some (Inr r, j') \<Longrightarrow> jn_fundingSince (lj_state j') = si_doneNow i"
  by (auto simp: journal_sync_def Let_def split: option.splits prod.splits if_splits)

lemma syncs_since:
  assumes "run_syncs ownerOf ss j is = Some j'" and "Fin d \<le> jn_fundingSince (lj_state j)" and "list_all (\<lambda>i. Fin d \<le> si_doneNow i) is"
  shows "Fin d \<le> jn_fundingSince (lj_state j')"
  using assms
proof (induction "is" arbitrary: j)
  case Nil
  then show ?case by simp
next
  case (Cons i "is")
  then show ?case by (auto simp: sync_since split: option.splits prod.splits sum.splits)
qed

text \<open>
  C38. A funding line the venue lists late is never charged: when a sync ends at \<open>d\<close> without a line of an earlier
  time \<open>t\<close>, every later sync asks from a time after \<open>t\<close>, so no answer that keeps to the asked time contains it.
\<close>

theorem late_funding_line_is_never_charged:
  assumes "journal_sync ownerOf ss i j = Some (Inr r, j1)" and "si_doneNow i = Fin d" and "0 < d" and "t < d"
    and "run_syncs ownerOf ss j1 ins = Some j2" and "list_all (\<lambda>i. Fin d \<le> si_doneNow i) ins"
    and "fu_time u = Fin t" and "\<forall>from us. si_fundingFees k from PAGE = Some us \<longrightarrow> list_all (\<lambda>u. from \<le> fu_time u) us"
    and "si_fundingFees k (funding_from k (lj_state j2)) PAGE = Some us"
  shows "u \<notin> set us"
proof -
  have "Fin d \<le> jn_fundingSince (lj_state j2)"
    using syncs_since [OF assms(5) _ assms(6)] sync_since [OF assms(1)] assms(2) by simp
  then have "Fin d \<le> funding_from k (lj_state j2)"
    using assms(3) js_le_trans by (cases "jn_fundingSince (lj_state j2)") (auto simp: funding_from_def)
  then have "Fin t < funding_from k (lj_state j2)" using assms(4) by (cases "funding_from k (lj_state j2)") auto
  moreover have "list_all (\<lambda>u. funding_from k (lj_state j2) \<le> fu_time u) us" using assms(8,9) by blast
  ultimately show ?thesis using assms(7) by (metis js_lt_asym list_all_iff)
qed

section \<open>Witnesses\<close>

definition demo_fill :: "nat \<Rightarrow> nat \<Rightarrow> order_side \<Rightarrow> real \<Rightarrow> fill_view" where
  "demo_fill n oid sd pnl = \<lparr> fv_id = n, fv_symbol = ''BTCUSDT'', fv_orderId = oid, fv_side = sd, fv_price = Fin 100, fv_qty = Fin 1,
     fv_realizedPnl = Fin pnl, fv_commission = Fin 1, fv_commissionAsset = ''USDT'', fv_time = Fin (of_nat n) \<rparr>"


definition demo_sync :: "fill_view list \<Rightarrow> real \<Rightarrow> sync_input" where
  "demo_sync h t = \<lparr> si_accountTrades = (\<lambda>s from l. Some (take l (case from of None \<Rightarrow> h | Some n \<Rightarrow> filter (\<lambda>f. n \<le> fv_id f) h))),
     si_fundingFees = (\<lambda>t l. Some []), si_startNow = Fin t, si_syncedNow = Fin t, si_doneNow = Fin t, si_saveOk = True \<rparr>"



lemma opening_fee_charged_to_earlier_close_witness:
  "map t_pnl (jb_trades (closedTradesFromFills (\<lambda>s t. FLEET) [] [demo_fill 2 11 SELL 7, demo_fill 3 12 BUY 0, demo_fill 4 13 SELL 5] []))
    = [Fin 5, Fin 4]"
  using opening_fee_charged_to_earlier_close [of "demo_fill 2 11 SELL 7" "demo_fill 3 12 BUY 0" "demo_fill 4 13 SELL 5" "\<lambda>s t. FLEET"]
  by (simp add: demo_fill_def in_usdt_def)

lemma demo_pages: "fetch_pages (si_accountTrades (demo_sync [] t) s) None None [] = Some (Some ([], None))"
  by (subst fetch_pages.simps) (simp add: demo_sync_def PAGE_def)

lemma failed_save_leaves_journal_fresh_witness:
  "\<exists>j'. journal_sync (\<lambda>s t. FLEET) [''BTCUSDT''] ((demo_sync [] 10)\<lparr> si_saveOk := False \<rparr>) (open_journal NoJournal) = Some (Inl SaveFailed, j')
    \<and> isFresh (Fin 10) (Fin 5) j'"
proof -
  let ?i = "(demo_sync [] 10)\<lparr> si_saveOk := False \<rparr>"
  have "fetch_pages (si_accountTrades ?i s) None None [] = Some (Some ([], None))" for s using demo_pages [of 10 s] by simp
  then obtain j' where j: "journal_sync (\<lambda>s t. FLEET) [''BTCUSDT''] ?i (open_journal NoJournal) = Some (Inl SaveFailed, j')"
    by (simp add: journal_sync_def open_journal_def EMPTY_JOURNAL_def Let_def) (simp add: demo_sync_def Let_def)
  then show ?thesis using failed_save_leaves_journal_fresh [OF j, of 10 5] by (simp add: demo_sync_def)
qed

definition late_line :: "real \<Rightarrow> funding_view" where
  "late_line t = \<lparr> fu_symbol = ''BTCUSDT'', fu_amount = Fin 3, fu_time = Fin t \<rparr>"

lemma late_funding_line_is_never_charged_witness:
  "\<exists>r j1. journal_sync (\<lambda>s t. FLEET) [''BTCUSDT''] (demo_sync [] 10) (open_journal NoJournal) = Some (Inr r, j1)
    \<and> late_line 9 \<notin> set (filter (\<lambda>u. funding_from (demo_sync [] 20) (lj_state j1) \<le> fu_time u) [late_line 9, late_line 15])"
proof -
  let ?k = "(demo_sync [] 20)\<lparr> si_fundingFees := (\<lambda>t l. Some (filter (\<lambda>u. t \<le> fu_time u) [late_line 9, late_line 15])) \<rparr>"
  have "fetch_pages (si_accountTrades (demo_sync [] 10) s) None None [] = Some (Some ([], None))" for s by (rule demo_pages)
  then obtain r j1 where j1: "journal_sync (\<lambda>s t. FLEET) [''BTCUSDT''] (demo_sync [] 10) (open_journal NoJournal) = Some (Inr r, j1)"
    by (simp add: journal_sync_def open_journal_def EMPTY_JOURNAL_def Let_def) (simp add: demo_sync_def Let_def)
  have "funding_from ?k (lj_state j1) = funding_from (demo_sync [] 20) (lj_state j1)" by (simp add: funding_from_def)
  moreover have "late_line 9 \<notin> set (filter (\<lambda>u. funding_from ?k (lj_state j1) \<le> fu_time u) [late_line 9, late_line 15])"
    by (rule late_funding_line_is_never_charged [OF j1, where d = 10 and t = 9 and ins = "[]" and k = ?k])
      (auto simp: demo_sync_def late_line_def list_all_iff)
  ultimately show ?thesis using j1 by auto
qed

end
