(* ===== verification/JsMath.thy ===== *)
theory JsMath
  imports JsNum
begin

text \<open>
  Roots, logarithms and the small statistics several components share: the sample mean and deviation, and the
  median of a list sorted by \<open>sort((a, b) => a - b)\<close>. As in \<open>JsNum\<close>, finite arithmetic is exact.
\<close>

fun math_sqrt :: "jsnum \<Rightarrow> jsnum" where
  "math_sqrt (Fin r) = (if r < 0 then NaN else Fin (sqrt r))"
| "math_sqrt PInf = PInf"
| "math_sqrt x = NaN"

fun math_log :: "jsnum \<Rightarrow> jsnum" where
  "math_log (Fin r) = (if r < 0 then NaN else if r = 0 then NInf else Fin (ln r))"
| "math_log PInf = PInf"
| "math_log x = NaN"

definition squared :: "jsnum \<Rightarrow> jsnum" where
  "squared x = x * x"

definition js_mean :: "jsnum list \<Rightarrow> jsnum" where
  "js_mean xs = js_sum xs / num_of_nat (length xs)"

text \<open>The population deviation around \<open>m\<close>.\<close>

definition js_stdev :: "jsnum list \<Rightarrow> jsnum \<Rightarrow> jsnum" where
  "js_stdev xs m = math_sqrt (js_sum (map (\<lambda>b. squared (b - m)) xs) / num_of_nat (length xs))"

text \<open>The stable ascending sort of numbers.\<close>

definition sort_nums :: "jsnum list \<Rightarrow> jsnum list" where
  "sort_nums xs = sort_by (<) xs"

definition js_median :: "jsnum list \<Rightarrow> jsnum" where
  "js_median xs =
     (let sorted = sort_nums xs; m = length sorted div 2
      in if odd (length sorted) then sorted ! m else (sorted ! (m - 1) + sorted ! m) / 2)"

lemma sort_nums_simps [simp]: "set (sort_nums xs) = set xs" "length (sort_nums xs) = length xs"
  by (simp_all add: sort_nums_def)

text \<open>The first element of least key, as the head of a stable sort by it.\<close>

lemma first_by_least:
  assumes "first_by (\<lambda>a b. key a < key b) xs = Some x" and "\<forall>y\<in>set xs. key y \<noteq> (NaN :: jsnum)"
  shows "\<forall>y\<in>set xs. key x \<le> key y"
  using assms
proof (induction xs arbitrary: x)
  case (Cons a xs)
  show ?case
  proof (cases "first_by (\<lambda>a b. key a < key b) xs")
    case None
    with Cons.prems show ?thesis by auto
  next
    case (Some r)
    with Cons have r: "\<forall>y\<in>set xs. key r \<le> key y" by auto
    then show ?thesis
      using Cons.prems Some first_by_mem [OF Some] js_not_lt_iff [of "key r" "key a"]
      by (auto intro: js_le_trans js_lt_imp_le split: if_splits)
  qed
qed simp

lemma sum_list_Fin: "list_all is_finite xs \<Longrightarrow> \<exists>r. sum_list xs = Fin r"
  by (induction xs) (auto simp: is_finite_iff)

lemma js_mean_Fin: "list_all is_finite xs \<Longrightarrow> xs \<noteq> [] \<Longrightarrow> \<exists>r. js_mean xs = Fin r"
  using sum_list_Fin [of xs] by (auto simp: js_mean_def js_sum_eq_sum_list num_of_nat_def)

end
