(* ===== verification/MarketTypes.thy ===== *)
theory MarketTypes
  imports JsMath CoreTypes
begin

text \<open>
  The market state the decision layer reads (\<open>src/market/types.ts\<close>, with the snapshot of
  \<open>src/market/MarketDataTypes.ts\<close>) and the flow context built from a history of snapshots
  (\<open>src/market/FlowTracker.ts\<close>). \<open>null\<close> and \<open>undefined\<close> are one value; a flag that only says
  whether its time is set is left out.
\<close>

section \<open>Market state\<close>

text \<open>The tag \<open>timeframe\<close> of a part is kept where parts of several timeframes are mixed.\<close>

datatype trend_direction = BULLISH | BEARISH | NEUTRAL

datatype volatility_regime = VolLow | VolMedium | VolHigh

datatype market_regime = TREND_UP | TREND_DOWN | RANGE | HIGH_VOL | LOW_VOL | TRANSITION

datatype timeframe = TF15m | TF1h | TF4h

record timeframe_state =
  tf_candleCount :: nat
  tf_lastClose :: jsnum
  tf_ema20 :: "jsnum option"
  tf_ema50 :: "jsnum option"
  tf_ema200 :: "jsnum option"
  tf_emaSlopePct :: "jsnum option"
  tf_adx14 :: "jsnum option"
  tf_atr14 :: "jsnum option"
  tf_atrPercentile :: "jsnum option"
  tf_rsi14 :: "jsnum option"
  tf_vwap :: "jsnum option"
  tf_bollingerMiddle :: "jsnum option"
  tf_bollingerUpper :: "jsnum option"
  tf_bollingerLower :: "jsnum option"
  tf_volumeZ :: "jsnum option"

record swing_point =
  sw_index :: nat
  sw_time :: jsnum
  sw_price :: jsnum

datatype break_type = BOS | CHOCH

record protection_zone =
  pz_low :: jsnum
  pz_high :: jsnum
  pz_originLevel :: jsnum
  pz_protectedLevel :: jsnum
  pz_testedAt :: "jsnum option"
  pz_violatedAt :: "jsnum option"
  pz_violatedIndex :: "nat option"

record structure_break =
  sb_type :: break_type
  sb_direction :: trend_direction
  sb_level :: jsnum
  sb_index :: nat
  sb_time :: jsnum
  sb_distanceAtr :: jsnum
  sb_protectedLevel :: "jsnum option"
  sb_protectionZone :: "protection_zone option"

record structure_state =
  su_trend :: trend_direction
  su_swingHighs :: "swing_point list"
  su_swingLows :: "swing_point list"
  su_lastBreak :: "structure_break option"
  su_protectedHigh :: "swing_point option"
  su_protectedLow :: "swing_point option"
  su_breaks :: "structure_break list option"

datatype pool_type = EQUAL_HIGH | EQUAL_LOW | SWING_HIGH | SWING_LOW | RANGE_HIGH | RANGE_LOW

record liquidity_pool =
  lp_type :: pool_type
  lp_price :: jsnum
  lp_tolerance :: jsnum
  lp_strength :: jsnum
  lp_sourceTimes :: "jsnum list"
  lp_taken :: "bool option"
  lp_sweptAt :: "jsnum option"

datatype sweep_side = BUY_SIDE | SELL_SIDE

record liquidity_sweep =
  lw_poolType :: pool_type
  lw_direction :: sweep_side
  lw_level :: jsnum
  lw_sweepPrice :: jsnum
  lw_close :: jsnum
  lw_index :: nat
  lw_time :: jsnum
  lw_confirmed :: bool
  lw_poolSourceTimes :: "jsnum list option"

record liquidity_state =
  ls_pools :: "liquidity_pool list"
  ls_latestSweeps :: "liquidity_sweep list"
  ls_recentSweeps :: "liquidity_sweep list"
  ls_sweepHistory :: "liquidity_sweep list option"

datatype zone_type = SUPPLY | DEMAND

record price_zone =
  zr_type :: zone_type
  zr_timeframe :: timeframe
  zr_high :: jsnum
  zr_low :: jsnum
  zr_originTime :: jsnum
  zr_causedBreak :: break_type
  zr_displacementAtr :: jsnum
  zr_touches :: nat
  zr_fresh :: bool
  zr_strength :: jsnum

datatype zone_lifecycle = FRESH | TESTED | MITIGATED | ZoneInvalidated | ZoneExpired

record zone_record = price_zone +
  zr_state :: zone_lifecycle
  zr_testedAt :: "jsnum option"
  zr_mitigatedAt :: "jsnum option"
  zr_invalidatedAt :: "jsnum option"
  zr_invalidatedIndex :: "nat option"
  zr_expiredAt :: "jsnum option"
  zr_breakIndex :: nat
  zr_breakTime :: jsnum
  zr_ageBars :: nat

record range_pricing =
  rp_high :: jsnum
  rp_low :: jsnum
  rp_equilibrium :: jsnum
  rp_positionPct :: jsnum
  rp_premium :: bool
  rp_discount :: bool

record mean_reversion =
  mr_mean :: "jsnum option"
  mr_vwap :: "jsnum option"
  mr_zscore :: "jsnum option"
  mr_rsi14 :: "jsnum option"
  mr_bollingerMiddle :: "jsnum option"
  mr_bollingerUpper :: "jsnum option"
  mr_bollingerLower :: "jsnum option"
  mr_deviationPct :: "jsnum option"

text \<open>The fields only the scored tracker sets are one optional record.\<close>

record scored_regime =
  sg_rawRegime :: market_regime
  sg_pendingRegime :: "market_regime option"
  sg_barsInRegime :: nat
  sg_confidence :: jsnum
  sg_trendScore :: jsnum

record regime_snapshot =
  rg_regime :: market_regime
  rg_trendDirection :: trend_direction
  rg_trendStrength :: jsnum
  rg_volatility :: volatility_regime
  rg_volatilityPercentile :: "jsnum option"
  rg_adx14 :: "jsnum option"
  rg_emaSlopePct :: "jsnum option"
  rg_scored :: "scored_regime option"

record derivatives_snapshot =
  ds_asOf :: jsnum
  ds_openInterest :: "jsnum option"
  ds_openInterestChangePct :: "jsnum option"
  ds_globalLongShortRatio :: "jsnum option"
  ds_topTraderAccountLongShortRatio :: "jsnum option"
  ds_topTraderPositionLongShortRatio :: "jsnum option"
  ds_takerBuySellRatio :: "jsnum option"
  ds_takerVolumeImbalance :: "jsnum option"
  ds_orderBookImbalance :: "jsnum option"
  ds_spreadBps :: "jsnum option"
  ds_basisPct :: "jsnum option"

datatype positioning_extreme = LONG_CROWDED | SHORT_CROWDED | BALANCED

record crowding_snapshot =
  cw_fundingPercentile :: "jsnum option"
  cw_topTraderVsGlobalBias :: "jsnum option"
  cw_positioningExtreme :: positioning_extreme
  cw_takerAggressionRatio :: "jsnum option"
  cw_openInterestExpansion :: bool

record market_state =
  ms_symbol :: string
  ms_generatedAt :: jsnum
  ms_mark :: jsnum
  ms_fundingRate :: jsnum
  ms_regime :: regime_snapshot
  ms_tf15m :: timeframe_state
  ms_tf1h :: timeframe_state
  ms_tf4h :: timeframe_state
  ms_htfStructure :: structure_state
  ms_ltfStructure :: structure_state
  ms_htfLiquidity :: liquidity_state
  ms_ltfLiquidity :: liquidity_state
  ms_zones :: "price_zone list"
  ms_zoneLedger :: "zone_record list option"
  ms_pricing :: range_pricing
  ms_meanReversion :: mean_reversion
  ms_derivatives :: "derivatives_snapshot option"
  ms_crowding :: "crowding_snapshot option"

section \<open>Flow\<close>

datatype flow_quadrant = FRESH_LONGS | SHORT_COVERING | FRESH_SHORTS | LONG_LIQUIDATION | UNCLEAR | UNKNOWN

record flow_context =
  fl_asOf :: jsnum
  fl_samples :: nat
  fl_windowMs :: jsnum
  fl_oiDeltaPct :: "jsnum option"
  fl_priceDeltaPct :: "jsnum option"
  fl_takerRatio :: "jsnum option"
  fl_takerZ :: "jsnum option"
  fl_fundingDelta :: "jsnum option"
  fl_quadrant :: flow_quadrant

record flow_thresholds =
  ft_minOiMovePct :: jsnum
  ft_minPriceMovePct :: jsnum
  ft_windowMs :: jsnum
  ft_minWindowFraction :: jsnum
  ft_minZSamples :: nat
  ft_maxAgeMs :: jsnum

definition DEFAULT_FLOW_THRESHOLDS :: flow_thresholds where
  "DEFAULT_FLOW_THRESHOLDS = \<lparr> ft_minOiMovePct = 1/4, ft_minPriceMovePct = 15/100, ft_windowMs = 900000,
     ft_minWindowFraction = 6/10, ft_minZSamples = 12, ft_maxAgeMs = 7200000 \<rparr>"

record flow_sample =
  fs_at :: jsnum
  fs_price :: jsnum
  fs_oi :: "jsnum option"
  fs_taker :: "jsnum option"
  fs_funding :: jsnum

definition MAX_SAMPLES :: nat where "MAX_SAMPLES = 600"

definition unknown_flow :: "jsnum \<Rightarrow> nat \<Rightarrow> flow_context" where
  "unknown_flow asOf samples = \<lparr> fl_asOf = asOf, fl_samples = samples, fl_windowMs = 0, fl_oiDeltaPct = None,
     fl_priceDeltaPct = None, fl_takerRatio = None, fl_takerZ = None, fl_fundingDelta = None, fl_quadrant = UNKNOWN \<rparr>"

definition quadrantOf :: "jsnum option \<Rightarrow> jsnum option \<Rightarrow> flow_thresholds \<Rightarrow> flow_quadrant" where
  "quadrantOf price oi t =
     (case (price, oi) of
        (Some p, Some x) \<Rightarrow>
          if abs p < ft_minPriceMovePct t \<or> abs x < ft_minOiMovePct t then UNCLEAR
          else if p > 0 then (if x > 0 then FRESH_LONGS else SHORT_COVERING)
          else (if x > 0 then FRESH_SHORTS else LONG_LIQUIDATION)
      | _ \<Rightarrow> UNKNOWN)"

text \<open>The two shifts: while the list is too long or its head too old.\<close>

fun shift_old :: "jsnum \<Rightarrow> flow_sample list \<Rightarrow> flow_sample list" where
  "shift_old cutoff [] = []"
| "shift_old cutoff (s # ss) = (if length (s # ss) > MAX_SAMPLES \<or> fs_at s < cutoff then shift_old cutoff ss else s # ss)"

definition record_flow ::
  "flow_thresholds \<Rightarrow> jsnum \<Rightarrow> jsnum \<Rightarrow> derivatives_snapshot option \<Rightarrow> jsnum \<Rightarrow> flow_sample list \<Rightarrow> flow_sample list" where
  "record_flow t now price derivatives fundingRate samples =
     (if \<not> price > 0 \<or> \<not> is_finite now then samples
      else if (case last_opt samples of None \<Rightarrow> False | Some s \<Rightarrow> now \<le> fs_at s) then samples
      else shift_old (now - ft_maxAgeMs t)
             (samples @ [\<lparr> fs_at = now, fs_price = price, fs_oi = Option.bind derivatives ds_openInterest,
                fs_taker = Option.bind derivatives ds_takerBuySellRatio, fs_funding = fundingRate \<rparr>]))"

text \<open>The first of the stable sort by distance from the target.\<close>

definition nearest_sample :: "jsnum \<Rightarrow> flow_sample list \<Rightarrow> flow_sample option" where
  "nearest_sample target ss = first_by (\<lambda>a b. abs (fs_at a - target) < abs (fs_at b - target)) ss"

definition takerZ :: "flow_thresholds \<Rightarrow> flow_sample list \<Rightarrow> jsnum option" where
  "takerZ t samples =
     (let values = filter is_finite (List.map_filter fs_taker samples)
      in if length values < ft_minZSamples t then None
         else (case last_opt values of
                 None \<Rightarrow> None
               | Some v \<Rightarrow>
                   (let history = butlast values;
                        mean = js_sum history / num_of_nat (length history);
                        sd = math_sqrt (js_sum (map (\<lambda>x. squared (x - mean)) history) / (num_of_nat (length history) - 1))
                    in if sd > 0 then Some ((v - mean) / sd) else None)))"

definition flow_context_of :: "flow_thresholds \<Rightarrow> jsnum \<Rightarrow> flow_sample list \<Rightarrow> flow_context" where
  "flow_context_of t now samples =
     (case last_opt samples of
        None \<Rightarrow> unknown_flow now (length samples)
      | Some latest \<Rightarrow>
          if now - fs_at latest > ft_windowMs t then unknown_flow now (length samples)
          else
            (let target = fs_at latest - ft_windowMs t;
                 eligible = filter (\<lambda>s. fs_at latest - fs_at s \<ge> ft_windowMs t * ft_minWindowFraction t) (butlast samples)
             in case nearest_sample target eligible of
                  None \<Rightarrow> (unknown_flow now (length samples))\<lparr> fl_takerRatio := fs_taker latest, fl_takerZ := takerZ t samples \<rparr>
                | Some base \<Rightarrow>
                    (let oiDelta = (case (fs_oi base, fs_oi latest) of
                                      (Some b, Some l) \<Rightarrow> if b > 0 then Some (((l - b) / b) * 100) else None
                                    | _ \<Rightarrow> None);
                         priceDelta = ((fs_price latest - fs_price base) / fs_price base) * 100
                     in \<lparr> fl_asOf = fs_at latest, fl_samples = length samples, fl_windowMs = fs_at latest - fs_at base,
                          fl_oiDeltaPct = oiDelta, fl_priceDeltaPct = Some priceDelta, fl_takerRatio = fs_taker latest,
                          fl_takerZ = takerZ t samples, fl_fundingDelta = Some (fs_funding latest - fs_funding base),
                          fl_quadrant = quadrantOf (Some priceDelta) oiDelta t \<rparr>)))"

datatype flow_verdict = CONFIRMS | FlowNeutral | CONTRADICTS | FlowUnknown

definition flowVerdict :: "flow_context \<Rightarrow> side \<Rightarrow> bool \<Rightarrow> flow_verdict" where
  "flowVerdict flow direction reversal =
     (let tz = map_option (\<lambda>z. z * directionOf direction) (fl_takerZ flow);
          below = (\<lambda>x. case tz of Some z \<Rightarrow> z \<le> x | None \<Rightarrow> False);
          supports = (if direction = LONG then FRESH_LONGS else FRESH_SHORTS);
          fights = (if direction = LONG then FRESH_SHORTS else FRESH_LONGS)
      in if fl_quadrant flow = UNKNOWN \<and> tz = None then FlowUnknown
         else if reversal
         then (if below (- (3/2)) then CONTRADICTS
               else if (case tz of Some z \<Rightarrow> z \<ge> 1/2 | None \<Rightarrow> False) then CONFIRMS else FlowNeutral)
         else if fl_quadrant flow = fights \<or> below (- (3/2)) then CONTRADICTS
         else if fl_quadrant flow = supports \<and> (case tz of Some z \<Rightarrow> z \<ge> 0 | None \<Rightarrow> True) then CONFIRMS
         else FlowNeutral)"

section \<open>The history a tracker keeps\<close>

text \<open>Strictly increasing in time, no longer than the cap and no older than the age limit.\<close>

definition history_ok :: "flow_sample list \<Rightarrow> bool" where
  "history_ok ss \<longleftrightarrow> length ss \<le> MAX_SAMPLES \<and> sorted_wrt (\<lambda>a b. fs_at a < fs_at b) ss
     \<and> list_all (\<lambda>s. is_finite (fs_at s) \<and> 0 < fs_price s) ss"

lemma shift_suffix:
  "\<exists>d. ss = d @ shift_old c ss \<and> length (shift_old c ss) \<le> MAX_SAMPLES"
proof (induction ss)
  case Nil
  show ?case by simp
next
  case (Cons s ss)
  then obtain d where d: "ss = d @ shift_old c ss" "length (shift_old c ss) \<le> MAX_SAMPLES" by blast
  show ?case
  proof (cases "length (s # ss) > MAX_SAMPLES \<or> fs_at s < c")
    case True
    then have "shift_old c (s # ss) = shift_old c ss" by simp
    with d show ?thesis by (intro exI [of _ "s # d"]) simp
  next
    case False
    then have "shift_old c (s # ss) = s # ss" by simp
    with False show ?thesis by (intro exI [of _ "[]"]) simp
  qed
qed

lemma ordered_snoc:
  assumes "sorted_wrt (\<lambda>a b. fs_at a < fs_at b) ss" and "ss \<noteq> [] \<Longrightarrow> fs_at (last ss) < fs_at s"
  shows "sorted_wrt (\<lambda>a b. fs_at a < fs_at b) (ss @ [s])"
proof (cases ss rule: rev_cases)
  case (snoc xs x)
  then have "fs_at x < fs_at s" "\<forall>a\<in>set xs. fs_at a < fs_at x" using assms by (auto simp: sorted_wrt_append)
  then have "\<forall>a\<in>set xs. fs_at a < fs_at s" using js_lt_trans by blast
  then show ?thesis using assms(1) snoc \<open>fs_at x < fs_at s\<close> by (auto simp: sorted_wrt_append)
qed simp

lemma record_flow_ok:
  assumes "history_ok ss"
  shows "history_ok (record_flow t now price der fund ss)"
proof (cases "\<not> price > 0 \<or> \<not> is_finite now \<or> (case last_opt ss of None \<Rightarrow> False | Some s \<Rightarrow> now \<le> fs_at s)")
  case True
  then show ?thesis using assms by (auto simp: record_flow_def split: option.splits)
next
  case False
  let ?s = "\<lparr> fs_at = now, fs_price = price, fs_oi = Option.bind der ds_openInterest,
                fs_taker = Option.bind der ds_takerBuySellRatio, fs_funding = fund \<rparr>"
  have r: "record_flow t now price der fund ss = shift_old (now - ft_maxAgeMs t) (ss @ [?s])"
    using False by (auto simp: record_flow_def simp del: js_consts split: option.splits)
  have "fs_at (last ss) < now" if "ss \<noteq> []"
  proof -
    have "is_finite (fs_at (last ss))" using assms that by (auto simp: history_ok_def list_all_iff)
    then show ?thesis using False that js_not_le_iff by (auto simp: last_opt_def is_finite_iff)
  qed
  then have "sorted_wrt (\<lambda>a b. fs_at a < fs_at b) (ss @ [?s])" using assms ordered_snoc [of ss ?s] by (simp add: history_ok_def)
  moreover obtain d where "ss @ [?s] = d @ shift_old (now - ft_maxAgeMs t) (ss @ [?s])"
    "length (shift_old (now - ft_maxAgeMs t) (ss @ [?s])) \<le> MAX_SAMPLES"
    using shift_suffix [of "ss @ [?s]" "now - ft_maxAgeMs t"] by blast
  moreover have "list_all (\<lambda>s. is_finite (fs_at s) \<and> 0 < fs_price s) (ss @ [?s])" using assms False by (auto simp: history_ok_def)
  ultimately show ?thesis unfolding r history_ok_def
    by (metis (no_types, lifting) list_all_append sorted_wrt_append)
qed

lemma nearest_sample_mem: "nearest_sample target ss = Some s \<Longrightarrow> s \<in> set ss"
  by (auto simp: nearest_sample_def dest: first_by_mem)

section \<open>Properties\<close>

text \<open>
  The flow history stays in order: whatever snapshots are recorded, duplicates and out-of-order cycles included,
  the samples kept are strictly increasing in time, have positive prices and never exceed the cap.
\<close>

theorem flow_history_stays_ordered:
  "history_ok (run_steps (\<lambda>ss (now, price, der, fund). record_flow t now price der fund ss) [] ops)"
proof (rule run_steps_invariant)
  show "history_ok []" by (simp add: history_ok_def)
qed (auto simp: record_flow_ok split: prod.splits)

text \<open>
  A flow reading is never a guess: a quadrant is only named when the newest sample is within the window and a
  kept sample at least the required fraction of the window older has both prices and open interests, and the deltas
  are those between the two.
\<close>

theorem flow_reading_has_two_samples:
  assumes "fl_quadrant (flow_context_of t now ss) \<noteq> UNKNOWN"
  shows "\<exists>latest base b l. last_opt ss = Some latest \<and> base \<in> set (butlast ss)
    \<and> \<not> now - fs_at latest > ft_windowMs t \<and> fs_at latest - fs_at base \<ge> ft_windowMs t * ft_minWindowFraction t
    \<and> fs_oi base = Some b \<and> fs_oi latest = Some l \<and> b > 0
    \<and> fl_oiDeltaPct (flow_context_of t now ss) = Some (((l - b) / b) * 100)
    \<and> fl_priceDeltaPct (flow_context_of t now ss) = Some (((fs_price latest - fs_price base) / fs_price base) * 100)"
proof (cases "last_opt ss")
  case None
  then show ?thesis using assms by (simp add: flow_context_of_def unknown_flow_def)
next
  case (Some latest)
  let ?e = "filter (\<lambda>s. fs_at latest - fs_at s \<ge> ft_windowMs t * ft_minWindowFraction t) (butlast ss)"
  have fresh: "\<not> now - fs_at latest > ft_windowMs t"
    using assms Some by (auto simp: flow_context_of_def unknown_flow_def Let_def)
  then obtain base where base: "nearest_sample (fs_at latest - ft_windowMs t) ?e = Some base"
    using assms Some by (auto simp: flow_context_of_def unknown_flow_def Let_def split: option.splits)
  from nearest_sample_mem [OF base] have "base \<in> set (butlast ss)" "fs_at latest - fs_at base \<ge> ft_windowMs t * ft_minWindowFraction t"
    by auto
  then show ?thesis using assms Some fresh base
    by (auto simp: flow_context_of_def Let_def quadrantOf_def simp del: js_consts split: option.splits if_splits)
qed

definition demo_flow :: "flow_sample list" where
  "demo_flow = [\<lparr> fs_at = Fin 0, fs_price = Fin 100, fs_oi = Some (Fin 10), fs_taker = None, fs_funding = Fin 0 \<rparr>,
     \<lparr> fs_at = Fin 900000, fs_price = Fin 101, fs_oi = Some (Fin 11), fs_taker = None, fs_funding = Fin 0 \<rparr>]"

lemma flow_reading_has_two_samples_witness:
  "\<exists>b l. fl_oiDeltaPct (flow_context_of DEFAULT_FLOW_THRESHOLDS (Fin 900000) demo_flow) = Some (((l - b) / b) * 100)"
proof -
  have "fl_quadrant (flow_context_of DEFAULT_FLOW_THRESHOLDS (Fin 900000) demo_flow) = FRESH_LONGS"
    by (simp add: flow_context_of_def demo_flow_def last_opt_def DEFAULT_FLOW_THRESHOLDS_def quadrantOf_def nearest_sample_def Let_def)
  then show ?thesis
    using flow_reading_has_two_samples [of DEFAULT_FLOW_THRESHOLDS "Fin 900000" demo_flow] by auto
qed

end
