(* ===== verification/RrProfile.thy ===== *)
theory RrProfile
  imports JsMath CoreTypes
begin

text \<open>
  Reward-to-risk after costs and the calibration of per-strategy floors (\<open>src/risk/rrProfile.ts\<close>). A record of
  the decision journal is reduced to the fields the calibration reads; strategies are named by their ids, and the
  order of the verdicts by name is left out.
\<close>

section \<open>Costs\<close>

record cost_rates =
  cr_feeRate :: jsnum
  cr_slippageRate :: jsnum

record rr_input =
  rr_entry :: jsnum
  rr_stopLoss :: jsnum
  rr_takeProfit :: jsnum
  rr_side :: side
  rr_fundingRate :: "jsnum option"
  rr_fundingIntervals :: "jsnum option"

definition costAdjustedRr :: "rr_input \<Rightarrow> cost_rates \<Rightarrow> jsnum" where
  "costAdjustedRr input costs =
     (let entry = rr_entry input; risk = abs (entry - rr_stopLoss input)
      in if \<not> entry > 0 \<or> \<not> risk > 0 then NaN
         else
           (let funding = (if rr_side input = LONG then 1 else - 1) * (case rr_fundingRate input of None \<Rightarrow> 0 | Some f \<Rightarrow> f)
                  * (case rr_fundingIntervals input of None \<Rightarrow> 0 | Some n \<Rightarrow> n);
                cost = entry * (2 * (cr_feeRate costs + cr_slippageRate costs) + math_max 0 funding);
                reward = abs (rr_takeProfit input - entry) - cost
            in reward / (risk + cost)))"

definition costInR :: "jsnum \<Rightarrow> jsnum \<Rightarrow> cost_rates \<Rightarrow> jsnum" where
  "costInR entry stopLoss costs =
     (let risk = abs (entry - stopLoss)
      in if risk > 0 \<and> entry > 0 then (entry * 2 * (cr_feeRate costs + cr_slippageRate costs)) / risk else NaN)"

definition breakevenWinRate :: "jsnum \<Rightarrow> jsnum \<Rightarrow> jsnum \<Rightarrow> cost_rates \<Rightarrow> jsnum" where
  "breakevenWinRate entry stopLoss takeProfit costs =
     (let risk = abs (entry - stopLoss)
      in if \<not> risk > 0 then NaN
         else (1 + costInR entry stopLoss costs) / (1 + abs (takeProfit - entry) / risk))"

section \<open>Floors\<close>

record rr_floor =
  rf_minRr :: jsnum
  rf_n :: nat
  rf_meanNetR :: jsnum
  rf_lcbNetR :: jsnum

text \<open>A profile's floors by strategy. A file that is missing, unreadable or of another shape gives none.\<close>

type_synonym rr_profile = "agent_id \<Rightarrow> rr_floor option"

datatype rr_file = NoRrFile | BadRrFile | RrFile rr_profile

fun loadRrProfile :: "rr_file \<Rightarrow> rr_profile option" where
  "loadRrProfile (RrFile p) = Some p"
| "loadRrProfile NoRrFile = None"
| "loadRrProfile BadRrFile = None"

definition minRrFor :: "rr_profile option \<Rightarrow> agent_id \<Rightarrow> jsnum \<Rightarrow> jsnum" where
  "minRrFor profile strategy fallback =
     (case profile of None \<Rightarrow> fallback
      | Some p \<Rightarrow> (case p strategy of None \<Rightarrow> fallback | Some f \<Rightarrow> rf_minRr f))"

section \<open>Calibration\<close>

record rr_record =
  rd_strategy :: agent_id
  rd_executed :: bool
  rd_entry :: "jsnum option"
  rd_stopLoss :: "jsnum option"
  rd_takeProfit :: "jsnum option"
  rd_rMultiple :: "jsnum option"

definition netROf :: "rr_record \<Rightarrow> cost_rates \<Rightarrow> jsnum option" where
  "netROf r costs =
     (case (rd_executed r, rd_rMultiple r, rd_entry r, rd_stopLoss r) of
        (True, Some x, Some entry, Some stop) \<Rightarrow>
          (let risk = abs (entry - stop)
           in if \<not> risk > 0 \<or> \<not> is_finite x then None
              else Some (x - (entry * 2 * (cr_feeRate costs + cr_slippageRate costs)) / risk))
      | _ \<Rightarrow> None)"

record rr_sample =
  sm_plannedRr :: jsnum
  sm_netR :: jsnum

definition toSample :: "rr_record \<Rightarrow> cost_rates \<Rightarrow> rr_sample option" where
  "toSample r costs =
     (case (netROf r costs, rd_takeProfit r, rd_entry r, rd_stopLoss r) of
        (Some n, Some target, Some entry, Some stop) \<Rightarrow>
          Some \<lparr> sm_plannedRr = abs (target - entry) / abs (entry - stop), sm_netR = n \<rparr>
      | _ \<Rightarrow> None)"

record rr_stats =
  st_n :: nat
  st_meanNetR :: jsnum
  st_lcbNetR :: jsnum

definition rr_stats_of :: "rr_sample list \<Rightarrow> jsnum \<Rightarrow> rr_stats" where
  "rr_stats_of samples z =
     (let n = length samples;
          mean = js_sum (map sm_netR samples) / num_of_nat n;
          variance = (if n > 1 then js_sum (map (\<lambda>s. squared (sm_netR s - mean)) samples) / num_of_nat (n - 1) else PInf)
      in \<lparr> st_n = n, st_meanNetR = mean, st_lcbNetR = mean - z * math_sqrt (variance / num_of_nat n) \<rparr>)"

definition DEFAULT_FLOORS :: "jsnum list" where
  "DEFAULT_FLOORS = [1/2, 3/4, 1, 5/4, 3/2, 7/4, 2, 5/2, 3]"

record calibration_options =
  co_costs :: cost_rates
  co_floors :: "jsnum list"
  co_minSamples :: nat
  co_z :: jsnum

datatype rr_verdict = CALIBRATED rr_floor nat | INSUFFICIENT_DATA nat | NO_PROVEN_EDGE nat rr_floor

text \<open>The samples a strategy contributes, in the order of the records.\<close>

definition samples_of :: "rr_record list \<Rightarrow> cost_rates \<Rightarrow> agent_id \<Rightarrow> rr_sample list" where
  "samples_of records costs strategy = List.map_filter (\<lambda>r. if rd_strategy r = strategy then toSample r costs else None) records"

definition floor_of :: "jsnum \<times> rr_stats \<Rightarrow> rr_floor" where
  "floor_of c = \<lparr> rf_minRr = fst c, rf_n = st_n (snd c), rf_meanNetR = st_meanNetR (snd c), rf_lcbNetR = st_lcbNetR (snd c) \<rparr>"

definition cohorts_of :: "calibration_options \<Rightarrow> rr_sample list \<Rightarrow> (jsnum \<times> rr_stats) list" where
  "cohorts_of opts samples =
     filter (\<lambda>c. st_n (snd c) > 0)
       (map (\<lambda>minRr. (minRr, rr_stats_of (filter (\<lambda>s. sm_plannedRr s \<ge> minRr) samples) (co_z opts))) (co_floors opts))"

text \<open>The best of the qualified cohorts by the stable descending sort on the lower bound.\<close>

definition best_cohort :: "(jsnum \<times> rr_stats) list \<Rightarrow> (jsnum \<times> rr_stats) option" where
  "best_cohort cs = first_by (\<lambda>a b. st_lcbNetR (snd a) > st_lcbNetR (snd b)) cs"

definition calibrate_strategy :: "calibration_options \<Rightarrow> rr_sample list \<Rightarrow> rr_verdict" where
  "calibrate_strategy opts samples =
     (let qualified = filter (\<lambda>c. st_n (snd c) \<ge> co_minSamples opts) (cohorts_of opts samples)
      in case find (\<lambda>c. st_lcbNetR (snd c) > 0) qualified of
           Some w \<Rightarrow> CALIBRATED (floor_of w) (length samples)
         | None \<Rightarrow>
             (case best_cohort qualified of
                None \<Rightarrow> INSUFFICIENT_DATA (length samples)
              | Some b \<Rightarrow> NO_PROVEN_EDGE (length samples) (floor_of b)))"

definition calibrateRrFloors :: "rr_record list \<Rightarrow> calibration_options \<Rightarrow> (agent_id \<Rightarrow> rr_verdict option) \<times> rr_profile" where
  "calibrateRrFloors records opts =
     (let verdicts = (\<lambda>strategy.
            (let samples = samples_of records (co_costs opts) strategy
             in if samples = [] then None else Some (calibrate_strategy opts samples)))
      in (verdicts, \<lambda>strategy. case verdicts strategy of Some (CALIBRATED f n) \<Rightarrow> Some f | _ \<Rightarrow> None))"

section \<open>Properties\<close>

text \<open>
  The break-even rate breaks even: for a finite bracket, winning a share \<open>p\<close> of trades equal to it gains after costs
  exactly what the losing share loses after costs, in units of the stop distance.
\<close>

theorem breakeven_rate_breaks_even:
  assumes "breakevenWinRate (Fin e) (Fin s) (Fin t) costs = Fin p" and "costInR (Fin e) (Fin s) costs = Fin c" and "e \<noteq> s"
  shows "p * (\<bar>t - e\<bar> / \<bar>e - s\<bar> - c) = (1 - p) * (1 + c)"
proof -
  let ?r = "\<bar>t - e\<bar> / \<bar>e - s\<bar>"
  have r: "0 \<le> ?r" by simp
  have "p = (1 + c) / (1 + ?r)"
    using assms r by (auto simp: breakevenWinRate_def Let_def split: if_splits)
  then have "p * (1 + ?r) = 1 + c" using r by (simp add: add_nonneg_eq_0_iff)
  then show ?thesis by (simp add: algebra_simps)
qed

lemma find_filter: "find P (filter Q xs) = find (\<lambda>x. Q x \<and> P x) xs"
  by (induction xs) auto

lemma find_map: "find P (map f xs) = map_option f (find (P \<circ> f) xs)"
  by (induction xs) auto

lemma find_first:
  "find P xs = Some x \<Longrightarrow> \<exists>ys zs. xs = ys @ x # zs \<and> P x \<and> list_all (\<lambda>y. \<not> P y) ys"
proof (induction xs)
  case (Cons a xs)
  show ?case
  proof (cases "P a")
    case True
    with Cons.prems show ?thesis by (auto intro: exI [of _ "[]"])
  next
    case False
    with Cons obtain ys zs where "xs = ys @ x # zs" "P x" "list_all (\<lambda>y. \<not> P y) ys" by auto
    with False show ?thesis by (intro exI [of _ "a # ys"] exI [of _ zs]) simp
  qed
qed simp

definition proven :: "calibration_options \<Rightarrow> rr_sample list \<Rightarrow> jsnum \<Rightarrow> bool" where
  "proven opts samples x \<longleftrightarrow>
     (let cohort = rr_stats_of (filter (\<lambda>s. sm_plannedRr s \<ge> x) samples) (co_z opts)
      in st_n cohort > 0 \<and> st_n cohort \<ge> co_minSamples opts \<and> st_lcbNetR cohort > 0)"

lemma calibrate_floor:
  "(\<exists>n. calibrate_strategy opts samples = CALIBRATED f n) \<longleftrightarrow>
     (\<exists>x. find (proven opts samples) (co_floors opts) = Some x
        \<and> f = floor_of (x, rr_stats_of (filter (\<lambda>s. sm_plannedRr s \<ge> x) samples) (co_z opts)))"
proof -
  have "find (\<lambda>c. st_lcbNetR (snd c) > 0) (filter (\<lambda>c. st_n (snd c) \<ge> co_minSamples opts) (cohorts_of opts samples))
    = map_option (\<lambda>x. (x, rr_stats_of (filter (\<lambda>s. sm_plannedRr s \<ge> x) samples) (co_z opts)))
        (find (proven opts samples) (co_floors opts))"
    by (simp add: cohorts_of_def find_filter find_map comp_def proven_def [abs_def] Let_def conj_assoc)
  then show ?thesis
    by (cases "find (proven opts samples) (co_floors opts)") (auto simp: calibrate_strategy_def Let_def split: option.splits)
qed

lemma not_proven_empty: "\<not> proven opts [] x"
  by (simp add: proven_def rr_stats_of_def Let_def)

lemma floor_written:
  "snd (calibrateRrFloors records opts) strategy = Some f \<longleftrightarrow>
     (\<exists>n. calibrate_strategy opts (samples_of records (co_costs opts) strategy) = CALIBRATED f n)
     \<and> samples_of records (co_costs opts) strategy \<noteq> []"
  by (auto simp: calibrateRrFloors_def Let_def split: rr_verdict.splits)

text \<open>
  C30. A floor is written exactly on proven edge: a strategy has a calibrated floor if and only if some candidate's
  cohort of trades planned at or above it has the required number of samples and a positive lower bound; then the
  floor is the first such candidate, with its own cohort's numbers, and the gate uses it; without one no candidate is
  proven and the gate falls back to the global ratio.
\<close>

theorem floor_rests_on_proven_edge:
  "case snd (calibrateRrFloors records opts) strategy of
     Some f \<Rightarrow> (\<exists>below above. co_floors opts = below @ rf_minRr f # above
          \<and> proven opts (samples_of records (co_costs opts) strategy) (rf_minRr f)
          \<and> list_all (\<lambda>x. \<not> proven opts (samples_of records (co_costs opts) strategy) x) below)
        \<and> f = floor_of (rf_minRr f, rr_stats_of (filter (\<lambda>s. sm_plannedRr s \<ge> rf_minRr f)
                (samples_of records (co_costs opts) strategy)) (co_z opts))
        \<and> minRrFor (Some (snd (calibrateRrFloors records opts))) strategy fallback = rf_minRr f
   | None \<Rightarrow> list_all (\<lambda>x. \<not> proven opts (samples_of records (co_costs opts) strategy) x) (co_floors opts)
        \<and> minRrFor (Some (snd (calibrateRrFloors records opts))) strategy fallback = fallback"
proof (cases "snd (calibrateRrFloors records opts) strategy")
  case None
  let ?ss = "samples_of records (co_costs opts) strategy"
  have "find (proven opts ?ss) (co_floors opts) = None"
  proof (rule ccontr)
    assume "find (proven opts ?ss) (co_floors opts) \<noteq> None"
    then obtain x where x: "find (proven opts ?ss) (co_floors opts) = Some x" by blast
    then have "?ss \<noteq> []" using not_proven_empty by (auto dest: find_Some_iff_set)
    moreover have "\<exists>f n. calibrate_strategy opts ?ss = CALIBRATED f n" using x calibrate_floor by blast
    ultimately show False using None floor_written [of records opts strategy] by auto
  qed
  then show ?thesis using None by (auto simp: minRrFor_def find_None_iff list_all_iff)
next
  case (Some f)
  then obtain n where "calibrate_strategy opts (samples_of records (co_costs opts) strategy) = CALIBRATED f n"
    using floor_written by blast
  then obtain x where x: "find (proven opts (samples_of records (co_costs opts) strategy)) (co_floors opts) = Some x"
    "f = floor_of (x, rr_stats_of (filter (\<lambda>s. sm_plannedRr s \<ge> x) (samples_of records (co_costs opts) strategy)) (co_z opts))"
    using calibrate_floor by blast
  then have "rf_minRr f = x" by (simp add: floor_of_def)
  with find_first [OF x(1)] x(2) Some show ?thesis by (auto simp: minRrFor_def)
qed

text \<open>
  Costs only lower the ratio: with finite prices and nonnegative rates the ratio after costs is at most the plain one.
\<close>

theorem costs_lower_rr:
  assumes "costAdjustedRr \<lparr> rr_entry = Fin e, rr_stopLoss = Fin s, rr_takeProfit = Fin t, rr_side = sd, rr_fundingRate = None, rr_fundingIntervals = None \<rparr>
      \<lparr> cr_feeRate = Fin fee, cr_slippageRate = Fin slip \<rparr> = Fin x"
    and "0 \<le> fee" and "0 \<le> slip"
  shows "x \<le> \<bar>t - e\<bar> / \<bar>e - s\<bar>"
proof -
  let ?c = "e * (2 * (fee + slip))"
  have pos: "0 < e" "0 < \<bar>e - s\<bar>" "0 \<le> ?c"
    using assms by (auto simp: costAdjustedRr_def Let_def split: if_splits)
  then have ne: "\<bar>e - s\<bar> + ?c \<noteq> 0" by linarith
  have x: "x = (\<bar>t - e\<bar> - ?c) / (\<bar>e - s\<bar> + ?c)"
    using assms(1) pos ne by (cases sd) (auto simp: costAdjustedRr_def Let_def)
  also have "\<dots> \<le> \<bar>t - e\<bar> / (\<bar>e - s\<bar> + ?c)" using pos by (intro divide_right_mono) auto
  also have "\<dots> \<le> \<bar>t - e\<bar> / \<bar>e - s\<bar>" using pos by (intro divide_left_mono) (auto intro!: mult_pos_pos add_pos_nonneg)
  finally show ?thesis .
qed

end
