(* ===== verification/SetupTypes.thy ===== *)
theory SetupTypes
  imports MarketTypes RrProfile
begin

text \<open>
  Setups and the map of a cycle (\<open>src/decision/SetupTypes.ts\<close>), with the codes of \<open>src/decision/NoTrade.ts\<close>. An id
  prints its kind, symbol, direction and a number, and is kept as those four. The texts of a scenario and the fields
  of the map that are only displayed are left out; printed reasons of a map are constructors.
\<close>

datatype live_state = FORMING | ARMED | TRIGGERED

datatype setup_state = Live live_state | SETUP_INVALIDATED | NO_TRADE

datatype entry_state = WAITING_ENTRY | IN_ENTRY_ZONE | ENTRY_MISSED

datatype thesis_role = AUTHORITATIVE | COMPETING

datatype setup_kind = BREAKOUT_RETEST | PULLBACK_RETEST | LIQUIDITY_SWEEP

datatype setup_id = SetupId setup_kind string side jsnum

type_synonym setup_key = "string \<times> setup_id"

record setup_lifecycle =
  lf_setupId :: setup_key
  lf_version :: nat
  lf_createdAt :: jsnum
  lf_expiresAt :: jsnum
  lf_highestState :: live_state
  lf_entryState :: entry_state
  lf_missedCycles :: nat

text \<open>The levels the ledger pins at first sight, kept together.\<close>

record levels =
  lv_entryLow :: jsnum
  lv_entryHigh :: jsnum
  lv_stopLoss :: jsnum
  lv_target1 :: jsnum
  lv_target2 :: "jsnum option"
  lv_rewardRisk :: jsnum

record expected_move =
  em_minMinutes :: jsnum
  em_maxMinutes :: jsnum
  em_thesisExpiryMinutes :: jsnum
  em_distanceAtr :: jsnum

datatype entry_location = PREMIUM | DISCOUNT | EQUILIBRIUM

record sweep_evidence =
  ev_sweepLevel :: jsnum
  ev_sweepExtreme :: jsnum
  ev_reclaimClose :: jsnum
  ev_depthAtr :: jsnum
  ev_displacementAtr :: jsnum
  ev_volumeZLatest :: "jsnum option"
  ev_structureShift :: "break_type option"
  ev_reclaimed :: bool

datatype no_trade_reason =
    RR_TOO_LOW | PORTFOLIO_CAPACITY | CIRCUIT_BREAKER | RISK_PER_TRADE | LEVERAGE | SIZING_FAILED | OTHER_RISK | STALE_SETUP
  | NT_ENTRY_MISSED | INSUFFICIENT_CONFIRMATION | FLOW_NOT_CONFIRMED | COST_ADJUSTED_EDGE_TOO_LOW | CONFLICTING_TIMEFRAMES
  | ENTRY_LOCATION | CONFLICTING_THESIS | DEGENERATE_GEOMETRY | LIQ_BUFFER | NOT_APPROVED | TEV1_GATE

definition isStandingBlock :: "no_trade_reason \<Rightarrow> bool" where
  "isStandingBlock r \<longleftrightarrow> r = PORTFOLIO_CAPACITY \<or> r = CIRCUIT_BREAKER"

datatype check_result = PASS | WEAK | FAIL

record setup_checks =
  ck_structure :: check_result
  ck_location :: check_result
  ck_trigger :: check_result
  ck_evidence :: check_result
  ck_flow :: check_result
  ck_rr :: check_result
  ck_freshness :: check_result

datatype setup_verdict = ENTRY_ELIGIBLE | WATCH | REFUSED

record setup_quality =
  sq_verdict :: setup_verdict
  sq_checks :: setup_checks
  sq_effectiveRr :: jsnum
  sq_reasons :: "no_trade_reason list"

record setup_scenario =
  sn_id :: setup_id
  sn_kind :: setup_kind
  sn_direction :: side
  sn_state :: live_state
  sn_levels :: levels
  sn_expectedMove :: expected_move
  sn_sourceTime :: jsnum
  sn_lifecycle :: "setup_lifecycle option"
  sn_locationAtEntry :: "(entry_location \<times> jsnum) option"
  sn_evidence :: "sweep_evidence option"
  sn_quality :: "setup_quality option"
  sn_thesisRole :: "thesis_role option"

datatype flip_reason = INVALIDATION_BREACHED | THESIS_EXPIRED | OPPOSING_TRIGGER

record thesis_transition =
  tt_from :: side
  tt_to :: side
  tt_reason :: flip_reason
  tt_at :: jsnum

datatype no_trade_text =
    StructureUnresolved | NoAdmissibleSetup | LongInPremium | ShortInDiscount | CompetingWithheld side side | EntryMissedText

record setup_map =
  sm_symbol :: string
  sm_generatedAt :: jsnum
  sm_mark :: jsnum
  sm_state :: setup_state
  sm_bias :: trend_direction
  sm_location :: entry_location
  sm_htfTrend :: trend_direction
  sm_ltfTrend :: trend_direction
  sm_nearestUpperLiquidity :: "jsnum option"
  sm_nearestLowerLiquidity :: "jsnum option"
  sm_scenarios :: "setup_scenario list"
  sm_invalidatedIds :: "setup_id list"
  sm_flow :: "flow_context option"
  sm_thesisTransition :: "thesis_transition option"
  sm_withheldIds :: "setup_id list"
  sm_noTradeReasons :: "no_trade_text list"

fun live_rank :: "live_state \<Rightarrow> nat" where
  "live_rank FORMING = 0"
| "live_rank ARMED = 1"
| "live_rank TRIGGERED = 2"

text \<open>The price an entry is judged at: the far end of its zone.\<close>

definition worst_entry :: "side \<Rightarrow> levels \<Rightarrow> jsnum" where
  "worst_entry dir l = (if dir = LONG then lv_entryHigh l else lv_entryLow l)"

end
