(* ===== verification/SetupEngine.thy ===== *)
theory SetupEngine
  imports SetupTypes
begin

text \<open>
  The derivation of setups from a market state (\<open>src/decision/SetupEngine.ts\<close>), their expected move
  (\<open>src/decision/SetupTiming.ts\<close>) and the choice of liquidity targets (\<open>src/decision/liquidityTargets.ts\<close>).
\<close>

section \<open>Timing\<close>

fun TF_MINUTES :: "timeframe \<Rightarrow> jsnum" where
  "TF_MINUTES TF15m = 15"
| "TF_MINUTES TF1h = 60"
| "TF_MINUTES TF4h = 240"

fun VOL_PACE_ATR_PER_BAR :: "volatility_regime \<Rightarrow> jsnum" where
  "VOL_PACE_ATR_PER_BAR VolLow = 35/100"
| "VOL_PACE_ATR_PER_BAR VolMedium = 55/100"
| "VOL_PACE_ATR_PER_BAR VolHigh = 85/100"

definition roundMinutes :: "jsnum \<Rightarrow> jsnum" where
  "roundMinutes minutes = math_max 5 (math_round (minutes / 5) * 5)"

definition expectedMove :: "jsnum \<Rightarrow> jsnum \<Rightarrow> timeframe \<Rightarrow> volatility_regime \<Rightarrow> expected_move option" where
  "expectedMove distance atrValue tf volatility =
     (if \<not> atrValue > 0 \<or> \<not> distance > 0 then None
      else
        (let distanceAtr = distance / atrValue;
             pace = VOL_PACE_ATR_PER_BAR volatility;
             bars = math_min 24 (math_max (3/2) (distanceAtr / pace));
             tfMinutes = TF_MINUTES tf;
             minMinutes = roundMinutes (bars * tfMinutes * (1/2));
             maxMinutes = roundMinutes (bars * tfMinutes * 2)
         in Some \<lparr> em_minMinutes = minMinutes, em_maxMinutes = math_max maxMinutes minMinutes,
                   em_thesisExpiryMinutes = math_max (roundMinutes (maxMinutes * (3/2))) (tfMinutes * 4),
                   em_distanceAtr = distanceAtr \<rparr>))"

section \<open>Liquidity targets\<close>

definition MAX_SWEEP_AGE_MS :: jsnum where "MAX_SWEEP_AGE_MS = 5400000"
definition STOP_BUFFER_ATR :: jsnum where "STOP_BUFFER_ATR = 15/100"
definition MAX_STOP_ATR :: jsnum where "MAX_STOP_ATR = 4"
definition MIN_STOP_ATR :: jsnum where "MIN_STOP_ATR = 1/2"
definition MIN_TP2_GAP_ATR :: jsnum where "MIN_TP2_GAP_ATR = 1/2"
definition DEFAULT_MIN_REWARD_RISK :: jsnum where "DEFAULT_MIN_REWARD_RISK = 3/2"

text \<open>\<open>further d a b\<close>: \<open>a\<close> lies on the profit side of \<open>b\<close>.\<close>

definition further :: "side \<Rightarrow> jsnum \<Rightarrow> jsnum \<Rightarrow> bool" where
  "further d a b = (if d = LONG then a > b else a < b)"

definition isDirectionalLiquidity :: "liquidity_pool \<Rightarrow> side \<Rightarrow> bool" where
  "isDirectionalLiquidity pool d =
     (if d = LONG then lp_type pool = EQUAL_HIGH \<or> lp_type pool = SWING_HIGH \<or> lp_type pool = RANGE_HIGH
      else lp_type pool = EQUAL_LOW \<or> lp_type pool = SWING_LOW \<or> lp_type pool = RANGE_LOW)"

definition all_pools :: "market_state \<Rightarrow> liquidity_pool list" where
  "all_pools st = ls_pools (ms_ltfLiquidity st) @ ls_pools (ms_htfLiquidity st)"

definition directionalPool :: "market_state \<Rightarrow> side \<Rightarrow> jsnum \<Rightarrow> liquidity_pool option" where
  "directionalPool st d entry =
     first_by (\<lambda>a b. abs (lp_price a - entry) < abs (lp_price b - entry))
       (filter (\<lambda>p. further d (lp_price p) entry) (filter (\<lambda>p. isDirectionalLiquidity p d) (all_pools st)))"

definition GAP_SLACK :: jsnum where "GAP_SLACK = 1 - 1/1000000000"

definition secondDirectionalPool :: "market_state \<Rightarrow> side \<Rightarrow> jsnum \<Rightarrow> jsnum \<Rightarrow> liquidity_pool option" where
  "secondDirectionalPool st d after minGap =
     first_by (\<lambda>a b. abs (lp_price a - after) < abs (lp_price b - after))
       (filter (\<lambda>p. abs (lp_price p - after) \<ge> minGap * GAP_SLACK)
         (filter (\<lambda>p. further d (lp_price p) after) (filter (\<lambda>p. isDirectionalLiquidity p d) (all_pools st))))"

definition nearestPoolWithRewardRisk ::
  "market_state \<Rightarrow> side \<Rightarrow> jsnum \<Rightarrow> jsnum \<Rightarrow> jsnum \<Rightarrow> (liquidity_pool \<times> jsnum) option" where
  "nearestPoolWithRewardRisk st d entry riskDistance minimum =
     (if \<not> riskDistance > 0 \<or> \<not> is_finite entry then None
      else
        (let pools = sort_by (\<lambda>a b. abs (lp_price a - entry) < abs (lp_price b - entry)
                       \<or> js_eq (abs (lp_price a - entry)) (abs (lp_price b - entry)) \<and> lp_strength a > lp_strength b)
               (filter (\<lambda>p. further d (lp_price p) entry)
                 (filter (\<lambda>p. isDirectionalLiquidity p d \<and> lp_taken p \<noteq> Some True \<and> is_finite (lp_price p)) (all_pools st)))
         in map_option (\<lambda>p. (p, abs (lp_price p - entry) / riskDistance))
              (find (\<lambda>p. abs (lp_price p - entry) / riskDistance \<ge> minimum) pools)))"

definition zones_of :: "market_state \<Rightarrow> zone_record list" where
  "zones_of st = (case ms_zoneLedger st of None \<Rightarrow> [] | Some zs \<Rightarrow> zs)"

definition zone_distance :: "jsnum \<Rightarrow> zone_record \<Rightarrow> jsnum" where
  "zone_distance mark z = abs (mark - (zr_low z + zr_high z) / 2)"

definition nearestZoneRecord :: "market_state \<Rightarrow> side \<Rightarrow> jsnum \<Rightarrow> zone_record option" where
  "nearestZoneRecord st d mark =
     first_by (\<lambda>a b. zone_distance mark a < zone_distance mark b)
       (filter (\<lambda>z. if d = LONG then zr_low z \<le> mark else zr_high z \<ge> mark)
         (filter (\<lambda>z. zr_type z = (if d = LONG then DEMAND else SUPPLY) \<and> zr_state z \<noteq> ZoneExpired \<and> zr_state z \<noteq> ZoneInvalidated)
           (zones_of st)))"

section \<open>Structure\<close>

definition breakEvents :: "structure_state \<Rightarrow> structure_break list" where
  "breakEvents s =
     (case su_breaks s of
        Some (b # bs) \<Rightarrow> b # bs
      | _ \<Rightarrow> (case su_lastBreak s of Some b \<Rightarrow> [b] | None \<Rightarrow> []))"

definition wanted_trend :: "side \<Rightarrow> trend_direction" where
  "wanted_trend d = (if d = LONG then BULLISH else BEARISH)"

definition opposing_trend :: "side \<Rightarrow> trend_direction" where
  "opposing_trend d = (if d = LONG then BEARISH else BULLISH)"

definition confirmingBreakAfter :: "structure_state \<Rightarrow> jsnum \<Rightarrow> side \<Rightarrow> bool" where
  "confirmingBreakAfter s since d = list_ex (\<lambda>b. sb_time b \<ge> since \<and> sb_direction b = wanted_trend d) (breakEvents s)"

definition opposingBreakAfter :: "structure_state \<Rightarrow> jsnum \<Rightarrow> side \<Rightarrow> bool" where
  "opposingBreakAfter s since d = list_ex (\<lambda>b. sb_time b \<ge> since \<and> sb_direction b = opposing_trend d) (breakEvents s)"

definition stopForZone :: "side \<Rightarrow> zone_record \<Rightarrow> jsnum \<Rightarrow> jsnum" where
  "stopForZone d z atrValue =
     (if d = LONG then zr_low z - atrValue * STOP_BUFFER_ATR else zr_high z + atrValue * STOP_BUFFER_ATR)"

definition riskReward :: "jsnum \<Rightarrow> jsnum \<Rightarrow> jsnum \<Rightarrow> jsnum" where
  "riskReward entry stop target =
     (let risk = abs (entry - stop) in if risk > 0 then abs (target - entry) / risk else 0)"

text \<open>A scenario's state when it is built; \<open>None\<close> is \<open>INVALIDATED\<close>.\<close>

definition after_level :: "market_state \<Rightarrow> jsnum \<Rightarrow> side \<Rightarrow> live_state option" where
  "after_level st since d =
     (if confirmingBreakAfter (ms_ltfStructure st) since d then Some TRIGGERED
      else if opposingBreakAfter (ms_ltfStructure st) since d then None
      else Some ARMED)"

definition stateForBreakout :: "market_state \<Rightarrow> liquidity_pool \<Rightarrow> side \<Rightarrow> live_state option" where
  "stateForBreakout st pool d =
     (case (lp_taken pool, lp_sweptAt pool) of
        (Some True, Some at_time) \<Rightarrow> after_level st at_time d
      | _ \<Rightarrow> Some FORMING)"

definition stateForZone :: "market_state \<Rightarrow> zone_record \<Rightarrow> side \<Rightarrow> live_state option" where
  "stateForZone st z d =
     (if zr_state z = FRESH then Some FORMING
      else after_level st (case zr_testedAt z of Some t \<Rightarrow> t | None \<Rightarrow> zr_breakTime z) d)"

definition stateForSweep :: "market_state \<Rightarrow> liquidity_sweep \<Rightarrow> side \<Rightarrow> live_state option" where
  "stateForSweep st w d =
     (if (if d = LONG then ms_mark st < lw_sweepPrice w else ms_mark st > lw_sweepPrice w) then None
      else if \<not> (if d = LONG then ms_mark st > lw_level w else ms_mark st < lw_level w) then Some FORMING
      else after_level st (lw_time w) d)"

section \<open>Builders\<close>

text \<open>A builder's outcome: a scenario, the id of a setup whose thesis is dead, or neither.\<close>

datatype built = NoSetup | DeadSetup setup_id | Built setup_scenario

definition scenario_of ::
  "setup_id \<Rightarrow> setup_kind \<Rightarrow> side \<Rightarrow> live_state \<Rightarrow> levels \<Rightarrow> expected_move \<Rightarrow> jsnum \<Rightarrow> setup_scenario" where
  "scenario_of i kind d st l move source =
     \<lparr> sn_id = i, sn_kind = kind, sn_direction = d, sn_state = st, sn_levels = l, sn_expectedMove = move, sn_sourceTime = source,
       sn_lifecycle = None, sn_locationAtEntry = None, sn_evidence = None, sn_quality = None, sn_thesisRole = None \<rparr>"

definition buildBreakout :: "market_state \<Rightarrow> side \<Rightarrow> jsnum \<Rightarrow> jsnum \<Rightarrow> built" where
  "buildBreakout st d atrValue minRr =
     (case directionalPool st d (ms_mark st) of None \<Rightarrow> NoSetup | Some pool \<Rightarrow>
        (case secondDirectionalPool st d (lp_price pool) 0 of None \<Rightarrow> NoSetup | Some nxt \<Rightarrow>
           (let level = lp_price pool; i = SetupId BREAKOUT_RETEST (ms_symbol st) d (math_round (level * 100))
            in case stateForBreakout st pool d of None \<Rightarrow> DeadSetup i | Some scenarioState \<Rightarrow>
               (let pad = atrValue * (20/100);
                    entryLow = (if d = LONG then level else level - pad);
                    entryHigh = (if d = LONG then level + pad else level);
                    entry = (if d = LONG then entryHigh else entryLow);
                    stop = (if d = LONG then level - atrValue * (35/100) else level + atrValue * (35/100));
                    target1 = lp_price nxt;
                    rr = riskReward entry stop target1
                in case expectedMove (abs (target1 - entry)) atrValue TF15m (rg_volatility (ms_regime st)) of None \<Rightarrow> NoSetup | Some move \<Rightarrow>
                     if rr < minRr \<or> abs (entry - stop) / atrValue > MAX_STOP_ATR then NoSetup
                     else Built (scenario_of i BREAKOUT_RETEST d scenarioState
                       \<lparr> lv_entryLow = entryLow, lv_entryHigh = entryHigh, lv_stopLoss = stop, lv_target1 = target1,
                         lv_target2 = None, lv_rewardRisk = rr \<rparr> move (ms_generatedAt st))))))"

definition buildPullback :: "market_state \<Rightarrow> side \<Rightarrow> jsnum \<Rightarrow> jsnum \<Rightarrow> built" where
  "buildPullback st d atrValue minRr =
     (case nearestZoneRecord st d (ms_mark st) of None \<Rightarrow> NoSetup | Some z \<Rightarrow>
        (let i = SetupId PULLBACK_RETEST (ms_symbol st) d (zr_breakTime z)
         in case stateForZone st z d of None \<Rightarrow> DeadSetup i | Some scenarioState \<Rightarrow>
            (let entry = (if d = LONG then math_min (ms_mark st) (zr_high z) else math_max (ms_mark st) (zr_low z));
                 stop = stopForZone d z atrValue
             in case directionalPool st d (math_max entry (ms_mark st)) of None \<Rightarrow> NoSetup | Some target \<Rightarrow>
                (let second = secondDirectionalPool st d (lp_price target) (atrValue * MIN_TP2_GAP_ATR);
                     riskAtr = abs (entry - stop) / atrValue;
                     rr = riskReward entry stop (lp_price target)
                 in case expectedMove (abs (lp_price target - entry)) atrValue TF15m (rg_volatility (ms_regime st)) of None \<Rightarrow> NoSetup | Some move \<Rightarrow>
                      if riskAtr < MIN_STOP_ATR \<or> riskAtr > MAX_STOP_ATR \<or> rr < minRr then NoSetup
                      else Built (scenario_of i PULLBACK_RETEST d scenarioState
                        \<lparr> lv_entryLow = zr_low z, lv_entryHigh = zr_high z, lv_stopLoss = stop, lv_target1 = lp_price target,
                          lv_target2 = map_option lp_price second, lv_rewardRisk = rr \<rparr> move (zr_breakTime z))))))"

definition latestSweep :: "market_state \<Rightarrow> side \<Rightarrow> liquidity_sweep option" where
  "latestSweep st d =
     (let source = (case ls_sweepHistory (ms_ltfLiquidity st) of Some h \<Rightarrow> h | None \<Rightarrow> ls_recentSweeps (ms_ltfLiquidity st))
      in first_by (\<lambda>a b. lw_time a > lw_time b)
           (filter (\<lambda>w. lw_confirmed w \<and> lw_direction w = (if d = LONG then SELL_SIDE else BUY_SIDE)) source))"

definition buildSweep :: "market_state \<Rightarrow> side \<Rightarrow> jsnum \<Rightarrow> jsnum \<Rightarrow> built" where
  "buildSweep st d atrValue minRr =
     (case latestSweep st d of None \<Rightarrow> NoSetup | Some w \<Rightarrow>
        if ms_generatedAt st - lw_time w > MAX_SWEEP_AGE_MS then NoSetup
        else
          (let i = SetupId LIQUIDITY_SWEEP (ms_symbol st) d (lw_time w)
           in case stateForSweep st w d of None \<Rightarrow> DeadSetup i | Some scenarioState \<Rightarrow>
              (case directionalPool st d (ms_mark st) of None \<Rightarrow> NoSetup | Some target \<Rightarrow>
                 if abs (lp_price target - lw_level w) \<le> atrValue * (1/2) then NoSetup
                 else
                   (let entry = lw_level w;
                        stop = (if d = LONG then lw_sweepPrice w - atrValue * STOP_BUFFER_ATR else lw_sweepPrice w + atrValue * STOP_BUFFER_ATR);
                        rr = riskReward entry stop (lp_price target);
                        riskAtr = abs (entry - stop) / atrValue
                    in case expectedMove (abs (lp_price target - entry)) atrValue TF15m (rg_volatility (ms_regime st)) of None \<Rightarrow> NoSetup | Some move \<Rightarrow>
                         if riskAtr < MIN_STOP_ATR \<or> riskAtr > MAX_STOP_ATR \<or> rr < minRr then NoSetup
                         else Built (scenario_of i LIQUIDITY_SWEEP d scenarioState
                           \<lparr> lv_entryLow = (if d = LONG then entry else entry - atrValue * (1/10)),
                             lv_entryHigh = (if d = LONG then entry + atrValue * (1/10) else entry), lv_stopLoss = stop,
                             lv_target1 = lp_price target,
                             lv_target2 = map_option lp_price (secondDirectionalPool st d (lp_price target) (atrValue * MIN_TP2_GAP_ATR)),
                             lv_rewardRisk = rr \<rparr> move (lw_time w))))))"

section \<open>The map\<close>

definition trendOf :: "market_state \<Rightarrow> trend_direction" where
  "trendOf st =
     (if rg_trendDirection (ms_regime st) \<noteq> NEUTRAL then rg_trendDirection (ms_regime st)
      else if su_trend (ms_htfStructure st) \<noteq> NEUTRAL then su_trend (ms_htfStructure st)
      else su_trend (ms_ltfStructure st))"

definition locationOf :: "market_state \<Rightarrow> entry_location" where
  "locationOf st =
     (if rp_premium (ms_pricing st) then PREMIUM else if rp_discount (ms_pricing st) then DISCOUNT else EQUILIBRIUM)"

definition direction_of :: "trend_direction \<Rightarrow> side option" where
  "direction_of t = (case t of BULLISH \<Rightarrow> Some LONG | BEARISH \<Rightarrow> Some SHORT | NEUTRAL \<Rightarrow> None)"

definition atr15_of :: "market_state \<Rightarrow> jsnum" where
  "atr15_of st = (case tf_atr14 (ms_tf15m st) of Some a \<Rightarrow> a | None \<Rightarrow> 0)"

definition built_all :: "market_state \<Rightarrow> jsnum \<Rightarrow> built list" where
  "built_all st minRr =
     (case direction_of (trendOf st) of
        Some d \<Rightarrow>
          if atr15_of st > 0
          then map (\<lambda>builder. builder st d (atr15_of st) minRr) [buildSweep, buildPullback, buildBreakout]
          else []
      | None \<Rightarrow> [])"

fun scenario_part :: "built \<Rightarrow> setup_scenario option" where
  "scenario_part (Built s) = Some s"
| "scenario_part b = None"

fun dead_part :: "built \<Rightarrow> setup_id option" where
  "dead_part (DeadSetup i) = Some i"
| "dead_part b = None"

text \<open>The comparator both sorts of the decision layer use: the higher state, then the better ratio.\<close>

definition stronger :: "setup_scenario \<Rightarrow> setup_scenario \<Rightarrow> bool" where
  "stronger a b \<longleftrightarrow> live_rank (sn_state a) > live_rank (sn_state b)
     \<or> live_rank (sn_state a) = live_rank (sn_state b) \<and> lv_rewardRisk (sn_levels a) > lv_rewardRisk (sn_levels b)"

definition map_state_of :: "setup_scenario list \<Rightarrow> setup_state" where
  "map_state_of ss =
     (if ss = [] then NO_TRADE
      else if list_ex (\<lambda>s. sn_state s = TRIGGERED) ss then Live TRIGGERED
      else if list_ex (\<lambda>s. sn_state s = ARMED) ss then Live ARMED
      else Live FORMING)"

definition buildSetupMap :: "market_state \<Rightarrow> jsnum \<Rightarrow> setup_map" where
  "buildSetupMap st minRr =
     (let bias = trendOf st; d = direction_of bias;
          scenarios = sort_by stronger (List.map_filter scenario_part (built_all st minRr));
          reasons = (if d = None then [StructureUnresolved] else [])
            @ (if d \<noteq> None \<and> scenarios = [] then [NoAdmissibleSetup] else [])
            @ (if rp_premium (ms_pricing st) \<and> d = Some LONG then [LongInPremium] else [])
            @ (if rp_discount (ms_pricing st) \<and> d = Some SHORT then [ShortInDiscount] else [])
      in \<lparr> sm_symbol = ms_symbol st, sm_generatedAt = ms_generatedAt st, sm_mark = ms_mark st, sm_state = map_state_of scenarios,
           sm_bias = bias, sm_location = locationOf st, sm_htfTrend = su_trend (ms_htfStructure st),
           sm_ltfTrend = su_trend (ms_ltfStructure st),
           sm_nearestUpperLiquidity = map_option lp_price (directionalPool st LONG (ms_mark st)),
           sm_nearestLowerLiquidity = map_option lp_price (directionalPool st SHORT (ms_mark st)),
           sm_scenarios = scenarios, sm_invalidatedIds = List.map_filter dead_part (built_all st minRr), sm_flow = None,
           sm_thesisTransition = None, sm_withheldIds = [], sm_noTradeReasons = take 3 reasons \<rparr>)"

section \<open>Sound states and sound setups\<close>

text \<open>
  What the market layer promises of a state: finite prices, zones that are not inverted, and sweeps that went beyond
  the level they swept.
\<close>

definition sweep_ok :: "liquidity_sweep \<Rightarrow> bool" where
  "sweep_ok w \<longleftrightarrow> is_finite (lw_level w) \<and> is_finite (lw_sweepPrice w)
     \<and> (if lw_direction w = SELL_SIDE then lw_sweepPrice w < lw_level w else lw_level w < lw_sweepPrice w)"

definition state_ok :: "market_state \<Rightarrow> bool" where
  "state_ok st \<longleftrightarrow> is_finite (ms_mark st) \<and> is_finite (atr15_of st)
     \<and> list_all (\<lambda>p. is_finite (lp_price p)) (all_pools st)
     \<and> list_all (\<lambda>z. is_finite (zr_low z) \<and> zr_low z \<le> zr_high z \<and> is_finite (zr_high z)) (zones_of st)
     \<and> list_all sweep_ok (ls_recentSweeps (ms_ltfLiquidity st))
     \<and> (case ls_sweepHistory (ms_ltfLiquidity st) of None \<Rightarrow> True | Some h \<Rightarrow> list_all sweep_ok h)"

text \<open>
  A sound setup: finite prices, a reference entry inside its zone, the stop on the losing side of the whole zone and at most four
  ATRs away, the first target on the profit side of the entry and worth at least \<open>minRr\<close> times the risk, a second
  target beyond the first.
\<close>

definition sound_setup :: "jsnum \<Rightarrow> jsnum \<Rightarrow> setup_scenario \<Rightarrow> bool" where
  "sound_setup atr minRr s \<longleftrightarrow>
     (let d = sn_direction s; l = sn_levels s
      in list_all is_finite [lv_entryLow l, lv_entryHigh l, lv_stopLoss l, lv_target1 l]
         \<and> further d (lv_entryLow l) (lv_stopLoss l) \<and> further d (lv_entryHigh l) (lv_stopLoss l)
         \<and> (\<forall>t2. lv_target2 l = Some t2 \<longrightarrow> further d t2 (lv_target1 l))
         \<and> (\<exists>e. lv_entryLow l \<le> e \<and> e \<le> lv_entryHigh l \<and> further d (lv_target1 l) e
              \<and> lv_rewardRisk l = riskReward e (lv_stopLoss l) (lv_target1 l) \<and> minRr \<le> lv_rewardRisk l
              \<and> abs (e - lv_stopLoss l) / atr \<le> MAX_STOP_ATR))"

lemma pool_of:
  assumes "directionalPool st d e = Some p" and "state_ok st"
  shows "\<exists>r. lp_price p = Fin r \<and> further d (Fin r) e"
  using assms first_by_mem [OF assms(1) [unfolded directionalPool_def]] by (auto simp: state_ok_def list_all_iff is_finite_iff)

lemma second_pool_of:
  assumes "secondDirectionalPool st d e g = Some p" and "state_ok st"
  shows "\<exists>r. lp_price p = Fin r \<and> further d (Fin r) e"
  using assms first_by_mem [OF assms(1) [unfolded secondDirectionalPool_def]]
  by (auto simp: state_ok_def list_all_iff is_finite_iff)

lemma riskReward_Fin: "riskReward (Fin e) (Fin s) (Fin t) = Fin (if e = s then 0 else \<bar>t - e\<bar> / \<bar>e - s\<bar>)"
  by (simp add: riskReward_def Let_def)

lemma reward_covers_risk:
  assumes "Fin m \<le> riskReward (Fin e) (Fin s) (Fin t)" and "1 \<le> m"
  shows "\<bar>e - s\<bar> \<le> \<bar>t - e\<bar>"
proof (cases "e = s")
  case False
  then have "m \<le> \<bar>t - e\<bar> / \<bar>e - s\<bar>" using assms(1) by (simp add: riskReward_Fin)
  then have "1 \<le> \<bar>t - e\<bar> / \<bar>e - s\<bar>" using assms(2) by linarith
  then show ?thesis using False by (simp add: pos_le_divide_eq)
qed simp

text \<open>What a builder has to establish, over the reals.\<close>

lemma sound_setupI:
  assumes "lv_entryLow l = Fin lo" and "lv_entryHigh l = Fin hi" and "lv_stopLoss l = Fin sl" and "lv_target1 l = Fin t"
    and "lv_rewardRisk l = riskReward (Fin e) (Fin sl) (Fin t)" and "Fin m \<le> riskReward (Fin e) (Fin sl) (Fin t)"
    and "lo \<le> e" and "e \<le> hi" and "if d = LONG then sl < lo \<and> e < t else hi < sl \<and> t < e"
    and "\<bar>e - sl\<bar> / a \<le> 4" and "0 < a" and "\<And>x. lv_target2 l = Some x \<Longrightarrow> further d x (Fin t)"
  shows "sound_setup (Fin a) (Fin m) (scenario_of i k d st l mv src)"
  using assms by (auto simp: sound_setup_def scenario_of_def further_def MAX_STOP_ATR_def Let_def intro!: exI [of _ "Fin e"] split: if_splits)

lemma not_less_Fin: "\<not> riskReward (Fin e) (Fin s) (Fin t) < Fin m \<longleftrightarrow> Fin m \<le> riskReward (Fin e) (Fin s) (Fin t)"
  by (auto simp: riskReward_Fin)

lemma breakout_sound:
  assumes "buildBreakout st d (Fin a) (Fin m) = Built s" and "state_ok st" and "0 < a" and "1 \<le> m"
  shows "sound_setup (Fin a) (Fin m) s \<and> sn_direction s = d"
proof -
  obtain pool nxt live where b: "directionalPool st d (ms_mark st) = Some pool"
    "secondDirectionalPool st d (lp_price pool) 0 = Some nxt" "stateForBreakout st pool d = Some live"
    using assms(1) by (auto simp: buildBreakout_def Let_def split: option.splits if_splits)
  obtain lev t where lt: "lp_price pool = Fin lev" "lp_price nxt = Fin t" "further d (Fin t) (Fin lev)"
    using pool_of [OF b(1) assms(2)] second_pool_of [OF b(2) assms(2)] by auto
  define e where "e = (if d = LONG then lev + a / 5 else lev - a / 5)"
  define sl where "sl = (if d = LONG then lev - a * (7 / 20) else lev + a * (7 / 20))"
  define l where "l = \<lparr> lv_entryLow = Fin (if d = LONG then lev else lev - a / 5), lv_entryHigh = Fin (if d = LONG then lev + a / 5 else lev),
     lv_stopLoss = Fin sl, lv_target1 = Fin t, lv_target2 = None, lv_rewardRisk = riskReward (Fin e) (Fin sl) (Fin t) \<rparr>"
  obtain mv where s: "s = scenario_of (SetupId BREAKOUT_RETEST (ms_symbol st) d (math_round (Fin lev * 100))) BREAKOUT_RETEST d live l mv (ms_generatedAt st)"
    and rr: "Fin m \<le> riskReward (Fin e) (Fin sl) (Fin t)" and w: "\<bar>e - sl\<bar> / a \<le> 4"
    using assms(1,3) b lt
    by (auto simp: buildBreakout_def e_def sl_def l_def not_less_Fin MAX_STOP_ATR_def Let_def split: option.splits if_splits)
  have "\<bar>e - sl\<bar> \<le> \<bar>t - e\<bar>" by (rule reward_covers_risk [OF rr assms(4)])
  then have "if d = LONG then e < t else t < e" using lt(3) assms(3) by (auto simp: e_def sl_def further_def abs_if split: if_splits)
  then have "sound_setup (Fin a) (Fin m) s"
    unfolding s using rr w assms(3) by (intro sound_setupI [where e = e]) (auto simp: l_def e_def sl_def)
  then show ?thesis by (simp add: s scenario_of_def)
qed

lemma second_target_beyond:
  assumes "state_ok st" and "secondDirectionalPool st d e g = Some p"
  shows "further d (lp_price p) e"
  using second_pool_of [OF assms(2,1)] by auto

lemma pullback_sound:
  assumes "buildPullback st d (Fin a) (Fin m) = Built s" and "state_ok st" and "0 < a" and "1 \<le> m"
  shows "sound_setup (Fin a) (Fin m) s \<and> sn_direction s = d"
proof -
  obtain z live where b: "nearestZoneRecord st d (ms_mark st) = Some z" "stateForZone st z d = Some live"
    using assms(1) by (auto simp: buildPullback_def Let_def split: option.splits if_splits)
  obtain k where k: "ms_mark st = Fin k" using assms(2) by (auto simp: state_ok_def is_finite_iff)
  from first_by_mem [OF b(1) [unfolded nearestZoneRecord_def]] assms(2) obtain lo hi where
    z: "zr_low z = Fin lo" "zr_high z = Fin hi" "lo \<le> hi" "if d = LONG then lo \<le> k else k \<le> hi"
    using k by (auto simp: state_ok_def list_all_iff is_finite_iff split: if_splits)
  define e where "e = (if d = LONG then min k hi else max k lo)"
  define sl where "sl = (if d = LONG then lo - a * (3 / 20) else hi + a * (3 / 20))"
  obtain target where t0: "directionalPool st d (Fin (max e k)) = Some target"
    using assms(1) b k z by (auto simp: buildPullback_def e_def Let_def split: option.splits if_splits)
  obtain t where t: "lp_price target = Fin t" "further d (Fin t) (Fin (max e k))"
    using pool_of [OF t0 assms(2)] by auto
  define l where "l = \<lparr> lv_entryLow = Fin lo, lv_entryHigh = Fin hi, lv_stopLoss = Fin sl, lv_target1 = Fin t,
     lv_target2 = map_option lp_price (secondDirectionalPool st d (Fin t) (Fin a * MIN_TP2_GAP_ATR)),
     lv_rewardRisk = riskReward (Fin e) (Fin sl) (Fin t) \<rparr>"
  obtain mv where s: "s = scenario_of (SetupId PULLBACK_RETEST (ms_symbol st) d (zr_breakTime z)) PULLBACK_RETEST d live l mv (zr_breakTime z)"
    and rr: "Fin m \<le> riskReward (Fin e) (Fin sl) (Fin t)" and w: "\<bar>e - sl\<bar> / a \<le> 4"
    using assms(1,3) b k z(1,2) t0 t(1)
    by (auto simp: buildPullback_def stopForZone_def STOP_BUFFER_ATR_def e_def sl_def l_def not_less_Fin MAX_STOP_ATR_def Let_def
        split: option.splits if_splits)
  have "if d = LONG then e < t else t < e" using t(2) z by (auto simp: e_def further_def split: if_splits)
  then have "sound_setup (Fin a) (Fin m) s"
    unfolding s using rr w assms(3) z second_target_beyond [OF assms(2)]
    by (intro sound_setupI [where e = e]) (auto simp: l_def e_def sl_def)
  then show ?thesis by (simp add: s scenario_of_def)
qed

lemma sweep_sound:
  assumes "buildSweep st d (Fin a) (Fin m) = Built s" and "state_ok st" and "0 < a" and "1 \<le> m"
  shows "sound_setup (Fin a) (Fin m) s \<and> sn_direction s = d"
proof -
  obtain w live target where b: "latestSweep st d = Some w" "stateForSweep st w d = Some live" "directionalPool st d (ms_mark st) = Some target"
    using assms(1) by (auto simp: buildSweep_def Let_def split: option.splits if_splits)
  obtain k where k: "ms_mark st = Fin k" using assms(2) by (auto simp: state_ok_def is_finite_iff)
  have "sweep_ok w \<and> lw_direction w = (if d = LONG then SELL_SIDE else BUY_SIDE)"
    using first_by_mem [OF b(1) [unfolded latestSweep_def Let_def]] assms(2) by (auto simp: state_ok_def list_all_iff split: option.splits)
  then obtain lev x where w: "lw_level w = Fin lev" "lw_sweepPrice w = Fin x" "if d = LONG then x < lev else lev < x"
    by (auto simp: sweep_ok_def is_finite_iff split: if_splits)
  have kx: "if d = LONG then x \<le> k else k \<le> x" using b(2) w k by (auto simp: stateForSweep_def split: if_splits)
  obtain t where t: "lp_price target = Fin t" "further d (Fin t) (Fin k)" using pool_of [OF b(3) assms(2)] k by auto
  define sl where "sl = (if d = LONG then x - a * (3 / 20) else x + a * (3 / 20))"
  define l where "l = \<lparr> lv_entryLow = Fin (if d = LONG then lev else lev - a / 10), lv_entryHigh = Fin (if d = LONG then lev + a / 10 else lev),
     lv_stopLoss = Fin sl, lv_target1 = Fin t,
     lv_target2 = map_option lp_price (secondDirectionalPool st d (Fin t) (Fin a * MIN_TP2_GAP_ATR)),
     lv_rewardRisk = riskReward (Fin lev) (Fin sl) (Fin t) \<rparr>"
  obtain mv where s: "s = scenario_of (SetupId LIQUIDITY_SWEEP (ms_symbol st) d (lw_time w)) LIQUIDITY_SWEEP d live l mv (lw_time w)"
    and rr: "Fin m \<le> riskReward (Fin lev) (Fin sl) (Fin t)" and wd: "\<bar>lev - sl\<bar> / a \<le> 4"
    using assms(1,3) b k w(1,2) t(1)
    by (auto simp: buildSweep_def STOP_BUFFER_ATR_def sl_def l_def not_less_Fin MAX_STOP_ATR_def Let_def split: option.splits if_splits)
  have "\<bar>lev - sl\<bar> \<le> \<bar>t - lev\<bar>" by (rule reward_covers_risk [OF rr assms(4)])
  then have "if d = LONG then lev < t else t < lev" using t(2) w(3) kx assms(3) by (auto simp: sl_def further_def split: if_splits)
  then have "sound_setup (Fin a) (Fin m) s"
    unfolding s using rr wd assms(3) w second_target_beyond [OF assms(2)]
    by (intro sound_setupI [where e = lev]) (auto simp: l_def sl_def split: if_splits)
  then show ?thesis by (simp add: s scenario_of_def)
qed

lemma map_filter_mem: "x \<in> set (List.map_filter f xs) \<longleftrightarrow> (\<exists>y\<in>set xs. f y = Some x)"
  by (force simp: List.map_filter_def)

lemma built_sound:
  assumes "Built s \<in> set (built_all st (Fin m))" and "state_ok st" and "1 \<le> m"
  shows "sound_setup (atr15_of st) (Fin m) s \<and> direction_of (trendOf st) = Some (sn_direction s)"
proof -
  obtain a where a: "atr15_of st = Fin a" using assms(2) by (auto simp: state_ok_def is_finite_iff)
  obtain d where d: "direction_of (trendOf st) = Some d"
    using assms(1) by (cases "direction_of (trendOf st)") (auto simp: built_all_def)
  then have "0 < a" "buildSweep st d (Fin a) (Fin m) = Built s \<or> buildPullback st d (Fin a) (Fin m) = Built s \<or> buildBreakout st d (Fin a) (Fin m) = Built s"
    using assms(1) a by (auto simp: built_all_def split: if_splits)
  then show ?thesis
    using d sweep_sound [of st d a m s] pullback_sound [of st d a m s] breakout_sound [of st d a m s] assms(2,3) a by auto
qed

lemma setups_sound:
  assumes "state_ok st" and "1 \<le> m"
  shows "list_all (\<lambda>s. sound_setup (atr15_of st) (Fin m) s \<and> direction_of (sm_bias (buildSetupMap st (Fin m))) = Some (sn_direction s))
    (sm_scenarios (buildSetupMap st (Fin m)))"
proof -
  have "scenario_part b = Some s \<longleftrightarrow> b = Built s" for b s by (cases b) auto
  then show ?thesis using built_sound [OF _ assms]
    by (auto simp: list_all_iff buildSetupMap_def map_filter_mem Let_def)
qed

definition demo_liquidity :: "liquidity_pool list \<Rightarrow> liquidity_sweep list \<Rightarrow> liquidity_state" where
  "demo_liquidity ps ws = \<lparr> ls_pools = ps, ls_latestSweeps = [], ls_recentSweeps = ws, ls_sweepHistory = None \<rparr>"

definition demo_pool :: "pool_type \<Rightarrow> real \<Rightarrow> liquidity_pool" where
  "demo_pool t p = \<lparr> lp_type = t, lp_price = Fin p, lp_tolerance = 0, lp_strength = 1, lp_sourceTimes = [], lp_taken = None, lp_sweptAt = None \<rparr>"

definition demo_structure :: "trend_direction \<Rightarrow> structure_break list \<Rightarrow> structure_state" where
  "demo_structure t bs = \<lparr> su_trend = t, su_swingHighs = [], su_swingLows = [], su_lastBreak = None, su_protectedHigh = None,
     su_protectedLow = None, su_breaks = Some bs \<rparr>"

definition demo_timeframe :: timeframe_state where
  "demo_timeframe = \<lparr> tf_candleCount = 200, tf_lastClose = 100, tf_ema20 = None, tf_ema50 = None, tf_ema200 = None, tf_emaSlopePct = None,
     tf_adx14 = None, tf_atr14 = Some 1, tf_atrPercentile = None, tf_rsi14 = None, tf_vwap = None, tf_bollingerMiddle = None,
     tf_bollingerUpper = None, tf_bollingerLower = None, tf_volumeZ = None \<rparr>"

definition demo_market ::
  "trend_direction \<Rightarrow> real \<Rightarrow> structure_break list \<Rightarrow> liquidity_pool list \<Rightarrow> liquidity_sweep list \<Rightarrow> zone_record list \<Rightarrow> range_pricing \<Rightarrow> market_state" where
  "demo_market t mark bs ps ws zs pricing = \<lparr> ms_symbol = ''BTCUSDT'', ms_generatedAt = Fin 10000000, ms_mark = Fin mark, ms_fundingRate = 0,
     ms_regime = \<lparr> rg_regime = TRANSITION, rg_trendDirection = t, rg_trendStrength = 0, rg_volatility = VolMedium, rg_volatilityPercentile = None,
       rg_adx14 = None, rg_emaSlopePct = None, rg_scored = None \<rparr>,
     ms_tf15m = demo_timeframe, ms_tf1h = demo_timeframe, ms_tf4h = demo_timeframe,
     ms_htfStructure = demo_structure t [], ms_ltfStructure = demo_structure t bs,
     ms_htfLiquidity = demo_liquidity [] [], ms_ltfLiquidity = demo_liquidity ps ws, ms_zones = [], ms_zoneLedger = Some zs, ms_pricing = pricing,
     ms_meanReversion = \<lparr> mr_mean = None, mr_vwap = None, mr_zscore = None, mr_rsi14 = None, mr_bollingerMiddle = None,
       mr_bollingerUpper = None, mr_bollingerLower = None, mr_deviationPct = None \<rparr>,
     ms_derivatives = None, ms_crowding = None \<rparr>"

definition demo_zone :: "zone_type \<Rightarrow> real \<Rightarrow> real \<Rightarrow> zone_lifecycle \<Rightarrow> jsnum option \<Rightarrow> zone_record" where
  "demo_zone t lo hi s tested = \<lparr> zr_type = t, zr_timeframe = TF15m, zr_high = Fin hi, zr_low = Fin lo, zr_originTime = 0, zr_causedBreak = BOS,
     zr_displacementAtr = 1, zr_touches = 0, zr_fresh = True, zr_strength = 1, zr_state = s, zr_testedAt = tested, zr_mitigatedAt = None,
     zr_invalidatedAt = None, zr_invalidatedIndex = None, zr_expiredAt = None, zr_breakIndex = 10, zr_breakTime = 9000000, zr_ageBars = 5 \<rparr>"

definition demo_short_market :: market_state where
  "demo_short_market = demo_market BEARISH 100 [] [demo_pool EQUAL_LOW (201/2)] [] [demo_zone SUPPLY 104 106 FRESH None]
     \<lparr> rp_high = 102, rp_low = 98, rp_equilibrium = 100, rp_positionPct = 50, rp_premium = False, rp_discount = False \<rparr>"

lemmas demo_defs = demo_short_market_def demo_market_def demo_liquidity_def demo_pool_def demo_structure_def demo_zone_def demo_timeframe_def

lemma demo_short_setups:
  "map (lv_target1 \<circ> sn_levels) (sm_scenarios (buildSetupMap demo_short_market (3/2))) = [Fin (201/2)]"
  by (simp add: demo_defs buildSetupMap_def built_all_def buildSweep_def buildPullback_def buildBreakout_def
      trendOf_def direction_of_def atr15_of_def latestSweep_def nearestZoneRecord_def directionalPool_def secondDirectionalPool_def
      all_pools_def zones_of_def isDirectionalLiquidity_def further_def stateForZone_def stopForZone_def riskReward_def
      STOP_BUFFER_ATR_def MIN_STOP_ATR_def MAX_STOP_ATR_def MIN_TP2_GAP_ATR_def GAP_SLACK_def expectedMove_def scenario_of_def Let_def
      List.map_filter_def sort_by_def)

section \<open>Properties\<close>

text \<open>
  C26. Every setup offered is sound: on any state with finite prices, proper zones and sweeps that went beyond their
  level, and for any floor of at least one, each scenario of the map points with the market's direction, its stop lies
  on the losing side of its whole entry zone and within four ATRs, its first target lies on the profit side of the
  entry and pays at least the floor, and its second target lies beyond the first.
\<close>

theorem derived_setups_are_sound:
  assumes "state_ok st" and "1 \<le> m"
  shows "list_all (\<lambda>s. sound_setup (atr15_of st) (Fin m) s \<and> direction_of (sm_bias (buildSetupMap st (Fin m))) = Some (sn_direction s))
    (sm_scenarios (buildSetupMap st (Fin m)))"
  by (rule setups_sound [OF assms])

theorem derived_setups_are_sound_witness:
  "sm_scenarios (buildSetupMap demo_short_market (Fin (3/2))) \<noteq> []
   \<and> list_all (\<lambda>s. sound_setup (atr15_of demo_short_market) (Fin (3/2)) s
       \<and> direction_of (sm_bias (buildSetupMap demo_short_market (Fin (3/2)))) = Some (sn_direction s))
     (sm_scenarios (buildSetupMap demo_short_market (Fin (3/2))))"
  using derived_setups_are_sound [of demo_short_market "3/2"] demo_short_setups
  by (auto simp: demo_defs state_ok_def atr15_of_def all_pools_def zones_of_def)

text \<open>
  Different breakouts can share an identity: the id of a breakout rounds its level to a hundredth of the quote
  currency, so any two levels that round alike, however far apart in ATRs, give the same setup.
\<close>

theorem breakout_ids_collide:
  assumes "buildBreakout st LONG a m = Built s" and "buildBreakout st' LONG a' m' = Built s'" and "ms_symbol st' = ms_symbol st"
    and "lv_entryLow (sn_levels s) = Fin x" and "lv_entryLow (sn_levels s') = Fin y" and "\<lfloor>x * 100 + 1/2\<rfloor> = \<lfloor>y * 100 + 1/2\<rfloor>"
  shows "sn_id s' = sn_id s"
  using assms by (auto simp: buildBreakout_def scenario_of_def Let_def split: option.splits if_splits)

text \<open>
  A short's target can lie above the market: in a short pullback the target is only asked to lie below the later of
  entry and mark, where a long's has to lie beyond the mark. Here price trades at 100 below a supply zone, and the
  short's first target is 100.5.
\<close>

theorem short_pullback_target_above_mark:
  "map (lv_target1 \<circ> sn_levels) (sm_scenarios (buildSetupMap demo_short_market (3/2))) = [Fin (201/2)]
   \<and> ms_mark demo_short_market < Fin (201/2)"
  using demo_short_setups by (simp add: demo_defs)

end
