(* ===== verification/SetupQuality.thy ===== *)
theory SetupQuality
  imports SetupEngine
begin

text \<open>
  The verdict on a setup: where the planned entry lies and what a sweep proved (\<open>src/decision/SetupEvidence.ts\<close>), the
  seven checks (\<open>src/decision/SetupQuality.ts\<close>) and the pass that stamps a map with both
  (\<open>src/decision/SetupPipeline.ts\<close>).
\<close>

section \<open>Evidence\<close>

definition EQUILIBRIUM_BAND_PCT :: jsnum where "EQUILIBRIUM_BAND_PCT = 5"

definition locationAtEntry :: "market_state \<Rightarrow> levels \<Rightarrow> (entry_location \<times> jsnum) option" where
  "locationAtEntry st l =
     (let high = rp_high (ms_pricing st); low = rp_low (ms_pricing st)
      in if \<not> high > low then None
         else
           (let mid_price = (lv_entryLow l + lv_entryHigh l) / 2;
                pct = math_max 0 (math_min 100 (((mid_price - low) / (high - low)) * 100))
            in Some (if pct > 50 + EQUILIBRIUM_BAND_PCT then PREMIUM else if pct < 50 - EQUILIBRIUM_BAND_PCT then DISCOUNT else EQUILIBRIUM,
                     pct)))"

definition best_break :: "structure_state \<Rightarrow> jsnum \<Rightarrow> side \<Rightarrow> structure_break option" where
  "best_break s since d =
     first_by (\<lambda>a b. sb_distanceAtr a > sb_distanceAtr b)
       (filter (\<lambda>b. sb_time b \<ge> since \<and> sb_direction b = wanted_trend d) (breakEvents s))"

definition sweepEvidence :: "market_state \<Rightarrow> setup_scenario \<Rightarrow> jsnum \<Rightarrow> sweep_evidence option" where
  "sweepEvidence st s atrValue =
     (if sn_kind s \<noteq> LIQUIDITY_SWEEP \<or> \<not> atrValue > 0 then None
      else
        (let d = sn_direction s;
             source = (case ls_sweepHistory (ms_ltfLiquidity st) of Some h \<Rightarrow> h | None \<Rightarrow> ls_recentSweeps (ms_ltfLiquidity st))
         in case find (\<lambda>w. js_eq (lw_time w) (sn_sourceTime s) \<and> lw_direction w = (if d = LONG then SELL_SIDE else BUY_SIDE)) source of
              None \<Rightarrow> None
            | Some w \<Rightarrow>
                (let best = best_break (ms_ltfStructure st) (lw_time w) d
                 in Some \<lparr> ev_sweepLevel = lw_level w, ev_sweepExtreme = lw_sweepPrice w, ev_reclaimClose = lw_close w,
                      ev_depthAtr = abs (lw_level w - lw_sweepPrice w) / atrValue,
                      ev_displacementAtr = (case best of Some b \<Rightarrow> sb_distanceAtr b | None \<Rightarrow> 0),
                      ev_volumeZLatest = tf_volumeZ (ms_tf15m st), ev_structureShift = map_option sb_type best,
                      ev_reclaimed = (if d = LONG then lw_close w > lw_level w else lw_close w < lw_level w) \<rparr>)))"

section \<open>The checks\<close>

definition effectiveRrPass :: jsnum where "effectiveRrPass = 125/100"
definition effectiveRrWeak :: jsnum where "effectiveRrWeak = 1"
definition sweepMinDepthAtr :: jsnum where "sweepMinDepthAtr = 1/10"
definition sweepMinDisplacementAtr :: jsnum where "sweepMinDisplacementAtr = 1/2"
definition freshnessPassFraction :: jsnum where "freshnessPassFraction = 2/10"
definition maxWeakChecks :: nat where "maxWeakChecks = 1"

definition structureCheck :: "setup_map \<Rightarrow> setup_scenario \<Rightarrow> check_result" where
  "structureCheck m s =
     (let want = wanted_trend (sn_direction s); against = opposing_trend (sn_direction s);
          reversal = (sn_kind s = LIQUIDITY_SWEEP)
      in if sm_htfTrend m = against then (if reversal then WEAK else FAIL)
         else if sm_htfTrend m = want \<and> sm_ltfTrend m = want then PASS
         else if sm_ltfTrend m = against then (if reversal then PASS else FAIL)
         else WEAK)"

definition locationCheck :: "setup_scenario \<Rightarrow> check_result" where
  "locationCheck s =
     (case sn_locationAtEntry s of
        None \<Rightarrow> WEAK
      | Some (loc, pct) \<Rightarrow>
          if loc = EQUILIBRIUM then WEAK
          else if loc = (if sn_direction s = LONG then DISCOUNT else PREMIUM) then PASS
          else if sn_kind s = BREAKOUT_RETEST then WEAK else FAIL)"

definition triggerCheck :: "setup_scenario \<Rightarrow> check_result" where
  "triggerCheck s = (case sn_state s of TRIGGERED \<Rightarrow> PASS | ARMED \<Rightarrow> WEAK | FORMING \<Rightarrow> FAIL)"

definition evidenceCheck :: "setup_scenario \<Rightarrow> check_result" where
  "evidenceCheck s =
     (if sn_kind s \<noteq> LIQUIDITY_SWEEP then PASS
      else
        (case sn_evidence s of
           None \<Rightarrow> FAIL
         | Some e \<Rightarrow>
             if \<not> ev_reclaimed e then FAIL
             else
               (let deep = (ev_depthAtr e \<ge> sweepMinDepthAtr); displaced = (ev_displacementAtr e \<ge> sweepMinDisplacementAtr)
                in if deep \<and> displaced then PASS else if deep \<or> displaced then WEAK else FAIL)))"

definition flowCheck :: "setup_scenario \<Rightarrow> flow_context option \<Rightarrow> check_result" where
  "flowCheck s flow =
     (case flow of
        None \<Rightarrow> WEAK
      | Some f \<Rightarrow>
          (case flowVerdict f (sn_direction s) (sn_kind s = LIQUIDITY_SWEEP) of CONFIRMS \<Rightarrow> PASS | CONTRADICTS \<Rightarrow> FAIL | _ \<Rightarrow> WEAK))"

definition rrCheck :: "jsnum \<Rightarrow> check_result" where
  "rrCheck effectiveRr =
     (if \<not> is_finite effectiveRr then FAIL
      else if effectiveRr \<ge> effectiveRrPass then PASS else if effectiveRr \<ge> effectiveRrWeak then WEAK else FAIL)"

definition freshnessCheck :: "setup_scenario \<Rightarrow> jsnum \<Rightarrow> check_result" where
  "freshnessCheck s now =
     (case sn_lifecycle s of
        None \<Rightarrow> WEAK
      | Some life \<Rightarrow>
          if lf_entryState life = ENTRY_MISSED \<or> now \<ge> lf_expiresAt life then FAIL
          else
            (let span = lf_expiresAt life - lf_createdAt life
             in if span > 0 \<and> (lf_expiresAt life - now) / span < freshnessPassFraction then WEAK else PASS))"

definition reasonsFor :: "setup_checks \<Rightarrow> setup_scenario \<Rightarrow> no_trade_reason list" where
  "reasonsFor c s =
     (if ck_structure c = FAIL then [CONFLICTING_TIMEFRAMES] else [])
     @ (if ck_location c = FAIL then [ENTRY_LOCATION] else [])
     @ (if ck_evidence c = FAIL then [INSUFFICIENT_CONFIRMATION] else [])
     @ (if ck_flow c = FAIL then [FLOW_NOT_CONFIRMED] else [])
     @ (if ck_rr c = FAIL then [COST_ADJUSTED_EDGE_TOO_LOW] else [])
     @ (if ck_freshness c = FAIL
        then [if map_option lf_entryState (sn_lifecycle s) = Some ENTRY_MISSED then NT_ENTRY_MISSED else STALE_SETUP] else [])"

text \<open>\<open>Object.values(checks)\<close>, with and without the trigger.\<close>

definition hard_values :: "setup_checks \<Rightarrow> check_result list" where
  "hard_values c = [ck_structure c, ck_location c, ck_evidence c, ck_flow c, ck_rr c, ck_freshness c]"

definition check_values :: "setup_checks \<Rightarrow> check_result list" where
  "check_values c = ck_trigger c # hard_values c"

definition weak_count :: "setup_checks \<Rightarrow> nat" where
  "weak_count c = length (filter (\<lambda>v. v = WEAK) (check_values c))"

definition effective_rr :: "setup_scenario \<Rightarrow> cost_rates \<Rightarrow> jsnum" where
  "effective_rr s costs =
     costAdjustedRr \<lparr> rr_entry = worst_entry (sn_direction s) (sn_levels s), rr_stopLoss = lv_stopLoss (sn_levels s),
       rr_takeProfit = lv_target1 (sn_levels s), rr_side = sn_direction s, rr_fundingRate = None, rr_fundingIntervals = None \<rparr> costs"

definition checks_of :: "setup_scenario \<Rightarrow> setup_map \<Rightarrow> cost_rates \<Rightarrow> jsnum \<Rightarrow> setup_checks" where
  "checks_of s m costs now =
     \<lparr> ck_structure = structureCheck m s, ck_location = locationCheck s, ck_trigger = triggerCheck s, ck_evidence = evidenceCheck s,
       ck_flow = flowCheck s (sm_flow m), ck_rr = rrCheck (effective_rr s costs), ck_freshness = freshnessCheck s now \<rparr>"

definition assessScenario :: "setup_scenario \<Rightarrow> setup_map \<Rightarrow> cost_rates \<Rightarrow> jsnum \<Rightarrow> setup_quality" where
  "assessScenario s m costs now =
     (let effectiveRr = effective_rr s costs; checks = checks_of s m costs now
      in if FAIL \<in> set (hard_values checks)
         then \<lparr> sq_verdict = REFUSED, sq_checks = checks, sq_effectiveRr = effectiveRr, sq_reasons = reasonsFor checks s \<rparr>
         else if ck_trigger checks = PASS \<and> map_option lf_entryState (sn_lifecycle s) = Some IN_ENTRY_ZONE \<and> weak_count checks \<le> maxWeakChecks
         then \<lparr> sq_verdict = ENTRY_ELIGIBLE, sq_checks = checks, sq_effectiveRr = effectiveRr, sq_reasons = [] \<rparr>
         else \<lparr> sq_verdict = WATCH, sq_checks = checks, sq_effectiveRr = effectiveRr,
                sq_reasons = (if ck_trigger checks = PASS \<and> weak_count checks > maxWeakChecks then [INSUFFICIENT_CONFIRMATION] else []) \<rparr>)"

section \<open>The pass over a map\<close>

definition annotate_scenario :: "market_state \<Rightarrow> setup_map \<Rightarrow> cost_rates \<Rightarrow> setup_scenario \<Rightarrow> setup_scenario" where
  "annotate_scenario st m costs s =
     (let base = s\<lparr> sn_locationAtEntry := locationAtEntry st (sn_levels s), sn_evidence := sweepEvidence st s (atr15_of st) \<rparr>
      in base\<lparr> sn_quality := Some (assessScenario base m costs (sm_generatedAt m)) \<rparr>)"

definition annotateSetupMap :: "market_state \<Rightarrow> setup_map \<Rightarrow> flow_context option \<Rightarrow> cost_rates \<Rightarrow> setup_map" where
  "annotateSetupMap st m flow costs =
     (let withFlow = m\<lparr> sm_flow := flow \<rparr>
      in withFlow\<lparr> sm_scenarios := map (annotate_scenario st withFlow costs) (sm_scenarios m) \<rparr>)"

section \<open>What an eligible setup is\<close>

definition verdict_of :: "setup_scenario \<Rightarrow> setup_verdict option" where
  "verdict_of s = map_option sq_verdict (sn_quality s)"

definition entry_ready :: "cost_rates \<Rightarrow> jsnum \<Rightarrow> setup_scenario \<Rightarrow> bool" where
  "entry_ready costs now s \<longleftrightarrow>
     sn_state s = TRIGGERED
     \<and> (case sn_lifecycle s of None \<Rightarrow> False | Some life \<Rightarrow> lf_entryState life = IN_ENTRY_ZONE \<and> \<not> now \<ge> lf_expiresAt life)
     \<and> is_finite (effective_rr s costs) \<and> 1 \<le> effective_rr s costs
     \<and> (case sn_quality s of None \<Rightarrow> False
        | Some q \<Rightarrow> FAIL \<notin> set (check_values (sq_checks q)) \<and> weak_count (sq_checks q) \<le> 1 \<and> sq_reasons q = [])"

lemma trigger_pass: "triggerCheck s = PASS \<longleftrightarrow> sn_state s = TRIGGERED"
  by (simp add: triggerCheck_def split: live_state.splits)

lemma rr_not_fail: "rrCheck x \<noteq> FAIL \<longleftrightarrow> is_finite x \<and> 1 \<le> x"
  by (cases x) (auto simp: rrCheck_def effectiveRrPass_def effectiveRrWeak_def)

lemma fresh_not_fail:
  "freshnessCheck s now \<noteq> FAIL \<longleftrightarrow>
     (case sn_lifecycle s of None \<Rightarrow> True | Some life \<Rightarrow> lf_entryState life \<noteq> ENTRY_MISSED \<and> \<not> now \<ge> lf_expiresAt life)"
  by (auto simp: freshnessCheck_def Let_def split: option.splits)

lemma assess_checks: "sq_checks (assessScenario s m costs now) = checks_of s m costs now"
  by (simp add: assessScenario_def Let_def)

lemma eligible_iff:
  "sq_verdict (assessScenario s m costs now) = ENTRY_ELIGIBLE \<longleftrightarrow>
     FAIL \<notin> set (check_values (checks_of s m costs now)) \<and> ck_trigger (checks_of s m costs now) = PASS
     \<and> map_option lf_entryState (sn_lifecycle s) = Some IN_ENTRY_ZONE \<and> weak_count (checks_of s m costs now) \<le> 1"
  by (auto simp: assessScenario_def check_values_def maxWeakChecks_def Let_def)

lemma eligible_reasons: "sq_verdict (assessScenario s m costs now) = ENTRY_ELIGIBLE \<Longrightarrow> sq_reasons (assessScenario s m costs now) = []"
  by (auto simp: assessScenario_def Let_def split: if_splits)

lemma effective_rr_quality [simp]:
  "effective_rr (s\<lparr> sn_quality := q \<rparr>) costs = effective_rr s costs"
  "effective_rr (s\<lparr> sn_locationAtEntry := a, sn_evidence := e \<rparr>) costs = effective_rr s costs"
  by (simp_all add: effective_rr_def)

lemma annotate_fields [simp]:
  "sn_state (annotate_scenario st m costs s) = sn_state s"
  "sn_levels (annotate_scenario st m costs s) = sn_levels s"
  "sn_lifecycle (annotate_scenario st m costs s) = sn_lifecycle s"
  "sn_direction (annotate_scenario st m costs s) = sn_direction s"
  "sn_id (annotate_scenario st m costs s) = sn_id s"
  "sn_thesisRole (annotate_scenario st m costs s) = sn_thesisRole s"
  by (simp_all add: annotate_scenario_def Let_def)

lemma eligible_ready:
  assumes "verdict_of (annotate_scenario st m costs s) = Some ENTRY_ELIGIBLE"
  shows "entry_ready costs (sm_generatedAt m) (annotate_scenario st m costs s)"
proof -
  let ?b = "s\<lparr> sn_locationAtEntry := locationAtEntry st (sn_levels s), sn_evidence := sweepEvidence st s (atr15_of st) \<rparr>"
  have v: "sq_verdict (assessScenario ?b m costs (sm_generatedAt m)) = ENTRY_ELIGIBLE"
    using assms by (simp add: verdict_of_def annotate_scenario_def Let_def)
  note e = v [unfolded eligible_iff]
  then have "rrCheck (effective_rr ?b costs) \<noteq> FAIL" "freshnessCheck ?b (sm_generatedAt m) \<noteq> FAIL" "triggerCheck ?b = PASS"
    by (auto simp: check_values_def hard_values_def checks_of_def)
  with e eligible_reasons [OF v] show ?thesis
    by (auto simp: entry_ready_def annotate_scenario_def assess_checks trigger_pass rr_not_fail fresh_not_fail Let_def split: option.splits)
qed

section \<open>Properties\<close>

text \<open>
  C27. An entry is called eligible only when it can be taken: in any annotated map, a scenario with that verdict is
  triggered, has price inside its pinned entry zone, has not expired, keeps a finite reward-to-risk of at least one
  after costs from the worst price of its zone, and passes every check with at most one weak.
\<close>

theorem eligible_setups_are_executable:
  assumes "s \<in> set (sm_scenarios (annotateSetupMap st m flow costs))" and "verdict_of s = Some ENTRY_ELIGIBLE"
  shows "entry_ready costs (sm_generatedAt m) s"
  using assms eligible_ready [of st "m\<lparr> sm_flow := flow \<rparr>" costs] by (auto simp: annotateSetupMap_def Let_def)

text \<open>
  Every refusal is explained and final verdicts are total: a refused scenario names at least one reason, an
  eligible one none, and a forming trigger alone never refuses.
\<close>

theorem verdicts_explain_themselves:
  "case sq_verdict (assessScenario s m costs now) of
     REFUSED \<Rightarrow> sq_reasons (assessScenario s m costs now) \<noteq> [] \<and> FAIL \<in> set (hard_values (checks_of s m costs now))
   | ENTRY_ELIGIBLE \<Rightarrow> sq_reasons (assessScenario s m costs now) = [] \<and> sn_state s = TRIGGERED
   | WATCH \<Rightarrow> FAIL \<notin> set (hard_values (checks_of s m costs now))"
  by (auto simp: assessScenario_def reasonsFor_def hard_values_def checks_of_def trigger_pass Let_def split: setup_verdict.splits)

end
