(* ===== verification/Thesis.thy ===== *)
theory Thesis
  imports SetupQuality Interfaces
begin

text \<open>
  One directional thesis per symbol (\<open>src/decision/ThesisController.ts\<close>). The map of theses is a function from
  symbols.
\<close>

section \<open>The controller\<close>

record thesis =
  th_direction :: side
  th_since :: jsnum
  th_invalidation :: jsnum
  th_expiresAt :: jsnum
  th_highestState :: live_state
  th_emptyCycles :: nat

type_synonym theses = "string \<Rightarrow> thesis option"

definition THESIS_EMPTY_GRACE_CYCLES :: nat where "THESIS_EMPTY_GRACE_CYCLES = 3"

definition breached :: "thesis \<Rightarrow> jsnum \<Rightarrow> bool" where
  "breached t mark = (if th_direction t = LONG then mark \<le> th_invalidation t else mark \<ge> th_invalidation t)"

definition strongest :: "setup_scenario list \<Rightarrow> setup_scenario option" where
  "strongest ss = first_by stronger ss"

definition expiry_or :: "jsnum \<Rightarrow> setup_scenario \<Rightarrow> jsnum" where
  "expiry_or fallback s = (case sn_lifecycle s of Some l \<Rightarrow> lf_expiresAt l | None \<Rightarrow> fallback)"

definition flipReason :: "thesis \<Rightarrow> setup_map \<Rightarrow> setup_scenario \<Rightarrow> flip_reason option" where
  "flipReason active m lead =
     (if breached active (sm_mark m) then Some INVALIDATION_BREACHED
      else if sm_generatedAt m \<ge> th_expiresAt active then Some THESIS_EXPIRED
      else if sn_state lead = TRIGGERED \<and> live_rank (th_highestState active) < live_rank TRIGGERED then Some OPPOSING_TRIGGER
      else None)"

definition stamp_role :: "side \<Rightarrow> setup_scenario \<Rightarrow> setup_scenario" where
  "stamp_role d s = s\<lparr> sn_thesisRole := Some (if sn_direction s = d then AUTHORITATIVE else COMPETING) \<rparr>"

definition stamp :: "setup_map \<Rightarrow> side \<Rightarrow> setup_map" where
  "stamp m d = m\<lparr> sm_scenarios := map (stamp_role d) (sm_scenarios m) \<rparr>"

definition adopt :: "theses \<Rightarrow> setup_map \<Rightarrow> setup_scenario \<Rightarrow> jsnum \<Rightarrow> theses \<times> setup_map" where
  "adopt ts m lead now =
     (let mine = filter (\<lambda>s. sn_direction s = sn_direction lead) (sm_scenarios m)
      in (ts(sm_symbol m \<mapsto>
            \<lparr> th_direction = sn_direction lead, th_since = now, th_invalidation = lv_stopLoss (sn_levels lead),
              th_expiresAt = math_max_list (map (expiry_or now) mine), th_highestState = sn_state lead, th_emptyCycles = 0 \<rparr>),
          stamp m (sn_direction lead)))"

definition refresh :: "theses \<Rightarrow> setup_map \<Rightarrow> thesis \<Rightarrow> setup_scenario \<Rightarrow> theses \<times> setup_map" where
  "refresh ts m active lead =
     (ts(sm_symbol m \<mapsto> active\<lparr>
          th_emptyCycles := 0,
          th_highestState := (if live_rank (sn_state lead) > live_rank (th_highestState active) then sn_state lead else th_highestState active),
          th_invalidation := (if sn_direction lead = LONG then math_max (th_invalidation active) (lv_stopLoss (sn_levels lead))
                              else math_min (th_invalidation active) (lv_stopLoss (sn_levels lead))),
          th_expiresAt := math_max_list (th_expiresAt active # map (expiry_or 0) (sm_scenarios m)) \<rparr>),
      stamp m (th_direction active))"

definition idle :: "theses \<Rightarrow> setup_map \<Rightarrow> theses \<times> setup_map" where
  "idle ts m =
     (case ts (sm_symbol m) of
        None \<Rightarrow> (ts, m)
      | Some active \<Rightarrow>
          (let active' = active\<lparr> th_emptyCycles := th_emptyCycles active + 1 \<rparr>
           in (if breached active' (sm_mark m) \<or> sm_generatedAt m \<ge> th_expiresAt active' \<or> th_emptyCycles active' > THESIS_EMPTY_GRACE_CYCLES
               then ts(sm_symbol m := None) else ts(sm_symbol m \<mapsto> active'), m)))"

definition withhold :: "setup_map \<Rightarrow> thesis \<Rightarrow> setup_map" where
  "withhold m active =
     (let competing = filter (\<lambda>s. sn_direction s \<noteq> th_direction active) (sm_scenarios m);
          kept = filter (\<lambda>s. sn_direction s = th_direction active) (sm_scenarios m)
      in m\<lparr> sm_scenarios := kept, sm_withheldIds := map sn_id competing,
            sm_state := (if kept = [] then NO_TRADE else sm_state m),
            sm_noTradeReasons := take 3 (CompetingWithheld (sn_direction (hd competing)) (th_direction active) # sm_noTradeReasons m) \<rparr>)"

definition thesis_apply :: "theses \<Rightarrow> setup_map \<Rightarrow> theses \<times> setup_map" where
  "thesis_apply ts m =
     (case strongest (sm_scenarios m) of
        None \<Rightarrow> idle ts m
      | Some lead \<Rightarrow>
          (case ts (sm_symbol m) of
             None \<Rightarrow> adopt ts m lead (sm_generatedAt m)
           | Some active \<Rightarrow>
               if sn_direction lead = th_direction active then refresh ts m active lead
               else
                 (case flipReason active m lead of
                    None \<Rightarrow> (ts, withhold m active)
                  | Some reason \<Rightarrow>
                      (let (ts', m') = adopt ts m lead (sm_generatedAt m)
                       in (ts', m'\<lparr> sm_thesisTransition := Some \<lparr> tt_from = th_direction active, tt_to = sn_direction lead,
                            tt_reason = reason, tt_at = sm_generatedAt m \<rparr> \<rparr>)))))"

section \<open>What the controller promises\<close>

lemma adopt_simps [simp]:
  "snd (adopt ts m lead now) = stamp m (sn_direction lead)"
  "map_option th_direction (fst (adopt ts m lead now) (sm_symbol m)) = Some (sn_direction lead)"
  by (simp_all add: adopt_def Let_def)

lemma stamp_direction [simp]: "sn_direction (stamp_role d s) = sn_direction s"
  by (simp add: stamp_role_def)

text \<open>A reason that justifies leaving a thesis.\<close>

definition flip_justified :: "thesis \<Rightarrow> setup_map \<Rightarrow> flip_reason \<Rightarrow> bool" where
  "flip_justified t m r \<longleftrightarrow>
     (case r of
        INVALIDATION_BREACHED \<Rightarrow> breached t (sm_mark m)
      | THESIS_EXPIRED \<Rightarrow> th_expiresAt t \<le> sm_generatedAt m
      | OPPOSING_TRIGGER \<Rightarrow> th_highestState t \<noteq> TRIGGERED
          \<and> list_ex (\<lambda>s. sn_state s = TRIGGERED \<and> sn_direction s \<noteq> th_direction t) (sm_scenarios m))"

lemma flipReason_justified:
  assumes "flipReason t m lead = Some r" and "lead \<in> set (sm_scenarios m)" and "sn_direction lead \<noteq> th_direction t"
  shows "flip_justified t m r"
  using assms by (auto simp: flipReason_def flip_justified_def list_ex_iff split: if_splits)

lemma strongest_mem: "strongest ss = Some s \<Longrightarrow> s \<in> set ss"
  using first_by_mem by (auto simp: strongest_def)

lemma strongest_None: "strongest ss = None \<longleftrightarrow> ss = []"
  by (simp add: strongest_def first_by_None)

text \<open>
  \<open>thesis_step_ok t m t' m'\<close>: an application that keeps the direction of the thesis, drops it, or flips it for a
  reason that is recorded and justified.
\<close>

definition thesis_step_ok :: "thesis \<Rightarrow> setup_map \<Rightarrow> thesis option \<Rightarrow> setup_map \<Rightarrow> bool" where
  "thesis_step_ok t m t' m' \<longleftrightarrow>
     (case t' of
        None \<Rightarrow> sm_scenarios m = [] \<and> (breached t (sm_mark m) \<or> th_expiresAt t \<le> sm_generatedAt m \<or> THESIS_EMPTY_GRACE_CYCLES \<le> th_emptyCycles t)
      | Some u \<Rightarrow> th_direction u = th_direction t
          \<or> (\<exists>tr. sm_thesisTransition m' = Some tr \<and> tt_from tr = th_direction t \<and> tt_to tr = th_direction u
               \<and> flip_justified t m (tt_reason tr)))"

lemma thesis_apply_step:
  assumes "ts (sm_symbol m) = Some t"
  shows "thesis_step_ok t m (fst (thesis_apply ts m) (sm_symbol m)) (snd (thesis_apply ts m))"
proof (cases "strongest (sm_scenarios m)")
  case None
  moreover from this have "sm_scenarios m = []" by (simp add: strongest_None)
  ultimately show ?thesis using assms
    by (simp add: thesis_apply_def idle_def thesis_step_ok_def breached_def Let_def)
next
  case (Some lead)
  show ?thesis
  proof (cases "flipReason t m lead")
    case n: None
    then show ?thesis using assms Some by (auto simp: thesis_apply_def refresh_def thesis_step_ok_def)
  next
    case r: (Some r)
    have "sn_direction lead \<noteq> th_direction t \<Longrightarrow> flip_justified t m r"
      using flipReason_justified [OF r strongest_mem [OF Some]] .
    then show ?thesis using assms Some r
      by (auto simp: thesis_apply_def refresh_def thesis_step_ok_def adopt_def Let_def)
  qed
qed

lemma authority:
  "list_all (\<lambda>s. sn_thesisRole s = Some COMPETING
      \<or> map_option th_direction (fst (thesis_apply ts m) (sm_symbol m)) = Some (sn_direction s))
    (sm_scenarios (snd (thesis_apply ts m)))"
  by (auto simp: thesis_apply_def list_all_iff refresh_def adopt_def stamp_def stamp_role_def withhold_def idle_def Let_def strongest_None
      split: option.splits)

text \<open>Every scenario handed on is one that came in, at most its role changed.\<close>

lemma thesis_scenarios:
  "s \<in> set (sm_scenarios (snd (thesis_apply ts m))) \<Longrightarrow>
     \<exists>s0\<in>set (sm_scenarios m). s = s0 \<or> (\<exists>d. s = stamp_role d s0)"
  by (auto simp: thesis_apply_def refresh_def adopt_def stamp_def withhold_def idle_def Let_def
      split: option.splits if_splits)

section \<open>Properties\<close>

text \<open>
  C28. A thesis changes direction only for a recorded, justified reason: after any map, the symbol's thesis keeps its
  direction, or is released on an empty map because it was breached, had expired or had been empty for three cycles,
  or has flipped with a transition in the map whose reason holds: the invalidation was breached, the thesis had
  expired, or an opposing scenario is triggered while the thesis never was.
\<close>

theorem thesis_flips_for_a_reason:
  assumes "ts (sm_symbol m) = Some t"
  shows "thesis_step_ok t m (fst (thesis_apply ts m) (sm_symbol m)) (snd (thesis_apply ts m))"
  using assms by (rule thesis_apply_step)

definition demo_thesis :: thesis where
  "demo_thesis = \<lparr> th_direction = LONG, th_since = 0, th_invalidation = Fin 101, th_expiresAt = Fin 20000000, th_highestState = ARMED,
     th_emptyCycles = 0 \<rparr>"

theorem thesis_flips_for_a_reason_witness:
  "thesis_step_ok demo_thesis (buildSetupMap demo_short_market (Fin (3/2)))
     (fst (thesis_apply (\<lambda>_. Some demo_thesis) (buildSetupMap demo_short_market (Fin (3/2))))
        (sm_symbol (buildSetupMap demo_short_market (Fin (3/2)))))
     (snd (thesis_apply (\<lambda>_. Some demo_thesis) (buildSetupMap demo_short_market (Fin (3/2)))))"
  by (rule thesis_flips_for_a_reason) simp

text \<open>
  Only one direction is ever authoritative: every scenario the controller hands on either points with the thesis in
  force afterwards or is marked as competing.
\<close>

theorem one_direction_is_authoritative:
  "list_all (\<lambda>s. sn_thesisRole s = Some COMPETING
      \<or> map_option th_direction (fst (thesis_apply ts m) (sm_symbol m)) = Some (sn_direction s))
    (sm_scenarios (snd (thesis_apply ts m)))"
  by (rule authority)

text \<open>
  A breach does not kill a thesis that still has a scenario on its side: while the strongest scenario points with
  the thesis, the thesis is kept, its direction too, wherever the mark lies against its invalidation and however long
  ago it expired.
\<close>

theorem breached_thesis_is_refreshed:
  assumes "ts (sm_symbol m) = Some t" and "strongest (sm_scenarios m) = Some lead" and "sn_direction lead = th_direction t"
    and "breached t (sm_mark m)"
  shows "map_option th_direction (fst (thesis_apply ts m) (sm_symbol m)) = Some (th_direction t)"
  using assms by (simp add: thesis_apply_def refresh_def)

end
