(* ===== verification/SetupLedger.thy ===== *)
theory SetupLedger
  imports SetupTypes Interfaces
begin

text \<open>
  The ledger that gives setups an identity (\<open>src/decision/SetupLedger.ts\<close>). The key \<open>symbol|id\<close> is kept as a pair.
\<close>

section \<open>The ledger\<close>

definition TOMBSTONE_TTL_MS :: jsnum where "TOMBSTONE_TTL_MS = Fin 86400000"

definition ENTRY_MISSED_ATR :: jsnum where "ENTRY_MISSED_ATR = Fin (3 / 2)"

definition SOFT_LOSS_GRACE_CYCLES :: nat where "SOFT_LOSS_GRACE_CYCLES = 3"

datatype terminal = EXPIRED | INVALIDATED

datatype setup_transition =
    Created setup_key live_state
  | Advanced setup_key live_state live_state
  | Retired terminal setup_key live_state

record ledger_entry =
  le_createdAt :: jsnum
  le_expiresAt :: jsnum
  le_state :: live_state
  le_lastSeen :: jsnum
  le_missedCycles :: nat
  le_frozen :: levels

record setup_ledger =
  sl_live :: "(setup_key \<times> ledger_entry) list"
  sl_dead :: "(setup_key \<times> (terminal \<times> jsnum)) list"

definition mapState :: "setup_scenario list \<Rightarrow> setup_state" where
  "mapState ss =
     (if ss = [] then NO_TRADE
      else (let top = Max (set (map (live_rank \<circ> sn_state) ss))
            in Live (if top = 2 then TRIGGERED else if top = 1 then ARMED else FORMING)))"

definition entryStateOf :: "side \<Rightarrow> levels \<Rightarrow> jsnum \<Rightarrow> jsnum \<Rightarrow> entry_state" where
  "entryStateOf dir l mark atr =
     (if lv_entryLow l \<le> mark \<and> mark \<le> lv_entryHigh l then IN_ENTRY_ZONE
      else (let away = (if dir = LONG then mark - lv_entryHigh l else lv_entryLow l - mark)
            in if 0 < away \<and> 0 < atr \<and> ENTRY_MISSED_ATR < away / atr then ENTRY_MISSED else WAITING_ENTRY))"

definition evictTombstones :: "jsnum \<Rightarrow> setup_ledger \<Rightarrow> setup_ledger" where
  "evictTombstones now l = l\<lparr> sl_dead := filter (\<lambda>(k, r, t). \<not> TOMBSTONE_TTL_MS < now - t) (sl_dead l) \<rparr>"

definition retire :: "setup_key \<Rightarrow> terminal \<Rightarrow> jsnum \<Rightarrow> setup_ledger \<Rightarrow> setup_ledger" where
  "retire k why now l = l\<lparr> sl_live := AList.delete k (sl_live l), sl_dead := AList.update k (why, now) (sl_dead l) \<rparr>"

definition new_entry :: "jsnum \<Rightarrow> setup_scenario \<Rightarrow> ledger_entry" where
  "new_entry now s =
     \<lparr> le_createdAt = now, le_expiresAt = math_min (sn_sourceTime s) now + em_thesisExpiryMinutes (sn_expectedMove s) * 60000,
       le_state = sn_state s, le_lastSeen = now, le_missedCycles = 0, le_frozen = sn_levels s \<rparr>"

definition stamped :: "setup_key \<Rightarrow> ledger_entry \<Rightarrow> jsnum \<Rightarrow> jsnum \<Rightarrow> setup_scenario \<Rightarrow> setup_scenario" where
  "stamped k e mark atr s =
     s\<lparr> sn_levels := le_frozen e, sn_state := le_state e,
        sn_lifecycle := Some \<lparr> lf_setupId = k, lf_version = 1, lf_createdAt = le_createdAt e, lf_expiresAt = le_expiresAt e,
          lf_highestState = le_state e, lf_entryState = entryStateOf (sn_direction s) (le_frozen e) mark atr, lf_missedCycles = 0 \<rparr> \<rparr>"

record ledger_pass =
  lp_ledger :: setup_ledger
  lp_kept :: "setup_scenario list"
  lp_out :: "setup_transition list"

text \<open>A scenario that lives on is marked as seen and handed on with its pinned levels.\<close>

definition keep :: "setup_map \<Rightarrow> jsnum \<Rightarrow> setup_key \<Rightarrow> ledger_entry \<Rightarrow> setup_scenario \<Rightarrow> setup_transition list \<Rightarrow> ledger_pass \<Rightarrow> ledger_pass" where
  "keep m atr k e s out p =
     (let e' = e\<lparr> le_lastSeen := sm_generatedAt m, le_missedCycles := 0 \<rparr>; l = lp_ledger p
      in \<lparr> lp_ledger = l\<lparr> sl_live := AList.update k e' (sl_live l) \<rparr>,
           lp_kept = lp_kept p @ [stamped k e' (sm_mark m) atr s], lp_out = lp_out p @ out \<rparr>)"

definition see :: "setup_map \<Rightarrow> jsnum \<Rightarrow> ledger_pass \<Rightarrow> setup_scenario \<Rightarrow> ledger_pass" where
  "see m atr p s =
     (let now = sm_generatedAt m; k = (sm_symbol m, sn_id s); l = lp_ledger p
      in if map_of (sl_dead l) k \<noteq> None then p
         else case map_of (sl_live l) k of
             None \<Rightarrow>
               (let e = new_entry now s
                in if le_expiresAt e \<le> now then p\<lparr> lp_ledger := l\<lparr> sl_dead := AList.update k (EXPIRED, now) (sl_dead l) \<rparr> \<rparr>
                   else keep m atr k e s [Created k (sn_state s)] p)
           | Some e \<Rightarrow>
               if le_expiresAt e \<le> now
               then p\<lparr> lp_ledger := retire k EXPIRED now l, lp_out := lp_out p @ [Retired EXPIRED k (le_state e)] \<rparr>
               else if live_rank (le_state e) < live_rank (sn_state s)
               then keep m atr k (e\<lparr> le_state := sn_state s \<rparr>) s [Advanced k (le_state e) (sn_state s)] p
               else keep m atr k e s [] p)"

definition miss :: "setup_map \<Rightarrow> ledger_pass \<Rightarrow> setup_key \<times> ledger_entry \<Rightarrow> ledger_pass" where
  "miss m p ke =
     (let k = fst ke; e = snd ke; now = sm_generatedAt m; l = lp_ledger p; n = le_missedCycles e + 1
      in if fst k \<noteq> sm_symbol m \<or> k \<in> set (map (\<lambda>s. (sm_symbol m, sn_id s)) (sm_scenarios m)) then p
         else if k \<in> set (map (\<lambda>i. (sm_symbol m, i)) (sm_invalidatedIds m)) \<or> SOFT_LOSS_GRACE_CYCLES < n
         then p\<lparr> lp_ledger := retire k INVALIDATED now l, lp_out := lp_out p @ [Retired INVALIDATED k (le_state e)] \<rparr>
         else if le_expiresAt e \<le> now
         then p\<lparr> lp_ledger := retire k EXPIRED now l, lp_out := lp_out p @ [Retired EXPIRED k (le_state e)] \<rparr>
         else p\<lparr> lp_ledger := l\<lparr> sl_live := AList.update k (e\<lparr> le_missedCycles := n \<rparr>) (sl_live l) \<rparr> \<rparr>)"

definition usable :: "setup_scenario \<Rightarrow> bool" where
  "usable s \<longleftrightarrow> map_option lf_entryState (sn_lifecycle s) \<noteq> Some ENTRY_MISSED"

text \<open>One application of the ledger: its new state, the map it hands on, and the material events.\<close>

definition ledger_apply :: "jsnum \<Rightarrow> setup_ledger \<Rightarrow> setup_map \<Rightarrow> setup_ledger \<times> setup_map \<times> setup_transition list" where
  "ledger_apply atr l m =
     (let p0 = \<lparr> lp_ledger = evictTombstones (sm_generatedAt m) l, lp_kept = [], lp_out = [] \<rparr>;
          p1 = foldl (see m atr) p0 (sm_scenarios m);
          p2 = foldl (miss m) p1 (sl_live (lp_ledger p1));
          good = filter usable (lp_kept p2);
          missed = (if length good < length (lp_kept p2) then [EntryMissedText] else [])
      in (lp_ledger p2,
          m\<lparr> sm_scenarios := good, sm_state := mapState good, sm_noTradeReasons := take 3 (missed @ sm_noTradeReasons m) \<rparr>,
          lp_out p2))"

definition ledger_step :: "setup_ledger \<Rightarrow> jsnum \<times> setup_map \<Rightarrow> setup_ledger" where
  "ledger_step l am = fst (ledger_apply (fst am) l (snd am))"

section \<open>One life per setup\<close>

text \<open>
  \<open>advanced e e'\<close>: the same setup, its expiry and levels as at first sight, its state no lower.
  \<open>fate k T e l\<close>: from time \<open>T\<close> on, the setup \<open>k\<close> last seen as \<open>e\<close> is live and advanced, or buried.
\<close>

definition advanced :: "ledger_entry \<Rightarrow> ledger_entry \<Rightarrow> bool" where
  "advanced e e' \<longleftrightarrow> le_createdAt e' = le_createdAt e \<and> le_expiresAt e' = le_expiresAt e \<and> le_frozen e' = le_frozen e
     \<and> live_rank (le_state e) \<le> live_rank (le_state e')"

definition buried :: "setup_key \<Rightarrow> real \<Rightarrow> setup_ledger \<Rightarrow> bool" where
  "buried k T l \<longleftrightarrow> map_of (sl_live l) k = None \<and> (\<exists>r a. map_of (sl_dead l) k = Some (r, Fin a) \<and> T \<le> a)"

definition fate :: "setup_key \<Rightarrow> real \<Rightarrow> ledger_entry \<Rightarrow> setup_ledger \<Rightarrow> bool" where
  "fate k T e l \<longleftrightarrow> (\<forall>e'. (k, e') \<in> set (sl_live l) \<longrightarrow> advanced e e') \<and>
     (map_of (sl_live l) k \<noteq> None \<and> map_of (sl_dead l) k = None \<or> buried k T l)"

definition in_window :: "real \<Rightarrow> setup_map \<Rightarrow> bool" where
  "in_window T m \<longleftrightarrow> Fin T \<le> sm_generatedAt m \<and> sm_generatedAt m \<le> Fin (T + 86400000)"

text \<open>The scenarios handed on for the setup carry its pinned levels, expiry and a state no lower.\<close>

definition true_to :: "setup_key \<Rightarrow> ledger_entry \<Rightarrow> setup_map \<Rightarrow> setup_scenario \<Rightarrow> bool" where
  "true_to k e m s \<longleftrightarrow> ((sm_symbol m, sn_id s) = k \<longrightarrow>
     sn_levels s = le_frozen e \<and> map_option lf_expiresAt (sn_lifecycle s) = Some (le_expiresAt e) \<and> live_rank (le_state e) \<le> live_rank (sn_state s))"

lemma in_windowE: "in_window T m \<Longrightarrow> (\<And>g. sm_generatedAt m = Fin g \<Longrightarrow> T \<le> g \<Longrightarrow> g \<le> T + 86400000 \<Longrightarrow> P) \<Longrightarrow> P"
  by (cases "sm_generatedAt m") (auto simp: in_window_def)

lemma map_of_filter_None: "map_of xs k = None \<Longrightarrow> map_of (filter P xs) k = None"
  by (induction xs) (auto split: if_splits)

lemma map_of_filter_Some: "map_of xs k = Some v \<Longrightarrow> P (k, v) \<Longrightarrow> map_of (filter P xs) k = Some v"
  by (induction xs) (auto split: if_splits)

lemma evict_fate:
  assumes "fate k T e l" and "in_window T m"
  shows "fate k T e (evictTombstones (sm_generatedAt m) l)"
  using assms(2)
proof (rule in_windowE)
  fix g
  assume g: "sm_generatedAt m = Fin g" "T \<le> g" "g \<le> T + 86400000"
  let ?P = "\<lambda>(k, r, t). \<not> TOMBSTONE_TTL_MS < Fin g - t"
  have "map_of (filter ?P (sl_dead l)) k = Some (r, Fin a)" if "map_of (sl_dead l) k = Some (r, Fin a)" "T \<le> a" for r a
    using that g by (intro map_of_filter_Some) (simp_all add: TOMBSTONE_TTL_MS_def)
  then show ?thesis using assms(1) map_of_filter_None [of "sl_dead l" k ?P] g(1)
    by (auto simp: fate_def buried_def evictTombstones_def)
qed

lemma live_update_all:
  assumes "\<forall>e'. (k, e') \<in> set xs \<longrightarrow> P e'" and "k = k' \<Longrightarrow> P v"
  shows "\<forall>e'. (k, e') \<in> set (AList.update k' v xs) \<longrightarrow> P e'"
  using assms set_update_subset [of k' v xs] by auto

lemma live_delete_all:
  assumes "\<forall>e'. (k, e') \<in> set xs \<longrightarrow> P e'"
  shows "\<forall>e'. (k, e') \<in> set (AList.delete k' xs) \<longrightarrow> P e'"
  using assms set_delete_subset [of k' xs] by auto

lemma update_live_fate:
  assumes "fate k T e l" and "k = k' \<Longrightarrow> advanced e v" and "k = k' \<Longrightarrow> map_of (sl_dead l) k = None"
  shows "fate k T e (l\<lparr> sl_live := AList.update k' v (sl_live l) \<rparr>)"
  using assms live_update_all [of k "sl_live l" "advanced e" k' v]
  by (auto simp: fate_def buried_def update_conv')

lemma retire_fate:
  assumes "fate k T e l" and "T \<le> g"
  shows "fate k T e (retire k' why (Fin g) l)"
  using assms live_delete_all [of k "sl_live l" "advanced e" k']
  by (auto simp: fate_def buried_def retire_def update_conv' delete_conv')

lemma advanced_refl [simp]: "advanced e e"
  by (simp add: advanced_def)

lemma advanced_trans: "advanced a b \<Longrightarrow> advanced b c \<Longrightarrow> advanced a c"
  by (auto simp: advanced_def)

definition pass_true :: "setup_key \<Rightarrow> real \<Rightarrow> ledger_entry \<Rightarrow> setup_map \<Rightarrow> ledger_pass \<Rightarrow> bool" where
  "pass_true k T e m p \<longleftrightarrow> fate k T e (lp_ledger p) \<and> list_all (true_to k e m) (lp_kept p)"

lemma keep_true:
  assumes "pass_true k T e m p" and "k = (sm_symbol m, sn_id s) \<Longrightarrow> advanced e e'"
    and "k = (sm_symbol m, sn_id s) \<Longrightarrow> map_of (sl_dead (lp_ledger p)) k = None"
  shows "pass_true k T e m (keep m atr (sm_symbol m, sn_id s) e' s out p)"
proof -
  let ?v = "e'\<lparr> le_lastSeen := sm_generatedAt m, le_missedCycles := 0 \<rparr>"
  have "true_to k e m (stamped (sm_symbol m, sn_id s) ?v (sm_mark m) atr s)"
    using assms(2) by (auto simp: true_to_def stamped_def advanced_def)
  moreover have "k = (sm_symbol m, sn_id s) \<Longrightarrow> advanced e ?v" using assms(2) by (simp add: advanced_def)
  ultimately show ?thesis using assms(1,3) update_live_fate [of k T e "lp_ledger p" "(sm_symbol m, sn_id s)" ?v]
    by (auto simp: pass_true_def keep_def Let_def)
qed

lemma see_true:
  assumes "pass_true k T e m p" and "in_window T m"
  shows "pass_true k T e m (see m atr p s)"
  using assms(2)
proof (rule in_windowE)
  fix g
  assume g: "sm_generatedAt m = Fin g" "T \<le> g" "g \<le> T + 86400000"
  let ?k = "(sm_symbol m, sn_id s)" and ?l = "lp_ledger p"
  have f: "fate k T e ?l" "list_all (true_to k e m) (lp_kept p)" using assms(1) by (simp_all add: pass_true_def)
  show ?thesis
  proof (cases "map_of (sl_dead ?l) ?k")
    case (Some d)
    then show ?thesis using assms(1) by (simp add: see_def Let_def)
  next
    case None
    show ?thesis
    proof (cases "map_of (sl_live ?l) ?k")
      case n: None
      then have "k \<noteq> ?k" using f(1) None by (auto simp: fate_def buried_def)
      moreover from this have "fate k T e (?l\<lparr> sl_dead := AList.update ?k (EXPIRED, Fin g) (sl_dead ?l) \<rparr>)"
        using f(1) by (auto simp: fate_def buried_def update_conv')
      ultimately show ?thesis using None n f g(1) keep_true [OF assms(1), of s "new_entry (Fin g) s"]
        by (auto simp: see_def Let_def pass_true_def)
    next
      case (Some e')
      have adv: "advanced e e'" if "k = ?k" using f(1) that map_of_SomeD [OF Some] by (auto simp: fate_def)
      then have up: "advanced e (e'\<lparr> le_state := sn_state s \<rparr>)" if "live_rank (le_state e') < live_rank (sn_state s)" "k = ?k"
        using that by (auto simp: advanced_def)
      have "pass_true k T e m (keep m atr ?k (e'\<lparr> le_state := sn_state s \<rparr>) s out p)"
        if "live_rank (le_state e') < live_rank (sn_state s)" for out
        using keep_true [OF assms(1), of s "e'\<lparr> le_state := sn_state s \<rparr>"] up [OF that] None by simp
      moreover have "pass_true k T e m (p\<lparr> lp_ledger := retire ?k EXPIRED (Fin g) ?l, lp_out := out \<rparr>)" for out
        using f g(2) retire_fate by (simp add: pass_true_def)
      ultimately show ?thesis using None Some g(1) keep_true [OF assms(1), of s e'] adv
        by (auto simp: see_def Let_def)
    qed
  qed
qed

lemma miss_true:
  assumes "pass_true k T e m p" and "in_window T m" and "fst ke = k \<Longrightarrow> advanced e (snd ke) \<and> map_of (sl_dead (lp_ledger p)) k = None"
  shows "pass_true k T e m (miss m p ke)"
  using assms(2)
proof (rule in_windowE)
  fix g
  assume g: "sm_generatedAt m = Fin g" "T \<le> g" "g \<le> T + 86400000"
  have "pass_true k T e m (p\<lparr> lp_ledger := retire (fst ke) why (Fin g) (lp_ledger p), lp_out := out \<rparr>)" for why out
    using assms(1) g(2) retire_fate by (simp add: pass_true_def)
  moreover have "pass_true k T e m (p\<lparr> lp_ledger := (lp_ledger p)\<lparr> sl_live :=
      AList.update (fst ke) ((snd ke)\<lparr> le_missedCycles := n \<rparr>) (sl_live (lp_ledger p)) \<rparr> \<rparr>)" for n
    using assms(1,3) update_live_fate [of k T e "lp_ledger p" "fst ke" "(snd ke)\<lparr> le_missedCycles := n \<rparr>"]
    by (auto simp: pass_true_def advanced_def)
  ultimately show ?thesis using assms(1) g(1) by (simp add: miss_def Let_def)
qed

lemma see_all_true: "pass_true k T e m p \<Longrightarrow> in_window T m \<Longrightarrow> pass_true k T e m (foldl (see m atr) p ss)"
  by (induction ss arbitrary: p) (simp_all add: see_true)

lemma miss_dead: "fst ke \<noteq> k \<Longrightarrow> map_of (sl_dead (lp_ledger (miss m p ke))) k = map_of (sl_dead (lp_ledger p)) k"
  by (auto simp: miss_def retire_def update_conv' Let_def)

lemma miss_all_true:
  assumes "pass_true k T e m p" and "in_window T m" and "distinct (map fst kes)"
    and "\<forall>ke\<in>set kes. fst ke = k \<longrightarrow> advanced e (snd ke) \<and> map_of (sl_dead (lp_ledger p)) k = None"
  shows "pass_true k T e m (foldl (miss m) p kes)"
  using assms
proof (induction kes arbitrary: p)
  case Nil
  then show ?case by simp
next
  case (Cons ke kes)
  have "pass_true k T e m (miss m p ke)" using Cons.prems by (intro miss_true) auto
  moreover have "\<forall>ke'\<in>set kes. fst ke' = k \<longrightarrow> advanced e (snd ke') \<and> map_of (sl_dead (lp_ledger (miss m p ke))) k = None"
    using Cons.prems(3,4) miss_dead [of ke k m p] by force
  ultimately have "pass_true k T e m (foldl (miss m) (miss m p ke) kes)"
    using Cons.IH [of "miss m p ke"] Cons.prems(2,3) by (metis distinct.simps(2) list.simps(9))
  then show ?case by simp
qed

section \<open>Distinct keys\<close>

definition keyed :: "setup_ledger \<Rightarrow> bool" where
  "keyed l \<longleftrightarrow> distinct (map fst (sl_live l)) \<and> (\<forall>k. map_of (sl_live l) k = None \<or> map_of (sl_dead l) k = None)"

lemma keyed_update: "keyed l \<Longrightarrow> map_of (sl_dead l) k = None \<Longrightarrow> keyed (l\<lparr> sl_live := AList.update k e (sl_live l) \<rparr>)"
  by (auto simp: keyed_def distinct_update update_conv')

lemma keyed_retire: "keyed l \<Longrightarrow> keyed (retire k why now l)"
  by (auto simp: keyed_def retire_def distinct_delete update_conv' delete_conv')

lemma keyed_evict: "keyed l \<Longrightarrow> keyed (evictTombstones now l)"
  unfolding keyed_def evictTombstones_def using map_of_filter_None [of "sl_dead l"] by simp metis

lemma keyed_keep:
  "keyed (lp_ledger p) \<Longrightarrow> map_of (sl_dead (lp_ledger p)) k = None \<Longrightarrow> keyed (lp_ledger (keep m atr k e s out p))"
  by (simp add: keep_def Let_def keyed_update)

lemma keyed_bury: "keyed l \<Longrightarrow> map_of (sl_live l) k = None \<Longrightarrow> keyed (l\<lparr> sl_dead := AList.update k d (sl_dead l) \<rparr>)"
  by (auto simp: keyed_def update_conv')

lemma keyed_see: "keyed (lp_ledger p) \<Longrightarrow> keyed (lp_ledger (see m atr p s))"
  using keyed_keep [of p "(sm_symbol m, sn_id s)"]
  by (cases "map_of (sl_dead (lp_ledger p)) (sm_symbol m, sn_id s)"; cases "map_of (sl_live (lp_ledger p)) (sm_symbol m, sn_id s)")
    (simp_all add: see_def Let_def keyed_bury keyed_retire)

lemma keyed_miss:
  assumes "keyed (lp_ledger p)" and "map_of (sl_dead (lp_ledger p)) (fst ke) = None"
  shows "keyed (lp_ledger (miss m p ke))"
  using assms by (simp add: miss_def Let_def keyed_retire keyed_update)

lemma keyed_miss_all:
  assumes "keyed (lp_ledger p)" and "distinct (map fst kes)" and "\<forall>ke\<in>set kes. map_of (sl_dead (lp_ledger p)) (fst ke) = None"
  shows "keyed (lp_ledger (foldl (miss m) p kes))"
  using assms
proof (induction kes arbitrary: p)
  case Nil
  then show ?case by simp
next
  case (Cons ke kes)
  have "map_of (sl_dead (lp_ledger (miss m p ke))) (fst ke') = None" if "ke' \<in> set kes" for ke'
  proof -
    have "fst ke \<noteq> fst ke'" using Cons.prems(2) that by force
    then show ?thesis using Cons.prems(3) that miss_dead [of ke "fst ke'" m p] by simp
  qed
  then have "keyed (lp_ledger (foldl (miss m) (miss m p ke) kes))"
    using Cons.IH [of "miss m p ke"] Cons.prems keyed_miss [of p ke m] by simp
  then show ?case by simp
qed

lemma keyed_see_all: "keyed (lp_ledger p) \<Longrightarrow> keyed (lp_ledger (foldl (see m atr) p ss))"
  by (induction ss arbitrary: p) (simp_all add: keyed_see)

section \<open>One application\<close>

lemma apply_true:
  assumes "fate k T e l" and "keyed l" and "in_window T m"
  shows "fate k T e (fst (ledger_apply atr l m)) \<and> keyed (fst (ledger_apply atr l m))
    \<and> list_all (true_to k e m) (sm_scenarios (fst (snd (ledger_apply atr l m))))"
proof -
  define p0 where "p0 = \<lparr> lp_ledger = evictTombstones (sm_generatedAt m) l, lp_kept = [], lp_out = [] \<rparr>"
  define p1 where "p1 = foldl (see m atr) p0 (sm_scenarios m)"
  have k1: "keyed (lp_ledger p1)" using assms(2) by (simp add: p1_def p0_def keyed_see_all keyed_evict)
  have "pass_true k T e m p0" using evict_fate [OF assms(1,3)] by (simp add: p0_def pass_true_def)
  then have t1: "pass_true k T e m p1" using assms(3) by (simp add: p1_def see_all_true)
  have d: "distinct (map fst (sl_live (lp_ledger p1)))" "\<And>ke. ke \<in> set (sl_live (lp_ledger p1)) \<Longrightarrow> map_of (sl_dead (lp_ledger p1)) (fst ke) = None"
    using k1 by (simp add: keyed_def) (metis k1 keyed_def map_of_eq_None_iff imageI)
  have "pass_true k T e m (foldl (miss m) p1 (sl_live (lp_ledger p1)))"
    using t1 d assms(3) by (intro miss_all_true) (auto simp: pass_true_def fate_def)
  moreover have "keyed (lp_ledger (foldl (miss m) p1 (sl_live (lp_ledger p1))))"
    using k1 d by (intro keyed_miss_all) auto
  moreover have "true_to k e (m\<lparr> sm_scenarios := x, sm_state := y \<rparr>) s = true_to k e m s" for x y s
    by (simp add: true_to_def)
  ultimately show ?thesis
    by (auto simp: ledger_apply_def Let_def p1_def p0_def pass_true_def list_all_iff)
qed

lemma run_true:
  "fate k T e l \<Longrightarrow> keyed l \<Longrightarrow> list_all (\<lambda>am. in_window T (snd am)) ams \<Longrightarrow>
     fate k T e (run_steps ledger_step l ams) \<and> keyed (run_steps ledger_step l ams)"
  by (induction ams arbitrary: l) (simp_all add: ledger_step_def apply_true)

section \<open>What the ledger promises\<close>

lemma live_fate: "keyed l \<Longrightarrow> map_of (sl_live l) k = Some e \<Longrightarrow> fate k T e l"
  unfolding keyed_def fate_def by (metis advanced_refl map_of_is_SomeI option.distinct(1) option.inject)

lemma buried_fate: "buried k T l \<Longrightarrow> fate k T e l"
  by (auto simp: fate_def buried_def dest: weak_map_of_SomeI)

lemma run_then_apply:
  assumes "fate k T e l" and "keyed l" and "list_all (\<lambda>am. in_window T (snd am)) ams" and "in_window T m"
  shows "list_all (true_to k e m) (sm_scenarios (fst (snd (ledger_apply atr (run_steps ledger_step l ams) m))))"
  using apply_true run_true [OF assms(1-3)] assms(4) by blast

text \<open>C33. A setup keeps its identity: whatever setup maps follow within the day, in any order, every scenario
  the ledger hands on under the setup's key carries the levels pinned at first sight, the expiry fixed at first
  sight, and a state no lower than the one it had.\<close>

theorem setup_keeps_its_identity:
  assumes "keyed l" and "map_of (sl_live l) k = Some e"
    and "list_all (\<lambda>am. in_window T (snd am)) ams" and "in_window T m"
  shows "list_all (true_to k e m) (sm_scenarios (fst (snd (ledger_apply atr (run_steps ledger_step l ams) m))))"
  using live_fate [OF assms(1,2)] assms by (intro run_then_apply)

text \<open>A retired setup stays dead for a day: once a setup is buried at time \<open>T\<close>, no map that follows within 24
  hours has a scenario handed on under its key, however often the engine derives the setup again.\<close>

theorem retired_setup_stays_dead:
  assumes "keyed l" and "map_of (sl_dead l) k = Some (why, Fin T)"
    and "list_all (\<lambda>am. in_window T (snd am)) ams" and "in_window T m"
  shows "k \<notin> (\<lambda>s. (sm_symbol m, sn_id s)) ` set (sm_scenarios (fst (snd (ledger_apply atr (run_steps ledger_step l ams) m))))"
proof -
  have "map_of (sl_live l) k = None" using assms(1,2) by (metis keyed_def option.distinct(1))
  then have b: "buried k T l" using assms(2) by (auto simp: buried_def)
  have t: "list_all (true_to k (e\<lparr> le_expiresAt := x \<rparr>) m) (sm_scenarios (fst (snd (ledger_apply atr (run_steps ledger_step l ams) m))))" for x and e :: ledger_entry
    using buried_fate [OF b] assms by (intro run_then_apply)
  show ?thesis using t [of "Fin 0"] t [of "Fin 1"] by (fastforce simp: list_all_iff true_to_def)
qed

section \<open>Witnesses\<close>

definition demo_levels :: levels where
  "demo_levels = \<lparr> lv_entryLow = Fin 99, lv_entryHigh = Fin 101, lv_stopLoss = Fin 95, lv_target1 = Fin 110,
     lv_target2 = None, lv_rewardRisk = Fin 2 \<rparr>"

definition demo_id :: setup_id where "demo_id = SetupId BREAKOUT_RETEST ''BTC'' LONG (Fin 10000)"

definition demo_scenario :: "live_state \<Rightarrow> setup_scenario" where
  "demo_scenario st = \<lparr> sn_id = demo_id, sn_kind = BREAKOUT_RETEST, sn_direction = LONG, sn_state = st, sn_levels = demo_levels,
     sn_expectedMove = \<lparr> em_minMinutes = Fin 10, em_maxMinutes = Fin 40, em_thesisExpiryMinutes = Fin 60, em_distanceAtr = Fin 1 \<rparr>,
     sn_sourceTime = Fin 0, sn_lifecycle = None, sn_locationAtEntry = None, sn_evidence = None, sn_quality = None, sn_thesisRole = None \<rparr>"

definition demo_map :: "real \<Rightarrow> setup_scenario list \<Rightarrow> setup_map" where
  "demo_map t ss = \<lparr> sm_symbol = ''BTC'', sm_generatedAt = Fin t, sm_mark = Fin 100, sm_state = mapState ss, sm_bias = BULLISH,
     sm_location = EQUILIBRIUM, sm_htfTrend = BULLISH, sm_ltfTrend = BULLISH, sm_nearestUpperLiquidity = None,
     sm_nearestLowerLiquidity = None, sm_scenarios = ss, sm_invalidatedIds = [], sm_flow = None, sm_thesisTransition = None,
     sm_withheldIds = [], sm_noTradeReasons = [] \<rparr>"

definition demo_ledger :: setup_ledger where
  "demo_ledger = fst (ledger_apply (Fin 10) \<lparr> sl_live = [], sl_dead = [] \<rparr> (demo_map 1000 [demo_scenario ARMED]))"

lemmas ledger_evals = demo_ledger_def demo_map_def demo_scenario_def ledger_apply_def see_def miss_def keep_def new_entry_def
  evictTombstones_def retire_def Let_def stamped_def demo_levels_def math_min_def

lemma setup_keeps_its_identity_witness:
  "list_all (true_to (''BTC'', demo_id) (snd (hd (sl_live demo_ledger))) (demo_map 3000 [demo_scenario FORMING]))
     (sm_scenarios (fst (snd (ledger_apply (Fin 10) (run_steps ledger_step demo_ledger [(Fin 10, demo_map 2000 [])]) (demo_map 3000 [demo_scenario FORMING])))))"
  by (rule setup_keeps_its_identity [where T = 0])
    (simp_all add: ledger_evals keyed_def in_window_def)

lemma retired_setup_stays_dead_witness:
  "(''BTC'', demo_id) \<notin> (\<lambda>s. (''BTC'', sn_id s)) ` set (sm_scenarios (fst (snd (ledger_apply (Fin 10)
      (run_steps ledger_step (retire (''BTC'', demo_id) INVALIDATED (Fin 1500) demo_ledger) [(Fin 10, demo_map 2000 [demo_scenario ARMED])])
      (demo_map 3000 [demo_scenario TRIGGERED])))))"
  using retired_setup_stays_dead [of "retire (''BTC'', demo_id) INVALIDATED (Fin 1500) demo_ledger" "(''BTC'', demo_id)" INVALIDATED 1500
      "[(Fin 10, demo_map 2000 [demo_scenario ARMED])]" "demo_map 3000 [demo_scenario TRIGGERED]" "Fin 10"]
  by (simp add: ledger_evals keyed_def in_window_def)

end
