(* ===== verification/MarketSafety.thy ===== *)
theory MarketSafety
  imports JsMath CoreTypes
begin

text \<open>
  The market-safety verdict before an entry (\<open>src/market/MarketSafety.ts\<close>) and the shock detector it reads
  (\<open>src/market/ShockDetector.ts\<close>). Printed reasons are constructors with the values they print. The counts
  among the detector's options are whole numbers.
\<close>

section \<open>The shock detector\<close>

datatype shock_level = Calm | SHOCK

lemma shock_level_not [simp]: "l \<noteq> Calm \<longleftrightarrow> l = SHOCK" "l \<noteq> SHOCK \<longleftrightarrow> l = Calm"
  by (cases l; simp)+

record shock_options =
  so_returnZ :: jsnum
  so_volumeZ :: jsnum
  so_spreadMult :: jsnum
  so_recoveryBars :: nat
  so_minBars :: nat
  so_window :: nat
  so_spreadSamples :: nat

datatype shock_reason = InsufficientData | Measured | Recovering nat nat

record shock_reading =
  sh_level :: shock_level
  sh_retZ :: jsnum
  sh_volZ :: jsnum
  sh_spreadMult :: jsnum
  sh_reason :: shock_reason

definition DEFAULT_MIN_BARS :: nat where "DEFAULT_MIN_BARS = 60"
definition DEFAULT_WINDOW :: nat where "DEFAULT_WINDOW = 120"
definition DEFAULT_SPREAD_SAMPLES :: nat where "DEFAULT_SPREAD_SAMPLES = 120"
definition CALM_RETURN_Z :: jsnum where "CALM_RETURN_Z = 2"
definition CALM_SPREAD_MULT :: jsnum where "CALM_SPREAD_MULT = 3/2"
definition MIN_SPREAD_SAMPLES :: nat where "MIN_SPREAD_SAMPLES = 10"

definition zscore :: "jsnum \<Rightarrow> jsnum \<Rightarrow> jsnum \<Rightarrow> jsnum" where
  "zscore v m sd = (if sd > 0 \<and> is_finite sd then (v - m) / sd else 0)"

definition INSUFFICIENT :: shock_reading where
  "INSUFFICIENT = \<lparr> sh_level = Calm, sh_retZ = 0, sh_volZ = 0, sh_spreadMult = 1, sh_reason = InsufficientData \<rparr>"

record shock_state =
  ss_level :: shock_level
  ss_lastBar :: jsnum
  ss_calmBars :: nat
  ss_spreads :: "jsnum list"
  ss_last :: shock_reading

definition shock_new :: shock_state where
  "shock_new = \<lparr> ss_level = Calm, ss_lastBar = - 1, ss_calmBars = 0, ss_spreads = [], ss_last = INSUFFICIENT \<rparr>"

definition sampleSpread :: "shock_options \<Rightarrow> jsnum option \<Rightarrow> shock_state \<Rightarrow> shock_state" where
  "sampleSpread opts spreadBps st =
     (case spreadBps of
        None \<Rightarrow> st
      | Some x \<Rightarrow>
          if is_finite x \<and> x \<ge> 0
          then (let pushed = ss_spreads st @ [x]
                in st\<lparr> ss_spreads := (if length pushed > so_spreadSamples opts then tl pushed else pushed) \<rparr>)
          else st)"

definition spreadMultiple :: "shock_state \<Rightarrow> jsnum" where
  "spreadMultiple st =
     (case last_opt (ss_spreads st) of
        None \<Rightarrow> 1
      | Some current \<Rightarrow>
          if length (ss_spreads st) < MIN_SPREAD_SAMPLES then 1
          else (let base = js_median (butlast (ss_spreads st)) in if base > 0 then current / base else 1))"

text \<open>
  \<open>None\<close> is the exception of reading the close before a baseline that is empty; with \<open>minBars\<close> of two or more
  it does not happen.
\<close>

definition shock_read :: "shock_options \<Rightarrow> shock_state \<Rightarrow> candle list \<Rightarrow> candle \<Rightarrow> shock_reading option" where
  "shock_read opts st bars latest =
     (let baseline = butlast bars
      in case last_opt baseline of
           None \<Rightarrow> None
         | Some prev \<Rightarrow>
             (let returns = map2 (\<lambda>c p. math_log (c_close c / c_close p)) (tl baseline) baseline;
                  latestReturn = math_log (c_close latest / c_close prev);
                  retMean = js_mean returns;
                  retZ = zscore latestReturn retMean (js_stdev returns retMean);
                  volumes = map c_volume baseline;
                  volMean = js_mean volumes;
                  volZ = zscore (c_volume latest) volMean (js_stdev volumes volMean);
                  spreadMult = spreadMultiple st;
                  isShock = (abs retZ \<ge> so_returnZ opts \<and> (volZ \<ge> so_volumeZ opts \<or> spreadMult \<ge> so_spreadMult opts))
              in Some \<lparr> sh_level = (if isShock then SHOCK else Calm), sh_retZ = retZ, sh_volZ = volZ,
                        sh_spreadMult = spreadMult, sh_reason = Measured \<rparr>))"

definition isCalm :: "shock_reading \<Rightarrow> bool" where
  "isCalm r \<longleftrightarrow> abs (sh_retZ r) < CALM_RETURN_Z \<and> sh_spreadMult r \<le> CALM_SPREAD_MULT"

definition shock_transition :: "shock_options \<Rightarrow> shock_state \<Rightarrow> shock_reading \<Rightarrow> shock_state \<times> shock_reading" where
  "shock_transition opts st reading =
     (let (level, calm) =
            (if sh_level reading = SHOCK then (SHOCK, 0)
             else if ss_level st = SHOCK
             then (let n = (if isCalm reading then ss_calmBars st + 1 else 0)
                   in if n \<ge> so_recoveryBars opts then (Calm, 0) else (SHOCK, n))
             else (ss_level st, ss_calmBars st));
          out = reading\<lparr> sh_level := level,
                          sh_reason := (if level = SHOCK \<and> sh_level reading \<noteq> SHOCK then Recovering calm (so_recoveryBars opts)
                                        else sh_reason reading) \<rparr>
      in (st\<lparr> ss_level := level, ss_calmBars := calm, ss_last := out \<rparr>, out))"

definition hold :: "shock_state \<Rightarrow> shock_reading \<Rightarrow> shock_reading" where
  "hold st reading = reading\<lparr> sh_level := ss_level st \<rparr>"

definition withSpread :: "shock_state \<Rightarrow> shock_reading \<Rightarrow> shock_reading" where
  "withSpread st seen = seen\<lparr> sh_level := ss_level st, sh_spreadMult := spreadMultiple st \<rparr>"

text \<open>One evaluation of a symbol's state; the state after it and the reading, \<open>None\<close> when it throws.\<close>

definition shock_evaluate :: "shock_options \<Rightarrow> candle list \<Rightarrow> jsnum option \<Rightarrow> shock_state \<Rightarrow> (shock_state \<times> shock_reading) option" where
  "shock_evaluate opts closed1m spreadBps st0 =
     (let st = sampleSpread opts spreadBps st0;
          bars = last_n (so_window opts + 1) closed1m
      in case last_opt bars of
           None \<Rightarrow> Some (st, hold st INSUFFICIENT)
         | Some latest \<Rightarrow>
             if length bars < so_minBars opts \<or> list_ex (\<lambda>c. \<not> c_close c > 0) bars then Some (st, hold st INSUFFICIENT)
             else if js_eq (c_openTime latest) (ss_lastBar st) then Some (st, withSpread st (ss_last st))
             else (case shock_read opts st bars latest of
                     None \<Rightarrow> None
                   | Some reading \<Rightarrow> Some (shock_transition opts (st\<lparr> ss_lastBar := c_openTime latest \<rparr>) reading)))"

text \<open>The detector's states by symbol.\<close>

type_synonym shock_states = "string \<Rightarrow> shock_state option"

definition levelOf :: "shock_states \<Rightarrow> string \<Rightarrow> shock_level" where
  "levelOf states symbol = (case states symbol of None \<Rightarrow> Calm | Some st \<Rightarrow> ss_level st)"

definition stateOf :: "shock_states \<Rightarrow> string \<Rightarrow> shock_state" where
  "stateOf states symbol = (case states symbol of None \<Rightarrow> shock_new | Some st \<Rightarrow> st)"

definition shock_update ::
  "shock_options \<Rightarrow> shock_states \<Rightarrow> string \<times> candle list \<times> jsnum option \<Rightarrow> (shock_states \<times> shock_reading) option" where
  "shock_update opts states x =
     (case x of (symbol, closed1m, spreadBps) \<Rightarrow>
        (case shock_evaluate opts closed1m spreadBps (stateOf states symbol) of
           None \<Rightarrow> None
         | Some (st, reading) \<Rightarrow> Some (states(symbol \<mapsto> st), reading)))"

section \<open>The verdict\<close>

datatype safety_level = NormalLevel | NO_ENTRY | HALT

datatype safety_reason =
    MarkInvalid | ExchangeStatus string | NoFreshTickOrMark | TickStale jsnum | CandleStale | DerivativesStale | ShockActive shock_reason

record safety_verdict =
  sv_level :: safety_level
  sv_reasons :: "safety_reason list"

record safety_input =
  sf_now :: jsnum
  sf_mark :: "jsnum option"
  sf_lastTickAt :: "jsnum option"
  sf_markAt :: "jsnum option"
  sf_exchangeStatus :: "string option"
  sf_latestClosed15mOpen :: "jsnum option"
  sf_derivativesAsOf :: "jsnum option"
  sf_shock :: "shock_reading option"
  sf_tickStaleMs :: jsnum
  sf_markStaleMs :: jsnum

definition FIFTEEN_MIN_MS :: jsnum where "FIFTEEN_MIN_MS = 900000"
definition DERIVATIVES_STALE_MS :: jsnum where "DERIVATIVES_STALE_MS = 300000"

fun safety_rank :: "safety_level \<Rightarrow> nat" where
  "safety_rank NormalLevel = 0"
| "safety_rank NO_ENTRY = 1"
| "safety_rank HALT = 2"

definition age_of :: "jsnum \<Rightarrow> jsnum option \<Rightarrow> jsnum" where
  "age_of now seen = (case seen of None \<Rightarrow> PInf | Some t \<Rightarrow> now - t)"

definition safety_hits :: "safety_input \<Rightarrow> (safety_level \<times> safety_reason) list" where
  "safety_hits i =
     (let tickAge = age_of (sf_now i) (sf_lastTickAt i);
          markAge = age_of (sf_now i) (sf_markAt i);
          tickStale = (tickAge > sf_tickStaleMs i)
      in (if (case sf_mark i of Some m \<Rightarrow> isPrice m | None \<Rightarrow> False) then [] else [(HALT, MarkInvalid)])
       @ (case sf_exchangeStatus i of None \<Rightarrow> [] | Some s \<Rightarrow> if s \<noteq> ''TRADING'' then [(HALT, ExchangeStatus s)] else [])
       @ (if tickStale \<and> markAge > sf_markStaleMs i then [(HALT, NoFreshTickOrMark)]
          else if tickStale then [(NO_ENTRY, TickStale tickAge)] else [])
       @ (case sf_latestClosed15mOpen i of
            None \<Rightarrow> [] | Some t \<Rightarrow> if sf_now i - t > 3 * FIFTEEN_MIN_MS then [(NO_ENTRY, CandleStale)] else [])
       @ (case sf_derivativesAsOf i of
            None \<Rightarrow> [] | Some t \<Rightarrow> if sf_now i - t > DERIVATIVES_STALE_MS then [(NO_ENTRY, DerivativesStale)] else [])
       @ (case sf_shock i of
            None \<Rightarrow> [] | Some r \<Rightarrow> if sh_level r = SHOCK then [(NO_ENTRY, ShockActive (sh_reason r))] else []))"

definition assessSafety :: "safety_input \<Rightarrow> safety_verdict" where
  "assessSafety i =
     \<lparr> sv_level = foldl (\<lambda>worst (l, _). if safety_rank l > safety_rank worst then l else worst) NormalLevel (safety_hits i),
       sv_reasons = map snd (safety_hits i) \<rparr>"

section \<open>Lemmas\<close>

lemma worst_fold:
  assumes "foldl (\<lambda>worst (l, _). if safety_rank l > safety_rank worst then l else worst) w hs = v"
  shows "safety_rank w \<le> safety_rank v \<and> (\<forall>l r. (l, r) \<in> set hs \<longrightarrow> safety_rank l \<le> safety_rank v)
    \<and> (v = w \<or> v \<in> fst ` set hs)"
  using assms
proof (induction hs arbitrary: w)
  case Nil
  then show ?case by simp
next
  case (Cons h hs)
  obtain l r where h: "h = (l, r)" by (cases h)
  from Cons.IH [of "if safety_rank l > safety_rank w then l else w"] Cons.prems h
  show ?case by (auto split: if_splits)
qed

lemma verdict_worst:
  "(l, r) \<in> set (safety_hits i) \<Longrightarrow> safety_rank l \<le> safety_rank (sv_level (assessSafety i))"
  using worst_fold [OF refl, of NormalLevel "safety_hits i"] by (auto simp: assessSafety_def)

lemma hits_level: "(l, r) \<in> set (safety_hits i) \<Longrightarrow> l \<noteq> NormalLevel"
  by (auto simp: safety_hits_def Let_def split: if_splits option.splits)

lemma verdict_normal: "sv_level (assessSafety i) = NormalLevel \<longleftrightarrow> safety_hits i = []"
proof (cases "safety_hits i")
  case (Cons h hs)
  obtain l r where "h = (l, r)" by (cases h)
  with Cons hits_level [of l r i] verdict_worst [of l r i] show ?thesis by (cases l) auto
qed (simp add: assessSafety_def)

lemma sample_frame [simp]:
  "ss_level (sampleSpread opts x st) = ss_level st" "ss_calmBars (sampleSpread opts x st) = ss_calmBars st"
  "ss_lastBar (sampleSpread opts x st) = ss_lastBar st" "ss_last (sampleSpread opts x st) = ss_last st"
  by (auto simp: sampleSpread_def Let_def split: option.splits)

lemma transition_simps:
  "shock_transition opts st r = (st', out) \<Longrightarrow>
     ss_level st' = (if sh_level r = SHOCK then SHOCK
                     else if ss_level st = SHOCK \<and> (if isCalm r then ss_calmBars st + 1 else 0) < so_recoveryBars opts then SHOCK
                     else Calm)
     \<and> ss_calmBars st' = (if sh_level r = SHOCK then 0
                     else if ss_level st = SHOCK
                     then (let n = (if isCalm r then ss_calmBars st + 1 else 0) in if n \<ge> so_recoveryBars opts then 0 else n)
                     else ss_calmBars st)
     \<and> ss_lastBar st' = ss_lastBar st \<and> ss_last st' = out \<and> sh_level out = ss_level st' \<and> sh_retZ out = sh_retZ r
     \<and> sh_spreadMult out = sh_spreadMult r \<and> sh_volZ out = sh_volZ r"
  by (cases "ss_level st"; cases "sh_level r") (auto simp: shock_transition_def Let_def split: if_splits)

section \<open>Runs of a detector\<close>

text \<open>The reading an evaluation takes of a bar it has not measured yet, if it takes one.\<close>

definition new_reading :: "shock_options \<Rightarrow> candle list \<Rightarrow> jsnum option \<Rightarrow> shock_state \<Rightarrow> shock_reading option" where
  "new_reading opts closed1m spreadBps st =
     (let bars = last_n (so_window opts + 1) closed1m
      in case last_opt bars of
           None \<Rightarrow> None
         | Some latest \<Rightarrow>
             if length bars < so_minBars opts \<or> list_ex (\<lambda>c. \<not> c_close c > 0) bars \<or> js_eq (c_openTime latest) (ss_lastBar st)
             then None else shock_read opts (sampleSpread opts spreadBps st) bars latest)"

lemma shock_evaluate_cases:
  assumes "shock_evaluate opts bars x st = Some (st', r)"
  shows "new_reading opts bars x st = None \<and> ss_level st' = ss_level st \<and> ss_calmBars st' = ss_calmBars st \<and> sh_level r = ss_level st
    \<or> (\<exists>t reading. new_reading opts bars x st = Some reading \<and> ss_level t = ss_level st \<and> ss_calmBars t = ss_calmBars st
        \<and> shock_transition opts t reading = (st', r))"
  using assms
  by (auto simp: shock_evaluate_def new_reading_def hold_def withSpread_def Let_def split: option.splits if_splits
      intro!: exI [of _ "(sampleSpread opts x st)\<lparr> ss_lastBar := l \<rparr>" for l])

definition calm_reading :: "shock_reading \<Rightarrow> bool" where
  "calm_reading r \<longleftrightarrow> isCalm r \<and> sh_level r \<noteq> SHOCK"

text \<open>A run of evaluations of one symbol, with the readings it took.\<close>

fun shock_run :: "shock_options \<Rightarrow> shock_state \<Rightarrow> (candle list \<times> jsnum option) list \<Rightarrow> (shock_state \<times> shock_reading list) option" where
  "shock_run opts st [] = Some (st, [])"
| "shock_run opts st ((bars, x) # xs) =
     (case shock_evaluate opts bars x st of
        None \<Rightarrow> None
      | Some (st', r) \<Rightarrow>
          map_option (apsnd ((@) (case new_reading opts bars x st of None \<Rightarrow> [] | Some q \<Rightarrow> [q]))) (shock_run opts st' xs))"

lemma shock_run_snoc:
  "shock_run opts st (xs @ [(bars, x)]) =
     (case shock_run opts st xs of
        None \<Rightarrow> None
      | Some (t, rs) \<Rightarrow>
          (case shock_evaluate opts bars x t of
             None \<Rightarrow> None
           | Some (t', r) \<Rightarrow> Some (t', rs @ (case new_reading opts bars x t of None \<Rightarrow> [] | Some q \<Rightarrow> [q]))))"
  by (induction xs arbitrary: st) (auto split: option.splits)

text \<open>The calm bars counted are never more than the calm readings at the end of the run.\<close>

definition calm_tail :: "shock_reading list \<Rightarrow> nat" where
  "calm_tail rs = length (takeWhile calm_reading (rev rs))"

lemma calm_tail_snoc: "calm_tail (rs @ [r]) = (if calm_reading r then Suc (calm_tail rs) else 0)"
  by (simp add: calm_tail_def)

lemma calm_bars_counted:
  assumes "shock_run opts shock_new xs = Some (st, rs)"
  shows "ss_calmBars st \<le> calm_tail rs \<and> (ss_level st = Calm \<longrightarrow> ss_calmBars st = 0)"
  using assms
proof (induction xs arbitrary: st rs rule: rev_induct)
  case Nil
  then show ?case by (auto simp: shock_new_def)
next
  case (snoc x xs)
  obtain bars sp where x: "x = (bars, sp)" by (cases x)
  with snoc.prems obtain t ts r where t: "shock_run opts shock_new xs = Some (t, ts)" "shock_evaluate opts bars sp t = Some (st, r)"
    "rs = ts @ (case new_reading opts bars sp t of None \<Rightarrow> [] | Some q \<Rightarrow> [q])"
    by (auto simp: shock_run_snoc split: option.splits)
  from snoc.IH [OF t(1)] shock_evaluate_cases [OF t(2)] t(3) show ?case
    by (auto simp: calm_tail_snoc calm_reading_def Let_def dest!: transition_simps split: if_splits)
qed

section \<open>Properties\<close>

text \<open>
  C29. A shock is only entered on evidence and only left on calm: when an evaluation turns a symbol from calm to
  shocked, it just measured a return outlier that the volume or the spread confirms; when it turns it back, the last
  \<open>recoveryBars\<close> bars it measured, each of them new to it, were all calm and none of them a shock.
\<close>

theorem shock_needs_evidence_and_calm:
  assumes "shock_run opts shock_new xs = Some (st, rs)" and "shock_evaluate opts bars x st = Some (st', r)"
  shows "(ss_level st = Calm \<and> ss_level st' = SHOCK \<longrightarrow>
        abs (sh_retZ r) \<ge> so_returnZ opts \<and> (sh_volZ r \<ge> so_volumeZ opts \<or> sh_spreadMult r \<ge> so_spreadMult opts))
    \<and> (ss_level st = SHOCK \<and> ss_level st' = Calm \<longrightarrow>
        (\<exists>q. new_reading opts bars x st = Some q \<and> so_recoveryBars opts \<le> calm_tail (rs @ [q])))"
proof -
  have shock: "abs (sh_retZ q) \<ge> so_returnZ opts \<and> (sh_volZ q \<ge> so_volumeZ opts \<or> sh_spreadMult q \<ge> so_spreadMult opts)"
    if "new_reading opts bars x st = Some q" "sh_level q = SHOCK" for q
    using that by (auto simp: new_reading_def shock_read_def Let_def split: option.splits if_splits)
  from shock_evaluate_cases [OF assms(2)] show ?thesis
    using shock calm_bars_counted [OF assms(1)]
    by (auto simp: calm_tail_snoc calm_reading_def Let_def dest!: transition_simps split: if_splits)
qed

text \<open>
  The verdict is exactly the worst of its checks: entries are free only when the mark is a price, the exchange
  trades, ticks and candles and derivatives are fresh and no shock is on; and any failing check is among the reasons.
\<close>

theorem normal_verdict_means_all_clear:
  assumes "sv_level (assessSafety i) = NormalLevel"
  shows "(\<exists>m. sf_mark i = Some (Fin m) \<and> 0 < m) \<and> sf_exchangeStatus i \<in> {None, Some ''TRADING''}
    \<and> \<not> age_of (sf_now i) (sf_lastTickAt i) > sf_tickStaleMs i
    \<and> (\<forall>r. sf_shock i = Some r \<longrightarrow> sh_level r \<noteq> SHOCK)
    \<and> (\<forall>t. sf_latestClosed15mOpen i = Some t \<longrightarrow> \<not> sf_now i - t > 3 * FIFTEEN_MIN_MS)
    \<and> (\<forall>t. sf_derivativesAsOf i = Some t \<longrightarrow> \<not> sf_now i - t > DERIVATIVES_STALE_MS)"
  using assms
  by (auto simp: verdict_normal safety_hits_def isPrice_Fin Let_def simp del: js_consts split: if_splits option.splits)

section \<open>Witnesses\<close>

definition demo_bar :: "real \<Rightarrow> real \<Rightarrow> candle" where
  "demo_bar t p = \<lparr> c_openTime = Fin t, c_open = Fin p, c_high = Fin p, c_low = Fin p, c_close = Fin p, c_volume = 0 \<rparr>"

definition demo_shock :: shock_options where
  "demo_shock = \<lparr> so_returnZ = 2, so_volumeZ = 2, so_spreadMult = 1, so_recoveryBars = 2, so_minBars = 2, so_window = 3,
     so_spreadSamples = 10 \<rparr>"

text \<open>A jump of the price after two small moves, then two quiet bars.\<close>

definition jump_bars :: "candle list" where
  "jump_bars = [demo_bar 0 1, demo_bar 1 2, demo_bar 2 1, demo_bar 3 4]"

definition quiet_bars :: "real \<Rightarrow> candle list" where
  "quiet_bars t = [demo_bar (t - 3) 4, demo_bar (t - 2) 4, demo_bar (t - 1) 4, demo_bar t 4]"

lemmas shock_evals = shock_evaluate_def sampleSpread_def last_n_def demo_bar_def shock_read_def js_mean_def js_stdev_def js_sum_def
  squared_def zscore_def num_of_nat_def spreadMultiple_def shock_transition_def Let_def last_opt_def

lemma demo_shock_entered:
  "\<exists>st' r. shock_evaluate demo_shock jump_bars None shock_new = Some (st', r)
     \<and> ss_level st' = SHOCK \<and> ss_lastBar st' = Fin 3 \<and> ss_calmBars st' = 0 \<and> ss_spreads st' = []"
proof -
  have l4: "ln (4::real) = 2 * ln 2" using ln_realpow [of "2::real" 2] by simp
  have lh: "ln (1 / 2 :: real) = - ln 2" by (simp add: ln_div)
  have sq: "sqrt ((ln 2 * ln 2 + ln 2 * ln 2) / 2) = ln (2::real)" by simp
  have pos: "0 < ln (2::real)" by simp
  show ?thesis using l4 lh sq pos by (simp add: jump_bars_def demo_shock_def shock_new_def shock_evals)
qed

lemma demo_quiet:
  assumes "ss_level st = SHOCK" and "ss_lastBar st \<noteq> Fin t" and "ss_spreads st = []"
  shows "\<exists>r. shock_evaluate demo_shock (quiet_bars t) None st
      = Some (st\<lparr> ss_lastBar := Fin t, ss_level := (if Suc (ss_calmBars st) \<ge> 2 then Calm else SHOCK),
                 ss_calmBars := (if Suc (ss_calmBars st) \<ge> 2 then 0 else Suc (ss_calmBars st)), ss_last := r \<rparr>, r)"
proof -
  have "\<not> js_eq (Fin t) (ss_lastBar st)" using assms(2) js_eq_imp_eq by fastforce
  then show ?thesis using assms
    by (simp add: quiet_bars_def demo_shock_def shock_evals isCalm_def CALM_RETURN_Z_def CALM_SPREAD_MULT_def)
qed

lemma shock_needs_evidence_and_calm_witness:
  "\<exists>st1 r1 st2 rs st3 r3 q. shock_evaluate demo_shock jump_bars None shock_new = Some (st1, r1) \<and> ss_level st1 = SHOCK
     \<and> abs (sh_retZ r1) \<ge> 2 \<and> (sh_volZ r1 \<ge> 2 \<or> sh_spreadMult r1 \<ge> 1)
   \<and> shock_run demo_shock shock_new [(jump_bars, None), (quiet_bars 4, None)] = Some (st2, rs) \<and> ss_level st2 = SHOCK
   \<and> shock_evaluate demo_shock (quiet_bars 5) None st2 = Some (st3, r3) \<and> ss_level st3 = Calm
     \<and> new_reading demo_shock (quiet_bars 5) None st2 = Some q \<and> 2 \<le> calm_tail (rs @ [q])"
proof -
  obtain st1 r1 where e: "shock_evaluate demo_shock jump_bars None shock_new = Some (st1, r1)"
    "ss_level st1 = SHOCK" "ss_lastBar st1 = Fin 3" "ss_calmBars st1 = 0" "ss_spreads st1 = []" using demo_shock_entered by blast
  have "shock_run demo_shock shock_new [] = Some (shock_new, [])" by simp
  from shock_needs_evidence_and_calm [OF this e(1)] e(2)
  have entered: "abs (sh_retZ r1) \<ge> 2" "sh_volZ r1 \<ge> 2 \<or> sh_spreadMult r1 \<ge> 1"
    by (auto simp: demo_shock_def shock_new_def simp del: js_consts)
  obtain r2 where e2: "shock_evaluate demo_shock (quiet_bars 4) None st1 = Some (st1\<lparr> ss_lastBar := Fin 4, ss_level := SHOCK, ss_calmBars := 1, ss_last := r2 \<rparr>, r2)"
    using demo_quiet [of st1 4] e by auto
  let ?st2 = "st1\<lparr> ss_lastBar := Fin 4, ss_level := SHOCK, ss_calmBars := 1, ss_last := r2 \<rparr>"
  obtain rs where run: "shock_run demo_shock shock_new [(jump_bars, None), (quiet_bars 4, None)] = Some (?st2, rs)"
    using e(1) e2 by simp
  obtain r3 where e3: "shock_evaluate demo_shock (quiet_bars 5) None ?st2
      = Some (?st2\<lparr> ss_lastBar := Fin 5, ss_level := Calm, ss_calmBars := 0, ss_last := r3 \<rparr>, r3)"
    using demo_quiet [of ?st2 5] e by auto
  from shock_needs_evidence_and_calm [OF run e3] obtain q where
    q: "new_reading demo_shock (quiet_bars 5) None ?st2 = Some q" "so_recoveryBars demo_shock \<le> calm_tail (rs @ [q])" by auto
  have l: "ss_level ?st2 = SHOCK" "ss_level (?st2\<lparr> ss_lastBar := Fin 5, ss_level := Calm, ss_calmBars := 0, ss_last := r3 \<rparr>) = Calm"
    "so_recoveryBars demo_shock = 2" by (simp_all add: demo_shock_def)
  show ?thesis
    by (intro exI conjI) (rule e(1), rule e(2), rule entered(1), rule entered(2), rule run, rule l(1), rule e3, rule l(2), rule q(1),
      use q(2) l(3) in simp)
qed

definition demo_safety :: safety_input where
  "demo_safety = \<lparr> sf_now = 1000000, sf_mark = Some 100, sf_lastTickAt = Some 999000, sf_markAt = Some 999000,
     sf_exchangeStatus = Some ''TRADING'', sf_latestClosed15mOpen = Some 0, sf_derivativesAsOf = None, sf_shock = None,
     sf_tickStaleMs = 5000, sf_markStaleMs = 5000 \<rparr>"

lemma demo_safety_normal: "sv_level (assessSafety demo_safety) = NormalLevel"
  by (simp add: verdict_normal safety_hits_def demo_safety_def age_of_def isPrice_def FIFTEEN_MIN_MS_def Let_def)

lemma normal_verdict_means_all_clear_witness:
  "sv_level (assessSafety demo_safety) = NormalLevel \<and> (\<exists>m. sf_mark demo_safety = Some (Fin m) \<and> 0 < m)"
  using normal_verdict_means_all_clear [OF demo_safety_normal] demo_safety_normal by simp

end
