(* ===== verification/RiskGate.thy ===== *)
theory RiskGate
  imports RiskEngine Liquidation EquityHwm KillSwitch MarketSafety RrProfile TrailingPrice
begin

text \<open>
  The gate every entry passes (\<open>src/agents/RiskAgent.ts\<close>): approval, halt, market safety, drawdown, the shape
  of the stop, sizing, the leverage that keeps liquidation behind the stop, and the risk engine's limits. Whether
  the write of the high-water mark succeeds and the clock are inputs; refusals are constructors.
\<close>

section \<open>Data\<close>

record entry_signal =
  es_id :: string
  es_agent :: agent_id
  es_symbol :: string
  es_type :: signal_type
  es_confidence :: jsnum
  es_entry :: "jsnum option"
  es_stopLoss :: "jsnum option"
  es_takeProfit :: "jsnum option"
  es_ts :: jsnum

text \<open>\<open>config\<close>: the risk section with the gate's own settings, and the size scaling.\<close>

record gate_config =
  gc_risk :: risk_env
  gc_portfolioRiskPct :: "jsnum option"
  gc_minStopAtr :: jsnum
  gc_minLiqBufferAtr :: jsnum
  gc_sizeScaling :: size_scaling
  gc_rules :: "string \<Rightarrow> symbol_rules"

record risk_agent_options =
  ao_limits :: "risk_limits option"
  ao_killSwitch :: "kill_state option"
  ao_rrProfile :: "rr_profile option"
  ao_requireApproval :: bool
  ao_approvedStrategies :: "agent_id list option"
  ao_sizeScaling :: "size_scaling option"

text \<open>
  The market context of a cycle. The state layer's ATR and volatility percentile are \<open>None\<close> when the state or the
  value is absent.
\<close>

record market_context =
  mc_candles :: "string \<Rightarrow> candle list option"
  mc_funding :: "string \<Rightarrow> jsnum option"
  mc_equity :: jsnum
  mc_positions :: "position list option"
  mc_stateAtr :: "string \<Rightarrow> jsnum option"
  mc_volatility :: "string \<Rightarrow> jsnum option"
  mc_safety :: "string \<Rightarrow> safety_verdict option"
  mc_maintenance :: "string \<Rightarrow> maintenance_tier list option"
  mc_performance :: "(circuit_state \<times> performance_snapshot) option"

text \<open>What an agent keeps: its own peak, and the store it was given instead, with the mode it is bound to.\<close>

record gate_state =
  gs_peakEquity :: jsnum
  gs_hwm :: "(trade_mode \<times> hwm_store) option"

datatype gate_reason =
    NotApproved agent_id | KillSwitched string | Unsafe safety_verdict | DrawdownExceeds jsnum | FundingHarvestRefused
  | MissingEntryOrStop | StopMatchesEntry | StopOnWrongSide | NoPerformance | BracketsNotLoaded | NoCandles | InvalidAtr
  | StopTooTight jsnum jsnum | LiquidationInsideStop jsnum jsnum | EngineRefused "risk_reason list"
  | Sized jsnum jsnum jsnum "jsnum option" jsnum circuit_state jsnum

record gate_decision =
  gd_approved :: bool
  gd_positionSizeUsdt :: jsnum
  gd_leverage :: jsnum
  gd_marginType :: margin_type
  gd_liqBufferAtr :: jsnum
  gd_reason :: gate_reason

definition gate_reject :: "gate_reason \<Rightarrow> gate_decision" where
  "gate_reject reason = \<lparr> gd_approved = False, gd_positionSizeUsdt = 0, gd_leverage = 0, gd_marginType = ISOLATED,
     gd_liqBufferAtr = 0, gd_reason = reason \<rparr>"

definition STOP_WIDTH_TOLERANCE :: jsnum where "STOP_WIDTH_TOLERANCE = 1/100"

section \<open>Helpers\<close>

text \<open>\<open>signal.type.startsWith('OPEN_')\<close>.\<close>

fun opens :: "signal_type \<Rightarrow> bool" where
  "opens OPEN_LONG = True"
| "opens OPEN_SHORT = True"
| "opens OPEN_HEDGE = True"
| "opens OPEN_FUNDING_SHORT = True"
| "opens CLOSE_SIGNAL = False"
| "opens MONITOR = False"
| "opens ALERT = False"

definition isShort :: "entry_signal \<Rightarrow> bool" where
  "isShort s \<longleftrightarrow> es_type s = OPEN_SHORT"

definition notionalOf :: "position list \<Rightarrow> jsnum" where
  "notionalOf ps = foldl (\<lambda>acc p. acc + p_qty p * p_mark p) 0 ps"

definition isStopOnWrongSide :: "entry_signal \<Rightarrow> jsnum \<Rightarrow> jsnum \<Rightarrow> bool" where
  "isStopOnWrongSide s entry stop = (if isShort s then stop \<le> entry else stop \<ge> entry)"

definition rewardRisk :: "entry_signal \<Rightarrow> jsnum \<Rightarrow> jsnum \<Rightarrow> jsnum option" where
  "rewardRisk s entry stop =
     (case es_takeProfit s of None \<Rightarrow> None | Some target \<Rightarrow> Some (abs (target - entry) / abs (entry - stop)))"

definition positions_of :: "market_context \<Rightarrow> position list" where
  "positions_of ctx = (case mc_positions ctx of None \<Rightarrow> [] | Some ps \<Rightarrow> ps)"

definition availableMargin :: "market_context \<Rightarrow> jsnum" where
  "availableMargin ctx =
     math_max 0 (mc_equity ctx - foldl (\<lambda>acc p. acc + (p_qty p * p_mark p) / math_max 1 (p_leverage p)) 0 (positions_of ctx))"

definition portfolioView :: "market_context \<Rightarrow> performance_snapshot \<Rightarrow> portfolio_view" where
  "portfolioView ctx performance =
     (let positions = positions_of ctx
      in \<lparr> pv_equity = mc_equity ctx, pv_openPositions = num_of_nat (length positions),
           pv_grossExposure = notionalOf positions,
           pv_symbolExposure = (\<lambda>symbol. notionalOf (filter (\<lambda>p. p_symbol p = symbol) positions)),
           pv_clusterExposure = (\<lambda>cluster. notionalOf (filter (\<lambda>p. clusterOf (p_symbol p) = cluster) positions)),
           pv_performance = performance, pv_openRisk = Some (openRiskOf positions) \<rparr>)"

text \<open>\<open>atr(candles, 14)\<close>: zero unless the last value of the series is finite.\<close>

definition atr :: "candle list \<Rightarrow> jsnum \<Rightarrow> jsnum" where
  "atr candles period =
     (case last_opt (wilderAtr candles period) of Some v \<Rightarrow> if is_finite v then v else 0 | None \<Rightarrow> 0)"

definition base_of :: "string \<Rightarrow> string" where
  "base_of symbol = takeWhile (\<lambda>c. c \<noteq> CHR ''/'') symbol"

definition candles_for :: "market_context \<Rightarrow> string \<Rightarrow> candle list option" where
  "candles_for ctx symbol =
     (case mc_candles ctx symbol of
        Some cs \<Rightarrow> Some cs
      | None \<Rightarrow> (case mc_candles ctx (base_of symbol) of
                   Some cs \<Rightarrow> Some cs
                 | None \<Rightarrow> mc_candles ctx (base_of symbol @ ''USDT'')))"

definition calculateDynamicLeverage :: "risk_env \<Rightarrow> jsnum \<Rightarrow> jsnum \<Rightarrow> jsnum \<Rightarrow> jsnum" where
  "calculateDynamicLeverage risk confidence slDistancePct atrBuffer =
     (let minLev = re_minLeverage risk; maxLev = re_maxLeverage risk;
          confFactor = math_max 0 (math_min 1 ((confidence - 1/2) / (1/2)));
          slFactor = math_max 0 (math_min 1 ((3/100) / math_max (8/1000) slDistancePct));
          bufferFactor = math_max 0 (math_min 1 ((atrBuffer - 3/2) / 2));
          score = 1/2 * confFactor + 3/10 * slFactor + 2/10 * bufferFactor;
          raw = minLev + score * (maxLev - minLev)
      in math_round (math_max minLev (math_min maxLev raw)))"

section \<open>The gate\<close>

text \<open>\<open>saved\<close> and \<open>now\<close> are the outcome and the time of the store's write.\<close>

definition isDrawdownBreached :: "gate_config \<Rightarrow> bool \<Rightarrow> jsnum \<Rightarrow> market_context \<Rightarrow> gate_state \<Rightarrow> bool \<times> gate_state" where
  "isDrawdownBreached cfg saved now ctx st =
     (let maxPct = re_maxDrawdownPct (gc_risk cfg); equity = mc_equity ctx
      in if maxPct \<le> 0 then (False, st)
         else if equity \<le> 0 then (True, st)
         else
           (let (peak, st') =
                  (case gs_hwm st of
                     Some (mode, store) \<Rightarrow>
                       (let store' = hwm_observe saved now mode equity store
                        in (hwm_peak mode store', st\<lparr> gs_hwm := Some (mode, store') \<rparr>))
                   | None \<Rightarrow>
                       (let p = math_max (gs_peakEquity st) equity in (p, st\<lparr> gs_peakEquity := p \<rparr>)))
            in (((peak - equity) / peak) * 100 > maxPct, st')))"

definition limits_of :: "gate_config \<Rightarrow> risk_agent_options \<Rightarrow> entry_signal \<Rightarrow> risk_limits" where
  "limits_of cfg opts s =
     (let baseLimits = (case ao_limits opts of Some l \<Rightarrow> l | None \<Rightarrow> riskLimitsFromConfig (gc_risk cfg) (gc_portfolioRiskPct cfg))
      in case ao_rrProfile opts of
           Some profile \<Rightarrow>
             baseLimits\<lparr> rl_minRiskRewardRatio := minRrFor (Some profile) (es_agent s) (rl_minRiskRewardRatio baseLimits) \<rparr>
         | None \<Rightarrow> baseLimits)"

definition size_multiplier :: "gate_config \<Rightarrow> risk_agent_options \<Rightarrow> entry_signal \<Rightarrow> market_context \<Rightarrow> jsnum option \<Rightarrow> jsnum" where
  "size_multiplier cfg opts s ctx evidenceScore =
     combinedSizeMultiplier (case ao_sizeScaling opts of Some x \<Rightarrow> x | None \<Rightarrow> gc_sizeScaling cfg)
       (mc_volatility ctx (es_symbol s)) evidenceScore"

definition sizing_request ::
  "gate_config \<Rightarrow> risk_agent_options \<Rightarrow> entry_signal \<Rightarrow> market_context \<Rightarrow> circuit_state \<Rightarrow> jsnum \<Rightarrow> jsnum \<Rightarrow> jsnum option \<Rightarrow> jsnum \<Rightarrow> sizing_input" where
  "sizing_request cfg opts s ctx circuit entry stop evidenceScore requestedLeverage =
     (let limits = limits_of cfg opts s
      in \<lparr> si_equity = mc_equity ctx, si_availableMargin = availableMargin ctx, si_direction = (if isShort s then SHORT else LONG),
           si_entry = entry, si_stop = stop, si_requestedLeverage = requestedLeverage,
           si_fundingRate = mc_funding ctx (es_symbol s), si_fundingPeriods = None,
           si_spec = contractSpecFor (es_symbol s) (gc_rules cfg (es_symbol s)) limits, si_limits = limits,
           si_circuitMultiplier = circuitRiskMultiplier circuit,
           si_riskMultiplier = Some (size_multiplier cfg opts s ctx evidenceScore) \<rparr>)"

text \<open>The ATR the stop is measured with: the state layer's when it is positive, else the candles'.\<close>

definition atr14_of :: "entry_signal \<Rightarrow> market_context \<Rightarrow> candle list \<Rightarrow> jsnum" where
  "atr14_of s ctx candles =
     (case mc_stateAtr ctx (es_symbol s) of Some a \<Rightarrow> if a > 0 then a else atr candles 14 | None \<Rightarrow> atr candles 14)"

text \<open>Sizing at the dynamic leverage and, where it has to come down, at the safe one; \<open>None\<close> when no leverage is safe.\<close>

definition safe_request ::
  "gate_config \<Rightarrow> risk_limits \<Rightarrow> side \<Rightarrow> jsnum \<Rightarrow> jsnum \<Rightarrow> jsnum \<Rightarrow> maintenance_tier list \<Rightarrow> sizing_result \<Rightarrow> safe_leverage_input" where
  "safe_request cfg limits sd entry stop atr14 tiers sizing =
     \<lparr> sl_side = sd, sl_entry = entry, sl_stop = stop, sl_qty = sr_quantity sizing, sl_atr = atr14,
       sl_clearanceAtr = gc_minLiqBufferAtr cfg, sl_requestedLeverage = sr_leverage sizing,
       sl_minLeverage = rl_minLeverage limits, sl_maxLeverage = rl_maxLeverage limits, sl_tiers = tiers \<rparr>"

definition safe_sizing ::
  "gate_config \<Rightarrow> risk_limits \<Rightarrow> side \<Rightarrow> jsnum \<Rightarrow> jsnum \<Rightarrow> jsnum \<Rightarrow> maintenance_tier list
    \<Rightarrow> (jsnum \<Rightarrow> sizing_result) \<Rightarrow> sizing_result \<Rightarrow> sizing_result option" where
  "safe_sizing cfg limits sd entry stop atr14 tiers size_at sizing =
     (if sr_ok sizing
      then (case safestLeverage (safe_request cfg limits sd entry stop atr14 tiers sizing) of
              None \<Rightarrow> None
            | Some (leverage, price) \<Rightarrow> Some (if leverage < sr_leverage sizing then size_at leverage else sizing))
      else Some sizing)"

text \<open>The ratio the engine checks: after costs where a profile is in use.\<close>

definition rr_of :: "risk_agent_options \<Rightarrow> entry_signal \<Rightarrow> risk_limits \<Rightarrow> jsnum \<Rightarrow> jsnum \<Rightarrow> jsnum option" where
  "rr_of opts s limits entry stop =
     (case (ao_rrProfile opts, es_takeProfit s) of
        (Some profile, Some target) \<Rightarrow>
          Some (costAdjustedRr
            \<lparr> rr_entry = entry, rr_stopLoss = stop, rr_takeProfit = target, rr_side = (if isShort s then SHORT else LONG),
              rr_fundingRate = None, rr_fundingIntervals = None \<rparr>
            \<lparr> cr_feeRate = rl_feeRateTaker limits, cr_slippageRate = rl_slippageBufferRate limits \<rparr>)
      | _ \<Rightarrow> rewardRisk s entry stop)"

definition risk_input_of ::
  "gate_config \<Rightarrow> risk_agent_options \<Rightarrow> entry_signal \<Rightarrow> market_context \<Rightarrow> performance_snapshot \<Rightarrow> jsnum \<Rightarrow> jsnum \<Rightarrow> sizing_result \<Rightarrow> risk_input" where
  "risk_input_of cfg opts s ctx snapshot entry stop sizing =
     \<lparr> ri_symbol = es_symbol s, ri_sizing = sizing, ri_portfolio = portfolioView ctx snapshot,
       ri_limits = limits_of cfg opts s, ri_rr = rr_of opts s (limits_of cfg opts s) entry stop \<rparr>"

text \<open>What follows the sizing: the engine's verdict and the decision.\<close>

definition decide_sized ::
  "gate_config \<Rightarrow> risk_agent_options \<Rightarrow> entry_signal \<Rightarrow> market_context \<Rightarrow> performance_snapshot \<Rightarrow> jsnum option \<Rightarrow> jsnum \<Rightarrow> jsnum \<Rightarrow> jsnum
    \<Rightarrow> maintenance_tier list \<Rightarrow> sizing_result \<Rightarrow> gate_decision" where
  "decide_sized cfg opts s ctx snapshot evidenceScore entry stop atr14 tiers sizing =
     (let verdict = evaluateRisk (risk_input_of cfg opts s ctx snapshot entry stop sizing)
      in if \<not> rd_approved verdict then gate_reject (EngineRefused (rd_reasons verdict))
         else
           (let liquidation = (if sr_ok sizing
                  then isolatedLiquidationPrice (if isShort s then SHORT else LONG) entry (sr_quantity sizing) (sr_leverage sizing) tiers
                  else None);
                clearance = (case liquidation of None \<Rightarrow> 0 | Some p \<Rightarrow> abs (stop - p) / atr14)
            in \<lparr> gd_approved = True, gd_positionSizeUsdt = sr_notional sizing, gd_leverage = sr_leverage sizing,
                 gd_marginType = ISOLATED, gd_liqBufferAtr = clearance,
                 gd_reason = Sized (sr_quantity sizing) (sr_notional sizing) (sr_leverage sizing) liquidation clearance
                   (rd_circuit verdict) (size_multiplier cfg opts s ctx evidenceScore) \<rparr>))"

text \<open>The sizing loop: the dynamic leverage first, then the safe one.\<close>

definition sized_at ::
  "dec_ops \<Rightarrow> gate_config \<Rightarrow> risk_agent_options \<Rightarrow> entry_signal \<Rightarrow> market_context \<Rightarrow> circuit_state \<Rightarrow> jsnum option \<Rightarrow> jsnum \<Rightarrow> jsnum \<Rightarrow> jsnum \<Rightarrow> sizing_result" where
  "sized_at D cfg opts s ctx circuit evidenceScore entry stop lev =
     sizePosition D (sizing_request cfg opts s ctx circuit entry stop evidenceScore lev)"

definition size_and_decide ::
  "dec_ops \<Rightarrow> gate_config \<Rightarrow> risk_agent_options \<Rightarrow> entry_signal \<Rightarrow> market_context \<Rightarrow> circuit_state \<Rightarrow> performance_snapshot \<Rightarrow> jsnum option
    \<Rightarrow> jsnum \<Rightarrow> jsnum \<Rightarrow> jsnum \<Rightarrow> maintenance_tier list \<Rightarrow> gate_decision" where
  "size_and_decide D cfg opts s ctx circuit snapshot evidenceScore entry stop atr14 tiers =
     (let first = sized_at D cfg opts s ctx circuit evidenceScore entry stop
            (calculateDynamicLeverage (gc_risk cfg) (es_confidence s) (abs (entry - stop) / entry) (abs (entry - stop) / atr14))
      in case safe_sizing cfg (limits_of cfg opts s) (if isShort s then SHORT else LONG) entry stop atr14 tiers
             (sized_at D cfg opts s ctx circuit evidenceScore entry stop) first of
           None \<Rightarrow> gate_reject (LiquidationInsideStop (rl_minLeverage (limits_of cfg opts s)) (sr_leverage first))
         | Some sizing \<Rightarrow> decide_sized cfg opts s ctx snapshot evidenceScore entry stop atr14 tiers sizing)"

definition evaluateWithEngine ::
  "dec_ops \<Rightarrow> gate_config \<Rightarrow> risk_agent_options \<Rightarrow> entry_signal \<Rightarrow> market_context \<Rightarrow> jsnum option \<Rightarrow> jsnum \<Rightarrow> jsnum \<Rightarrow> gate_decision" where
  "evaluateWithEngine D cfg opts s ctx evidenceScore entry stop =
     (case mc_performance ctx of
        None \<Rightarrow> gate_reject NoPerformance
      | Some (circuit, snapshot) \<Rightarrow>
          (case mc_maintenance ctx (es_symbol s) of
             None \<Rightarrow> gate_reject BracketsNotLoaded
           | Some tiers \<Rightarrow>
               if tiers = [] then gate_reject BracketsNotLoaded
               else (case candles_for ctx (es_symbol s) of
                       None \<Rightarrow> gate_reject NoCandles
                     | Some candles \<Rightarrow>
                         if candles = [] then gate_reject NoCandles
                         else
                           (let atr14 = atr14_of s ctx candles; stopWidth = abs (entry - stop) / atr14
                            in if \<not> atr14 > 0 then gate_reject InvalidAtr
                               else if stopWidth * (1 + STOP_WIDTH_TOLERANCE) < gc_minStopAtr cfg
                               then gate_reject (StopTooTight stopWidth (gc_minStopAtr cfg))
                               else size_and_decide D cfg opts s ctx circuit snapshot evidenceScore entry stop atr14 tiers))))"

definition gateEntry ::
  "dec_ops \<Rightarrow> gate_config \<Rightarrow> risk_agent_options \<Rightarrow> entry_signal \<Rightarrow> market_context \<Rightarrow> jsnum option \<Rightarrow> bool \<Rightarrow> jsnum \<Rightarrow> gate_state
    \<Rightarrow> gate_decision \<times> gate_state" where
  "gateEntry D cfg opts s ctx evidenceScore saved now st =
     (case isDrawdownBreached cfg saved now ctx st of (breached, st') \<Rightarrow>
        (if breached then gate_reject (DrawdownExceeds (re_maxDrawdownPct (gc_risk cfg)))
         else if es_type s = OPEN_HEDGE \<or> es_type s = OPEN_FUNDING_SHORT then gate_reject FundingHarvestRefused
         else (case (es_stopLoss s, es_entry s) of
                 (Some stop, Some entry) \<Rightarrow>
                   if \<not> truthy stop \<or> \<not> truthy entry then gate_reject MissingEntryOrStop
                   else if js_eq (abs (entry - stop) / entry) 0 then gate_reject StopMatchesEntry
                   else if isStopOnWrongSide s entry stop then gate_reject StopOnWrongSide
                   else evaluateWithEngine D cfg opts s ctx evidenceScore entry stop
               | _ \<Rightarrow> gate_reject MissingEntryOrStop), st'))"

definition gateSafety ::
  "dec_ops \<Rightarrow> gate_config \<Rightarrow> risk_agent_options \<Rightarrow> entry_signal \<Rightarrow> market_context \<Rightarrow> jsnum option \<Rightarrow> bool \<Rightarrow> jsnum \<Rightarrow> gate_state
    \<Rightarrow> gate_decision \<times> gate_state" where
  "gateSafety D cfg opts s ctx evidenceScore saved now st =
     (case (if opens (es_type s) then mc_safety ctx (es_symbol s) else None) of
        Some v \<Rightarrow> if sv_level v \<noteq> NormalLevel then (gate_reject (Unsafe v), st)
                  else gateEntry D cfg opts s ctx evidenceScore saved now st
      | None \<Rightarrow> gateEntry D cfg opts s ctx evidenceScore saved now st)"

text \<open>\<open>includes_text\<close>.\<close>

fun includes_text :: "string \<Rightarrow> string \<Rightarrow> bool" where
  "includes_text [] p = (p = [])"
| "includes_text (c # cs) p = (startsWith (c # cs) p \<or> includes_text cs p)"

definition unapproved :: "risk_agent_options \<Rightarrow> entry_signal \<Rightarrow> bool" where
  "unapproved opts s \<longleftrightarrow> ao_requireApproval opts \<and> opens (es_type s)
     \<and> \<not> (case ao_approvedStrategies opts of Some xs \<Rightarrow> es_agent s \<in> set xs | None \<Rightarrow> False)"

definition gate ::
  "dec_ops \<Rightarrow> gate_config \<Rightarrow> risk_agent_options \<Rightarrow> entry_signal \<Rightarrow> market_context \<Rightarrow> jsnum option \<Rightarrow> bool \<Rightarrow> jsnum \<Rightarrow> gate_state
    \<Rightarrow> gate_decision \<times> gate_state" where
  "gate D cfg opts s ctx evidenceScore saved now st =
     (if unapproved opts s then (gate_reject (NotApproved (es_agent s)), st)
      else (case ao_killSwitch opts of
              Some halt \<Rightarrow>
                if ks_halted halt \<and> opens (es_type s)
                   \<and> (re_maxDrawdownPct (gc_risk cfg) > 0 \<or> \<not> includes_text (ks_reason halt) ''drawdown'')
                then (gate_reject (KillSwitched (ks_reason halt)), snd (isDrawdownBreached cfg saved now ctx st))
                else gateSafety D cfg opts s ctx evidenceScore saved now st
            | None \<Rightarrow> gateSafety D cfg opts s ctx evidenceScore saved now st))"

section \<open>Lemmas\<close>

lemma js_minus_one_le: "(x::jsnum) \<noteq> NaN \<Longrightarrow> x - 1 \<le> x"
  by (cases x) auto

lemma search_down_sound:
  "search_down n i b x = Some (lev, p) \<Longrightarrow> b \<le> lev \<and> lev \<le> x \<and> clears_at i lev = Some p"
proof (induction n i b x rule: search_down.induct)
  case (2 n i b x)
  show ?case
  proof (cases "clears_at i x")
    case None
    with 2 have s: "b \<le> x" "search_down n i b (x - 1) = Some (lev, p)" by (auto split: if_splits)
    then have "lev \<le> x - 1" using 2(1) None by simp
    then have "lev \<le> x" using s(1) js_minus_one_le [of x] js_le_trans by (cases x) auto
    with 2(1) [OF s(1) None s(2)] show ?thesis by simp
  next
    case (Some q)
    with 2 show ?thesis by (auto split: if_splits)
  qed
qed simp

lemma floor_le: "math_floor x \<le> x \<longleftrightarrow> x \<noteq> NaN"
  by (cases x) auto

lemma safest_sound:
  assumes "safestLeverage i = Some (lev, p)"
  shows "1 \<le> lev \<and> lev \<le> sl_requestedLeverage i \<and> clears_at i lev = Some p"
proof -
  obtain tier where s: "search_down (Suc (whole (leverage_top i tier))) i (math_max 1 (sl_minLeverage i)) (leverage_top i tier) = Some (lev, p)"
    using assms by (auto simp: safestLeverage_def Let_def simp del: search_down.simps split: if_splits option.splits)
  note d = search_down_sound [OF s]
  have ne: "math_max 1 (sl_minLeverage i) \<noteq> NaN" "leverage_top i tier \<noteq> NaN" using d le_not_nan by blast+
  then have "1 \<le> math_max 1 (sl_minLeverage i)" by (intro math_max_ge) auto
  then have one: "1 \<le> lev" using d js_le_trans by blast
  let ?m = "math_min (math_min (sl_requestedLeverage i) (sl_maxLeverage i)) (mt_maxLeverage tier)"
  have "?m \<noteq> NaN" using ne(2) by (cases ?m) (auto simp: leverage_top_def)
  then have "leverage_top i tier \<le> ?m" "?m \<le> sl_requestedLeverage i"
    using math_min_le js_le_trans by (auto simp: leverage_top_def floor_le) (metis math_min_not_nan)
  then show ?thesis using d one js_le_trans by blast
qed

lemma sized_leverage:
  assumes "sr_ok (sizePosition D i)"
  shows "sr_leverage (sizePosition D i) = math_max 1 (clampedLeverage i)"
proof -
  from assms obtain c q w where b: "sizePosition D i = buildAcceptedSizing i q (riskBudgetOf D i) c w"
    by (rule sizePosition_ok_stages)
  with assms show ?thesis
    by (auto simp: buildAcceptedSizing_def sz_fail_def failed_with_def Let_def split: if_splits)
qed

lemma clamped_below:
  assumes "1 \<le> lev" and "lev < math_max 1 (clampedLeverage i)"
  shows "math_max 1 (clampedLeverage (i\<lparr> si_requestedLeverage := lev \<rparr>)) = lev"
proof -
  have c: "lev < clampedLeverage i"
    using assms by (cases "clampedLeverage i"; cases lev) (auto simp: math_max_def split: if_splits)
  then have "lev < rl_maxLeverage (si_limits i)" "lev < cs_maxLeverage (si_spec i)"
    by (auto simp: clampedLeverage_def math_min_def split: if_splits) (meson js_lt_trans js_not_lt_iff js_lt_le_trans)+
  then have "clampedLeverage (i\<lparr> si_requestedLeverage := lev \<rparr>) = lev"
    using js_lt_asym lt_not_nan by (auto simp: clampedLeverage_def math_min_def) (metis js_lt_asym js_lt_imp_le)+
  then show ?thesis using assms(1) le_not_nan [OF assms(1)] by (cases lev) (auto simp: math_max_def)
qed

lemma safe_sizing_clears:
  assumes "safe_sizing cfg limits sd entry stop atr14 tiers (\<lambda>lev. sizePosition D (i\<lparr> si_requestedLeverage := lev \<rparr>)) (sizePosition D i) = Some z"
    and "sr_ok z"
  shows "\<exists>p. isolatedLiquidationPrice sd entry (sr_quantity z) (sr_leverage z) tiers = Some p
    \<and> stopClearsLiquidation sd stop p (gc_minLiqBufferAtr cfg * atr14)"
    and "sr_ok (sizePosition D i)"
    and "z = sizePosition D i \<or> (sr_leverage z < sr_leverage (sizePosition D i) \<and> z = sizePosition D (i\<lparr> si_requestedLeverage := sr_leverage z \<rparr>))"
proof -
  let ?f = "sizePosition D i"
  have ok: "sr_ok ?f" using assms by (auto simp: safe_sizing_def split: if_splits)
  then obtain lev p where l: "safestLeverage (safe_request cfg limits sd entry stop atr14 tiers ?f) = Some (lev, p)"
    "z = (if lev < sr_leverage ?f then sizePosition D (i\<lparr> si_requestedLeverage := lev \<rparr>) else ?f)"
    using assms by (auto simp: safe_sizing_def split: option.splits)
  note s = safest_sound [OF l(1)]
  have z: "sr_quantity z = sr_quantity ?f \<and> sr_leverage z = lev
    \<and> (z = ?f \<or> (sr_leverage z < sr_leverage ?f \<and> z = sizePosition D (i\<lparr> si_requestedLeverage := sr_leverage z \<rparr>)))"
  proof (cases "lev < sr_leverage ?f")
    case True
    then have z: "z = sizePosition D (i\<lparr> si_requestedLeverage := lev \<rparr>)" using l(2) by simp
    have "math_max 1 (clampedLeverage (i\<lparr> si_requestedLeverage := lev \<rparr>)) = lev"
      using clamped_below s True sized_leverage [OF ok] by simp
    then have "sr_leverage z = lev" using sized_leverage [of D "i\<lparr> si_requestedLeverage := lev \<rparr>"] assms(2) z by simp
    then show ?thesis using quantity_independent_of_leverage [OF ok] assms(2) z True by simp
  next
    case False
    moreover have le: "lev \<le> sr_leverage ?f" using s by (simp add: safe_request_def)
    ultimately have "sr_leverage ?f \<le> lev" using js_not_lt_iff le_not_nan [OF le] by simp
    with le have "lev = sr_leverage ?f" by (rule js_le_antisym)
    with l(2) False show ?thesis by simp
  qed
  have "clears_at (safe_request cfg limits sd entry stop atr14 tiers q) lev = Some p \<Longrightarrow>
      isolatedLiquidationPrice sd entry (sr_quantity q) lev tiers = Some p \<and> stopClearsLiquidation sd stop p (gc_minLiqBufferAtr cfg * atr14)"
    for q by (simp add: clears_at_def safe_request_def split: option.splits if_splits)
  with s z show "\<exists>p. isolatedLiquidationPrice sd entry (sr_quantity z) (sr_leverage z) tiers = Some p
    \<and> stopClearsLiquidation sd stop p (gc_minLiqBufferAtr cfg * atr14)" by metis
  show "sr_ok ?f" by (rule ok)
  show "z = ?f \<or> (sr_leverage z < sr_leverage ?f \<and> z = sizePosition D (i\<lparr> si_requestedLeverage := sr_leverage z \<rparr>))"
    using z by blast
qed

text \<open>The size the gate asks the sizer for: at the dynamic leverage, or at a lower one where liquidation would be too near.\<close>

definition gate_sized ::
  "dec_ops \<Rightarrow> gate_config \<Rightarrow> risk_agent_options \<Rightarrow> entry_signal \<Rightarrow> market_context \<Rightarrow> circuit_state \<Rightarrow> jsnum option
    \<Rightarrow> jsnum \<Rightarrow> jsnum \<Rightarrow> jsnum \<Rightarrow> sizing_result \<Rightarrow> bool" where
  "gate_sized D cfg opts s ctx circuit ev entry stop atr14 z \<longleftrightarrow>
     (let first = sizePosition D (sizing_request cfg opts s ctx circuit entry stop ev
            (calculateDynamicLeverage (gc_risk cfg) (es_confidence s) (abs (entry - stop) / entry) (abs (entry - stop) / atr14)))
      in sr_ok first
         \<and> (z = first \<or> (sr_leverage z < sr_leverage first
              \<and> z = sizePosition D (sizing_request cfg opts s ctx circuit entry stop ev (sr_leverage z)))))"

lemma gate_approves_stages:
  assumes "gate D cfg opts s ctx ev saved now st = (d, st')" and "gd_approved d"
  shows "\<not> unapproved opts s
    \<and> (\<forall>h. ao_killSwitch opts = Some h \<and> ks_halted h \<and> opens (es_type s)
        \<longrightarrow> \<not> re_maxDrawdownPct (gc_risk cfg) > 0 \<and> includes_text (ks_reason h) ''drawdown'')
    \<and> (\<forall>v. mc_safety ctx (es_symbol s) = Some v \<and> opens (es_type s) \<longrightarrow> sv_level v = NormalLevel)
    \<and> isDrawdownBreached cfg saved now ctx st = (False, st')
    \<and> es_type s \<noteq> OPEN_HEDGE \<and> es_type s \<noteq> OPEN_FUNDING_SHORT
    \<and> (\<exists>entry stop. es_entry s = Some entry \<and> es_stopLoss s = Some stop \<and> truthy entry \<and> truthy stop
        \<and> \<not> isStopOnWrongSide s entry stop \<and> d = evaluateWithEngine D cfg opts s ctx ev entry stop)"
proof -
  have rej: "\<not> gd_approved (gate_reject r)" for r by (simp add: gate_reject_def)
  have g: "gateEntry D cfg opts s ctx ev saved now st = (d, st')"
    "\<not> unapproved opts s"
    "\<forall>h. ao_killSwitch opts = Some h \<and> ks_halted h \<and> opens (es_type s)
        \<longrightarrow> \<not> re_maxDrawdownPct (gc_risk cfg) > 0 \<and> includes_text (ks_reason h) ''drawdown''"
    "\<forall>v. mc_safety ctx (es_symbol s) = Some v \<and> opens (es_type s) \<longrightarrow> sv_level v = NormalLevel"
    using assms rej by (auto simp: gate_def gateSafety_def simp del: js_consts split: if_splits option.splits)
  obtain b st1 where b: "isDrawdownBreached cfg saved now ctx st = (b, st1)" by fastforce
  have e: "st1 = st'" "\<not> b" "es_type s \<noteq> OPEN_HEDGE" "es_type s \<noteq> OPEN_FUNDING_SHORT"
    "\<exists>entry stop. es_entry s = Some entry \<and> es_stopLoss s = Some stop \<and> truthy entry \<and> truthy stop
        \<and> \<not> isStopOnWrongSide s entry stop \<and> d = evaluateWithEngine D cfg opts s ctx ev entry stop"
    using g(1) assms(2) rej b by (auto simp: gateEntry_def simp del: js_consts split: if_splits option.splits)
  moreover have "isDrawdownBreached cfg saved now ctx st = (False, st')" using b e(1,2) by simp
  ultimately show ?thesis using g(2-4) by blast
qed

lemma not_approved_reject [simp]: "\<not> gd_approved (gate_reject r)"
  by (simp add: gate_reject_def)

lemma decide_sized_approved:
  assumes "gd_approved (decide_sized cfg opts s ctx snapshot ev entry stop atr14 tiers z)"
  shows "rd_approved (evaluateRisk (risk_input_of cfg opts s ctx snapshot entry stop z))
    \<and> gd_positionSizeUsdt (decide_sized cfg opts s ctx snapshot ev entry stop atr14 tiers z) = sr_notional z
    \<and> gd_leverage (decide_sized cfg opts s ctx snapshot ev entry stop atr14 tiers z) = sr_leverage z
    \<and> (\<exists>l c x m. gd_reason (decide_sized cfg opts s ctx snapshot ev entry stop atr14 tiers z)
          = Sized (sr_quantity z) (sr_notional z) (sr_leverage z) l c x m)"
  using assms by (auto simp: decide_sized_def Let_def split: if_splits)

lemma sized_request_at:
  "sized_at D cfg opts s ctx circuit ev entry stop lev
     = sizePosition D ((sizing_request cfg opts s ctx circuit entry stop ev l)\<lparr> si_requestedLeverage := lev \<rparr>)"
  by (simp add: sized_at_def sizing_request_def Let_def)

lemma engine_approves_stages:
  assumes "gd_approved (evaluateWithEngine D cfg opts s ctx ev entry stop)"
  obtains circuit snapshot tiers candles z where
      "mc_performance ctx = Some (circuit, snapshot)" "mc_maintenance ctx (es_symbol s) = Some tiers"
      "candles_for ctx (es_symbol s) = Some candles" "0 < atr14_of s ctx candles"
      "\<not> abs (entry - stop) / atr14_of s ctx candles * (1 + STOP_WIDTH_TOLERANCE) < gc_minStopAtr cfg"
      "rd_approved (evaluateRisk (risk_input_of cfg opts s ctx snapshot entry stop z))"
      "gd_positionSizeUsdt (evaluateWithEngine D cfg opts s ctx ev entry stop) = sr_notional z"
      "gd_leverage (evaluateWithEngine D cfg opts s ctx ev entry stop) = sr_leverage z"
      "\<exists>l c x m. gd_reason (evaluateWithEngine D cfg opts s ctx ev entry stop) = Sized (sr_quantity z) (sr_notional z) (sr_leverage z) l c x m"
      "gate_sized D cfg opts s ctx circuit ev entry stop (atr14_of s ctx candles) z"
      "\<exists>p. isolatedLiquidationPrice (if isShort s then SHORT else LONG) entry (sr_quantity z) (sr_leverage z) tiers = Some p
        \<and> stopClearsLiquidation (if isShort s then SHORT else LONG) stop p (gc_minLiqBufferAtr cfg * atr14_of s ctx candles)"
proof -
  obtain circuit snapshot tiers candles where 1: "mc_performance ctx = Some (circuit, snapshot)"
    "mc_maintenance ctx (es_symbol s) = Some tiers" "tiers \<noteq> []" "candles_for ctx (es_symbol s) = Some candles" "candles \<noteq> []"
    using assms by (auto simp: evaluateWithEngine_def split: option.splits prod.splits if_splits)
  let ?atr = "atr14_of s ctx candles"
  let ?sd = "if isShort s then SHORT else LONG"
  have 2: "0 < ?atr" "\<not> abs (entry - stop) / ?atr * (1 + STOP_WIDTH_TOLERANCE) < gc_minStopAtr cfg"
    and e: "evaluateWithEngine D cfg opts s ctx ev entry stop = size_and_decide D cfg opts s ctx circuit snapshot ev entry stop ?atr tiers"
    using assms 1 by (auto simp: evaluateWithEngine_def Let_def simp del: js_consts split: if_splits)
  let ?i = "sizing_request cfg opts s ctx circuit entry stop ev
    (calculateDynamicLeverage (gc_risk cfg) (es_confidence s) (abs (entry - stop) / entry) (abs (entry - stop) / ?atr))"
  have size: "sized_at D cfg opts s ctx circuit ev entry stop = (\<lambda>lev. sizePosition D (?i\<lparr> si_requestedLeverage := lev \<rparr>))"
    by (rule ext) (rule sized_request_at)
  obtain z where z: "safe_sizing cfg (limits_of cfg opts s) ?sd entry stop ?atr tiers
      (\<lambda>lev. sizePosition D (?i\<lparr> si_requestedLeverage := lev \<rparr>)) (sizePosition D ?i) = Some z"
    and d: "evaluateWithEngine D cfg opts s ctx ev entry stop = decide_sized cfg opts s ctx snapshot ev entry stop ?atr tiers z"
    using assms unfolding e size_and_decide_def Let_def size [symmetric] by (auto simp: sized_at_def split: option.splits)
  note a = decide_sized_approved [OF assms [unfolded d]]
  then have "sr_ok z" using approved_facts [of "risk_input_of cfg opts s ctx snapshot entry stop z"] by (simp add: risk_input_of_def)
  note c = safe_sizing_clears [OF z this]
  have at: "?i\<lparr> si_requestedLeverage := l \<rparr> = sizing_request cfg opts s ctx circuit entry stop ev l" for l
    by (simp add: sizing_request_def Let_def)
  have "gate_sized D cfg opts s ctx circuit ev entry stop ?atr z" unfolding gate_sized_def Let_def using c(2,3) at by metis
  with c(1) that [OF 1(1,2,4) 2 _ _ _ _ _] a show thesis unfolding d by blast
qed

lemma wrong_side_beyond:
  assumes "\<not> isStopOnWrongSide s entry stop" and "truthy entry" and "truthy stop"
  shows "beyond (if isShort s then SHORT else LONG) entry stop"
  using assms js_not_le_iff by (auto simp: isStopOnWrongSide_def beyond_def truthy_def)

section \<open>Properties\<close>

text \<open>The limits a sized entry is within, and its liquidation behind its stop.\<close>

definition within_limits ::
  "gate_config \<Rightarrow> risk_agent_options \<Rightarrow> entry_signal \<Rightarrow> market_context \<Rightarrow> performance_snapshot \<Rightarrow> jsnum \<Rightarrow> jsnum \<Rightarrow> sizing_result \<Rightarrow> bool" where
  "within_limits cfg opts s ctx snapshot entry stop z \<longleftrightarrow>
     (let limits = limits_of cfg opts s; i = risk_input_of cfg opts s ctx snapshot entry stop z
      in sr_ok z
         \<and> sr_riskAmount z \<le> (mc_equity ctx * rl_maxRiskPerTradePercent limits) / 100
             * circuitRiskMultiplier (rd_circuit (evaluateRisk i)) * RISK_BUDGET_TOLERANCE
         \<and> sr_leverage z \<le> rl_maxLeverage limits
         \<and> num_of_nat (length (positions_of ctx)) + 1 \<le> rl_maxConcurrentPositions limits
         \<and> ps_dailyLossPercent snapshot < rl_maxDailyLossPercent limits
         \<and> ps_lossStreak snapshot < rl_maxLossStreak limits
         \<and> exposureBreaches i = []
         \<and> (\<forall>cap. rl_maxPortfolioRiskPercent limits = Some cap \<and> 0 < sr_riskAmount z
              \<longrightarrow> (\<forall>r. pv_openRisk (ri_portfolio i) = Some r
                    \<longrightarrow> (r + sr_riskAmount z) / math_max 1 (mc_equity ctx) * 100 \<le> cap))
         \<and> (0 < rl_minRiskRewardRatio limits
              \<longrightarrow> (\<exists>rr. rr_of opts s limits entry stop = Some rr \<and> rl_minRiskRewardRatio limits \<le> rr)))"

definition liquidation_behind_stop ::
  "gate_config \<Rightarrow> entry_signal \<Rightarrow> jsnum \<Rightarrow> jsnum \<Rightarrow> jsnum \<Rightarrow> maintenance_tier list \<Rightarrow> sizing_result \<Rightarrow> bool" where
  "liquidation_behind_stop cfg s entry stop atr14 tiers z \<longleftrightarrow>
     (\<exists>p. isolatedLiquidationPrice (if isShort s then SHORT else LONG) entry (sr_quantity z) (sr_leverage z) tiers = Some p
        \<and> stopClearsLiquidation (if isShort s then SHORT else LONG) stop p (gc_minLiqBufferAtr cfg * atr14))"

lemma approved_limits:
  assumes "rd_approved (evaluateRisk (risk_input_of cfg opts s ctx snapshot entry stop z))"
  shows "within_limits cfg opts s ctx snapshot entry stop z"
proof -
  have "ri_sizing (risk_input_of cfg opts s ctx snapshot entry stop z) = z"
    "ri_limits (risk_input_of cfg opts s ctx snapshot entry stop z) = limits_of cfg opts s"
    "pv_equity (ri_portfolio (risk_input_of cfg opts s ctx snapshot entry stop z)) = mc_equity ctx"
    "pv_openPositions (ri_portfolio (risk_input_of cfg opts s ctx snapshot entry stop z)) = num_of_nat (length (positions_of ctx))"
    "pv_performance (ri_portfolio (risk_input_of cfg opts s ctx snapshot entry stop z)) = snapshot"
    "ri_rr (risk_input_of cfg opts s ctx snapshot entry stop z) = rr_of opts s (limits_of cfg opts s) entry stop"
    by (simp_all add: risk_input_of_def portfolioView_def Let_def)
  note f = approved_facts [OF assms, unfolded this]
  show ?thesis unfolding within_limits_def Let_def using f by blast
qed

text \<open>
  C1. An approved entry passed every guard: the strategy was approved, no halt was on but a drawdown halt whose limit
  is off, the market was safe, the account's drawdown is within its limit, the entry is a plain long or short, and its
  stop lies on the losing side and at least the required ATRs away. The size decided is the sizer's answer to the
  gate's own request (this account, entry, stop and circuit) at the dynamic leverage or, where liquidation would be
  too near, at the lower leverage decided; the sizer accepted it; the loss at the stop is within the circuit-scaled budget
  per trade; leverage, position count, losses, exposures, the risk of the open positions and the reward per risk are
  within their limits; and at that leverage and quantity the liquidation price lies behind the stop by the
  required buffer.
\<close>

theorem approved_entry_passed_every_guard:
  assumes "gate D cfg opts s ctx ev saved now st = (d, st')" and "gd_approved d" and "opens (es_type s)"
  shows "es_type s \<in> {OPEN_LONG, OPEN_SHORT} \<and> \<not> unapproved opts s
    \<and> (\<forall>h. ao_killSwitch opts = Some h \<and> ks_halted h
        \<longrightarrow> \<not> 0 < re_maxDrawdownPct (gc_risk cfg) \<and> includes_text (ks_reason h) ''drawdown'')
    \<and> (\<forall>v. mc_safety ctx (es_symbol s) = Some v \<longrightarrow> sv_level v = NormalLevel)
    \<and> \<not> fst (isDrawdownBreached cfg saved now ctx st)
    \<and> (\<exists>entry stop circuit snapshot tiers candles z.
          es_entry s = Some entry \<and> es_stopLoss s = Some stop \<and> beyond (if isShort s then SHORT else LONG) entry stop
        \<and> mc_performance ctx = Some (circuit, snapshot) \<and> mc_maintenance ctx (es_symbol s) = Some tiers
        \<and> candles_for ctx (es_symbol s) = Some candles
        \<and> \<not> abs (entry - stop) / atr14_of s ctx candles * (1 + STOP_WIDTH_TOLERANCE) < gc_minStopAtr cfg
        \<and> gate_sized D cfg opts s ctx circuit ev entry stop (atr14_of s ctx candles) z
        \<and> gd_positionSizeUsdt d = sr_notional z \<and> gd_leverage d = sr_leverage z
        \<and> (\<exists>l c x m. gd_reason d = Sized (sr_quantity z) (sr_notional z) (sr_leverage z) l c x m)
        \<and> within_limits cfg opts s ctx snapshot entry stop z
        \<and> liquidation_behind_stop cfg s entry stop (atr14_of s ctx candles) tiers z)"
proof -
  note g = gate_approves_stages [OF assms(1,2)]
  then obtain entry stop where es: "es_entry s = Some entry" "es_stopLoss s = Some stop" "truthy entry" "truthy stop"
    "\<not> isStopOnWrongSide s entry stop" "d = evaluateWithEngine D cfg opts s ctx ev entry stop" by blast
  have "gd_approved (evaluateWithEngine D cfg opts s ctx ev entry stop)" using assms(2) es(6) by simp
  then obtain circuit snapshot tiers candles z where e: "mc_performance ctx = Some (circuit, snapshot)"
    "mc_maintenance ctx (es_symbol s) = Some tiers" "candles_for ctx (es_symbol s) = Some candles"
    "\<not> abs (entry - stop) / atr14_of s ctx candles * (1 + STOP_WIDTH_TOLERANCE) < gc_minStopAtr cfg"
    "rd_approved (evaluateRisk (risk_input_of cfg opts s ctx snapshot entry stop z))"
    "gd_positionSizeUsdt d = sr_notional z" "gd_leverage d = sr_leverage z"
    "\<exists>l c x m. gd_reason d = Sized (sr_quantity z) (sr_notional z) (sr_leverage z) l c x m"
    "gate_sized D cfg opts s ctx circuit ev entry stop (atr14_of s ctx candles) z"
    "liquidation_behind_stop cfg s entry stop (atr14_of s ctx candles) tiers z"
    unfolding es(6) liquidation_behind_stop_def by (rule engine_approves_stages) blast
  have t: "es_type s \<in> {OPEN_LONG, OPEN_SHORT}" using g assms(3) by (cases "es_type s") auto
  have "\<not> fst (isDrawdownBreached cfg saved now ctx st)" using g by simp
  with g t assms(3) es(1,2) wrong_side_beyond [OF es(5,3,4)] e approved_limits [OF e(5)] show ?thesis by blast
qed

text \<open>
  A halt is not always a refusal: with the drawdown limit off, a halt whose reason mentions the drawdown is passed
  over, and the entry is judged as if there were none.
\<close>

theorem drawdown_halt_passed_over:
  assumes "\<not> 0 < re_maxDrawdownPct (gc_risk cfg)" and "includes_text (ks_reason h) ''drawdown''"
  shows "gate D cfg (opts\<lparr> ao_killSwitch := Some h \<rparr>) s ctx ev saved now st
    = gate D cfg (opts\<lparr> ao_killSwitch := None \<rparr>) s ctx ev saved now st"
proof -
  have l: "limits_of cfg (opts\<lparr> ao_killSwitch := k \<rparr>) s = limits_of cfg opts s"
    "size_multiplier cfg (opts\<lparr> ao_killSwitch := k \<rparr>) s ctx e = size_multiplier cfg opts s ctx e"
    "rr_of (opts\<lparr> ao_killSwitch := k \<rparr>) s li x y = rr_of opts s li x y"
    "unapproved (opts\<lparr> ao_killSwitch := k \<rparr>) s = unapproved opts s" for k e li x y
    by (simp_all add: limits_of_def size_multiplier_def rr_of_def unapproved_def)
  have d: "decide_sized cfg (opts\<lparr> ao_killSwitch := k \<rparr>) s ctx sn ev x y a t = decide_sized cfg opts s ctx sn ev x y a t" for k sn x y a t
    by (rule ext) (simp add: decide_sized_def risk_input_of_def l Let_def)
  have sz: "sized_at D cfg (opts\<lparr> ao_killSwitch := k \<rparr>) s ctx c ev x y = sized_at D cfg opts s ctx c ev x y" for k c x y
    by (rule ext) (simp add: sized_at_def sizing_request_def l Let_def)
  have "size_and_decide D cfg (opts\<lparr> ao_killSwitch := k \<rparr>) s ctx c sn ev x y a t = size_and_decide D cfg opts s ctx c sn ev x y a t"
    for k c sn x y a t by (simp add: size_and_decide_def d sz l Let_def cong: option.case_cong)
  then have e: "evaluateWithEngine D cfg (opts\<lparr> ao_killSwitch := k \<rparr>) s ctx ev = evaluateWithEngine D cfg opts s ctx ev" for k
    by (intro ext) (simp add: evaluateWithEngine_def Let_def split: option.split)
  have "gateEntry D cfg (opts\<lparr> ao_killSwitch := k \<rparr>) s ctx ev saved now st = gateEntry D cfg opts s ctx ev saved now st" for k
    unfolding gateEntry_def e ..
  then have "gateSafety D cfg (opts\<lparr> ao_killSwitch := k \<rparr>) s ctx ev saved now st = gateSafety D cfg opts s ctx ev saved now st" for k
    unfolding gateSafety_def by (simp split: option.split)
  then show ?thesis using assms l(4) by (simp add: gate_def del: js_consts)
qed

section \<open>Witnesses\<close>

definition demo_gate :: gate_config where
  "demo_gate = \<lparr> gc_risk = \<lparr> re_riskPerTradePct = 1, re_maxLeverage = 10, re_minLeverage = 1, re_maxDailyLossPct = 3,
       re_maxDrawdownPct = 15, re_maxLossStreak = 4, re_maxConcurrentPositions = 5, re_maxSymbolExposurePct = 100,
       re_maxExposurePct = 300, re_maxCorrelatedExposurePct = 200, re_minRr = 3/2, re_takerFeeRate = 4/10000,
       re_slippageBufferRate = 2/10000 \<rparr>,
     gc_portfolioRiskPct = None, gc_minStopAtr = 2, gc_minLiqBufferAtr = 1,
     gc_sizeScaling = \<lparr> ss_volatility = False, ss_score = False \<rparr>, gc_rules = (\<lambda>_. DEFAULT_RULES) \<rparr>"

definition demo_options :: risk_agent_options where
  "demo_options = \<lparr> ao_limits = None, ao_killSwitch = Some NOT_HALTED, ao_rrProfile = None, ao_requireApproval = True,
     ao_approvedStrategies = Some [MOMENTUM], ao_sizeScaling = None \<rparr>"

definition demo_signal :: entry_signal where
  "demo_signal = \<lparr> es_id = ''s1'', es_agent = MOMENTUM, es_symbol = ''BTCUSDT'', es_type = OPEN_LONG, es_confidence = 3/4,
     es_entry = Some 100, es_stopLoss = Some 95, es_takeProfit = Some 110, es_ts = 0 \<rparr>"

definition demo_ctx :: market_context where
  "demo_ctx = \<lparr> mc_candles = (\<lambda>_. Some [demo_bar 0 100]), mc_funding = (\<lambda>_. None), mc_equity = 10000, mc_positions = None,
     mc_stateAtr = (\<lambda>_. Some 2), mc_volatility = (\<lambda>_. None), mc_safety = (\<lambda>_. Some (assessSafety demo_safety)),
     mc_maintenance = (\<lambda>_. Some REPLAY_MAINTENANCE_TIERS),
     mc_performance = Some (NORMAL, perf_snapshot (perf_new 10000) 10000 0) \<rparr>"

definition demo_request :: "real \<Rightarrow> sizing_input" where
  "demo_request lev = demo_sizing\<lparr> si_requestedLeverage := Fin lev, si_availableMargin := Fin 10000, si_riskMultiplier := Some (Fin 1) \<rparr>"

lemma demo_request_eq:
  "sizing_request demo_gate demo_options demo_signal demo_ctx NORMAL (Fin 100) (Fin 95) None (Fin lev) = demo_request lev"
  by (simp add: sizing_request_def demo_request_def demo_sizing_def demo_gate_def demo_options_def demo_signal_def demo_ctx_def
      limits_of_def demo_limits_def availableMargin_def positions_of_def isShort_def size_multiplier_def combinedSizeMultiplier_def Let_def)

lemma demo_request_sized:
  "sizePosition exact_dec (demo_request 6) =
     \<lparr> sr_ok = True, sr_rejection = None, sr_quantity = Fin (19531/1000), sr_notional = Fin (19531/10),
       sr_marginRequired = Fin (19531/60), sr_leverage = Fin 6, sr_riskAmount = Fin (9999872/100000),
       sr_effectiveRiskPerUnit = Fin (512/100), sr_feePerUnit = Fin (12/100), sr_fundingPerUnit = Fin 0, sr_warnings = [] \<rparr>"
proof -
  let ?i = "demo_request 6"
  let ?c = "\<lparr> cm_feePerUnit = Fin (12/100), cm_fundingPerUnit = Fin 0, cm_effectiveRiskPerUnit = Fin (512/100) \<rparr>"
  have fin: "firstNonFinite ?i = None"
    by (simp add: firstNonFinite_def FINITE_FIELDS_def demo_request_def demo_sizing_defs)
  have budget: "riskBudgetOf exact_dec ?i = Fin 100"
    by (simp add: riskBudgetOf_def or_else_def demo_request_def demo_sizing_defs)
  have dist: "abs (si_entry ?i - si_stop ?i) = Fin 5" by (simp add: demo_request_def demo_sizing_defs)
  have costs: "buildCosts exact_dec ?i (Fin 5) = ?c"
    by (simp add: buildCosts_def or_else_def ROUND_TRIP_LEGS_def DEFAULT_FUNDING_PERIODS_def demo_request_def demo_sizing_defs Let_def)
  have step: "\<lfloor>100 * 1000 / (512/100 :: real)\<rfloor> = 19531" by (simp add: floor_eq_iff)
  have qty: "resolveQuantity exact_dec ?i (Fin 100) ?c = Inr (Fin (19531/1000), [])"
    using step
    by (simp add: resolveQuantity_def raiseToMinNotional_def capNotional_def floorToStep_def truncate_real_def
        demo_request_def demo_sizing_defs Let_def)
  have lev: "clampedLeverage ?i = Fin 6" by (simp add: clampedLeverage_def demo_request_def demo_sizing_defs)
  show ?thesis
    unfolding sizePosition_acceptI [OF fin budget _ dist _ costs qty, simplified]
    by (simp add: buildAcceptedSizing_def lev RISK_BUDGET_TOLERANCE_def Let_def) (simp add: demo_request_def demo_sizing_defs)
qed

lemma demo_dynamic_leverage: "calculateDynamicLeverage (gc_risk demo_gate) (Fin (3/4)) (Fin (1/20)) (Fin (5/2)) = Fin 6"
  by (simp add: calculateDynamicLeverage_def demo_gate_def Let_def max_def min_def floor_eq_iff)

lemma demo_safest:
  "safestLeverage (safe_request demo_gate demo_limits LONG (Fin 100) (Fin 95) (Fin 2) REPLAY_MAINTENANCE_TIERS
     (sizePosition exact_dec (demo_request 6))) = Some (Fin 6, Fin (25000/297))"
proof -
  have price: "isolatedLiquidationPrice LONG (Fin 100) (Fin (19531/1000)) (Fin 6) REPLAY_MAINTENANCE_TIERS = Some (Fin (25000/297))"
    by (simp add: isolatedLiquidationPrice_def tierForNotional_def REPLAY_MAINTENANCE_TIERS_def last_opt_def
        numeral_eq_Suc solve_def Let_def)
  have six: "\<lfloor>6::real\<rfloor> = 6" by simp
  show ?thesis
    by (simp add: safestLeverage_def safe_request_def demo_request_sized leverage_top_def tierForNotional_def
        REPLAY_MAINTENANCE_TIERS_def last_opt_def demo_gate_def demo_limits_def riskLimitsFromConfig_def Let_def
        clears_at_def price [unfolded REPLAY_MAINTENANCE_TIERS_def, simplified] stopClearsLiquidation_def)
qed

lemma demo_approved:
  "rd_approved (evaluateRisk (risk_input_of demo_gate demo_options demo_signal demo_ctx (perf_snapshot (perf_new 10000) 10000 0)
     (Fin 100) (Fin 95) (sizePosition exact_dec (demo_request 6))))" (is "rd_approved (evaluateRisk ?i)")
proof -
  have lim: "limits_of demo_gate demo_options demo_signal = demo_limits"
    by (simp add: limits_of_def demo_options_def demo_gate_def demo_limits_def)
  have i: "?i = \<lparr> ri_symbol = ''BTCUSDT'', ri_sizing = sizePosition exact_dec (demo_request 6),
     ri_portfolio = \<lparr> pv_equity = 10000, pv_openPositions = 0, pv_grossExposure = 0, pv_symbolExposure = (\<lambda>_. 0), pv_clusterExposure = (\<lambda>_. 0),
        pv_performance = perf_snapshot (perf_new 10000) 10000 0, pv_openRisk = Some 0 \<rparr>,
     ri_limits = demo_limits, ri_rr = Some 2 \<rparr>"
    by (simp add: risk_input_of_def lim [unfolded demo_options_def demo_signal_def, simplified] lim portfolioView_def positions_of_def demo_ctx_def notionalOf_def openRiskOf_def num_of_nat_def
        rr_of_def demo_options_def rewardRisk_def demo_signal_def Let_def)
  have circuit: "deriveCircuitState 0 0 0 demo_limits = NORMAL"
    by (simp add: deriveCircuitState_def worse_of_def stateForRatio_def REDUCED_FRACTION_def CAUTION_FRACTION_def
        demo_limits_def riskLimitsFromConfig_def)
  have no: "exposureBreaches ?i = []"
    unfolding i by (simp add: exposureBreaches_def demo_request_sized demo_cluster percentOf_def
        EXPOSURE_PERCENT_DECIMALS_def round_away_def demo_limits_def riskLimitsFromConfig_def UNCAPPED_NOTIONAL_def
        Let_def floor_eq_iff)
  have "\<forall>c\<in>set (runChecks ?i NORMAL). rc_passed c"
    unfolding runChecks_def portfolioLimitsCheck_def no unfolding i
    by (simp add: sizingChecks_def portfolioChecks_def portfolioRiskCheck_def
        minRewardRiskCheck_def demo_performance demo_request_sized demo_limits_def
        riskLimitsFromConfig_def RISK_BUDGET_TOLERANCE_def Let_def)
  then show ?thesis
    using circuit unfolding i by (simp add: evaluateRisk_def filter_empty_conv Let_def demo_performance)
qed

lemma demo_gate_approves:
  "\<exists>d st'. gate exact_dec demo_gate demo_options demo_signal demo_ctx None True 0 \<lparr> gs_peakEquity = 0, gs_hwm = None \<rparr> = (d, st')
     \<and> gd_approved d"
proof -
  let ?st = "\<lparr> gs_peakEquity = 0, gs_hwm = None \<rparr>"
  have lim: "limits_of demo_gate demo_options demo_signal = demo_limits"
    by (simp add: limits_of_def demo_options_def demo_gate_def demo_limits_def)
  have short: "\<not> isShort demo_signal" by (simp add: isShort_def demo_signal_def)
  have at: "sized_at exact_dec demo_gate demo_options demo_signal demo_ctx NORMAL None (Fin 100) (Fin 95) (Fin 6)
      = sizePosition exact_dec (demo_request 6)" by (simp add: sized_at_def demo_request_eq)
  have lev: "calculateDynamicLeverage (gc_risk demo_gate) (es_confidence demo_signal) (Fin (1/20)) (Fin (5/2)) = Fin 6"
    using demo_dynamic_leverage by (simp add: demo_signal_def)
  have "safe_sizing demo_gate demo_limits LONG (Fin 100) (Fin 95) (Fin 2) REPLAY_MAINTENANCE_TIERS
      (sized_at exact_dec demo_gate demo_options demo_signal demo_ctx NORMAL None (Fin 100) (Fin 95)) (sizePosition exact_dec (demo_request 6))
      = Some (sizePosition exact_dec (demo_request 6))"
    by (simp add: safe_sizing_def demo_safest) (simp add: demo_request_sized)
  then have sd: "gd_approved (size_and_decide exact_dec demo_gate demo_options demo_signal demo_ctx NORMAL (perf_snapshot (perf_new 10000) 10000 0)
      None (Fin 100) (Fin 95) (Fin 2) REPLAY_MAINTENANCE_TIERS)"
    using demo_approved by (simp add: size_and_decide_def lev at lim short decide_sized_def Let_def)
  have "gd_approved (evaluateWithEngine exact_dec demo_gate demo_options demo_signal demo_ctx None (Fin 100) (Fin 95))"
  proof -
    have "mc_performance demo_ctx = Some (NORMAL, perf_snapshot (perf_new 10000) 10000 0)"
      "mc_maintenance demo_ctx (es_symbol demo_signal) = Some REPLAY_MAINTENANCE_TIERS" "REPLAY_MAINTENANCE_TIERS \<noteq> []"
      "candles_for demo_ctx (es_symbol demo_signal) = Some [demo_bar 0 100]" "atr14_of demo_signal demo_ctx [demo_bar 0 100] = Fin 2"
      "gc_minStopAtr demo_gate = Fin 2"
      by (simp_all add: demo_ctx_def REPLAY_MAINTENANCE_TIERS_def candles_for_def atr14_of_def demo_gate_def)
    then show ?thesis using sd by (simp add: evaluateWithEngine_def STOP_WIDTH_TOLERANCE_def)
  qed
  moreover have "isDrawdownBreached demo_gate True 0 demo_ctx ?st = (False, ?st\<lparr> gs_peakEquity := Fin 10000 \<rparr>)"
    by (simp add: isDrawdownBreached_def demo_gate_def demo_ctx_def Let_def)
  ultimately have "gd_approved (fst (gateEntry exact_dec demo_gate demo_options demo_signal demo_ctx None True 0 ?st))"
    by (simp add: gateEntry_def demo_signal_def isStopOnWrongSide_def isShort_def)
  moreover have "mc_safety demo_ctx (es_symbol demo_signal) = Some (assessSafety demo_safety)" by (simp add: demo_ctx_def)
  ultimately have "gd_approved (fst (gateSafety exact_dec demo_gate demo_options demo_signal demo_ctx None True 0 ?st))"
    using demo_safety_normal by (simp add: gateSafety_def)
  moreover have "\<not> unapproved demo_options demo_signal" "ao_killSwitch demo_options = Some NOT_HALTED"
    by (simp_all add: unapproved_def demo_options_def demo_signal_def)
  ultimately show ?thesis by (simp add: gate_def NOT_HALTED_def) (metis prod.collapse)
qed

lemma approved_entry_passed_every_guard_witness:
  "\<exists>d st'. gate exact_dec demo_gate demo_options demo_signal demo_ctx None True 0 \<lparr> gs_peakEquity = 0, gs_hwm = None \<rparr> = (d, st')
     \<and> gd_leverage d \<le> 10
     \<and> (\<exists>z. gate_sized exact_dec demo_gate demo_options demo_signal demo_ctx NORMAL None (Fin 100) (Fin 95) (Fin 2) z
          \<and> gd_positionSizeUsdt d = sr_notional z \<and> sr_ok z)"
proof -
  obtain d st' where d: "gate exact_dec demo_gate demo_options demo_signal demo_ctx None True 0 \<lparr> gs_peakEquity = 0, gs_hwm = None \<rparr> = (d, st')"
    "gd_approved d" using demo_gate_approves by blast
  have o: "opens (es_type demo_signal)" by (simp add: demo_signal_def)
  have l: "rl_maxLeverage (limits_of demo_gate demo_options demo_signal) = 10"
    by (simp add: limits_of_def demo_options_def demo_gate_def riskLimitsFromConfig_def)
  obtain entry stop circuit snapshot candles z where z: "es_entry demo_signal = Some entry" "es_stopLoss demo_signal = Some stop"
    "mc_performance demo_ctx = Some (circuit, snapshot)"
    "gate_sized exact_dec demo_gate demo_options demo_signal demo_ctx circuit None entry stop (atr14_of demo_signal demo_ctx candles) z"
    "gd_positionSizeUsdt d = sr_notional z" "gd_leverage d = sr_leverage z"
    "within_limits demo_gate demo_options demo_signal demo_ctx snapshot entry stop z"
    using approved_entry_passed_every_guard [OF d o] by blast
  have e: "entry = Fin 100" "stop = Fin 95" "circuit = NORMAL" "atr14_of demo_signal demo_ctx candles = Fin 2"
    using z(1-3) by (simp_all add: demo_signal_def demo_ctx_def atr14_of_def)
  have "sr_ok z" "sr_leverage z \<le> 10" using z(7) l by (auto simp: within_limits_def Let_def simp del: js_consts)
  then show ?thesis using d(1) z(4-6) unfolding e by auto
qed

end
