(* ===== verification/DecisionCycle.thy ===== *)
theory DecisionCycle
  imports Thesis SetupLedger RiskGate
begin

text \<open>
  A decision cycle of one symbol as \<open>src/runtime/Orchestrator.ts\<close> composes it (flow, setups, ledger, verdicts, thesis),
  the AI council's chair (\<open>src/llm/TradingCouncil.ts\<close>) and the signal built from its verdict
  (\<open>src/decision/CouncilSignal.ts\<close>) with the queue the next cycle drains. The models' replies are arbitrary inputs.
\<close>

section \<open>The cycle\<close>

record cycle_config =
  cy_minRewardRisk :: jsnum
  cy_costs :: cost_rates
  cy_flow :: flow_thresholds

record decision_state =
  dc_flow :: "string \<Rightarrow> flow_sample list"
  dc_ledger :: setup_ledger
  dc_theses :: theses

definition decision_start :: decision_state where
  "decision_start = \<lparr> dc_flow = (\<lambda>_. []), dc_ledger = \<lparr> sl_live = [], sl_dead = [] \<rparr>, dc_theses = (\<lambda>_. None) \<rparr>"

definition decide_symbol :: "cycle_config \<Rightarrow> decision_state \<Rightarrow> market_state \<Rightarrow> decision_state \<times> setup_map" where
  "decide_symbol c ds st =
     (let sym = ms_symbol st;
          samples = record_flow (cy_flow c) (ms_generatedAt st) (ms_mark st) (ms_derivatives st) (ms_fundingRate st) (dc_flow ds sym);
          flow = flow_context_of (cy_flow c) (ms_generatedAt st) samples;
          raw = buildSetupMap st (cy_minRewardRisk c);
          (ledger, ledgered, transitions) = ledger_apply (atr15_of st) (dc_ledger ds) raw;
          annotated = annotateSetupMap st ledgered (Some flow) (cy_costs c);
          (theses, setup_out) = thesis_apply (dc_theses ds) annotated
      in (\<lparr> dc_flow = (dc_flow ds)(sym := samples), dc_ledger = ledger, dc_theses = theses \<rparr>, setup_out))"

definition decision_step :: "cycle_config \<Rightarrow> decision_state \<Rightarrow> market_state \<Rightarrow> decision_state" where
  "decision_step c ds i = fst (decide_symbol c ds i)"

section \<open>The council\<close>

datatype council_stance = StanceSide side | StanceNeutral

datatype council_action = COUNCIL_TRADE | COUNCIL_WATCH | COUNCIL_NO_TRADE

text \<open>A field of a model's reply: the text of a stance, of an action or of a setup's id, a number, or anything else.\<close>

datatype raw_value = RStance council_stance | RAction council_action | RId setup_id | RNumber jsnum | ROther

record raw_chair =
  rc_action :: raw_value
  rc_stance :: raw_value
  rc_probability :: raw_value
  rc_scenarioId :: raw_value
  rc_horizonMinutes :: raw_value

record chair_decision =
  cd_action :: council_action
  cd_stance :: council_stance
  cd_probability :: jsnum
  cd_scenarioId :: "setup_id option"
  cd_horizonMinutes :: jsnum

definition council_clamp :: "jsnum \<Rightarrow> jsnum \<Rightarrow> jsnum \<Rightarrow> jsnum" where
  "council_clamp x lo hi = math_max lo (math_min hi x)"

fun parseStance :: "raw_value \<Rightarrow> council_stance option" where
  "parseStance (RStance s) = Some s"
| "parseStance v = None"

fun parseAction :: "raw_value \<Rightarrow> council_action option" where
  "parseAction (RAction a) = Some a"
| "parseAction v = None"

fun finiteNumber :: "raw_value \<Rightarrow> jsnum option" where
  "finiteNumber (RNumber x) = (if is_finite x then Some x else None)"
| "finiteNumber v = None"

fun parseScenarioId :: "raw_value \<Rightarrow> setup_id list \<Rightarrow> setup_id option" where
  "parseScenarioId (RId i) ids = (if i \<in> set ids then Some i else None)"
| "parseScenarioId v ids = None"

definition parseHorizon :: "raw_value \<Rightarrow> jsnum" where
  "parseHorizon v = (case finiteNumber v of Some x \<Rightarrow> council_clamp (math_round x) 15 240 | None \<Rightarrow> 60)"

definition parseChair :: "raw_chair \<Rightarrow> setup_id list \<Rightarrow> chair_decision option" where
  "parseChair raw ids =
     (case (parseAction (rc_action raw), parseStance (rc_stance raw), finiteNumber (rc_probability raw)) of
        (Some action, Some stance, Some p) \<Rightarrow>
          Some \<lparr> cd_action = action, cd_stance = stance, cd_probability = council_clamp p (5/100) (95/100),
                 cd_scenarioId = parseScenarioId (rc_scenarioId raw) ids, cd_horizonMinutes = parseHorizon (rc_horizonMinutes raw) \<rparr>
      | _ \<Rightarrow> None)"

record raw_opinion =
  ro_stance :: raw_value
  ro_probability :: raw_value
  ro_horizonMinutes :: raw_value
  ro_scenarioId :: raw_value

record persona_opinion =
  po_stance :: council_stance
  po_probability :: jsnum
  po_horizonMinutes :: jsnum
  po_scenarioId :: "setup_id option"

definition parseOpinion :: "raw_opinion \<Rightarrow> setup_id list \<Rightarrow> persona_opinion option" where
  "parseOpinion raw ids =
     (case (parseStance (ro_stance raw), finiteNumber (ro_probability raw)) of
        (Some stance, Some p) \<Rightarrow>
          Some \<lparr> po_stance = stance, po_probability = council_clamp p (5/100) (95/100),
                 po_horizonMinutes = parseHorizon (ro_horizonMinutes raw), po_scenarioId = parseScenarioId (ro_scenarioId raw) ids \<rparr>
      | _ \<Rightarrow> None)"

text \<open>One deliberation over the specialists' replies and the chair's; a reply that did not parse as JSON is \<open>None\<close>.\<close>

definition deliberate :: "setup_map \<Rightarrow> raw_opinion option list \<Rightarrow> raw_chair option \<Rightarrow> (persona_opinion list \<times> chair_decision) option" where
  "deliberate m replies chair =
     (let ids = map sn_id (sm_scenarios m);
          opinions = List.map_filter (\<lambda>r. Option.bind r (\<lambda>raw. parseOpinion raw ids)) replies
      in if opinions = [] then None
         else map_option (\<lambda>d. (opinions, d)) (Option.bind chair (\<lambda>raw. parseChair raw ids)))"

section \<open>The council's signal\<close>

definition COUNCIL_SIGNAL_TTL_MS :: jsnum where "COUNCIL_SIGNAL_TTL_MS = 300000"

definition matchingScenario :: "setup_map \<Rightarrow> setup_id option \<Rightarrow> setup_scenario option" where
  "matchingScenario m i = (case i of None \<Rightarrow> None | Some x \<Rightarrow> find (\<lambda>s. sn_id s = x) (sm_scenarios m))"

text \<open>\<open>print_id\<close> prints the signal's id from the symbol, the setup's id and the time.\<close>

definition buildCouncilSignal ::
  "(string \<Rightarrow> setup_id \<Rightarrow> jsnum \<Rightarrow> string) \<Rightarrow> market_state \<Rightarrow> setup_map \<Rightarrow> chair_decision \<Rightarrow> jsnum \<Rightarrow> entry_signal option" where
  "buildCouncilSignal print_id st m chair now =
     (if cd_action chair \<noteq> COUNCIL_TRADE \<or> cd_stance chair = StanceNeutral then None
      else
        (case matchingScenario m (cd_scenarioId chair) of
           None \<Rightarrow> None
         | Some s \<Rightarrow>
             if sn_state s \<noteq> TRIGGERED then None
             else if verdict_of s \<noteq> Some ENTRY_ELIGIBLE \<or> sn_thesisRole s = Some COMPETING then None
             else if (cd_stance chair = StanceSide LONG) \<noteq> (sn_direction s = LONG) then None
             else Some \<lparr> es_id = print_id (ms_symbol st) (sn_id s) (ms_generatedAt st), es_agent = AI_COUNCIL, es_symbol = ms_symbol st,
                    es_type = (if sn_direction s = LONG then OPEN_LONG else OPEN_SHORT), es_confidence = cd_probability chair,
                    es_entry = Some (ms_mark st), es_stopLoss = Some (lv_stopLoss (sn_levels s)),
                    es_takeProfit = Some (lv_target1 (sn_levels s)), es_ts = now \<rparr>))"

text \<open>\<open>consultCouncil\<close> queues the signal when council trading is on; the next cycle drains the queue.\<close>

definition consultCouncil ::
  "bool \<Rightarrow> (string \<Rightarrow> setup_id \<Rightarrow> jsnum \<Rightarrow> string) \<Rightarrow> market_state \<Rightarrow> setup_map \<Rightarrow> (persona_opinion list \<times> chair_decision) option \<Rightarrow> jsnum
     \<Rightarrow> entry_signal list \<Rightarrow> entry_signal list" where
  "consultCouncil autoTrade print_id st m result now queue =
     (case result of
        None \<Rightarrow> queue
      | Some (opinions, chair) \<Rightarrow>
          if \<not> autoTrade then queue
          else (case buildCouncilSignal print_id st m chair now of None \<Rightarrow> queue | Some sig \<Rightarrow> queue @ [sig]))"

definition drainCouncilSignals :: "jsnum \<Rightarrow> entry_signal list \<Rightarrow> entry_signal list \<times> entry_signal list" where
  "drainCouncilSignals now queue = (filter (\<lambda>s. now - es_ts s \<le> COUNCIL_SIGNAL_TTL_MS) queue, [])"

section \<open>Pinned levels stay sound\<close>

fun id_direction :: "setup_id \<Rightarrow> side" where
  "id_direction (SetupId k y d n) = d"

text \<open>
  Levels that make a bracket: finite prices, the stop on the losing side of the whole zone, the first target on the
  profit side of some price of the zone.
\<close>

definition levels_ok :: "side \<Rightarrow> levels \<Rightarrow> bool" where
  "levels_ok d l \<longleftrightarrow> list_all is_finite [lv_entryLow l, lv_entryHigh l, lv_stopLoss l, lv_target1 l]
     \<and> further d (lv_entryLow l) (lv_stopLoss l) \<and> further d (lv_entryHigh l) (lv_stopLoss l)
     \<and> (\<exists>e. lv_entryLow l \<le> e \<and> e \<le> lv_entryHigh l \<and> further d (lv_target1 l) e)"

lemma sound_levels: "sound_setup a m s \<Longrightarrow> levels_ok (sn_direction s) (sn_levels s)"
  by (auto simp: sound_setup_def levels_ok_def Let_def)

definition pinned :: "(setup_key \<Rightarrow> levels \<Rightarrow> bool) \<Rightarrow> setup_ledger \<Rightarrow> bool" where
  "pinned P l \<longleftrightarrow> (\<forall>k e. (k, e) \<in> set (sl_live l) \<longrightarrow> P k (le_frozen e))"

lemma pinned_update: "pinned P l \<Longrightarrow> P k (le_frozen e) \<Longrightarrow> pinned P (l\<lparr> sl_live := AList.update k e (sl_live l) \<rparr>)"
  using set_update_subset [of k e "sl_live l"] by (auto simp: pinned_def)

lemma pinned_retire: "pinned P l \<Longrightarrow> pinned P (retire k why now l)"
  using set_delete_subset [of k "sl_live l"] by (auto simp: pinned_def retire_def)

lemma pinned_dead [simp]: "pinned P (l\<lparr> sl_dead := d \<rparr>) = pinned P l"
  by (simp add: pinned_def)

text \<open>A scenario the ledger hands on: derived in this map, with levels that satisfy \<open>P\<close> and its entry state.\<close>

definition handed_on :: "(setup_key \<Rightarrow> levels \<Rightarrow> bool) \<Rightarrow> setup_map \<Rightarrow> jsnum \<Rightarrow> setup_scenario \<Rightarrow> bool" where
  "handed_on P m av s \<longleftrightarrow> P (sm_symbol m, sn_id s) (sn_levels s)
     \<and> list_ex (\<lambda>s0. sn_id s = sn_id s0 \<and> sn_direction s = sn_direction s0) (sm_scenarios m)
     \<and> map_option lf_entryState (sn_lifecycle s) = Some (entryStateOf (sn_direction s) (sn_levels s) (sm_mark m) av)"

definition pass_pinned :: "(setup_key \<Rightarrow> levels \<Rightarrow> bool) \<Rightarrow> setup_map \<Rightarrow> jsnum \<Rightarrow> ledger_pass \<Rightarrow> bool" where
  "pass_pinned P m av p \<longleftrightarrow> pinned P (lp_ledger p) \<and> list_all (handed_on P m av) (lp_kept p)"

lemma keep_pinned:
  assumes "pass_pinned P m av p" and "P (sm_symbol m, sn_id s) (le_frozen e)" and "s \<in> set (sm_scenarios m)"
  shows "pass_pinned P m av (keep m av (sm_symbol m, sn_id s) e s out p)"
  using assms pinned_update [of P "lp_ledger p" "(sm_symbol m, sn_id s)" "e\<lparr> le_lastSeen := sm_generatedAt m, le_missedCycles := 0 \<rparr>"]
  by (auto simp: pass_pinned_def keep_def stamped_def handed_on_def list_ex_iff Let_def)

lemma see_pinned:
  assumes "pass_pinned P m av p" and "s \<in> set (sm_scenarios m)" and "P (sm_symbol m, sn_id s) (sn_levels s)"
  shows "pass_pinned P m av (see m av p s)"
proof (cases "map_of (sl_live (lp_ledger p)) (sm_symbol m, sn_id s)")
  case None
  then show ?thesis using assms keep_pinned [OF assms(1) _ assms(2), of "new_entry (sm_generatedAt m) s"]
    by (auto simp: see_def Let_def pass_pinned_def new_entry_def)
next
  case (Some e)
  then have "P (sm_symbol m, sn_id s) (le_frozen e)" using assms(1) map_of_SomeD [OF Some] by (auto simp: pass_pinned_def pinned_def)
  then show ?thesis using Some assms(1,2) keep_pinned [OF assms(1) _ assms(2)] pinned_retire
    by (auto simp: see_def Let_def pass_pinned_def)
qed

lemma see_all_pinned:
  "pass_pinned P m av p \<Longrightarrow> set ss \<subseteq> set (sm_scenarios m) \<Longrightarrow> \<forall>s\<in>set ss. P (sm_symbol m, sn_id s) (sn_levels s) \<Longrightarrow>
     pass_pinned P m av (foldl (see m av) p ss)"
  by (induction ss arbitrary: p) (simp_all add: see_pinned)

lemma miss_all_pinned:
  "pass_pinned P m av p \<Longrightarrow> \<forall>ke\<in>set kes. P (fst ke) (le_frozen (snd ke)) \<Longrightarrow> pass_pinned P m av (foldl (miss m) p kes)"
proof (induction kes arbitrary: p)
  case (Cons ke kes)
  have "pass_pinned P m av (miss m p ke)"
    using Cons.prems pinned_retire pinned_update [of P "lp_ledger p" "fst ke"]
    by (auto simp: pass_pinned_def miss_def Let_def)
  with Cons show ?case by simp
qed simp

lemma ledger_pinned:
  assumes "pinned P l" and "\<forall>s\<in>set (sm_scenarios m). P (sm_symbol m, sn_id s) (sn_levels s)"
  shows "pinned P (fst (ledger_apply av l m))"
    and "list_all (handed_on P m av) (sm_scenarios (fst (snd (ledger_apply av l m))))"
proof -
  define p0 where "p0 = \<lparr> lp_ledger = evictTombstones (sm_generatedAt m) l, lp_kept = [], lp_out = [] \<rparr>"
  define p1 where "p1 = foldl (see m av) p0 (sm_scenarios m)"
  have "pass_pinned P m av p0" using assms(1) by (simp add: p0_def pass_pinned_def evictTombstones_def)
  then have p1: "pass_pinned P m av p1" using assms(2) by (simp add: p1_def see_all_pinned)
  then have "pass_pinned P m av (foldl (miss m) p1 (sl_live (lp_ledger p1)))"
    by (intro miss_all_pinned) (auto simp: pass_pinned_def pinned_def)
  then show "pinned P (fst (ledger_apply av l m))" "list_all (handed_on P m av) (sm_scenarios (fst (snd (ledger_apply av l m))))"
    by (auto simp: ledger_apply_def Let_def p1_def p0_def pass_pinned_def list_all_iff)
qed

definition key_ok :: "setup_key \<Rightarrow> levels \<Rightarrow> bool" where
  "key_ok k l = levels_ok (id_direction (snd k)) l"

lemma builders_direction:
  "buildBreakout st d a m = Built s \<Longrightarrow> id_direction (sn_id s) = sn_direction s"
  "buildPullback st d a m = Built s \<Longrightarrow> id_direction (sn_id s) = sn_direction s"
  "buildSweep st d a m = Built s \<Longrightarrow> id_direction (sn_id s) = sn_direction s"
  by (auto simp: buildBreakout_def buildPullback_def buildSweep_def scenario_of_def Let_def split: option.splits if_splits)

lemma map_direction: "s \<in> set (sm_scenarios (buildSetupMap st m)) \<Longrightarrow> id_direction (sn_id s) = sn_direction s"
proof -
  assume "s \<in> set (sm_scenarios (buildSetupMap st m))"
  then have "Built s \<in> set (built_all st m)" by (auto simp: buildSetupMap_def map_filter_mem Let_def elim!: scenario_part.elims)
  then show ?thesis using builders_direction by (auto simp: built_all_def eq_commute [of "Built s"] split: option.splits if_splits)
qed

definition cycle_flow :: "cycle_config \<Rightarrow> decision_state \<Rightarrow> market_state \<Rightarrow> flow_context" where
  "cycle_flow c ds i = flow_context_of (cy_flow c) (ms_generatedAt i)
     (record_flow (cy_flow c) (ms_generatedAt i) (ms_mark i) (ms_derivatives i) (ms_fundingRate i)
        (dc_flow ds (ms_symbol i)))"

definition cycle_ledger :: "cycle_config \<Rightarrow> decision_state \<Rightarrow> market_state \<Rightarrow> setup_ledger \<times> setup_map \<times> setup_transition list" where
  "cycle_ledger c ds i =
     ledger_apply (atr15_of i) (dc_ledger ds) (buildSetupMap i (cy_minRewardRisk c))"

lemma decide_ledger: "dc_ledger (fst (decide_symbol c ds i)) = fst (cycle_ledger c ds i)"
  by (simp add: decide_symbol_def cycle_ledger_def Let_def case_prod_beta)

lemma decide_map:
  "snd (decide_symbol c ds i) = snd (thesis_apply (dc_theses ds)
     (annotateSetupMap i (fst (snd (cycle_ledger c ds i))) (Some (cycle_flow c ds i)) (cy_costs c)))"
  by (simp add: decide_symbol_def cycle_ledger_def cycle_flow_def Let_def case_prod_beta)

text \<open>Inputs a run is fed, and settings with a floor of at least one.\<close>

definition config_ok :: "cycle_config \<Rightarrow> bool" where
  "config_ok c \<longleftrightarrow> is_finite (cy_minRewardRisk c) \<and> 1 \<le> cy_minRewardRisk c
     \<and> list_all (\<lambda>x. is_finite x \<and> 0 \<le> x) [cr_feeRate (cy_costs c), cr_slippageRate (cy_costs c)]
     \<and> cr_feeRate (cy_costs c) + cr_slippageRate (cy_costs c) \<le> 1/2"

lemma raw_levels:
  assumes "config_ok c" and "state_ok st" and "s \<in> set (sm_scenarios (buildSetupMap st (cy_minRewardRisk c)))"
  shows "key_ok (y, sn_id s) (sn_levels s)"
proof -
  obtain x where x: "cy_minRewardRisk c = Fin x" "1 \<le> x" using assms(1) by (auto simp: config_ok_def is_finite_iff)
  have "sound_setup (atr15_of st) (Fin x) s" using setups_sound [OF assms(2) x(2)] assms(3) x(1) by (auto simp: list_all_iff)
  then show ?thesis using sound_levels map_direction [OF assms(3)] by (auto simp: key_ok_def)
qed

lemma decision_pinned:
  assumes "config_ok c" and "state_ok i" and "pinned key_ok (dc_ledger ds)"
  shows "pinned key_ok (dc_ledger (decision_step c ds i))"
  using ledger_pinned(1) [OF assms(3)] raw_levels [OF assms(1)] assms(2)
  by (simp add: decision_step_def decide_ledger cycle_ledger_def )

lemma decision_run_pinned:
  "config_ok c \<Longrightarrow> list_all state_ok is' \<Longrightarrow> pinned key_ok (dc_ledger ds) \<Longrightarrow> pinned key_ok (dc_ledger (run_steps (decision_step c) ds is'))"
  by (induction is' arbitrary: ds) (simp_all add: decision_pinned)

section \<open>The bracket of an eligible setup\<close>

lemma costAdjusted_Fin:
  assumes "0 \<le> f" "0 \<le> g"
  shows "costAdjustedRr \<lparr> rr_entry = Fin e, rr_stopLoss = Fin s, rr_takeProfit = Fin t, rr_side = d, rr_fundingRate = None, rr_fundingIntervals = None \<rparr>
     \<lparr> cr_feeRate = Fin f, cr_slippageRate = Fin g \<rparr>
   = (if 0 < e \<and> e \<noteq> s then Fin ((\<bar>t - e\<bar> - e * (2 * (f + g))) / (\<bar>e - s\<bar> + e * (2 * (f + g)))) else NaN)"
proof -
  have "\<bar>e - s\<bar> + e * (2 * (f + g)) \<noteq> 0" if "0 < e" "e \<noteq> s"
    using that assms by (metis abs_ge_zero add_nonneg_eq_0_iff eq_iff_diff_eq_0 abs_eq_0 add_nonneg_nonneg less_imp_le mult_nonneg_nonneg zero_le_numeral)
  then show ?thesis by (cases d) (auto simp: costAdjustedRr_def Let_def)
qed

lemma ratio_at_least_one:
  assumes "0 \<le> (k::real)" "0 < e" "0 < r"
  shows "1 \<le> (w - e * k) / (r + e * k) \<longleftrightarrow> r + 2 * (e * k) \<le> w"
proof -
  have "0 < r + e * k" using assms by (simp add: add_pos_nonneg)
  then show ?thesis by (simp add: pos_le_divide_eq) linarith
qed

text \<open>The far end of the zone is the worst price of the zone: what pays there pays at every price inside.\<close>

lemma pays_inside:
  assumes k: "0 \<le> k" "k \<le> (1::real)" and w: "0 < w" "0 < \<bar>w - s\<bar>" "\<bar>w - s\<bar> + 2 * (w * k) \<le> \<bar>t - w\<bar>"
    and z: "0 < p" "lo \<le> p" "p \<le> hi" "lo \<le> e" "e \<le> hi"
    and d: "if long then w = hi \<and> s < lo \<and> e < t else w = lo \<and> hi < s \<and> t < e"
  shows "(if long then s < p \<and> p < t else p < s \<and> t < p) \<and> \<bar>p - s\<bar> + 2 * (p * k) \<le> \<bar>t - p\<bar>"
proof (cases long)
  case True
  then have s: "w = hi" "s < lo" "e < t" using d by auto
  have wk: "0 \<le> w * k" using k w by simp
  have "hi < t" using w(3) s z wk by (auto simp: abs_if split: if_splits)
  moreover from this have "hi - s + 2 * (hi * k) \<le> t - hi" using w(3) s z by (auto simp: abs_if split: if_splits)
  moreover have "p * k \<le> hi * k" using z k by (simp add: mult_right_mono)
  ultimately show ?thesis using s z True by (auto simp: abs_if)
next
  case False
  then have s: "w = lo" "hi < s" "t < e" using d by auto
  have wk: "0 \<le> w * k" using k w by simp
  have t: "t < lo" using w(3) s z wk by (auto simp: abs_if split: if_splits)
  then have "s - lo + 2 * (lo * k) \<le> lo - t" using w(3) s z by (auto simp: abs_if split: if_splits)
  moreover have "(p - lo) * k \<le> (p - lo) * 1" using z k by (intro mult_left_mono) auto
  ultimately show ?thesis using s z False t w by (auto simp: abs_if algebra_simps)
qed

text \<open>The setups of a cycle that may be entered lie in their zone, with sound pinned levels, and pay from its far end.\<close>

lemma cycle_scenarios:
  assumes "config_ok c" and "state_ok i" and "pinned key_ok (dc_ledger ds)" and "s \<in> set (sm_scenarios (snd (decide_symbol c ds i)))"
    and "verdict_of s = Some ENTRY_ELIGIBLE"
  shows "levels_ok (sn_direction s) (sn_levels s)
    \<and> entryStateOf (sn_direction s) (sn_levels s) (ms_mark i) (atr15_of i) = IN_ENTRY_ZONE
    \<and> is_finite (effective_rr s (cy_costs c)) \<and> 1 \<le> effective_rr s (cy_costs c)"
proof -
  let ?raw = "buildSetupMap i (cy_minRewardRisk c)" and ?l = "fst (snd (cycle_ledger c ds i))"
  let ?m = "?l\<lparr> sm_flow := Some (cycle_flow c ds i) \<rparr>"
  obtain s0 where s0: "s0 \<in> set (sm_scenarios (annotateSetupMap i ?l (Some (cycle_flow c ds i)) (cy_costs c)))"
    "s = s0 \<or> (\<exists>d. s = stamp_role d s0)"
    using thesis_scenarios assms(4) unfolding decide_map by blast
  then obtain s1 where s1: "s1 \<in> set (sm_scenarios ?l)" "s0 = annotate_scenario i ?m (cy_costs c) s1"
    by (auto simp: annotateSetupMap_def Let_def)
  have same: "verdict_of s0 = verdict_of s" "sn_direction s0 = sn_direction s" "sn_levels s0 = sn_levels s"
    "effective_rr s0 (cy_costs c) = effective_rr s (cy_costs c)"
    using s0(2) by (auto simp: stamp_role_def verdict_of_def effective_rr_def)
  have h: "handed_on key_ok ?raw (atr15_of i) s1"
    using ledger_pinned(2) [OF assms(3)] raw_levels [OF assms(1)] assms(2) s1(1)
    by (auto simp: cycle_ledger_def  list_all_iff)
  then have d: "id_direction (sn_id s1) = sn_direction s1"
    using map_direction [of _ "i" "cy_minRewardRisk c"] by (auto simp: handed_on_def list_ex_iff)
  have r: "entry_ready (cy_costs c) (sm_generatedAt ?m) s0"
    using eligible_ready [of "i" ?m] s1(2) same(1) assms(5) by simp
  have "sm_mark ?raw = ms_mark i" by (simp add: buildSetupMap_def Let_def)
  with h d r s1(2) same(2-4) show ?thesis
    by (auto simp: entry_ready_def handed_on_def key_ok_def split: option.splits)
qed

definition bracket_pays :: "side \<Rightarrow> cost_rates \<Rightarrow> jsnum \<Rightarrow> jsnum \<Rightarrow> jsnum \<Rightarrow> bool" where
  "bracket_pays d costs entry stop target \<longleftrightarrow> further d entry stop \<and> further d target entry
     \<and> 1 \<le> costAdjustedRr \<lparr> rr_entry = entry, rr_stopLoss = stop, rr_takeProfit = target, rr_side = d, rr_fundingRate = None,
            rr_fundingIntervals = None \<rparr> costs"

lemma eligible_bracket_pays:
  assumes "config_ok c" and "levels_ok (sn_direction s) (sn_levels s)" and "0 < mark"
    and "entryStateOf (sn_direction s) (sn_levels s) mark av = IN_ENTRY_ZONE"
    and "is_finite (effective_rr s (cy_costs c))" and "1 \<le> effective_rr s (cy_costs c)"
  shows "bracket_pays (sn_direction s) (cy_costs c) mark (lv_stopLoss (sn_levels s)) (lv_target1 (sn_levels s))"
proof -
  obtain f g where c: "cy_costs c = \<lparr> cr_feeRate = Fin f, cr_slippageRate = Fin g \<rparr>" "0 \<le> f" "0 \<le> g" "f + g \<le> 1/2"
    using assms(1) by (cases "cy_costs c") (auto simp: config_ok_def is_finite_iff)
  obtain lo hi sl t where l: "lv_entryLow (sn_levels s) = Fin lo" "lv_entryHigh (sn_levels s) = Fin hi"
    "lv_stopLoss (sn_levels s) = Fin sl" "lv_target1 (sn_levels s) = Fin t"
    using assms(2) by (auto simp: levels_ok_def is_finite_iff)
  have z: "Fin lo \<le> mark" "mark \<le> Fin hi"
    using assms(4) l by (auto simp: entryStateOf_def Let_def split: if_splits)
  then obtain p where p: "mark = Fin p" "lo \<le> p" "p \<le> hi" by (cases mark) auto
  obtain e where e: "lo \<le> e" "e \<le> hi" "further (sn_direction s) (Fin t) (Fin e)"
  proof -
    obtain x where x: "Fin lo \<le> x" "x \<le> Fin hi" "further (sn_direction s) (Fin t) x" using assms(2) l by (auto simp: levels_ok_def)
    then obtain r where "x = Fin r" by (cases x) auto
    with x that show thesis by auto
  qed
  define w where "w = (if sn_direction s = LONG then hi else lo)"
  have wj: "worst_entry (sn_direction s) (sn_levels s) = Fin w" using l by (simp add: worst_entry_def w_def)
  have we: "effective_rr s (cy_costs c) = (if 0 < w \<and> w \<noteq> sl then Fin ((\<bar>t - w\<bar> - w * (2 * (f + g))) / (\<bar>w - sl\<bar> + w * (2 * (f + g)))) else NaN)"
    unfolding effective_rr_def wj l(3,4) c(1) by (rule costAdjusted_Fin [OF c(2,3)])
  then have w: "0 < w" "w \<noteq> sl" using assms(5) by (auto split: if_splits)
  have "\<bar>w - sl\<bar> + 2 * (w * (2 * (f + g))) \<le> \<bar>t - w\<bar>"
    using assms(6) we w ratio_at_least_one [of "2 * (f + g)" w "\<bar>w - sl\<bar>" "\<bar>t - w\<bar>"] c by simp
  moreover have "if sn_direction s = LONG then w = hi \<and> sl < lo \<and> e < t else w = lo \<and> hi < sl \<and> t < e"
    using assms(2) l e(3) by (auto simp: w_def levels_ok_def further_def)
  moreover have "0 < p" using assms(3) p by simp
  ultimately have r: "if sn_direction s = LONG then sl < p \<and> p < t else p < sl \<and> t < p"
    "\<bar>p - sl\<bar> + 2 * (p * (2 * (f + g))) \<le> \<bar>t - p\<bar>"
    using pays_inside [of "2 * (f + g)" w sl t p lo hi e "sn_direction s = LONG"] p e w c by auto
  then have "p \<noteq> sl" by (auto split: if_splits)
  then show ?thesis
    using r \<open>0 < p\<close> p(1) l c costAdjusted_Fin [OF c(2,3), of p sl t] ratio_at_least_one [of "2 * (f + g)" p "\<bar>p - sl\<bar>" "\<bar>t - p\<bar>"]
    by (auto simp: bracket_pays_def further_def split: if_splits)
qed

lemma stance_direction:
  assumes "c \<noteq> StanceNeutral" and "(c = StanceSide LONG) = (d = LONG)"
  shows "c = StanceSide d"
proof (cases c)
  case (StanceSide x)
  then show ?thesis using assms(2) by (cases x; cases d) auto
qed (use assms(1) in simp)

lemma signal_scenario:
  assumes "buildCouncilSignal print_id st m chair now = Some sig"
  obtains s where "s \<in> set (sm_scenarios m)" "verdict_of s = Some ENTRY_ELIGIBLE" "sn_state s = TRIGGERED" "sn_thesisRole s \<noteq> Some COMPETING"
    "es_type sig = (if sn_direction s = LONG then OPEN_LONG else OPEN_SHORT)" "es_entry sig = Some (ms_mark st)"
    "es_stopLoss sig = Some (lv_stopLoss (sn_levels s))" "es_takeProfit sig = Some (lv_target1 (sn_levels s))" "es_symbol sig = ms_symbol st"
    "cd_action chair = COUNCIL_TRADE" "cd_stance chair = StanceSide (sn_direction s)"
proof -
  obtain s where s: "matchingScenario m (cd_scenarioId chair) = Some s" using assms
    by (auto simp: buildCouncilSignal_def split: option.splits if_splits)
  then have "s \<in> set (sm_scenarios m)" by (auto simp: matchingScenario_def find_Some_iff split: option.splits)
  moreover have "cd_stance chair = StanceSide (sn_direction s)" if "cd_stance chair \<noteq> StanceNeutral" "(cd_stance chair = StanceSide LONG) = (sn_direction s = LONG)"
    using that by (rule stance_direction)
  ultimately show thesis using assms s that [of s] by (auto simp: buildCouncilSignal_def split: if_splits)
qed

section \<open>A demonstration market\<close>

text \<open>Price at 100 in a tested demand zone below a pool of equal highs, after a bullish break.\<close>

definition demo_long_market :: market_state where
  "demo_long_market = demo_market BULLISH 100
     [\<lparr> sb_type = BOS, sb_direction = BULLISH, sb_level = 99, sb_index = 20, sb_time = 9900000, sb_distanceAtr = 1, sb_protectedLevel = None,
        sb_protectionZone = None \<rparr>]
     [demo_pool EQUAL_HIGH 105] [] [demo_zone DEMAND (199/2) (201/2) TESTED (Some 9800000)]
     \<lparr> rp_high = 108, rp_low = 98, rp_equilibrium = 103, rp_positionPct = 20, rp_premium = False, rp_discount = True \<rparr>"

definition demo_cycle :: cycle_config where
  "demo_cycle = \<lparr> cy_minRewardRisk = Fin (3/2), cy_costs = \<lparr> cr_feeRate = Fin (1/2000), cr_slippageRate = Fin (1/2000) \<rparr>,
     cy_flow = DEFAULT_FLOW_THRESHOLDS \<rparr>"

lemmas demo_long_defs = demo_long_market_def demo_cycle_def demo_market_def demo_liquidity_def demo_pool_def demo_structure_def demo_zone_def
  demo_timeframe_def

definition demo_setup :: setup_scenario where
  "demo_setup = scenario_of (SetupId PULLBACK_RETEST ''BTCUSDT'' LONG (Fin 9000000)) PULLBACK_RETEST LONG TRIGGERED
     \<lparr> lv_entryLow = Fin (199/2), lv_entryHigh = Fin (201/2), lv_stopLoss = Fin (1987/20), lv_target1 = Fin 105, lv_target2 = None,
        lv_rewardRisk = Fin (100/13) \<rparr>
     \<lparr> em_minMinutes = Fin 70, em_maxMinutes = Fin 275, em_thesisExpiryMinutes = Fin 415, em_distanceAtr = Fin 5 \<rparr> (Fin 9000000)"

lemma demo_raw: "sm_scenarios (buildSetupMap demo_long_market (Fin (3/2))) = [demo_setup]"
  by (simp add: demo_setup_def demo_long_defs buildSetupMap_def built_all_def buildSweep_def buildPullback_def buildBreakout_def
      trendOf_def direction_of_def atr15_of_def latestSweep_def nearestZoneRecord_def directionalPool_def secondDirectionalPool_def
      all_pools_def zones_of_def isDirectionalLiquidity_def further_def stateForZone_def stopForZone_def riskReward_def after_level_def
      confirmingBreakAfter_def breakEvents_def wanted_trend_def
      STOP_BUFFER_ATR_def MIN_STOP_ATR_def MAX_STOP_ATR_def MIN_TP2_GAP_ATR_def GAP_SLACK_def expectedMove_def scenario_of_def Let_def
      List.map_filter_def sort_by_def roundMinutes_def)

lemma raw_fields [simp]:
  "sm_symbol (buildSetupMap st m) = ms_symbol st" "sm_generatedAt (buildSetupMap st m) = ms_generatedAt st"
  "sm_mark (buildSetupMap st m) = ms_mark st" "sm_htfTrend (buildSetupMap st m) = su_trend (ms_htfStructure st)"
  "sm_ltfTrend (buildSetupMap st m) = su_trend (ms_ltfStructure st)"
  by (simp_all add: buildSetupMap_def Let_def)

definition demo_chair :: chair_decision where
  "demo_chair = \<lparr> cd_action = COUNCIL_TRADE, cd_stance = StanceSide LONG, cd_probability = Fin (7/10), cd_scenarioId = Some (sn_id demo_setup),
     cd_horizonMinutes = 60 \<rparr>"

definition demo_print :: "string \<Rightarrow> setup_id \<Rightarrow> jsnum \<Rightarrow> string" where
  "demo_print symbol i t = ''council-'' @ symbol"

lemma demo_kept:
  "sm_scenarios (fst (snd (cycle_ledger demo_cycle decision_start demo_long_market)))
     = [demo_setup\<lparr> sn_lifecycle := Some \<lparr> lf_setupId = (''BTCUSDT'', sn_id demo_setup), lf_version = 1, lf_createdAt = Fin 10000000,
          lf_expiresAt = Fin 33900000, lf_highestState = TRIGGERED, lf_entryState = IN_ENTRY_ZONE, lf_missedCycles = 0 \<rparr> \<rparr>]"
  using demo_raw
  by (simp add: cycle_ledger_def demo_cycle_def decision_start_def ledger_apply_def see_def keep_def miss_def new_entry_def
      evictTombstones_def stamped_def usable_def entryStateOf_def Let_def demo_long_defs demo_setup_def scenario_of_def)

lemma ledger_fields [simp]:
  "sm_generatedAt (fst (snd (cycle_ledger c ds i))) = ms_generatedAt i"
  "sm_htfTrend (fst (snd (cycle_ledger c ds i))) = su_trend (ms_htfStructure i)"
  "sm_ltfTrend (fst (snd (cycle_ledger c ds i))) = su_trend (ms_ltfStructure i)"
  "sm_symbol (fst (snd (cycle_ledger c ds i))) = ms_symbol i"
  by (simp_all add: cycle_ledger_def ledger_apply_def Let_def)

lemma demo_flow: "flowVerdict (cycle_flow demo_cycle decision_start demo_long_market) LONG False = FlowUnknown"
  by (simp add: cycle_flow_def decision_start_def demo_long_defs record_flow_def
      DEFAULT_FLOW_THRESHOLDS_def MAX_SAMPLES_def flow_context_of_def last_opt_def takerZ_def List.map_filter_def unknown_flow_def
      nearest_sample_def flowVerdict_def Let_def)

lemma demo_eligible:
  "list_all (\<lambda>s. verdict_of s = Some ENTRY_ELIGIBLE \<and> sn_id s = sn_id demo_setup \<and> sn_direction s = LONG \<and> sn_state s = TRIGGERED)
     (sm_scenarios (annotateSetupMap demo_long_market (fst (snd (cycle_ledger demo_cycle decision_start demo_long_market)))
        (Some (cycle_flow demo_cycle decision_start demo_long_market)) (cy_costs demo_cycle)))"
  using demo_kept demo_flow
  by (simp add: annotateSetupMap_def annotate_scenario_def verdict_of_def assessScenario_def checks_of_def hard_values_def check_values_def
      weak_count_def maxWeakChecks_def structureCheck_def locationCheck_def locationAtEntry_def EQUILIBRIUM_BAND_PCT_def triggerCheck_def
      evidenceCheck_def flowCheck_def rrCheck_def effectiveRrPass_def effective_rr_def costAdjustedRr_def worst_entry_def
      freshnessCheck_def freshnessPassFraction_def wanted_trend_def opposing_trend_def demo_setup_def scenario_of_def demo_long_defs Let_def)

lemma start_pinned [simp]: "pinned key_ok (dc_ledger decision_start)"
  by (simp add: pinned_def decision_start_def)

lemma demo_signal:
  "buildCouncilSignal demo_print (demo_long_market) (snd (decide_symbol demo_cycle decision_start demo_long_market)) demo_chair (Fin 10000000) \<noteq> None"
proof -
  let ?m = "annotateSetupMap demo_long_market (fst (snd (cycle_ledger demo_cycle decision_start demo_long_market)))
        (Some (cycle_flow demo_cycle decision_start demo_long_market)) (cy_costs demo_cycle)"
  have t: "dc_theses decision_start = (\<lambda>_. None)" by (simp add: decision_start_def)
  obtain s where s: "sm_scenarios ?m = [s]" using demo_kept by (auto simp: annotateSetupMap_def Let_def)
  have e: "verdict_of s = Some ENTRY_ELIGIBLE" "sn_id s = sn_id demo_setup" "sn_direction s = LONG" "sn_state s = TRIGGERED"
    using demo_eligible unfolding s by simp_all
  have "sm_scenarios (snd (decide_symbol demo_cycle decision_start demo_long_market)) = [stamp_role LONG s]"
    unfolding decide_map t by (simp add: thesis_apply_def strongest_def s adopt_def stamp_def e(3) Let_def)
  moreover have "verdict_of (stamp_role LONG s) = Some ENTRY_ELIGIBLE" "sn_id (stamp_role LONG s) = sn_id demo_setup"
    "sn_state (stamp_role LONG s) = TRIGGERED" "sn_thesisRole (stamp_role LONG s) = Some AUTHORITATIVE" "sn_direction (stamp_role LONG s) = LONG"
    using e by (simp_all add: stamp_role_def verdict_of_def)
  ultimately show ?thesis by (simp add: buildCouncilSignal_def matchingScenario_def demo_chair_def)
qed

theorem eligible_setups_are_executable_witness:
  "\<exists>s flow m. s \<in> set (sm_scenarios (annotateSetupMap demo_long_market m (Some flow) (cy_costs demo_cycle)))
     \<and> verdict_of s = Some ENTRY_ELIGIBLE \<and> entry_ready (cy_costs demo_cycle) (sm_generatedAt m) s"
proof -
  let ?l = "fst (snd (cycle_ledger demo_cycle decision_start demo_long_market))" and ?f = "cycle_flow demo_cycle decision_start demo_long_market"
  obtain s where s: "s \<in> set (sm_scenarios (annotateSetupMap demo_long_market ?l (Some ?f) (cy_costs demo_cycle)))"
    using demo_kept by (auto simp: annotateSetupMap_def Let_def)
  moreover from this have "verdict_of s = Some ENTRY_ELIGIBLE" using demo_eligible by (auto simp: list_all_iff)
  ultimately show ?thesis using eligible_setups_are_executable [OF s] by blast
qed

lemma signals_pay:
  assumes "config_ok c" and "list_all state_ok is'" and "state_ok i" and "0 < ms_mark i"
    and "buildCouncilSignal print_id i (snd (decide_symbol c (run_steps (decision_step c) decision_start is') i)) chair now = Some sig"
  shows "\<exists>d stop target. es_entry sig = Some (ms_mark i) \<and> es_stopLoss sig = Some stop \<and> es_takeProfit sig = Some target
    \<and> cd_action chair = COUNCIL_TRADE \<and> cd_stance chair = StanceSide d \<and> es_type sig = (if d = LONG then OPEN_LONG else OPEN_SHORT)
    \<and> bracket_pays d (cy_costs c) (ms_mark i) stop target"
proof -
  let ?ds = "run_steps (decision_step c) decision_start is'"
  from assms(5) obtain s where s: "s \<in> set (sm_scenarios (snd (decide_symbol c ?ds i)))" "verdict_of s = Some ENTRY_ELIGIBLE"
    "es_type sig = (if sn_direction s = LONG then OPEN_LONG else OPEN_SHORT)" "es_entry sig = Some (ms_mark i)"
    "es_stopLoss sig = Some (lv_stopLoss (sn_levels s))" "es_takeProfit sig = Some (lv_target1 (sn_levels s))"
    "cd_action chair = COUNCIL_TRADE" "cd_stance chair = StanceSide (sn_direction s)"
    by (rule signal_scenario)
  have "pinned key_ok (dc_ledger ?ds)" using assms(1,2) by (simp add: decision_run_pinned)
  note p = cycle_scenarios [OF assms(1,3) this s(1,2)]
  have "bracket_pays (sn_direction s) (cy_costs c) (ms_mark i) (lv_stopLoss (sn_levels s)) (lv_target1 (sn_levels s))"
    using p assms(1,4) eligible_bracket_pays by blast
  with s show ?thesis by blast
qed

section \<open>Properties\<close>

text \<open>
  C2. Whatever the language model answers, a council signal pays: after any run of cycles on sound market states, with
  a floor of at least one and costs of at most half the price, a signal built from a map enters at the current mark,
  with the stop on its losing side, the target on its profit side, and a reward-to-risk of at least one after costs at
  that mark; its levels are those pinned for a triggered, eligible setup of the map in the chair's direction.
\<close>

theorem council_signals_pay:
  assumes "config_ok c" and "list_all state_ok is'" and "state_ok i" and "0 < ms_mark i"
    and "buildCouncilSignal print_id i (snd (decide_symbol c (run_steps (decision_step c) decision_start is') i)) chair now = Some sig"
  shows "\<exists>d stop target. es_entry sig = Some (ms_mark i) \<and> es_stopLoss sig = Some stop \<and> es_takeProfit sig = Some target
    \<and> cd_action chair = COUNCIL_TRADE \<and> cd_stance chair = StanceSide d \<and> es_type sig = (if d = LONG then OPEN_LONG else OPEN_SHORT)
    \<and> bracket_pays d (cy_costs c) (ms_mark i) stop target"
  using assms by (rule signals_pay)

theorem council_signals_pay_witness:
  "\<exists>sig d stop target. buildCouncilSignal demo_print demo_long_market (snd (decide_symbol demo_cycle decision_start demo_long_market)) demo_chair (Fin 10000000)
       = Some sig \<and> es_stopLoss sig = Some stop \<and> es_takeProfit sig = Some target
     \<and> bracket_pays d (cy_costs demo_cycle) (Fin 100) stop target"
proof -
  obtain sig where sig: "buildCouncilSignal demo_print (demo_long_market) (snd (decide_symbol demo_cycle decision_start demo_long_market)) demo_chair
      (Fin 10000000) = Some sig"
    using demo_signal by blast
  have "config_ok demo_cycle" by (simp add: config_ok_def demo_cycle_def)
  moreover have "state_ok demo_long_market"
    by (simp add:  state_ok_def demo_long_defs atr15_of_def all_pools_def zones_of_def)
  moreover have "ms_mark demo_long_market = Fin 100" by (simp add: demo_long_defs)
  ultimately show ?thesis using council_signals_pay [of demo_cycle "[]" demo_long_market demo_print demo_chair "Fin 10000000" sig] sig by auto
qed

text \<open>
  The queue's age limit counts from the model's answer, not from the market state: a signal just built is drained as
  fresh however old the state it was built from.
\<close>

theorem council_ttl_ignores_the_age_of_the_evidence:
  assumes "buildCouncilSignal print_id st m chair (Fin now) = Some sig"
  shows "fst (drainCouncilSignals (Fin now) [sig]) = [sig]"
  using assms by (auto simp: buildCouncilSignal_def drainCouncilSignals_def COUNCIL_SIGNAL_TTL_MS_def split: option.splits if_splits)

end
