(* ===== verification/Indicators.thy ===== *)
theory Indicators
  imports JsMath CoreTypes
begin

text \<open>
  The indicator series of \<open>src/binance/indicators.ts\<close>. Every loop over a window of bars is a pass over its indices that emits one
  value per bar; periods are positive, as in every call. The spark line, which only draws, is left out.
\<close>

section \<open>Passes over the indices of a window\<close>

fun pass :: "('s \<Rightarrow> nat \<Rightarrow> 's \<times> 'y) \<Rightarrow> 's \<Rightarrow> nat list \<Rightarrow> 'y list" where
  "pass f s [] = []"
| "pass f s (i # is') = (let (t, y) = f s i in y # pass f t is')"

definition no_values :: "nat \<Rightarrow> jsnum list" where
  "no_values n = replicate n NaN"

section \<open>Averages\<close>

definition ema_step :: "jsnum list \<Rightarrow> nat \<Rightarrow> jsnum \<Rightarrow> nat \<Rightarrow> jsnum \<times> jsnum" where
  "ema_step values period prev i =
     (let multiplier = 2 / (num_of_nat period + 1);
          v = (if i = 0 then values ! 0 else (values ! i) * multiplier + prev * (1 - multiplier))
      in (v, v))"

definition ema :: "jsnum list \<Rightarrow> nat \<Rightarrow> jsnum list" where
  "ema values period = pass (ema_step values period) 0 [0..<length values]"

definition sma_step :: "jsnum list \<Rightarrow> nat \<Rightarrow> jsnum \<Rightarrow> nat \<Rightarrow> jsnum \<times> jsnum" where
  "sma_step values period acc i =
     (let added = acc + values ! i; kept = (if i \<ge> period then added - values ! (i - period) else added)
      in (kept, if Suc i \<ge> period then kept / num_of_nat period else NaN))"

definition sma :: "jsnum list \<Rightarrow> nat \<Rightarrow> jsnum list" where
  "sma values period = pass (sma_step values period) 0 [0..<length values]"

definition window_at :: "nat \<Rightarrow> nat \<Rightarrow> 'a list \<Rightarrow> 'a list" where
  "window_at period i xs = map (\<lambda>j. xs ! j) [Suc i - period..<Suc i]"

record bollinger_bands =
  bb_upper :: "jsnum list"
  bb_middle :: "jsnum list"
  bb_lower :: "jsnum list"

definition band_at :: "jsnum list \<Rightarrow> nat \<Rightarrow> jsnum \<Rightarrow> nat \<Rightarrow> jsnum" where
  "band_at values period mult i =
     (if Suc i < period then NaN
      else (let mean = sma values period ! i
            in mean + mult * math_sqrt (js_sum (map (\<lambda>v. squared (v - mean)) (window_at period i values)) / num_of_nat period)))"

definition bollinger :: "jsnum list \<Rightarrow> nat \<Rightarrow> jsnum \<Rightarrow> bollinger_bands" where
  "bollinger values period mult =
     \<lparr> bb_upper = map (band_at values period mult) [0..<length values], bb_middle = sma values period,
       bb_lower = map (band_at values period (- mult)) [0..<length values] \<rparr>"

definition typical :: "candle \<Rightarrow> jsnum" where
  "typical c = (c_high c + c_low c + c_close c) / 3"

definition vwap_at :: "candle list \<Rightarrow> nat \<Rightarrow> nat \<Rightarrow> jsnum" where
  "vwap_at cs period i =
     (if Suc i < period then NaN
      else (let w = window_at period i cs; pv = js_sum (map (\<lambda>c. typical c * c_volume c) w); volume = js_sum (map c_volume w)
            in if volume > 0 then pv / volume else c_close (cs ! i)))"

definition vwap :: "candle list \<Rightarrow> nat \<Rightarrow> jsnum list" where
  "vwap cs period = (if period = 0 then no_values (length cs) else map (vwap_at cs period) [0..<length cs])"

section \<open>Oscillators\<close>

definition true_range :: "candle \<Rightarrow> jsnum \<Rightarrow> jsnum" where
  "true_range c prevClose = math_max (math_max (c_high c - c_low c) (abs (c_high c - prevClose))) (abs (c_low c - prevClose))"

definition atr_step :: "candle list \<Rightarrow> nat \<Rightarrow> jsnum \<times> jsnum \<Rightarrow> nat \<Rightarrow> (jsnum \<times> jsnum) \<times> jsnum" where
  "atr_step cs period s i =
     (let (trSum, prev) = s;
          tr = true_range (cs ! i) (if i > 0 then c_close (cs ! (i - 1)) else c_close (cs ! i));
          trSum' = (if i < period then trSum + tr else trSum);
          v = (if Suc i = period then trSum' / num_of_nat period
               else if i \<ge> period then (prev * (num_of_nat period - 1) + tr) / num_of_nat period else NaN)
      in ((trSum', v), v))"

definition wilderAtr :: "candle list \<Rightarrow> nat \<Rightarrow> jsnum list" where
  "wilderAtr cs period =
     (if period = 0 \<or> length cs < period then no_values (length cs) else pass (atr_step cs period) (0, NaN) [0..<length cs])"

definition last_finite :: "jsnum list \<Rightarrow> jsnum option" where
  "last_finite xs = (case last_opt xs of None \<Rightarrow> None | Some v \<Rightarrow> if is_finite v then Some v else None)"

definition atr_value :: "candle list \<Rightarrow> nat \<Rightarrow> jsnum" where
  "atr_value cs period = (case last_finite (wilderAtr cs period) of None \<Rightarrow> 0 | Some v \<Rightarrow> v)"

definition rsi_value :: "jsnum \<Rightarrow> jsnum \<Rightarrow> jsnum" where
  "rsi_value avgGain avgLoss = (if js_eq avgLoss 0 then 100 else 100 - 100 / (1 + avgGain / avgLoss))"

definition rsi_step :: "jsnum list \<Rightarrow> nat \<Rightarrow> jsnum \<times> jsnum \<Rightarrow> nat \<Rightarrow> (jsnum \<times> jsnum) \<times> jsnum" where
  "rsi_step values period s i =
     (let (g, l) = s; diff = values ! i - values ! (i - 1); p = num_of_nat period
      in if i = 0 then (s, NaN)
         else if i \<le> period then
           (let g1 = (if diff \<ge> 0 then g + diff else g); l1 = (if diff \<ge> 0 then l else l - diff)
            in if i = period then ((g1 / p, l1 / p), rsi_value (g1 / p) (l1 / p)) else ((g1, l1), NaN))
         else
           (let g1 = (g * (p - 1) + math_max 0 diff) / p; l1 = (l * (p - 1) + math_max 0 (- diff)) / p
            in ((g1, l1), rsi_value g1 l1)))"

definition rsi :: "jsnum list \<Rightarrow> nat \<Rightarrow> jsnum list" where
  "rsi values period =
     (if length values \<le> period then no_values (length values) else pass (rsi_step values period) (0, 0) [0..<length values])"

definition directional :: "jsnum \<Rightarrow> jsnum \<Rightarrow> jsnum" where
  "directional move other = (if move > other \<and> move > 0 then move else 0)"

definition dx_value :: "jsnum \<Rightarrow> jsnum \<Rightarrow> jsnum \<Rightarrow> jsnum" where
  "dx_value smTr smPlus smMinus =
     (let plusDi = (if js_eq smTr 0 then 0 else (100 * smPlus) / smTr); minusDi = (if js_eq smTr 0 then 0 else (100 * smMinus) / smTr);
          denominator = plusDi + minusDi
      in if js_eq denominator 0 then 0 else (100 * abs (plusDi - minusDi)) / denominator)"

record adx_state =
  ax_tr :: jsnum
  ax_plus :: jsnum
  ax_minus :: jsnum
  ax_seed :: jsnum
  ax_adx :: jsnum

definition adx_step :: "candle list \<Rightarrow> nat \<Rightarrow> adx_state \<Rightarrow> nat \<Rightarrow> adx_state \<times> jsnum" where
  "adx_step cs period s i =
     (if i = 0 then (s, NaN)
      else
        (let c = cs ! i; q = cs ! (i - 1); p = num_of_nat period;
             tr = true_range c (c_close q); up = c_high c - c_high q; down = c_low q - c_low c;
             add = (\<lambda>sm x. if i \<le> period then sm + x else sm - sm / p + x);
             t = add (ax_tr s) tr; plus = add (ax_plus s) (directional up down); minus' = add (ax_minus s) (directional down up);
             dx = dx_value t plus minus';
             seed = (if period \<le> i \<and> i < 2 * period then ax_seed s + dx else ax_seed s);
             v = (if Suc i = 2 * period then seed / p else if i \<ge> 2 * period then (ax_adx s * (p - 1) + dx) / p else NaN)
         in (\<lparr> ax_tr = t, ax_plus = plus, ax_minus = minus', ax_seed = seed, ax_adx = v \<rparr>, v)))"

definition adx_start :: adx_state where
  "adx_start = \<lparr> ax_tr = 0, ax_plus = 0, ax_minus = 0, ax_seed = 0, ax_adx = NaN \<rparr>"

definition adx :: "candle list \<Rightarrow> nat \<Rightarrow> jsnum list" where
  "adx cs period =
     (if period = 0 \<or> length cs < 2 * period then no_values (length cs) else pass (adx_step cs period) adx_start [0..<length cs])"

record macd_result =
  md_macd :: "jsnum list"
  md_signal :: "jsnum list"
  md_histogram :: "jsnum list"

definition macd :: "jsnum list \<Rightarrow> nat \<Rightarrow> nat \<Rightarrow> nat \<Rightarrow> macd_result" where
  "macd values fast slow signalPeriod =
     (let line = map2 (-) (ema values fast) (ema values slow); signal = ema line signalPeriod
      in \<lparr> md_macd = line, md_signal = signal, md_histogram = map2 (-) line signal \<rparr>)"

section \<open>Readings of a series\<close>

definition atrPercentile :: "jsnum list \<Rightarrow> jsnum \<Rightarrow> jsnum" where
  "atrPercentile series value =
     (let valid = filter is_finite series
      in if valid = [] \<or> \<not> is_finite value then 0
         else (num_of_nat (length (filter (\<lambda>x. x \<le> value) valid)) / num_of_nat (length valid)) * 100)"

definition emaSlopePct :: "jsnum list \<Rightarrow> nat \<Rightarrow> nat \<Rightarrow> jsnum option" where
  "emaSlopePct values period lookback =
     (if period = 0 \<or> lookback = 0 \<or> length values < period + lookback then None
      else (let series = ema values period; current = series ! (length series - 1); previous = series ! (length series - 1 - lookback)
            in if js_eq previous 0 then None else Some (((current - previous) / abs previous) * 100)))"

definition zscore :: "jsnum list \<Rightarrow> nat \<Rightarrow> jsnum" where
  "zscore values period =
     (if length values < period then 0
      else (let w = last_n period values; mean = js_mean w; sd = js_stdev w mean
            in if js_eq sd 0 then 0 else (last values - mean) / sd))"

definition pairZScore :: "candle list \<Rightarrow> candle list \<Rightarrow> nat \<Rightarrow> jsnum" where
  "pairZScore as bs period =
     (let n = min (length as) (length bs)
      in if n < period then 0 else zscore (map (\<lambda>i. c_close (as ! i) / c_close (bs ! i)) [n - period..<n]) period)"

section \<open>No look-ahead\<close>

lemma pass_length [simp]: "length (pass f s is') = length is'"
  by (induction is' arbitrary: s) (simp_all split: prod.split)

lemma pass_cong: "(\<And>i t. i \<in> set is' \<Longrightarrow> f t i = g t i) \<Longrightarrow> pass f s is' = pass g s is'"
proof (induction is' arbitrary: s)
  case (Cons i is')
  have "f s i = g s i" using Cons.prems by simp
  moreover have "pass f t is' = pass g t is'" for t using Cons by simp
  ultimately show ?case by simp
qed simp

lemma pass_prefix: "take (length xs) (pass f s (xs @ ys)) = pass f s xs"
  by (induction xs arbitrary: s) (simp_all split: prod.split)

text \<open>A pass over a longer window whose steps read no later index starts with the pass over the shorter one.\<close>

lemma pass_causal:
  assumes "\<And>i t. i < n \<Longrightarrow> f t i = g t i" and "n \<le> m"
  shows "take n (pass f s [0..<m]) = pass g s [0..<n]"
proof -
  have "[0..<m] = [0..<n] @ [n..<m]" using upt_add_eq_append [of 0 n "m - n"] assms(2) by simp
  then have "take n (pass f s [0..<m]) = pass f s [0..<n]" using pass_prefix [of "[0..<n]" f s "[n..<m]"] by simp
  also have "\<dots> = pass g s [0..<n]" using assms(1) by (intro pass_cong) simp
  finally show ?thesis .
qed

lemma map_causal: "(\<And>i. i < n \<Longrightarrow> f i = g i) \<Longrightarrow> n \<le> m \<Longrightarrow> take n (map f [0..<m]) = map g [0..<n]"
  by (simp add: take_map min_def)

text \<open>Until a pass has seen its first full window it emits \<open>NaN\<close>.\<close>

lemma pass_warming:
  assumes "\<And>i t. i < n \<Longrightarrow> snd (f t i) = NaN"
  shows "pass f s [0..<n] = no_values n"
proof -
  have "pass f s is' = replicate (length is') NaN" if "set is' \<subseteq> {..<n}" for is'
    using that
  proof (induction is' arbitrary: s)
    case (Cons i is')
    then have "snd (f s i) = NaN" using assms by simp
    with Cons show ?case by (simp add: case_prod_beta)
  qed simp
  then show ?thesis by (simp add: no_values_def atLeast0LessThan)
qed

lemma ema_causal: "take (length xs) (ema (xs @ ys) p) = ema xs p"
  unfolding ema_def by (rule pass_causal) (auto simp: ema_step_def nth_append Let_def)

lemma sma_causal: "take (length xs) (sma (xs @ ys) p) = sma xs p"
  unfolding sma_def by (rule pass_causal) (auto simp: sma_step_def nth_append Let_def)

lemma sma_length [simp]: "length (sma xs p) = length xs"
  by (simp add: sma_def)

lemma ema_length [simp]: "length (ema xs p) = length xs"
  by (simp add: ema_def)

lemma window_append: "i < length xs \<Longrightarrow> window_at p i (xs @ ys) = window_at p i xs"
  by (auto simp: window_at_def nth_append)

lemma band_append:
  assumes "i < length xs"
  shows "band_at (xs @ ys) p m i = band_at xs p m i"
proof -
  have "sma (xs @ ys) p ! i = sma xs p ! i" using arg_cong [OF sma_causal [of xs ys p], of "\<lambda>l. l ! i"] assms by simp
  then show ?thesis using assms by (simp add: band_at_def window_append)
qed

lemma bands_causal:
  "take (length xs) (bb_upper (bollinger (xs @ ys) p m)) = bb_upper (bollinger xs p m)"
  "take (length xs) (bb_lower (bollinger (xs @ ys) p m)) = bb_lower (bollinger xs p m)"
  "take (length xs) (bb_middle (bollinger (xs @ ys) p m)) = bb_middle (bollinger xs p m)"
  by (simp_all add: bollinger_def sma_causal take_map band_append)

lemma vwap_causal: "take (length cs) (vwap (cs @ ds) p) = vwap cs p"
proof (cases "p = 0")
  case True
  then show ?thesis by (simp add: vwap_def no_values_def)
next
  case False
  then show ?thesis by (auto simp: vwap_def take_map vwap_at_def window_append nth_append Let_def)
qed

lemma causal_with_start:
  assumes "\<And>i t. i < n \<Longrightarrow> f t i = g t i" and "\<And>i t. Suc i < w \<Longrightarrow> snd (f t i) = NaN" and "n \<le> m"
  shows "take n (if m < w then no_values m else pass f s [0..<m]) = (if n < w then no_values n else pass g s [0..<n])"
proof (cases "m < w")
  case True
  then show ?thesis using assms(3) by (simp add: no_values_def min_def)
next
  case m: False
  have t: "take n (pass f s [0..<m]) = pass g s [0..<n]" using assms(1,3) by (rule pass_causal)
  show ?thesis
  proof (cases "n < w")
    case True
    have "snd (g t i) = NaN" if "i < n" for i t using assms(2) [of i t] assms(1) [OF that, of t] True that by simp
    then have "pass g s [0..<n] = no_values n" by (rule pass_warming)
    then show ?thesis using m True t by simp
  next
    case False
    then show ?thesis using m t by simp
  qed
qed

lemma atr_causal: "take (length cs) (wilderAtr (cs @ ds) p) = wilderAtr cs p"
proof (cases "p = 0")
  case True
  then show ?thesis by (simp add: wilderAtr_def no_values_def)
next
  case False
  have "take (length cs) (if length (cs @ ds) < p then no_values (length (cs @ ds)) else pass (atr_step (cs @ ds) p) (0, NaN) [0..<length (cs @ ds)])
    = (if length cs < p then no_values (length cs) else pass (atr_step cs p) (0, NaN) [0..<length cs])"
    by (rule causal_with_start) (auto simp: atr_step_def nth_append Let_def split: prod.splits)
  then show ?thesis using False by (simp add: wilderAtr_def)
qed

lemma rsi_causal: "take (length xs) (rsi (xs @ ys) p) = rsi xs p"
proof -
  have "take (length xs) (if length (xs @ ys) < Suc p then no_values (length (xs @ ys)) else pass (rsi_step (xs @ ys) p) (0, 0) [0..<length (xs @ ys)])
    = (if length xs < Suc p then no_values (length xs) else pass (rsi_step xs p) (0, 0) [0..<length xs])"
    by (rule causal_with_start) (auto simp: rsi_step_def nth_append Let_def split: prod.splits)
  then show ?thesis by (simp add: rsi_def less_Suc_eq_le)
qed

lemma adx_causal: "take (length cs) (adx (cs @ ds) p) = adx cs p"
proof (cases "p = 0")
  case True
  then show ?thesis by (simp add: adx_def no_values_def)
next
  case False
  have "take (length cs) (if length (cs @ ds) < 2 * p then no_values (length (cs @ ds)) else pass (adx_step (cs @ ds) p) adx_start [0..<length (cs @ ds)])
    = (if length cs < 2 * p then no_values (length cs) else pass (adx_step cs p) adx_start [0..<length cs])"
    by (rule causal_with_start) (auto simp: adx_step_def nth_append Let_def)
  then show ?thesis using False by (simp add: adx_def)
qed

lemma macd_causal: "take (length xs) (md_histogram (macd (xs @ ys) f s g)) = md_histogram (macd xs f s g)"
proof -
  have t: "take (length a) (map2 (-) (ema (xs @ ys) f) (ema (xs @ ys) s)) = map2 (-) (ema xs f) (ema xs s)" if "length a = length xs" for a :: "jsnum list"
    using ema_causal [of xs ys f] ema_causal [of xs ys s] that by (simp add: take_map take_zip)
  define l where "l = map2 (-) (ema (xs @ ys) f) (ema (xs @ ys) s)"
  have l: "take (length xs) l = map2 (-) (ema xs f) (ema xs s)" using t [of xs] by (simp add: l_def)
  have "ema l g = ema (take (length xs) l @ drop (length xs) l) g" by simp
  moreover have "length (take (length xs) l) = length xs" by (simp add: l_def)
  ultimately have "take (length xs) (ema l g) = ema (take (length xs) l) g"
    using ema_causal [of "take (length xs) l" "drop (length xs) l" g] by simp
  then show ?thesis by (simp add: macd_def l [symmetric] l_def [symmetric] take_map take_zip Let_def)
qed

section \<open>The ranges of the oscillators\<close>

definition ranged :: "real \<Rightarrow> real \<Rightarrow> jsnum \<Rightarrow> bool" where
  "ranged lo hi x \<longleftrightarrow> x = NaN \<or> (\<exists>r. x = Fin r \<and> lo \<le> r \<and> r \<le> hi)"

definition nonneg :: "jsnum \<Rightarrow> bool" where
  "nonneg x \<longleftrightarrow> (\<exists>r. x = Fin r \<and> 0 \<le> r)"

definition finite_bar :: "candle \<Rightarrow> bool" where
  "finite_bar c \<longleftrightarrow> list_all is_finite [c_openTime c, c_open c, c_high c, c_low c, c_close c, c_volume c]"

lemma finite_bar_prices:
  "finite_bar c \<Longrightarrow> \<exists>h l k. c_high c = Fin h \<and> c_low c = Fin l \<and> c_close c = Fin k"
  by (auto simp: finite_bar_def is_finite_iff)

lemma ranged_no_values [simp]: "list_all (ranged lo hi) (no_values n)"
  by (induction n) (simp_all add: no_values_def ranged_def)

text \<open>A property of every emitted value, by an invariant of the state at each index.\<close>

lemma pass_each:
  assumes "I 0 s" and "\<And>i t. i < n \<Longrightarrow> I i t \<Longrightarrow> I (Suc i) (fst (f t i)) \<and> Q i (snd (f t i))" and "i < n"
  shows "Q i (pass f s [0..<n] ! i)"
proof -
  have "Q j (pass f t [k..<n] ! (j - k))" if "I k t" "k \<le> j" "j < n" for j k t
    using that
  proof (induction "j - k" arbitrary: k t)
    case 0
    then have "[k..<n] = k # [Suc k..<n]" by (intro upt_conv_Cons) simp
    then show ?case using 0 assms(2) [of k t] by (simp add: case_prod_beta)
  next
    case (Suc d)
    then have "[k..<n] = k # [Suc k..<n]" by (intro upt_conv_Cons) simp
    moreover have "d = j - Suc k" "k < n" "j - k = Suc (j - Suc k)" "Suc k \<le> j" using Suc.hyps(2) Suc.prems by auto
    ultimately show ?case using Suc.hyps(1) [of "Suc k" "fst (f t k)"] assms(2) [of k t] Suc.prems
      by (simp add: case_prod_beta)
  qed
  from this [of 0 s i] show ?thesis using assms(1,3) by simp
qed

lemma pass_all:
  assumes "I 0 s" and "\<And>i t. i < n \<Longrightarrow> I i t \<Longrightarrow> I (Suc i) (fst (f t i)) \<and> Q (snd (f t i))"
  shows "list_all Q (pass f s [0..<n])"
  using pass_each [of I s n f "\<lambda>i. Q"] assms by (simp add: list_all_length)

lemma rsi_value_ranged: "nonneg g \<Longrightarrow> nonneg l \<Longrightarrow> ranged 0 100 (rsi_value g l)"
proof -
  assume "nonneg g" "nonneg l"
  then obtain a b where ab: "g = Fin a" "l = Fin b" "0 \<le> a" "0 \<le> b" by (auto simp: nonneg_def)
  show ?thesis
  proof (cases "b = 0")
    case True
    then show ?thesis using ab by (simp add: rsi_value_def ranged_def)
  next
    case False
    have "0 \<le> a / b" using ab by simp
    moreover have "0 \<le> 100 - 100 / (1 + x)" "100 - 100 / (1 + x) \<le> 100" "1 + x \<noteq> 0" if "0 \<le> x" for x :: real
      using that by (simp_all add: field_simps)
    ultimately have "0 \<le> 100 - 100 / (1 + a / b)" "100 - 100 / (1 + a / b) \<le> 100" "1 + a / b \<noteq> 0" by blast+
    then show ?thesis using ab False by (simp add: rsi_value_def ranged_def)
  qed
qed

lemma nonneg_smooth:
  assumes "nonneg g" and "nonneg d" and "0 < p"
  shows "nonneg ((g * (num_of_nat p - 1) + d) / num_of_nat p)"
proof -
  have "1 \<le> real p" using assms(3) by simp
  then show ?thesis using assms by (auto simp: nonneg_def num_of_nat_def)
qed

lemma rsi_step_ranged:
  assumes "nonneg (fst s)" and "nonneg (snd s)" and "0 < p" and "list_all is_finite values" and "i < length values"
  shows "nonneg (fst (fst (rsi_step values p s i))) \<and> nonneg (snd (fst (rsi_step values p s i))) \<and> ranged 0 100 (snd (rsi_step values p s i))"
proof -
  obtain a b where ab: "values ! i = Fin a" "values ! (i - Suc 0) = Fin b"
    using assms(4,5) by (auto simp: list_all_length is_finite_iff) (metis less_imp_diff_less)
  obtain g l where s: "s = (g, l)" by fastforce
  have gl: "nonneg g" "nonneg l" using assms(1,2) s by auto
  define D where "D = values ! i - values ! (i - 1)"
  have D: "D = Fin (a - b)" by (simp add: D_def ab)
  define g1 where "g1 = (if D \<ge> 0 then g + D else g)"
  define l1 where "l1 = (if D \<ge> 0 then l else l - D)"
  have up: "nonneg g1" and down: "nonneg l1" using gl by (auto simp: D nonneg_def g1_def l1_def)
  have div: "nonneg (x / num_of_nat p)" if "nonneg x" for x using that assms(3) by (auto simp: nonneg_def num_of_nat_def)
  have "nonneg (math_max 0 D)" "nonneg (math_max 0 (- D))" by (auto simp: D nonneg_def)
  note sm = nonneg_smooth [OF gl(1) this(1) assms(3)] nonneg_smooth [OF gl(2) this(2) assms(3)]
  have step: "rsi_step values p s i =
    (if i = 0 then (s, NaN)
     else if i \<le> p then
       (if i = p then ((g1 / num_of_nat p, l1 / num_of_nat p), rsi_value (g1 / num_of_nat p) (l1 / num_of_nat p)) else ((g1, l1), NaN))
     else (((g * (num_of_nat p - 1) + math_max 0 D) / num_of_nat p, (l * (num_of_nat p - 1) + math_max 0 (- D)) / num_of_nat p),
        rsi_value ((g * (num_of_nat p - 1) + math_max 0 D) / num_of_nat p) ((l * (num_of_nat p - 1) + math_max 0 (- D)) / num_of_nat p)))"
    by (simp only: rsi_step_def s prod.case Let_def D_def [symmetric] g1_def [symmetric] l1_def [symmetric])
  show ?thesis unfolding step using sm up down div gl rsi_value_ranged by (simp add: s ranged_def [of _ _ NaN] del: js_consts)
qed

lemma rsi_ranged:
  assumes "0 < p" and "list_all is_finite values"
  shows "list_all (ranged 0 100) (rsi values p)"
proof -
  have "list_all (ranged 0 100) (pass (rsi_step values p) (0, 0) [0..<length values])"
    by (rule pass_all [where I = "\<lambda>i s. nonneg (fst s) \<and> nonneg (snd s)"])
      (use rsi_step_ranged assms in \<open>auto simp: nonneg_def\<close>)
  then show ?thesis by (simp add: rsi_def)
qed

lemma true_range_nonneg:
  assumes "finite_bar c" and "is_finite k"
  shows "nonneg (true_range c k)"
  using assms finite_bar_prices [OF assms(1)] by (auto simp: nonneg_def true_range_def is_finite_iff)

lemma atr_ranged:
  assumes "list_all finite_bar cs"
  shows "list_all (\<lambda>v. v = NaN \<or> nonneg v) (wilderAtr cs p)"
proof (cases "p = 0 \<or> length cs < p")
  case True
  then show ?thesis by (auto simp: wilderAtr_def no_values_def list_all_iff)
next
  case False
  then have p: "0 < p" by simp
  have "list_all (\<lambda>v. v = NaN \<or> nonneg v) (pass (atr_step cs p) (0, NaN) [0..<length cs])"
  proof (rule pass_all [where I = "\<lambda>i s. nonneg (fst s) \<and> (i \<ge> p \<longrightarrow> nonneg (snd s))"])
    fix i s assume i: "i < length cs" and s: "nonneg (fst s) \<and> (i \<ge> p \<longrightarrow> nonneg (snd s))"
    obtain a b where ab: "s = (a, b)" by fastforce
    have fin: "finite_bar (cs ! i)" "finite_bar (cs ! (i - 1))" using assms i by (auto simp: list_all_length)
    then have tr: "nonneg (true_range (cs ! i) (if i > 0 then c_close (cs ! (i - 1)) else c_close (cs ! i)))"
      using true_range_nonneg finite_bar_prices by (auto simp: is_finite_iff)
    have plus: "nonneg (a + t)" if "nonneg t" for t using s ab that by (auto simp: nonneg_def)
    have div: "nonneg (x / num_of_nat p)" if "nonneg x" for x using that p by (auto simp: nonneg_def num_of_nat_def)
    show "(nonneg (fst (fst (atr_step cs p s i))) \<and> (Suc i \<ge> p \<longrightarrow> nonneg (snd (fst (atr_step cs p s i)))))
        \<and> (snd (atr_step cs p s i) = NaN \<or> nonneg (snd (atr_step cs p s i)))"
      using s tr plus [OF tr] div nonneg_smooth [OF _ tr p] by (auto simp: atr_step_def ab Let_def simp del: js_consts)
  qed (simp add: nonneg_def p)
  then show ?thesis using False by (simp add: wilderAtr_def)
qed

lemma directional_nonneg: "is_finite a \<Longrightarrow> is_finite b \<Longrightarrow> nonneg (directional (a - c) (b - d)) \<or> \<not> is_finite c \<or> \<not> is_finite d"
  by (auto simp: directional_def nonneg_def is_finite_iff)

lemma di_nonneg:
  assumes "nonneg t" and "nonneg a"
  shows "nonneg (if js_eq t 0 then 0 else (100 * a) / t)"
proof -
  obtain r q where "t = Fin r" "a = Fin q" "0 \<le> r" "0 \<le> q" using assms by (auto simp: nonneg_def)
  then show ?thesis by (cases "r = 0") (simp_all add: nonneg_def)
qed

lemma dx_ranged:
  assumes "nonneg t" and "nonneg a" and "nonneg b"
  shows "\<exists>r. dx_value t a b = Fin r \<and> 0 \<le> r \<and> r \<le> 100"
proof -
  obtain x where x: "(if js_eq t 0 then 0 else (100 * a) / t) = Fin x" "0 \<le> x" using di_nonneg [OF assms(1,2)] unfolding nonneg_def by blast
  obtain y where y: "(if js_eq t 0 then 0 else (100 * b) / t) = Fin y" "0 \<le> y" using di_nonneg [OF assms(1,3)] unfolding nonneg_def by blast
  have d: "dx_value t a b = (if x + y = 0 then 0 else Fin (100 * \<bar>x - y\<bar> / (x + y)))"
    unfolding dx_value_def Let_def x(1) y(1) by simp
  show ?thesis
  proof (cases "x + y = 0")
    case False
    then have p: "0 < x + y" using x(2) y(2) by linarith
    have "\<bar>x - y\<bar> \<le> x + y" using x(2) y(2) by linarith
    then have "100 * \<bar>x - y\<bar> / (x + y) \<le> 100" using p by (simp add: divide_le_eq)
    moreover have "0 \<le> 100 * \<bar>x - y\<bar> / (x + y)" using p by simp
    ultimately show ?thesis using False by (simp add: d)
  qed (simp add: d)
qed

text \<open>The seed holds one directional index per bar from \<open>p\<close> on.\<close>

definition adx_ok :: "nat \<Rightarrow> nat \<Rightarrow> adx_state \<Rightarrow> bool" where
  "adx_ok p i s \<longleftrightarrow> nonneg (ax_tr s) \<and> nonneg (ax_plus s) \<and> nonneg (ax_minus s)
     \<and> (\<exists>r. ax_seed s = Fin r \<and> 0 \<le> r \<and> r \<le> 100 * real (min i (2 * p) - p))
     \<and> (2 * p \<le> i \<longrightarrow> (\<exists>r. ax_adx s = Fin r \<and> 0 \<le> r \<and> r \<le> 100))"

lemma smoothed:
  assumes "0 \<le> a" and "a \<le> (100::real)" and "0 \<le> d" and "d \<le> 100" and "0 < p"
  shows "0 \<le> (a * (real p - 1) + d) / real p \<and> (a * (real p - 1) + d) / real p \<le> 100"
proof -
  have q: "0 \<le> real p - 1" using assms(5) by simp
  then have "a * (real p - 1) \<le> 100 * (real p - 1)" using assms(2) by (intro mult_right_mono)
  then have "a * (real p - 1) + d \<le> 100 * real p" using assms(4) by (simp add: algebra_simps)
  moreover have "0 \<le> a * (real p - 1) + d" using assms(1,3) q by simp
  ultimately show ?thesis using assms(5) by (simp add: divide_le_eq)
qed

lemma adx_step_ok:
  assumes "adx_ok p i s" and "0 < p" and "list_all finite_bar cs" and "i < length cs"
  shows "adx_ok p (Suc i) (fst (adx_step cs p s i)) \<and> ranged 0 100 (snd (adx_step cs p s i))"
proof (cases "i = 0")
  case True
  then show ?thesis using assms(1,2) by (simp add: adx_step_def adx_ok_def ranged_def)
next
  case False
  let ?c = "cs ! i" and ?q = "cs ! (i - Suc 0)" and ?p = "num_of_nat p"
  let ?add = "\<lambda>sm x. if i \<le> p then sm + x else sm - sm / ?p + x"
  have fin: "finite_bar ?c" "finite_bar ?q" using assms(3,4) by (auto simp: list_all_length)
  obtain h l k h' l' k' where e: "c_high ?c = Fin h" "c_low ?c = Fin l" "c_high ?q = Fin h'" "c_low ?q = Fin l'" "c_close ?q = Fin k'"
    using finite_bar_prices [OF fin(1)] finite_bar_prices [OF fin(2)] by blast
  have add: "nonneg (?add sm x)" if "nonneg sm" "nonneg x" for sm x
  proof -
    obtain m y where my: "sm = Fin m" "x = Fin y" "0 \<le> m" "0 \<le> y" using \<open>nonneg sm\<close> \<open>nonneg x\<close> by (auto simp: nonneg_def)
    have "m / real p \<le> m" using my(3) assms(2) by (simp add: divide_le_eq mult_le_cancel_left1)
    then show ?thesis using my assms(2) by (simp add: nonneg_def num_of_nat_def)
  qed
  define t where "t = ?add (ax_tr s) (true_range ?c (c_close ?q))"
  define plus where "plus = ?add (ax_plus s) (directional (c_high ?c - c_high ?q) (c_low ?q - c_low ?c))"
  define minus' where "minus' = ?add (ax_minus s) (directional (c_low ?q - c_low ?c) (c_high ?c - c_high ?q))"
  have "nonneg (true_range ?c (c_close ?q))" using true_range_nonneg [OF fin(1)] e by simp
  then have t: "nonneg t" unfolding t_def using assms(1) by (intro add) (simp_all add: adx_ok_def)
  have pl: "nonneg plus" unfolding plus_def using assms(1) by (intro add) (auto simp: adx_ok_def e directional_def nonneg_def)
  have mi: "nonneg minus'" unfolding minus'_def using assms(1) by (intro add) (auto simp: adx_ok_def e directional_def nonneg_def)
  obtain d where d: "dx_value t plus minus' = Fin d" "0 \<le> d" "d \<le> 100" using dx_ranged [OF t pl mi] by blast
  obtain r where r: "ax_seed s = Fin r" "0 \<le> r" "r \<le> 100 * real (min i (2 * p) - p)" using assms(1) by (auto simp: adx_ok_def)
  define seed where "seed = (if p \<le> i \<and> i < 2 * p then r + d else r)"
  define v where "v = (if Suc i = 2 * p then Fin (seed / real p) else if i \<ge> 2 * p then (ax_adx s * (?p - 1) + Fin d) / ?p else NaN)"
  have step: "adx_step cs p s i = (\<lparr> ax_tr = t, ax_plus = plus, ax_minus = minus', ax_seed = Fin seed, ax_adx = v \<rparr>, v)"
    using False assms(2) unfolding adx_step_def Let_def One_nat_def t_def [symmetric] plus_def [symmetric] minus'_def [symmetric] d(1) r(1)
    by (simp add: v_def seed_def num_of_nat_def)
  have se: "0 \<le> seed \<and> seed \<le> 100 * real (min (Suc i) (2 * p) - p)"
    using r(2,3) d(2,3) by (auto simp: seed_def min_def Suc_diff_le split: if_splits)
  have vr: "2 * p \<le> Suc i \<Longrightarrow> \<exists>x. v = Fin x \<and> 0 \<le> x \<and> x \<le> 100"
  proof (cases "Suc i = 2 * p")
    case True
    then have "seed \<le> 100 * real p" using se by simp
    then show ?thesis using True se assms(2) by (simp add: v_def divide_le_eq)
  next
    case no: False
    assume "2 * p \<le> Suc i"
    then have "2 * p \<le> i" using no by simp
    moreover from this obtain a where "ax_adx s = Fin a" "0 \<le> a" "a \<le> 100" using assms(1) by (auto simp: adx_ok_def)
    ultimately show ?thesis using no smoothed [of a d p] d assms(2) by (simp add: v_def num_of_nat_def)
  qed
  then have "ranged 0 100 v" by (cases "2 * p \<le> Suc i") (auto simp: ranged_def v_def)
  then show ?thesis using t pl mi se vr by (simp add: step adx_ok_def)
qed

lemma adx_ranged:
  assumes "0 < p" and "list_all finite_bar cs"
  shows "list_all (ranged 0 100) (adx cs p)"
proof -
  have "list_all (ranged 0 100) (pass (adx_step cs p) adx_start [0..<length cs])"
    by (rule pass_all [where I = "adx_ok p"]) (use adx_step_ok assms in \<open>auto simp: adx_ok_def adx_start_def nonneg_def\<close>)
  then show ?thesis by (simp add: adx_def)
qed

lemma percentile_ranged: "\<exists>r. atrPercentile xs v = Fin r \<and> 0 \<le> r \<and> r \<le> 100"
proof (cases "filter is_finite xs = [] \<or> \<not> is_finite v")
  case True
  then show ?thesis by (auto simp: atrPercentile_def)
next
  case False
  define w where "w = filter is_finite xs"
  define k where "k = length (filter (\<lambda>x. x \<le> v) w)"
  have n: "0 < length w" "k \<le> length w" using False length_filter_le [of _ w] by (auto simp: w_def k_def simp del: filter_filter)
  have "atrPercentile xs v = Fin (real k * 100 / real (length w))"
    using False n(1) unfolding atrPercentile_def w_def [symmetric] Let_def k_def [symmetric] by (simp add: num_of_nat_def)
  moreover have "real k * 100 / real (length w) \<le> 100" using n by (simp add: divide_le_eq)
  ultimately show ?thesis by simp
qed

section \<open>The running average is the average of the window\<close>

lemma sma_window:
  assumes "0 < p" and "i < length xs" and "p \<le> Suc i"
  shows "sma (map Fin xs) p ! i = js_mean (window_at p i (map Fin xs))"
proof -
  let ?w = "\<lambda>i. \<Sum>j\<leftarrow>[i - p..<i]. xs ! j"
  have step: "?w (Suc i) = (if p \<le> i then ?w i + xs ! i - xs ! (i - p) else ?w i + xs ! i)" for i
  proof (cases "p \<le> i")
    case True
    then have "[i - p..<i] = (i - p) # [Suc i - p..<i]" using assms(1) by (simp add: upt_conv_Cons Suc_diff_le)
    moreover have "[Suc i - p..<Suc i] = [Suc i - p..<i] @ [i]" using assms(1) by simp
    ultimately show ?thesis using True by simp
  next
    case False
    then show ?thesis by simp
  qed
  have win: "window_at p i (map Fin xs) = map Fin (map (\<lambda>j. xs ! j) [Suc i - p..<Suc i])" if "i < length xs" for i
    using that by (auto simp: window_at_def)
  have "\<forall>q\<le>Suc i. q = p \<longrightarrow> sma (map Fin xs) p ! i = Fin (?w (Suc i)) / num_of_nat p"
    unfolding sma_def length_map
  proof (rule pass_each [where I = "\<lambda>i a. a = Fin (?w i)" and Q = "\<lambda>i v. \<forall>q\<le>Suc i. q = p \<longrightarrow> v = Fin (?w (Suc i)) / num_of_nat p"])
    fix k t assume "k < length xs" "t = Fin (?w k)"
    then show "fst (sma_step (map Fin xs) p t k) = Fin (?w (Suc k))
        \<and> (\<forall>q\<le>Suc k. q = p \<longrightarrow> snd (sma_step (map Fin xs) p t k) = Fin (?w (Suc k)) / num_of_nat p)"
      using step [of k] by (simp add: sma_step_def Let_def del: upt_Suc)
  qed (use assms in simp_all)
  moreover have "length (window_at p i (map Fin xs)) = p" using assms by (simp add: window_at_def)
  ultimately show ?thesis using assms win [of i] by (simp add: js_mean_def del: upt_Suc map_map)
qed

section \<open>Properties\<close>

text \<open>No indicator looks ahead: whatever values or bars follow, every series starts with the series of the shorter window, the
  warm-up included.\<close>

theorem indicators_never_look_ahead:
  "take (length xs) (ema (xs @ ys) p) = ema xs p \<and> take (length xs) (sma (xs @ ys) p) = sma xs p
   \<and> take (length xs) (rsi (xs @ ys) p) = rsi xs p
   \<and> take (length xs) (bb_upper (bollinger (xs @ ys) p m)) = bb_upper (bollinger xs p m)
   \<and> take (length xs) (bb_lower (bollinger (xs @ ys) p m)) = bb_lower (bollinger xs p m)
   \<and> take (length xs) (md_histogram (macd (xs @ ys) p q r)) = md_histogram (macd xs p q r)
   \<and> take (length cs) (vwap (cs @ ds) p) = vwap cs p \<and> take (length cs) (wilderAtr (cs @ ds) p) = wilderAtr cs p
   \<and> take (length cs) (adx (cs @ ds) p) = adx cs p"
  by (intro conjI ema_causal sma_causal rsi_causal bands_causal macd_causal vwap_causal atr_causal adx_causal)

text \<open>The oscillators stay in their ranges: over finite bars every RSI and every ADX is absent or between 0 and 100, every ATR absent
  or not negative, and a percentile is always between 0 and 100.\<close>

theorem oscillators_stay_in_range:
  assumes "0 < p" and "list_all finite_bar cs"
  shows "list_all (ranged 0 100) (rsi (map c_close cs) p) \<and> list_all (ranged 0 100) (adx cs p)
    \<and> list_all (\<lambda>v. v = NaN \<or> nonneg v) (wilderAtr cs p) \<and> ranged 0 100 (atrPercentile (wilderAtr cs p) v)"
proof (intro conjI)
  have "list_all is_finite (map c_close cs)" using assms(2) by (auto simp: list_all_iff finite_bar_def)
  then show "list_all (ranged 0 100) (rsi (map c_close cs) p)" using rsi_ranged assms(1) by blast
  show "ranged 0 100 (atrPercentile (wilderAtr cs p) v)" using percentile_ranged by (auto simp: ranged_def)
qed (use adx_ranged atr_ranged assms in blast)+

definition demo_candles :: "candle list" where
  "demo_candles = map (\<lambda>(o', h, l, c). \<lparr> c_openTime = 0, c_open = Fin o', c_high = Fin h, c_low = Fin l, c_close = Fin c, c_volume = 1 \<rparr>)
     [(10, 12, 9, 11), (11, 14, 10, 13), (13, 13, 10, 11)]"

theorem oscillators_stay_in_range_witness:
  "rsi (map c_close demo_candles) 2 = [NaN, NaN, Fin 50] \<and> wilderAtr demo_candles 2 = [NaN, Fin (7/2), Fin (13/4)]
   \<and> list_all (ranged 0 100) (rsi (map c_close demo_candles) 2) \<and> list_all (ranged 0 100) (adx demo_candles 2)"
proof -
  have "list_all finite_bar demo_candles" by (simp add: demo_candles_def finite_bar_def)
  then have "list_all (ranged 0 100) (rsi (map c_close demo_candles) 2) \<and> list_all (ranged 0 100) (adx demo_candles 2)"
    using oscillators_stay_in_range [of 2 demo_candles 0] by simp
  then show ?thesis
    by (simp add: demo_candles_def rsi_def rsi_step_def rsi_value_def wilderAtr_def atr_step_def true_range_def num_of_nat_def upt_rec
      numeral_nat Let_def)
qed

text \<open>The running sum is sound: over finite values the average the one-pass moving average emits is the mean of its window.\<close>

theorem moving_average_is_window_mean:
  assumes "0 < p" and "i < length xs" and "p \<le> Suc i"
  shows "sma (map Fin xs) p ! i = js_mean (window_at p i (map Fin xs))"
  using assms by (rule sma_window)

theorem moving_average_is_window_mean_witness:
  "sma (map Fin [1, 2, 6]) 2 ! 2 = Fin 4 \<and> sma (map Fin [1, 2, 6]) 2 ! 2 = js_mean (window_at 2 2 (map Fin [1, 2, 6]))"
proof
  show "sma (map Fin [1, 2, 6]) 2 ! 2 = js_mean (window_at 2 2 (map Fin [1, 2, 6]))"
    by (rule moving_average_is_window_mean) simp_all
qed (simp add: sma_def sma_step_def num_of_nat_def upt_rec numeral_nat Let_def)

end
