(* ===== verification/Regime.thy ===== *)
theory Regime
  imports Indicators MarketTypes
begin

text \<open>
  The regime label: the timeframe state and first-match classifier (\<open>src/market/RegimeEngine.ts\<close>), the scored regime with hysteresis
  and dwell (\<open>src/market/RegimeScoring.ts\<close>) and the volatility phase (\<open>src/market/VolatilityPhase.ts\<close>). Trackers are per symbol; the
  model is the entry of one symbol in the tracker's map.
\<close>

section \<open>The classifier\<close>

definition VOLUME_Z_LOOKBACK :: nat where "VOLUME_Z_LOOKBACK = 20"

definition latestVolumeZ :: "candle list \<Rightarrow> jsnum option" where
  "latestVolumeZ cs =
     (if length cs < VOLUME_Z_LOOKBACK + 1 then None
      else (let w = map c_volume (butlast (last_n (VOLUME_Z_LOOKBACK + 1) cs)); mean = js_mean w;
                sd = math_sqrt (js_sum (map (\<lambda>v. squared (v - mean)) w) / (num_of_nat (length w) - 1))
            in if sd > 0 then Some ((c_volume (last cs) - mean) / sd) else None))"

definition buildTimeframeState :: "candle list \<Rightarrow> timeframe_state" where
  "buildTimeframeState cs =
     (let closes = map c_close cs; bands = bollinger closes 20 2; atrs = wilderAtr cs 14; atr14 = last_finite atrs
      in \<lparr> tf_candleCount = length cs, tf_lastClose = (case last_opt closes of None \<Rightarrow> 0 | Some v \<Rightarrow> v),
           tf_ema20 = last_finite (ema closes 20), tf_ema50 = last_finite (ema closes 50),
           tf_ema200 = last_finite (if length cs \<ge> 200 then ema closes 200 else []),
           tf_emaSlopePct = emaSlopePct closes 20 5, tf_adx14 = last_finite (adx cs 14), tf_atr14 = atr14,
           tf_atrPercentile = map_option (atrPercentile atrs) atr14, tf_rsi14 = last_finite (rsi closes 14),
           tf_vwap = last_finite (vwap cs (min 96 (max 2 (length cs)))),
           tf_bollingerMiddle = last_finite (bb_middle bands), tf_bollingerUpper = last_finite (bb_upper bands),
           tf_bollingerLower = last_finite (bb_lower bands), tf_volumeZ = latestVolumeZ cs \<rparr>)"

definition or_else :: "'a option \<Rightarrow> 'a option \<Rightarrow> 'a option" where
  "or_else a b = (case a of None \<Rightarrow> b | Some x \<Rightarrow> Some x)"

definition value_or :: "jsnum \<Rightarrow> jsnum option \<Rightarrow> jsnum" where
  "value_or d x = (case x of None \<Rightarrow> d | Some v \<Rightarrow> v)"

definition inferTrend :: "timeframe_state \<Rightarrow> trend_direction" where
  "inferTrend t =
     (case or_else (tf_ema200 t) (or_else (tf_ema50 t) (tf_ema20 t)) of
        None \<Rightarrow> NEUTRAL
      | Some baseline \<Rightarrow>
          if tf_lastClose t \<le> 0 then NEUTRAL
          else (let slope = value_or 0 (tf_emaSlopePct t); distance = (tf_lastClose t - baseline) / baseline
                in if distance > 0 \<and> slope \<ge> 0 then BULLISH else if distance < 0 \<and> slope \<le> 0 then BEARISH else NEUTRAL))"

definition clamp01 :: "jsnum \<Rightarrow> jsnum" where
  "clamp01 x = math_max 0 (math_min 1 x)"

definition classifyRegime :: "timeframe_state \<Rightarrow> timeframe_state \<Rightarrow> regime_snapshot" where
  "classifyRegime entry htf =
     (let trend = inferTrend htf; a = value_or 0 (tf_adx14 entry); pct = tf_atrPercentile entry;
          volatility = (if value_or 50 pct \<le> 20 then VolLow else if value_or 50 pct \<ge> 80 then VolHigh else VolMedium);
          label = (if trend = BULLISH \<and> a \<ge> 25 then TREND_UP
                   else if trend = BEARISH \<and> a \<ge> 25 then TREND_DOWN
                   else if (case pct of None \<Rightarrow> False | Some p \<Rightarrow> p \<ge> 85) then HIGH_VOL
                   else if (case pct of None \<Rightarrow> False | Some p \<Rightarrow> p \<le> 15) then LOW_VOL
                   else if a \<le> 20 then RANGE else TRANSITION)
      in \<lparr> rg_regime = label, rg_trendDirection = trend, rg_trendStrength = clamp01 ((a - 15) / 25), rg_volatility = volatility,
           rg_volatilityPercentile = pct, rg_adx14 = tf_adx14 entry, rg_emaSlopePct = tf_emaSlopePct htf, rg_scored = None \<rparr>)"

section \<open>The volatility phase\<close>

datatype volatility_phase = COMPRESSED | PhaseNormal | EXPANDING | EXTREME | PhaseUnknown

definition classifyVolatilityPhase :: "jsnum option \<Rightarrow> volatility_phase" where
  "classifyVolatilityPhase pct =
     (case pct of
        None \<Rightarrow> PhaseUnknown
      | Some p \<Rightarrow> if \<not> is_finite p then PhaseUnknown else if p \<ge> 95 then EXTREME else if p \<ge> 75 then EXPANDING
                  else if p \<le> 20 then COMPRESSED else PhaseNormal)"

record decision_context =
  dx_regime :: market_regime
  dx_volatilityPhase :: volatility_phase
  dx_atrPercentile :: "jsnum option"
  dx_adx14 :: "jsnum option"

definition decisionContextOf :: "regime_snapshot \<Rightarrow> timeframe_state \<Rightarrow> decision_context" where
  "decisionContextOf r entry =
     \<lparr> dx_regime = rg_regime r, dx_volatilityPhase = classifyVolatilityPhase (tf_atrPercentile entry),
       dx_atrPercentile = tf_atrPercentile entry, dx_adx14 = tf_adx14 entry \<rparr>"

section \<open>The scored regime\<close>

record regime_options =
  ro_trendEnter :: jsnum
  ro_trendExit :: jsnum
  ro_confirmBars :: jsnum

definition DEFAULT_REGIME_OPTIONS :: regime_options where
  "DEFAULT_REGIME_OPTIONS = \<lparr> ro_trendEnter = 55/100, ro_trendExit = 4/10, ro_confirmBars = 2 \<rparr>"

definition up_or_down :: "bool \<Rightarrow> jsnum" where
  "up_or_down up = (if up then 1 else - 1)"

definition higherTimeframeDirection :: "timeframe_state \<Rightarrow> trend_direction" where
  "higherTimeframeDirection htf = inferTrend htf"

definition alignment_checks :: "timeframe_state \<Rightarrow> jsnum \<Rightarrow> bool list" where
  "alignment_checks t d =
     (case (tf_ema20 t, tf_ema50 t) of (Some a, Some b) \<Rightarrow> [d * (a - b) > 0] | _ \<Rightarrow> [])
     @ (case (tf_ema50 t, tf_ema200 t) of (Some a, Some b) \<Rightarrow> [d * (a - b) > 0] | _ \<Rightarrow> [])
     @ (case tf_ema20 t of Some a \<Rightarrow> if tf_lastClose t > 0 then [d * (tf_lastClose t - a) > 0] else [] | None \<Rightarrow> [])"

definition alignment :: "timeframe_state \<Rightarrow> jsnum \<Rightarrow> jsnum" where
  "alignment t d =
     (let checks = alignment_checks t d
      in if checks = [] then 1/2 else num_of_nat (length (filter (\<lambda>b. b) checks)) / num_of_nat (length checks))"

definition trendScore :: "timeframe_state \<Rightarrow> timeframe_state \<Rightarrow> bool \<Rightarrow> jsnum" where
  "trendScore entry htf up =
     (let h = higherTimeframeDirection htf; d = up_or_down up;
          gate = (if h = NEUTRAL then 4/10 else if (h = BULLISH) = up then 1 else 0);
          a = clamp01 ((value_or 0 (tf_adx14 entry) - 15) / 25);
          slope = clamp01 ((d * value_or 0 (tf_emaSlopePct entry)) / (4/10));
          vwapSide = (case tf_vwap entry of
             Some v \<Rightarrow> if tf_lastClose entry > 0 then (if d * (tf_lastClose entry - v) > 0 then 1 else 0) else 1/2
           | None \<Rightarrow> 1/2)
      in if h \<noteq> NEUTRAL \<and> (h = BULLISH) \<noteq> up then 0
         else gate * (4/10 * a + 2/10 * slope + 25/100 * alignment entry d + 15/100 * vwapSide))"

record raw_regime =
  rw_regime :: market_regime
  rw_up :: jsnum
  rw_down :: jsnum

definition rawRegime :: "timeframe_state \<Rightarrow> timeframe_state \<Rightarrow> market_regime option \<Rightarrow> regime_options \<Rightarrow> raw_regime" where
  "rawRegime entry htf held ro =
     (let up = trendScore entry htf True; down = trendScore entry htf False;
          upOk = (up \<ge> (if held = Some TREND_UP then ro_trendExit ro else ro_trendEnter ro));
          downOk = (down \<ge> (if held = Some TREND_DOWN then ro_trendExit ro else ro_trendEnter ro));
          a = value_or 0 (tf_adx14 entry); pct = tf_atrPercentile entry;
          label = (if upOk \<or> downOk then (if upOk \<and> (\<not> downOk \<or> up \<ge> down) then TREND_UP else TREND_DOWN)
                   else if (case pct of None \<Rightarrow> False | Some p \<Rightarrow> p \<ge> (if held = Some HIGH_VOL then 80 else 85)) then HIGH_VOL
                   else if (case pct of None \<Rightarrow> False | Some p \<Rightarrow> p \<le> (if held = Some LOW_VOL then 20 else 15)) then LOW_VOL
                   else if a \<le> (if held = Some RANGE then 23 else 20) then RANGE
                   else TRANSITION)
      in \<lparr> rw_regime = label, rw_up = up, rw_down = down \<rparr>)"

record tracked =
  tk_held :: market_regime
  tk_barsInRegime :: nat
  tk_pending :: "market_regime option"
  tk_pendingBars :: nat
  tk_lastBar :: jsnum
  tk_last :: regime_snapshot

text \<open>The constructor's checks.\<close>

definition newTracker :: "regime_options \<Rightarrow> string + regime_options" where
  "newTracker ro =
     (if \<not> ro_trendExit ro < ro_trendEnter ro then Inl ''trendExit must be below trendEnter''
      else if \<not> ro_confirmBars ro \<ge> 1 then Inl ''confirmBars must be at least 1''
      else Inr ro)"

definition tracked_snapshot :: "tracked \<Rightarrow> raw_regime \<Rightarrow> timeframe_state \<Rightarrow> timeframe_state \<Rightarrow> regime_snapshot" where
  "tracked_snapshot t raw entry htf =
     (let trend = (if tk_held t = TREND_UP then rw_up raw else if tk_held t = TREND_DOWN then rw_down raw else 0)
      in (classifyRegime entry htf)\<lparr> rg_regime := tk_held t,
           rg_scored := Some \<lparr> sg_rawRegime = rw_regime raw, sg_pendingRegime = tk_pending t, sg_barsInRegime = tk_barsInRegime t,
             sg_confidence = (if tk_held t = TREND_UP \<or> tk_held t = TREND_DOWN then trend else 1 - math_max (rw_up raw) (rw_down raw)),
             sg_trendScore = (if rw_up raw \<ge> rw_down raw then rw_up raw else - rw_down raw) \<rparr> \<rparr>)"

text \<open>A bar's label against the held one.\<close>

definition advance :: "regime_options \<Rightarrow> market_regime \<Rightarrow> tracked \<Rightarrow> tracked" where
  "advance ro label t =
     (if label = tk_held t then t\<lparr> tk_barsInRegime := tk_barsInRegime t + 1, tk_pending := None, tk_pendingBars := 0 \<rparr>
      else
        (let n = (if tk_pending t = Some label then tk_pendingBars t + 1 else 1);
             t1 = t\<lparr> tk_pending := Some label, tk_pendingBars := n, tk_barsInRegime := tk_barsInRegime t + 1 \<rparr>
         in if num_of_nat n \<ge> ro_confirmBars ro
            then t1\<lparr> tk_held := label, tk_barsInRegime := 1, tk_pending := None, tk_pendingBars := 0 \<rparr> else t1))"

definition update_regime :: "regime_options \<Rightarrow> tracked option \<Rightarrow> jsnum \<Rightarrow> timeframe_state \<Rightarrow> timeframe_state \<Rightarrow> tracked" where
  "update_regime ro prior barTime entry htf =
     (case prior of
        None \<Rightarrow>
          (let raw = rawRegime entry htf None ro;
               t = \<lparr> tk_held = rw_regime raw, tk_barsInRegime = 1, tk_pending = None, tk_pendingBars = 0, tk_lastBar = barTime,
                     tk_last = classifyRegime entry htf \<rparr>
           in t\<lparr> tk_last := tracked_snapshot t raw entry htf \<rparr>)
      | Some p \<Rightarrow>
          if js_eq (tk_lastBar p) barTime then p
          else
            (let raw = rawRegime entry htf (Some (tk_held p)) ro; t = (advance ro (rw_regime raw) p)\<lparr> tk_lastBar := barTime \<rparr>
             in t\<lparr> tk_last := tracked_snapshot t raw entry htf \<rparr>))"

type_synonym regime_bar = "jsnum \<times> timeframe_state \<times> timeframe_state"

definition regime_step :: "regime_options \<Rightarrow> tracked option \<Rightarrow> regime_bar \<Rightarrow> tracked option" where
  "regime_step ro s b = (case b of (barTime, entry, htf) \<Rightarrow> Some (update_regime ro s barTime entry htf))"

lemma regime_step_Some [simp]: "regime_step ro s (b, e, h) = Some (update_regime ro s b e h)"
  by (simp add: regime_step_def)

section \<open>Dwell\<close>

lemma update_held:
  "tk_held (update_regime ro (Some p) b e h)
     = (if js_eq (tk_lastBar p) b then tk_held p else tk_held (advance ro (rw_regime (rawRegime e h (Some (tk_held p)) ro)) p))"
  by (simp add: update_regime_def Let_def)

lemma update_counts:
  "\<not> js_eq (tk_lastBar p) b \<Longrightarrow> tk_pending (update_regime ro (Some p) b e h) = tk_pending (advance ro (rw_regime (rawRegime e h (Some (tk_held p)) ro)) p)"
  "\<not> js_eq (tk_lastBar p) b \<Longrightarrow> tk_pendingBars (update_regime ro (Some p) b e h) = tk_pendingBars (advance ro (rw_regime (rawRegime e h (Some (tk_held p)) ro)) p)"
  "\<not> js_eq (tk_lastBar p) b \<Longrightarrow> tk_barsInRegime (update_regime ro (Some p) b e h) = tk_barsInRegime (advance ro (rw_regime (rawRegime e h (Some (tk_held p)) ro)) p)"
  "\<not> js_eq (tk_lastBar p) b \<Longrightarrow> tk_lastBar (update_regime ro (Some p) b e h) = b"
  by (simp_all add: update_regime_def Let_def)

text \<open>A challenger has waited for fewer bars than the held label has lasted, and only a label other than the held one waits.\<close>

definition dwell_ok :: "tracked \<Rightarrow> bool" where
  "dwell_ok t \<longleftrightarrow> tk_pendingBars t < tk_barsInRegime t \<and> (tk_pending t = None \<longleftrightarrow> tk_pendingBars t = 0) \<and> tk_pending t \<noteq> Some (tk_held t)"

lemma dwell_advance: "dwell_ok t \<Longrightarrow> dwell_ok (advance ro label t)"
  by (auto simp: dwell_ok_def advance_def Let_def)

lemma dwell_update:
  assumes "case s of None \<Rightarrow> True | Some t \<Rightarrow> dwell_ok t"
  shows "dwell_ok (update_regime ro s b e h)"
proof (cases s)
  case None
  then show ?thesis by (simp add: update_regime_def dwell_ok_def Let_def)
next
  case (Some t)
  then have "dwell_ok (advance ro l t)" for l using assms dwell_advance by simp
  then show ?thesis using Some assms by (simp add: update_regime_def dwell_ok_def Let_def)
qed

lemma dwell_run: "case run_steps (regime_step ro) None bs of None \<Rightarrow> True | Some t \<Rightarrow> dwell_ok t"
  by (rule run_steps_invariant) (auto simp: regime_step_def dwell_update split: prod.split)

lemma advance_change:
  assumes "tk_held (advance ro label t) \<noteq> tk_held t" and "dwell_ok t"
  shows "label = tk_held (advance ro label t) \<and> num_of_nat (Suc (tk_pendingBars t)) \<ge> ro_confirmBars ro
    \<and> (tk_pending t = Some label \<or> num_of_nat 1 \<ge> ro_confirmBars ro) \<and> num_of_nat (tk_barsInRegime t) \<ge> ro_confirmBars ro"
proof -
  have ne: "label \<noteq> tk_held t" using assms(1) by (auto simp: advance_def)
  let ?n = "if tk_pending t = Some label then tk_pendingBars t + 1 else 1"
  have n: "num_of_nat ?n \<ge> ro_confirmBars ro" and l: "tk_held (advance ro label t) = label"
    using assms(1) ne by (auto simp: advance_def Let_def split: if_splits)
  have "num_of_nat ?n \<le> num_of_nat (Suc (tk_pendingBars t))" "num_of_nat ?n \<le> num_of_nat (tk_barsInRegime t)"
    using assms(2) by (auto simp: num_of_nat_def dwell_ok_def)
  then show ?thesis using n l by (auto intro: js_le_trans split: if_splits)
qed

section \<open>A persistent challenger is adopted\<close>

text \<open>Each bar is new to the tracker.\<close>

fun fresh_bars :: "jsnum \<Rightarrow> regime_bar list \<Rightarrow> bool" where
  "fresh_bars t [] = True"
| "fresh_bars t ((b, e, h) # bs) = (\<not> js_eq t b \<and> fresh_bars b bs)"

definition sees :: "regime_options \<Rightarrow> market_regime \<Rightarrow> market_regime \<Rightarrow> regime_bar \<Rightarrow> bool" where
  "sees ro held label b = (case b of (t, e, h) \<Rightarrow> rw_regime (rawRegime e h (Some held) ro) = label)"

lemma challenger_adopted:
  assumes "list_all (sees ro (tk_held p) label) bs" and "fresh_bars (tk_lastBar p) bs" and "label \<noteq> tk_held p"
    and "ro_confirmBars ro \<le> num_of_nat ((if tk_pending p = Some label then tk_pendingBars p else 0) + length bs)" and "bs \<noteq> []"
  shows "\<exists>k t. run_steps (regime_step ro) (Some p) (take k bs) = Some t \<and> tk_held t = label"
  using assms
proof (induction bs arbitrary: p)
  case (Cons x bs)
  obtain b e h where x: "x = (b, e, h)" by (cases x) auto
  have raw: "rw_regime (rawRegime e h (Some (tk_held p)) ro) = label" and new: "\<not> js_eq (tk_lastBar p) b"
    using Cons.prems by (auto simp: x sees_def)
  let ?t = "update_regime ro (Some p) b e h"
  let ?w = "if tk_pending p = Some label then tk_pendingBars p else 0"
  show ?case
  proof (cases "num_of_nat (?w + 1) \<ge> ro_confirmBars ro")
    case True
    then have "tk_held ?t = label" using Cons.prems(3) raw new by (auto simp: update_held advance_def Let_def split: if_splits)
    then show ?thesis by (intro exI [of _ 1] exI [of _ ?t]) (simp add: x)
  next
    case False
    then have h: "tk_held ?t = tk_held p" "tk_pending ?t = Some label" "tk_pendingBars ?t = ?w + 1" "tk_lastBar ?t = b"
      using Cons.prems(3) raw new by (auto simp: update_held update_counts advance_def Let_def split: if_splits)
    have ne: "bs \<noteq> []" using False Cons.prems(4) by auto
    have "ro_confirmBars ro \<le> num_of_nat ((if tk_pending ?t = Some label then tk_pendingBars ?t else 0) + length bs)"
      using Cons.prems(4) h by simp
    then obtain k t where "run_steps (regime_step ro) (Some ?t) (take k bs) = Some t" "tk_held t = label"
      using Cons.IH [of ?t] Cons.prems h ne by (auto simp: x)
    then show ?thesis by (intro exI [of _ "Suc k"] exI [of _ t]) (simp add: x)
  qed
qed simp

section \<open>Scores are shares\<close>

definition share :: "jsnum \<Rightarrow> bool" where
  "share x \<longleftrightarrow> (\<exists>r. x = Fin r \<and> 0 \<le> r \<and> r \<le> 1)"

lemma share_Fin [simp]: "share (Fin r) \<longleftrightarrow> 0 \<le> r \<and> r \<le> 1"
  by (auto simp: share_def)

lemma clamp01_share: "x \<noteq> NaN \<Longrightarrow> share (clamp01 x)"
  by (cases x) (auto simp: clamp01_def share_def math_max_def math_min_def)

lemma alignment_share: "share (alignment t d)"
proof (cases "alignment_checks t d = []")
  case True
  then show ?thesis by (simp add: alignment_def)
next
  case False
  define k where "k = length (filter (\<lambda>b. b) (alignment_checks t d))"
  define n where "n = length (alignment_checks t d)"
  have "0 < n" "k \<le> n" using False by (simp_all add: n_def k_def)
  then show ?thesis using False
    by (simp add: alignment_def num_of_nat_def Let_def n_def [symmetric] k_def [symmetric] divide_le_eq)
qed

text \<open>The two readings a score can be spoilt by.\<close>

definition readable :: "timeframe_state \<Rightarrow> bool" where
  "readable t \<longleftrightarrow> (case tf_adx14 t of None \<Rightarrow> True | Some a \<Rightarrow> is_finite a) \<and> (case tf_emaSlopePct t of None \<Rightarrow> True | Some x \<Rightarrow> is_finite x)"

lemma weighted:
  assumes "share a" and "share b" and "share c" and "share d" and "g = 4/10 \<or> g = 1"
  shows "share (g * (4/10 * a + 2/10 * b + 25/100 * c + 15/100 * d))"
proof -
  obtain w x y z where "a = Fin w" "b = Fin x" "c = Fin y" "d = Fin z" "0 \<le> w" "w \<le> 1" "0 \<le> x" "x \<le> 1" "0 \<le> y" "y \<le> 1" "0 \<le> z" "z \<le> 1"
    using assms(1-4) by (auto simp: share_def)
  then show ?thesis using assms(5) by auto
qed

lemma trendScore_share:
  assumes "readable entry"
  shows "share (trendScore entry htf up)"
proof (cases "higherTimeframeDirection htf \<noteq> NEUTRAL \<and> (higherTimeframeDirection htf = BULLISH) \<noteq> up")
  case True
  then show ?thesis by (simp add: trendScore_def share_def Let_def)
next
  case False
  let ?h = "higherTimeframeDirection htf" and ?d = "up_or_down up"
  have "value_or 0 (tf_adx14 entry) \<noteq> NaN" "is_finite (value_or 0 (tf_adx14 entry))" "is_finite (value_or 0 (tf_emaSlopePct entry))"
    using assms by (auto simp: readable_def value_or_def split: option.splits)
  then obtain a x where ax: "value_or 0 (tf_adx14 entry) = Fin a" "value_or 0 (tf_emaSlopePct entry) = Fin x" by (auto simp: is_finite_iff)
  have 1: "share (clamp01 ((value_or 0 (tf_adx14 entry) - 15) / 25))" by (rule clamp01_share) (use ax in simp)
  have 2: "share (clamp01 ((?d * value_or 0 (tf_emaSlopePct entry)) / (4/10)))" by (rule clamp01_share) (use ax in \<open>simp add: up_or_down_def\<close>)
  have 3: "share (case tf_vwap entry of Some v \<Rightarrow> if tf_lastClose entry > 0 then (if ?d * (tf_lastClose entry - v) > 0 then 1 else 0) else 1/2 | None \<Rightarrow> 1/2)"
    by (simp split: option.split)
  have g: "(if ?h = NEUTRAL then 4/10 else if (?h = BULLISH) = up then 1 else 0) = 4/10
      \<or> (if ?h = NEUTRAL then 4/10 else if (?h = BULLISH) = up then 1 else 0) = (1 :: jsnum)" using False by auto
  show ?thesis using False weighted [OF 1 2 alignment_share 3 g] unfolding trendScore_def Let_def by (simp only: if_False)
qed

definition scored_ok :: "regime_snapshot \<Rightarrow> bool" where
  "scored_ok r \<longleftrightarrow> (case rg_scored r of None \<Rightarrow> False | Some g \<Rightarrow> share (sg_confidence g) \<and> share (abs (sg_trendScore g)))"

lemma snapshot_scored:
  assumes "readable e"
  shows "scored_ok (tracked_snapshot t (rawRegime e h held ro) e h)"
proof -
  have w: "rw_up (rawRegime e h held ro) = trendScore e h True" "rw_down (rawRegime e h held ro) = trendScore e h False"
    by (simp_all add: rawRegime_def Let_def)
  obtain u where u: "trendScore e h True = Fin u" "0 \<le> u" "u \<le> 1" using trendScore_share [OF assms, of h True] by (auto simp: share_def)
  obtain d where d: "trendScore e h False = Fin d" "0 \<le> d" "d \<le> 1" using trendScore_share [OF assms, of h False] by (auto simp: share_def)
  show ?thesis by (simp add: scored_ok_def tracked_snapshot_def w u d Let_def)
qed

lemma update_scored:
  assumes "case s of None \<Rightarrow> True | Some t \<Rightarrow> scored_ok (tk_last t)" and "readable e"
  shows "scored_ok (tk_last (update_regime ro s b e h))"
  using assms snapshot_scored by (auto simp: update_regime_def Let_def split: option.splits)

lemma run_scored:
  assumes "case s of None \<Rightarrow> True | Some t \<Rightarrow> scored_ok (tk_last t)" and "list_all (\<lambda>(b, e, h). readable e) bs"
  shows "case run_steps (regime_step ro) s bs of None \<Rightarrow> True | Some t \<Rightarrow> scored_ok (tk_last t)"
  using assms by (induction bs arbitrary: s) (auto simp: update_scored)

section \<open>A quiet market\<close>

text \<open>A state with an ADX reading only: a range up to 20, a transition above.\<close>

definition quiet :: "real \<Rightarrow> timeframe_state" where
  "quiet a = \<lparr> tf_candleCount = 60, tf_lastClose = 100, tf_ema20 = None, tf_ema50 = None, tf_ema200 = None, tf_emaSlopePct = None,
     tf_adx14 = Some (Fin a), tf_atr14 = None, tf_atrPercentile = None, tf_rsi14 = None, tf_vwap = None, tf_bollingerMiddle = None,
     tf_bollingerUpper = None, tf_bollingerLower = None, tf_volumeZ = None \<rparr>"

lemmas quiet_eval = quiet_def rawRegime_def trendScore_def higherTimeframeDirection_def inferTrend_def or_else_def value_or_def
  alignment_def alignment_checks_def up_or_down_def clamp01_def DEFAULT_REGIME_OPTIONS_def

lemma quiet_labels:
  "rw_regime (rawRegime (quiet 10) (quiet 10) held DEFAULT_REGIME_OPTIONS) = RANGE"
  "rw_regime (rawRegime (quiet 30) (quiet 10) held DEFAULT_REGIME_OPTIONS) = TRANSITION"
  by (simp_all add: quiet_eval Let_def)

section \<open>Properties\<close>

text \<open>A regime label is never dropped early: in every run of a tracker, when a bar changes the held label, the new label is that
  bar's own, it has been the challenger for \<open>confirmBars\<close> bars in a row, and the old label had lasted at least that long.\<close>

theorem held_regime_dwells:
  assumes "run_steps (regime_step ro) None bs = Some p" and "tk_held (update_regime ro (Some p) b e h) \<noteq> tk_held p"
  shows "rw_regime (rawRegime e h (Some (tk_held p)) ro) = tk_held (update_regime ro (Some p) b e h)
    \<and> num_of_nat (Suc (tk_pendingBars p)) \<ge> ro_confirmBars ro
    \<and> (tk_pending p = Some (tk_held (update_regime ro (Some p) b e h)) \<or> num_of_nat 1 \<ge> ro_confirmBars ro)
    \<and> num_of_nat (tk_barsInRegime p) \<ge> ro_confirmBars ro"
proof -
  have "dwell_ok p" using dwell_run [of ro bs] assms(1) by simp
  moreover have "\<not> js_eq (tk_lastBar p) b" using assms(2) by (auto simp: update_held)
  ultimately show ?thesis
    using assms(2) advance_change [of ro "rw_regime (rawRegime e h (Some (tk_held p)) ro)" p] unfolding update_held by (metis One_nat_def)
qed

theorem held_regime_dwells_witness:
  "\<exists>p. run_steps (regime_step DEFAULT_REGIME_OPTIONS) None [(1, quiet 10, quiet 10), (2, quiet 30, quiet 10)] = Some p
     \<and> tk_held p = RANGE \<and> tk_held (update_regime DEFAULT_REGIME_OPTIONS (Some p) 3 (quiet 30) (quiet 10)) = TRANSITION
     \<and> num_of_nat (tk_barsInRegime p) \<ge> 2"
proof -
  let ?o = DEFAULT_REGIME_OPTIONS
  obtain p where p: "run_steps (regime_step ?o) None [(1, quiet 10, quiet 10), (2, quiet 30, quiet 10)] = Some p" by simp
  have h: "tk_held p = RANGE" "tk_pending p = Some TRANSITION" "tk_pendingBars p = 1" "tk_lastBar p = 2"
    using p by (auto simp: update_regime_def advance_def quiet_labels num_of_nat_def js_eq_def Let_def) (simp_all add: DEFAULT_REGIME_OPTIONS_def)
  have "tk_held (update_regime ?o (Some p) 3 (quiet 30) (quiet 10)) = TRANSITION"
    using h by (simp add: update_held advance_def quiet_labels num_of_nat_def js_eq_def) (simp add: DEFAULT_REGIME_OPTIONS_def)
  moreover from this have "num_of_nat (tk_barsInRegime p) \<ge> ro_confirmBars ?o" using held_regime_dwells [OF p, of 3 "quiet 30" "quiet 10"] h(1) by simp
  ultimately show ?thesis using p h(1) by (auto simp: DEFAULT_REGIME_OPTIONS_def)
qed

text \<open>A persistent change of regime is always adopted: if every one of \<open>confirmBars\<close> new bars reads the same label, other than
  the held one, the tracker holds that label by the last of them.\<close>

theorem persistent_regime_is_adopted:
  assumes "list_all (sees ro (tk_held p) label) bs" and "fresh_bars (tk_lastBar p) bs" and "label \<noteq> tk_held p"
    and "ro_confirmBars ro \<le> num_of_nat (length bs)" and "bs \<noteq> []"
  shows "\<exists>k t. run_steps (regime_step ro) (Some p) (take k bs) = Some t \<and> tk_held t = label"
proof (rule challenger_adopted)
  have "num_of_nat (length bs) \<le> num_of_nat ((if tk_pending p = Some label then tk_pendingBars p else 0) + length bs)"
    by (simp add: num_of_nat_def)
  then show "ro_confirmBars ro \<le> num_of_nat ((if tk_pending p = Some label then tk_pendingBars p else 0) + length bs)"
    using assms(4) js_le_trans by blast
qed (use assms in simp_all)

theorem persistent_regime_is_adopted_witness:
  "\<exists>k t. run_steps (regime_step DEFAULT_REGIME_OPTIONS) (Some (update_regime DEFAULT_REGIME_OPTIONS None 1 (quiet 10) (quiet 10)))
     (take k [(2, quiet 30, quiet 10), (3, quiet 30, quiet 10)]) = Some t \<and> tk_held t = TRANSITION"
proof (rule persistent_regime_is_adopted)
  let ?p = "update_regime DEFAULT_REGIME_OPTIONS None 1 (quiet 10) (quiet 10)"
  have h: "tk_held ?p = RANGE" "tk_lastBar ?p = 1" by (simp_all add: update_regime_def quiet_labels Let_def)
  show "list_all (sees DEFAULT_REGIME_OPTIONS (tk_held ?p) TRANSITION) [(2, quiet 30, quiet 10), (3, quiet 30, quiet 10)]"
    using h by (simp add: sees_def quiet_labels)
  show "TRANSITION \<noteq> tk_held ?p" using h by simp
  show "fresh_bars (tk_lastBar ?p) [(2, quiet 30, quiet 10), (3, quiet 30, quiet 10)]" using h by (simp add: js_eq_def)
qed (simp_all add: DEFAULT_REGIME_OPTIONS_def num_of_nat_def)

text \<open>The scores of a tracked regime are shares: in every run over readable states (an ADX and a slope that are absent or finite),
  the published confidence is between 0 and 1 and the signed trend score between -1 and 1.\<close>

theorem regime_scores_are_shares:
  assumes "list_all (\<lambda>(b, e, h). readable e) bs" and "run_steps (regime_step ro) None bs = Some t"
  shows "scored_ok (tk_last t)"
  using run_scored [of None bs ro] assms by simp

theorem regime_scores_are_shares_witness:
  "scored_ok (tk_last (update_regime DEFAULT_REGIME_OPTIONS None 1 (quiet 10) (quiet 10)))"
  by (rule regime_scores_are_shares [of "[(1, quiet 10, quiet 10)]"]) (simp_all add: readable_def quiet_def)

text \<open>A tracker cannot be built without a gap between the two thresholds, and evaluating the same bar again changes nothing.\<close>

theorem regime_thresholds_are_checked:
  "newTracker ro = Inr ro' \<longleftrightarrow> ro' = ro \<and> ro_trendExit ro < ro_trendEnter ro \<and> 1 \<le> ro_confirmBars ro"
  by (auto simp: newTracker_def)

theorem same_bar_is_evaluated_once:
  assumes "b \<noteq> NaN"
  shows "update_regime ro (Some (update_regime ro s b e h)) b e' h' = update_regime ro s b e h"
  using assms by (auto simp: update_regime_def js_eq_def Let_def split: option.split)

end
