(* ===== verification/StructureLog.thy ===== *)
theory StructureLog
  imports MarketTypes
begin

text \<open>
  Swings, structure breaks and their protection zones (\<open>src/market/StructureEngine.ts\<close>,
  \<open>src/market/StructureEventLog.ts\<close>). Bars are addressed by their index; the lists the scan pushes to are kept in order,
  and the latest swing of a side is the last of its list.
\<close>

section \<open>Swings\<close>

text \<open>A comparison with a bar that is not there is false.\<close>

definition bar_test :: "candle list \<Rightarrow> int \<Rightarrow> (candle \<Rightarrow> bool) \<Rightarrow> bool" where
  "bar_test cs i P = (case nth_opt cs i of None \<Rightarrow> False | Some c \<Rightarrow> P c)"

definition isSwingHigh :: "candle list \<Rightarrow> nat \<Rightarrow> nat \<Rightarrow> bool" where
  "isSwingHigh cs index strength =
     bar_test cs (int index) (\<lambda>c. list_all (\<lambda>j. \<not> bar_test cs (int index - int j) (\<lambda>o'. c_high c \<le> c_high o')
       \<and> \<not> bar_test cs (int index + int j) (\<lambda>o'. c_high c \<le> c_high o')) [1..<Suc strength])"

definition isSwingLow :: "candle list \<Rightarrow> nat \<Rightarrow> nat \<Rightarrow> bool" where
  "isSwingLow cs index strength =
     bar_test cs (int index) (\<lambda>c. list_all (\<lambda>j. \<not> bar_test cs (int index - int j) (\<lambda>o'. c_low c \<ge> c_low o')
       \<and> \<not> bar_test cs (int index + int j) (\<lambda>o'. c_low c \<ge> c_low o')) [1..<Suc strength])"

definition swing_at :: "candle list \<Rightarrow> (candle \<Rightarrow> jsnum) \<Rightarrow> nat \<Rightarrow> swing_point" where
  "swing_at cs price i = \<lparr> sw_index = i, sw_time = c_openTime (cs ! i), sw_price = price (cs ! i) \<rparr>"

definition findSwingPoints :: "candle list \<Rightarrow> nat \<Rightarrow> swing_point list \<times> swing_point list" where
  "findSwingPoints cs strength =
     (map (swing_at cs c_high) (filter (\<lambda>i. isSwingHigh cs i strength) [strength..<length cs - strength]),
      map (swing_at cs c_low) (filter (\<lambda>i. isSwingLow cs i strength) [strength..<length cs - strength]))"

text \<open>The last two of a list, older first.\<close>

fun last_two :: "'a list \<Rightarrow> ('a \<times> 'a) option" where
  "last_two xs = (case rev xs of b # a # _ \<Rightarrow> Some (a, b) | _ \<Rightarrow> None)"

definition inferStructureTrend :: "swing_point list \<Rightarrow> swing_point list \<Rightarrow> trend_direction" where
  "inferStructureTrend highs lows =
     (case (last_two highs, last_two lows) of
        (Some (ph, lh), Some (pl, ll)) \<Rightarrow>
          if sw_price lh > sw_price ph \<and> sw_price ll > sw_price pl then BULLISH
          else if sw_price lh < sw_price ph \<and> sw_price ll < sw_price pl then BEARISH
          else NEUTRAL
      | _ \<Rightarrow> NEUTRAL)"

section \<open>Breaks\<close>

definition crosses_up :: "jsnum \<Rightarrow> jsnum \<Rightarrow> swing_point option \<Rightarrow> bool" where
  "crosses_up before now s = (case s of None \<Rightarrow> False | Some h \<Rightarrow> before \<le> sw_price h \<and> now > sw_price h)"

definition crosses_down :: "jsnum \<Rightarrow> jsnum \<Rightarrow> swing_point option \<Rightarrow> bool" where
  "crosses_down before now s = (case s of None \<Rightarrow> False | Some l \<Rightarrow> before \<ge> sw_price l \<and> now < sw_price l)"

definition opposite_trend :: "trend_direction \<Rightarrow> trend_direction" where
  "opposite_trend d = (if d = BULLISH then BEARISH else BULLISH)"

definition break_of :: "trend_direction \<Rightarrow> trend_direction \<Rightarrow> swing_point \<Rightarrow> nat \<Rightarrow> candle \<Rightarrow> jsnum \<Rightarrow> structure_break" where
  "break_of trend d broken i c atrValue =
     \<lparr> sb_type = (if trend = opposite_trend d then CHOCH else BOS), sb_direction = d, sb_level = sw_price broken, sb_index = i,
       sb_time = c_openTime c, sb_distanceAtr = abs (c_close c - sw_price broken) / atrValue, sb_protectedLevel = None,
       sb_protectionZone = None \<rparr>"

definition break_now ::
  "trend_direction \<Rightarrow> swing_point option \<Rightarrow> swing_point option \<Rightarrow> candle \<Rightarrow> candle \<Rightarrow> nat \<Rightarrow> jsnum \<Rightarrow> structure_break option" where
  "break_now trend latestHigh latestLow previous current n atrValue =
     (if crosses_up (c_close previous) (c_close current) latestHigh
      then map_option (\<lambda>h. break_of trend BULLISH h n current atrValue) latestHigh
      else if crosses_down (c_close previous) (c_close current) latestLow
      then map_option (\<lambda>l. break_of trend BEARISH l n current atrValue) latestLow
      else None)"

definition findLatestBreak ::
  "candle list \<Rightarrow> trend_direction \<Rightarrow> swing_point list \<Rightarrow> swing_point list \<Rightarrow> jsnum \<Rightarrow> structure_break option" where
  "findLatestBreak cs trend highs lows atrValue =
     (if length cs < 2 \<or> atrValue \<le> 0 then None
      else
        (let n = length cs - 1
         in break_now trend (last_opt (filter (\<lambda>p. sw_index p < n) highs)) (last_opt (filter (\<lambda>p. sw_index p < n) lows))
              (cs ! (n - 1)) (cs ! n) n atrValue))"

section \<open>The event log\<close>

record break_scan =
  bs_highs :: "swing_point list"
  bs_lows :: "swing_point list"
  bs_events :: "structure_break list"

definition scan_new :: break_scan where
  "scan_new = \<lparr> bs_highs = [], bs_lows = [], bs_events = [] \<rparr>"

definition confirm_swings :: "candle list \<Rightarrow> nat \<Rightarrow> break_scan \<Rightarrow> nat \<Rightarrow> break_scan" where
  "confirm_swings cs strength s i =
     (if i \<ge> strength + strength then
        s\<lparr> bs_highs := (if isSwingHigh cs (i - strength) strength then bs_highs s @ [swing_at cs c_high (i - strength)] else bs_highs s),
           bs_lows := (if isSwingLow cs (i - strength) strength then bs_lows s @ [swing_at cs c_low (i - strength)] else bs_lows s) \<rparr>
      else s)"

definition zone_between :: "swing_point \<Rightarrow> swing_point \<Rightarrow> protection_zone" where
  "zone_between broken protected =
     \<lparr> pz_low = math_min (sw_price broken) (sw_price protected), pz_high = math_max (sw_price broken) (sw_price protected),
       pz_originLevel = sw_price broken, pz_protectedLevel = sw_price protected, pz_testedAt = None, pz_violatedAt = None,
       pz_violatedIndex = None \<rparr>"

definition log_break :: "trend_direction \<Rightarrow> trend_direction \<Rightarrow> swing_point \<Rightarrow> swing_point option \<Rightarrow> nat \<Rightarrow> candle \<Rightarrow> jsnum \<Rightarrow> structure_break" where
  "log_break trend d broken protected i c atrValue =
     (break_of trend d broken i c atrValue)\<lparr> sb_protectedLevel := map_option sw_price protected,
        sb_protectionZone := map_option (zone_between broken) protected \<rparr>"

definition scan_break :: "candle list \<Rightarrow> jsnum \<Rightarrow> break_scan \<Rightarrow> nat \<Rightarrow> break_scan" where
  "scan_break cs atrValue s i =
     (let candle = cs ! i; previousClose = c_close (cs ! (i - 1)); lastHigh = last_opt (bs_highs s); lastLow = last_opt (bs_lows s);
          trend = inferStructureTrend (bs_highs s) (bs_lows s)
      in if crosses_up previousClose (c_close candle) lastHigh
         then (case lastHigh of None \<Rightarrow> s | Some h \<Rightarrow>
                 s\<lparr> bs_events := bs_events s @ [log_break trend BULLISH h lastLow i candle atrValue] \<rparr>)
         else if crosses_down previousClose (c_close candle) lastLow
         then (case lastLow of None \<Rightarrow> s | Some l \<Rightarrow>
                 s\<lparr> bs_events := bs_events s @ [log_break trend BEARISH l lastHigh i candle atrValue] \<rparr>)
         else s)"

definition scan_step :: "candle list \<Rightarrow> jsnum \<Rightarrow> nat \<Rightarrow> break_scan \<Rightarrow> nat \<Rightarrow> break_scan" where
  "scan_step cs atrValue strength s i = scan_break cs atrValue (confirm_swings cs strength s i) i"

definition scan_breaks :: "candle list \<Rightarrow> jsnum \<Rightarrow> nat \<Rightarrow> break_scan" where
  "scan_breaks cs atrValue strength = foldl (scan_step cs atrValue strength) scan_new [1..<length cs]"

text \<open>The pass after the scan: a zone is followed over the bars after its break until it is violated.\<close>

fun track_zone :: "trend_direction \<Rightarrow> (nat \<times> candle) list \<Rightarrow> protection_zone \<Rightarrow> protection_zone" where
  "track_zone d [] z = z"
| "track_zone d ((i, c) # rest) z =
     (let touched = (if d = BULLISH then c_low c \<le> pz_high z else c_high c \<ge> pz_low z);
          z1 = (if pz_testedAt z = None \<and> touched then z\<lparr> pz_testedAt := Some (c_openTime c) \<rparr> else z);
          violated = (if d = BULLISH then c_close c < pz_protectedLevel z else c_close c > pz_protectedLevel z)
      in if violated then z1\<lparr> pz_violatedAt := Some (c_openTime c), pz_violatedIndex := Some i \<rparr> else track_zone d rest z1)"

definition bars_after :: "candle list \<Rightarrow> nat \<Rightarrow> (nat \<times> candle) list" where
  "bars_after cs i = drop (Suc i) (zip [0..<length cs] cs)"

definition track_break :: "candle list \<Rightarrow> structure_break \<Rightarrow> structure_break" where
  "track_break cs e =
     e\<lparr> sb_protectionZone := map_option (track_zone (sb_direction e) (bars_after cs (sb_index e))) (sb_protectionZone e) \<rparr>"

text \<open>The log before the cap on its length.\<close>

definition break_log :: "candle list \<Rightarrow> jsnum \<Rightarrow> nat \<Rightarrow> structure_break list" where
  "break_log cs atrValue strength =
     (if length cs < 2 \<or> \<not> atrValue > 0 then [] else map (track_break cs) (bs_events (scan_breaks cs atrValue strength)))"

definition MAX_BREAK_EVENTS :: nat where "MAX_BREAK_EVENTS = 50"

definition findStructureBreakEvents :: "candle list \<Rightarrow> jsnum \<Rightarrow> nat \<Rightarrow> structure_break list" where
  "findStructureBreakEvents cs atrValue strength = last_n MAX_BREAK_EVENTS (break_log cs atrValue strength)"

text \<open>\<open>slice(-2, -1)[0] ?? at(-1)\<close>.\<close>

definition second_last :: "'a list \<Rightarrow> 'a option" where
  "second_last xs = (case rev xs of b # a # _ \<Rightarrow> Some a | [a] \<Rightarrow> Some a | [] \<Rightarrow> None)"

definition analyzeStructure :: "candle list \<Rightarrow> jsnum \<Rightarrow> nat \<Rightarrow> structure_state" where
  "analyzeStructure cs atrValue strength =
     (let (highs, lows) = findSwingPoints cs strength; trend = inferStructureTrend highs lows
      in \<lparr> su_trend = trend, su_swingHighs = last_n 20 highs, su_swingLows = last_n 20 lows,
           su_lastBreak = findLatestBreak cs trend highs lows atrValue,
           su_protectedHigh = (if trend = BEARISH then last_opt highs else second_last highs),
           su_protectedLow = (if trend = BULLISH then last_opt lows else second_last lows),
           su_breaks = Some (findStructureBreakEvents cs atrValue strength) \<rparr>)"

section \<open>The scan looks only back\<close>

lemma bar_test_append: "0 \<le> i \<Longrightarrow> i < int (length cs) \<Longrightarrow> bar_test (cs @ ds) i P = bar_test cs i P"
  by (simp add: bar_test_def nth_opt_append)

lemma isSwing_append:
  assumes "i + k < length cs" and "k \<le> i"
  shows "isSwingHigh (cs @ ds) i k = isSwingHigh cs i k" and "isSwingLow (cs @ ds) i k = isSwingLow cs i k"
proof -
  have "bar_test (cs @ ds) (int i - int j) P = bar_test cs (int i - int j) P"
    "bar_test (cs @ ds) (int i + int j) P = bar_test cs (int i + int j) P" if "j \<in> set [1..<Suc k]" for j P
    using assms that by (auto intro!: bar_test_append)
  moreover have "bar_test (cs @ ds) (int i) P = bar_test cs (int i) P" for P using assms by (intro bar_test_append) auto
  ultimately show "isSwingHigh (cs @ ds) i k = isSwingHigh cs i k" "isSwingLow (cs @ ds) i k = isSwingLow cs i k"
    by (simp_all add: isSwingHigh_def isSwingLow_def list_all_iff del: upt_Suc)
qed

lemma swing_at_append: "i < length cs \<Longrightarrow> swing_at (cs @ ds) p i = swing_at cs p i"
  by (simp add: swing_at_def nth_append)

lemma confirm_swings_append: "i < length cs \<Longrightarrow> confirm_swings (cs @ ds) k s i = confirm_swings cs k s i"
  by (simp add: confirm_swings_def isSwing_append swing_at_append)

lemma scan_step_append: "1 \<le> i \<Longrightarrow> i < length cs \<Longrightarrow> scan_step (cs @ ds) a k s i = scan_step cs a k s i"
  by (simp add: scan_step_def confirm_swings_append scan_break_def nth_append)

lemma scan_breaks_prefix:
  assumes "n \<le> length cs"
  shows "foldl (scan_step (cs @ ds) a k) s [1..<n] = foldl (scan_step cs a k) s [1..<n]"
  using assms by (intro foldl_cong) (auto simp: scan_step_append)

lemma scan_breaks_append:
  assumes "cs \<noteq> []"
  shows "scan_breaks (cs @ ds) a k = foldl (scan_step (cs @ ds) a k) (scan_breaks cs a k) [length cs..<length (cs @ ds)]"
proof -
  have "[1..<length (cs @ ds)] = [1..<length cs] @ [length cs..<length (cs @ ds)]"
    using assms by (metis length_append le_add1 length_greater_0_conv One_nat_def Suc_leI upt_add_eq_append)
  then show ?thesis using scan_breaks_prefix [of "length cs" cs ds a k scan_new] by (simp add: scan_breaks_def)
qed

lemma scan_step_events: "\<exists>more. bs_events (scan_step cs a k s i) = bs_events s @ more"
  by (auto simp: scan_step_def scan_break_def confirm_swings_def Let_def split: option.splits)

lemma scan_fold_events: "\<exists>more. bs_events (foldl (scan_step cs a k) s is') = bs_events s @ more"
proof (induction is' arbitrary: s)
  case (Cons i is')
  show ?case using Cons.IH [of "scan_step cs a k s i"] scan_step_events [of cs a k s i] by auto
qed simp

section \<open>The log is the history of latest breaks\<close>

text \<open>What the scan keeps: the swings confirmed so far, and the core of each event.\<close>

definition core :: "structure_break \<Rightarrow> structure_break" where
  "core e = e\<lparr> sb_protectedLevel := None, sb_protectionZone := None \<rparr>"

definition lastBreak_of :: "candle list \<Rightarrow> jsnum \<Rightarrow> nat \<Rightarrow> structure_break option" where
  "lastBreak_of cs atrValue strength =
     (let (highs, lows) = findSwingPoints cs strength
      in findLatestBreak cs (inferStructureTrend highs lows) highs lows atrValue)"

lemma findSwingPoints_snoc:
  assumes "0 < k"
  shows "findSwingPoints (cs @ [c]) k =
    (fst (findSwingPoints cs k) @ (if k + k \<le> length cs \<and> isSwingHigh (cs @ [c]) (length cs - k) k then [swing_at (cs @ [c]) c_high (length cs - k)] else []),
     snd (findSwingPoints cs k) @ (if k + k \<le> length cs \<and> isSwingLow (cs @ [c]) (length cs - k) k then [swing_at (cs @ [c]) c_low (length cs - k)] else []))"
proof -
  have same: "isSwingHigh (cs @ [c]) j k = isSwingHigh cs j k" "isSwingLow (cs @ [c]) j k = isSwingLow cs j k"
    "swing_at (cs @ [c]) p j = swing_at cs p j" if "j \<in> set [k..<length cs - k]" for j p
    using that isSwing_append [of j k cs "[c]"] swing_at_append [of j cs "[c]"] by auto
  have f: "filter (\<lambda>i. isSwingHigh (cs @ [c]) i k) [k..<length cs - k] = filter (\<lambda>i. isSwingHigh cs i k) [k..<length cs - k]"
    "filter (\<lambda>i. isSwingLow (cs @ [c]) i k) [k..<length cs - k] = filter (\<lambda>i. isSwingLow cs i k) [k..<length cs - k]"
    using same by (auto intro!: filter_cong)
  have m: "map (swing_at (cs @ [c]) p) (filter P [k..<length cs - k]) = map (swing_at cs p) (filter P [k..<length cs - k])" for p P
    using same(3) by auto
  show ?thesis
  proof (cases "k + k \<le> length cs")
    case True
    then have "[k..<length (cs @ [c]) - k] = [k..<length cs - k] @ [length cs - k]" by (simp add: Suc_diff_le)
    then show ?thesis using True by (simp add: findSwingPoints_def f m)
  next
    case False
    then have "[k..<length (cs @ [c]) - k] = []" "[k..<length cs - k] = []" by auto
    then show ?thesis using False by (simp add: findSwingPoints_def)
  qed
qed

lemma confirm_lists [simp]:
  "bs_highs (confirm_swings cs k s i) = bs_highs s @ (if k + k \<le> i \<and> isSwingHigh cs (i - k) k then [swing_at cs c_high (i - k)] else [])"
  "bs_lows (confirm_swings cs k s i) = bs_lows s @ (if k + k \<le> i \<and> isSwingLow cs (i - k) k then [swing_at cs c_low (i - k)] else [])"
  "bs_events (confirm_swings cs k s i) = bs_events s"
  by (simp_all add: confirm_swings_def)

text \<open>After bar \<open>n - 1\<close> the scan's swings are those of the first \<open>n\<close> bars.\<close>

lemma scan_swings:
  assumes "0 < k" and "cs \<noteq> []"
  shows "(bs_highs (scan_breaks cs a k), bs_lows (scan_breaks cs a k)) = findSwingPoints cs k"
  using assms(2)
proof (induction cs rule: rev_induct)
  case (snoc c cs)
  show ?case
  proof (cases "cs = []")
    case True
    then show ?thesis using assms(1) by (simp add: scan_breaks_def scan_new_def findSwingPoints_def)
  next
    case False
    let ?s = "scan_breaks cs a k"
    have "scan_breaks (cs @ [c]) a k = scan_step (cs @ [c]) a k ?s (length cs)" using False by (simp add: scan_breaks_append)
    moreover have "bs_highs (scan_break cs' a s i) = bs_highs s \<and> bs_lows (scan_break cs' a s i) = bs_lows s" for cs' s i
      by (simp add: scan_break_def Let_def split: option.split)
    ultimately have "(bs_highs (scan_breaks (cs @ [c]) a k), bs_lows (scan_breaks (cs @ [c]) a k))
      = (bs_highs (confirm_swings (cs @ [c]) k ?s (length cs)), bs_lows (confirm_swings (cs @ [c]) k ?s (length cs)))"
      by (simp add: scan_step_def)
    with snoc.IH False show ?thesis by (simp add: findSwingPoints_snoc [OF assms(1)] prod_eq_iff)
  qed
qed simp

lemma core_log: "core (log_break t d b p i c a) = break_of t d b i c a"
  by (simp add: core_def log_break_def break_of_def)

lemma last_filter_all: "(\<And>x. x \<in> set xs \<Longrightarrow> P x) \<Longrightarrow> last_opt (filter P xs) = last_opt xs"
  by (simp add: filter_True)

lemma swings_before:
  assumes "0 < k"
  shows "s \<in> set (fst (findSwingPoints cs k)) \<Longrightarrow> sw_index s < length cs - 1"
    and "s \<in> set (snd (findSwingPoints cs k)) \<Longrightarrow> sw_index s < length cs - 1"
  using assms by (auto simp: findSwingPoints_def swing_at_def)

lemma scan_break_core:
  "map core (bs_events (scan_break cs a s i)) = map core (bs_events s)
     @ (case break_now (inferStructureTrend (bs_highs s) (bs_lows s)) (last_opt (bs_highs s)) (last_opt (bs_lows s)) (cs ! (i - 1)) (cs ! i) i a of
          None \<Rightarrow> [] | Some e \<Rightarrow> [e])"
  by (cases "last_opt (bs_highs s)"; cases "last_opt (bs_lows s)")
    (simp_all add: scan_break_def break_now_def crosses_up_def crosses_down_def core_log Let_def)

text \<open>One bar more adds exactly what \<open>findLatestBreak\<close> reports on the bars so far.\<close>

lemma scan_snoc:
  assumes "0 < k" and "cs \<noteq> []" and "0 < a"
  shows "map core (bs_events (scan_breaks (cs @ [c]) a k)) = map core (bs_events (scan_breaks cs a k))
    @ (case lastBreak_of (cs @ [c]) a k of None \<Rightarrow> [] | Some e \<Rightarrow> [e])"
proof -
  let ?s = "confirm_swings (cs @ [c]) k (scan_breaks cs a k) (length cs)"
  obtain hs ls where f: "findSwingPoints (cs @ [c]) k = (hs, ls)" by fastforce
  have "scan_breaks (cs @ [c]) a k = scan_break (cs @ [c]) a ?s (length cs)"
    using assms(2) by (simp add: scan_breaks_append scan_step_def)
  moreover have "bs_highs ?s = hs" "bs_lows ?s = ls"
    using scan_swings [OF assms(1,2), of a] f
    by (simp_all add: findSwingPoints_snoc [OF assms(1)] prod_eq_iff)
  moreover have "bs_events ?s = bs_events (scan_breaks cs a k)" by simp
  moreover have "last_opt (filter (\<lambda>p. sw_index p < length cs) hs) = last_opt hs" "last_opt (filter (\<lambda>p. sw_index p < length cs) ls) = last_opt ls"
    using swings_before [OF assms(1), of _ "cs @ [c]"] f by (auto intro!: last_filter_all)
  moreover have "\<not> a \<le> 0" using assms(3) by (cases a) auto
  moreover have "\<not> length (cs @ [c]) < 2" using assms(2) by (cases cs) auto
  ultimately show ?thesis using f
    by (simp add: lastBreak_of_def findLatestBreak_def scan_break_core Let_def del: js_consts)
qed

lemma core_track [simp]: "core (track_break cs e) = core e"
  by (simp add: core_def track_break_def)

lemma map_filter_cong: "(\<And>x. x \<in> set xs \<Longrightarrow> f x = g x) \<Longrightarrow> List.map_filter f xs = List.map_filter g xs"
  by (induction xs) (simp_all add: List.map_filter_def)

lemma last_n_subset: "set (last_n n xs) \<subseteq> set xs"
  by (auto simp: last_n_def dest: in_set_dropD)

lemma map_filter_mem': "y \<in> set (List.map_filter f xs) \<longleftrightarrow> (\<exists>x\<in>set xs. f x = Some y)"
  by (force simp: List.map_filter_def)

lemma list_all_last_n: "list_all P xs \<Longrightarrow> list_all P (last_n n xs)"
  by (auto simp: list_all_iff last_n_def dest: in_set_dropD)

lemma map_filter_snoc: "List.map_filter f (xs @ [x]) = List.map_filter f xs @ (case f x of None \<Rightarrow> [] | Some y \<Rightarrow> [y])"
  by (simp add: List.map_filter_def split: option.split)

lemma log_is_history:
  assumes "0 < k" and "0 < a" and "cs \<noteq> []"
  shows "map core (bs_events (scan_breaks cs a k)) = List.map_filter (\<lambda>n. lastBreak_of (take n cs) a k) [2..<Suc (length cs)]"
  using assms(3)
proof (induction cs rule: rev_induct)
  case (snoc c cs)
  show ?case
  proof (cases "cs = []")
    case True
    then show ?thesis by (simp add: scan_breaks_def scan_new_def List.map_filter_def)
  next
    case False
    have "List.map_filter (\<lambda>n. lastBreak_of (take n (cs @ [c])) a k) [2..<Suc (length cs)] = List.map_filter (\<lambda>n. lastBreak_of (take n cs) a k) [2..<Suc (length cs)]"
      by (rule map_filter_cong) auto
    moreover have "[2..<Suc (length (cs @ [c]))] = [2..<Suc (length cs)] @ [Suc (length cs)]" using False by (cases cs) auto
    ultimately show ?thesis using scan_snoc [OF assms(1) False assms(2), of c] snoc.IH [OF False]
      by (simp add: map_filter_snoc del: upt_Suc)
  qed
qed simp

section \<open>The log only grows\<close>

definition zone_grows :: "protection_zone \<Rightarrow> protection_zone \<Rightarrow> bool" where
  "zone_grows z z' \<longleftrightarrow> pz_low z' = pz_low z \<and> pz_high z' = pz_high z \<and> pz_originLevel z' = pz_originLevel z
     \<and> pz_protectedLevel z' = pz_protectedLevel z \<and> (pz_testedAt z \<noteq> None \<longrightarrow> pz_testedAt z' = pz_testedAt z)
     \<and> (pz_violatedAt z \<noteq> None \<longrightarrow> z' = z)"

definition break_grows :: "structure_break \<Rightarrow> structure_break \<Rightarrow> bool" where
  "break_grows e e' \<longleftrightarrow> core e' = core e \<and> sb_protectedLevel e' = sb_protectedLevel e
     \<and> rel_option zone_grows (sb_protectionZone e) (sb_protectionZone e')"

lemma zone_grows_refl [simp]: "zone_grows z z"
  by (simp add: zone_grows_def)

lemma track_grows: "pz_violatedAt z = None \<Longrightarrow> zone_grows z (track_zone d ys z)"
  by (induction d ys z rule: track_zone.induct) (auto simp: zone_grows_def Let_def split: if_splits)

lemma track_zone_append: "pz_violatedAt z = None \<Longrightarrow> zone_grows (track_zone d xs z) (track_zone d (xs @ ys) z)"
  by (induction d xs z rule: track_zone.induct) (auto simp: track_grows Let_def)

lemma bars_after_append:
  assumes "i < length cs"
  shows "\<exists>more. bars_after (cs @ ds) i = bars_after cs i @ more"
proof -
  have u: "[0..<length (cs @ ds)] = [0..<length cs] @ [length cs..<length (cs @ ds)]"
    using upt_add_eq_append [of 0 "length cs" "length ds"] by simp
  have "bars_after (cs @ ds) i = bars_after cs i @ zip [length cs..<length (cs @ ds)] ds"
    unfolding bars_after_def u using assms by simp
  then show ?thesis by blast
qed

lemma track_break_append:
  assumes "sb_index e < length cs" and "\<forall>z. sb_protectionZone e = Some z \<longrightarrow> pz_violatedAt z = None"
  shows "break_grows (track_break cs e) (track_break (cs @ ds) e)"
proof -
  obtain more where "bars_after (cs @ ds) (sb_index e) = bars_after cs (sb_index e) @ more" using bars_after_append [OF assms(1)] by blast
  then show ?thesis using assms(2) track_zone_append
    by (cases "sb_protectionZone e") (auto simp: break_grows_def track_break_def core_def)
qed

text \<open>An event of the scan names a bar it has seen and has a zone that is still open.\<close>

definition event_open :: "nat \<Rightarrow> structure_break \<Rightarrow> bool" where
  "event_open n e \<longleftrightarrow> sb_index e < n \<and> (\<forall>z. sb_protectionZone e = Some z \<longrightarrow> pz_violatedAt z = None)"

lemma event_open_log [simp]: "event_open n (log_break t d b p i c a) \<longleftrightarrow> i < n"
  by (auto simp: event_open_def log_break_def break_of_def zone_between_def)

lemma scan_events_open:
  "list_all (event_open n) (bs_events s) \<Longrightarrow> set is' \<subseteq> {..<n} \<Longrightarrow> list_all (event_open n) (bs_events (foldl (scan_step cs a k) s is'))"
proof (induction is' arbitrary: s)
  case (Cons i is')
  have "list_all (event_open n) (bs_events (scan_step cs a k s i))"
    using Cons.prems by (simp add: scan_step_def scan_break_def Let_def split: option.split)
  with Cons show ?case by simp
qed simp

lemma log_grows:
  "list_all2 break_grows (break_log cs a k) (take (length (break_log cs a k)) (break_log (cs @ ds) a k))"
proof (cases "length cs < 2 \<or> \<not> a > 0")
  case True
  then show ?thesis by (auto simp: break_log_def)
next
  case False
  then have ne: "cs \<noteq> []" by auto
  obtain more where more: "bs_events (scan_breaks (cs @ ds) a k) = bs_events (scan_breaks cs a k) @ more"
    using scan_fold_events [of "cs @ ds" a k "scan_breaks cs a k"] scan_breaks_append [OF ne, of ds a k] by metis
  have "list_all (event_open (length cs)) (bs_events (scan_breaks cs a k))"
    unfolding scan_breaks_def by (rule scan_events_open) (auto simp: scan_new_def)
  then have "list_all2 break_grows (map (track_break cs) (bs_events (scan_breaks cs a k))) (map (track_break (cs @ ds)) (bs_events (scan_breaks cs a k)))"
    by (simp add: list_all2_map1 list_all2_map2 list_all2_same list_all_iff event_open_def track_break_append)
  then show ?thesis using False more by (simp add: break_log_def)
qed

text \<open>Distances are in units of the ATR the whole log is built with.\<close>

definition rescale :: "real \<Rightarrow> real \<Rightarrow> structure_break \<Rightarrow> structure_break" where
  "rescale a a' e = e\<lparr> sb_distanceAtr := sb_distanceAtr e * Fin a / Fin a' \<rparr>"

definition rescaled :: "real \<Rightarrow> real \<Rightarrow> break_scan \<Rightarrow> break_scan \<Rightarrow> bool" where
  "rescaled a a' s s' \<longleftrightarrow> bs_highs s' = bs_highs s \<and> bs_lows s' = bs_lows s \<and> bs_events s' = map (rescale a a') (bs_events s)"

lemma rescale_log: "0 < a \<Longrightarrow> 0 < a' \<Longrightarrow> log_break t d b p i c (Fin a') = rescale a a' (log_break t d b p i c (Fin a))"
  by (cases "abs (c_close c - sw_price b)") (auto simp: rescale_def log_break_def break_of_def inf_sign_def)

lemma rescaled_step:
  assumes "rescaled a a' s s'" and "0 < a" and "0 < a'"
  shows "rescaled a a' (scan_step cs (Fin a) k s i) (scan_step cs (Fin a') k s' i)"
  using assms
  by (auto simp: rescaled_def scan_step_def scan_break_def Let_def confirm_swings_def rescale_log [of a a'] split: option.splits)

lemma rescaled_run: "rescaled a a' s s' \<Longrightarrow> 0 < a \<Longrightarrow> 0 < a' \<Longrightarrow>
    rescaled a a' (foldl (scan_step cs (Fin a) k) s is') (foldl (scan_step cs (Fin a') k) s' is')"
  by (induction is' arbitrary: s s') (simp_all add: rescaled_step)

section \<open>Sample bars\<close>

text \<open>A swing high at the second bar that the fourth bar closes above.\<close>

definition sample_bar :: "real \<Rightarrow> real \<Rightarrow> real \<Rightarrow> real \<Rightarrow> real \<Rightarrow> candle" where
  "sample_bar t o' h l c = \<lparr> c_openTime = Fin t, c_open = Fin o', c_high = Fin h, c_low = Fin l, c_close = Fin c, c_volume = 1 \<rparr>"

definition sample_bars :: "candle list" where
  "sample_bars = [sample_bar 0 4 5 3 4, sample_bar 1 4 7 4 6, sample_bar 2 6 6 4 5, sample_bar 3 (13/2) 9 (13/2) 8]"

section \<open>Properties\<close>

text \<open>
  C40. The break log is exactly the history of latest breaks: with a positive ATR and swing strength, its events are,
  bar by bar, the breaks \<open>findLatestBreak\<close> reports on the bars up to there, with the same kind, direction, level, bar,
  time and distance.
\<close>

theorem break_log_is_history_of_latest_breaks:
  assumes "0 < k" and "0 < a"
  shows "map core (break_log cs a k) = List.map_filter (\<lambda>n. lastBreak_of (take n cs) a k) [2..<Suc (length cs)]"
proof (cases "length cs < 2")
  case True
  then show ?thesis by (simp add: break_log_def List.map_filter_def)
next
  case False
  then have "cs \<noteq> []" by auto
  then show ?thesis using False assms log_is_history [OF assms] by (simp add: break_log_def comp_def)
qed

theorem break_log_is_history_of_latest_breaks_witness:
  "map core (break_log sample_bars 1 1) = List.map_filter (\<lambda>n. lastBreak_of (take n sample_bars) 1 1) [2..<Suc (length sample_bars)]
   \<and> map sb_index (break_log sample_bars 1 1) = [3]"
proof
  show "map core (break_log sample_bars 1 1) = List.map_filter (\<lambda>n. lastBreak_of (take n sample_bars) 1 1) [2..<Suc (length sample_bars)]"
    by (rule break_log_is_history_of_latest_breaks) simp_all
  show "map sb_index (break_log sample_bars 1 1) = [3]"
    by (simp add: break_log_def scan_breaks_def scan_new_def scan_step_def confirm_swings_def scan_break_def isSwingHigh_def isSwingLow_def
      bar_test_def nth_opt_def sample_bars_def sample_bar_def swing_at_def inferStructureTrend_def crosses_up_def crosses_down_def
      log_break_def break_of_def track_break_def last_opt_def upt_rec numeral_nat Let_def)
qed

text \<open>
  The log only grows: whatever bars follow, with the same ATR every event keeps its place and its core, a recorded
  test keeps its time, and a violated zone never changes again.
\<close>

theorem break_log_only_grows:
  "list_all2 break_grows (break_log cs a k) (take (length (break_log cs a k)) (break_log (cs @ ds) a k))"
  by (rule log_grows)

text \<open>
  The distances of past events move with the ATR of the window: the log built with another ATR is the same log with
  every distance rescaled.
\<close>

theorem break_distances_follow_the_atr:
  assumes "0 < a" and "0 < a'"
  shows "map sb_distanceAtr (break_log cs (Fin a') k) = map (\<lambda>e. sb_distanceAtr e * Fin a / Fin a') (break_log cs (Fin a) k)"
proof -
  have "rescaled a a' (scan_breaks cs (Fin a) k) (scan_breaks cs (Fin a') k)"
    unfolding scan_breaks_def by (rule rescaled_run [OF _ assms]) (simp add: rescaled_def scan_new_def)
  then show ?thesis using assms by (simp add: break_log_def rescaled_def track_break_def rescale_def comp_def)
qed

end
