(* ===== verification/ZoneLedger.thy ===== *)
theory ZoneLedger
  imports StructureLog
begin

text \<open>
  The cause zone of a break (\<open>src/market/ZoneEngine.ts\<close>) and its life after the break (\<open>src/market/ZoneLedger.ts\<close>).
\<close>

section \<open>Cause zones\<close>

definition overlaps :: "candle \<Rightarrow> jsnum \<Rightarrow> jsnum \<Rightarrow> bool" where
  "overlaps c low high = (c_low c \<le> high \<and> c_high c \<ge> low)"

text \<open>The last bar against the break's direction among the six before it.\<close>

definition origin_index :: "candle list \<Rightarrow> trend_direction \<Rightarrow> nat \<Rightarrow> nat option" where
  "origin_index cs d end_index =
     find (\<lambda>i. bar_test cs (int i) (\<lambda>c. d = BULLISH \<and> c_close c < c_open c \<or> d = BEARISH \<and> c_close c > c_open c))
       (rev [end_index - 6..<end_index])"

definition touches_after :: "candle list \<Rightarrow> nat \<Rightarrow> jsnum \<Rightarrow> jsnum \<Rightarrow> nat" where
  "touches_after cs origin low high = length (filter (\<lambda>c. overlaps c low high) (drop (Suc origin) cs))"

definition zone_strength :: "jsnum \<Rightarrow> bool \<Rightarrow> jsnum" where
  "zone_strength displacement fresh =
     math_max 0 (math_min 1 (45/100 + math_min 1 (displacement / 3) * (35/100) + (if fresh then 2/10 else 0)))"

definition cause_zone :: "timeframe \<Rightarrow> candle list \<Rightarrow> structure_break \<Rightarrow> jsnum \<Rightarrow> nat \<Rightarrow> price_zone" where
  "cause_zone tf cs b atrValue i =
     (let origin = cs ! i; up = (sb_direction b = BULLISH);
          high = (if up then math_max (c_open origin) (c_close origin) else c_high origin);
          low = (if up then c_low origin else math_min (c_open origin) (c_close origin));
          displacement = abs (c_close (cs ! sb_index b) - (if up then c_high origin else c_low origin)) / atrValue;
          touches = touches_after cs i low high - 1
      in \<lparr> zr_type = (if up then DEMAND else SUPPLY), zr_timeframe = tf, zr_high = high, zr_low = low, zr_originTime = c_openTime origin,
           zr_causedBreak = sb_type b, zr_displacementAtr = displacement, zr_touches = touches, zr_fresh = (touches = 0),
           zr_strength = zone_strength displacement (touches = 0) \<rparr>)"

definition detectCauseZone :: "timeframe \<Rightarrow> candle list \<Rightarrow> structure_break option \<Rightarrow> jsnum \<Rightarrow> price_zone list" where
  "detectCauseZone tf cs sb atrValue =
     (case sb of
        None \<Rightarrow> []
      | Some b \<Rightarrow>
          if sb_index b = 0 \<or> atrValue \<le> 0 then []
          else (case origin_index cs (sb_direction b) (sb_index b) of None \<Rightarrow> [] | Some i \<Rightarrow> [cause_zone tf cs b atrValue i]))"

section \<open>The life of a zone\<close>

definition MAX_ZONE_RECORDS :: nat where "MAX_ZONE_RECORDS = 40"
definition DEFAULT_ZONE_EXPIRY_BARS :: nat where "DEFAULT_ZONE_EXPIRY_BARS = 96"

definition pierced :: "zone_record \<Rightarrow> candle \<Rightarrow> bool" where
  "pierced r c = (if zr_type r = DEMAND then c_close c < zr_low r else c_close c > zr_high r)"

definition past_midpoint :: "zone_record \<Rightarrow> candle \<Rightarrow> bool" where
  "past_midpoint r c =
     (let midpoint = (zr_high r + zr_low r) / 2 in if zr_type r = DEMAND then c_close c < midpoint else c_close c > midpoint)"

definition test_zone :: "candle \<Rightarrow> zone_record \<Rightarrow> zone_record" where
  "test_zone c r =
     (if zr_state r = FRESH \<and> overlaps c (zr_low r) (zr_high r) then r\<lparr> zr_state := TESTED, zr_testedAt := Some (c_openTime c) \<rparr> else r)"

definition mitigate_zone :: "candle \<Rightarrow> zone_record \<Rightarrow> zone_record" where
  "mitigate_zone c r =
     (if zr_state r = TESTED \<and> past_midpoint r c then r\<lparr> zr_state := MITIGATED, zr_mitigatedAt := Some (c_openTime c) \<rparr> else r)"

fun follow_zone :: "nat \<Rightarrow> (nat \<times> candle) list \<Rightarrow> zone_record \<Rightarrow> zone_record" where
  "follow_zone expiryIndex [] r = r"
| "follow_zone expiryIndex ((i, c) # rest) r =
     (if pierced r c then r\<lparr> zr_state := ZoneInvalidated, zr_invalidatedAt := Some (c_openTime c), zr_invalidatedIndex := Some i \<rparr>
      else
        (let r' = mitigate_zone c (test_zone c r)
         in if zr_state r' = FRESH \<and> i \<ge> expiryIndex then r'\<lparr> zr_state := ZoneExpired, zr_expiredAt := Some (c_openTime c) \<rparr>
            else follow_zone expiryIndex rest r'))"

definition new_record :: "candle list \<Rightarrow> structure_break \<Rightarrow> price_zone \<Rightarrow> zone_record" where
  "new_record cs b z = price_zone.extend z
     \<lparr> zr_state = FRESH, zr_testedAt = None, zr_mitigatedAt = None, zr_invalidatedAt = None, zr_invalidatedIndex = None, zr_expiredAt = None,
       zr_breakIndex = sb_index b, zr_breakTime = sb_time b, zr_ageBars = length cs - 1 - sb_index b \<rparr>"

definition zone_life :: "timeframe \<Rightarrow> candle list \<Rightarrow> jsnum \<Rightarrow> nat \<Rightarrow> structure_break \<Rightarrow> zone_record option" where
  "zone_life tf cs atrValue expiryBars b =
     (case detectCauseZone tf cs (Some b) atrValue of
        [] \<Rightarrow> None
      | z # zs \<Rightarrow> Some (follow_zone (sb_index b + expiryBars + 1) (bars_after cs (sb_index b)) (new_record cs b z)))"

definition buildZoneLedger :: "timeframe \<Rightarrow> candle list \<Rightarrow> jsnum \<Rightarrow> structure_break list \<Rightarrow> nat \<Rightarrow> nat \<Rightarrow> zone_record list" where
  "buildZoneLedger tf cs atrValue breaks expiryBars maxRecords =
     (if \<not> atrValue > 0 \<or> breaks = [] then []
      else last_n maxRecords (List.map_filter (zone_life tf cs atrValue expiryBars) breaks))"

section \<open>A zone's life only advances\<close>

fun stage :: "zone_lifecycle \<Rightarrow> nat" where
  "stage FRESH = 0"
| "stage TESTED = 1"
| "stage MITIGATED = 2"
| "stage ZoneInvalidated = 3"
| "stage ZoneExpired = 3"

definition keeps_time :: "jsnum option \<Rightarrow> jsnum option \<Rightarrow> bool" where
  "keeps_time t t' \<longleftrightarrow> t = None \<or> t' = t"

text \<open>The same zone, no earlier in its life, with every recorded time kept and a finished life unchanged.\<close>

definition zone_le :: "zone_record \<Rightarrow> zone_record \<Rightarrow> bool" where
  "zone_le r r' \<longleftrightarrow> zr_type r' = zr_type r \<and> zr_high r' = zr_high r \<and> zr_low r' = zr_low r \<and> zr_originTime r' = zr_originTime r
     \<and> zr_breakIndex r' = zr_breakIndex r \<and> zr_breakTime r' = zr_breakTime r
     \<and> stage (zr_state r) \<le> stage (zr_state r')
     \<and> keeps_time (zr_testedAt r) (zr_testedAt r') \<and> keeps_time (zr_mitigatedAt r) (zr_mitigatedAt r')
     \<and> keeps_time (zr_invalidatedAt r) (zr_invalidatedAt r') \<and> keeps_time (zr_expiredAt r) (zr_expiredAt r')
     \<and> (stage (zr_state r) = 3 \<longrightarrow> zr_state r' = zr_state r)"

text \<open>What the unfinished record of a scan looks like.\<close>

definition unfinished :: "zone_record \<Rightarrow> bool" where
  "unfinished r \<longleftrightarrow> stage (zr_state r) < 3 \<and> zr_invalidatedAt r = None \<and> zr_expiredAt r = None
     \<and> (zr_state r = FRESH \<longrightarrow> zr_testedAt r = None) \<and> (stage (zr_state r) < 2 \<longrightarrow> zr_mitigatedAt r = None)"

lemma zone_le_refl [simp]: "zone_le r r"
  by (simp add: zone_le_def keeps_time_def)

lemma test_step: "unfinished r \<Longrightarrow> unfinished (test_zone c r) \<and> zone_le r (test_zone c r)"
proof (cases "zr_state r = FRESH \<and> overlaps c (zr_low r) (zr_high r)")
  case True
  then show "unfinished r \<Longrightarrow> ?thesis" by (simp add: unfinished_def test_zone_def zone_le_def keeps_time_def)
next
  case False
  then have "test_zone c r = r" by (simp only: test_zone_def if_False)
  then show "unfinished r \<Longrightarrow> ?thesis" by simp
qed

lemma mitigate_step: "unfinished r \<Longrightarrow> unfinished (mitigate_zone c r) \<and> zone_le r (mitigate_zone c r)"
proof (cases "zr_state r = TESTED \<and> past_midpoint r c")
  case True
  then show "unfinished r \<Longrightarrow> ?thesis" by (simp add: unfinished_def mitigate_zone_def zone_le_def keeps_time_def)
next
  case False
  then have "mitigate_zone c r = r" by (simp only: mitigate_zone_def if_False)
  then show "unfinished r \<Longrightarrow> ?thesis" by simp
qed

lemma keeps_time_trans: "keeps_time a b \<Longrightarrow> keeps_time b c \<Longrightarrow> keeps_time a c"
  by (auto simp: keeps_time_def)

lemma zone_le_trans: "zone_le a b \<Longrightarrow> zone_le b c \<Longrightarrow> zone_le a c"
  unfolding zone_le_def using keeps_time_trans le_trans by (elim conjE, intro conjI) (metis | simp)+

lemma step_unfinished: "unfinished r \<Longrightarrow> unfinished (mitigate_zone c (test_zone c r)) \<and> zone_le r (mitigate_zone c (test_zone c r))"
  using test_step mitigate_step zone_le_trans by blast

lemma follow_le: "unfinished r \<Longrightarrow> zone_le r (follow_zone ex ys r)"
proof (induction ex ys r rule: follow_zone.induct)
  case (2 ex i c rest r)
  note s = step_unfinished [OF 2(2), of c]
  have "zone_le r (r\<lparr> zr_state := ZoneInvalidated, zr_invalidatedAt := t, zr_invalidatedIndex := n \<rparr>)" for t n
    using 2(2) by (auto simp: unfinished_def zone_le_def keeps_time_def)
  moreover have "zone_le r ((mitigate_zone c (test_zone c r))\<lparr> zr_state := ZoneExpired, zr_expiredAt := t \<rparr>)" for t
    using s by (auto simp: unfinished_def zone_le_def keeps_time_def)
  ultimately show ?case using 2 s by (auto simp: Let_def intro: zone_le_trans)
qed simp

lemma follow_append: "unfinished r \<Longrightarrow> zone_le (follow_zone ex xs r) (follow_zone ex (xs @ ys) r)"
proof (induction ex xs r rule: follow_zone.induct)
  case (2 ex i c rest r)
  then show ?case using step_unfinished [of r c] by (auto simp: Let_def)
qed (simp add: follow_le)

lemma origin_index_append:
  assumes "e \<le> length cs"
  shows "origin_index (cs @ ds) d e = origin_index cs d e"
  unfolding origin_index_def using assms by (intro find_cong refl) (auto simp: bar_test_append)

lemma origin_index_less: "origin_index cs d e = Some i \<Longrightarrow> i < e"
proof -
  assume "origin_index cs d e = Some i"
  then have "i \<in> set (rev [e - 6..<e])" by (auto simp: origin_index_def find_Some_iff simp del: set_rev)
  then show ?thesis by simp
qed

text \<open>The records a longer window makes of the same break differ in the touches and in the ATR the displacement is measured in.\<close>

definition same_zone :: "zone_record \<Rightarrow> zone_record \<Rightarrow> bool" where
  "same_zone r r' \<longleftrightarrow> zr_type r' = zr_type r \<and> zr_high r' = zr_high r \<and> zr_low r' = zr_low r \<and> zr_originTime r' = zr_originTime r
     \<and> zr_breakIndex r' = zr_breakIndex r \<and> zr_breakTime r' = zr_breakTime r \<and> zr_state r' = zr_state r
     \<and> zr_testedAt r' = zr_testedAt r \<and> zr_mitigatedAt r' = zr_mitigatedAt r
     \<and> zr_invalidatedAt r' = zr_invalidatedAt r \<and> zr_expiredAt r' = zr_expiredAt r"

lemma same_test: assumes "same_zone r r'" shows "same_zone (test_zone c r) (test_zone c r')"
proof -
  have eq: "(zr_state r' = FRESH \<and> overlaps c (zr_low r') (zr_high r')) = (zr_state r = FRESH \<and> overlaps c (zr_low r) (zr_high r))"
    using assms by (simp only: same_zone_def)
  show ?thesis using assms unfolding test_zone_def eq by (simp add: same_zone_def split del: if_split) simp
qed

lemma same_mitigate: assumes "same_zone r r'" shows "same_zone (mitigate_zone c r) (mitigate_zone c r')"
proof -
  have eq: "(zr_state r' = TESTED \<and> past_midpoint r' c) = (zr_state r = TESTED \<and> past_midpoint r c)"
    using assms by (simp only: same_zone_def past_midpoint_def)
  show ?thesis using assms unfolding mitigate_zone_def eq by (simp add: same_zone_def split del: if_split) simp
qed

lemma same_pierced: "same_zone r r' \<Longrightarrow> pierced r' c = pierced r c"
  by (simp only: same_zone_def pierced_def)

lemma same_le: "zone_le a b \<Longrightarrow> same_zone b c \<Longrightarrow> zone_le a c"
  by (simp add: zone_le_def same_zone_def)

lemma follow_same: "same_zone r r' \<Longrightarrow> same_zone (follow_zone ex xs r) (follow_zone ex xs r')"
proof (induction xs arbitrary: r r')
  case (Cons y xs)
  obtain i c where y: "y = (i, c)" by fastforce
  let ?m = "mitigate_zone c (test_zone c r)" and ?m' = "mitigate_zone c (test_zone c r')"
  have m: "same_zone ?m ?m'" using Cons.prems by (intro same_mitigate same_test)
  then have st: "zr_state ?m' = zr_state ?m" by (simp only: same_zone_def)
  have p: "pierced r' c = pierced r c" using Cons.prems by (rule same_pierced)
  have a: "same_zone (r\<lparr> zr_state := v, zr_invalidatedAt := t, zr_invalidatedIndex := n \<rparr>) (r'\<lparr> zr_state := v, zr_invalidatedAt := t, zr_invalidatedIndex := n \<rparr>)"
    "same_zone (?m\<lparr> zr_state := v, zr_expiredAt := t \<rparr>) (?m'\<lparr> zr_state := v, zr_expiredAt := t \<rparr>)" for v t n
    using Cons.prems m by (simp_all add: same_zone_def)
  show ?case using a Cons.IH [OF m] by (simp add: y p st Let_def)
qed simp

lemma detect_append:
  assumes "sb_index b < length cs" and "0 < a" and "0 < a'"
  shows "rel_option (\<lambda>z z'. same_zone (new_record cs b z) (new_record (cs @ ds) b z'))
    (case detectCauseZone tf cs (Some b) a of [] \<Rightarrow> None | z # _ \<Rightarrow> Some z)
    (case detectCauseZone tf (cs @ ds) (Some b) a' of [] \<Rightarrow> None | z # _ \<Rightarrow> Some z)"
proof -
  have "\<not> a \<le> 0" "\<not> a' \<le> 0" using assms(2,3) by (cases a; cases a'; simp)+
  moreover have "origin_index (cs @ ds) (sb_direction b) (sb_index b) = origin_index cs (sb_direction b) (sb_index b)"
    using assms(1) by (simp add: origin_index_append)
  moreover have "same_zone (new_record cs b (cause_zone tf cs b a i)) (new_record (cs @ ds) b (cause_zone tf (cs @ ds) b a' i))"
    if "origin_index cs (sb_direction b) (sb_index b) = Some i" for i
    using assms(1) origin_index_less [OF that] by (simp add: same_zone_def new_record_def cause_zone_def price_zone.defs nth_append Let_def)
  ultimately show ?thesis by (auto simp: detectCauseZone_def split: option.split simp del: js_consts)
qed

lemma unfinished_new [simp]: "unfinished (new_record cs b z)"
  by (simp add: unfinished_def new_record_def price_zone.defs)

lemma life_advances:
  assumes "sb_index b < length cs" and "0 < a" and "0 < a'"
  shows "rel_option zone_le (zone_life tf cs a ex b) (zone_life tf (cs @ ds) a' ex b)"
proof -
  obtain more where more: "bars_after (cs @ ds) (sb_index b) = bars_after cs (sb_index b) @ more" using bars_after_append [OF assms(1)] by blast
  have "zone_le (follow_zone e (bars_after cs (sb_index b)) (new_record cs b z)) (follow_zone e (bars_after (cs @ ds) (sb_index b)) (new_record (cs @ ds) b z'))"
    if "same_zone (new_record cs b z) (new_record (cs @ ds) b z')" for z z' e
    unfolding more using follow_append follow_same [OF that] same_le unfinished_new by blast
  then show ?thesis using detect_append [OF assms, of ds tf]
    by (simp add: zone_life_def split: list.splits)
qed

lemma list_all2_map_filter: "(\<And>x. x \<in> set xs \<Longrightarrow> rel_option R (f x) (g x)) \<Longrightarrow> list_all2 R (List.map_filter f xs) (List.map_filter g xs)"
proof (induction xs)
  case (Cons x xs)
  have "rel_option R (f x) (g x)" using Cons.prems by simp
  then show ?case using Cons by (cases "f x"; cases "g x") (simp_all add: List.map_filter_simps)
qed (simp add: List.map_filter_simps)

lemma list_all2_last_n: "list_all2 R xs ys \<Longrightarrow> list_all2 R (last_n n xs) (last_n n ys)"
  using list_all2_lengthD [of R xs ys] by (auto simp: last_n_def intro: list_all2_dropI)

section \<open>A live zone was never pierced\<close>

lemma follow_geometry [simp]:
  "zr_type (follow_zone ex xs r) = zr_type r" "zr_low (follow_zone ex xs r) = zr_low r" "zr_high (follow_zone ex xs r) = zr_high r"
  "zr_breakIndex (follow_zone ex xs r) = zr_breakIndex r"
  by (induction ex xs r rule: follow_zone.induct) (auto simp: Let_def mitigate_zone_def test_zone_def)

lemma step_geometry [simp]: "pierced (mitigate_zone c (test_zone c r)) c' = pierced r c'"
  by (auto simp: mitigate_zone_def test_zone_def pierced_def Let_def)

lemma follow_unpierced:
  "stage (zr_state (follow_zone ex xs r)) < 3 \<Longrightarrow> list_all (\<lambda>(i, c). \<not> pierced r c) xs"
  by (induction ex xs r rule: follow_zone.induct) (auto simp: Let_def split: if_splits)

lemma ledger_record:
  assumes "r \<in> set (buildZoneLedger tf cs a breaks ex n)"
  shows "\<exists>b\<in>set breaks. zone_life tf cs a ex b = Some r"
  using assms last_n_subset [of n] by (force simp: buildZoneLedger_def map_filter_mem' split: if_splits)

lemma live_zone_unpierced:
  "list_all (\<lambda>r. zr_state r = ZoneInvalidated \<or> zr_state r = ZoneExpired \<or> list_all (\<lambda>(i, c). \<not> pierced r c) (bars_after cs (zr_breakIndex r)))
     (buildZoneLedger tf cs a breaks ex n)"
proof -
  have "zr_state r = ZoneInvalidated \<or> zr_state r = ZoneExpired \<or> list_all (\<lambda>(i, c). \<not> pierced r c) (bars_after cs (zr_breakIndex r))"
    if r: "zone_life tf cs a ex b = Some r" for r b
  proof -
    obtain z where z: "r = follow_zone (sb_index b + ex + 1) (bars_after cs (sb_index b)) (new_record cs b z)"
      using r by (auto simp: zone_life_def split: list.splits)
    have "zr_breakIndex r = sb_index b" by (simp add: z new_record_def price_zone.defs)
    moreover have "pierced r c = pierced (new_record cs b z) c" for c by (simp add: z pierced_def)
    ultimately show ?thesis using follow_unpierced [of "sb_index b + ex + 1" "bars_after cs (sb_index b)" "new_record cs b z"]
      by (cases "zr_state r") (simp_all add: z)
  qed
  then show ?thesis using ledger_record by (fastforce simp: list_all_iff)
qed

section \<open>Properties\<close>

text \<open>Appending bars only advances the zone ledger: over the same breaks, and whatever ATR the longer window has, every record
  is the record of the same zone, in the same place, with its boundaries and every recorded time kept, a state that is no earlier, and
  a finished life unchanged.\<close>

theorem zone_ledger_only_advances:
  assumes "list_all (\<lambda>b. sb_index b < length cs) breaks" and "0 < a" and "0 < a'"
  shows "list_all2 zone_le (buildZoneLedger tf cs a breaks ex n) (buildZoneLedger tf (cs @ ds) a' breaks ex n)"
  using assms life_advances by (auto simp: buildZoneLedger_def list_all_iff intro!: list_all2_last_n list_all2_map_filter)

definition sample_break :: structure_break where
  "sample_break = \<lparr> sb_type = BOS, sb_direction = BULLISH, sb_level = 7, sb_index = 3, sb_time = 3, sb_distanceAtr = 1,
     sb_protectedLevel = None, sb_protectionZone = None \<rparr>"

text \<open>The demand zone of the sample break is fresh on the first four bars and tested by a fifth.\<close>

theorem zone_ledger_only_advances_witness:
  "map zr_state (buildZoneLedger TF1h sample_bars 1 [sample_break] 96 40) = [FRESH]
   \<and> map zr_state (buildZoneLedger TF1h (sample_bars @ [sample_bar 4 8 8 (11/2) 7]) 2 [sample_break] 96 40) = [TESTED]
   \<and> list_all2 zone_le (buildZoneLedger TF1h sample_bars 1 [sample_break] 96 40)
       (buildZoneLedger TF1h (sample_bars @ [sample_bar 4 8 8 (11/2) 7]) 2 [sample_break] 96 40)"
proof (intro conjI)
  show "list_all2 zone_le (buildZoneLedger TF1h sample_bars 1 [sample_break] 96 40)
       (buildZoneLedger TF1h (sample_bars @ [sample_bar 4 8 8 (11/2) 7]) 2 [sample_break] 96 40)"
    by (rule zone_ledger_only_advances) (simp_all add: sample_break_def sample_bars_def)
qed (simp_all add: buildZoneLedger_def zone_life_def detectCauseZone_def origin_index_def bar_test_def nth_opt_def sample_break_def
      sample_bars_def sample_bar_def bars_after_def cause_zone_def new_record_def price_zone.defs pierced_def mitigate_zone_def
      test_zone_def overlaps_def past_midpoint_def math_max_def math_min_def last_n_def List.map_filter_simps upt_rec numeral_nat Let_def)

text \<open>A zone the ledger still offers was never pierced: unless its record is invalidated or expired, no bar after its break closed
  beyond its far boundary.\<close>

theorem live_zones_were_never_pierced:
  "list_all (\<lambda>r. zr_state r = ZoneInvalidated \<or> zr_state r = ZoneExpired \<or> list_all (\<lambda>(i, c). \<not> pierced r c) (bars_after cs (zr_breakIndex r)))
     (buildZoneLedger tf cs a breaks ex n)"
  by (rule live_zone_unpierced)

end
