(* ===== verification/SweepLedger.thy ===== *)
theory SweepLedger
  imports StructureLog
begin

text \<open>
  Liquidity pools and the sweeps that take them (\<open>src/market/LiquidityEngine.ts\<close>, \<open>src/market/SweepLedger.ts\<close>): the pools of
  a snapshot, the sweeps of its last twelve bars, and the causal replay that keeps pools until they are swept. A pool's identity
  string is the pair of its type and its source times; the counter \<open>formedAt\<close> and the event's \<open>id\<close> string, which nothing reads,
  are left out.
\<close>

section \<open>The replay\<close>

record ledger_pool =
  lg_type :: pool_type
  lg_price :: jsnum
  lg_sourceTimes :: "jsnum list"

type_synonym pool_id = "pool_type \<times> jsnum list"

record sweep_replay =
  sr_history :: "liquidity_sweep list"
  sr_swept :: "pool_id \<Rightarrow> (jsnum \<times> jsnum) option"
  sr_active :: "ledger_pool list"
  sr_highs :: "swing_point list"
  sr_lows :: "swing_point list"

definition MAX_SWEEP_EVENTS :: nat where "MAX_SWEEP_EVENTS = 200"
definition MAX_ACTIVE_POOLS :: nat where "MAX_ACTIVE_POOLS = 60"
definition EQUAL_PAIR_LOOKBACK :: nat where "EQUAL_PAIR_LOOKBACK = 11"

definition sweep_tolerance :: "jsnum \<Rightarrow> jsnum" where
  "sweep_tolerance atrValue = math_max (atrValue * (15/100)) (1 / 1000000000000)"

definition pool_identity :: "ledger_pool \<Rightarrow> pool_id" where
  "pool_identity p = (lg_type p, lg_sourceTimes p)"

text \<open>The bar trades beyond the level by more than the tolerance and closes back on the other side of it.\<close>

definition sweeps_low :: "candle \<Rightarrow> jsnum \<Rightarrow> jsnum \<Rightarrow> bool" where
  "sweeps_low c price tolerance = (c_low c < price - tolerance \<and> c_close c > price)"

definition sweeps_high :: "candle \<Rightarrow> jsnum \<Rightarrow> jsnum \<Rightarrow> bool" where
  "sweeps_high c price tolerance = (c_high c > price + tolerance \<and> c_close c < price)"

definition sweep_of :: "candle \<Rightarrow> nat \<Rightarrow> pool_type \<Rightarrow> jsnum \<Rightarrow> bool \<Rightarrow> jsnum list option \<Rightarrow> liquidity_sweep" where
  "sweep_of c i ty price bullish srcs =
     \<lparr> lw_poolType = ty, lw_direction = (if bullish then SELL_SIDE else BUY_SIDE), lw_level = price,
       lw_sweepPrice = (if bullish then c_low c else c_high c), lw_close = c_close c, lw_index = i, lw_time = c_openTime c,
       lw_confirmed = True, lw_poolSourceTimes = srcs \<rparr>"

definition ledger_sweep :: "candle \<Rightarrow> nat \<Rightarrow> ledger_pool \<Rightarrow> jsnum \<Rightarrow> liquidity_sweep option" where
  "ledger_sweep c i p tolerance =
     (if \<not> sweeps_low c (lg_price p) tolerance \<and> \<not> sweeps_high c (lg_price p) tolerance then None
      else Some (sweep_of c i (lg_type p) (lg_price p) (sweeps_low c (lg_price p) tolerance) (Some (lg_sourceTimes p))))"

definition form_pool :: "nat \<Rightarrow> ledger_pool \<Rightarrow> ledger_pool list \<Rightarrow> ledger_pool list" where
  "form_pool maxActive p pools = (if length (pools @ [p]) > maxActive then tl (pools @ [p]) else pools @ [p])"

definition equal_pool :: "pool_type \<Rightarrow> swing_point \<Rightarrow> swing_point \<Rightarrow> ledger_pool" where
  "equal_pool ty prior s = \<lparr> lg_type = ty, lg_price = (sw_price prior + sw_price s) / 2, lg_sourceTimes = [sw_time prior, sw_time s] \<rparr>"

text \<open>The pools a confirmed swing forms: its own, then one per earlier swing at the same level.\<close>

definition pools_of_swing :: "pool_type \<Rightarrow> pool_type \<Rightarrow> jsnum \<Rightarrow> swing_point list \<Rightarrow> swing_point \<Rightarrow> ledger_pool list" where
  "pools_of_swing single equal tolerance earlier s =
     \<lparr> lg_type = single, lg_price = sw_price s, lg_sourceTimes = [sw_time s] \<rparr>
     # map (\<lambda>prior. equal_pool equal prior s) (filter (\<lambda>prior. abs (sw_price prior - sw_price s) \<le> tolerance) earlier)"

definition confirm_high :: "candle list \<Rightarrow> jsnum \<Rightarrow> nat \<Rightarrow> nat \<Rightarrow> sweep_replay \<Rightarrow> nat \<Rightarrow> sweep_replay" where
  "confirm_high cs tolerance strength maxActive s pivot =
     (if isSwingHigh cs pivot strength
      then (let swing = swing_at cs c_high pivot; highs = sr_highs s @ [swing]
            in s\<lparr> sr_highs := highs,
                 sr_active := foldl (\<lambda>ps p. form_pool maxActive p ps) (sr_active s)
                   (pools_of_swing SWING_HIGH EQUAL_HIGH tolerance (butlast (last_n EQUAL_PAIR_LOOKBACK highs)) swing) \<rparr>)
      else s)"

definition confirm_low :: "candle list \<Rightarrow> jsnum \<Rightarrow> nat \<Rightarrow> nat \<Rightarrow> sweep_replay \<Rightarrow> nat \<Rightarrow> sweep_replay" where
  "confirm_low cs tolerance strength maxActive s pivot =
     (if isSwingLow cs pivot strength
      then (let swing = swing_at cs c_low pivot; lows = sr_lows s @ [swing]
            in s\<lparr> sr_lows := lows,
                 sr_active := foldl (\<lambda>ps p. form_pool maxActive p ps) (sr_active s)
                   (pools_of_swing SWING_LOW EQUAL_LOW tolerance (butlast (last_n EQUAL_PAIR_LOOKBACK lows)) swing) \<rparr>)
      else s)"

text \<open>One pool against one bar; the pools are tried from the newest, and a swept pool leaves the active list.\<close>

definition try_pool :: "candle \<Rightarrow> nat \<Rightarrow> jsnum \<Rightarrow> ledger_pool \<Rightarrow> sweep_replay \<Rightarrow> sweep_replay" where
  "try_pool c i tolerance p s =
     (if math_max_list (lg_sourceTimes p) \<ge> c_openTime c then s\<lparr> sr_active := p # sr_active s \<rparr>
      else (case ledger_sweep c i p tolerance of
              None \<Rightarrow> s\<lparr> sr_active := p # sr_active s \<rparr>
            | Some e \<Rightarrow> s\<lparr> sr_history := sr_history s @ [e], sr_swept := (sr_swept s)(pool_identity p \<mapsto> (c_openTime c, lw_sweepPrice e)) \<rparr>))"

definition sweep_pools :: "candle \<Rightarrow> nat \<Rightarrow> jsnum \<Rightarrow> sweep_replay \<Rightarrow> sweep_replay" where
  "sweep_pools c i tolerance s = foldl (\<lambda>s p. try_pool c i tolerance p s) (s\<lparr> sr_active := [] \<rparr>) (rev (sr_active s))"

definition replay_step :: "candle list \<Rightarrow> jsnum \<Rightarrow> nat \<Rightarrow> nat \<Rightarrow> sweep_replay \<Rightarrow> nat \<Rightarrow> sweep_replay" where
  "replay_step cs tolerance strength maxActive s i =
     (let s1 = (if i \<ge> strength + strength
                then confirm_low cs tolerance strength maxActive (confirm_high cs tolerance strength maxActive s (i - strength)) (i - strength)
                else s)
      in sweep_pools (cs ! i) i tolerance s1)"

definition replay_new :: sweep_replay where
  "replay_new = \<lparr> sr_history = [], sr_swept = (\<lambda>_. None), sr_active = [], sr_highs = [], sr_lows = [] \<rparr>"

definition replay :: "candle list \<Rightarrow> jsnum \<Rightarrow> nat \<Rightarrow> nat \<Rightarrow> sweep_replay" where
  "replay cs atrValue strength maxActive = foldl (replay_step cs (sweep_tolerance atrValue) strength maxActive) replay_new [0..<length cs]"

definition buildSweepLedger :: "candle list \<Rightarrow> jsnum \<Rightarrow> nat \<Rightarrow> nat \<Rightarrow> nat \<Rightarrow> liquidity_sweep list \<times> (pool_id \<Rightarrow> (jsnum \<times> jsnum) option)" where
  "buildSweepLedger cs atrValue strength maxEvents maxActive =
     (let r = replay cs atrValue strength maxActive in (last_n maxEvents (sr_history r), sr_swept r))"

definition markPoolsFromLedger :: "(pool_id \<Rightarrow> (jsnum \<times> jsnum) option) \<Rightarrow> liquidity_pool list \<Rightarrow> liquidity_pool list" where
  "markPoolsFromLedger swept pools =
     map (\<lambda>p. if lp_type p = RANGE_HIGH \<or> lp_type p = RANGE_LOW then p
              else (case swept (lp_type p, lp_sourceTimes p) of None \<Rightarrow> p | Some (t, x) \<Rightarrow> p\<lparr> lp_taken := Some True, lp_sweptAt := Some t \<rparr>)) pools"

section \<open>The snapshot\<close>

definition SWEEP_LOOKBACK_CANDLES :: nat where "SWEEP_LOOKBACK_CANDLES = 12"
definition MAX_RECENT_SWEEPS :: nat where "MAX_RECENT_SWEEPS = 30"

definition new_pool :: "pool_type \<Rightarrow> jsnum \<Rightarrow> jsnum \<Rightarrow> jsnum \<Rightarrow> jsnum list \<Rightarrow> liquidity_pool" where
  "new_pool ty price tolerance strength srcs =
     \<lparr> lp_type = ty, lp_price = price, lp_tolerance = tolerance, lp_strength = strength, lp_sourceTimes = srcs, lp_taken = None, lp_sweptAt = None \<rparr>"

definition equal_pools :: "pool_type \<Rightarrow> jsnum \<Rightarrow> swing_point list \<Rightarrow> liquidity_pool list" where
  "equal_pools ty tolerance ss =
     concat (map (\<lambda>i. List.map_filter (\<lambda>j. if abs (sw_price (ss ! i) - sw_price (ss ! j)) \<le> tolerance
         then Some (new_pool ty ((sw_price (ss ! i) + sw_price (ss ! j)) / 2) tolerance (math_min 1 (1/2 + num_of_nat (j - i) / 20))
                [sw_time (ss ! i), sw_time (ss ! j)])
         else None) [Suc i..<length ss]) [0..<length ss])"

definition swing_pools :: "pool_type \<Rightarrow> jsnum \<Rightarrow> nat \<Rightarrow> swing_point list \<Rightarrow> liquidity_pool list" where
  "swing_pools ty tolerance n ss =
     map (\<lambda>s. new_pool ty (sw_price s) tolerance (math_min 1 (4/10 + (num_of_nat (sw_index s) / num_of_nat (max 1 n)) * (4/10))) [sw_time s])
       (last_n 6 ss)"

definition range_pools :: "jsnum \<Rightarrow> candle list \<Rightarrow> liquidity_pool list" where
  "range_pools tolerance cs =
     (let lookback = last_n 32 cs
      in if length lookback \<ge> 8
         then [new_pool RANGE_HIGH (math_max_list (map c_high lookback)) tolerance (7/10) [c_openTime (last lookback)],
               new_pool RANGE_LOW (math_min_list (map c_low lookback)) tolerance (7/10) [c_openTime (last lookback)]]
         else [])"

definition snapshot_pools :: "candle list \<Rightarrow> structure_state \<Rightarrow> jsnum \<Rightarrow> liquidity_pool list" where
  "snapshot_pools cs structure tolerance =
     (let highs = last_n 12 (su_swingHighs structure); lows = last_n 12 (su_swingLows structure)
      in equal_pools EQUAL_HIGH tolerance highs @ equal_pools EQUAL_LOW tolerance lows
         @ swing_pools SWING_HIGH tolerance (length cs) highs @ swing_pools SWING_LOW tolerance (length cs) lows @ range_pools tolerance cs)"

definition snapshot_sweep :: "candle \<Rightarrow> nat \<Rightarrow> liquidity_pool \<Rightarrow> liquidity_sweep option" where
  "snapshot_sweep c i p =
     (if lp_sourceTimes p = [] \<or> math_max_list (lp_sourceTimes p) \<ge> c_openTime c then None
      else if sweeps_low c (lp_price p) (lp_tolerance p) then Some (sweep_of c i (lp_type p) (lp_price p) True None)
      else if sweeps_high c (lp_price p) (lp_tolerance p) then Some (sweep_of c i (lp_type p) (lp_price p) False None)
      else None)"

definition snapshot_sweeps :: "candle list \<Rightarrow> liquidity_pool list \<Rightarrow> liquidity_sweep list" where
  "snapshot_sweeps cs pools =
     concat (map (\<lambda>(i, c). List.map_filter (snapshot_sweep c i) pools) (last_n SWEEP_LOOKBACK_CANDLES (zip [0..<length cs] cs)))"

definition sweep_before :: "liquidity_sweep \<Rightarrow> liquidity_sweep \<Rightarrow> bool" where
  "sweep_before a b = (lw_time a < lw_time b \<or> \<not> truthy (lw_time a - lw_time b) \<and> lw_index a < lw_index b)"

definition detectLiquidity :: "candle list \<Rightarrow> structure_state \<Rightarrow> jsnum \<Rightarrow> liquidity_state" where
  "detectLiquidity cs structure atrValue =
     (let pools = snapshot_pools cs structure (sweep_tolerance atrValue);
          ordered = last_n MAX_RECENT_SWEEPS (sort_by sweep_before (snapshot_sweeps cs pools));
          latest = (case last_opt cs of None \<Rightarrow> [] | Some c \<Rightarrow> filter (\<lambda>e. js_eq (lw_time e) (c_openTime c)) ordered);
          ledger = buildSweepLedger cs atrValue 2 MAX_SWEEP_EVENTS MAX_ACTIVE_POOLS
      in \<lparr> ls_pools = last_n 40 (markPoolsFromLedger (snd ledger) pools), ls_latestSweeps = last_n 10 latest,
           ls_recentSweeps = ordered, ls_sweepHistory = Some (fst ledger) \<rparr>)"

section \<open>Every recorded sweep is genuine\<close>

text \<open>
  The event is its bar's: the bar went beyond the pool's level by more than the tolerance, closed back on the other side, and
  the pool's sources are not as late as the bar.
\<close>

definition genuine :: "candle list \<Rightarrow> jsnum \<Rightarrow> liquidity_sweep \<Rightarrow> bool" where
  "genuine cs tolerance e \<longleftrightarrow> lw_confirmed e \<and> lw_index e < length cs
     \<and> (let c = cs ! lw_index e
        in lw_time e = c_openTime c \<and> lw_close e = c_close c
           \<and> (case lw_direction e of
                SELL_SIDE \<Rightarrow> lw_sweepPrice e = c_low c \<and> sweeps_low c (lw_level e) tolerance
              | BUY_SIDE \<Rightarrow> lw_sweepPrice e = c_high c \<and> sweeps_high c (lw_level e) tolerance)
           \<and> (case lw_poolSourceTimes e of None \<Rightarrow> True | Some ts \<Rightarrow> \<not> math_max_list ts \<ge> c_openTime c))"

lemma ledger_sweep_genuine:
  assumes "ledger_sweep (cs ! i) i p tolerance = Some e" and "i < length cs" and "\<not> math_max_list (lg_sourceTimes p) \<ge> c_openTime (cs ! i)"
  shows "genuine cs tolerance e"
  using assms by (auto simp: ledger_sweep_def sweep_of_def genuine_def Let_def split: if_splits)

lemma try_pool_genuine:
  assumes "list_all (genuine cs t) (sr_history s)" and "i < length cs"
  shows "list_all (genuine cs t) (sr_history (try_pool (cs ! i) i t p s))"
  using assms ledger_sweep_genuine [of cs i p t] by (auto simp: try_pool_def split: option.splits)

lemma sweep_pools_genuine:
  assumes "list_all (genuine cs t) (sr_history s)" and "i < length cs"
  shows "list_all (genuine cs t) (sr_history (sweep_pools (cs ! i) i t s))"
proof -
  have "list_all (genuine cs t) (sr_history (foldl (\<lambda>s p. try_pool (cs ! i) i t p s) u ps))"
    if "list_all (genuine cs t) (sr_history u)" for u ps
    using that by (induction ps arbitrary: u) (simp_all add: try_pool_genuine assms(2))
  then show ?thesis using assms(1) by (simp add: sweep_pools_def)
qed

lemma confirm_history [simp]:
  "sr_history (confirm_high cs t k m s i) = sr_history s" "sr_history (confirm_low cs t k m s i) = sr_history s"
  "sr_swept (confirm_high cs t k m s i) = sr_swept s" "sr_swept (confirm_low cs t k m s i) = sr_swept s"
  by (simp_all add: confirm_high_def confirm_low_def Let_def)

lemma replay_genuine_fold:
  "list_all (genuine cs t) (sr_history s) \<Longrightarrow> set js \<subseteq> {..<length cs}
    \<Longrightarrow> list_all (genuine cs t) (sr_history (foldl (replay_step cs t k m) s js))"
  by (induction js arbitrary: s) (simp_all add: replay_step_def sweep_pools_genuine Let_def)

lemma replay_genuine: "list_all (genuine cs (sweep_tolerance a)) (sr_history (replay cs a k m))"
  unfolding replay_def by (rule replay_genuine_fold) (auto simp: replay_new_def)

lemma snapshot_genuine:
  assumes "snapshot_sweep (cs ! i) i p = Some e" and "i < length cs"
  shows "genuine cs (lp_tolerance p) e"
  using assms by (auto simp: snapshot_sweep_def sweep_of_def genuine_def Let_def split: if_splits)

section \<open>The replay looks only back\<close>

lemma confirm_append:
  assumes "i + k < length cs" and "k \<le> i"
  shows "confirm_high (cs @ ds) t k m s i = confirm_high cs t k m s i" and "confirm_low (cs @ ds) t k m s i = confirm_low cs t k m s i"
  using assms by (simp_all add: confirm_high_def confirm_low_def isSwing_append swing_at_append)

lemma replay_step_append:
  assumes "i < length cs"
  shows "replay_step (cs @ ds) t k m s i = replay_step cs t k m s i"
  using assms confirm_append [of "i - k" k cs ds t m] by (simp add: replay_step_def nth_append Let_def)

lemma try_pools_history: "\<exists>more. sr_history (foldl (\<lambda>s p. try_pool c i t p s) u ps) = sr_history u @ more"
proof (induction ps arbitrary: u)
  case (Cons p ps)
  have "\<exists>more. sr_history (try_pool c i t p u) = sr_history u @ more" by (auto simp: try_pool_def split: option.split)
  then show ?case using Cons [of "try_pool c i t p u"] by auto
qed simp

lemma sweep_pools_history: "\<exists>more. sr_history (sweep_pools c i t s) = sr_history s @ more"
  using try_pools_history [of c i t "s\<lparr> sr_active := [] \<rparr>" "rev (sr_active s)"] by (simp add: sweep_pools_def)

lemma replay_history_fold: "\<exists>more. sr_history (foldl (replay_step cs t k m) s js) = sr_history s @ more"
proof (induction js arbitrary: s)
  case (Cons i js)
  have "\<exists>more. sr_history (replay_step cs t k m s i) = sr_history s @ more"
    using sweep_pools_history [of "cs ! i" i t s]
      sweep_pools_history [of "cs ! i" i t "confirm_low cs t k m (confirm_high cs t k m s (i - k)) (i - k)"]
    by (simp add: replay_step_def Let_def)
  then show ?case using Cons [of "replay_step cs t k m s i"] by auto
qed simp

lemma replay_fold_prefix: "n \<le> length cs \<Longrightarrow> foldl (replay_step (cs @ ds) t k m) s [0..<n] = foldl (replay_step cs t k m) s [0..<n]"
  by (intro foldl_cong) (auto simp: replay_step_append)

lemma replay_history_grows: "\<exists>more. sr_history (replay (cs @ ds) a k m) = sr_history (replay cs a k m) @ more"
proof -
  have u: "[0..<length (cs @ ds)] = [0..<length cs] @ [length cs..<length (cs @ ds)]"
    using upt_add_eq_append [of 0 "length cs" "length ds"] by simp
  show ?thesis unfolding replay_def u foldl_append replay_fold_prefix [OF order_refl] by (rule replay_history_fold)
qed

section \<open>A pool is swept at most once\<close>

definition event_id :: "liquidity_sweep \<Rightarrow> pool_id" where
  "event_id e = (lw_poolType e, case lw_poolSourceTimes e of None \<Rightarrow> [] | Some ts \<Rightarrow> ts)"

definition replay_ids :: "sweep_replay \<Rightarrow> pool_id list" where
  "replay_ids s = map event_id (sr_history s) @ map pool_identity (sr_active s)"

text \<open>The swing times of the side an identity belongs to.\<close>

definition side_times :: "sweep_replay \<Rightarrow> pool_type \<Rightarrow> jsnum list" where
  "side_times s ty = map sw_time (if ty \<in> {SWING_HIGH, EQUAL_HIGH} then sr_highs s else sr_lows s)"

definition times_below :: "candle list \<Rightarrow> nat \<Rightarrow> jsnum list \<Rightarrow> bool" where
  "times_below cs n ts \<longleftrightarrow> distinct ts \<and> set ts \<subseteq> (\<lambda>j. c_openTime (cs ! j)) ` {..<n}"

definition sourced :: "sweep_replay \<Rightarrow> pool_id \<Rightarrow> bool" where
  "sourced s d \<longleftrightarrow> snd d \<noteq> [] \<and> last (snd d) \<in> set (side_times s (fst d))"

definition ids_ok :: "candle list \<Rightarrow> nat \<Rightarrow> nat \<Rightarrow> sweep_replay \<Rightarrow> bool" where
  "ids_ok cs nh nl s \<longleftrightarrow> distinct (replay_ids s) \<and> times_below cs nh (map sw_time (sr_highs s)) \<and> times_below cs nl (map sw_time (sr_lows s))
     \<and> (\<forall>d\<in>set (replay_ids s). sourced s d)"

text \<open>Forming pools adds their identities and may drop the oldest active ones.\<close>

lemma form_pools_mem: "set (foldl (\<lambda>ps p. form_pool m p ps) qs ps) \<subseteq> set qs \<union> set ps"
proof (induction ps arbitrary: qs)
  case (Cons p ps)
  have "set (form_pool m p qs) \<subseteq> insert p (set qs)" by (cases qs) (auto simp: form_pool_def)
  then show ?case using Cons [of "form_pool m p qs"] by auto
qed simp

lemma form_pools_distinct:
  assumes "distinct (hs @ map f (qs @ ps))"
  shows "distinct (hs @ map f (foldl (\<lambda>ps p. form_pool m p ps) qs ps))"
  using assms
proof (induction ps arbitrary: qs)
  case (Cons p ps)
  have "distinct (hs @ map f (form_pool m p qs @ ps))"
    using Cons.prems by (cases qs) (auto simp: form_pool_def)
  then show ?case using Cons.IH by simp
qed simp

lemma pools_of_swing_ids:
  "map pool_identity (pools_of_swing ty eq t earlier sw)
     = (ty, [sw_time sw]) # map (\<lambda>p. (eq, [sw_time p, sw_time sw])) (filter (\<lambda>p. abs (sw_price p - sw_price sw) \<le> t) earlier)"
  by (simp add: pools_of_swing_def pool_identity_def equal_pool_def comp_def)

lemma distinct_map_filter: "distinct (map f xs) \<Longrightarrow> distinct (map f (filter P xs))"
  by (induction xs) auto

lemma swing_ids_distinct:
  assumes "distinct (map sw_time earlier)"
  shows "distinct (map pool_identity (pools_of_swing ty eq t earlier sw))"
proof -
  have "distinct (map (\<lambda>p. (eq, [sw_time p, sw_time sw])) xs)" if "distinct (map sw_time xs)" for xs
    using that by (induction xs) auto
  then show ?thesis using distinct_map_filter [OF assms] by (auto simp: pools_of_swing_ids)
qed

lemma last_n_distinct: "distinct xs \<Longrightarrow> distinct (last_n n xs)"
  by (simp add: last_n_def)

lemma map_last_n: "map f (last_n n xs) = last_n n (map f xs)"
  by (simp add: last_n_def drop_map)

lemma distinct_swings: "distinct (map sw_time ss) \<Longrightarrow> distinct (map sw_time (butlast (last_n n ss)))"
  by (simp add: map_butlast map_last_n last_n_distinct distinct_butlast)

lemma new_time:
  assumes "distinct (map c_openTime cs)" and "i < length cs" and "times_below cs i ts"
  shows "c_openTime (cs ! i) \<notin> set ts" and "times_below cs (Suc i) (ts @ [c_openTime (cs ! i)])"
proof -
  show n: "c_openTime (cs ! i) \<notin> set ts"
  proof
    assume "c_openTime (cs ! i) \<in> set ts"
    then obtain j where j: "j < i" "c_openTime (cs ! i) = c_openTime (cs ! j)" using assms(3) by (auto simp: times_below_def)
    then have "i = j" using assms(1,2) nth_eq_iff_index_eq [of "map c_openTime cs" i j] by simp
    with j show False by simp
  qed
  show "times_below cs (Suc i) (ts @ [c_openTime (cs ! i)])"
    using assms(3) n by (auto simp: times_below_def less_Suc_eq)
qed

lemma times_below_mono: "times_below cs n ts \<Longrightarrow> n \<le> m \<Longrightarrow> times_below cs m ts"
  by (force simp: times_below_def)

text \<open>The pools a new swing adds: fresh identities, each ending in the swing's time.\<close>

lemma add_pools:
  assumes "distinct (hs @ map pool_identity qs)" and "distinct (map sw_time earlier)"
    and "\<forall>d\<in>set (hs @ map pool_identity qs). fst d \<in> {ty, eq} \<longrightarrow> last (snd d) \<noteq> sw_time sw"
    and qs'_def: "qs' = foldl (\<lambda>ps p. form_pool m p ps) qs (pools_of_swing ty eq t earlier sw)"
  shows "distinct (hs @ map pool_identity qs')"
    and "\<forall>d\<in>set (hs @ map pool_identity qs'). d \<in> set (hs @ map pool_identity qs) \<or> fst d \<in> {ty, eq} \<and> snd d \<noteq> [] \<and> last (snd d) = sw_time sw"
proof -
  let ?new = "pools_of_swing ty eq t earlier sw"
  have new: "\<forall>d\<in>set (map pool_identity ?new). fst d \<in> {ty, eq} \<and> snd d \<noteq> [] \<and> last (snd d) = sw_time sw"
    unfolding pools_of_swing_ids by auto
  have "False" if d: "d \<in> set (hs @ map pool_identity qs)" "d \<in> set (map pool_identity ?new)" for d
    using bspec [OF assms(3) d(1)] bspec [OF new d(2)] by simp
  then have "set (hs @ map pool_identity qs) \<inter> set (map pool_identity ?new) = {}" by blast
  then have "distinct (hs @ map pool_identity (qs @ ?new))"
    using assms(1) swing_ids_distinct [OF assms(2), of ty eq t sw] by (metis append_assoc distinct_append map_append)
  then show "distinct (hs @ map pool_identity qs')" unfolding qs'_def by (rule form_pools_distinct)
  show "\<forall>d\<in>set (hs @ map pool_identity qs'). d \<in> set (hs @ map pool_identity qs) \<or> fst d \<in> {ty, eq} \<and> snd d \<noteq> [] \<and> last (snd d) = sw_time sw"
  proof
    fix d assume "d \<in> set (hs @ map pool_identity qs')"
    then have "d \<in> set (hs @ map pool_identity qs) \<or> d \<in> set (map pool_identity ?new)"
      using form_pools_mem [of m qs ?new] unfolding qs'_def by (simp only: set_append set_map) blast
    then show "d \<in> set (hs @ map pool_identity qs) \<or> fst d \<in> {ty, eq} \<and> snd d \<noteq> [] \<and> last (snd d) = sw_time sw"
      using new by blast
  qed
qed

lemma sourced_sides:
  "sourced s d \<Longrightarrow> fst d \<in> {SWING_HIGH, EQUAL_HIGH} \<Longrightarrow> last (snd d) \<in> set (map sw_time (sr_highs s))"
  "sourced s d \<Longrightarrow> fst d \<in> {SWING_LOW, EQUAL_LOW} \<Longrightarrow> last (snd d) \<in> set (map sw_time (sr_lows s))"
  by (auto simp: sourced_def side_times_def)

lemma confirm_high_ids:
  assumes "ids_ok cs i n s" and "distinct (map c_openTime cs)" and "i < length cs"
  shows "ids_ok cs (Suc i) n (confirm_high cs t k m s i)"
proof (cases "isSwingHigh cs i k")
  case False
  then show ?thesis using assms(1) times_below_mono by (fastforce simp: confirm_high_def ids_ok_def)
next
  case True
  let ?sw = "swing_at cs c_high i" and ?highs = "sr_highs s @ [swing_at cs c_high i]"
  let ?s = "confirm_high cs t k m s i" and ?hs = "map event_id (sr_history s)"
  have s: "?s = s\<lparr> sr_highs := ?highs, sr_active := foldl (\<lambda>ps p. form_pool m p ps) (sr_active s)
      (pools_of_swing SWING_HIGH EQUAL_HIGH t (butlast (last_n EQUAL_PAIR_LOOKBACK ?highs)) ?sw) \<rparr>"
    using True by (simp add: confirm_high_def Let_def)
  have tb: "times_below cs i (map sw_time (sr_highs s))" using assms(1) by (simp add: ids_ok_def)
  note n = new_time [OF assms(2,3) tb]
  have "sw_time ?sw \<notin> set (map sw_time (sr_highs s))" using n(1) by (simp add: swing_at_def)
  moreover have "\<forall>d\<in>set (?hs @ map pool_identity (sr_active s)). sourced s d" using assms(1) by (simp add: ids_ok_def replay_ids_def)
  ultimately have "\<forall>d\<in>set (?hs @ map pool_identity (sr_active s)). fst d \<in> {SWING_HIGH, EQUAL_HIGH} \<longrightarrow> last (snd d) \<noteq> sw_time ?sw"
    using sourced_sides(1) [of s] by metis
  moreover have "distinct (map sw_time (butlast (last_n EQUAL_PAIR_LOOKBACK ?highs)))"
    using n(2) by (intro distinct_swings) (simp add: times_below_def swing_at_def)
  moreover have "distinct (?hs @ map pool_identity (sr_active s))" using assms(1) by (simp add: ids_ok_def replay_ids_def)
  ultimately have a: "distinct (replay_ids ?s)"
    "\<forall>d\<in>set (replay_ids ?s). d \<in> set (replay_ids s) \<or> fst d \<in> {SWING_HIGH, EQUAL_HIGH} \<and> snd d \<noteq> [] \<and> last (snd d) = sw_time ?sw"
    using add_pools [of ?hs "sr_active s", OF _ _ _ refl] unfolding s replay_ids_def by simp_all
  have "sourced ?s d" if "d \<in> set (replay_ids ?s)" for d
    using a(2) that assms(1) by (auto simp: s ids_ok_def sourced_def side_times_def split: if_splits)
  then show ?thesis using a(1) assms(1) n(2) by (simp add: ids_ok_def s swing_at_def)
qed

lemma confirm_low_ids:
  assumes "ids_ok cs n i s" and "distinct (map c_openTime cs)" and "i < length cs"
  shows "ids_ok cs n (Suc i) (confirm_low cs t k m s i)"
proof (cases "isSwingLow cs i k")
  case False
  then show ?thesis using assms(1) times_below_mono by (fastforce simp: confirm_low_def ids_ok_def)
next
  case True
  let ?sw = "swing_at cs c_low i" and ?lows = "sr_lows s @ [swing_at cs c_low i]"
  let ?s = "confirm_low cs t k m s i" and ?hs = "map event_id (sr_history s)"
  have s: "?s = s\<lparr> sr_lows := ?lows, sr_active := foldl (\<lambda>ps p. form_pool m p ps) (sr_active s)
      (pools_of_swing SWING_LOW EQUAL_LOW t (butlast (last_n EQUAL_PAIR_LOOKBACK ?lows)) ?sw) \<rparr>"
    using True by (simp add: confirm_low_def Let_def)
  have tb: "times_below cs i (map sw_time (sr_lows s))" using assms(1) by (simp add: ids_ok_def)
  note n = new_time [OF assms(2,3) tb]
  have "sw_time ?sw \<notin> set (map sw_time (sr_lows s))" using n(1) by (simp add: swing_at_def)
  moreover have "\<forall>d\<in>set (?hs @ map pool_identity (sr_active s)). sourced s d" using assms(1) by (simp add: ids_ok_def replay_ids_def)
  ultimately have "\<forall>d\<in>set (?hs @ map pool_identity (sr_active s)). fst d \<in> {SWING_LOW, EQUAL_LOW} \<longrightarrow> last (snd d) \<noteq> sw_time ?sw"
    using sourced_sides(2) [of s] by metis
  moreover have "distinct (map sw_time (butlast (last_n EQUAL_PAIR_LOOKBACK ?lows)))"
    using n(2) by (intro distinct_swings) (simp add: times_below_def swing_at_def)
  moreover have "distinct (?hs @ map pool_identity (sr_active s))" using assms(1) by (simp add: ids_ok_def replay_ids_def)
  ultimately have a: "distinct (replay_ids ?s)"
    "\<forall>d\<in>set (replay_ids ?s). d \<in> set (replay_ids s) \<or> fst d \<in> {SWING_LOW, EQUAL_LOW} \<and> snd d \<noteq> [] \<and> last (snd d) = sw_time ?sw"
    using add_pools [of ?hs "sr_active s", OF _ _ _ refl] unfolding s replay_ids_def by simp_all
  have "sourced ?s d" if "d \<in> set (replay_ids ?s)" for d
    using a(2) that assms(1) by (auto simp: s ids_ok_def sourced_def side_times_def split: if_splits)
  then show ?thesis using a(1) assms(1) n(2) by (simp add: ids_ok_def s swing_at_def)
qed

text \<open>Sweeping only moves identities from the active pools to the history.\<close>

lemma try_pool_ids:
  "set (replay_ids (try_pool c i t p s)) = insert (pool_identity p) (set (replay_ids s))"
  "pool_identity p \<notin> set (replay_ids s) \<Longrightarrow> distinct (replay_ids s) \<Longrightarrow> distinct (replay_ids (try_pool c i t p s))"
  by (auto simp: try_pool_def replay_ids_def ledger_sweep_def event_id_def sweep_of_def pool_identity_def split: option.splits if_splits)

lemma try_pool_sides [simp]:
  "sr_highs (try_pool c i t p s) = sr_highs s" "sr_lows (try_pool c i t p s) = sr_lows s"
  by (simp_all add: try_pool_def split: option.split)

lemma try_pools_ids:
  "distinct (replay_ids s @ map pool_identity ps) \<Longrightarrow>
     distinct (replay_ids (foldl (\<lambda>s p. try_pool c i t p s) s ps))
     \<and> set (replay_ids (foldl (\<lambda>s p. try_pool c i t p s) s ps)) = set (replay_ids s @ map pool_identity ps)
     \<and> sr_highs (foldl (\<lambda>s p. try_pool c i t p s) s ps) = sr_highs s \<and> sr_lows (foldl (\<lambda>s p. try_pool c i t p s) s ps) = sr_lows s"
proof (induction ps arbitrary: s)
  case (Cons p ps)
  have "distinct (replay_ids (try_pool c i t p s) @ map pool_identity ps)"
    using Cons.prems try_pool_ids by auto
  from Cons.IH [OF this] show ?case by (auto simp: try_pool_ids)
qed simp

lemma sourced_cong: "sr_highs s' = sr_highs s \<Longrightarrow> sr_lows s' = sr_lows s \<Longrightarrow> sourced s' d = sourced s d"
  by (simp only: sourced_def side_times_def)

lemma sweep_pools_ids:
  assumes "ids_ok cs nh nl s"
  shows "ids_ok cs nh nl (sweep_pools c i t s)"
proof -
  let ?u = "s\<lparr> sr_active := [] \<rparr>" and ?ps = "rev (sr_active s)"
  have e: "set (replay_ids ?u @ map pool_identity ?ps) = set (replay_ids s)" "distinct (replay_ids ?u @ map pool_identity ?ps) = distinct (replay_ids s)"
    by (auto simp: replay_ids_def rev_map [symmetric])
  then have "distinct (replay_ids ?u @ map pool_identity ?ps)" using assms by (simp add: ids_ok_def)
  note t = try_pools_ids [OF this, of c i t, folded sweep_pools_def]
  have "sourced (sweep_pools c i t s) d = sourced s d" for d by (rule sourced_cong) (use t in simp_all)
  then show ?thesis using assms e(1) t by (simp add: ids_ok_def)
qed

lemma ids_ok_mono: "ids_ok cs n n s \<Longrightarrow> n \<le> m \<Longrightarrow> ids_ok cs m m s"
  using times_below_mono by (auto simp: ids_ok_def)

lemma replay_step_ids:
  assumes "ids_ok cs (i - k) (i - k) s" and "distinct (map c_openTime cs)" and "i < length cs"
  shows "ids_ok cs (Suc i - k) (Suc i - k) (replay_step cs t k m s i)"
proof (cases "i \<ge> k + k")
  case True
  then have "Suc i - k = Suc (i - k)" "i - k < length cs" using assms(3) by auto
  then show ?thesis using True assms confirm_high_ids confirm_low_ids
    by (auto simp: replay_step_def Let_def intro!: sweep_pools_ids)
next
  case False
  then show ?thesis using ids_ok_mono [OF assms(1), of "Suc i - k"] by (auto simp: replay_step_def Let_def intro!: sweep_pools_ids)
qed

lemma replay_ids_ok:
  assumes "distinct (map c_openTime cs)"
  shows "n \<le> length cs \<Longrightarrow> ids_ok cs (n - k) (n - k) (foldl (replay_step cs t k m) replay_new [0..<n])"
proof (induction n)
  case 0
  show ?case by (simp add: ids_ok_def replay_new_def replay_ids_def times_below_def)
next
  case (Suc n)
  then show ?case using replay_step_ids [OF _ assms] by simp
qed

lemma distinct_last_n_map: "distinct (map f xs) \<Longrightarrow> distinct (map f (last_n n xs))"
  by (simp add: map_last_n last_n_distinct)

section \<open>A sample sweep\<close>

text \<open>A swing high of 7 at the third bar; the sixth bar trades up to 7.5 and closes below it.\<close>

definition sweep_bars :: "candle list" where
  "sweep_bars = [sample_bar 0 4 5 3 4, sample_bar 1 5 6 4 5, sample_bar 2 5 7 (9/2) 6, sample_bar 3 6 6 5 5,
     sample_bar 4 (11/2) (23/4) (21/4) (11/2), sample_bar 5 (11/2) (15/2) (11/2) (13/2)]"

lemmas replay_eval = replay_def replay_new_def replay_step_def sweep_tolerance_def confirm_high_def confirm_low_def isSwingHigh_def
  isSwingLow_def bar_test_def nth_opt_def sweep_bars_def sample_bar_def swing_at_def pools_of_swing_def EQUAL_PAIR_LOOKBACK_def last_n_def
  form_pool_def sweep_pools_def try_pool_def ledger_sweep_def sweeps_low_def sweeps_high_def sweep_of_def math_max_list_def math_max_def
  upt_rec numeral_nat

lemma sample_sweep: "map lw_index (sr_history (replay sweep_bars 1 2 60)) = [5]"
  by (simp add: replay_eval Let_def)

lemma sample_sweep_gone: "sr_history (replay (sweep_bars @ [sample_bar 6 6 (13/2) (23/4) 6]) 4 2 60) = []"
  by (simp add: replay_eval Let_def)

lemma recorded_genuine:
  "list_all (genuine cs (sweep_tolerance a)) (fst (buildSweepLedger cs a k n m))
   \<and> list_all (genuine cs (sweep_tolerance a)) (ls_recentSweeps (detectLiquidity cs su a))"
proof
  show "list_all (genuine cs (sweep_tolerance a)) (fst (buildSweepLedger cs a k n m))"
    by (simp add: buildSweepLedger_def Let_def replay_genuine list_all_last_n)
  have tol: "lp_tolerance p = sweep_tolerance a" if "p \<in> set (snapshot_pools cs su (sweep_tolerance a))" for p
    using that by (auto simp: snapshot_pools_def equal_pools_def swing_pools_def range_pools_def new_pool_def Let_def List.map_filter_def split: if_splits)
  have "genuine cs (sweep_tolerance a) e" if e: "e \<in> set (snapshot_sweeps cs (snapshot_pools cs su (sweep_tolerance a)))" for e
  proof -
    obtain i c where ic: "(i, c) \<in> set (last_n SWEEP_LOOKBACK_CANDLES (zip [0..<length cs] cs))"
      and m: "e \<in> set (List.map_filter (snapshot_sweep c i) (snapshot_pools cs su (sweep_tolerance a)))"
      using e unfolding snapshot_sweeps_def by auto
    obtain p where p: "p \<in> set (snapshot_pools cs su (sweep_tolerance a))" "snapshot_sweep c i p = Some e"
      using m [unfolded map_filter_mem'] by blast
    have "(i, c) \<in> set (zip [0..<length cs] cs)" using ic by (auto simp: last_n_def dest: in_set_dropD)
    then have "i < length cs" "c = cs ! i" by (auto simp: in_set_zip)
    with p show ?thesis using snapshot_genuine [of cs i p e] tol by simp
  qed
  then show "list_all (genuine cs (sweep_tolerance a)) (ls_recentSweeps (detectLiquidity cs su a))"
    by (auto simp: detectLiquidity_def Let_def list_all_iff last_n_def dest!: in_set_dropD)
qed

lemma snapshot_history_genuine:
  "list_all (genuine cs (sweep_tolerance a)) (ls_recentSweeps (detectLiquidity cs su a))"
  "list_all (genuine cs (sweep_tolerance a)) (fst (buildSweepLedger cs a 2 MAX_SWEEP_EVENTS MAX_ACTIVE_POOLS))"
  using recorded_genuine by blast+

section \<open>Properties\<close>

text \<open>Every event of the sweep ledger, and every recent sweep of a snapshot, is genuine: it is the sweep of its own bar, which
  traded beyond the level by more than the tolerance and closed back on the other side, of a pool whose sources are not as late as
  the bar.\<close>

theorem recorded_sweeps_are_genuine:
  "list_all (genuine cs (sweep_tolerance a)) (fst (buildSweepLedger cs a k n m))
   \<and> list_all (genuine cs (sweep_tolerance a)) (ls_recentSweeps (detectLiquidity cs su a))"
  by (rule recorded_genuine)

text \<open>A pool is swept at most once: when bars have distinct open times, no two events of the ledger are of the same pool.\<close>

theorem pool_swept_at_most_once:
  assumes "distinct (map c_openTime cs)"
  shows "distinct (map (\<lambda>e. (lw_poolType e, lw_poolSourceTimes e)) (fst (buildSweepLedger cs a k n m)))"
proof -
  have d: "distinct (map event_id (sr_history (replay cs a k m)))"
    using replay_ids_ok [OF assms order_refl, of k "sweep_tolerance a" m] by (simp add: replay_def ids_ok_def replay_ids_def)
  have "distinct (map (\<lambda>e. (lw_poolType e, lw_poolSourceTimes e)) xs)" if "distinct (map event_id xs)" for xs
    using that unfolding distinct_map by (auto simp: inj_on_def event_id_def)
  then show ?thesis using distinct_last_n_map [OF d] by (simp add: buildSweepLedger_def Let_def)
qed

theorem pool_swept_at_most_once_witness:
  "distinct (map (\<lambda>e. (lw_poolType e, lw_poolSourceTimes e)) (fst (buildSweepLedger sweep_bars 1 2 200 60)))
   \<and> length (fst (buildSweepLedger sweep_bars 1 2 200 60)) = 1"
proof
  show "distinct (map (\<lambda>e. (lw_poolType e, lw_poolSourceTimes e)) (fst (buildSweepLedger sweep_bars 1 2 200 60)))"
    by (rule pool_swept_at_most_once) (simp add: sweep_bars_def sample_bar_def)
  have "length (map lw_index (sr_history (replay sweep_bars 1 2 60))) = 1" unfolding sample_sweep by simp
  then show "length (fst (buildSweepLedger sweep_bars 1 2 200 60)) = 1" by (simp add: buildSweepLedger_def last_n_def Let_def)
qed

text \<open>For one tolerance the history is append-stable: whatever bars follow, the events recorded so far stay as they are, in
  place.\<close>

theorem sweep_history_is_append_stable:
  "take (length (sr_history (replay cs a k m))) (sr_history (replay (cs @ ds) a k m)) = sr_history (replay cs a k m)"
  using replay_history_grows [of cs ds a k m] by auto

text \<open>The tolerance follows the ATR of the window, so a longer window can lose a recorded sweep: one more bar with a larger ATR and the
  sample's event is gone.\<close>

theorem larger_atr_erases_a_recorded_sweep:
  "map lw_index (fst (buildSweepLedger sweep_bars 1 2 200 60)) = [5]
   \<and> fst (buildSweepLedger (sweep_bars @ [sample_bar 6 6 (13/2) (23/4) 6]) 4 2 200 60) = []"
proof -
  have "last_n 200 (sr_history (replay sweep_bars 1 2 60)) = sr_history (replay sweep_bars 1 2 60)"
    using arg_cong [OF sample_sweep, of length] by (intro last_n_all) simp
  then show ?thesis using sample_sweep sample_sweep_gone by (simp add: buildSweepLedger_def last_n_def Let_def)
qed

end
