(* ===== verification/MarketBuild.thy ===== *)
theory MarketBuild
  imports Regime ZoneLedger SweepLedger SetupEngine
begin

text \<open>
  A market state from raw candles: resampling (\<open>src/market/TimeframeEngine.ts\<close>), crowding (\<open>src/market/CrowdingEngine.ts\<close>) and
  the builder with its per-symbol cache (\<open>src/market/MarketStateBuilder.ts\<close>).
\<close>

section \<open>Timeframes\<close>

definition interval_ms :: "timeframe \<Rightarrow> jsnum" where
  "interval_ms tf = TF_MINUTES tf * 60000"

definition bucket_start :: "jsnum \<Rightarrow> candle \<Rightarrow> jsnum" where
  "bucket_start interval c = math_floor (c_openTime c / interval) * interval"

record resampling =
  rs_result :: "candle list"
  rs_start :: jsnum
  rs_bucket :: "candle option"

definition merge_bar :: "candle \<Rightarrow> candle \<Rightarrow> candle" where
  "merge_bar b c = b\<lparr> c_high := math_max (c_high b) (c_high c), c_low := math_min (c_low b) (c_low c), c_close := c_close c,
     c_volume := c_volume b + c_volume c \<rparr>"

definition flush_bucket :: "resampling \<Rightarrow> candle list" where
  "flush_bucket s = rs_result s @ (case rs_bucket s of None \<Rightarrow> [] | Some b \<Rightarrow> [b])"

definition resample_step :: "jsnum \<Rightarrow> resampling \<Rightarrow> candle \<Rightarrow> resampling" where
  "resample_step interval s c =
     (let next = bucket_start interval c;
          s1 = (if js_eq next (rs_start s) then s else \<lparr> rs_result = flush_bucket s, rs_start = next, rs_bucket = None \<rparr>)
      in s1\<lparr> rs_bucket := Some (case rs_bucket s1 of None \<Rightarrow> c\<lparr> c_openTime := rs_start s1 \<rparr> | Some b \<Rightarrow> merge_bar b c) \<rparr>)"

definition resampleCandles :: "candle list \<Rightarrow> timeframe \<Rightarrow> candle list" where
  "resampleCandles cs tf =
     (case sort_by (\<lambda>a b. c_openTime a < c_openTime b) cs of
        [] \<Rightarrow> []
      | c # rest \<Rightarrow>
          flush_bucket (foldl (resample_step (interval_ms tf))
            \<lparr> rs_result = [], rs_start = bucket_start (interval_ms tf) c, rs_bucket = None \<rparr> (c # rest)))"

definition closedCandles :: "candle list \<Rightarrow> candle list" where
  "closedCandles cs = (if length cs \<le> 1 then [] else butlast cs)"

definition nativeOrResampled :: "(timeframe \<Rightarrow> candle list option) \<Rightarrow> timeframe \<Rightarrow> candle list \<Rightarrow> candle list" where
  "nativeOrResampled native tf fallback15m =
     (case native tf of
        Some (c # cs) \<Rightarrow> c # cs
      | _ \<Rightarrow> if tf = TF15m then fallback15m else resampleCandles fallback15m tf)"

section \<open>Pricing, mean reversion, crowding\<close>

definition range_pricing_of :: "candle list \<Rightarrow> range_pricing" where
  "range_pricing_of cs =
     (let sample = last_n 50 cs;
          high = (if sample = [] then 0 else math_max_list (map c_high sample));
          low = (if sample = [] then 0 else math_min_list (map c_low sample));
          equilibrium = (if high > low then (high + low) / 2 else high);
          latest = (case last_opt sample of None \<Rightarrow> 0 | Some c \<Rightarrow> c_close c);
          positionPct = (if high > low then ((latest - low) / (high - low)) * 100 else 50)
      in \<lparr> rp_high = high, rp_low = low, rp_equilibrium = equilibrium, rp_positionPct = positionPct,
           rp_premium = (positionPct > 50), rp_discount = (positionPct < 50) \<rparr>)"

definition mean_reversion_of :: "candle list \<Rightarrow> mean_reversion" where
  "mean_reversion_of cs =
     (let closes = map c_close cs; period = min 20 (length closes)
      in if period < 2
         then \<lparr> mr_mean = None, mr_vwap = None, mr_zscore = None, mr_rsi14 = None, mr_bollingerMiddle = None, mr_bollingerUpper = None,
                mr_bollingerLower = None, mr_deviationPct = None \<rparr>
         else (let bands = bollinger closes period 2; mean = js_mean (last_n period closes); latest = last closes
               in \<lparr> mr_mean = Some mean, mr_vwap = last_opt (vwap cs (min 96 (max 2 (length cs)))), mr_zscore = Some (zscore closes period),
                    mr_rsi14 = last_opt (rsi closes 14), mr_bollingerMiddle = last_opt (bb_middle bands),
                    mr_bollingerUpper = last_opt (bb_upper bands), mr_bollingerLower = last_opt (bb_lower bands),
                    mr_deviationPct = (if js_eq mean 0 then None else Some (((latest - mean) / mean) * 100)) \<rparr>))"

definition holds :: "jsnum option \<Rightarrow> (jsnum \<Rightarrow> bool) \<Rightarrow> bool" where
  "holds x P = (case x of None \<Rightarrow> False | Some v \<Rightarrow> P v)"

definition deriveExtreme :: "jsnum option \<Rightarrow> jsnum option \<Rightarrow> jsnum \<Rightarrow> jsnum option \<Rightarrow> positioning_extreme" where
  "deriveExtreme globalLs topLs fundingRate takerRatio =
     (if holds topLs (\<lambda>x. x \<ge> 17/10) \<or> holds globalLs (\<lambda>x. x \<ge> 15/10) \<and> fundingRate > 1/10000 \<or> holds takerRatio (\<lambda>x. x > 14/10)
      then LONG_CROWDED
      else if holds topLs (\<lambda>x. x \<le> 6/10) \<or> holds globalLs (\<lambda>x. x \<le> 7/10) \<and> fundingRate < - (1/10000) \<or> holds takerRatio (\<lambda>x. x < 7/10)
      then SHORT_CROWDED else BALANCED)"

definition calculateCrowding :: "derivatives_snapshot option \<Rightarrow> jsnum \<Rightarrow> crowding_snapshot" where
  "calculateCrowding derivatives fundingRate =
     (case derivatives of
        None \<Rightarrow> \<lparr> cw_fundingPercentile = None, cw_topTraderVsGlobalBias = None, cw_positioningExtreme = BALANCED,
                  cw_takerAggressionRatio = None, cw_openInterestExpansion = False \<rparr>
      | Some d \<Rightarrow>
          (let globalLs = ds_globalLongShortRatio d;
               topLs = or_else (ds_topTraderPositionLongShortRatio d) (ds_topTraderAccountLongShortRatio d)
           in \<lparr> cw_fundingPercentile = Some (math_max 0 (math_min 100 (50 + (fundingRate / (5/10000)) * 50))),
                cw_topTraderVsGlobalBias = (case (topLs, globalLs) of (Some t, Some g) \<Rightarrow> if g > 0 then Some (t / g) else None | _ \<Rightarrow> None),
                cw_positioningExtreme = deriveExtreme globalLs topLs fundingRate (ds_takerBuySellRatio d),
                cw_takerAggressionRatio = ds_takerBuySellRatio d,
                cw_openInterestExpansion = (value_or 0 (ds_openInterestChangePct d) > 15/10) \<rparr>))"

section \<open>The builder\<close>

record market_input =
  mi_symbol :: string
  mi_candles :: "candle list"
  mi_candlesByTimeframe :: "timeframe \<Rightarrow> candle list option"
  mi_mark :: jsnum
  mi_fundingRate :: jsnum
  mi_derivatives :: "derivatives_snapshot option"

record market_builder =
  mb_cache :: "string \<Rightarrow> market_state option"
  mb_trackers :: "string \<Rightarrow> tracked option"

definition market_builder_new :: market_builder where
  "market_builder_new = \<lparr> mb_cache = (\<lambda>_. None), mb_trackers = (\<lambda>_. None) \<rparr>"

definition atr_or_zero :: "timeframe_state \<Rightarrow> jsnum" where
  "atr_or_zero t = value_or 0 (tf_atr14 t)"

definition breaks_of :: "structure_state \<Rightarrow> structure_break list" where
  "breaks_of su = (case su_breaks su of None \<Rightarrow> [] | Some bs \<Rightarrow> bs)"

definition timeframe_parts :: "timeframe \<Rightarrow> candle list \<Rightarrow> structure_state \<times> liquidity_state \<times> price_zone list \<times> zone_record list" where
  "timeframe_parts tf cs =
     (let a = atr_or_zero (buildTimeframeState cs); su = analyzeStructure cs a 2
      in (su, detectLiquidity cs su a, detectCauseZone tf cs (su_lastBreak su) a,
          buildZoneLedger tf cs a (breaks_of su) DEFAULT_ZONE_EXPIRY_BARS MAX_ZONE_RECORDS))"

definition assemble :: "market_input \<Rightarrow> jsnum \<Rightarrow> regime_snapshot \<Rightarrow> candle list \<Rightarrow> candle list \<Rightarrow> candle list \<Rightarrow> market_state" where
  "assemble input closedTime regime tf15 tf1h tf4h =
     (let (htf, htfLiq, htfZones, htfLedger) = timeframe_parts TF1h tf1h; (ltf, ltfLiq, ltfZones, ltfLedger) = timeframe_parts TF15m tf15
      in \<lparr> ms_symbol = mi_symbol input, ms_generatedAt = closedTime, ms_mark = mi_mark input, ms_fundingRate = mi_fundingRate input,
           ms_regime = regime, ms_tf15m = buildTimeframeState tf15, ms_tf1h = buildTimeframeState tf1h, ms_tf4h = buildTimeframeState tf4h,
           ms_htfStructure = htf, ms_ltfStructure = ltf, ms_htfLiquidity = htfLiq, ms_ltfLiquidity = ltfLiq,
           ms_zones = htfZones @ ltfZones, ms_zoneLedger = Some (htfLedger @ ltfLedger), ms_pricing = range_pricing_of tf1h,
           ms_meanReversion = mean_reversion_of tf15, ms_derivatives = mi_derivatives input,
           ms_crowding = Some (calculateCrowding (mi_derivatives input) (mi_fundingRate input)) \<rparr>)"

definition build_fresh ::
  "regime_options option \<Rightarrow> market_builder \<Rightarrow> market_input \<Rightarrow> jsnum \<Rightarrow> candle list \<Rightarrow> candle list \<Rightarrow> candle list \<Rightarrow> market_builder \<times> market_state" where
  "build_fresh options b input closedTime tf15 tf1h tf4h =
     (let entry = buildTimeframeState tf15; htf = buildTimeframeState tf1h;
          tracker = map_option (\<lambda>ro. update_regime ro (mb_trackers b (mi_symbol input)) closedTime entry htf) options;
          regime = (case tracker of Some t \<Rightarrow> tk_last t | None \<Rightarrow> classifyRegime entry htf);
          state = assemble input closedTime regime tf15 tf1h tf4h
      in (\<lparr> mb_cache = (mb_cache b)(mi_symbol input \<mapsto> state),
            mb_trackers = (case tracker of None \<Rightarrow> mb_trackers b | Some t \<Rightarrow> (mb_trackers b)(mi_symbol input \<mapsto> t)) \<rparr>, state))"

definition build_market :: "regime_options option \<Rightarrow> market_builder \<Rightarrow> market_input \<Rightarrow> market_builder \<times> market_state" where
  "build_market options b input =
     (let fallback15m = closedCandles (mi_candles input); native = mi_candlesByTimeframe input; sym = mi_symbol input;
          tf15 = nativeOrResampled native TF15m fallback15m; tf1h = nativeOrResampled native TF1h fallback15m;
          tf4h = nativeOrResampled native TF4h fallback15m;
          closedTime = (case last_opt tf15 of None \<Rightarrow> 0 | Some c \<Rightarrow> c_openTime c)
      in case mb_cache b sym of
           Some cached \<Rightarrow>
             if js_eq closedTime (ms_generatedAt cached)
             then (let derivatives = or_else (mi_derivatives input) (ms_derivatives cached)
                   in (b, cached\<lparr> ms_mark := mi_mark input, ms_fundingRate := mi_fundingRate input, ms_derivatives := derivatives,
                            ms_crowding := Some (calculateCrowding derivatives (mi_fundingRate input)) \<rparr>))
             else build_fresh options b input closedTime tf15 tf1h tf4h
         | None \<Rightarrow> build_fresh options b input closedTime tf15 tf1h tf4h)"

section \<open>Sane bars stay sane\<close>

definition sane_bar :: "candle \<Rightarrow> bool" where
  "sane_bar c \<longleftrightarrow> finite_bar c \<and> c_low c \<le> math_min (c_open c) (c_close c) \<and> math_max (c_open c) (c_close c) \<le> c_high c"

lemma sane_cases:
  assumes "sane_bar c"
  obtains t o' h l k v where "c_openTime c = Fin t" "c_open c = Fin o'" "c_high c = Fin h" "c_low c = Fin l" "c_close c = Fin k" "c_volume c = Fin v"
    "l \<le> o'" "l \<le> k" "o' \<le> h" "k \<le> h"
  using assms by (auto simp: sane_bar_def finite_bar_def is_finite_iff)

lemma sane_finite: "sane_bar c \<Longrightarrow> finite_bar c"
  by (simp add: sane_bar_def)

lemma merge_sane: "sane_bar b \<Longrightarrow> sane_bar c \<Longrightarrow> sane_bar (merge_bar b c)"
  by (elim sane_cases) (auto simp: sane_bar_def finite_bar_def merge_bar_def)

lemma interval_finite [simp]: "\<exists>r. interval_ms tf = Fin r"
  by (cases tf) (simp_all add: interval_ms_def)

lemma bucket_start_finite: "sane_bar c \<Longrightarrow> is_finite (bucket_start (interval_ms tf) c)"
  by (cases tf) (auto simp: bucket_start_def interval_ms_def elim!: sane_cases)

definition resampling_sane :: "resampling \<Rightarrow> bool" where
  "resampling_sane s \<longleftrightarrow> list_all sane_bar (flush_bucket s) \<and> is_finite (rs_start s)"

lemma resample_step_sane:
  assumes "resampling_sane s" and "sane_bar c"
  shows "resampling_sane (resample_step (interval_ms tf) s c)"
proof -
  have new: "sane_bar (c\<lparr> c_openTime := t \<rparr>)" if "is_finite t" for t
    using assms(2) that by (auto simp: sane_bar_def finite_bar_def)
  show ?thesis
    using assms new bucket_start_finite [OF assms(2), of tf] merge_sane [OF _ assms(2)]
    by (auto simp: resample_step_def resampling_sane_def flush_bucket_def Let_def split: option.splits)
qed

lemma resample_sane:
  assumes "list_all sane_bar cs"
  shows "list_all sane_bar (resampleCandles cs tf)"
proof (cases "sort_by (\<lambda>a b. c_openTime a < c_openTime b) cs")
  case Nil
  then show ?thesis by (simp add: resampleCandles_def)
next
  case (Cons c rest)
  have "set (c # rest) = set cs" using arg_cong [OF Cons, of set] by simp
  then have all: "list_all sane_bar (c # rest)" using assms by (metis list_all_iff)
  have fold: "resampling_sane (foldl (resample_step (interval_ms tf)) s ds)" if "resampling_sane s" "list_all sane_bar ds" for s ds
    using that by (induction ds arbitrary: s) (simp_all add: resample_step_sane)
  have "is_finite (bucket_start (interval_ms tf) c)" using all bucket_start_finite by simp
  then have "resampling_sane (foldl (resample_step (interval_ms tf)) \<lparr> rs_result = [], rs_start = bucket_start (interval_ms tf) c, rs_bucket = None \<rparr> (c # rest))"
    by (intro fold all) (simp add: resampling_sane_def flush_bucket_def)
  then show ?thesis by (simp add: resampleCandles_def Cons resampling_sane_def)
qed

lemma closed_sane: "list_all sane_bar cs \<Longrightarrow> list_all sane_bar (closedCandles cs)"
  by (auto simp: closedCandles_def list_all_iff dest: in_set_butlastD)

section \<open>The parts of a built state are sound\<close>

lemma last_finite_finite: "last_finite xs = Some v \<Longrightarrow> is_finite v"
  by (auto simp: last_finite_def split: option.splits if_splits)

lemma atr_or_zero_finite [simp]: "is_finite (atr_or_zero (buildTimeframeState cs))"
  using last_finite_finite by (auto simp: atr_or_zero_def buildTimeframeState_def value_or_def Let_def split: option.split)

lemma cause_zone_sound:
  assumes "list_all sane_bar cs" and "zone_life tf cs a ex b = Some r"
  shows "is_finite (zr_low r) \<and> zr_low r \<le> zr_high r \<and> is_finite (zr_high r)"
proof -
  obtain z zs where z: "detectCauseZone tf cs (Some b) a = z # zs"
    and r: "r = follow_zone (sb_index b + ex + 1) (bars_after cs (sb_index b)) (new_record cs b z)"
    using assms(2) by (auto simp: zone_life_def split: list.splits)
  obtain i where i: "origin_index cs (sb_direction b) (sb_index b) = Some i" "z = cause_zone tf cs b a i"
    using z by (auto simp: detectCauseZone_def split: option.splits if_splits)
  have "bar_test cs (int i) (\<lambda>c. sb_direction b = BULLISH \<and> c_close c < c_open c \<or> sb_direction b = BEARISH \<and> c_close c > c_open c)"
    using i(1) unfolding origin_index_def by (blast dest: find_Some_iff_set)
  then have "i < length cs" by (auto simp: bar_test_def nth_opt_def split: option.splits if_splits)
  then have "sane_bar (cs ! i)" using assms(1) by (simp add: list_all_length)
  then show ?thesis
    by (elim sane_cases) (auto simp: r new_record_def price_zone.defs i(2) cause_zone_def Let_def)
qed

lemma ledger_sound:
  assumes "list_all sane_bar cs"
  shows "list_all (\<lambda>r. is_finite (zr_low r) \<and> zr_low r \<le> zr_high r \<and> is_finite (zr_high r)) (buildZoneLedger tf cs a breaks ex n)"
  using ledger_record [of _ tf cs a breaks ex n] cause_zone_sound [OF assms] by (fastforce simp: list_all_iff)

lemma genuine_sweep_ok:
  assumes "genuine cs t w" and "list_all sane_bar cs" and "0 < t"
  shows "sweep_ok w"
proof -
  have "sane_bar (cs ! lw_index w)" using assms(1,2) by (simp add: genuine_def list_all_length)
  then obtain t' o' h l k v where c: "c_high (cs ! lw_index w) = Fin h" "c_low (cs ! lw_index w) = Fin l" "c_close (cs ! lw_index w) = Fin k"
    by (elim sane_cases) blast
  show ?thesis
  proof (cases "lw_direction w")
    case SELL_SIDE
    then have "lw_sweepPrice w = Fin l" "Fin l < lw_level w - t" "Fin k > lw_level w"
      using assms(1) c by (auto simp: genuine_def sweeps_low_def Let_def)
    then show ?thesis using SELL_SIDE assms(3) by (cases "lw_level w"; cases t) (auto simp: sweep_ok_def)
  next
    case BUY_SIDE
    then have "lw_sweepPrice w = Fin h" "Fin h > lw_level w + t" "Fin k < lw_level w"
      using assms(1) c by (auto simp: genuine_def sweeps_high_def Let_def)
    then show ?thesis using BUY_SIDE assms(3) by (cases "lw_level w"; cases t) (auto simp: sweep_ok_def)
  qed
qed

lemma tolerance_positive: "is_finite a \<Longrightarrow> 0 < sweep_tolerance a"
  by (auto simp: sweep_tolerance_def is_finite_iff)

definition swings_finite :: "structure_state \<Rightarrow> bool" where
  "swings_finite su \<longleftrightarrow> list_all (\<lambda>s. is_finite (sw_price s)) (su_swingHighs su) \<and> list_all (\<lambda>s. is_finite (sw_price s)) (su_swingLows su)"

lemma structure_swings:
  assumes "list_all sane_bar cs"
  shows "swings_finite (analyzeStructure cs a k)"
proof -
  have "is_finite (c_high (cs ! i)) \<and> is_finite (c_low (cs ! i))" if "i < length cs" for i
    using assms that by (auto simp: list_all_length elim!: sane_cases)
  then have "list_all (\<lambda>s. is_finite (sw_price s)) (fst (findSwingPoints cs k))" "list_all (\<lambda>s. is_finite (sw_price s)) (snd (findSwingPoints cs k))"
    by (auto simp: findSwingPoints_def swing_at_def list_all_iff)
  then show ?thesis by (auto simp: swings_finite_def analyzeStructure_def Let_def case_prod_beta list_all_last_n)
qed

lemma extreme_finite:
  assumes "list_all is_finite xs" and "xs \<noteq> []"
  shows "is_finite (math_max_list xs)" and "is_finite (math_min_list xs)"
proof -
  have "is_finite (math_max_list xs) \<and> is_finite (math_min_list xs)"
    using assms
  proof (induction xs)
    case (Cons x xs)
    then show ?case by (cases xs) (auto simp: math_max_list_def math_min_list_def is_finite_iff math_max_def math_min_def)
  qed simp
  then show "is_finite (math_max_list xs)" "is_finite (math_min_list xs)" by auto
qed

lemma pools_finite:
  assumes "list_all sane_bar cs" and "swings_finite su"
  shows "list_all (\<lambda>p. is_finite (lp_price p)) (snapshot_pools cs su t)"
proof -
  have eq: "list_all (\<lambda>p. is_finite (lp_price p)) (equal_pools ty t ss)" if f: "list_all (\<lambda>s. is_finite (sw_price s)) ss" for ty ss
  proof -
    have "is_finite ((sw_price (ss ! i) + sw_price (ss ! j)) / 2)" if ij: "i < length ss" "j < length ss" for i j
    proof -
      have "\<forall>n<length ss. \<exists>r. sw_price (ss ! n) = Fin r" using f by (simp add: list_all_length is_finite_iff)
      then obtain x y where "sw_price (ss ! i) = Fin x" "sw_price (ss ! j) = Fin y" using ij by blast
      then show ?thesis by simp
    qed
    then show ?thesis by (auto simp: equal_pools_def list_all_iff map_filter_mem' new_pool_def split: if_splits)
  qed
  have sw: "list_all (\<lambda>p. is_finite (lp_price p)) (swing_pools ty t n ss)" if "list_all (\<lambda>s. is_finite (sw_price s)) ss" for ty n ss
    using list_all_last_n [OF that, of 6] by (auto simp: swing_pools_def new_pool_def list_all_iff)
  have "list_all sane_bar (last_n 32 cs)" using assms(1) by (rule list_all_last_n)
  then have "list_all is_finite (map c_high (last_n 32 cs))" "list_all is_finite (map c_low (last_n 32 cs))"
    by (auto simp: list_all_iff elim!: sane_cases)
  then have rg: "list_all (\<lambda>p. is_finite (lp_price p)) (range_pools t cs)"
  proof (cases "last_n 32 cs = []")
    case True
    then show ?thesis by (simp add: range_pools_def Let_def)
  next
    case False
    then show ?thesis using \<open>list_all is_finite (map c_high (last_n 32 cs))\<close> \<open>list_all is_finite (map c_low (last_n 32 cs))\<close> extreme_finite
      by (simp add: range_pools_def new_pool_def Let_def)
  qed
  show ?thesis using assms(2) eq sw rg by (simp add: snapshot_pools_def swings_finite_def Let_def list_all_last_n)
qed

definition liquidity_ok :: "liquidity_state \<Rightarrow> bool" where
  "liquidity_ok l \<longleftrightarrow> list_all (\<lambda>p. is_finite (lp_price p)) (ls_pools l) \<and> list_all sweep_ok (ls_recentSweeps l)
     \<and> (case ls_sweepHistory l of None \<Rightarrow> True | Some h \<Rightarrow> list_all sweep_ok h)"

lemma mark_prices: "map lp_price (markPoolsFromLedger m ps) = map lp_price ps"
  by (auto simp: markPoolsFromLedger_def split: option.split)

lemma liquidity_sound:
  assumes "list_all sane_bar cs" and "swings_finite su" and "is_finite a"
  shows "liquidity_ok (detectLiquidity cs su a)"
proof -
  have "list_all (\<lambda>p. is_finite (lp_price p)) (markPoolsFromLedger m (snapshot_pools cs su t))" for m t
    using pools_finite [OF assms(1,2), of t] arg_cong [OF mark_prices [of m "snapshot_pools cs su t"], of "list_all is_finite"]
    by (simp add: list.pred_map comp_def)
  moreover have "list_all sweep_ok es" if "list_all (genuine cs (sweep_tolerance a)) es" for es
    using that genuine_sweep_ok [OF _ assms(1) tolerance_positive [OF assms(3)]] by (auto simp: list_all_iff)
  ultimately show ?thesis using snapshot_history_genuine(1) [of cs a su] snapshot_history_genuine(2) [of cs a]
    by (simp add: liquidity_ok_def list_all_last_n detectLiquidity_def Let_def)
qed

section \<open>Built states are sound\<close>

definition input_ok :: "market_input \<Rightarrow> bool" where
  "input_ok i \<longleftrightarrow> is_finite (mi_mark i) \<and> list_all sane_bar (mi_candles i)
     \<and> (\<forall>tf cs. mi_candlesByTimeframe i tf = Some cs \<longrightarrow> list_all sane_bar cs)"

lemma series_sane:
  assumes "input_ok i"
  shows "list_all sane_bar (nativeOrResampled (mi_candlesByTimeframe i) tf (closedCandles (mi_candles i)))"
proof -
  have "list_all sane_bar (closedCandles (mi_candles i))" using assms closed_sane by (simp add: input_ok_def)
  moreover have "list_all sane_bar (c # cs)" if "mi_candlesByTimeframe i tf = Some (c # cs)" for c cs
    using assms that unfolding input_ok_def by blast
  ultimately show ?thesis using resample_sane by (auto simp: nativeOrResampled_def split: option.split list.split)
qed

lemma parts_sound:
  assumes "list_all sane_bar cs" and "timeframe_parts tf cs = (su, liq, zones, ledger)"
  shows "liquidity_ok liq" and "list_all (\<lambda>r. is_finite (zr_low r) \<and> zr_low r \<le> zr_high r \<and> is_finite (zr_high r)) ledger"
  using assms(2) liquidity_sound [OF assms(1) structure_swings [OF assms(1)] atr_or_zero_finite] ledger_sound [OF assms(1)]
  by (auto simp: timeframe_parts_def Let_def)

lemma assemble_sound:
  assumes "list_all sane_bar tf15" and "list_all sane_bar tf1h" and "is_finite (mi_mark i)"
  shows "state_ok (assemble i t r tf15 tf1h tf4h)"
proof -
  obtain su liq zs led where h: "timeframe_parts TF1h tf1h = (su, liq, zs, led)" by (cases "timeframe_parts TF1h tf1h") auto
  obtain su' liq' zs' led' where l: "timeframe_parts TF15m tf15 = (su', liq', zs', led')" by (cases "timeframe_parts TF15m tf15") auto
  have "atr15_of (assemble i t r tf15 tf1h tf4h) = atr_or_zero (buildTimeframeState tf15)"
    by (simp add: assemble_def h l atr15_of_def atr_or_zero_def value_or_def split: option.split)
  then show ?thesis using parts_sound [OF assms(2) h] parts_sound [OF assms(1) l] assms(3)
    by (simp add: state_ok_def) (simp add: assemble_def h l all_pools_def zones_of_def liquidity_ok_def)
qed

definition builder_ok :: "market_builder \<Rightarrow> bool" where
  "builder_ok b \<longleftrightarrow> (\<forall>sym st. mb_cache b sym = Some st \<longrightarrow> state_ok st)"

lemma remark_ok:
  "state_ok st \<Longrightarrow> is_finite m \<Longrightarrow> state_ok (st\<lparr> ms_mark := m, ms_fundingRate := f, ms_derivatives := d, ms_crowding := c \<rparr>)"
  by (simp add: state_ok_def atr15_of_def all_pools_def zones_of_def)

lemma build_sound:
  assumes "builder_ok b" and "input_ok i"
  shows "builder_ok (fst (build_market ro b i)) \<and> state_ok (snd (build_market ro b i))"
proof -
  let ?tf = "\<lambda>tf. nativeOrResampled (mi_candlesByTimeframe i) tf (closedCandles (mi_candles i))"
  have m: "is_finite (mi_mark i)" using assms(2) by (simp add: input_ok_def)
  have fresh: "builder_ok (fst (build_fresh ro b i t (?tf TF15m) (?tf TF1h) (?tf TF4h)))
      \<and> state_ok (snd (build_fresh ro b i t (?tf TF15m) (?tf TF1h) (?tf TF4h)))" for t
    using assemble_sound [OF series_sane [OF assms(2)] series_sane [OF assms(2)] m] assms(1)
    by (simp add: build_fresh_def builder_ok_def Let_def)
  show ?thesis
  proof (cases "mb_cache b (mi_symbol i)")
    case None
    then show ?thesis using fresh by (simp add: build_market_def Let_def)
  next
    case (Some cached)
    then have "state_ok cached" using assms(1) by (simp add: builder_ok_def)
    then show ?thesis using Some fresh assms(1) remark_ok [OF _ m] by (simp add: build_market_def Let_def)
  qed
qed

section \<open>Runs of the builder\<close>

fun build_all :: "regime_options option \<Rightarrow> market_builder \<Rightarrow> market_input list \<Rightarrow> market_builder \<times> market_state list" where
  "build_all ro b [] = (b, [])"
| "build_all ro b (i # is') = (let (b1, st) = build_market ro b i; (b2, sts) = build_all ro b1 is' in (b2, st # sts))"

lemma build_all_ok:
  "builder_ok b \<Longrightarrow> list_all input_ok is' \<Longrightarrow> builder_ok (fst (build_all ro b is')) \<and> list_all state_ok (snd (build_all ro b is'))"
proof (induction is' arbitrary: b)
  case (Cons i is')
  then show ?case using build_sound [of b i ro] Cons.IH [of "fst (build_market ro b i)"]
    by (simp add: Let_def case_prod_beta)
qed simp

lemma built_states_ok: "list_all input_ok is' \<Longrightarrow> list_all state_ok (snd (build_all ro market_builder_new is'))"
  using build_all_ok [of market_builder_new is' ro] by (simp add: builder_ok_def market_builder_new_def)

section \<open>Resampling conserves volume\<close>

definition volume_of :: "candle \<Rightarrow> real" where
  "volume_of c = (case c_volume c of Fin r \<Rightarrow> r | _ \<Rightarrow> 0)"

lemma finite_volume: "finite_bar c \<Longrightarrow> c_volume c = Fin (volume_of c)"
  by (auto simp: finite_bar_def volume_of_def is_finite_iff)

lemma volumes_sum: "list_all finite_bar cs \<Longrightarrow> js_sum (map c_volume cs) = Fin (sum_list (map volume_of cs))"
proof -
  assume "list_all finite_bar cs"
  then have "map c_volume cs = map Fin (map volume_of cs)" by (simp add: list_all_iff finite_volume)
  then show ?thesis by (simp del: map_map)
qed

lemma sort_by_sum: "sum_list (map f (sort_by lt xs)) = (sum_list (map f xs) :: real)"
proof -
  have ins: "sum_list (map f (insert_by lt x ys)) = f x + sum_list (map f ys)" for x ys by (induction ys) auto
  have "sum_list (map f (foldl (\<lambda>acc x. insert_by lt x acc) acc xs)) = sum_list (map f acc) + sum_list (map f xs)" for acc
    by (induction xs arbitrary: acc) (simp_all add: ins)
  then show ?thesis by (simp add: sort_by_def)
qed

definition resampling_volume :: "resampling \<Rightarrow> real" where
  "resampling_volume s = sum_list (map volume_of (flush_bucket s))"

lemma resample_step_volume:
  assumes "list_all finite_bar (flush_bucket s)" and "finite_bar c" and "is_finite (rs_start s)" and "is_finite (bucket_start n c)"
  shows "resampling_volume (resample_step n s c) = resampling_volume s + volume_of c
    \<and> list_all finite_bar (flush_bucket (resample_step n s c)) \<and> is_finite (rs_start (resample_step n s c))"
proof -
  have new: "finite_bar (c\<lparr> c_openTime := t \<rparr>)" if "is_finite t" for t using assms(2) that by (simp add: finite_bar_def)
  have v: "volume_of (c\<lparr> c_openTime := t \<rparr>) = volume_of c" for t by (simp add: volume_of_def)
  have m: "finite_bar (merge_bar b c) \<and> volume_of (merge_bar b c) = volume_of b + volume_of c" if "finite_bar b" for b
    using that assms(2) by (auto simp: finite_bar_def merge_bar_def volume_of_def is_finite_iff)
  show ?thesis using assms new v m
    by (auto simp: resample_step_def flush_bucket_def resampling_volume_def Let_def split: option.splits)
qed

lemma resample_volume:
  assumes "list_all finite_bar cs"
  shows "list_all finite_bar (resampleCandles cs tf) \<and> sum_list (map volume_of (resampleCandles cs tf)) = sum_list (map volume_of cs)"
proof (cases "sort_by (\<lambda>a b. c_openTime a < c_openTime b) cs")
  case Nil
  then have "cs = []" using length_sort_by [of "\<lambda>a b. c_openTime a < c_openTime b" cs] by simp
  then show ?thesis by (simp add: resampleCandles_def sort_by_def)
next
  case (Cons c rest)
  have "set (c # rest) = set cs" using arg_cong [OF Cons, of set] by simp
  then have all: "list_all finite_bar (c # rest)" using assms by (metis list_all_iff)
  have start: "is_finite (bucket_start (interval_ms tf) d)" if "finite_bar d" for d
    using that by (cases tf) (auto simp: bucket_start_def interval_ms_def finite_bar_def is_finite_iff)
  have fold: "resampling_volume (foldl (resample_step (interval_ms tf)) s ds) = resampling_volume s + sum_list (map volume_of ds)
      \<and> list_all finite_bar (flush_bucket (foldl (resample_step (interval_ms tf)) s ds))"
    if "list_all finite_bar (flush_bucket s)" "is_finite (rs_start s)" "list_all finite_bar ds" for s ds
    using that
  proof (induction ds arbitrary: s)
    case (Cons d ds)
    then show ?case using resample_step_volume [of s d "interval_ms tf"] start [of d] Cons.IH [of "resample_step (interval_ms tf) s d"] by simp
  qed simp
  let ?s = "\<lparr> rs_result = [], rs_start = bucket_start (interval_ms tf) c, rs_bucket = None \<rparr>"
  have e: "flush_bucket ?s = []" "is_finite (rs_start ?s)" using start all by (simp_all add: flush_bucket_def)
  have "sum_list (map volume_of (c # rest)) = sum_list (map volume_of cs)"
    unfolding Cons [symmetric] by (rule sort_by_sum)
  then show ?thesis using fold [of ?s "c # rest"] e all
    by (simp add: resampleCandles_def Cons resampling_volume_def del: foldl_Cons)
qed

section \<open>A sample breakout\<close>

text \<open>Fourteen quiet bars below a swing high of 105 and a range high of 120, under a rising hour: a breakout through 105 is forming.\<close>

definition flat_bar :: "real \<Rightarrow> real \<Rightarrow> candle" where
  "flat_bar t h = sample_bar (t * 900000) 100 h 99 100"

definition quiet_bars :: "candle list" where
  "quiet_bars = map (\<lambda>(t, h). flat_bar t h) [(1, 120), (2, 101), (3, 101), (4, 101), (5, 101), (6, 101), (7, 101), (8, 105), (9, 101), (10, 101), (11, 101),
     (12, 101), (13, 101), (14, 101)]"

definition hour_bars :: "candle list" where
  "hour_bars = [sample_bar 0 100 101 99 100, sample_bar 3600000 100 102 99 101]"

definition breakout_input :: market_input where
  "breakout_input = \<lparr> mi_symbol = ''BTCUSDT'', mi_candles = [],
     mi_candlesByTimeframe = (\<lambda>tf. Some (if tf = TF15m then quiet_bars else hour_bars)), mi_mark = 100, mi_fundingRate = 0, mi_derivatives = None \<rparr>"

lemma breakout_input_atr: "last_finite (wilderAtr quiet_bars 14) = Some (Fin (51/14))"
  by (simp add: quiet_bars_def flat_bar_def sample_bar_def wilderAtr_def atr_step_def true_range_def num_of_nat_def last_finite_def last_opt_def upt_rec numeral_nat Let_def)

lemma breakout_input_struct: "su_swingHighs (analyzeStructure quiet_bars a 2) = [\<lparr> sw_index = 7, sw_time = 7200000, sw_price = 105 \<rparr>]"
  "su_swingLows (analyzeStructure quiet_bars a 2) = []"
  by (simp_all add: quiet_bars_def flat_bar_def sample_bar_def analyzeStructure_def findSwingPoints_def isSwingHigh_def isSwingLow_def bar_test_def nth_opt_def
    swing_at_def last_n_def upt_rec numeral_nat Let_def)

lemma breakout_input_pools: "map (\<lambda>p. (lp_type p, lp_price p)) (snapshot_pools quiet_bars (analyzeStructure quiet_bars a 2) t)
   = [(SWING_HIGH, 105), (RANGE_HIGH, 120), (RANGE_LOW, 99)]"
  unfolding snapshot_pools_def breakout_input_struct
  by (simp add: equal_pools_def swing_pools_def range_pools_def new_pool_def last_n_def math_max_list_def math_min_list_def math_max_def math_min_def quiet_bars_def flat_bar_def sample_bar_def List.map_filter_simps Let_def)

lemma breakout_input_trend: "inferTrend (buildTimeframeState hour_bars) = BULLISH"
  by (simp add: inferTrend_def buildTimeframeState_def or_else_def value_or_def last_finite_def last_opt_def ema_def ema_step_def emaSlopePct_def num_of_nat_def hour_bars_def sample_bar_def upt_rec Let_def)

lemma breakout_input_replay: "sr_history (replay quiet_bars (Fin (51/14)) 2 60) = []" "sr_swept (replay quiet_bars (Fin (51/14)) 2 60) = (\<lambda>_. None)"
  by (simp_all add: replay_eval quiet_bars_def flat_bar_def Let_def)

lemma mark_none: "markPoolsFromLedger (\<lambda>_. None) ps = ps"
  by (induction ps) (simp_all add: markPoolsFromLedger_def)

lemma fresh_pools: "p \<in> set (snapshot_pools cs su t) \<Longrightarrow> lp_taken p = None"
  by (auto simp: snapshot_pools_def equal_pools_def swing_pools_def range_pools_def new_pool_def map_filter_mem' Let_def split: if_splits)

abbreviation "breakout_atr \<equiv> Fin (51/14)"

lemma breakout_input_liquidity:
  "\<exists>p q r. ls_pools (detectLiquidity quiet_bars (analyzeStructure quiet_bars breakout_atr 2) breakout_atr) = [p, q, r]
     \<and> map (\<lambda>p. (lp_type p, lp_price p, lp_taken p)) [p, q, r] = [(SWING_HIGH, 105, None), (RANGE_HIGH, 120, None), (RANGE_LOW, 99, None)]"
proof -
  let ?ps = "snapshot_pools quiet_bars (analyzeStructure quiet_bars breakout_atr 2) (sweep_tolerance breakout_atr)"
  have len: "length ?ps = 3" using arg_cong [OF breakout_input_pools, of length] by simp
  then have "ls_pools (detectLiquidity quiet_bars (analyzeStructure quiet_bars breakout_atr 2) breakout_atr) = ?ps"
    by (simp add: detectLiquidity_def buildSweepLedger_def breakout_input_replay MAX_ACTIVE_POOLS_def mark_none last_n_all Let_def)
  moreover obtain p q r where p: "?ps = [p, q, r]" using len by (auto simp: numeral_3_eq_3 length_Suc_conv)
  moreover have "\<forall>x\<in>set ?ps. lp_taken x = None" using fresh_pools by blast
  ultimately show ?thesis using breakout_input_pools [of breakout_atr "sweep_tolerance breakout_atr"] by (simp del: js_consts)
qed

lemma breakout_input_hour_pools: "ls_pools (detectLiquidity hour_bars (analyzeStructure hour_bars a 2) a) = []"
  by (simp add: detectLiquidity_def snapshot_pools_def analyzeStructure_def findSwingPoints_def equal_pools_def swing_pools_def range_pools_def
    markPoolsFromLedger_def hour_bars_def last_n_def Let_def)

abbreviation "breakout_state \<equiv> snd (build_market None market_builder_new breakout_input)"

lemma breakout_input_built:
  "ms_mark breakout_state = 100" "ms_symbol breakout_state = ''BTCUSDT''" "ms_regime breakout_state = classifyRegime (buildTimeframeState quiet_bars) (buildTimeframeState hour_bars)"
  "ms_tf15m breakout_state = buildTimeframeState quiet_bars"
  "ms_ltfLiquidity breakout_state = detectLiquidity quiet_bars (analyzeStructure quiet_bars (atr_or_zero (buildTimeframeState quiet_bars)) 2) (atr_or_zero (buildTimeframeState quiet_bars))"
  "ms_htfLiquidity breakout_state = detectLiquidity hour_bars (analyzeStructure hour_bars (atr_or_zero (buildTimeframeState hour_bars)) 2) (atr_or_zero (buildTimeframeState hour_bars))"
  by (simp_all add: build_market_def market_builder_new_def breakout_input_def build_fresh_def assemble_def timeframe_parts_def nativeOrResampled_def
    quiet_bars_def hour_bars_def Let_def)

lemma breakout_input_atr_state: "tf_atr14 (buildTimeframeState quiet_bars) = Some breakout_atr" "atr_or_zero (buildTimeframeState quiet_bars) = breakout_atr"
  using breakout_input_atr by (simp_all add: buildTimeframeState_def atr_or_zero_def value_or_def Let_def)

lemma breakout_input_setups: "sm_scenarios (buildSetupMap breakout_state 2) \<noteq> []"
proof -
  obtain p q r where pools: "all_pools breakout_state = [p, q, r]"
    and f: "lp_type p = SWING_HIGH" "lp_price p = 105" "lp_taken p = None" "lp_type q = RANGE_HIGH" "lp_price q = 120" "lp_type r = RANGE_LOW"
    using breakout_input_liquidity by (auto simp: all_pools_def breakout_input_built breakout_input_hour_pools breakout_input_atr_state simp del: js_consts)
  have trend: "trendOf breakout_state = BULLISH" using breakout_input_trend by (simp add: trendOf_def breakout_input_built classifyRegime_def Let_def)
  have vol: "rg_volatility (ms_regime breakout_state) \<in> {VolLow, VolMedium, VolHigh}" by (cases "rg_volatility (ms_regime breakout_state)") simp_all
  have atr15: "atr15_of breakout_state = breakout_atr" by (simp add: atr15_of_def breakout_input_built breakout_input_atr_state)
  have d: "directionalPool breakout_state LONG 100 = Some p"
    by (simp add: directionalPool_def pools isDirectionalLiquidity_def f further_def)
  have n: "secondDirectionalPool breakout_state LONG 105 0 = Some q"
    by (simp add: secondDirectionalPool_def pools isDirectionalLiquidity_def f further_def GAP_SLACK_def)
  obtain s where "buildBreakout breakout_state LONG breakout_atr 2 = Built s"
    using d n vol
    by (auto simp: buildBreakout_def breakout_input_built f stateForBreakout_def riskReward_def expectedMove_def MAX_STOP_ATR_def Let_def)
  then have "s \<in> set (sm_scenarios (buildSetupMap breakout_state 2))"
    by (simp add: buildSetupMap_def built_all_def trend direction_of_def atr15 List.map_filter_simps Let_def split: option.split)
  then show ?thesis by auto
qed

lemma breakout_input_sane: "list_all input_ok [breakout_input]"
  by (simp add: input_ok_def breakout_input_def quiet_bars_def hour_bars_def flat_bar_def sample_bar_def sane_bar_def finite_bar_def)

section \<open>Properties\<close>

text \<open>Setups derived from candles are sound: after any run of builds, cache hits and resampled timeframes included, on bars whose
  extremes bound their open and close, every setup derived from the built state has its stop on the losing side, its targets on the
  profit side and at least the required reward for its risk.\<close>

theorem setups_from_candles_are_sound:
  assumes "list_all input_ok is'" and "1 \<le> m" and "st \<in> set (snd (build_all ro market_builder_new is'))"
  shows "list_all (\<lambda>s. sound_setup (atr15_of st) (Fin m) s) (sm_scenarios (buildSetupMap st (Fin m)))"
proof -
  have "state_ok st" using built_states_ok [OF assms(1), of ro] assms(3) by (auto simp: list_all_iff)
  then show ?thesis using setups_sound [OF _ assms(2), of st] by (simp add: list_all_iff)
qed

theorem setups_from_candles_are_sound_witness:
  "sm_scenarios (buildSetupMap breakout_state 2) \<noteq> []
   \<and> list_all (\<lambda>s. sound_setup (atr15_of breakout_state) (Fin 2) s) (sm_scenarios (buildSetupMap breakout_state (Fin 2)))"
proof
  show "list_all (\<lambda>s. sound_setup (atr15_of breakout_state) (Fin 2) s) (sm_scenarios (buildSetupMap breakout_state (Fin 2)))"
  proof (rule setups_from_candles_are_sound [of "[breakout_input]" _ _ None])
    show "list_all input_ok [breakout_input]" by (rule breakout_input_sane)
    show "breakout_state \<in> set (snd (build_all None market_builder_new [breakout_input]))" by (simp add: case_prod_beta Let_def)
  qed simp
qed (rule breakout_input_setups)

text \<open>Resampling conserves volume: over finite bars, in whatever order they come, the buckets' volumes add up to the bars'.\<close>

theorem resampling_conserves_volume:
  assumes "list_all finite_bar cs"
  shows "js_sum (map c_volume (resampleCandles cs tf)) = js_sum (map c_volume cs)"
  using resample_volume [OF assms, of tf] volumes_sum assms by simp

theorem resampling_conserves_volume_witness:
  "js_sum (map c_volume (resampleCandles demo_candles TF1h)) = js_sum (map c_volume demo_candles) \<and> js_sum (map c_volume demo_candles) = 3"
proof
  show "js_sum (map c_volume (resampleCandles demo_candles TF1h)) = js_sum (map c_volume demo_candles)"
    by (rule resampling_conserves_volume) (simp add: demo_candles_def finite_bar_def)
qed (simp add: demo_candles_def js_sum_def)

end
