(* ===== verification/Spec2Isabelle.thy ===== *)
theory Spec2Isabelle
  imports TrailingRegistry TrailingStore PositionDriver FoldPartials RiskEngine PositionSizer Liquidation EquityHwm
    PaperEngine PmStore MicroFriction SmcCoordinator OptionsEngine KillSwitch LiveEntry LiveJournal DecisionCycle MarketBuild
begin

text \<open>
  A verification development of the crypto trading agent, a TypeScript program under \<open>src/src\<close> that trades perpetual
  futures and options on Binance, on paper or live. The development follows the money: how a market state comes about, how
  it becomes a setup and a signal, which guards an entry passes, how it is sized, sent and protected, how the open position is
  trailed and reduced, and how the result is booked. This theory imports all others; its one property crosses components.

  \<^bold>\<open>The program.\<close> The orchestrator (\<open>runtime/Orchestrator.ts\<close>) wakes per symbol. It reads candles and derivatives
  data, lets the market layer build a \<open>MarketState\<close>, lets the decision layer derive setups, give them identities, judge them
  and keep one thesis per symbol, asks a council of language models for a verdict and turns it into an entry signal. The risk
  agent gates every signal; the venue (the paper engine, or the live entry tracker and live book) executes it; the position driver
  carries the position manager's decisions to the venue. Beside it run the SMC-ML lifecycle, the options engine with
  its own venue, the microstructure engine whose friction gate can veto an entry, and the trailing engine. State that outlives a
  process is kept in small JSON files.

  \<^bold>\<open>Foundations.\<close>
  \<^item> \<open>Prelude\<close>: collections of simplification facts, runs of an operation over a list, list and map facts.
  \<^item> \<open>JsNum\<close>, \<open>JsMath\<close>: JavaScript's numbers as finite, infinite or \<open>NaN\<close>, with the comparisons as IEEE 754 has them.
  \<^item> \<open>Interfaces\<close>: the locales \<open>guarded_machine\<close>, \<open>event_machine\<close>, \<open>gated_machine\<close>, \<open>durable_store\<close> and
    \<open>idempotent_desk\<close>, each interpreted on the definitions of the components that promise its laws.
  \<^item> \<open>CoreTypes\<close> (\<open>types.ts\<close>, \<open>binance/stopRules.ts\<close>), \<open>SymbolRules\<close> (\<open>binance/symbolRules.ts\<close>), \<open>DecimalOps\<close>
    (\<open>risk/primitives.ts\<close> over decimal.js).

  \<^bold>\<open>Market.\<close>
  \<^item> \<open>MarketTypes\<close> (\<open>market/types.ts\<close>, \<open>MarketDataTypes.ts\<close>, \<open>FlowTracker.ts\<close>): the market state and the flow tracker.
  \<^item> \<open>Indicators\<close> (\<open>binance/indicators.ts\<close>): the series keep one value per bar, stay in their ranges and never look ahead.
  \<^item> \<open>StructureLog\<close> (\<open>StructureEngine.ts\<close>, \<open>StructureEventLog.ts\<close>): swings and breaks. The one-pass log is the history of what
    the latest-break search reports on every prefix, and it only grows.
  \<^item> \<open>ZoneLedger\<close> (\<open>ZoneEngine.ts\<close>, \<open>ZoneLedger.ts\<close>), \<open>SweepLedger\<close> (\<open>LiquidityEngine.ts\<close>, \<open>SweepLedger.ts\<close>): zones only
    advance through their stages; every recorded sweep is genuine and a pool is swept at most once.
  \<^item> \<open>Regime\<close> (\<open>RegimeEngine.ts\<close>, \<open>RegimeScoring.ts\<close>, \<open>VolatilityPhase.ts\<close>): the hysteresis holds a regime for its dwell and
    adopts a persistent one.
  \<^item> \<open>MarketBuild\<close> (\<open>TimeframeEngine.ts\<close>, \<open>CrowdingEngine.ts\<close>, \<open>MarketStateBuilder.ts\<close>): sane bars give a well-formed state.
  \<^item> \<open>MarketSafety\<close> (\<open>MarketSafety.ts\<close>, \<open>ShockDetector.ts\<close>): when the shock state is entered and left.

  \<^bold>\<open>Decision.\<close>
  \<^item> \<open>SetupTypes\<close>, \<open>SetupEngine\<close>, \<open>SetupQuality\<close>, \<open>SetupLedger\<close> (\<open>decision/Setup*.ts\<close>, \<open>liquidityTargets.ts\<close>,
    \<open>NoTrade.ts\<close>): geometry of derived setups, the verdict, and the identity of a setup along the cycles.
  \<^item> \<open>Thesis\<close> (\<open>ThesisController.ts\<close>): a thesis flips only for one of the stated reasons.
  \<^item> \<open>DecisionCycle\<close> (\<open>Orchestrator.ts\<close>, \<open>llm/TradingCouncil.ts\<close>, \<open>CouncilSignal.ts\<close>): the cycle composed; a signal pays.

  \<^bold>\<open>Risk.\<close>
  \<^item> \<open>RiskLimits\<close>, \<open>PositionSizer\<close>, \<open>Liquidation\<close>, \<open>RiskEngine\<close>, \<open>RrProfile\<close>, \<open>EquityHwm\<close> (\<open>risk/*.ts\<close>): limits and
    circuit, sizing within every ceiling, liquidation behind the stop, the gate's checks, floors on reward to risk, the persisted peak.
  \<^item> \<open>RiskGate\<close> (\<open>agents/RiskAgent.ts\<close>): what an approval implies. \<open>gate_sized\<close> ties the sizing to the gate's own request,
    \<open>within_limits\<close> lists the limits.
  \<^item> \<open>KillSwitch\<close> (\<open>ops/killSwitch.ts\<close>): the halt and its file.

  \<^bold>\<open>Positions.\<close>
  \<^item> \<open>TrailingTypes\<close>, \<open>TrailingFsm\<close>, \<open>TrailingPrice\<close>, \<open>TrailingStructure\<close>, \<open>TrailingEngine\<close>, \<open>TrailingRegistry\<close>,
    \<open>TrailingStore\<close> (\<open>trailing/*.ts\<close>): the ratchet, the transition table, policies and persistence.
  \<^item> \<open>PositionManager\<close>, \<open>PmStore\<close>, \<open>PositionDriver\<close>, \<open>FoldPartials\<close> (\<open>position/*.ts\<close>): partials, stop moves, the venue's
    refusals and the folded journal.
  \<^item> \<open>PaperEngine\<close> (\<open>binance/paperEngine.ts\<close>): the simulated venue, wallet and journal in step.
  \<^item> \<open>LiveBook\<close>, \<open>LiveEntry\<close>, \<open>LiveProtection\<close>, \<open>LiveJournal\<close> (\<open>binance/live*.ts\<close>): live positions, from the entry order
    to the journal built out of the venue's executions.
  \<^item> \<open>SmcLifecycle\<close>, \<open>SmcCoordinator\<close> (\<open>strategies/smc-ml/SmcTradeLifecycle*.ts\<close>): the pure step and its coordinator.

  \<^bold>\<open>Microstructure and options.\<close>
  \<^item> \<open>OrderBook\<close>, \<open>MicroFlow\<close>, \<open>MicroFriction\<close> (\<open>microstructure/*.ts\<close>): a live book is a gap-free replay, the pruned flow
    windows are exact, the friction gate fails closed.
  \<^item> \<open>OptionExit\<close>, \<open>OptionPlanner\<close>, \<open>OptionVenue\<close>, \<open>OptionsEngine\<close> (\<open>options/*.ts\<close>): one position machine per
    underlying, planning within three ceilings, the local venue, and the engine's passes with the calls they send.

  \<^bold>\<open>How the code is translated.\<close> An interface or class is a record, a union of literals a datatype, a method a function from the state
  to the new state and its result. What the outside answers (a venue, a model, a file, the clock) is an input of the step, so a
  theorem over all inputs covers every answer; a call that throws is an answer of its own. Calls whose order matters are appended to a
  log. Maps keep their insertion order as association lists where the order is read, and are functions otherwise. \<open>null\<close> and
  \<open>undefined\<close> are one missing value. Printed reasons are constructors carrying the values they print. Loops are total recursions over
  the list or the whole number they run through; only the page loop of the journal's sync may not end and is a
  \<open>partial_function\<close> (\<open>None\<close> when the venue's pages never stop), with its return proved from the venue's answers. No definition uses
  fuel. Runs are lists of operations of any length.

  \<^bold>\<open>Idealisations.\<close>
  \<^item> Finite arithmetic is exact: no rounding to 53 bits, no overflow, one zero.
  \<^item> decimal.js is a parameter with two documented laws: an exact result of at most forty digits is returned
    (\<open>decimal_laws\<close>), any other is rounded at the fortieth (\<open>decimal_rounds\<close>). The exact instance only shows that the laws can hold.
  \<^item> A venue call that throws has no effect at the venue (\<open>LiveBook.after_call\<close>, \<open>LiveEntry.legs_after\<close>).
  \<^item> A pass runs to its end. Between the awaits of a pass of the coordinator an update can arrive, and a concurrent pass of the
    position driver can delete a key another one is working on; neither is modelled.
  \<^item> The options engine's save of its state succeeds; in the code one that throws ends the pass before the order is sent.

  \<^bold>\<open>Where the code departs from its intent.\<close> Theorems show that the opening fee can be charged to an earlier close and a late
  funding line is never charged (\<open>LiveJournal\<close>), that a failed flatten can resolve an entry unprotected (\<open>LiveEntry\<close>), that breakout
  ids collide on low-priced symbols (\<open>SetupEngine\<close>), that a larger ATR erases recorded sweeps and rescales past breaks
  (\<open>SweepLedger\<close>, \<open>StructureLog\<close>), and others named in their theories.

  \<^bold>\<open>Not modelled.\<close> REST, sockets and files beyond their outcome; the timers and wiring of the orchestrator; Telegram,
  console and dashboard; prompts and the models themselves; the agents that only propose signals (each proposal passes the modelled
  gate); the statistical scoring of the SMC-ML engine; option pricing and contract selection, whose answers are inputs of the options
  engine; backtesting, research, playbooks, learning, briefs and scripts, which place no order.
\<close>

section \<open>Properties across components\<close>



end
